(* ===== verification/Arena.thy ===== *)
theory Arena
  imports Prelude
begin

unbundle bit_operations_syntax

text \<open>
  The bump allocator of \<^verbatim>\<open>compiler/src/common/arena.c\<close>. An arena is a stack of blocks, the
  newest first; a pointer into it is the number of blocks under the block it lies in, and a byte
  offset. Sizes are \<^verbatim>\<open>size_t\<close>, 64 bits, so the rounding to a multiple of 8 and the test
  \<^verbatim>\<open>used + size > cap\<close> wrap as they do in C. The C code does not test the result of \<^verbatim>\<open>malloc\<close>;
  the model is of runs in which it succeeds, and gives a fresh block arbitrary contents.
\<close>

type_synonym size_t = "64 word"

record arena_block =
  used :: size_t
  cap :: size_t
  data :: "nat \<Rightarrow> char"

record arena =
  blocks :: "arena_block list"

type_synonym aptr = "nat \<times> nat"

definition BLOCK_SIZE :: size_t where
  "BLOCK_SIZE = 1024 * 64"

definition arena_init :: arena where
  "arena_init = \<lparr>blocks = []\<rparr>"

definition align8 :: "size_t \<Rightarrow> size_t" where
  "align8 sz = (sz + 7) AND NOT 7"

text \<open>\<^verbatim>\<open>malloc\<close> of a block: \<open>junk\<close> is whatever the memory held.\<close>

definition needs_block :: "arena \<Rightarrow> size_t \<Rightarrow> bool" where
  "needs_block a sz \<longleftrightarrow>
     (case blocks a of [] \<Rightarrow> True | b # _ \<Rightarrow> cap b < used b + sz)"

definition new_block :: "(nat \<Rightarrow> char) \<Rightarrow> size_t \<Rightarrow> arena_block" where
  "new_block junk sz = \<lparr>used = 0, cap = (if BLOCK_SIZE < sz then sz else BLOCK_SIZE), data = junk\<rparr>"

definition grow :: "(nat \<Rightarrow> char) \<Rightarrow> arena \<Rightarrow> size_t \<Rightarrow> arena" where
  "grow junk a sz =
     (if needs_block a sz then a\<lparr>blocks := new_block junk sz # blocks a\<rparr> else a)"

text \<open>\<^verbatim>\<open>memset(p, c, n)\<close> and \<^verbatim>\<open>memcpy(p, s, len)\<close> on the bytes of a block.\<close>

definition mem_set :: "(nat \<Rightarrow> char) \<Rightarrow> nat \<Rightarrow> nat \<Rightarrow> char \<Rightarrow> nat \<Rightarrow> char" where
  "mem_set m p n c = (\<lambda>i. if p \<le> i \<and> i < p + n then c else m i)"

definition mem_cpy :: "(nat \<Rightarrow> char) \<Rightarrow> nat \<Rightarrow> string \<Rightarrow> nat \<Rightarrow> char" where
  "mem_cpy m p s = (\<lambda>i. if p \<le> i \<and> i < p + length s then s ! (i - p) else m i)"

definition bump :: "arena_block \<Rightarrow> size_t \<Rightarrow> arena_block" where
  "bump b sz =
     b\<lparr>used := used b + sz, data := mem_set (data b) (unat (used b)) (unat sz) NUL\<rparr>"

definition arena_alloc :: "(nat \<Rightarrow> char) \<Rightarrow> arena \<Rightarrow> size_t \<Rightarrow> aptr \<times> arena" where
  "arena_alloc junk a sz0 =
     (let sz = align8 sz0;
          a1 = grow junk a sz
      in case blocks a1 of
           [] \<Rightarrow> ((0, 0), a1)
         | b # bs \<Rightarrow> ((length bs, unat (used b)), a1\<lparr>blocks := bump b sz # bs\<rparr>))"

definition write_head :: "arena \<Rightarrow> nat \<Rightarrow> string \<Rightarrow> arena" where
  "write_head a p s =
     (case blocks a of
        [] \<Rightarrow> a
      | b # bs \<Rightarrow> a\<lparr>blocks := b\<lparr>data := mem_cpy (data b) p s\<rparr> # bs\<rparr>)"

text \<open>The copy of \<^verbatim>\<open>len\<close> bytes is always into the block that was allocated last.\<close>

definition arena_strdup :: "(nat \<Rightarrow> char) \<Rightarrow> arena \<Rightarrow> string \<Rightarrow> aptr \<times> arena" where
  "arena_strdup junk a s =
     (let (p, a1) = arena_alloc junk a (of_nat (length s) + 1);
          a2 = write_head a1 (snd p) s
      in (p, write_head a2 (snd p + length s) [NUL]))"

definition arena_free :: "arena \<Rightarrow> arena" where
  "arena_free a = a\<lparr>blocks := []\<rparr>"

text \<open>The block a pointer lies in, and reading a byte through a pointer.\<close>

definition block_of :: "arena \<Rightarrow> nat \<Rightarrow> arena_block option" where
  "block_of a k =
     (if k < length (blocks a) then Some (rev (blocks a) ! k) else None)"

definition read_byte :: "arena \<Rightarrow> aptr \<Rightarrow> char option" where
  "read_byte a p =
     (case block_of a (fst p) of
        None \<Rightarrow> None
      | Some b \<Rightarrow> (if snd p < unat (cap b) then Some (data b (snd p)) else None))"

fun read_bytes :: "arena \<Rightarrow> aptr \<Rightarrow> nat \<Rightarrow> string option" where
  "read_bytes a p 0 = Some []"
| "read_bytes a (k, i) (Suc n) =
     (case read_byte a (k, i) of
        None \<Rightarrow> None
      | Some c \<Rightarrow> map_option ((#) c) (read_bytes a (k, Suc i) n))"


subsection \<open>Rounding\<close>

lemma align8_eq: "align8 sz = (sz + 7) - take_bit 3 (sz + 7)"
proof -
  have m: "(7 :: size_t) = mask 3" by (simp add: mask_eq_exp_minus_1)
  have "(sz + 7) - take_bit 3 (sz + 7) = (sz + 7) AND NOT (take_bit 3 (sz + 7))"
    by (rule disjunctive_diff) (simp add: bit_take_bit_iff)
  also have "\<dots> = (sz + 7) AND NOT 7"
    unfolding m by (rule bit_eqI) (auto simp: bit_simps)
  finally show ?thesis by (simp add: align8_def)
qed

lemma unat_add_no_wrap:
  "unat x + unat y < 2 ^ 64 \<Longrightarrow> unat (x + y) = unat x + unat (y :: size_t)"
  by (simp add: unat_word_ariths)

lemma unat_align8:
  assumes "unat sz < 2 ^ 64 - 7"
  shows "unat (align8 sz) = (unat sz + 7) div 8 * 8"
proof -
  have sum: "unat (sz + 7) = unat sz + 7"
    using assms by (subst unat_add_no_wrap) simp_all
  have low: "unat (take_bit 3 (sz + 7)) = (unat sz + 7) mod 8"
    unfolding unsigned_take_bit_eq sum by (simp add: take_bit_eq_mod)
  have "unat (take_bit 3 (sz + 7)) \<le> unat (sz + 7)"
    unfolding low sum by (rule mod_less_eq_dividend)
  then have "unat (align8 sz) = unat sz + 7 - (unat sz + 7) mod 8"
    unfolding align8_eq by (simp add: unat_sub word_le_nat_alt low sum)
  then show ?thesis
    by (simp add: minus_mod_eq_div_mult)
qed

text \<open>The sizes the compiler asks for are far below the bound under which nothing wraps.\<close>

definition size_ok :: "size_t \<Rightarrow> bool" where
  "size_ok sz \<longleftrightarrow> unat sz \<le> 2 ^ 62"

lemma align8_bounds:
  assumes "size_ok sz"
  shows "unat sz \<le> unat (align8 sz)" "unat (align8 sz) \<le> 2 ^ 62" "8 dvd unat (align8 sz)"
proof -
  have eq: "unat (align8 sz) = (unat sz + 7) div 8 * 8"
    using assms by (intro unat_align8) (simp add: size_ok_def)
  show "unat sz \<le> unat (align8 sz)" unfolding eq by linarith
  show "8 dvd unat (align8 sz)" unfolding eq by simp
  have "unat sz + 7 \<le> 2 ^ 59 * 8 + 7" using assms by (simp add: size_ok_def)
  then have "(unat sz + 7) div 8 \<le> (2 ^ 59 * 8 + 7) div 8" by (rule div_le_mono)
  then show "unat (align8 sz) \<le> 2 ^ 62" unfolding eq by simp
qed

subsection \<open>The invariant of an arena\<close>

definition block_inv :: "arena_block \<Rightarrow> bool" where
  "block_inv b \<longleftrightarrow> used b \<le> cap b \<and> unat (cap b) \<le> 2 ^ 62 \<and> 8 dvd unat (used b)"

definition arena_inv :: "arena \<Rightarrow> bool" where
  "arena_inv a \<longleftrightarrow> list_all block_inv (blocks a)"

lemma arena_inv_init: "arena_inv arena_init"
  by (simp add: arena_inv_def arena_init_def)

lemma block_inv_new: "unat sz \<le> 2 ^ 62 \<Longrightarrow> block_inv (new_block junk sz)"
  by (simp add: block_inv_def new_block_def BLOCK_SIZE_def)

lemma grow_head:
  assumes "arena_inv a" "unat sz \<le> 2 ^ 62"
  shows "\<exists>b bs. blocks (grow junk a sz) = b # bs \<and> block_inv b \<and> list_all block_inv bs
           \<and> unat (used b) + unat sz \<le> unat (cap b)"
proof (cases "needs_block a sz")
  case True
  have "unat sz \<le> unat (cap (new_block junk sz))"
    by (simp add: new_block_def word_less_nat_alt)
  moreover have "used (new_block junk sz) = 0" by (simp add: new_block_def)
  ultimately show ?thesis
    using True assms by (simp add: grow_def arena_inv_def block_inv_new)
next
  case False
  then obtain b bs where bl: "blocks a = b # bs" and fits: "used b + sz \<le> cap b"
    by (auto simp: needs_block_def split: list.splits)
  have bi: "block_inv b" using assms(1) bl by (simp add: arena_inv_def)
  have "unat (used b) \<le> 2 ^ 62"
    using bi by (auto simp: block_inv_def word_le_nat_alt)
  then have "unat (used b + sz) = unat (used b) + unat sz"
    using assms(2) by (intro unat_add_no_wrap) simp
  then show ?thesis
    using False bl bi fits assms(1) by (auto simp: grow_def arena_inv_def word_le_nat_alt)
qed

lemma bump_inv:
  assumes "block_inv b" "unat (used b) + unat sz \<le> unat (cap b)" "8 dvd unat sz"
  shows "block_inv (bump b sz)" "unat (used (bump b sz)) = unat (used b) + unat sz"
proof -
  have "unat (used b + sz) = unat (used b) + unat sz"
    using assms(1,2) by (intro unat_add_no_wrap) (simp add: block_inv_def)
  then show "unat (used (bump b sz)) = unat (used b) + unat sz" by (simp add: bump_def)
  with assms show "block_inv (bump b sz)" by (simp add: block_inv_def bump_def word_le_nat_alt)
qed

lemma arena_alloc_blocks:
  assumes "arena_inv a" "size_ok sz" "arena_alloc junk a sz = (p, a')"
  obtains b bs where "blocks (grow junk a (align8 sz)) = b # bs"
    "blocks a' = bump b (align8 sz) # bs" "p = (length bs, unat (used b))"
    "block_inv b" "list_all block_inv bs" "block_inv (bump b (align8 sz))"
    "unat (used (bump b (align8 sz))) = unat (used b) + unat (align8 sz)"
proof -
  obtain b bs where g: "blocks (grow junk a (align8 sz)) = b # bs" "block_inv b"
      "list_all block_inv bs" "unat (used b) + unat (align8 sz) \<le> unat (cap b)"
    using grow_head [OF assms(1) align8_bounds(2) [OF assms(2)]] by blast
  note bi = bump_inv [OF g(2,4) align8_bounds(3) [OF assms(2)]]
  show thesis
    using assms(3) g bi by (intro that [of b bs]) (auto simp: arena_alloc_def Let_def)
qed

lemma arena_alloc_inv:
  assumes "arena_inv a" "size_ok sz"
  shows "arena_inv (snd (arena_alloc junk a sz))"
proof -
  obtain p a' where e: "arena_alloc junk a sz = (p, a')" by fastforce
  show ?thesis
    by (rule arena_alloc_blocks [OF assms e]) (simp add: e arena_inv_def)
qed

subsection \<open>Live bytes\<close>

text \<open>A byte is live when it lies below the mark of its block: it belongs to an allocation.\<close>

definition live :: "arena \<Rightarrow> aptr \<Rightarrow> bool" where
  "live a q \<longleftrightarrow> (case block_of a (fst q) of None \<Rightarrow> False | Some b \<Rightarrow> snd q < unat (used b))"

lemma block_of_Cons:
  "blocks a = b # bs \<Longrightarrow>
   block_of a k = (if k = length bs then Some b
                   else if k < length bs then Some (rev bs ! k) else None)"
  by (auto simp: block_of_def nth_append)

lemma block_of_grow:
  "block_of a k = Some b \<Longrightarrow> block_of (grow junk a sz) k = Some b"
  by (auto simp: block_of_def grow_def nth_append split: if_splits)

lemma grow_live: "live (grow junk a sz) q = live a q"
  by (auto simp: live_def grow_def block_of_def nth_append new_block_def split: if_splits)

text \<open>What one allocation does: the bytes it returns were dead, are live now and are zero.\<close>

lemma arena_alloc_fresh:
  assumes "arena_inv a" "size_ok sz" "arena_alloc junk a sz = (p, a')" "i < unat sz"
  shows "\<not> live a (fst p, snd p + i)" "live a' (fst p, snd p + i)"
    "read_byte a' (fst p, snd p + i) = Some NUL" "8 dvd snd p"
proof -
  obtain b bs where h: "blocks (grow junk a (align8 sz)) = b # bs"
    "blocks a' = bump b (align8 sz) # bs" "p = (length bs, unat (used b))" "block_inv b"
    "block_inv (bump b (align8 sz))"
    "unat (used (bump b (align8 sz))) = unat (used b) + unat (align8 sz)"
    by (rule arena_alloc_blocks [OF assms(1-3)])
  have lt: "i < unat (align8 sz)"
    using assms(4) align8_bounds(1) [OF assms(2)] by simp
  have "unat (used (bump b (align8 sz))) \<le> unat (cap (bump b (align8 sz)))"
    using h(5) by (simp add: block_inv_def word_le_nat_alt)
  then have le: "unat (used b) + i < unat (cap (bump b (align8 sz)))"
    using lt h(6) by simp
  have "\<not> live (grow junk a (align8 sz)) (fst p, snd p + i)"
    using h(1,3) by (simp add: live_def block_of_Cons)
  then show "\<not> live a (fst p, snd p + i)" by (simp add: grow_live)
  show "live a' (fst p, snd p + i)"
    using h(2,3,6) lt by (simp add: live_def block_of_Cons)
  show "read_byte a' (fst p, snd p + i) = Some NUL"
    using h(2,3) lt le by (simp add: read_byte_def block_of_Cons) (simp add: bump_def mem_set_def)
  show "8 dvd snd p" using h(3,4) by (simp add: block_inv_def)
qed

lemma arena_alloc_keeps:
  assumes "arena_inv a" "size_ok sz" "arena_alloc junk a sz = (p, a')" "live a q"
  shows "live a' q" "read_byte a' q = read_byte a q"
proof -
  obtain b bs where h: "blocks (grow junk a (align8 sz)) = b # bs"
    "blocks a' = bump b (align8 sz) # bs"
    "unat (used (bump b (align8 sz))) = unat (used b) + unat (align8 sz)"
    by (rule arena_alloc_blocks [OF assms(1-3)])
  obtain c where c: "block_of a (fst q) = Some c" "snd q < unat (used c)"
    using assms(4) by (auto simp: live_def split: option.splits)
  have g: "block_of (grow junk a (align8 sz)) (fst q) = Some c"
    using c(1) by (rule block_of_grow)
  show "live a' q"
    using g h c(2) by (auto simp: live_def block_of_Cons split: if_splits)
  show "read_byte a' q = read_byte a q"
    using g h c by (auto simp: read_byte_def block_of_Cons bump_def mem_set_def split: if_splits)
qed

subsection \<open>The interface the compiler's other parts rely on\<close>

text \<open>
  The lexer, the parser and the driver take memory and never give it back before the end. What
  they rely on is that an allocation returns bytes nothing else uses, zeroed, and leaves every
  byte handed out before as it was.
\<close>

definition region :: "aptr \<Rightarrow> size_t \<Rightarrow> aptr set" where
  "region p sz = {(fst p, snd p + i) | i. i < unat sz}"

fun alloc_all :: "('a \<Rightarrow> size_t \<Rightarrow> aptr \<times> 'a) \<Rightarrow> 'a \<Rightarrow> size_t list \<Rightarrow> aptr list \<times> 'a" where
  "alloc_all alloc a [] = ([], a)"
| "alloc_all alloc a (n # ns) =
     (let (p, a1) = alloc a n; (ps, a2) = alloc_all alloc a1 ns in (p # ps, a2))"

locale allocator =
  fixes alloc :: "'a \<Rightarrow> size_t \<Rightarrow> aptr \<times> 'a"
    and is_live :: "'a \<Rightarrow> aptr \<Rightarrow> bool"
    and rd :: "'a \<Rightarrow> aptr \<Rightarrow> char option"
    and inv :: "'a \<Rightarrow> bool"
  assumes inv_alloc: "inv a \<Longrightarrow> size_ok n \<Longrightarrow> inv (snd (alloc a n))"
    and fresh: "inv a \<Longrightarrow> size_ok n \<Longrightarrow> alloc a n = (p, a') \<Longrightarrow> q \<in> region p n \<Longrightarrow> \<not> is_live a q"
    and now_live: "inv a \<Longrightarrow> size_ok n \<Longrightarrow> alloc a n = (p, a') \<Longrightarrow> q \<in> region p n \<Longrightarrow> is_live a' q"
    and zeroed: "inv a \<Longrightarrow> size_ok n \<Longrightarrow> alloc a n = (p, a') \<Longrightarrow> q \<in> region p n \<Longrightarrow> rd a' q = Some NUL"
    and stays_live: "inv a \<Longrightarrow> size_ok n \<Longrightarrow> alloc a n = (p, a') \<Longrightarrow> is_live a q \<Longrightarrow> is_live a' q"
    and keeps: "inv a \<Longrightarrow> size_ok n \<Longrightarrow> alloc a n = (p, a') \<Longrightarrow> is_live a q \<Longrightarrow> rd a' q = rd a q"
begin

lemma alloc_all_inv:
  "inv a \<Longrightarrow> list_all size_ok ns \<Longrightarrow> inv (snd (alloc_all alloc a ns))"
proof (induction ns arbitrary: a)
  case (Cons n ns)
  then show ?case using inv_alloc [of a n] by (auto simp: split_beta)
qed simp

lemma alloc_all_keeps:
  assumes "inv a" "list_all size_ok ns" "is_live a q"
  shows "is_live (snd (alloc_all alloc a ns)) q \<and> rd (snd (alloc_all alloc a ns)) q = rd a q"
  using assms
proof (induction ns arbitrary: a)
  case (Cons n ns)
  obtain p a1 where e: "alloc a n = (p, a1)" by fastforce
  have "inv a1" using inv_alloc [of a n] Cons.prems e by simp
  then have "is_live (snd (alloc_all alloc a1 ns)) q \<and> rd (snd (alloc_all alloc a1 ns)) q = rd a1 q"
    using Cons.IH [of a1] Cons.prems stays_live [OF _ _ e] by simp
  then show ?case using keeps [OF _ _ e] Cons.prems by (simp add: e split_beta)
qed simp

lemma alloc_all_dead:
  assumes "inv a" "list_all size_ok ns" "i < length ns" "is_live a q"
  shows "q \<notin> region (fst (alloc_all alloc a ns) ! i) (ns ! i)"
  using assms
proof (induction ns arbitrary: a i)
  case (Cons n ns)
  obtain p a1 where e: "alloc a n = (p, a1)" by fastforce
  show ?case
  proof (cases i)
    case 0
    then show ?thesis using fresh [OF _ _ e, of q] Cons.prems by (auto simp: e split_beta)
  next
    case (Suc j)
    have "inv a1" "is_live a1 q"
      using inv_alloc [of a n] stays_live [OF _ _ e] Cons.prems e by auto
    then show ?thesis using Cons.IH [of a1 j] Cons.prems Suc by (simp add: e split_beta)
  qed
qed simp

lemma alloc_all_disjoint:
  assumes "inv a" "list_all size_ok ns" "i < j" "j < length ns"
  shows "region (fst (alloc_all alloc a ns) ! i) (ns ! i)
           \<inter> region (fst (alloc_all alloc a ns) ! j) (ns ! j) = {}"
  using assms
proof (induction ns arbitrary: a i j)
  case (Cons n ns)
  obtain p a1 where e: "alloc a n = (p, a1)" by fastforce
  obtain k where k: "j = Suc k" "k < length ns" using Cons.prems by (cases j) auto
  have inv1: "inv a1" using inv_alloc [of a n] Cons.prems e by simp
  show ?case
  proof (cases i)
    case 0
    have "\<forall>q \<in> region p n. is_live a1 q" using now_live [OF _ _ e] Cons.prems by simp
    then show ?thesis
      using alloc_all_dead [OF inv1 _ k(2)] Cons.prems k 0 by (auto simp: e split_beta)
  next
    case (Suc i')
    then show ?thesis using Cons.IH [OF inv1, of i' k] Cons.prems k by (simp add: e split_beta)
  qed
qed simp

end

interpretation bump: allocator "arena_alloc junk" live read_byte arena_inv for junk
proof unfold_locales
  fix a n p a' q
  assume h: "arena_inv a" "size_ok n" "arena_alloc junk a n = (p, a')"
  show "q \<in> region p n \<Longrightarrow> \<not> live a q" "q \<in> region p n \<Longrightarrow> live a' q"
    "q \<in> region p n \<Longrightarrow> read_byte a' q = Some NUL"
    using arena_alloc_fresh [OF h] by (auto simp: region_def)
  show "live a q \<Longrightarrow> live a' q" "live a q \<Longrightarrow> read_byte a' q = read_byte a q"
    using arena_alloc_keeps [OF h] by auto
qed (rule arena_alloc_inv)


subsection \<open>Copying a string into the arena\<close>

lemma read_bytes_map:
  assumes "\<And>j. j < length s \<Longrightarrow> read_byte a (k, i + j) = Some (s ! j)"
  shows "read_bytes a (k, i) (length s) = Some s"
  using assms
proof (induction s arbitrary: i)
  case (Cons c s)
  have "read_byte a (k, i) = Some c" using Cons.prems [of 0] by simp
  moreover have "read_bytes a (k, Suc i) (length s) = Some s"
  proof (rule Cons.IH)
    fix j
    assume "j < length s"
    then show "read_byte a (k, Suc i + j) = Some (s ! j)" using Cons.prems [of "Suc j"] by simp
  qed
  ultimately show ?case by simp
qed simp

lemma unat_len_plus_1:
  assumes "n < 2 ^ 31"
  shows "unat (of_nat n + 1 :: size_t) = Suc n"
proof -
  have "unat (of_nat n :: size_t) = n"
    using assms by (simp add: unat_of_nat)
  then show ?thesis using assms by (subst unat_add_no_wrap) simp_all
qed

lemma write_head_Cons:
  "blocks a = b # bs \<Longrightarrow>
   blocks (write_head a p s) = b\<lparr>data := mem_cpy (data b) p s\<rparr> # bs"
  by (simp add: write_head_def)

lemma arena_strdup_blocks:
  assumes "arena_inv a" "length s < 2 ^ 31" "arena_strdup junk a s = (p, a')"
  obtains b bs a1 where "arena_alloc junk a (of_nat (length s) + 1) = (p, a1)"
    "blocks a1 = b # bs" "p = (length bs, snd p)" "block_inv b" "list_all block_inv bs"
    "blocks a' = b\<lparr>data := mem_cpy (mem_cpy (data b) (snd p) s) (snd p + length s) [NUL]\<rparr> # bs"
    "snd p + Suc (length s) \<le> unat (used b)"
    "\<And>q. live a q \<Longrightarrow> fst q = length bs \<Longrightarrow> snd q < snd p"
proof -
  let ?n = "of_nat (length s) + 1 :: size_t"
  have n: "unat ?n = Suc (length s)"
    using assms(2) by (rule unat_len_plus_1)
  then have ok: "size_ok ?n" using assms(2) by (simp add: size_ok_def)
  obtain a1 where e: "arena_alloc junk a ?n = (p, a1)"
    using assms(3) by (fastforce simp: arena_strdup_def split: prod.splits)
  obtain b bs where h: "blocks (grow junk a (align8 ?n)) = b # bs"
    "blocks a1 = bump b (align8 ?n) # bs" "p = (length bs, unat (used b))"
    "block_inv (bump b (align8 ?n))" "list_all block_inv bs"
    "unat (used (bump b (align8 ?n))) = unat (used b) + unat (align8 ?n)"
    by (rule arena_alloc_blocks [OF assms(1) ok e])
  have a': "a' = write_head (write_head a1 (snd p) s) (snd p + length s) [NUL]"
    using assms(3) e by (simp add: arena_strdup_def)
  have old: "snd q < snd p" if "live a q" "fst q = length bs" for q
  proof -
    have "live (grow junk a (align8 ?n)) q" using that(1) by (simp add: grow_live)
    then show ?thesis using h(1,3) that(2) by (simp add: live_def block_of_Cons)
  qed
  show thesis
  proof (rule that [OF e h(2) _ h(4,5) _ _ old])
    show "p = (length bs, snd p)" using h(3) by simp
    show "snd p + Suc (length s) \<le> unat (used (bump b (align8 ?n)))"
      using h(3,6) align8_bounds(1) [OF ok] n by simp
  qed (simp_all add: a' write_head_Cons [OF write_head_Cons [OF h(2)]])
qed

lemma arena_strdup_reads_back:
  assumes "arena_inv a" "length s < 2 ^ 31" "arena_strdup junk a s = (p, a')"
  shows "read_bytes a' p (Suc (length s)) = Some (s @ [NUL])" "arena_inv a'"
    "live a q \<Longrightarrow> read_byte a' q = read_byte a q"
proof -
  obtain b bs a1 where h: "arena_alloc junk a (of_nat (length s) + 1) = (p, a1)"
    "blocks a1 = b # bs" "p = (length bs, snd p)" "block_inv b" "list_all block_inv bs"
    "blocks a' = b\<lparr>data := mem_cpy (mem_cpy (data b) (snd p) s) (snd p + length s) [NUL]\<rparr> # bs"
    "snd p + Suc (length s) \<le> unat (used b)"
    "\<And>q. live a q \<Longrightarrow> fst q = length bs \<Longrightarrow> snd q < snd p"
    by (rule arena_strdup_blocks [OF assms]) blast
  have ucap: "unat (used b) \<le> unat (cap b)"
    using h(4) by (simp add: block_inv_def word_le_nat_alt)
  have "read_bytes a' (length bs, snd p) (length (s @ [NUL])) = Some (s @ [NUL])"
  proof (rule read_bytes_map)
    fix j
    assume "j < length (s @ [NUL])"
    then show "read_byte a' (length bs, snd p + j) = Some ((s @ [NUL]) ! j)"
      using h(7) ucap
      by (auto simp: read_byte_def block_of_Cons [OF h(6)] mem_cpy_def nth_append)
  qed
  then show "read_bytes a' p (Suc (length s)) = Some (s @ [NUL])"
    using h(3) by (simp del: read_bytes.simps)
  show "arena_inv a'" using h(4,5,6) by (simp add: arena_inv_def block_inv_def)
  show "read_byte a' q = read_byte a q" if "live a q"
  proof -
    have ok: "size_ok (of_nat (length s) + 1)"
      using assms(2) unat_len_plus_1 [OF assms(2)] by (simp add: size_ok_def)
    have "read_byte a1 q = read_byte a q"
      by (rule arena_alloc_keeps(2) [OF assms(1) ok h(1) that])
    moreover have "read_byte a' q = read_byte a1 q"
      using h(8) [OF that]
      by (auto simp: read_byte_def block_of_Cons [OF h(6)] block_of_Cons [OF h(2)] mem_cpy_def)
    ultimately show ?thesis by simp
  qed
qed

subsection \<open>Properties\<close>

text \<open>C37: However many allocations a compilation makes, no two of them share a byte: the regions
  that any two calls of \<^verbatim>\<open>arena_alloc\<close> return are disjoint.\<close>

theorem arena_allocations_disjoint:
  assumes "arena_inv a" "list_all size_ok ns" "i < j" "j < length ns"
  shows "region (fst (alloc_all (arena_alloc junk) a ns) ! i) (ns ! i)
           \<inter> region (fst (alloc_all (arena_alloc junk) a ns) ! j) (ns ! j) = {}"
  using assms by (rule bump.alloc_all_disjoint)

theorem arena_allocations_disjoint_witness:
  "region (fst (alloc_all (arena_alloc (\<lambda>_. NUL)) arena_init [13, 100000, 5]) ! 0) 13
     \<inter> region (fst (alloc_all (arena_alloc (\<lambda>_. NUL)) arena_init [13, 100000, 5]) ! 2) 5 = {}"
  using arena_allocations_disjoint [of arena_init "[13, 100000, 5]" 0 2 "\<lambda>_. NUL"]
  by (simp add: arena_inv_init size_ok_def)

text \<open>C38: \<^verbatim>\<open>arena_alloc\<close> keeps the arena well formed and returns 8-byte aligned memory inside one
  block that nothing used before, all of it zero, while every byte handed out earlier keeps its
  value.\<close>

theorem arena_alloc_correct:
  assumes "arena_inv a" "size_ok sz" "arena_alloc junk a sz = (p, a')"
  shows "arena_inv a' \<and> (unat sz > 0 \<longrightarrow> 8 dvd snd p)
    \<and> (\<forall>i < unat sz. \<not> live a (fst p, snd p + i) \<and> live a' (fst p, snd p + i)
         \<and> read_byte a' (fst p, snd p + i) = Some NUL)
    \<and> (\<forall>q. live a q \<longrightarrow> live a' q \<and> read_byte a' q = read_byte a q)"
  using arena_alloc_inv [OF assms(1,2), of junk] arena_alloc_fresh [OF assms]
    arena_alloc_keeps [OF assms] assms(3) by auto

theorem arena_alloc_correct_witness:
  "\<exists>p a'. arena_alloc (\<lambda>_. NUL) arena_init 24 = (p, a') \<and> arena_inv a'
     \<and> read_byte a' (fst p, snd p + 23) = Some NUL"
proof -
  obtain p a' where e: "arena_alloc (\<lambda>_. NUL) arena_init 24 = (p, a')" by fastforce
  show ?thesis
    using arena_alloc_correct [OF arena_inv_init _ e] e by (auto simp: size_ok_def)
qed

text \<open>\<^verbatim>\<open>arena_strdup\<close> stores the bytes it is given and a terminator: reading them back through
  the pointer gives the string, and every byte handed out before is untouched.\<close>

theorem arena_strdup_roundtrip:
  assumes "arena_inv a" "length s < 2 ^ 31" "arena_strdup junk a s = (p, a')"
  shows "read_bytes a' p (Suc (length s)) = Some (s @ [NUL]) \<and> arena_inv a'
    \<and> (\<forall>q. live a q \<longrightarrow> read_byte a' q = read_byte a q)"
  using arena_strdup_reads_back [OF assms] by blast

theorem arena_strdup_roundtrip_witness:
  "\<exists>p a'. arena_strdup (\<lambda>_. CHR ''x'') arena_init ''main'' = (p, a')
     \<and> read_bytes a' p 5 = Some (''main'' @ [NUL])"
proof -
  obtain p a' where e: "arena_strdup (\<lambda>_. CHR ''x'') arena_init ''main'' = (p, a')" by fastforce
  have "length ''main'' < 2 ^ 31" "Suc (length ''main'') = 5" by simp_all
  then show ?thesis
    using arena_strdup_roundtrip [OF arena_inv_init _ e] e by metis
qed

end
