(* ===== verification/Token.thy ===== *)
theory Token
  imports Prelude
begin

text \<open>
  Tokens, from \<^verbatim>\<open>compiler/src/lexer/token.h\<close> and \<^verbatim>\<open>token.c\<close>: the enum \<^verbatim>\<open>TokenKind\<close>,
  the table of printed names and the token record. The C union \<^verbatim>\<open>int_val / float_val /
  str_val\<close> is the datatype \<open>payload\<close>; a freshly zeroed token holds the integer 0. The pointer
  \<^verbatim>\<open>start\<close> is an offset into the source buffer and \<open>lexeme\<close> the \<^verbatim>\<open>len\<close> bytes it points to.
  A floating-point value is kept as the characters that \<^verbatim>\<open>atof\<close> is applied to.
\<close>

datatype (plugins only: size code) token_kind =
  TOK_PACKAGE | TOK_IMPORT | TOK_PUB | TOK_FN | TOK_LET | TOK_CONST | TOK_RETURN | TOK_IF
  | TOK_ELSE | TOK_WHILE | TOK_LOOP | TOK_FOR | TOK_BREAK | TOK_CONTINUE | TOK_STRUCT | TOK_ENUM
  | TOK_UNION | TOK_INTERFACE | TOK_IMPL | TOK_UNSAFE | TOK_EXTERN | TOK_AS | TOK_MATCH
  | TOK_KERNEL | TOK_NATIVE | TOK_UI | TOK_ANDROID | TOK_DRIVER | TOK_APP | TOK_MODULE
  | TOK_DEFER | TOK_COMPTIME | TOK_PACKED | TOK_TRUE | TOK_FALSE | TOK_NULL | TOK_SELF
  | TOK_UNDERSCORE | TOK_IDENT | TOK_INT | TOK_FLOAT | TOK_STRING | TOK_CHAR | TOK_LBRACE
  | TOK_RBRACE | TOK_LPAREN | TOK_RPAREN | TOK_LBRACKET | TOK_RBRACKET | TOK_SEMICOLON
  | TOK_COLON | TOK_COMMA | TOK_DOT | TOK_DOTDOT | TOK_ARROW | TOK_FAT_ARROW | TOK_EQ | TOK_EQEQ
  | TOK_NE | TOK_LT | TOK_LE | TOK_GT | TOK_GE | TOK_PLUS | TOK_MINUS | TOK_STAR | TOK_SLASH
  | TOK_PERCENT | TOK_AMP | TOK_ANDAND | TOK_PIPE | TOK_OROR | TOK_CARET | TOK_TILDE | TOK_BANG
  | TOK_QUESTION | TOK_AT | TOK_LSHIFT | TOK_RSHIFT | TOK_PLUSPLUS | TOK_MINUSMINUS
  | TOK_PLUS_EQ | TOK_MINUS_EQ | TOK_STAR_EQ | TOK_SLASH_EQ | TOK_PERCENT_EQ | TOK_EOF
  | TOK_COUNT

text \<open>
  The position of a kind in the enum: C compares kinds as integers, and so does the order on
  the type.
\<close>

definition KINDS :: "token_kind list" where
  "KINDS =
    [TOK_PACKAGE, TOK_IMPORT, TOK_PUB, TOK_FN, TOK_LET, TOK_CONST, TOK_RETURN, TOK_IF,
     TOK_ELSE, TOK_WHILE, TOK_LOOP, TOK_FOR, TOK_BREAK, TOK_CONTINUE, TOK_STRUCT, TOK_ENUM,
     TOK_UNION, TOK_INTERFACE, TOK_IMPL, TOK_UNSAFE, TOK_EXTERN, TOK_AS, TOK_MATCH, TOK_KERNEL,
     TOK_NATIVE, TOK_UI, TOK_ANDROID, TOK_DRIVER, TOK_APP, TOK_MODULE, TOK_DEFER, TOK_COMPTIME,
     TOK_PACKED, TOK_TRUE, TOK_FALSE, TOK_NULL, TOK_SELF, TOK_UNDERSCORE, TOK_IDENT, TOK_INT,
     TOK_FLOAT, TOK_STRING, TOK_CHAR, TOK_LBRACE, TOK_RBRACE, TOK_LPAREN, TOK_RPAREN,
     TOK_LBRACKET, TOK_RBRACKET, TOK_SEMICOLON, TOK_COLON, TOK_COMMA, TOK_DOT, TOK_DOTDOT,
     TOK_ARROW, TOK_FAT_ARROW, TOK_EQ, TOK_EQEQ, TOK_NE, TOK_LT, TOK_LE, TOK_GT, TOK_GE,
     TOK_PLUS, TOK_MINUS, TOK_STAR, TOK_SLASH, TOK_PERCENT, TOK_AMP, TOK_ANDAND, TOK_PIPE,
     TOK_OROR, TOK_CARET, TOK_TILDE, TOK_BANG, TOK_QUESTION, TOK_AT, TOK_LSHIFT, TOK_RSHIFT,
     TOK_PLUSPLUS, TOK_MINUSMINUS, TOK_PLUS_EQ, TOK_MINUS_EQ, TOK_STAR_EQ, TOK_SLASH_EQ,
     TOK_PERCENT_EQ, TOK_EOF, TOK_COUNT]"

primrec tok_ord :: "token_kind \<Rightarrow> nat" where
  "tok_ord TOK_PACKAGE = 0"
| "tok_ord TOK_IMPORT = 1"
| "tok_ord TOK_PUB = 2"
| "tok_ord TOK_FN = 3"
| "tok_ord TOK_LET = 4"
| "tok_ord TOK_CONST = 5"
| "tok_ord TOK_RETURN = 6"
| "tok_ord TOK_IF = 7"
| "tok_ord TOK_ELSE = 8"
| "tok_ord TOK_WHILE = 9"
| "tok_ord TOK_LOOP = 10"
| "tok_ord TOK_FOR = 11"
| "tok_ord TOK_BREAK = 12"
| "tok_ord TOK_CONTINUE = 13"
| "tok_ord TOK_STRUCT = 14"
| "tok_ord TOK_ENUM = 15"
| "tok_ord TOK_UNION = 16"
| "tok_ord TOK_INTERFACE = 17"
| "tok_ord TOK_IMPL = 18"
| "tok_ord TOK_UNSAFE = 19"
| "tok_ord TOK_EXTERN = 20"
| "tok_ord TOK_AS = 21"
| "tok_ord TOK_MATCH = 22"
| "tok_ord TOK_KERNEL = 23"
| "tok_ord TOK_NATIVE = 24"
| "tok_ord TOK_UI = 25"
| "tok_ord TOK_ANDROID = 26"
| "tok_ord TOK_DRIVER = 27"
| "tok_ord TOK_APP = 28"
| "tok_ord TOK_MODULE = 29"
| "tok_ord TOK_DEFER = 30"
| "tok_ord TOK_COMPTIME = 31"
| "tok_ord TOK_PACKED = 32"
| "tok_ord TOK_TRUE = 33"
| "tok_ord TOK_FALSE = 34"
| "tok_ord TOK_NULL = 35"
| "tok_ord TOK_SELF = 36"
| "tok_ord TOK_UNDERSCORE = 37"
| "tok_ord TOK_IDENT = 38"
| "tok_ord TOK_INT = 39"
| "tok_ord TOK_FLOAT = 40"
| "tok_ord TOK_STRING = 41"
| "tok_ord TOK_CHAR = 42"
| "tok_ord TOK_LBRACE = 43"
| "tok_ord TOK_RBRACE = 44"
| "tok_ord TOK_LPAREN = 45"
| "tok_ord TOK_RPAREN = 46"
| "tok_ord TOK_LBRACKET = 47"
| "tok_ord TOK_RBRACKET = 48"
| "tok_ord TOK_SEMICOLON = 49"
| "tok_ord TOK_COLON = 50"
| "tok_ord TOK_COMMA = 51"
| "tok_ord TOK_DOT = 52"
| "tok_ord TOK_DOTDOT = 53"
| "tok_ord TOK_ARROW = 54"
| "tok_ord TOK_FAT_ARROW = 55"
| "tok_ord TOK_EQ = 56"
| "tok_ord TOK_EQEQ = 57"
| "tok_ord TOK_NE = 58"
| "tok_ord TOK_LT = 59"
| "tok_ord TOK_LE = 60"
| "tok_ord TOK_GT = 61"
| "tok_ord TOK_GE = 62"
| "tok_ord TOK_PLUS = 63"
| "tok_ord TOK_MINUS = 64"
| "tok_ord TOK_STAR = 65"
| "tok_ord TOK_SLASH = 66"
| "tok_ord TOK_PERCENT = 67"
| "tok_ord TOK_AMP = 68"
| "tok_ord TOK_ANDAND = 69"
| "tok_ord TOK_PIPE = 70"
| "tok_ord TOK_OROR = 71"
| "tok_ord TOK_CARET = 72"
| "tok_ord TOK_TILDE = 73"
| "tok_ord TOK_BANG = 74"
| "tok_ord TOK_QUESTION = 75"
| "tok_ord TOK_AT = 76"
| "tok_ord TOK_LSHIFT = 77"
| "tok_ord TOK_RSHIFT = 78"
| "tok_ord TOK_PLUSPLUS = 79"
| "tok_ord TOK_MINUSMINUS = 80"
| "tok_ord TOK_PLUS_EQ = 81"
| "tok_ord TOK_MINUS_EQ = 82"
| "tok_ord TOK_STAR_EQ = 83"
| "tok_ord TOK_SLASH_EQ = 84"
| "tok_ord TOK_PERCENT_EQ = 85"
| "tok_ord TOK_EOF = 86"
| "tok_ord TOK_COUNT = 87"

lemma KINDS_nth_tok_ord: "KINDS ! tok_ord k = k"
  by (cases k) (simp_all add: KINDS_def)

lemma tok_ord_inj: "tok_ord j = tok_ord k \<Longrightarrow> j = k"
  by (metis KINDS_nth_tok_ord)

lemma tok_ord_bound: "tok_ord k \<le> tok_ord TOK_COUNT"
  by (cases k) simp_all

instantiation token_kind :: linorder
begin

definition less_eq_token_kind :: "token_kind \<Rightarrow> token_kind \<Rightarrow> bool" where
  "less_eq_token_kind j k \<longleftrightarrow> tok_ord j \<le> tok_ord k"

definition less_token_kind :: "token_kind \<Rightarrow> token_kind \<Rightarrow> bool" where
  "less_token_kind j k \<longleftrightarrow> tok_ord j < tok_ord k"

instance
  by standard (auto simp: less_eq_token_kind_def less_token_kind_def dest: tok_ord_inj)

end

text \<open>\<^verbatim>\<open>KIND_NAMES\<close>, the table that \<^verbatim>\<open>token_kind_name\<close> indexes.\<close>

definition KIND_NAMES :: "(token_kind \<times> string) list" where
  "KIND_NAMES =
    [(TOK_PACKAGE, ''package''), (TOK_IMPORT, ''import''), (TOK_PUB, ''pub''),
     (TOK_FN, ''fn''), (TOK_LET, ''let''), (TOK_CONST, ''const''), (TOK_RETURN, ''return''),
     (TOK_IF, ''if''), (TOK_ELSE, ''else''), (TOK_WHILE, ''while''), (TOK_LOOP, ''loop''),
     (TOK_FOR, ''for''), (TOK_BREAK, ''break''), (TOK_CONTINUE, ''continue''),
     (TOK_STRUCT, ''struct''), (TOK_ENUM, ''enum''), (TOK_UNION, ''union''),
     (TOK_INTERFACE, ''interface''), (TOK_IMPL, ''impl''), (TOK_UNSAFE, ''unsafe''),
     (TOK_EXTERN, ''extern''), (TOK_AS, ''as''), (TOK_MATCH, ''match''),
     (TOK_KERNEL, ''kernel''), (TOK_NATIVE, ''native''), (TOK_UI, ''ui''),
     (TOK_ANDROID, ''android''), (TOK_DRIVER, ''driver''), (TOK_APP, ''app''),
     (TOK_MODULE, ''module''), (TOK_DEFER, ''defer''), (TOK_COMPTIME, ''comptime''),
     (TOK_PACKED, ''packed''), (TOK_TRUE, ''true''), (TOK_FALSE, ''false''),
     (TOK_NULL, ''null''), (TOK_SELF, ''Self''), (TOK_UNDERSCORE, ''_''),
     (TOK_IDENT, ''IDENT''), (TOK_INT, ''INT''), (TOK_FLOAT, ''FLOAT''),
     (TOK_STRING, ''STRING''), (TOK_CHAR, ''CHAR''), (TOK_LBRACE, ''{''), (TOK_RBRACE, ''}''),
     (TOK_LPAREN, ''(''), (TOK_RPAREN, '')''), (TOK_LBRACKET, ''[''), (TOK_RBRACKET, '']''),
     (TOK_SEMICOLON, '';''), (TOK_COLON, '':''), (TOK_COMMA, '',''), (TOK_DOT, ''.''),
     (TOK_DOTDOT, ''..''), (TOK_ARROW, ''->''), (TOK_FAT_ARROW, ''=>''), (TOK_EQ, ''=''),
     (TOK_EQEQ, ''==''), (TOK_NE, ''!=''), (TOK_LT, ''<''), (TOK_LE, ''<=''), (TOK_GT, ''>''),
     (TOK_GE, ''>=''), (TOK_PLUS, ''+''), (TOK_MINUS, ''-''), (TOK_STAR, ''*''),
     (TOK_SLASH, ''/''), (TOK_PERCENT, ''%''), (TOK_AMP, ''&''), (TOK_ANDAND, ''&&''),
     (TOK_PIPE, ''|''), (TOK_OROR, ''||''), (TOK_CARET, ''^''), (TOK_TILDE, ''~''),
     (TOK_BANG, ''!''), (TOK_QUESTION, ''?''), (TOK_AT, ''@''), (TOK_LSHIFT, ''<<''),
     (TOK_RSHIFT, ''>>''), (TOK_PLUSPLUS, ''++''), (TOK_MINUSMINUS, ''--''),
     (TOK_PLUS_EQ, ''+=''), (TOK_MINUS_EQ, ''-=''), (TOK_STAR_EQ, ''*=''),
     (TOK_SLASH_EQ, ''/=''), (TOK_PERCENT_EQ, ''%=''), (TOK_EOF, ''EOF'')]"

definition token_kind_name :: "token_kind \<Rightarrow> string" where
  "token_kind_name k =
     (if TOK_COUNT \<le> k then ''UNKNOWN''
      else (case map_of KIND_NAMES k of Some s \<Rightarrow> s | None \<Rightarrow> []))"

datatype payload = IntVal "64 word" | FloatVal string | StrVal string

record token =
  tkind :: token_kind
  tstart :: nat
  tlen :: nat
  tline :: nat
  tcol :: nat
  tval :: payload
  lexeme :: string

text \<open>Reading a member of the union.\<close>

definition int_val :: "token \<Rightarrow> 64 word" where
  "int_val t = (case tval t of IntVal v \<Rightarrow> v | _ \<Rightarrow> 0)"

definition float_val :: "token \<Rightarrow> string" where
  "float_val t = (case tval t of FloatVal s \<Rightarrow> s | _ \<Rightarrow> [])"

definition str_val :: "token \<Rightarrow> string" where
  "str_val t = (case tval t of StrVal s \<Rightarrow> s | _ \<Rightarrow> [])"

text \<open>The discipline of the union: the kind says which member was written last.\<close>

definition payload_ok :: "token \<Rightarrow> bool" where
  "payload_ok t \<longleftrightarrow>
     (case tval t of
        IntVal v \<Rightarrow> tkind t \<notin> {TOK_FLOAT, TOK_STRING} \<and> (tkind t = TOK_CHAR \<longrightarrow> unat v < 256)
      | FloatVal _ \<Rightarrow> tkind t = TOK_FLOAT
      | StrVal _ \<Rightarrow> tkind t = TOK_STRING)"

end
