(* ===== verification/Ast.thy ===== *)
theory Ast
  imports Prelude
begin

text \<open>
  The abstract syntax tree of \<^verbatim>\<open>compiler/src/parser/ast.h\<close>: one constructor of
  \<open>node_as\<close> per member of the enum \<^verbatim>\<open>NodeKind\<close>, carrying the fields of the matching
  member of the union \<^verbatim>\<open>as\<close>; \<open>Node\<close> adds the line and the column.

  A pointer that may be NULL is an \<open>option\<close>, a \<^verbatim>\<open>NodeList\<close> is a list, and parallel arrays
  with a common count (the fields of a struct literal, the arms of a match, the variants of an
  enum) are one list of tuples. The C functions that dispatch on \<^verbatim>\<open>node->kind\<close> are case
  distinctions on \<open>nas\<close>. A floating-point literal carries the characters that the lexer hands
  to \<^verbatim>\<open>atof\<close>.
\<close>

datatype ui_elem_kind =
    UI_ELEM_WINDOW | UI_ELEM_BUTTON | UI_ELEM_LABEL | UI_ELEM_INPUT | UI_ELEM_ROW
  | UI_ELEM_COLUMN | UI_ELEM_CANVAS | UI_ELEM_PANEL | UI_ELEM_MENU

datatype ui_handler_kind = UI_HANDLER_CLICK | UI_HANDLER_KEY | UI_HANDLER_CHANGE

datatype (plugins only: size code) node = Node (nline: nat) (ncol: nat) (nas: node_as)
and node_as =
    NODE_TYPE_NAMED string
  | NODE_TYPE_POINTER node bool bool
  | NODE_TYPE_ARRAY node int
  | NODE_LIT_INT "64 word"
  | NODE_LIT_CHAR "64 word"
  | NODE_LIT_FLOAT string
  | NODE_LIT_STRING string
  | NODE_LIT_BOOL bool
  | NODE_LIT_NULL
  | NODE_IDENT string
  | NODE_BINARY string node node
  | NODE_UNARY string node
  | NODE_CALL node "node list"
  | NODE_FIELD node string
  | NODE_INDEX node node
  | NODE_SLICE node "node option" "node option"
  | NODE_CAST node node
  | NODE_ASSIGN node node "string option"
  | NODE_STRUCT_LIT string "(string \<times> node) list"
  | NODE_MATCH node "(string \<times> string list \<times> node) list"
  | NODE_GROUP node
  | NODE_BLOCK "node list"
  | NODE_LET string "node option" "node option"
  | NODE_CONST string "node option" node
  | NODE_RETURN "node option"
  | NODE_IF node node "node option"
  | NODE_WHILE node node
  | NODE_LOOP node
  | NODE_UNSAFE node
  | NODE_BREAK
  | NODE_CONTINUE
  | NODE_DEFER node
  | NODE_FOR "node option" "node option" "node option" node
  | NODE_EXPR_STMT node
  | NODE_PROGRAM "node option" "node list" "node list"
  | NODE_PACKAGE string
  | NODE_IMPORT string
  | NODE_FN_DECL string "string option" "string option" "node list" "node list" "node option" "node option" bool
  | NODE_EXTERN_FN string "string option" "string option" "node list" "node option" bool
  | NODE_STRUCT_DECL string "string option" "node list" "node list" bool bool
  | NODE_ENUM_DECL string "string option" "(string \<times> node list) list" bool
  | NODE_UNION_DECL string "string option" "node list" bool
  | NODE_IMPL_DECL string "string option" "string option" "node list"
  | NODE_INTERFACE_DECL string "string option" "node list" bool
  | NODE_COMPTIME "node list"
  | NODE_UI_APP string "string option" "node list" bool
  | NODE_UI_ELEMENT ui_elem_kind "string option" "node list" "node list" "node list"
  | NODE_UI_HANDLER ui_handler_kind node
  | NODE_UI_PROPERTY string node
  | NODE_KERNEL_APP string "string option" "node list" bool

end
