(* ===== verification/Parser_Base.thy ===== *)
theory Parser_Base
  imports Token Ast
begin

text \<open>
  What every function of \<^verbatim>\<open>compiler/src/parser/parser.c\<close> is built from: the state \<open>parser\<close> with the
  fields of the C struct, the outcome of a call, and the helpers \<^verbatim>\<open>cur\<close> to \<^verbatim>\<open>append_type_token\<close>.

  A call returns \<open>Done\<close> with its value and the state after it, or \<open>Fault\<close>: the C code has
  undefined behaviour there (it reads past the token array or past a stack buffer), or the model ran
  out of fuel. Diagnostics, printed to \<^verbatim>\<open>stderr\<close> in C, are collected in order in \<open>errs\<close>.
  Nodes live in the arena and are never freed or shared, so they are values here.
\<close>

subsection \<open>State and outcomes\<close>

type_synonym diag = "nat \<times> nat option \<times> string"

record parser =
  toks :: "token list"
  ppos :: nat
  had_error :: bool
  current_package :: "string option"
  errs :: "diag list"

datatype fault = TokenOverrun | PatternOverread | NoFuel

datatype 'a outcome = Done 'a parser | Fault fault parser

type_synonym 'a parse = "parser \<Rightarrow> 'a outcome"

definition ret :: "'a \<Rightarrow> 'a parse" where
  "ret x p = Done x p"

definition bind :: "'a parse \<Rightarrow> ('a \<Rightarrow> 'b parse) \<Rightarrow> 'b parse" where
  "bind m f p = (case m p of Done x q \<Rightarrow> f x q | Fault e q \<Rightarrow> Fault e q)"

definition fail :: "fault \<Rightarrow> 'a parse" where
  "fail e p = Fault e p"

definition state :: "parser parse" where
  "state p = Done p p"

text \<open>
  The loops. \<open>ploop n body acc\<close> runs \<open>body\<close> until it returns \<open>Inr\<close>, at most \<open>n\<close> times;
  \<open>until_close\<close> is \<^verbatim>\<open>while (!check(p, k) && !check(p, TOK_EOF))\<close>, and \<open>comma_list\<close>
  is \<^verbatim>\<open>do ... while (match(p, TOK_COMMA))\<close>.
\<close>

primrec ploop :: "nat \<Rightarrow> ('a \<Rightarrow> ('a + 'b) parse) \<Rightarrow> 'a \<Rightarrow> 'b parse" where
  "ploop 0 body acc p = fail NoFuel p"
| "ploop (Suc n) body acc p =
     bind (body acc) (\<lambda>r. case r of Inl acc' \<Rightarrow> ploop n body acc' | Inr x \<Rightarrow> ret x) p"

subsection \<open>Tokens\<close>

definition cur :: "token parse" where
  "cur p = (if ppos p < length (toks p) then Done (toks p ! ppos p) p else Fault TokenOverrun p)"

definition prev :: "token parse" where
  "prev p =
     (if 0 < ppos p \<and> ppos p - 1 < length (toks p) then Done (toks p ! (ppos p - 1)) p
      else Fault TokenOverrun p)"

text \<open>\<^verbatim>\<open>p->pos++\<close>\<close>

definition skip :: "unit parse" where
  "skip p = Done () (p\<lparr>ppos := ppos p + 1\<rparr>)"

definition check :: "token_kind \<Rightarrow> bool parse" where
  "check k p = bind cur (\<lambda>t. ret (tkind t = k)) p"

definition match :: "token_kind \<Rightarrow> bool parse" where
  "match k p = bind (check k) (\<lambda>c. if c then bind skip (\<lambda>_. ret True) else ret False) p"

text \<open>\<^verbatim>\<open>if (match(p, k)) a else b\<close>, the shape of most of the parser.\<close>

definition if_match :: "token_kind \<Rightarrow> 'a parse \<Rightarrow> 'a parse \<Rightarrow> 'a parse" where
  "if_match k a b p = bind (match k) (\<lambda>m. if m then a else b) p"

text \<open>A chain of such tests: \<^verbatim>\<open>if (match(p, k1)) ... if (match(p, k2)) ...\<close>, then the default.\<close>

primrec dispatch :: "(token_kind \<times> 'a parse) list \<Rightarrow> 'a parse \<Rightarrow> 'a parse" where
  "dispatch [] d p = d p"
| "dispatch (e # es) d p = if_match (fst e) (snd e) (dispatch es d) p"

text \<open>\<^verbatim>\<open>if (match(p, k)) x = a\<close> where \<^verbatim>\<open>x\<close> is NULL before.\<close>

definition opt_match :: "token_kind \<Rightarrow> 'a parse \<Rightarrow> 'a option parse" where
  "opt_match k a p = if_match k (bind a (\<lambda>x. ret (Some x))) (ret None) p"

text \<open>\<^verbatim>\<open>if (!check(p, k)) x = a\<close> where \<^verbatim>\<open>x\<close> is NULL before.\<close>

definition unless_check :: "token_kind \<Rightarrow> 'a parse \<Rightarrow> 'a option parse" where
  "unless_check k a p = bind (check k) (\<lambda>c. if c then ret None else bind a (\<lambda>x. ret (Some x))) p"

definition report :: "nat \<Rightarrow> nat option \<Rightarrow> string \<Rightarrow> unit parse" where
  "report l c msg p = Done () (p\<lparr>had_error := True, errs := errs p @ [(l, c, msg)]\<rparr>)"

definition got_msg :: "string \<Rightarrow> token_kind \<Rightarrow> string" where
  "got_msg msg k = msg @ '' (got '' @ in_quotes (token_kind_name k) @ '')''"

definition expect :: "token_kind \<Rightarrow> string \<Rightarrow> token parse" where
  "expect k msg p =
     bind (check k) (\<lambda>c.
     if c then bind skip (\<lambda>_.
               prev)
     else bind cur (\<lambda>t.
          bind (report (tline t) (Some (tcol t)) (got_msg msg (tkind t))) (\<lambda>_.
          bind (if tkind t \<noteq> TOK_EOF then skip else ret ()) (\<lambda>_.
          ret t)))) p"

definition until_close :: "nat \<Rightarrow> token_kind \<Rightarrow> ('a \<Rightarrow> 'a parse) \<Rightarrow> 'a \<Rightarrow> 'a parse" where
  "until_close n k body acc p =
     ploop n (\<lambda>a.
       bind (check k) (\<lambda>c.
       if c then ret (Inr a)
       else bind (check TOK_EOF) (\<lambda>e.
            if e then ret (Inr a) else bind (body a) (\<lambda>b.
                                    ret (Inl b))))) acc p"

definition list_until :: "nat \<Rightarrow> token_kind \<Rightarrow> 'a parse \<Rightarrow> 'a list parse" where
  "list_until n k item p = until_close n k (\<lambda>xs. bind item (\<lambda>x. ret (xs @ [x]))) [] p"

definition comma_list :: "nat \<Rightarrow> 'a parse \<Rightarrow> 'a list parse" where
  "comma_list n item p =
     ploop n (\<lambda>xs.
       bind item (\<lambda>x.
       bind (match TOK_COMMA) (\<lambda>m.
       ret (if m then Inl (xs @ [x]) else Inr (xs @ [x]))))) [] p"

subsection \<open>Nodes, names and paths\<close>

text \<open>\<^verbatim>\<open>node_new\<close> at the position of a token, and the copy of a lexeme.\<close>

definition node_new :: "token \<Rightarrow> node_as \<Rightarrow> node" where
  "node_new t a = Node (tline t) (tcol t) a"

definition intern :: "token \<Rightarrow> string" where
  "intern t = lexeme t"

definition is_path_token :: "token_kind \<Rightarrow> bool \<Rightarrow> bool" where
  "is_path_token k allow_self \<longleftrightarrow>
     k = TOK_IDENT \<or> allow_self \<and> k = TOK_SELF
     \<or> k \<in> {TOK_KERNEL, TOK_NATIVE, TOK_UI, TOK_ANDROID, TOK_DRIVER, TOK_APP, TOK_MODULE}"

definition expect_path_token :: "string \<Rightarrow> bool \<Rightarrow> token parse" where
  "expect_path_token msg allow_self p =
     bind cur (\<lambda>t.
     if is_path_token (tkind t) allow_self then bind skip (\<lambda>_.
                                                prev)
     else expect TOK_IDENT msg) p"

text \<open>
  Paths are put together in a buffer of 256 bytes: its contents so far are a string of at most 255
  characters, and what does not fit is cut off.
\<close>

definition path_start :: "token \<Rightarrow> string" where
  "path_start t = take 255 (lexeme t)"

definition path_append :: "string \<Rightarrow> token \<Rightarrow> string" where
  "path_append buf t =
     (let b = (if length buf < 254 then buf @ ''.'' else buf) in b @ take (255 - length b) (lexeme t))"

definition append_type_token :: "string \<Rightarrow> nat \<Rightarrow> token \<Rightarrow> string" where
  "append_type_token buf cap t =
     (if length buf \<ge> cap - 1 then buf else buf @ take (cap - 1 - length buf) (lexeme t))"

text \<open>A dotted path: the first name, then \<^verbatim>\<open>while (check(p, TOK_DOT))\<close>.\<close>

definition parse_path :: "nat \<Rightarrow> string \<Rightarrow> bool \<Rightarrow> string parse" where
  "parse_path n msg allow_self p =
     bind (expect_path_token msg allow_self) (\<lambda>t.
     ploop n (\<lambda>buf.
       bind (check TOK_DOT) (\<lambda>d.
       if d then bind skip (\<lambda>_.
                 bind (expect_path_token (''expected identifier after '' @ in_quotes ''.'') False) (\<lambda>u.
                 ret (Inl (path_append buf u))))
       else ret (Inr buf))) (path_start t)) p"

end
