(* ===== verification/Parser.thy ===== *)
theory Parser
  imports Parser_Base
begin

text \<open>
  The recursive-descent parser of \<^verbatim>\<open>compiler/src/parser/parser.c\<close>, one definition per C function
  (per kind of declaration, statement and primary where the C function is a chain of them).
  The recursion is on fuel: a function that C calls recursively is a parameter (\<open>pe\<close> for
  \<^verbatim>\<open>parse_expr\<close>, \<open>pb\<close> for \<^verbatim>\<open>parse_block\<close>, \<open>ps\<close> for \<^verbatim>\<open>parse_stmt\<close>), tied by a recursion
  on a number that bounds the tokens left; loops get the same number. \<^verbatim>\<open>parser_parse\<close> starts with
  one more than the number of tokens, which is always enough.
\<close>

subsection \<open>Types\<close>

text \<open>
  The bracketed arguments of a named type, copied token by token:
  \<^verbatim>\<open>do ... while (depth > 0 && !check(p, TOK_EOF))\<close>.
\<close>

definition parse_type_args :: "nat \<Rightarrow> string \<Rightarrow> string parse" where
  "parse_type_args n buf0 p =
     ploop n (\<lambda>(depth, buf).
       bind cur (\<lambda>tok.
       bind (ret (if tkind tok = TOK_LBRACKET then depth + 1
            else if tkind tok = TOK_RBRACKET then depth - 1 else depth)) (\<lambda>d.
       bind (ret (append_type_token buf 256 tok)) (\<lambda>b.
       bind skip (\<lambda>_.
       if tkind tok = TOK_EOF then ret (Inr b)
       else if d > (0::int) then
         bind (check TOK_EOF) (\<lambda>e.
         ret (if e then Inr b else Inl (d, b)))
       else ret (Inr b)))))) (0, buf0) p"

definition parse_named_type :: "nat \<Rightarrow> token \<Rightarrow> node parse" where
  "parse_named_type n t p =
     bind (parse_path n ''expected type name'' True) (\<lambda>buf.
     bind (check TOK_LBRACKET) (\<lambda>c.
     bind ((if c then parse_type_args n buf else ret buf)) (\<lambda>name.
     ret (node_new t (NODE_TYPE_NAMED name))))) p"

text \<open>The length of an array type is the value of the token, cut to an \<^verbatim>\<open>int\<close>.\<close>

definition parse_array_length :: "int parse" where
  "parse_array_length p =
     bind (check TOK_INT) (\<lambda>c.
     if c then bind cur (\<lambda>t.
               bind skip (\<lambda>_.
               ret (sint (ucast (int_val t) :: 32 word))))
     else ret (-1)) p"

primrec parse_type :: "nat \<Rightarrow> node parse" where
  "parse_type 0 p = fail NoFuel p"
| "parse_type (Suc n) p =
     bind cur (\<lambda>t.
     bind (match TOK_QUESTION) (\<lambda>is_null.
     if_match TOK_STAR
       (bind (match TOK_CONST) (\<lambda>is_const.
        bind (parse_type n) (\<lambda>inner.
        ret (node_new t (NODE_TYPE_POINTER inner is_const is_null)))))
     (if_match TOK_LBRACKET
       (bind parse_array_length (\<lambda>len.
        bind (expect TOK_RBRACKET ''expected ']' in array/slice type'') (\<lambda>_.
        bind (parse_type n) (\<lambda>elem.
        ret (node_new t (NODE_TYPE_ARRAY elem len))))))
     (parse_named_type (Suc n) t)))) p"

text \<open>\<^verbatim>\<open>if (match(p, TOK_COLON)) type = parse_type(p)\<close>\<close>

definition opt_type :: "nat \<Rightarrow> node option parse" where
  "opt_type n p = opt_match TOK_COLON (parse_type n) p"

subsection \<open>Primary expressions\<close>

text \<open>The names a pattern binds: the loop ends at the first that no comma follows.\<close>

definition parse_bindings :: "nat \<Rightarrow> string list parse" where
  "parse_bindings n p =
     ploop n (\<lambda>xs.
       bind (check TOK_RPAREN) (\<lambda>c.
       if c then ret (Inr xs)
       else bind (check TOK_EOF) (\<lambda>e.
            if e then ret (Inr xs)
       else bind (expect TOK_IDENT ''expected binding name in match pattern'') (\<lambda>bn.
            bind (match TOK_COMMA) (\<lambda>m.
            ret (if m then Inl (xs @ [intern bn]) else Inr (xs @ [intern bn]))))))) [] p"

text \<open>
  The key of a match arm is put together in \<^verbatim>\<open>char pat[128]\<close>. For \<^verbatim>\<open>Enum.Variant\<close> the length kept
  is the one \<^verbatim>\<open>snprintf\<close> returns, that of the untruncated text, and \<^verbatim>\<open>arena_strdup\<close> then copies
  that many bytes from the buffer; \<open>copy_pattern\<close> is that copy.
\<close>

definition parse_pattern_key :: "string parse" where
  "parse_pattern_key p =
     bind (expect TOK_IDENT (''expected enum name or '' @ in_quotes ''_'' @ '' in match arm'')) (\<lambda>en.
     if_match TOK_DOT
       (bind (expect TOK_IDENT ''expected variant name'') (\<lambda>vr.
        ret (lexeme en @ ''.'' @ lexeme vr)))
       (ret (take 127 (lexeme en)))) p"

definition copy_pattern :: "string \<Rightarrow> string parse" where
  "copy_pattern pat p =
     ((if length pat > 128 then fail PatternOverread else ret (take 127 pat))) p"

definition parse_pattern :: "nat \<Rightarrow> (string \<times> string list) parse" where
  "parse_pattern n p =
     if_match TOK_UNDERSCORE (ret (''_'', []))
     (bind parse_pattern_key (\<lambda>key.
      bind (opt_match TOK_LPAREN
        (bind (parse_bindings n) (\<lambda>bs.
         bind (expect TOK_RPAREN (''expected '' @ in_quotes '')'' @ '' after match bindings'')) (\<lambda>_.
         ret bs)))) (\<lambda>bs.
      ret (key, case bs of None \<Rightarrow> [] | Some xs \<Rightarrow> xs)))) p"

definition parse_match_arm :: "node parse \<Rightarrow> nat \<Rightarrow> (string \<times> string list \<times> node) parse" where
  "parse_match_arm pe n p =
     bind (parse_pattern n) (\<lambda>(key, bs).
     bind (expect TOK_FAT_ARROW (''expected '' @ in_quotes ''=>'' @ '' in match arm'')) (\<lambda>_.
     bind pe (\<lambda>val.
     bind (match TOK_COMMA) (\<lambda>_.
     bind (copy_pattern key) (\<lambda>pat.
     ret (pat, bs, val)))))) p"

definition parse_match_expr :: "node parse \<Rightarrow> nat \<Rightarrow> token \<Rightarrow> node parse" where
  "parse_match_expr pe n t p =
     bind pe (\<lambda>subject.
     bind (expect TOK_LBRACE (''expected '' @ in_quotes ''{'' @ '' after match subject'')) (\<lambda>_.
     bind (list_until n TOK_RBRACE (parse_match_arm pe n)) (\<lambda>arms.
     bind (expect TOK_RBRACE (''expected '' @ in_quotes ''}'' @ '' after match arms'')) (\<lambda>_.
     ret (node_new t (NODE_MATCH subject arms)))))) p"

text \<open>
  The scan for the bracket that closes the one before \<open>ts\<close>: the number of tokens it passes. A
  struct literal is told from a block by what follows: \<^verbatim>\<open>{ }\<close> or \<^verbatim>\<open>{ name :\<close>.
\<close>

fun scan_close :: "token list \<Rightarrow> nat \<Rightarrow> nat" where
  "scan_close [] depth = 0"
| "scan_close (t # ts) depth =
     (if depth = 0 then 0
      else Suc (scan_close ts
        (if tkind t = TOK_LBRACKET then depth + 1
         else if tkind t = TOK_RBRACKET then depth - 1 else depth)))"

definition struct_body_at :: "token list \<Rightarrow> nat \<Rightarrow> bool" where
  "struct_body_at ts i \<longleftrightarrow>
     i < length ts \<and> (tkind (ts ! i) = TOK_RBRACE
       \<or> tkind (ts ! i) = TOK_IDENT \<and> i + 1 < length ts \<and> tkind (ts ! (i + 1)) = TOK_COLON)"

definition is_gen_sl :: "parser \<Rightarrow> bool" where
  "is_gen_sl p \<longleftrightarrow>
     (let scan = ppos p + 1 + scan_close (drop (ppos p + 1) (toks p)) 1
      in scan < length (toks p) \<and> tkind (toks p ! scan) = TOK_LBRACE
         \<and> struct_body_at (toks p) (scan + 1))"

text \<open>The loop that copies the type arguments into \<^verbatim>\<open>gen_name[256]\<close>: tokens passed, and text.\<close>

fun gen_args :: "token list \<Rightarrow> string \<Rightarrow> nat \<times> string" where
  "gen_args [] b = (0, b)"
| "gen_args (t # ts) b =
     (if tkind t = TOK_RBRACKET then (1, b)
      else let (n, b') = gen_args ts (b @ take (256 - length b - 2) (lexeme t)) in (Suc n, b'))"

definition gen_struct_head :: "token \<Rightarrow> string option parse" where
  "gen_struct_head idt p =
     (if is_gen_sl p then
        let (n, b) = gen_args (drop (ppos p + 1) (toks p)) (take 200 (lexeme idt) @ ''['')
        in Done (Some (b @ '']'')) (p\<lparr>ppos := ppos p + 1 + n + 1\<rparr>)
      else Done None p)"

definition plain_struct_head :: "bool parse" where
  "plain_struct_head p =
     (if struct_body_at (toks p) (ppos p + 1) then Done True (p\<lparr>ppos := ppos p + 1\<rparr>)
      else Done False p)"

definition parse_struct_lit :: "node parse \<Rightarrow> nat \<Rightarrow> token \<Rightarrow> string \<Rightarrow> node parse" where
  "parse_struct_lit pe n idt name p =
     bind (list_until n TOK_RBRACE
       (bind (expect TOK_IDENT ''expected field name'') (\<lambda>fn_tok.
        bind (expect TOK_COLON (''expected '' @ in_quotes '':'' @ '' after field name'')) (\<lambda>_.
        bind pe (\<lambda>fv.
        bind (match TOK_COMMA) (\<lambda>_.
        ret (intern fn_tok, fv))))))) (\<lambda>fields.
     bind (expect TOK_RBRACE (''expected '' @ in_quotes ''}'' @ '' after struct literal'')) (\<lambda>_.
     ret (node_new idt (NODE_STRUCT_LIT name fields)))) p"

definition parse_ident :: "node parse \<Rightarrow> nat \<Rightarrow> token \<Rightarrow> node parse" where
  "parse_ident pe n idt p =
     bind (check TOK_LBRACKET) (\<lambda>b.
     bind ((if b then gen_struct_head idt else ret None)) (\<lambda>g.
     case g of
       Some name \<Rightarrow> parse_struct_lit pe n idt name
     | None \<Rightarrow>
         bind (check TOK_LBRACE) (\<lambda>c.
         bind ((if c then plain_struct_head else ret False)) (\<lambda>s.
         if s then parse_struct_lit pe n idt (intern idt)
         else ret (node_new idt (NODE_IDENT (intern idt))))))) p"

definition parse_literal :: "token \<Rightarrow> (token_kind \<times> node parse) list" where
  "parse_literal t =
    [(TOK_INT, bind prev (\<lambda>l.
               ret (node_new t (NODE_LIT_INT (int_val l))))),
     (TOK_FLOAT, bind prev (\<lambda>l.
                 ret (node_new t (NODE_LIT_FLOAT (float_val l))))),
     (TOK_STRING, bind prev (\<lambda>l.
                  ret (node_new t (NODE_LIT_STRING (c_string (str_val l)))))),
     (TOK_CHAR, bind prev (\<lambda>l.
                ret (node_new t (NODE_LIT_CHAR (int_val l))))),
     (TOK_TRUE, ret (node_new t (NODE_LIT_BOOL True))),
     (TOK_FALSE, ret (node_new t (NODE_LIT_BOOL False))),
     (TOK_NULL, ret (node_new t NODE_LIT_NULL))]"

definition parse_group :: "node parse \<Rightarrow> token \<Rightarrow> node parse" where
  "parse_group pe t p =
     bind pe (\<lambda>inner.
     bind (expect TOK_RPAREN (''expected '' @ in_quotes '')'')) (\<lambda>_.
     ret (node_new t (NODE_GROUP inner)))) p"

definition unexpected_token :: "token \<Rightarrow> string \<Rightarrow> node parse" where
  "unexpected_token t place p =
     bind (report (tline t) (Some (tcol t))
       (''unexpected token '' @ in_quotes (token_kind_name (tkind t)) @ place)) (\<lambda>_.
     bind skip (\<lambda>_.
     ret (node_new t NODE_LIT_NULL))) p"

definition parse_primary :: "node parse \<Rightarrow> nat \<Rightarrow> node parse" where
  "parse_primary pe n p =
     bind cur (\<lambda>t.
     dispatch
       (parse_literal t @
        [(TOK_MATCH, parse_match_expr pe n t),
         (TOK_LPAREN, parse_group pe t),
         (TOK_IDENT, bind prev (parse_ident pe n)),
         (TOK_SELF, bind prev (parse_ident pe n))])
       (unexpected_token t '' in expression'')) p"

subsection \<open>Postfix, unary and binary operators\<close>

definition parse_call_args :: "node parse \<Rightarrow> nat \<Rightarrow> token \<Rightarrow> node \<Rightarrow> node parse" where
  "parse_call_args pe n pt e p =
     bind (unless_check TOK_RPAREN (comma_list n pe)) (\<lambda>args.
     bind (expect TOK_RPAREN (''expected '' @ in_quotes '')'' @ '' after arguments'')) (\<lambda>_.
     ret (node_new pt (NODE_CALL e (case args of None \<Rightarrow> [] | Some xs \<Rightarrow> xs))))) p"

definition parse_field :: "node \<Rightarrow> node parse" where
  "parse_field e p =
     bind (expect TOK_IDENT (''expected field name after '' @ in_quotes ''.'')) (\<lambda>field.
     ret (node_new field (NODE_FIELD e (intern field)))) p"

definition parse_slice_end :: "node parse \<Rightarrow> token \<Rightarrow> node \<Rightarrow> node option \<Rightarrow> node parse" where
  "parse_slice_end pe bt e start p =
     bind (unless_check TOK_RBRACKET pe) (\<lambda>stop.
     bind (expect TOK_RBRACKET (''expected '' @ in_quotes '']'' @ '' after slice'')) (\<lambda>_.
     ret (node_new bt (NODE_SLICE e start stop)))) p"

definition parse_index :: "node parse \<Rightarrow> token \<Rightarrow> node \<Rightarrow> node parse" where
  "parse_index pe bt e p =
     if_match TOK_DOTDOT (parse_slice_end pe bt e None)
     (bind pe (\<lambda>start.
      if_match TOK_DOTDOT (parse_slice_end pe bt e (Some start))
      (bind (expect TOK_RBRACKET (''expected '' @ in_quotes '']'' @ '' after index'')) (\<lambda>_.
       ret (node_new bt (NODE_INDEX e start)))))) p"

text \<open>Postfix \<^verbatim>\<open>++\<close> and \<^verbatim>\<open>--\<close> are compound assignments of the literal 1.\<close>

definition incr_node :: "token \<Rightarrow> node \<Rightarrow> node" where
  "incr_node op e =
     node_new op (NODE_ASSIGN e (node_new op (NODE_LIT_INT 1))
       (Some (if tkind op = TOK_PLUSPLUS then ''+'' else ''-'')))"

definition postfix_step :: "node parse \<Rightarrow> nat \<Rightarrow> node \<Rightarrow> (node + node) parse" where
  "postfix_step pe n e p =
     (dispatch
        [(TOK_LPAREN, bind prev (\<lambda>pt.
                      bind (parse_call_args pe n pt e) (\<lambda>x.
                      ret (Inl x)))),
         (TOK_DOT, bind (parse_field e) (\<lambda>x.
                   ret (Inl x))),
         (TOK_LBRACKET, bind prev (\<lambda>bt.
                        bind (parse_index pe bt e) (\<lambda>x.
                        ret (Inl x)))),
         (TOK_QUESTION, bind prev (\<lambda>op.
                        ret (Inl (node_new op (NODE_UNARY (intern op) e))))),
         (TOK_PLUSPLUS, bind prev (\<lambda>op.
                        ret (Inl (incr_node op e)))),
         (TOK_MINUSMINUS, bind prev (\<lambda>op.
                          ret (Inl (incr_node op e))))]
        (ret (Inr e))) p"

definition parse_postfix :: "node parse \<Rightarrow> nat \<Rightarrow> node parse" where
  "parse_postfix pe n p = bind (parse_primary pe n) (ploop n (postfix_step pe n)) p"

text \<open>\<^verbatim>\<open>match(p, k1) || match(p, k2) || ...\<close>\<close>

primrec match_any :: "token_kind list \<Rightarrow> bool parse" where
  "match_any [] p = ret False p"
| "match_any (k # ks) p = if_match k (ret True) (match_any ks) p"

primrec parse_unary :: "node parse \<Rightarrow> nat \<Rightarrow> node parse" where
  "parse_unary pe 0 p = fail NoFuel p"
| "parse_unary pe (Suc n) p =
     bind (match_any [TOK_BANG, TOK_MINUS, TOK_STAR, TOK_AMP, TOK_TILDE]) (\<lambda>m.
     if m then
       bind prev (\<lambda>op.
       bind (parse_unary pe n) (\<lambda>operand.
       ret (node_new op (NODE_UNARY (intern op) operand))))
     else parse_postfix pe (Suc n)) p"

definition parse_cast :: "node parse \<Rightarrow> nat \<Rightarrow> node parse" where
  "parse_cast pe n p =
     bind (parse_unary pe n) (ploop n (\<lambda>e.
       if_match TOK_AS
         (bind prev (\<lambda>as_tok.
          bind (parse_type n) (\<lambda>ty.
          ret (Inl (node_new as_tok (NODE_CAST e ty))))))
         (ret (Inr e)))) p"

definition parse_binop :: "node parse \<Rightarrow> token_kind list \<Rightarrow> nat \<Rightarrow> node parse" where
  "parse_binop next_level ops n p =
     bind next_level (ploop n (\<lambda>left.
       bind (match_any ops) (\<lambda>m.
       if m then
         bind prev (\<lambda>op.
         bind next_level (\<lambda>right.
         ret (Inl (node_new op (NODE_BINARY (intern op) left right)))))
       else ret (Inr left)))) p"

definition parse_factor :: "node parse \<Rightarrow> nat \<Rightarrow> node parse" where
  "parse_factor pe n p = parse_binop (parse_cast pe n) [TOK_STAR, TOK_SLASH, TOK_PERCENT] n p"

definition parse_term :: "node parse \<Rightarrow> nat \<Rightarrow> node parse" where
  "parse_term pe n p = parse_binop (parse_factor pe n) [TOK_PLUS, TOK_MINUS] n p"

definition parse_shift :: "node parse \<Rightarrow> nat \<Rightarrow> node parse" where
  "parse_shift pe n p = parse_binop (parse_term pe n) [TOK_LSHIFT, TOK_RSHIFT] n p"

definition parse_comparison :: "node parse \<Rightarrow> nat \<Rightarrow> node parse" where
  "parse_comparison pe n p = parse_binop (parse_shift pe n) [TOK_LT, TOK_GT, TOK_LE, TOK_GE] n p"

definition parse_equality :: "node parse \<Rightarrow> nat \<Rightarrow> node parse" where
  "parse_equality pe n p = parse_binop (parse_comparison pe n) [TOK_EQEQ, TOK_NE] n p"

definition parse_bitwise_and :: "node parse \<Rightarrow> nat \<Rightarrow> node parse" where
  "parse_bitwise_and pe n p = parse_binop (parse_equality pe n) [TOK_AMP] n p"

definition parse_bitwise_xor :: "node parse \<Rightarrow> nat \<Rightarrow> node parse" where
  "parse_bitwise_xor pe n p = parse_binop (parse_bitwise_and pe n) [TOK_CARET] n p"

definition parse_bitwise_or :: "node parse \<Rightarrow> nat \<Rightarrow> node parse" where
  "parse_bitwise_or pe n p = parse_binop (parse_bitwise_xor pe n) [TOK_PIPE] n p"

definition parse_logical_and :: "node parse \<Rightarrow> nat \<Rightarrow> node parse" where
  "parse_logical_and pe n p = parse_binop (parse_bitwise_or pe n) [TOK_ANDAND] n p"

definition parse_logical_or :: "node parse \<Rightarrow> nat \<Rightarrow> node parse" where
  "parse_logical_or pe n p = parse_binop (parse_logical_and pe n) [TOK_OROR] n p"

definition compound_op :: "string option parse" where
  "compound_op p =
     (dispatch
        [(TOK_PLUS_EQ, ret (Some ''+'')), (TOK_MINUS_EQ, ret (Some ''-'')),
         (TOK_STAR_EQ, ret (Some ''*'')), (TOK_SLASH_EQ, ret (Some ''/'')),
         (TOK_PERCENT_EQ, ret (Some ''%''))]
        (ret None)) p"

primrec parse_assign :: "node parse \<Rightarrow> nat \<Rightarrow> node parse" where
  "parse_assign pe 0 p = fail NoFuel p"
| "parse_assign pe (Suc n) p =
     bind (parse_logical_or pe (Suc n)) (\<lambda>left.
     bind compound_op (\<lambda>cop.
     case cop of
       Some op \<Rightarrow>
         bind prev (\<lambda>eq.
         bind (parse_assign pe n) (\<lambda>val.
         ret (node_new eq (NODE_ASSIGN left val (Some op)))))
     | None \<Rightarrow>
         if_match TOK_EQ
           (bind prev (\<lambda>eq.
            bind (parse_assign pe n) (\<lambda>val.
            ret (node_new eq (NODE_ASSIGN left val None)))))
           (ret left))) p"

primrec parse_expr :: "nat \<Rightarrow> node parse" where
  "parse_expr 0 p = fail NoFuel p"
| "parse_expr (Suc n) p = parse_assign (parse_expr n) (Suc n) p"

end
