(* ===== verification/Parser_Decl.thy ===== *)
theory Parser_Decl
  imports Parser
begin

text \<open>
  Statements, user-interface elements, declarations and the entry point of
  \<^verbatim>\<open>compiler/src/parser/parser.c\<close>.
\<close>

subsection \<open>Statements\<close>

definition parse_block_of :: "node parse \<Rightarrow> nat \<Rightarrow> node parse" where
  "parse_block_of ps n p =
     bind (expect TOK_LBRACE (''expected '' @ in_quotes ''{'')) (\<lambda>brace.
     bind (list_until n TOK_RBRACE ps) (\<lambda>stmts.
     bind (expect TOK_RBRACE (''expected '' @ in_quotes ''}'')) (\<lambda>_.
     ret (node_new brace (NODE_BLOCK stmts))))) p"

text \<open>\<^verbatim>\<open>let\<close> without its semicolon, as a statement and as the first part of a \<^verbatim>\<open>for\<close>.\<close>

definition parse_let_head :: "node parse \<Rightarrow> nat \<Rightarrow> token \<Rightarrow> node parse" where
  "parse_let_head pe n t p =
     bind (expect TOK_IDENT ''expected variable name'') (\<lambda>name.
     bind (opt_type n) (\<lambda>ty.
     bind (opt_match TOK_EQ pe) (\<lambda>val.
     ret (node_new t (NODE_LET (intern name) ty val))))) p"

definition parse_let :: "node parse \<Rightarrow> nat \<Rightarrow> token \<Rightarrow> node parse" where
  "parse_let pe n t p =
     bind (parse_let_head pe n t) (\<lambda>l.
     bind (expect TOK_SEMICOLON (''expected '' @ in_quotes '';'' @ '' after let'')) (\<lambda>_.
     ret l)) p"

text \<open>A constant; \<open>at\<close> chooses the token whose position the node gets, given the name.\<close>

definition parse_const_rest ::
  "node parse \<Rightarrow> nat \<Rightarrow> (token \<Rightarrow> token) \<Rightarrow> string \<Rightarrow> string \<Rightarrow> string \<Rightarrow> node parse" where
  "parse_const_rest pe n at name_msg eq_msg semi_msg p =
     bind (expect TOK_IDENT name_msg) (\<lambda>name.
     bind (opt_type n) (\<lambda>ty.
     bind (expect TOK_EQ eq_msg) (\<lambda>_.
     bind pe (\<lambda>val.
     bind (expect TOK_SEMICOLON semi_msg) (\<lambda>_.
     ret (node_new (at name) (NODE_CONST (intern name) ty val))))))) p"

definition parse_const :: "node parse \<Rightarrow> nat \<Rightarrow> token \<Rightarrow> node parse" where
  "parse_const pe n t p =
     parse_const_rest pe n (\<lambda>_. t) ''expected constant name''
       (''expected '' @ in_quotes ''='' @ '' in const'')
       (''expected '' @ in_quotes '';'' @ '' after const'') p"

definition parse_return :: "node parse \<Rightarrow> token \<Rightarrow> node parse" where
  "parse_return pe t p =
     bind (unless_check TOK_SEMICOLON pe) (\<lambda>val.
     bind (expect TOK_SEMICOLON (''expected '' @ in_quotes '';'' @ '' after return'')) (\<lambda>_.
     ret (node_new t (NODE_RETURN val)))) p"

definition parse_if :: "node parse \<Rightarrow> node parse \<Rightarrow> node parse \<Rightarrow> token \<Rightarrow> node parse" where
  "parse_if pe pb ps t p =
     bind pe (\<lambda>cond.
     bind pb (\<lambda>then_blk.
     bind (opt_match TOK_ELSE
       (bind (check TOK_IF) (\<lambda>c.
        if c then ps else pb))) (\<lambda>else_node.
     ret (node_new t (NODE_IF cond then_blk else_node))))) p"

definition parse_while :: "node parse \<Rightarrow> node parse \<Rightarrow> token \<Rightarrow> node parse" where
  "parse_while pe pb t p =
     bind pe (\<lambda>cond.
     bind pb (\<lambda>body.
     ret (node_new t (NODE_WHILE cond body)))) p"

definition parse_for_init :: "node parse \<Rightarrow> nat \<Rightarrow> token \<Rightarrow> node parse" where
  "parse_for_init pe n t p =
     if_match TOK_LET (parse_let_head pe n t)
     (bind pe (\<lambda>e.
      ret (Node (nline e) (ncol e) (NODE_EXPR_STMT e)))) p"

definition parse_for :: "node parse \<Rightarrow> node parse \<Rightarrow> nat \<Rightarrow> token \<Rightarrow> node parse" where
  "parse_for pe pb n t p =
     bind (unless_check TOK_SEMICOLON (parse_for_init pe n t)) (\<lambda>init.
     bind (expect TOK_SEMICOLON (''expected '' @ in_quotes '';'' @ '' after for init'')) (\<lambda>_.
     bind (unless_check TOK_SEMICOLON pe) (\<lambda>cond.
     bind (expect TOK_SEMICOLON (''expected '' @ in_quotes '';'' @ '' after for condition'')) (\<lambda>_.
     bind (unless_check TOK_LBRACE pe) (\<lambda>post.
     bind pb (\<lambda>body.
     ret (node_new t (NODE_FOR init cond post body)))))))) p"

definition parse_jump :: "string \<Rightarrow> node_as \<Rightarrow> token \<Rightarrow> node parse" where
  "parse_jump word a t p =
     bind (expect TOK_SEMICOLON (''expected '' @ in_quotes '';'' @ '' after '' @ word)) (\<lambda>_.
     ret (node_new t a)) p"

definition parse_defer :: "node parse \<Rightarrow> token \<Rightarrow> node parse" where
  "parse_defer pe t p =
     bind pe (\<lambda>e.
     bind (expect TOK_SEMICOLON (''expected '' @ in_quotes '';'' @ '' after defer'')) (\<lambda>_.
     ret (node_new t (NODE_DEFER e)))) p"

definition parse_expr_stmt :: "node parse \<Rightarrow> token \<Rightarrow> node parse" where
  "parse_expr_stmt pe t p =
     bind pe (\<lambda>e.
     bind (expect TOK_SEMICOLON (''expected '' @ in_quotes '';'' @ '' after expression'')) (\<lambda>_.
     ret (node_new t (NODE_EXPR_STMT e)))) p"

definition parse_stmt_of :: "node parse \<Rightarrow> node parse \<Rightarrow> node parse \<Rightarrow> nat \<Rightarrow> node parse" where
  "parse_stmt_of pe pb ps n p =
     bind cur (\<lambda>t.
     dispatch
       [(TOK_LET, parse_let pe n t),
        (TOK_CONST, parse_const pe n t),
        (TOK_RETURN, parse_return pe t),
        (TOK_IF, parse_if pe pb ps t),
        (TOK_WHILE, parse_while pe pb t),
        (TOK_FOR, parse_for pe pb n t),
        (TOK_LOOP, bind pb (\<lambda>body.
                   ret (node_new t (NODE_LOOP body)))),
        (TOK_UNSAFE, bind pb (\<lambda>body.
                     ret (node_new t (NODE_UNSAFE body)))),
        (TOK_BREAK, parse_jump ''break'' NODE_BREAK t),
        (TOK_CONTINUE, parse_jump ''continue'' NODE_CONTINUE t),
        (TOK_DEFER, parse_defer pe t)]
       (parse_expr_stmt pe t)) p"

primrec parse_stmt :: "nat \<Rightarrow> node parse" where
  "parse_stmt 0 p = fail NoFuel p"
| "parse_stmt (Suc n) p =
     parse_stmt_of (parse_expr (Suc n)) (parse_block_of (parse_stmt n) (Suc n)) (parse_stmt n) (Suc n) p"

definition parse_block :: "nat \<Rightarrow> node parse" where
  "parse_block n p = parse_block_of (parse_stmt n) n p"

subsection \<open>Parameters and user-interface elements\<close>

text \<open>A name, a colon and a type: a parameter or a field, kept as a \<open>NODE_LET\<close> without a value.\<close>

definition typed_name :: "nat \<Rightarrow> token \<Rightarrow> string \<Rightarrow> node parse" where
  "typed_name n name msg p =
     bind (expect TOK_COLON msg) (\<lambda>_.
     bind (parse_type n) (\<lambda>ty.
     ret (node_new name (NODE_LET (intern name) (Some ty) None)))) p"

definition parse_param :: "nat \<Rightarrow> node parse" where
  "parse_param n p =
     bind (check TOK_SELF) (\<lambda>c.
     bind ((if c then bind cur (\<lambda>s.
                        bind skip (\<lambda>_.
                        ret s))
              else expect TOK_IDENT ''expected parameter name'')) (\<lambda>name.
     typed_name n name (''expected '' @ in_quotes '':'' @ '' after parameter name''))) p"

definition parse_params :: "nat \<Rightarrow> node list parse" where
  "parse_params n p =
     bind (expect TOK_LPAREN (''expected '' @ in_quotes ''('')) (\<lambda>_.
     bind (unless_check TOK_RPAREN (comma_list n (parse_param n))) (\<lambda>ps.
     bind (expect TOK_RPAREN (''expected '' @ in_quotes '')'' @ '' after parameters'')) (\<lambda>_.
     ret (case ps of None \<Rightarrow> [] | Some xs \<Rightarrow> xs)))) p"

definition parse_ui_property :: "node parse \<Rightarrow> node parse" where
  "parse_ui_property pe p =
     bind cur (\<lambda>t.
     bind (expect TOK_IDENT ''expected property name'') (\<lambda>name.
     bind (expect TOK_COLON (''expected '' @ in_quotes '':'' @ '' after property name'')) (\<lambda>_.
     bind pe (\<lambda>val.
     bind (expect TOK_SEMICOLON (''expected '' @ in_quotes '';'' @ '' after property value'')) (\<lambda>_.
     ret (node_new t (NODE_UI_PROPERTY (intern name) val))))))) p"

definition UI_HANDLERS :: "(string \<times> ui_handler_kind) list" where
  "UI_HANDLERS =
    [(''onClick'', UI_HANDLER_CLICK), (''onKey'', UI_HANDLER_KEY), (''onChange'', UI_HANDLER_CHANGE)]"

definition UI_ELEMENTS :: "(string \<times> ui_elem_kind) list" where
  "UI_ELEMENTS =
    [(''window'', UI_ELEM_WINDOW), (''button'', UI_ELEM_BUTTON), (''label'', UI_ELEM_LABEL),
     (''input'', UI_ELEM_INPUT), (''row'', UI_ELEM_ROW), (''column'', UI_ELEM_COLUMN),
     (''canvas'', UI_ELEM_CANVAS), (''panel'', UI_ELEM_PANEL), (''menu'', UI_ELEM_MENU)]"

text \<open>The chain of \<^verbatim>\<open>cur_ident_is\<close> tests against the names of a table.\<close>

definition cur_ident_in :: "(string \<times> 'a) list \<Rightarrow> 'a option parse" where
  "cur_ident_in tab p =
     bind cur (\<lambda>t. ret (if tkind t = TOK_IDENT then map_of tab (lexeme t) else None)) p"

definition parse_ui_handler :: "node parse \<Rightarrow> node parse" where
  "parse_ui_handler pb p =
     bind cur (\<lambda>t.
     bind (cur_ident_in UI_HANDLERS) (\<lambda>h.
     bind ((case h of
       Some k \<Rightarrow> bind skip (\<lambda>_.
                 ret k)
     | None \<Rightarrow>
         bind (report (tline t) (Some (tcol t)) ''unknown handler (expected onClick/onKey/onChange)'') (\<lambda>_.
         bind skip (\<lambda>_.
         ret UI_HANDLER_CLICK)))) (\<lambda>kind.
     bind pb (\<lambda>body.
     ret (node_new t (NODE_UI_HANDLER kind body)))))) p"

definition parse_ui_title :: "string option parse" where
  "parse_ui_title p =
     bind (opt_match TOK_LPAREN
       (bind (check TOK_STRING) (\<lambda>c.
        bind ((if c then bind cur (\<lambda>t.
                            bind skip (\<lambda>_.
                            ret (Some (c_string (str_val t))))) else ret None)) (\<lambda>title.
        bind (expect TOK_RPAREN (''expected '' @ in_quotes '')'' @ '' after element title'')) (\<lambda>_.
        ret title))))) (\<lambda>s.
     ret (case s of None \<Rightarrow> None | Some title \<Rightarrow> title)) p"

text \<open>One member of an element: a handler, a nested element or a property.\<close>

definition parse_ui_member ::
  "node parse \<Rightarrow> node parse \<Rightarrow> node parse \<Rightarrow>
   node list \<times> node list \<times> node list \<Rightarrow> (node list \<times> node list \<times> node list) parse" where
  "parse_ui_member pe pb pu acc p =
     ((case acc of (props, children, handlers) \<Rightarrow>
        bind (cur_ident_in UI_HANDLERS) (\<lambda>h.
        case h of
          Some _ \<Rightarrow> bind (parse_ui_handler pb) (\<lambda>x.
                    ret (props, children, handlers @ [x]))
        | None \<Rightarrow>
            bind (cur_ident_in UI_ELEMENTS) (\<lambda>e.
            case e of
              Some _ \<Rightarrow> bind pu (\<lambda>x.
                        ret (props, children @ [x], handlers))
            | None \<Rightarrow> bind (parse_ui_property pe) (\<lambda>x.
                      ret (props @ [x], children, handlers)))))) p"

definition parse_ui_element_of :: "node parse \<Rightarrow> node parse \<Rightarrow> node parse \<Rightarrow> nat \<Rightarrow> node parse" where
  "parse_ui_element_of pe pb pu n p =
     bind cur (\<lambda>t.
     bind (cur_ident_in UI_ELEMENTS) (\<lambda>k.
     case k of
       None \<Rightarrow>
         bind (report (tline t) (Some (tcol t)) (''unknown UI element '' @ in_quotes (lexeme t))) (\<lambda>_.
         bind skip (\<lambda>_.
         ret (node_new t NODE_LIT_NULL)))
     | Some kind \<Rightarrow>
         bind skip (\<lambda>_.
         bind parse_ui_title (\<lambda>title.
         bind (expect TOK_LBRACE (''expected '' @ in_quotes ''{'' @ '' after UI element'')) (\<lambda>_.
         bind (until_close n TOK_RBRACE (parse_ui_member pe pb pu) ([], [], [])) (\<lambda>(props, children, handlers).
         bind (expect TOK_RBRACE (''expected '' @ in_quotes ''}'' @ '' after UI element body'')) (\<lambda>_.
         ret (node_new t (NODE_UI_ELEMENT kind title props children handlers))))))))) p"

primrec parse_ui_element :: "nat \<Rightarrow> node parse" where
  "parse_ui_element 0 p = fail NoFuel p"
| "parse_ui_element (Suc n) p =
     parse_ui_element_of (parse_expr (Suc n)) (parse_block (Suc n)) (parse_ui_element n) (Suc n) p"

subsection \<open>Declarations\<close>

definition parse_type_params :: "nat \<Rightarrow> node list parse" where
  "parse_type_params n p =
     bind (check TOK_LBRACKET) (\<lambda>c.
     if c then
       bind skip (\<lambda>_.
       bind (comma_list n
         (bind (expect TOK_IDENT ''expected type parameter name'') (\<lambda>t.
          ret (node_new t (NODE_TYPE_NAMED (intern t)))))) (\<lambda>ps.
       bind (expect TOK_RBRACKET (''expected '' @ in_quotes '']'' @ '' after type parameters'')) (\<lambda>_.
       ret ps)))
     else ret []) p"

definition arrow_msg :: string where
  "arrow_msg = ''expected '' @ in_quotes ''->''"

text \<open>\<open>current_package\<close> is read when a node is made; it does not change while a declaration is
  parsed.\<close>

definition parse_fn_decl :: "nat \<Rightarrow> bool \<Rightarrow> string option \<Rightarrow> node parse" where
  "parse_fn_decl n is_public owner p =
     bind prev (\<lambda>t.
     bind (expect TOK_IDENT ''expected function name'') (\<lambda>name.
     bind (parse_type_params n) (\<lambda>tps.
     bind (parse_params n) (\<lambda>params.
     bind (expect TOK_ARROW (arrow_msg @ '' before return type'')) (\<lambda>_.
     bind (parse_type n) (\<lambda>ty.
     bind (parse_block n) (\<lambda>body.
     bind state (\<lambda>st.
     ret (node_new t (NODE_FN_DECL (intern name) owner (current_package st) tps params (Some ty)
       (Some body) is_public)))))))))) p"

definition parse_const_decl :: "nat \<Rightarrow> token \<Rightarrow> node parse" where
  "parse_const_decl n t p =
     parse_const_rest (parse_expr n) n (\<lambda>_. t) (''expected name after '' @ in_quotes ''const'')
       (''expected '' @ in_quotes ''='' @ '' after const name'')
       (''expected '' @ in_quotes '';'' @ '' after const value'') p"

definition parse_impl_method :: "nat \<Rightarrow> token \<Rightarrow> node parse" where
  "parse_impl_method n target p =
     bind (match TOK_PUB) (\<lambda>mpub.
     bind (expect TOK_FN (''expected '' @ in_quotes ''fn'' @ '' in impl block'')) (\<lambda>_.
     parse_fn_decl n mpub (Some (intern target)))) p"

definition parse_impl :: "nat \<Rightarrow> token \<Rightarrow> node parse" where
  "parse_impl n t p =
     bind (expect TOK_IDENT ''expected type name after impl'') (\<lambda>target.
     bind (opt_match TOK_COLON
       (bind (expect TOK_IDENT (''expected interface name after '' @ in_quotes '':'')) (\<lambda>i.
        ret (intern i)))) (\<lambda>iface.
     bind (expect TOK_LBRACE (''expected '' @ in_quotes ''{'' @ '' after impl target'')) (\<lambda>_.
     bind (list_until n TOK_RBRACE (parse_impl_method n target)) (\<lambda>methods.
     bind (expect TOK_RBRACE (''expected '' @ in_quotes ''}'' @ '' after impl block'')) (\<lambda>_.
     bind state (\<lambda>st.
     ret (node_new t (NODE_IMPL_DECL (intern target) (current_package st) iface methods)))))))) p"

definition parse_interface_method :: "nat \<Rightarrow> node parse" where
  "parse_interface_method n p =
     bind (match TOK_PUB) (\<lambda>_.
     bind (expect TOK_FN (''expected '' @ in_quotes ''fn'' @ '' in interface body'')) (\<lambda>_.
     bind prev (\<lambda>fn_tok.
     bind (expect TOK_IDENT ''expected method name'') (\<lambda>mname.
     bind (parse_params n) (\<lambda>params.
     bind (expect TOK_ARROW (arrow_msg @ '' in interface method'')) (\<lambda>_.
     bind (parse_type n) (\<lambda>ty.
     bind (expect TOK_SEMICOLON (''expected '' @ in_quotes '';'' @ '' after interface method'')) (\<lambda>_.
     bind state (\<lambda>st.
     ret (node_new fn_tok (NODE_FN_DECL (intern mname) None (current_package st) [] params (Some ty)
       None True))))))))))) p"

definition parse_interface :: "nat \<Rightarrow> bool \<Rightarrow> token \<Rightarrow> node parse" where
  "parse_interface n is_public t p =
     bind (expect TOK_IDENT ''expected interface name'') (\<lambda>name.
     bind (expect TOK_LBRACE (''expected '' @ in_quotes ''{'' @ '' after interface name'')) (\<lambda>_.
     bind (list_until n TOK_RBRACE (parse_interface_method n)) (\<lambda>methods.
     bind (expect TOK_RBRACE (''expected '' @ in_quotes ''}'' @ '' after interface'')) (\<lambda>_.
     bind state (\<lambda>st.
     ret (node_new t (NODE_INTERFACE_DECL (intern name) (current_package st) methods is_public))))))) p"

text \<open>One turn of the loop of a \<^verbatim>\<open>comptime\<close> block; \<^verbatim>\<open>continue\<close> leaves the list as it is.\<close>

definition parse_comptime_const :: "nat \<Rightarrow> node list \<Rightarrow> node list parse" where
  "parse_comptime_const n xs p =
     bind (match TOK_PUB) (\<lambda>_.
     if_match TOK_CONST
       (bind (parse_const_rest (parse_expr n) n (\<lambda>name. name)
          (''expected name after '' @ in_quotes ''const'')
          (''expected '' @ in_quotes ''='' @ '' in comptime const'')
          (''expected '' @ in_quotes '';'' @ '' after comptime const'')) (\<lambda>c.
        ret (xs @ [c])))
       (bind cur (\<lambda>t.
        bind (report (tline t) None (''expected '' @ in_quotes ''const'' @ '' in comptime block'')) (\<lambda>_.
        bind skip (\<lambda>_.
        ret xs))))) p"

definition parse_comptime :: "nat \<Rightarrow> token \<Rightarrow> node parse" where
  "parse_comptime n t p =
     bind (expect TOK_LBRACE (''expected '' @ in_quotes ''{'' @ '' after '' @ in_quotes ''comptime'')) (\<lambda>_.
     bind (until_close n TOK_RBRACE (parse_comptime_const n) []) (\<lambda>decls.
     bind (expect TOK_RBRACE (''expected '' @ in_quotes ''}'' @ '' after comptime block'')) (\<lambda>_.
     ret (node_new t (NODE_COMPTIME decls))))) p"

text \<open>A field of a structure or union.\<close>

definition parse_field_decl :: "nat \<Rightarrow> node parse" where
  "parse_field_decl n p =
     bind (expect TOK_IDENT ''expected field name'') (\<lambda>fn_tok.
     bind (typed_name n fn_tok (''expected '' @ in_quotes '':'' @ '' after field name'')) (\<lambda>f.
     bind (expect TOK_SEMICOLON (''expected '' @ in_quotes '';'' @ '' after field'')) (\<lambda>_.
     ret f))) p"

text \<open>The fields in braces; \<open>what\<close> is the word of the message when the closing brace is missing.\<close>

definition parse_fields :: "nat \<Rightarrow> string \<Rightarrow> string \<Rightarrow> node list parse" where
  "parse_fields n what closing p =
     bind (expect TOK_LBRACE (''expected '' @ in_quotes ''{'' @ '' after '' @ what @ '' name'')) (\<lambda>_.
     bind (list_until n TOK_RBRACE (parse_field_decl n)) (\<lambda>fields.
     bind (expect TOK_RBRACE (''expected '' @ in_quotes ''}'' @ '' after '' @ closing)) (\<lambda>_.
     ret fields))) p"

definition parse_packed :: "nat \<Rightarrow> bool \<Rightarrow> token \<Rightarrow> node parse" where
  "parse_packed n is_public t p =
     bind (expect TOK_STRUCT (''expected '' @ in_quotes ''struct'' @ '' after '' @ in_quotes ''packed'')) (\<lambda>_.
     bind (expect TOK_IDENT ''expected struct name'') (\<lambda>name.
     bind (parse_type_params n) (\<lambda>_.
     bind (parse_fields n ''struct'' ''packed struct'') (\<lambda>fields.
     bind state (\<lambda>st.
     ret (node_new t (NODE_STRUCT_DECL (intern name) (current_package st) [] fields is_public True))))))) p"

definition parse_struct :: "nat \<Rightarrow> bool \<Rightarrow> token \<Rightarrow> node parse" where
  "parse_struct n is_public t p =
     bind (expect TOK_IDENT ''expected struct name'') (\<lambda>name.
     bind (parse_type_params n) (\<lambda>tps.
     bind (parse_fields n ''struct'' ''struct'') (\<lambda>fields.
     bind state (\<lambda>st.
     ret (node_new t (NODE_STRUCT_DECL (intern name) (current_package st) tps fields is_public False)))))) p"

definition parse_variant_fields :: "nat \<Rightarrow> node list parse" where
  "parse_variant_fields n p =
     bind (list_until n TOK_RPAREN
       (bind (expect TOK_IDENT ''expected field name'') (\<lambda>fn_tok.
        bind (typed_name n fn_tok (''expected '' @ in_quotes '':'' @ '' after field name'')) (\<lambda>f.
        bind (check TOK_RPAREN) (\<lambda>c.
        bind ((if c then ret False else match TOK_COMMA)) (\<lambda>_.
        ret f)))))) (\<lambda>fs.
     bind (expect TOK_RPAREN (''expected '' @ in_quotes '')'' @ '' after variant fields'')) (\<lambda>_.
     ret fs)) p"

definition parse_variant :: "nat \<Rightarrow> (string \<times> node list) parse" where
  "parse_variant n p =
     bind (expect TOK_IDENT ''expected enum variant'') (\<lambda>v.
     bind (opt_match TOK_LPAREN (parse_variant_fields n)) (\<lambda>fs.
     bind (expect TOK_SEMICOLON (''expected '' @ in_quotes '';'' @ '' after variant'')) (\<lambda>_.
     ret (intern v, case fs of None \<Rightarrow> [] | Some xs \<Rightarrow> xs)))) p"

definition parse_enum :: "nat \<Rightarrow> bool \<Rightarrow> token \<Rightarrow> node parse" where
  "parse_enum n is_public t p =
     bind (expect TOK_IDENT ''expected enum name'') (\<lambda>name.
     bind (expect TOK_LBRACE (''expected '' @ in_quotes ''{'' @ '' after enum name'')) (\<lambda>_.
     bind (list_until n TOK_RBRACE (parse_variant n)) (\<lambda>variants.
     bind (expect TOK_RBRACE (''expected '' @ in_quotes ''}'' @ '' after enum'')) (\<lambda>_.
     bind state (\<lambda>st.
     ret (node_new t (NODE_ENUM_DECL (intern name) (current_package st) variants is_public))))))) p"

definition parse_union :: "nat \<Rightarrow> bool \<Rightarrow> token \<Rightarrow> node parse" where
  "parse_union n is_public t p =
     bind (expect TOK_IDENT ''expected union name'') (\<lambda>name.
     bind (parse_fields n ''union'' ''union'') (\<lambda>fields.
     bind state (\<lambda>st.
     ret (node_new t (NODE_UNION_DECL (intern name) (current_package st) fields is_public))))) p"

definition parse_extern :: "nat \<Rightarrow> bool \<Rightarrow> token \<Rightarrow> node parse" where
  "parse_extern n is_public t p =
     bind (check TOK_STRING) (\<lambda>c.
     bind ((if c then bind cur (\<lambda>s.
                        bind skip (\<lambda>_.
                        ret (Some (c_string (str_val s))))) else ret None)) (\<lambda>conv.
     bind (expect TOK_FN (''expected '' @ in_quotes ''fn'' @ '' after extern'')) (\<lambda>_.
     bind (expect TOK_IDENT ''expected function name'') (\<lambda>name.
     bind (parse_params n) (\<lambda>params.
     bind (expect TOK_ARROW arrow_msg) (\<lambda>_.
     bind (parse_type n) (\<lambda>ty.
     bind (expect TOK_SEMICOLON (''expected '' @ in_quotes '';'' @ '' after extern declaration'')) (\<lambda>_.
     bind state (\<lambda>st.
     ret (node_new t (NODE_EXTERN_FN (intern name) (current_package st) conv params (Some ty) is_public))))))))))) p"

definition parse_ui_app :: "nat \<Rightarrow> bool \<Rightarrow> token \<Rightarrow> node parse" where
  "parse_ui_app n is_public t p =
     bind (expect TOK_APP (''expected '' @ in_quotes ''app'' @ '' after '' @ in_quotes ''ui'')) (\<lambda>_.
     bind (expect TOK_IDENT (''expected app name after '' @ in_quotes ''ui app'')) (\<lambda>name.
     bind (expect TOK_LBRACE (''expected '' @ in_quotes ''{'' @ '' after app name'')) (\<lambda>_.
     bind (list_until n TOK_RBRACE (parse_ui_element n)) (\<lambda>children.
     bind (expect TOK_RBRACE (''expected '' @ in_quotes ''}'' @ '' after ui app body'')) (\<lambda>_.
     bind state (\<lambda>st.
     ret (node_new t (NODE_UI_APP (intern name) (current_package st) children is_public)))))))) p"

definition parse_kernel_fn :: "nat \<Rightarrow> node list \<Rightarrow> node list parse" where
  "parse_kernel_fn n xs p =
     bind (match TOK_PUB) (\<lambda>is_pub.
     bind (check TOK_FN) (\<lambda>c.
     if c then bind skip (\<lambda>_.
               bind (parse_fn_decl n is_pub None) (\<lambda>f.
               ret (xs @ [f])))
     else
       bind cur (\<lambda>t.
       bind (report (tline t) (Some (tcol t)) (''expected '' @ in_quotes ''fn'' @ '' inside kernel app'')) (\<lambda>_.
       bind skip (\<lambda>_.
       ret xs))))) p"

definition parse_kernel_app :: "nat \<Rightarrow> bool \<Rightarrow> token \<Rightarrow> node parse" where
  "parse_kernel_app n is_public t p =
     bind (expect TOK_APP (''expected '' @ in_quotes ''app'' @ '' after '' @ in_quotes ''kernel'')) (\<lambda>_.
     bind (expect TOK_IDENT (''expected app name after '' @ in_quotes ''kernel app'')) (\<lambda>name.
     bind (expect TOK_LBRACE (''expected '' @ in_quotes ''{'' @ '' after kernel app name'')) (\<lambda>_.
     bind (until_close n TOK_RBRACE (parse_kernel_fn n) []) (\<lambda>fns.
     bind (expect TOK_RBRACE (''expected '' @ in_quotes ''}'' @ '' after kernel app body'')) (\<lambda>_.
     bind state (\<lambda>st.
     ret (node_new t (NODE_KERNEL_APP (intern name) (current_package st) fns is_public)))))))) p"

definition parse_decl :: "nat \<Rightarrow> node parse" where
  "parse_decl n p =
     bind cur (\<lambda>t.
     bind (match TOK_PUB) (\<lambda>is_public.
     dispatch
       [(TOK_CONST, parse_const_decl n t),
        (TOK_IMPL, parse_impl n t),
        (TOK_INTERFACE, parse_interface n is_public t),
        (TOK_COMPTIME, parse_comptime n t),
        (TOK_PACKED, parse_packed n is_public t),
        (TOK_STRUCT, parse_struct n is_public t),
        (TOK_ENUM, parse_enum n is_public t),
        (TOK_UNION, parse_union n is_public t),
        (TOK_EXTERN, parse_extern n is_public t),
        (TOK_FN, parse_fn_decl n is_public None),
        (TOK_UI, parse_ui_app n is_public t),
        (TOK_KERNEL, parse_kernel_app n is_public t)]
       (unexpected_token t '' at top level''))) p"

subsection \<open>Programs\<close>

definition set_package :: "string \<Rightarrow> unit parse" where
  "set_package path p = Done () (p\<lparr>current_package := Some path\<rparr>)"

definition parse_package :: "nat \<Rightarrow> node parse" where
  "parse_package n p =
     bind prev (\<lambda>t.
     bind (parse_path n ''expected package name'' False) (\<lambda>path.
     bind (expect TOK_SEMICOLON (''expected '' @ in_quotes '';'' @ '' after package'')) (\<lambda>_.
     bind (set_package path) (\<lambda>_.
     ret (node_new t (NODE_PACKAGE path)))))) p"

definition parse_import :: "nat \<Rightarrow> node parse" where
  "parse_import n p =
     bind prev (\<lambda>t.
     bind (parse_path n ''expected import path'' False) (\<lambda>path.
     bind (expect TOK_SEMICOLON (''expected '' @ in_quotes '';'' @ '' after import'')) (\<lambda>_.
     ret (node_new t (NODE_IMPORT path))))) p"

definition parse_imports :: "nat \<Rightarrow> node list parse" where
  "parse_imports n p =
     ploop n (\<lambda>xs. if_match TOK_IMPORT (bind (parse_import n) (\<lambda>i.
                                         ret (Inl (xs @ [i])))) (ret (Inr xs))) [] p"

definition parse_decls :: "nat \<Rightarrow> node list parse" where
  "parse_decls n p =
     ploop n (\<lambda>xs.
       bind (check TOK_EOF) (\<lambda>e.
       if e then ret (Inr xs) else bind (parse_decl n) (\<lambda>d.
                                   ret (Inl (xs @ [d]))))) [] p"

definition parse_program :: "nat \<Rightarrow> node parse" where
  "parse_program n p =
     bind (opt_match TOK_PACKAGE (parse_package n)) (\<lambda>pkg.
     bind (parse_imports n) (\<lambda>imports.
     bind (parse_decls n) (\<lambda>decls.
     ret (Node 1 1 (NODE_PROGRAM pkg imports decls))))) p"

definition parser_init :: "token list \<Rightarrow> parser" where
  "parser_init ts = \<lparr>toks = ts, ppos = 0, had_error = False, current_package = None, errs = []\<rparr>"

text \<open>The result is \<open>None\<close> where C returns NULL: a diagnostic was printed.\<close>

definition parser_parse :: "token list \<Rightarrow> node option outcome" where
  "parser_parse ts =
     bind (parse_program (Suc (length ts))) (\<lambda>prog.
     bind state (\<lambda>st.
     ret (if had_error st then None else Some prog))) (parser_init ts)"

end
