(* ===== verification/Lexer.thy ===== *)
theory Lexer
  imports Token
begin

text \<open>
  The scanner of \<^verbatim>\<open>compiler/src/lexer/lexer.c\<close>. The state \<open>lexer\<close> has the fields of the C
  struct; \<^verbatim>\<open>peek\<close>, \<^verbatim>\<open>peek_next\<close> and \<^verbatim>\<open>advance\<close> work on it, each \<^verbatim>\<open>while\<close> loop is a function
  whose measure is the number of characters left, and each block of \<^verbatim>\<open>lexer_tokenize\<close> is one
  definition that returns the token and the state after it. A lexical error, which C prints
  before it returns 0, is a value of \<open>lex_error\<close> with the position and the data of the message.

  The C counters \<^verbatim>\<open>pos\<close>, \<^verbatim>\<open>line\<close>, \<^verbatim>\<open>col\<close> are \<^verbatim>\<open>int\<close>: the model is of sources below 2 GiB.
  \<^verbatim>\<open>long long\<close> values are 64-bit words: where the C multiplication overflows its result is
  undefined, and the model wraps around as the generated code does.
\<close>

subsection \<open>Tables\<close>

definition KEYWORDS :: "(string \<times> token_kind) list" where
  "KEYWORDS =
    [(''package'', TOK_PACKAGE), (''import'', TOK_IMPORT), (''pub'', TOK_PUB),
     (''fn'', TOK_FN), (''let'', TOK_LET), (''const'', TOK_CONST), (''return'', TOK_RETURN),
     (''if'', TOK_IF), (''else'', TOK_ELSE), (''while'', TOK_WHILE), (''loop'', TOK_LOOP),
     (''for'', TOK_FOR), (''break'', TOK_BREAK), (''continue'', TOK_CONTINUE),
     (''struct'', TOK_STRUCT), (''enum'', TOK_ENUM), (''union'', TOK_UNION),
     (''interface'', TOK_INTERFACE), (''impl'', TOK_IMPL), (''unsafe'', TOK_UNSAFE),
     (''extern'', TOK_EXTERN), (''as'', TOK_AS), (''match'', TOK_MATCH),
     (''kernel'', TOK_KERNEL), (''native'', TOK_NATIVE), (''ui'', TOK_UI),
     (''android'', TOK_ANDROID), (''driver'', TOK_DRIVER), (''app'', TOK_APP),
     (''module'', TOK_MODULE), (''defer'', TOK_DEFER), (''comptime'', TOK_COMPTIME),
     (''packed'', TOK_PACKED), (''true'', TOK_TRUE), (''false'', TOK_FALSE),
     (''null'', TOK_NULL), (''Self'', TOK_SELF), (''_'', TOK_UNDERSCORE)]"

definition TWO_CHAR :: "((char \<times> char) \<times> token_kind) list" where
  "TWO_CHAR =
    [((CHR ''-'', CHR ''>''), TOK_ARROW), ((CHR ''='', CHR ''>''), TOK_FAT_ARROW),
     ((CHR ''='', CHR ''=''), TOK_EQEQ), ((CHR ''!'', CHR ''=''), TOK_NE),
     ((CHR ''<'', CHR ''=''), TOK_LE), ((CHR ''>'', CHR ''=''), TOK_GE),
     ((CHR ''&'', CHR ''&''), TOK_ANDAND), ((CHR ''|'', CHR ''|''), TOK_OROR),
     ((CHR ''+'', CHR ''+''), TOK_PLUSPLUS), ((CHR ''-'', CHR ''-''), TOK_MINUSMINUS),
     ((CHR ''+'', CHR ''=''), TOK_PLUS_EQ), ((CHR ''-'', CHR ''=''), TOK_MINUS_EQ),
     ((CHR ''*'', CHR ''=''), TOK_STAR_EQ), ((CHR ''/'', CHR ''=''), TOK_SLASH_EQ),
     ((CHR ''%'', CHR ''=''), TOK_PERCENT_EQ), ((CHR ''<'', CHR ''<''), TOK_LSHIFT),
     ((CHR ''>'', CHR ''>''), TOK_RSHIFT)]"

definition ONE_CHAR :: "(char \<times> token_kind) list" where
  "ONE_CHAR =
    [(CHR ''{'', TOK_LBRACE), (CHR ''}'', TOK_RBRACE), (CHR ''('', TOK_LPAREN),
     (CHR '')'', TOK_RPAREN), (CHR ''['', TOK_LBRACKET), (CHR '']'', TOK_RBRACKET),
     (CHR '';'', TOK_SEMICOLON), (CHR '':'', TOK_COLON), (CHR '','', TOK_COMMA),
     (CHR ''.'', TOK_DOT), (CHR ''='', TOK_EQ), (CHR ''+'', TOK_PLUS),
     (CHR ''-'', TOK_MINUS), (CHR ''*'', TOK_STAR), (CHR ''/'', TOK_SLASH),
     (CHR ''%'', TOK_PERCENT), (CHR ''&'', TOK_AMP), (CHR ''|'', TOK_PIPE),
     (CHR ''^'', TOK_CARET), (CHR ''~'', TOK_TILDE), (CHR ''!'', TOK_BANG),
     (CHR ''<'', TOK_LT), (CHR ''>'', TOK_GT), (CHR ''?'', TOK_QUESTION),
     (CHR ''@'', TOK_AT)]"

subsection \<open>State and one-character operations\<close>

record lexer =
  src :: string
  pos :: nat
  line :: nat
  col :: nat

datatype lex_error =
    UnknownEscape nat nat char
  | UnterminatedString nat nat
  | UnterminatedChar nat nat
  | CharNotOne nat nat
  | UnexpectedChar nat nat char

definition peek :: "lexer \<Rightarrow> char" where
  "peek l = c_at (src l) (pos l)"

definition peek_next :: "lexer \<Rightarrow> char" where
  "peek_next l = (if c_at (src l) (pos l) = NUL then NUL else c_at (src l) (pos l + 1))"

text \<open>The state after \<^verbatim>\<open>advance\<close>; the character it returns is \<open>peek\<close> of the state before.\<close>

definition advance :: "lexer \<Rightarrow> lexer" where
  "advance l =
     (if peek l = newline
      then l\<lparr>pos := pos l + 1, line := line l + 1, col := 1\<rparr>
      else l\<lparr>pos := pos l + 1, col := col l + 1\<rparr>)"

definition is_at_end :: "lexer \<Rightarrow> bool" where
  "is_at_end l \<longleftrightarrow> c_at (src l) (pos l) = NUL"

text \<open>Characters left, the measure of every loop.\<close>

definition left :: "lexer \<Rightarrow> nat" where
  "left l = length (src l) - pos l"

lemma src_advance [simp]: "src (advance l) = src l"
  and pos_advance [simp]: "pos (advance l) = Suc (pos l)"
  by (simp_all add: advance_def)

lemma not_at_end_pos: "\<not> is_at_end l \<Longrightarrow> pos l < length (src l)"
  by (auto simp: is_at_end_def dest: c_at_not_NUL)

lemma peek_pos: "peek l \<noteq> NUL \<Longrightarrow> pos l < length (src l)"
  by (auto simp: peek_def dest: c_at_not_NUL)

lemma peek_next_pos: "peek_next l \<noteq> NUL \<Longrightarrow> Suc (pos l) < length (src l)"
  by (auto simp: peek_next_def dest: c_at_not_NUL split: if_splits)

lemma at_end_peek: "is_at_end l \<longleftrightarrow> peek l = NUL"
  by (simp add: is_at_end_def peek_def)

lemma left_advance: "\<not> is_at_end l \<Longrightarrow> left (advance l) < left l"
  by (auto simp: left_def dest: not_at_end_pos)

subsection \<open>The token list\<close>

record token_list =
  tokens :: "token list"
  capacity :: nat

definition empty_list :: token_list where
  "empty_list = \<lparr>tokens = [], capacity = 0\<rparr>"

definition list_push :: "token_list \<Rightarrow> token \<Rightarrow> token_list" where
  "list_push ts t =
     (let ts1 = (if length (tokens ts) = capacity ts
                 then ts\<lparr>capacity := (if capacity ts \<noteq> 0 then capacity ts * 2 else 64)\<rparr>
                 else ts)
      in ts1\<lparr>tokens := tokens ts @ [t]\<rparr>)"

definition token_list_free :: "token_list \<Rightarrow> token_list" where
  "token_list_free ts = ts\<lparr>tokens := [], capacity := 0\<rparr>"

subsection \<open>White space and comments\<close>

text \<open>
  \<^verbatim>\<open>while (!is_at_end(l) && p(peek(l))) advance(l)\<close>. Loops of the scanner that do not test for
  the end are of this form too: the classes they test for do not hold the terminator.
\<close>

function advance_while :: "(char \<Rightarrow> bool) \<Rightarrow> lexer \<Rightarrow> lexer" where
  "advance_while p l =
     (if \<not> is_at_end l \<and> p (peek l) then advance_while p (advance l) else l)"
  by pat_completeness auto
termination
  by (relation "measure (\<lambda>(p, l). left l)") (auto intro: left_advance)

declare advance_while.simps [simp del]

text \<open>The body of a block comment; \<open>depth\<close> counts the comments that are open.\<close>

function skip_block_comment :: "lexer \<Rightarrow> nat \<Rightarrow> lexer" where
  "skip_block_comment l depth =
     (if \<not> is_at_end l \<and> depth > 0 then
        (if peek l = CHR ''/'' \<and> peek_next l = CHR ''*''
           then skip_block_comment (advance (advance l)) (depth + 1)
         else if peek l = CHR ''*'' \<and> peek_next l = CHR ''/''
           then skip_block_comment (advance (advance l)) (depth - 1)
         else skip_block_comment (advance l) depth)
      else l)"
  by pat_completeness auto
termination
  by (relation "measure (\<lambda>(l, d). left l)") (auto simp: left_def dest: not_at_end_pos)

declare skip_block_comment.simps [simp del]

lemma src_advance_while [simp]: "src (advance_while p l) = src l"
  by (induction p l rule: advance_while.induct) (subst advance_while.simps, simp)

lemma pos_advance_while: "pos l \<le> pos (advance_while p l)"
proof (induction p l rule: advance_while.induct)
  case (1 p l)
  then show ?case by (subst advance_while.simps) (auto intro: order_trans [rotated])
qed

lemma src_skip_block [simp]: "src (skip_block_comment l d) = src l"
  by (induction l d rule: skip_block_comment.induct) (subst skip_block_comment.simps, simp)

lemma pos_skip_block: "pos l \<le> pos (skip_block_comment l d)"
proof (induction l d rule: skip_block_comment.induct)
  case (1 l d)
  then show ?case by (subst skip_block_comment.simps) (auto intro: Suc_leD)
qed

function skip_whitespace_and_comments :: "lexer \<Rightarrow> lexer" where
  "skip_whitespace_and_comments l0 =
     (let l = advance_while isspace l0 in
      if peek l = CHR ''/'' \<and> peek_next l = CHR ''/'' then
        skip_whitespace_and_comments (advance_while (\<lambda>c. c \<noteq> newline) l)
      else if peek l = CHR ''/'' \<and> peek_next l = CHR ''*'' then
        skip_whitespace_and_comments (skip_block_comment (advance (advance l)) 1)
      else l)"
  by pat_completeness auto
termination
proof (relation "measure left")
  fix l0 l
  assume l: "l = advance_while isspace l0" and c: "peek l = CHR ''/'' \<and> peek_next l = CHR ''/''"
  have p: "pos l < length (src l)" using c by (auto intro: peek_pos)
  have "pos (advance l) \<le> pos (advance_while (\<lambda>c. c \<noteq> newline) (advance l))"
    by (rule pos_advance_while)
  moreover have "advance_while (\<lambda>c. c \<noteq> newline) l = advance_while (\<lambda>c. c \<noteq> newline) (advance l)"
    using c by (subst advance_while.simps) (simp add: at_end_peek)
  moreover have "pos l0 \<le> pos l" using pos_advance_while l by simp
  ultimately show "(advance_while (\<lambda>c. c \<noteq> newline) l, l0) \<in> measure left"
    using p l by (simp add: left_def)
next
  fix l0 l
  assume l: "l = advance_while isspace l0"
    and c: "peek l = CHR ''/'' \<and> peek_next l = CHR ''*''"
  have "pos l < length (src l)" using c by (auto intro: peek_pos)
  moreover have "pos (advance (advance l)) \<le> pos (skip_block_comment (advance (advance l)) 1)"
    by (rule pos_skip_block)
  moreover have "pos l0 \<le> pos l" using pos_advance_while l by simp
  ultimately show "(skip_block_comment (advance (advance l)) 1, l0) \<in> measure left"
    using l by (simp add: left_def)
qed simp_all

declare skip_whitespace_and_comments.simps [simp del]

subsection \<open>Identifiers, digits and escapes\<close>

fun keyword_lookup :: "(string \<times> token_kind) list \<Rightarrow> string \<Rightarrow> token_kind" where
  "keyword_lookup [] w = TOK_IDENT"
| "keyword_lookup ((k, v) # ks) w = (if k = w then v else keyword_lookup ks w)"

definition ident_or_keyword :: "string \<Rightarrow> token_kind" where
  "ident_or_keyword w = keyword_lookup KEYWORDS w"

definition hex_digit :: "char \<Rightarrow> int" where
  "hex_digit c =
     (if isdigit c then of_char c - 48
      else if in_range 97 102 c then of_char c - 97 + 10
      else if in_range 65 70 c then of_char c - 65 + 10
      else -1)"

definition lex_escape :: "lexer \<Rightarrow> lex_error + char \<times> lexer" where
  "lex_escape l =
     (let c = peek l; l1 = advance l in
      if c = CHR ''n'' then Inr (CHR 0x0A, l1)
      else if c = CHR ''r'' then Inr (CHR 0x0D, l1)
      else if c = CHR ''t'' then Inr (CHR 0x09, l1)
      else if c = CHR ''0'' then Inr (NUL, l1)
      else if c = CHR 0x5C then Inr (CHR 0x5C, l1)
      else if c = CHR 0x22 then Inr (CHR 0x22, l1)
      else if c = CHR 0x27 then Inr (CHR 0x27, l1)
      else Inl (UnknownEscape (line l1) (col l1) c))"

text \<open>A token: kind, position of its first character, and the bytes from one offset.\<close>

definition mk_token :: "lexer \<Rightarrow> token_kind \<Rightarrow> nat \<Rightarrow> nat \<Rightarrow> payload \<Rightarrow> token" where
  "mk_token l k s n v =
     \<lparr>tkind = k, tstart = s, tlen = n, tline = line l, tcol = col l, tval = v,
      lexeme = substr (src l) s n\<rparr>"

definition ident_char :: "char \<Rightarrow> bool" where
  "ident_char c \<longleftrightarrow> isalnum c \<or> c = CHR ''_''"

definition lex_ident :: "lexer \<Rightarrow> token \<times> lexer" where
  "lex_ident l =
     (let l1 = advance_while ident_char l;
          n = pos l1 - pos l;
          k = ident_or_keyword (substr (src l) (pos l) n)
      in (mk_token l k (pos l) n (IntVal (if k = TOK_TRUE then 1 else 0)), l1))"

function lex_hex_digits :: "lexer \<Rightarrow> 64 word \<Rightarrow> lexer \<times> 64 word" where
  "lex_hex_digits l val =
     (if 0 \<le> hex_digit (peek l) \<or> peek l = CHR ''_''
      then lex_hex_digits (advance l)
             (if peek l \<noteq> CHR ''_'' then val * 16 + word_of_int (hex_digit (peek l)) else val)
      else (l, val))"
  by pat_completeness auto
termination
proof (relation "measure (\<lambda>(l, v). left l)")
  fix l :: lexer and val :: "64 word"
  assume "0 \<le> hex_digit (peek l) \<or> peek l = CHR ''_''"
  then have "peek l \<noteq> NUL" by (auto simp: hex_digit_def ctype_defs)
  then show "((advance l, if peek l \<noteq> CHR ''_'' then val * 16 + word_of_int (hex_digit (peek l))
      else val), (l, val)) \<in> measure (\<lambda>(l, v). left l)"
    using left_advance [of l] by (simp add: at_end_peek)
qed simp

function lex_dec_digits :: "lexer \<Rightarrow> 64 word \<Rightarrow> lexer \<times> 64 word" where
  "lex_dec_digits l val =
     (if isdigit (peek l) \<or> peek l = CHR ''_''
      then lex_dec_digits (advance l)
             (if peek l \<noteq> CHR ''_'' then val * 10 + word_of_int (of_char (peek l) - 48) else val)
      else (l, val))"
  by pat_completeness auto
termination
proof (relation "measure (\<lambda>(l, v). left l)")
  fix l :: lexer and val :: "64 word"
  assume "isdigit (peek l) \<or> peek l = CHR ''_''"
  then have "peek l \<noteq> NUL" by (auto simp: ctype_defs)
  then show "((advance l, if peek l \<noteq> CHR ''_'' then val * 10 + word_of_int (of_char (peek l) - 48)
      else val), (l, val)) \<in> measure (\<lambda>(l, v). left l)"
    using left_advance [of l] by (simp add: at_end_peek)
qed simp

declare lex_hex_digits.simps [simp del] lex_dec_digits.simps [simp del]

subsection \<open>Numbers\<close>

definition lex_hex :: "lexer \<Rightarrow> token \<times> lexer" where
  "lex_hex l =
     (let (l1, val) = lex_hex_digits (advance (advance l)) 0
      in (mk_token l TOK_INT (pos l) (pos l1 - pos l) (IntVal val), l1))"

text \<open>\<^verbatim>\<open>.\<close> and digits, then an exponent; both are optional and make the number a float.\<close>

definition lex_fraction :: "lexer \<Rightarrow> bool \<times> lexer" where
  "lex_fraction l =
     (if peek l = CHR ''.'' \<and> isdigit (peek_next l)
      then (True, advance_while (\<lambda>c. isdigit c \<or> c = CHR ''_'') (advance l))
      else (False, l))"

definition lex_exponent :: "lexer \<Rightarrow> bool \<times> lexer" where
  "lex_exponent l =
     (if peek l = CHR ''e'' \<or> peek l = CHR ''E''
      then let l1 = advance l;
               l2 = (if peek l1 = CHR ''+'' \<or> peek l1 = CHR ''-'' then advance l1 else l1)
           in (True, advance_while isdigit l2)
      else (False, l))"

text \<open>The buffer \<^verbatim>\<open>tmp\<close> that \<^verbatim>\<open>atof\<close> reads holds at most 63 characters of the literal.\<close>

definition lex_number :: "lexer \<Rightarrow> token \<times> lexer" where
  "lex_number l =
     (if peek l = CHR ''0'' \<and> (peek_next l = CHR ''x'' \<or> peek_next l = CHR ''X'') then lex_hex l
      else
        let (l1, ival) = lex_dec_digits l 0;
            (frac, l2) = lex_fraction l1;
            (expo, l3) = lex_exponent l2;
            n = pos l3 - pos l
        in if frac \<or> expo
           then (mk_token l TOK_FLOAT (pos l) n
                   (FloatVal (substr (src l) (pos l) (if n < 63 then n else 63))), l3)
           else (mk_token l TOK_INT (pos l) n (IntVal ival), l3))"

subsection \<open>Strings and characters\<close>

text \<open>
  The loop of a string literal. \<open>buf\<close> is the part of the 4096-byte buffer that is filled; a
  character that does not fit is read and dropped. \<open>sl\<close> and \<open>sc\<close> are the position of the
  opening quote.
\<close>

definition buf_push :: "string \<Rightarrow> char \<Rightarrow> string" where
  "buf_push buf ch = (if length buf < 4095 then buf @ [ch] else buf)"

lemma lex_escape_pos: "lex_escape l = Inr (c, l') \<Longrightarrow> src l' = src l \<and> pos l' = Suc (pos l) \<and> peek l \<noteq> NUL"
  by (auto simp: lex_escape_def Let_def split: if_splits)

function lex_string_body :: "nat \<Rightarrow> nat \<Rightarrow> lexer \<Rightarrow> string \<Rightarrow> lex_error + string \<times> lexer" where
  "lex_string_body sl sc l buf =
     (if \<not> is_at_end l \<and> peek l \<noteq> CHR 0x22 then
        (if peek l = newline then Inl (UnterminatedString sl sc)
         else if peek l = CHR 0x5C then
           (case lex_escape (advance l) of
              Inl e \<Rightarrow> Inl e
            | Inr (ch, l1) \<Rightarrow> lex_string_body sl sc l1 (buf_push buf ch))
         else lex_string_body sl sc (advance l) (buf_push buf (peek l)))
      else if is_at_end l then Inl (UnterminatedString sl sc)
      else Inr (buf, advance l))"
  by pat_completeness auto
termination
  by (relation "measure (\<lambda>(sl, sc, l, b). left l)")
    (auto simp: left_def dest!: not_at_end_pos lex_escape_pos)

declare lex_string_body.simps [simp del]

definition lex_string :: "lexer \<Rightarrow> lex_error + token \<times> lexer" where
  "lex_string l =
     (case lex_string_body (line l) (col l) (advance l) [] of
        Inl e \<Rightarrow> Inl e
      | Inr (buf, l1) \<Rightarrow>
          let s = pos l1 - length buf - 2
          in Inr (mk_token l TOK_STRING s (pos l1 - s) (StrVal buf), l1))"

definition lex_char :: "lexer \<Rightarrow> lex_error + token \<times> lexer" where
  "lex_char l =
     (let l1 = advance l in
      if is_at_end l1 then Inl (UnterminatedChar (line l) (col l))
      else
        case (if peek l1 = CHR 0x5C then lex_escape (advance l1) else Inr (peek l1, advance l1)) of
          Inl e \<Rightarrow> Inl e
        | Inr (ch, l2) \<Rightarrow>
            if peek l2 \<noteq> CHR 0x27 then Inl (CharNotOne (line l2) (col l2))
            else let l3 = advance l2
                 in Inr (mk_token l TOK_CHAR (pos l3 - 3) 3 (IntVal (of_nat (of_char ch))), l3))"

subsection \<open>Tokens\<close>

definition lex_two :: "lexer \<Rightarrow> token_kind \<Rightarrow> token \<times> lexer" where
  "lex_two l k = (let l1 = advance (advance l) in (mk_token l k (pos l1 - 2) 2 (IntVal 0), l1))"

definition lex_symbol :: "lexer \<Rightarrow> lex_error + token \<times> lexer" where
  "lex_symbol l =
     (if peek l = CHR ''.'' \<and> peek_next l = CHR ''.'' then Inr (lex_two l TOK_DOTDOT)
      else let l1 = advance l in
        case map_of ONE_CHAR (peek l) of
          None \<Rightarrow> Inl (UnexpectedChar (line l) (col l) (peek l))
        | Some k \<Rightarrow> Inr (mk_token l k (pos l1 - 1) 1 (IntVal 0), l1))"

text \<open>One iteration of the loop of \<^verbatim>\<open>lexer_tokenize\<close>, from a character that is not the end.\<close>

definition lex_token :: "lexer \<Rightarrow> lex_error + token \<times> lexer" where
  "lex_token l =
     (case map_of TWO_CHAR (peek l, peek_next l) of
        Some k \<Rightarrow> Inr (lex_two l k)
      | None \<Rightarrow>
          if isalpha (peek l) \<or> peek l = CHR ''_'' then Inr (lex_ident l)
          else if isdigit (peek l) then Inr (lex_number l)
          else if peek l = CHR 0x22 then lex_string l
          else if peek l = CHR 0x27 then lex_char l
          else lex_symbol l)"


subsection \<open>Every operation moves forward inside the source\<close>

text \<open>\<open>reaches l l'\<close>: from \<open>l\<close>, some calls of \<^verbatim>\<open>advance\<close>, each on a character of the source, lead to
  \<open>l'\<close>. Every loop and every block of the scanner is such a walk.\<close>

inductive reaches :: "lexer \<Rightarrow> lexer \<Rightarrow> bool" where
  stay: "reaches l l"
| move: "pos l < length (src l) \<Longrightarrow> reaches (advance l) l' \<Longrightarrow> reaches l l'"

lemma reaches_trans: "reaches a b \<Longrightarrow> reaches b c \<Longrightarrow> reaches a c"
  by (induction rule: reaches.induct) (auto intro: reaches.intros)

lemma reaches_src: "reaches l l' \<Longrightarrow> src l' = src l"
  and reaches_pos: "reaches l l' \<Longrightarrow> pos l \<le> pos l'"
  by (induction rule: reaches.induct) auto

lemma reaches_advance: "pos l < length (src l) \<Longrightarrow> reaches l (advance l)"
  by (auto intro: reaches.intros)

lemma reaches_advance_peek: "peek l \<noteq> NUL \<Longrightarrow> reaches l (advance l)"
  by (rule reaches_advance, rule peek_pos)

lemma reaches_advance2: "peek_next l \<noteq> NUL \<Longrightarrow> reaches l (advance (advance l))"
  by (rule reaches.move, use peek_next_pos in fastforce)
    (rule reaches_advance, use peek_next_pos in fastforce)

text \<open>\<open>moves l l'\<close>: the same with at least one character consumed.\<close>

definition moves :: "lexer \<Rightarrow> lexer \<Rightarrow> bool" where
  "moves l l' \<longleftrightarrow> reaches l l' \<and> pos l < pos l'"

lemma moves_then_reaches: "moves a b \<Longrightarrow> reaches b c \<Longrightarrow> moves a c"
  by (auto simp: moves_def intro: reaches_trans dest: reaches_pos)

lemma moves_advance: "peek l \<noteq> NUL \<Longrightarrow> moves l (advance l)"
  by (simp add: moves_def reaches_advance_peek)

lemma moves_advance2: "peek_next l \<noteq> NUL \<Longrightarrow> moves l (advance (advance l))"
  by (simp add: moves_def reaches_advance2)

lemma reaches_advance_while: "reaches l (advance_while p l)"
proof (induction p l rule: advance_while.induct)
  case (1 p l)
  then show ?case
    by (subst advance_while.simps)
      (auto intro: reaches.stay reaches_trans [OF reaches_advance_peek] simp: at_end_peek)
qed

lemma reaches_skip_block: "reaches l (skip_block_comment l d)"
proof (induction l d rule: skip_block_comment.induct)
  case (1 l d)
  then show ?case
    by (subst skip_block_comment.simps)
      (auto intro: reaches.stay reaches_trans [OF reaches_advance_peek]
        reaches_trans [OF reaches_advance2] simp: at_end_peek)
qed

lemma reaches_skip: "reaches l (skip_whitespace_and_comments l)"
proof (induction l rule: skip_whitespace_and_comments.induct)
  case (1 l)
  let ?l = "advance_while isspace l"
  have w: "reaches l ?l" by (rule reaches_advance_while)
  consider (line) "peek ?l = CHR ''/'' \<and> peek_next ?l = CHR ''/''"
    | (block) "peek ?l = CHR ''/'' \<and> peek_next ?l = CHR ''*''"
    | (none) "\<not> (peek ?l = CHR ''/'' \<and> peek_next ?l = CHR ''/'')"
        "\<not> (peek ?l = CHR ''/'' \<and> peek_next ?l = CHR ''*'')"
    by blast
  then show ?case
  proof cases
    case line
    then show ?thesis
      using "1.IH"(1) [OF refl line] reaches_trans [OF w reaches_advance_while]
      by (subst skip_whitespace_and_comments.simps) (auto simp: Let_def intro: reaches_trans)
  next
    case block
    have "reaches ?l (advance (advance ?l))" using block by (intro reaches_advance2) simp
    then have "reaches l (skip_block_comment (advance (advance ?l)) 1)"
      using reaches_trans [OF w] reaches_trans reaches_skip_block by blast
    then show ?thesis
      using "1.IH"(2) [OF refl _ block] block
      by (subst skip_whitespace_and_comments.simps) (auto simp: Let_def intro: reaches_trans)
  next
    case none
    then show ?thesis
      using w by (subst skip_whitespace_and_comments.simps) (auto simp: Let_def)
  qed
qed

lemma reaches_hex_digits: "lex_hex_digits l v = (l', v') \<Longrightarrow> reaches l l'"
proof (induction l v arbitrary: l' v' rule: lex_hex_digits.induct)
  case (1 l v)
  show ?case
  proof (cases "0 \<le> hex_digit (peek l) \<or> peek l = CHR ''_''")
    case True
    then have "peek l \<noteq> NUL" by (auto simp: hex_digit_def ctype_defs)
    then show ?thesis
      using 1 True reaches_trans [OF reaches_advance_peek]
      by (subst (asm) (2) lex_hex_digits.simps) auto
  next
    case False
    then show ?thesis
      using "1.prems" by (subst (asm) lex_hex_digits.simps) (auto intro: reaches.stay)
  qed
qed

lemma reaches_dec_digits: "lex_dec_digits l v = (l', v') \<Longrightarrow> reaches l l'"
proof (induction l v arbitrary: l' v' rule: lex_dec_digits.induct)
  case (1 l v)
  show ?case
  proof (cases "isdigit (peek l) \<or> peek l = CHR ''_''")
    case True
    then have "peek l \<noteq> NUL" by (auto simp: ctype_defs)
    then show ?thesis
      using 1 True reaches_trans [OF reaches_advance_peek]
      by (subst (asm) (2) lex_dec_digits.simps) auto
  next
    case False
    then show ?thesis
      using "1.prems" by (subst (asm) lex_dec_digits.simps) (auto intro: reaches.stay)
  qed
qed

lemma reaches_fraction: "lex_fraction l = (b, l') \<Longrightarrow> reaches l l'"
  by (auto simp: lex_fraction_def split: if_splits
      intro: reaches.stay reaches_trans [OF reaches_advance_peek reaches_advance_while])

lemma reaches_exponent: "lex_exponent l = (b, l') \<Longrightarrow> reaches l l'"
  using reaches_trans [OF reaches_advance_peek [of l] reaches_advance_while [of "advance l" isdigit]]
    reaches_trans [OF reaches_advance_peek [of l] reaches_trans [OF reaches_advance_peek [of "advance l"]
      reaches_advance_while [of "advance (advance l)" isdigit]]]
  by (auto simp: lex_exponent_def Let_def split: if_splits intro: reaches.stay)

lemma moves_escape: "lex_escape l = Inr (c, l') \<Longrightarrow> moves l l'"
  by (auto simp: lex_escape_def Let_def split: if_splits intro: moves_advance)

subsection \<open>What a token consists of\<close>

text \<open>
  The facts about a token and the walk over its characters that every block establishes: the
  lexeme ends where the scanner stands, begins at or after the first character, and the union
  holds the member that the kind calls for.
\<close>

definition token_spec :: "lexer \<Rightarrow> token \<Rightarrow> lexer \<Rightarrow> bool" where
  "token_spec l t l' \<longleftrightarrow>
     moves l l' \<and> tstart t + tlen t = pos l' \<and> pos l \<le> tstart t
     \<and> lexeme t = substr (src l) (tstart t) (tlen t)
     \<and> tline t = line l \<and> tcol t = col l \<and> payload_ok t \<and> tkind t \<notin> {TOK_EOF, TOK_COUNT}
     \<and> (tkind t \<notin> {TOK_STRING, TOK_CHAR} \<longrightarrow> tstart t = pos l)"

lemma token_specI:
  assumes "moves l l'" "pos l \<le> s" "s + n = pos l'" "payload_ok (mk_token l k s n v)"
    "k \<notin> {TOK_EOF, TOK_COUNT}" "k \<notin> {TOK_STRING, TOK_CHAR} \<longrightarrow> s = pos l"
  shows "token_spec l (mk_token l k s n v) l'"
  using assms by (auto simp: token_spec_def mk_token_def)

lemma keyword_lookup_all:
  "list_all (\<lambda>e. P (snd e)) ks \<Longrightarrow> P TOK_IDENT \<Longrightarrow> P (keyword_lookup ks w)"
  by (induction ks w rule: keyword_lookup.induct) auto

lemma ident_or_keyword_kind:
  "ident_or_keyword w \<notin> {TOK_EOF, TOK_COUNT, TOK_STRING, TOK_CHAR, TOK_FLOAT, TOK_INT}"
  unfolding ident_or_keyword_def by (rule keyword_lookup_all) (simp_all add: KEYWORDS_def)

lemma payload_ok_int:
  "k \<notin> {TOK_FLOAT, TOK_STRING, TOK_CHAR} \<Longrightarrow> payload_ok (mk_token l k s n (IntVal v))"
  by (simp add: payload_ok_def mk_token_def)

lemma TWO_CHAR_SomeD:
  "map_of TWO_CHAR (c, d) = Some k \<Longrightarrow>
   d \<noteq> NUL \<and> k \<notin> {TOK_FLOAT, TOK_STRING, TOK_CHAR, TOK_EOF, TOK_COUNT}"
  by (drule map_of_SomeD) (auto simp: TWO_CHAR_def)

lemma ONE_CHAR_SomeD:
  "map_of ONE_CHAR c = Some k \<Longrightarrow>
   c \<noteq> NUL \<and> k \<notin> {TOK_FLOAT, TOK_STRING, TOK_CHAR, TOK_EOF, TOK_COUNT}"
  by (drule map_of_SomeD) (auto simp: ONE_CHAR_def)

lemma lex_two_spec:
  assumes "peek_next l \<noteq> NUL" "k \<notin> {TOK_FLOAT, TOK_STRING, TOK_CHAR, TOK_EOF, TOK_COUNT}"
    "lex_two l k = (t, l')"
  shows "token_spec l t l'"
  using assms moves_advance2 [OF assms(1)]
  by (auto simp: lex_two_def Let_def intro!: token_specI payload_ok_int)

lemma lex_symbol_spec:
  assumes "lex_symbol l = Inr (t, l')"
  shows "token_spec l t l'"
proof (cases "peek l = CHR ''.'' \<and> peek_next l = CHR ''.''")
  case True
  then show ?thesis using assms by (intro lex_two_spec [of l TOK_DOTDOT]) (auto simp: lex_symbol_def)
next
  case False
  then obtain k where k: "map_of ONE_CHAR (peek l) = Some k"
    and t: "t = mk_token l k (pos l) 1 (IntVal 0)" "l' = advance l"
    using assms by (auto simp: lex_symbol_def Let_def split: if_splits option.splits)
  show ?thesis
    using ONE_CHAR_SomeD [OF k] unfolding t by (intro token_specI payload_ok_int moves_advance) auto
qed

lemma lex_ident_spec:
  assumes "ident_char (peek l)" "lex_ident l = (t, l')"
  shows "token_spec l t l'"
proof -
  have nz: "peek l \<noteq> NUL" using assms(1) by (auto simp: ident_char_def)
  have "advance_while ident_char l = advance_while ident_char (advance l)"
    using assms(1) nz by (subst advance_while.simps) (simp add: at_end_peek)
  then have m: "moves l (advance_while ident_char l)"
    using moves_then_reaches [OF moves_advance [OF nz] reaches_advance_while] by simp
  then have le: "pos l < pos (advance_while ident_char l)" by (simp add: moves_def)
  have "token_spec l (mk_token l k (pos l) (pos (advance_while ident_char l) - pos l) (IntVal v))
      (advance_while ident_char l)"
    if "k \<notin> {TOK_EOF, TOK_COUNT, TOK_STRING, TOK_CHAR, TOK_FLOAT, TOK_INT}" for k v
    using m le that by (intro token_specI payload_ok_int) auto
  from this [OF ident_or_keyword_kind] show ?thesis
    using assms(2) by (auto simp: lex_ident_def Let_def)
qed

lemma lex_hex_spec:
  assumes "peek_next l \<noteq> NUL" "lex_hex l = (t, l')"
  shows "token_spec l t l'"
proof -
  obtain l1 v where d: "lex_hex_digits (advance (advance l)) 0 = (l1, v)" by fastforce
  have m: "moves l l1"
    using moves_then_reaches [OF moves_advance2 [OF assms(1)] reaches_hex_digits [OF d]] .
  then show ?thesis
    using assms(2) d
    by (auto simp: lex_hex_def moves_def intro!: token_specI payload_ok_int)
qed

lemma moves_dec_digits:
  assumes "isdigit (peek l)" "lex_dec_digits l v = (l', v')"
  shows "moves l l'"
proof -
  have nz: "peek l \<noteq> NUL" using assms(1) by auto
  obtain w where "lex_dec_digits (advance l) w = (l', v')"
    using assms by (subst (asm) lex_dec_digits.simps) auto
  then show ?thesis
    using moves_then_reaches [OF moves_advance [OF nz] reaches_dec_digits] by blast
qed

lemma lex_number_spec:
  assumes "isdigit (peek l)" "lex_number l = (t, l')"
  shows "token_spec l t l'"
proof (cases "peek l = CHR ''0'' \<and> (peek_next l = CHR ''x'' \<or> peek_next l = CHR ''X'')")
  case True
  then have "peek_next l \<noteq> NUL" by auto
  then show ?thesis using assms(2) True lex_hex_spec by (auto simp: lex_number_def)
next
  case nohex: False
  obtain l1 v where d: "lex_dec_digits l 0 = (l1, v)" by fastforce
  obtain f l2 where fr: "lex_fraction l1 = (f, l2)" by fastforce
  obtain e l3 where ex: "lex_exponent l2 = (e, l3)" by fastforce
  have m: "moves l l3"
    using moves_dec_digits [OF assms(1) d] reaches_fraction [OF fr] reaches_exponent [OF ex]
    by (blast intro: moves_then_reaches)
  then have n: "pos l + (pos l3 - pos l) = pos l3" by (simp add: moves_def)
  show ?thesis
  proof (cases "f \<or> e")
    case True
    then have t: "t = mk_token l TOK_FLOAT (pos l) (pos l3 - pos l)
        (FloatVal (substr (src l) (pos l) (if pos l3 - pos l < 63 then pos l3 - pos l else 63)))" "l' = l3"
      using assms(2) nohex d fr ex by (auto simp: lex_number_def Let_def)
    show ?thesis
      unfolding t by (rule token_specI [OF m order.refl n]) (simp_all add: payload_ok_def mk_token_def)
  next
    case False
    then have t: "t = mk_token l TOK_INT (pos l) (pos l3 - pos l) (IntVal v)" "l' = l3"
      using assms(2) nohex d fr ex by (auto simp: lex_number_def Let_def)
    show ?thesis
      unfolding t by (rule token_specI [OF m order.refl n]) (simp_all add: payload_ok_def mk_token_def)
  qed
qed

lemma lex_string_body_spec:
  assumes "lex_string_body sl sc l buf = Inr (buf', l')"
  shows "moves l l' \<and> length buf' + pos l < length buf + pos l'"
  using assms
proof (induction sl sc l buf arbitrary: buf' l' rule: lex_string_body.induct)
  case (1 sl sc l buf)
  have push: "length (buf_push buf c) \<le> Suc (length buf)" for c by (simp add: buf_push_def)
  consider (esc) ch l1 where "peek l = CHR 0x5C" "lex_escape (advance l) = Inr (ch, l1)"
      "lex_string_body sl sc l1 (buf_push buf ch) = Inr (buf', l')"
    | (plain) "peek l \<noteq> NUL" "peek l \<noteq> CHR 0x22" "peek l \<noteq> newline" "peek l \<noteq> CHR 0x5C"
      "lex_string_body sl sc (advance l) (buf_push buf (peek l)) = Inr (buf', l')"
    | (stop) "peek l = CHR 0x22" "buf' = buf" "l' = advance l"
    using "1.prems"
    by (subst (asm) lex_string_body.simps) (auto simp: at_end_peek split: if_splits sum.splits)
  then show ?case
  proof cases
    case esc
    have "moves l l1"
      using moves_then_reaches [OF moves_advance, of l l1] moves_escape [OF esc(2)] esc(1)
      by (simp add: moves_def)
    moreover have "moves l1 l' \<and> length buf' + pos l1 < length (buf_push buf ch) + pos l'"
      using esc by (intro "1.IH"(1)) (auto simp: at_end_peek)
    ultimately show ?thesis using push [of ch] lex_escape_pos [OF esc(2)]
      by (auto simp: moves_def intro: reaches_trans)
  next
    case plain
    have "moves (advance l) l' \<and> length buf' + pos (advance l) < length (buf_push buf (peek l)) + pos l'"
      using plain by (intro "1.IH"(2)) (auto simp: at_end_peek)
    then show ?thesis using push [of "peek l"] moves_advance [OF plain(1)]
      by (auto simp: moves_def intro: reaches_trans)
  next
    case stop
    then show ?thesis using moves_advance [of l] by simp
  qed
qed

lemma lex_string_spec:
  assumes "peek l = CHR 0x22" "lex_string l = Inr (t, l')"
  shows "token_spec l t l'"
proof -
  obtain buf where b: "lex_string_body (line l) (col l) (advance l) [] = Inr (buf, l')"
    and t: "t = mk_token l TOK_STRING (pos l' - length buf - 2) (pos l' - (pos l' - length buf - 2))
              (StrVal buf)"
    using assms(2) by (auto simp: lex_string_def Let_def split: sum.splits)
  have "moves l (advance l)" using assms(1) by (intro moves_advance) simp
  moreover have b': "moves (advance l) l'" "length buf + pos (advance l) < pos l'"
    using lex_string_body_spec [OF b] by auto
  ultimately have "moves l l'" by (auto simp: moves_def intro: reaches_trans)
  then show ?thesis using b'(2) unfolding t
    by (intro token_specI) (auto simp: payload_ok_def mk_token_def)
qed

lemma lex_char_spec:
  assumes "peek l = CHR 0x27" "lex_char l = Inr (t, l')"
  shows "token_spec l t l'"
proof -
  obtain ch l2 where nend: "\<not> is_at_end (advance l)"
    and e: "(if peek (advance l) = CHR 0x5C then lex_escape (advance (advance l))
             else Inr (peek (advance l), advance (advance l))) = Inr (ch, l2)"
    and q: "peek l2 = CHR 0x27" and l': "l' = advance l2"
    and t: "t = mk_token l TOK_CHAR (pos l' - 3) 3 (IntVal (of_nat (of_char ch)))"
    using assms(2) by (auto simp: lex_char_def Let_def split: if_splits sum.splits)
  have "moves l (advance l)" using assms(1) by (intro moves_advance) simp
  moreover have "moves (advance l) (advance (advance l))"
    using nend by (intro moves_advance) (simp add: at_end_peek)
  moreover have "reaches (advance (advance l)) l2"
    using e moves_escape [of "advance (advance l)"]
    by (auto simp: moves_def intro: reaches.stay split: if_splits)
  moreover have "moves l2 l'" using q unfolding l' by (intro moves_advance) simp
  ultimately have "moves l l'" "pos l + 3 \<le> pos l'"
    by (auto simp: moves_def intro: reaches_trans dest: reaches_pos)
  moreover have "unat (of_nat (of_char ch) :: 64 word) < 256"
    using nat_of_char_less_256 [of ch]
    by (simp add: unat_of_nat less_imp_le [OF less_le_trans] le_less_trans [OF mod_less_eq_dividend])
  ultimately show ?thesis unfolding t
    by (intro token_specI) (auto simp: payload_ok_def mk_token_def)
qed

lemma lex_token_spec:
  assumes "lex_token l = Inr (t, l')"
  shows "token_spec l t l'"
proof (cases "map_of TWO_CHAR (peek l, peek_next l)")
  case (Some k)
  then show ?thesis
    using assms TWO_CHAR_SomeD [OF Some] by (auto simp: lex_token_def intro: lex_two_spec)
next
  case None
  consider "isalpha (peek l) \<or> peek l = CHR ''_''" "lex_ident l = (t, l')"
    | "isdigit (peek l)" "lex_number l = (t, l')"
    | "peek l = CHR 0x22" "lex_string l = Inr (t, l')"
    | "peek l = CHR 0x27" "lex_char l = Inr (t, l')"
    | "lex_symbol l = Inr (t, l')"
    using assms None unfolding lex_token_def by (simp split: if_splits)
  then show ?thesis
    by cases (auto simp: ident_char_def isalnum_def intro: lex_ident_spec lex_number_spec
        lex_string_spec lex_char_spec lex_symbol_spec)
qed

subsection \<open>The main loop\<close>

function lex_loop :: "lexer \<Rightarrow> token_list \<Rightarrow> lex_error + lexer \<times> token_list" where
  "lex_loop l0 ts =
     (let l = skip_whitespace_and_comments l0 in
      if is_at_end l then Inr (l, ts)
      else case lex_token l of
             Inl e \<Rightarrow> Inl e
           | Inr (t, l1) \<Rightarrow> lex_loop l1 (list_push ts t))"
  by pat_completeness auto
termination
proof (relation "measure (\<lambda>(l, ts). left l)")
  fix l0 l :: lexer and ts :: token_list and r t l1
  assume h: "l = skip_whitespace_and_comments l0" "\<not> is_at_end l" "lex_token l = Inr r" "(t, l1) = r"
  have "reaches l0 l" using reaches_skip h(1) by simp
  moreover have "moves l l1" using lex_token_spec [of l t l1] h by (simp add: token_spec_def)
  ultimately show "((l1, list_push ts t), (l0, ts)) \<in> measure (\<lambda>(l, ts). left l)"
    using not_at_end_pos [OF h(2)] reaches_pos [of l0 l] reaches_src [of l0 l] reaches_src [of l l1]
    by (auto simp: left_def moves_def)
qed simp

declare lex_loop.simps [simp del]

definition lexer_init :: "string \<Rightarrow> lexer" where
  "lexer_init source = \<lparr>src = source, pos = 0, line = 1, col = 1\<rparr>"

definition eof_token :: "lexer \<Rightarrow> token" where
  "eof_token l = mk_token l TOK_EOF (pos l) 0 (IntVal 0)"

definition lexer_tokenize :: "string \<Rightarrow> lex_error + token_list" where
  "lexer_tokenize source =
     (case lex_loop (lexer_init source) empty_list of
        Inl e \<Rightarrow> Inl e
      | Inr (l, ts) \<Rightarrow> Inr (list_push ts (eof_token l)))"

end
