(* ===== verification/Lexer_Props.thy ===== *)
theory Lexer_Props
  imports Lexer
begin

text \<open>
  What the scanner guarantees: the recorded lines and columns are those of the source, the tokens
  are consecutive slices of it that end with one end-of-file token, the two tables of keywords
  and names agree, and scanning inverts printing for words, symbols, numbers and escaped strings.
\<close>

subsection \<open>Lines and columns\<close>

definition line_of :: "string \<Rightarrow> nat \<Rightarrow> nat" where
  "line_of s p = Suc (count_list (take p s) newline)"

definition col_of :: "string \<Rightarrow> nat \<Rightarrow> nat" where
  "col_of s p = Suc (length (takeWhile (\<lambda>c. c \<noteq> newline) (rev (take p s))))"

definition lex_inv :: "lexer \<Rightarrow> bool" where
  "lex_inv l \<longleftrightarrow> pos l \<le> length (src l) \<and> line l = line_of (src l) (pos l)
     \<and> col l = col_of (src l) (pos l)"

lemma lex_inv_init: "lex_inv (lexer_init s)"
  by (simp add: lex_inv_def lexer_init_def line_of_def col_of_def)

lemma lex_inv_advance:
  assumes "lex_inv l" "pos l < length (src l)"
  shows "lex_inv (advance l)"
proof -
  have "take (Suc (pos l)) (src l) = take (pos l) (src l) @ [peek l]"
    using assms(2) by (simp add: take_Suc_conv_app_nth peek_def c_at_def)
  then show ?thesis
    using assms by (auto simp: lex_inv_def advance_def line_of_def col_of_def)
qed

lemma lex_inv_reaches: "reaches l l' \<Longrightarrow> lex_inv l \<Longrightarrow> lex_inv l'"
  by (induction rule: reaches.induct) (auto dest: lex_inv_advance)

subsection \<open>The tokens of a source\<close>

definition good_token :: "string \<Rightarrow> token \<Rightarrow> bool" where
  "good_token s t \<longleftrightarrow>
     tstart t + tlen t \<le> length s \<and> lexeme t = substr s (tstart t) (tlen t) \<and> payload_ok t
     \<and> tkind t \<notin> {TOK_EOF, TOK_COUNT}
     \<and> (tkind t \<notin> {TOK_STRING, TOK_CHAR} \<longrightarrow>
          tline t = line_of s (tstart t) \<and> tcol t = col_of s (tstart t))"

definition tokens_upto :: "string \<Rightarrow> token list \<Rightarrow> nat \<Rightarrow> bool" where
  "tokens_upto s ts n \<longleftrightarrow>
     (\<forall>t \<in> set ts. good_token s t \<and> tstart t + tlen t \<le> n)
     \<and> sorted_wrt (\<lambda>a b. tstart a + tlen a \<le> tstart b) ts"

definition capacity_ok :: "token_list \<Rightarrow> bool" where
  "capacity_ok ts \<longleftrightarrow> length (tokens ts) \<le> capacity ts"

lemma list_push_tokens [simp]: "tokens (list_push ts t) = tokens ts @ [t]"
  by (simp add: list_push_def Let_def)

lemma list_push_capacity: "capacity_ok ts \<Longrightarrow> capacity_ok (list_push ts t)"
  by (auto simp: list_push_def capacity_ok_def Let_def)

lemma lex_token_good:
  assumes "lex_inv l" "lex_token l = Inr (t, l')"
  shows "lex_inv l'" "src l' = src l" "good_token (src l) t" "pos l \<le> tstart t"
    "tstart t + tlen t = pos l'"
proof -
  note sp = lex_token_spec [OF assms(2)]
  have r: "reaches l l'" using sp by (simp add: token_spec_def moves_def)
  show inv': "lex_inv l'" using lex_inv_reaches [OF r assms(1)] .
  show s: "src l' = src l" by (rule reaches_src [OF r])
  show "pos l \<le> tstart t" "tstart t + tlen t = pos l'" using sp by (simp_all add: token_spec_def)
  show "good_token (src l) t"
    using sp inv' s assms(1) by (auto simp: token_spec_def good_token_def lex_inv_def)
qed

lemma tokens_upto_push:
  assumes "tokens_upto s ts n" "good_token s t" "n \<le> tstart t"
  shows "tokens_upto s (ts @ [t]) (tstart t + tlen t)"
  using assms by (fastforce simp: tokens_upto_def sorted_wrt_append)

lemma tokens_upto_mono: "tokens_upto s ts m \<Longrightarrow> m \<le> n \<Longrightarrow> tokens_upto s ts n"
  by (fastforce simp: tokens_upto_def)

lemma lex_loop_spec:
  assumes "lex_loop l ts = Inr (l', ts')" "lex_inv l" "tokens_upto (src l) (tokens ts) (pos l)"
    "capacity_ok ts"
  shows "lex_inv l' \<and> src l' = src l \<and> is_at_end l' \<and> capacity_ok ts'
    \<and> tokens_upto (src l) (tokens ts') (pos l')"
  using assms
proof (induction l ts rule: lex_loop.induct)
  case (1 l0 ts)
  define l where "l = skip_whitespace_and_comments l0"
  have r: "reaches l0 l" unfolding l_def by (rule reaches_skip)
  have inv: "lex_inv l" and s: "src l = src l0"
    using lex_inv_reaches [OF r "1.prems"(2)] reaches_src [OF r] by auto
  have up: "tokens_upto (src l) (tokens ts) (pos l)"
    using tokens_upto_mono [OF "1.prems"(3) reaches_pos [OF r]] s by simp
  show ?case
  proof (cases "is_at_end l")
    case True
    then have "l' = l" "ts' = ts"
      using "1.prems"(1) by (subst (asm) lex_loop.simps, simp add: l_def Let_def)+
    then show ?thesis using True inv s up "1.prems"(4) by simp
  next
    case False
    obtain t l1 where t: "lex_token l = Inr (t, l1)"
      and rec: "lex_loop l1 (list_push ts t) = Inr (l', ts')"
      using "1.prems"(1) False
      by (subst (asm) lex_loop.simps) (auto simp: l_def Let_def split: sum.splits)
    note g = lex_token_good [OF inv t]
    have "tokens_upto (src l1) (tokens (list_push ts t)) (pos l1)"
      using tokens_upto_push [OF up g(3,4)] g(2,5) by simp
    then show ?thesis
      using "1.IH" [OF l_def False t refl rec g(1)] list_push_capacity [OF "1.prems"(4)] g(2) s
      by simp
  qed
qed

text \<open>What the parser relies on: the last token is the only end-of-file token.\<close>

definition eof_terminated :: "token list \<Rightarrow> bool" where
  "eof_terminated ts \<longleftrightarrow>
     ts \<noteq> [] \<and> tkind (last ts) = TOK_EOF \<and> (\<forall>t \<in> set (butlast ts). tkind t \<noteq> TOK_EOF)"

lemma lexer_tokenize_spec:
  assumes "lexer_tokenize s = Inr tl0"
  obtains ts e where "tokens tl0 = ts @ [e]" "tkind e = TOK_EOF" "tokens_upto s ts (tstart e)"
    "tstart e \<le> length s" "c_at s (tstart e) = NUL" "capacity_ok tl0"
    "tline e = line_of s (tstart e)" "tcol e = col_of s (tstart e)" "lexeme e = []"
proof -
  obtain l ts where h: "lex_loop (lexer_init s) empty_list = Inr (l, ts)"
    and tl: "tl0 = list_push ts (eof_token l)"
    using assms by (auto simp: lexer_tokenize_def split: sum.splits)
  have "lex_inv l \<and> src l = s \<and> is_at_end l \<and> capacity_ok ts \<and> tokens_upto s (tokens ts) (pos l)"
    using lex_loop_spec [OF h lex_inv_init]
    by (simp add: empty_list_def capacity_ok_def tokens_upto_def lexer_init_def)
  then show thesis
    using tl by (intro that [of "tokens ts" "eof_token l"])
      (auto simp: eof_token_def mk_token_def lex_inv_def is_at_end_def substr_def
        intro: list_push_capacity)
qed

subsection \<open>Scanning what was printed\<close>

text \<open>\<open>at l s\<close>: the characters that remain are \<open>s\<close>.\<close>

definition at :: "lexer \<Rightarrow> string \<Rightarrow> bool" where
  "at l s \<longleftrightarrow> drop (pos l) (src l) = s"

lemma at_Cons:
  assumes "at l (c # s)"
  shows "peek l = c" "at (advance l) s" "pos l < length (src l)"
proof -
  have "drop (pos l) (src l) = c # s" using assms by (simp add: at_def)
  note d = drop_eq_ConsD [OF this]
  then show "peek l = c" "at (advance l) s" "pos l < length (src l)"
    by (simp_all add: at_def peek_def c_at_def)
qed

lemma at_Nil: "at l [] \<Longrightarrow> peek l = NUL"
  by (simp add: at_def peek_def c_at_def)

lemma at_peek_next: "at l (c # s) \<Longrightarrow> c \<noteq> NUL \<Longrightarrow> peek_next l = (case s of [] \<Rightarrow> NUL | d # _ \<Rightarrow> d)"
  using at_Cons(1) [of l c s] at_Cons(2) [of l c s]
  by (auto simp: peek_next_def peek_def at_def c_at_drop split: list.splits)

lemma at_substr: "at l (w @ r) \<Longrightarrow> substr (src l) (pos l) (length w) = w"
  by (simp add: at_def substr_def)

lemma advance_while_at:
  assumes "at l (w @ r)" "\<forall>c \<in> set w. p c \<and> c \<noteq> NUL" "r \<noteq> [] \<longrightarrow> \<not> p (hd r)"
  shows "at (advance_while p l) r \<and> pos (advance_while p l) = pos l + length w"
  using assms
proof (induction w arbitrary: l)
  case Nil
  have "is_at_end l \<or> \<not> p (peek l)"
    using Nil at_Nil [of l] at_Cons(1) [of l "hd r" "tl r"]
    by (cases r) (auto simp: at_end_peek)
  then show ?case using Nil by (subst (1 2) advance_while.simps) auto
next
  case (Cons c w)
  have "peek l = c" "at (advance l) (w @ r)" using at_Cons [of l c "w @ r"] Cons.prems(1) by simp_all
  then show ?case
    using Cons.IH [of "advance l"] Cons.prems
    by (subst (1 2) advance_while.simps) (simp add: at_end_peek)
qed

lemma lex_dec_digits_at:
  assumes "at l (w @ r)" "\<forall>c \<in> set w. isdigit c" "r \<noteq> [] \<longrightarrow> \<not> isdigit (hd r) \<and> hd r \<noteq> CHR ''_''"
  shows "\<exists>l'. lex_dec_digits l v =
      (l', foldl (\<lambda>v c. v * 10 + word_of_nat (of_char c - 48)) v w)
    \<and> at l' r \<and> pos l' = pos l + length w \<and> src l' = src l"
  using assms
proof (induction w arbitrary: l v)
  case Nil
  have "\<not> isdigit (peek l) \<and> peek l \<noteq> CHR ''_''"
    using Nil at_Nil [of l] at_Cons(1) [of l "hd r" "tl r"] by (cases r) auto
  then show ?case using Nil by (subst lex_dec_digits.simps) auto
next
  case (Cons c w)
  have p: "peek l = c" "at (advance l) (w @ r)" using at_Cons [of l c "w @ r"] Cons.prems(1) by simp_all
  have d: "isdigit c" using Cons.prems(2) by simp
  then have n: "c \<noteq> CHR ''_''" "48 \<le> (of_char c :: nat)" by (auto simp: ctype_defs)
  have "(of_char c :: int) - 48 = int (of_char c - 48)" 
    using n(2) by (metis of_nat_diff of_nat_numeral of_nat_of_char)
  then have "lex_dec_digits l v = lex_dec_digits (advance l) (v * 10 + word_of_nat (of_char c - 48))"
    using d n(1) p(1) by (subst lex_dec_digits.simps) simp
  then show ?case using Cons.IH [OF p(2)] Cons.prems by auto
qed

lemma foldl_digits_word:
  "foldl (\<lambda>v c. v * 10 + word_of_nat (of_char c - 48)) (word_of_nat k) w =
   (word_of_nat (foldl (\<lambda>v c. v * 10 + (of_char c - 48)) k w) :: 64 word)"
proof (induction w arbitrary: k)
  case (Cons c w)
  have "word_of_nat k * 10 + word_of_nat (of_char c - 48)
      = (word_of_nat (k * 10 + (of_char c - 48)) :: 64 word)"
    by simp
  then show ?case using Cons by (simp del: of_nat_add of_nat_mult)
qed simp


text \<open>A printed source: words, symbols, numbers and string literals, a blank after each.\<close>

datatype item = Word string | Sym token_kind | Num nat | Str string

definition SYMBOLS :: "token_kind list" where
  "SYMBOLS = TOK_DOTDOT # map snd TWO_CHAR @ map snd ONE_CHAR"

definition escape_char :: "char \<Rightarrow> string" where
  "escape_char c =
     (if c = CHR 0x0A then [CHR 0x5C, CHR ''n'']
      else if c = CHR 0x0D then [CHR 0x5C, CHR ''r'']
      else if c = CHR 0x09 then [CHR 0x5C, CHR ''t'']
      else if c = NUL then [CHR 0x5C, CHR ''0'']
      else if c \<in> {CHR 0x5C, CHR 0x22, CHR 0x27} then [CHR 0x5C, c]
      else [c])"

definition quoted :: "string \<Rightarrow> string" where
  "quoted s = CHR 0x22 # concat (map escape_char s) @ [CHR 0x22]"

fun item_text :: "item \<Rightarrow> string" where
  "item_text (Word w) = w"
| "item_text (Sym k) = token_kind_name k"
| "item_text (Num n) = show_nat n"
| "item_text (Str s) = quoted s"

fun item_ok :: "item \<Rightarrow> bool" where
  "item_ok (Word w) \<longleftrightarrow> w \<noteq> [] \<and> (isalpha (hd w) \<or> hd w = CHR ''_'') \<and> list_all ident_char w"
| "item_ok (Sym k) \<longleftrightarrow> k \<in> set SYMBOLS"
| "item_ok (Num n) \<longleftrightarrow> True"
| "item_ok (Str s) \<longleftrightarrow> True"

definition print_items :: "item list \<Rightarrow> string" where
  "print_items is = concat (map (\<lambda>i. item_text i @ [CHR 0x20]) is)"

text \<open>The token an item must give: kind, value and (but for strings) the very text.\<close>

fun item_matches :: "item \<Rightarrow> token \<Rightarrow> bool" where
  "item_matches (Word w) t \<longleftrightarrow> tkind t = ident_or_keyword w \<and> lexeme t = w
     \<and> tval t = IntVal (if ident_or_keyword w = TOK_TRUE then 1 else 0)"
| "item_matches (Sym k) t \<longleftrightarrow> tkind t = k \<and> lexeme t = token_kind_name k \<and> tval t = IntVal 0"
| "item_matches (Num n) t \<longleftrightarrow> tkind t = TOK_INT \<and> lexeme t = show_nat n
     \<and> tval t = IntVal (word_of_nat n)"
| "item_matches (Str s) t \<longleftrightarrow> tkind t = TOK_STRING \<and> tval t = StrVal (take 4095 s)"

text \<open>What one call of the scanner does on the text of an item.\<close>

definition scans :: "lexer \<Rightarrow> item \<Rightarrow> string \<Rightarrow> bool" where
  "scans l i r \<longleftrightarrow> (\<exists>t l'. lex_token l = Inr (t, l') \<and> item_matches i t \<and> at l' r)"

lemma ident_char_props: "ident_char c \<Longrightarrow> c \<noteq> NUL \<and> \<not> isspace c \<and> c \<noteq> CHR ''/''"
  by (auto simp: ident_char_def ctype_defs)

lemma at_mk_token: "at l (w @ r) \<Longrightarrow> lexeme (mk_token l k (pos l) (length w) v) = w"
  by (simp add: mk_token_def at_substr)

lemma mk_token_sel [simp]:
  "tkind (mk_token l k s n v) = k" "tval (mk_token l k s n v) = v"
  "tstart (mk_token l k s n v) = s" "tlen (mk_token l k s n v) = n"
  by (simp_all add: mk_token_def)

lemma TWO_CHAR_start: "isalnum c \<or> c = CHR ''_'' \<or> c = CHR 0x22 \<Longrightarrow> map_of TWO_CHAR (c, d) = None"
proof (cases "map_of TWO_CHAR (c, d)")
  case (Some k)
  have "list_all (\<lambda>e. \<not> isalnum (fst (fst e)) \<and> fst (fst e) \<notin> {CHR ''_'', CHR 0x22}) TWO_CHAR"
    by code_simp
  moreover assume "isalnum c \<or> c = CHR ''_'' \<or> c = CHR 0x22"
  ultimately show ?thesis using map_of_SomeD [OF Some] by (auto simp: list_all_iff)
qed

lemma scans_word:
  assumes "item_ok (Word w)" "at l (w @ CHR 0x20 # r)"
  shows "scans l (Word w) (CHR 0x20 # r)"
proof -
  obtain c w' where w: "w = c # w'" "isalpha c \<or> c = CHR ''_''"
    using assms(1) by (cases w) auto
  have pk: "peek l = c" using at_Cons(1) [of l c] assms(2) w(1) by simp
  have "at (advance_while ident_char l) (CHR 0x20 # r)
      \<and> pos (advance_while ident_char l) = pos l + length w"
    using assms(1) ident_char_props
    by (intro advance_while_at [OF assms(2)]) (auto simp: list_all_iff ident_char_def ctype_defs)
  moreover have "lex_token l = Inr (lex_ident l)"
    using w(2) TWO_CHAR_start [of c "peek_next l"] by (auto simp: lex_token_def pk isalnum_def)
  ultimately show ?thesis
    by (simp add: scans_def lex_ident_def Let_def at_substr [OF assms(2)] at_mk_token [OF assms(2)])
qed

lemma isdigit_neq: "isdigit c \<Longrightarrow> c \<noteq> NUL \<and> c \<noteq> CHR ''/'' \<and> c \<noteq> CHR ''_'' \<and> \<not> isspace c \<and> \<not> isalpha c"
  by (auto simp: ctype_defs)

lemma scans_num:
  assumes "at l (show_nat n @ CHR 0x20 # r)"
  shows "scans l (Num n) (CHR 0x20 # r)"
proof -
  obtain c w where w: "show_nat n = c # w" by (cases "show_nat n") simp_all
  have ds: "\<forall>d \<in> set (show_nat n). isdigit d" using show_nat_digits by blast
  have c: "peek l = c" "isdigit c" using at_Cons(1) [of l c] assms w ds by simp_all
  have d: "peek_next l \<noteq> CHR ''x'' \<and> peek_next l \<noteq> CHR ''X''"
    using at_peek_next [of l c "w @ CHR 0x20 # r"] assms w ds isdigit_neq [OF c(2)]
    by (cases w) (auto simp: ctype_defs)
  obtain l' where l': "lex_dec_digits l 0 =
      (l', foldl (\<lambda>v c. v * 10 + word_of_nat (of_char c - 48)) 0 (show_nat n))"
      "at l' (CHR 0x20 # r)" "pos l' = pos l + length (show_nat n)" "src l' = src l"
    using lex_dec_digits_at [OF assms ds] by (auto simp: ctype_defs)
  have p: "peek l' = CHR 0x20" using at_Cons(1) [OF l'(2)] .
  have v: "foldl (\<lambda>v c. v * 10 + word_of_nat (of_char c - 48)) 0 (show_nat n)
      = (word_of_nat n :: 64 word)"
    using foldl_digits_word [of 0 "show_nat n"] by (simp add: foldl_show_nat)
  have "lex_number l = (mk_token l TOK_INT (pos l) (length (show_nat n)) (IntVal (word_of_nat n)), l')"
    using l' p d v by (simp add: lex_number_def lex_fraction_def lex_exponent_def)
  moreover have "\<not> isalpha c \<and> c \<noteq> CHR ''_''" using c(2) by (auto simp: ctype_defs)
  ultimately show ?thesis
    using c TWO_CHAR_start [of c] l'(2) assms
    by (auto simp: scans_def lex_token_def isalnum_def at_mk_token split: option.splits)
qed

text \<open>The two tables: the scanner's symbols and the names that are printed for them.\<close>

definition symbol_entry :: "token_kind \<Rightarrow> bool" where
  "symbol_entry k \<longleftrightarrow>
     (case token_kind_name k of
        [c] \<Rightarrow> map_of ONE_CHAR c = Some k \<and> map_of TWO_CHAR (c, CHR 0x20) = None
          \<and> \<not> isalpha c \<and> \<not> isdigit c \<and> c \<notin> {CHR ''_'', CHR 0x22, CHR 0x27, NUL, newline}
          \<and> \<not> isspace c
      | [c, d] \<Rightarrow> (map_of TWO_CHAR (c, d) = Some k \<or> map_of TWO_CHAR (c, d) = None \<and> k = TOK_DOTDOT
            \<and> c = CHR ''.'' \<and> d = CHR ''.'') \<and> c \<noteq> NUL \<and> \<not> isspace c \<and> \<not> (c = CHR ''/'' \<and> d = CHR ''*'')
            \<and> \<not> (c = CHR ''/'' \<and> d = CHR ''/'')
      | _ \<Rightarrow> False)"

lemma symbol_entries: "list_all symbol_entry SYMBOLS"
  by code_simp

lemma scans_sym:
  assumes "item_ok (Sym k)" "at l (token_kind_name k @ CHR 0x20 # r)"
  shows "scans l (Sym k) (CHR 0x20 # r)"
proof -
  have e: "symbol_entry k" using assms(1) symbol_entries by (simp add: list_all_iff)
  then consider c where "token_kind_name k = [c]" | c d where "token_kind_name k = [c, d]"
    by (auto simp: symbol_entry_def split: list.splits)
  then show ?thesis
  proof cases
    case 1
    have p: "peek l = c" "at (advance l) (CHR 0x20 # r)" "peek_next l = CHR 0x20"
      using at_Cons [of l c] at_peek_next [of l c] assms(2) 1 e by (auto simp: symbol_entry_def)
    then show ?thesis
      using e 1 assms(2) at_mk_token [of l "[c]"]
      by (auto simp: scans_def lex_token_def lex_symbol_def symbol_entry_def Let_def)
  next
    case 2
    have p: "peek l = c" "at (advance l) (d # CHR 0x20 # r)" "peek_next l = d"
      using at_Cons [of l c] at_peek_next [of l c] assms(2) 2 e by (auto simp: symbol_entry_def)
    have q: "at (advance (advance l)) (CHR 0x20 # r)" using at_Cons(2) [OF p(2)] .
    have x: "lexeme (mk_token l j (pos l) 2 v) = [c, d]" for j v
      using at_mk_token [of l "[c, d]"] assms(2) 2 by (simp add: numeral_2_eq_2)
    have "lex_token l = Inr (lex_two l k)"
      using e 2 p
      by (auto simp: symbol_entry_def lex_token_def lex_symbol_def isalpha_def in_range_def isdigit_def)
    then show ?thesis
      using p q x 2
      by (auto simp: scans_def lex_two_def Let_def mk_token_def)
  qed
qed

lemma buf_push_take: "buf_push (take 4095 u) c = take 4095 (u @ [c])"
  by (cases "length u < 4095") (auto simp: buf_push_def)

lemma escape_char_cases:
  "escape_char c = [c]
    \<or> (\<exists>d. escape_char c = [CHR 0x5C, d] \<and> (\<forall>m. peek m = d \<longrightarrow> lex_escape m = Inr (c, advance m)))"
  by (simp add: escape_char_def lex_escape_def Let_def)

lemma lex_string_body_at:
  assumes "at l (concat (map escape_char w) @ CHR 0x22 # r)"
  shows "\<exists>l'. lex_string_body sl sc l (take 4095 u) = Inr (take 4095 (u @ w), l') \<and> at l' r"
  using assms
proof (induction w arbitrary: l u)
  case Nil
  then have "peek l = CHR 0x22" "at (advance l) r" using at_Cons [of l "CHR 0x22" r] by simp_all
  then show ?case by (subst lex_string_body.simps) (auto simp: at_end_peek)
next
  case (Cons c w)
  let ?r = "concat (map escape_char w) @ CHR 0x22 # r"
  note IH = Cons.IH [of _ "u @ [c]", simplified]
  show ?case
  proof (cases "escape_char c = [c]")
    case True
    then have c: "c \<noteq> newline \<and> c \<noteq> CHR 0x5C \<and> c \<noteq> CHR 0x22 \<and> c \<noteq> NUL"
      by (auto simp: escape_char_def split: if_splits)
    have "peek l = c" "at (advance l) ?r" using at_Cons [of l c ?r] Cons.prems True by simp_all
    then show ?thesis using IH c
      by (subst lex_string_body.simps) (auto simp: at_end_peek buf_push_take)
  next
    case False
    then obtain d where d: "escape_char c = [CHR 0x5C, d]"
      and e: "\<And>m. peek m = d \<Longrightarrow> lex_escape m = Inr (c, advance m)"
      using escape_char_cases [of c] by blast
    have p: "peek l = CHR 0x5C" "at (advance l) (d # ?r)"
      using at_Cons [of l "CHR 0x5C" "d # ?r"] Cons.prems d by simp_all
    have q: "peek (advance l) = d" "at (advance (advance l)) ?r" using at_Cons [OF p(2)] by simp_all
    then show ?thesis using IH [OF q(2)] p(1) e [OF q(1)]
      by (subst lex_string_body.simps) (auto simp: at_end_peek buf_push_take)
  qed
qed

lemma scans_str:
  assumes "at l (quoted s @ CHR 0x20 # r)"
  shows "scans l (Str s) (CHR 0x20 # r)"
proof -
  have p: "peek l = CHR 0x22" "at (advance l) (concat (map escape_char s) @ CHR 0x22 # CHR 0x20 # r)"
    using at_Cons [of l "CHR 0x22"] assms by (simp_all add: quoted_def)
  obtain l' where "lex_string_body (line l) (col l) (advance l) [] = Inr (take 4095 s, l')"
    "at l' (CHR 0x20 # r)"
    using lex_string_body_at [OF p(2), of "line l" "col l" "[]"] by auto
  then show ?thesis
    using p(1) TWO_CHAR_start [of "CHR 0x22"]
    by (auto simp: scans_def lex_token_def lex_string_def ctype_defs Let_def split: option.splits)
qed

lemma scans_item: "item_ok i \<Longrightarrow> at l (item_text i @ CHR 0x20 # r) \<Longrightarrow> scans l i (CHR 0x20 # r)"
  by (cases i) (simp_all add: scans_word scans_num scans_sym scans_str del: item_ok.simps)

text \<open>The blank after an item is skipped, and nothing of the next item is.\<close>

definition starts_token :: "string \<Rightarrow> bool" where
  "starts_token s \<longleftrightarrow>
     (case s of [] \<Rightarrow> True
      | c # s' \<Rightarrow> c \<noteq> NUL \<and> \<not> isspace c \<and> (c = CHR ''/'' \<longrightarrow> s' \<noteq> [] \<and> hd s' \<notin> {CHR ''/'', CHR ''*''}))"

lemma starts_token_item:
  assumes "item_ok i"
  shows "starts_token (item_text i @ CHR 0x20 # r)"
proof (cases i)
  case (Word w)
  then show ?thesis using assms ident_char_props
    by (cases w) (auto simp: starts_token_def)
next
  case (Sym k)
  then have "symbol_entry k" using assms symbol_entries by (simp add: list_all_iff)
  then show ?thesis using Sym
    by (auto simp: symbol_entry_def starts_token_def split: list.splits)
next
  case (Num n)
  have "isdigit (hd (show_nat n))" by (rule show_nat_digits [of _ n]) simp
  then show ?thesis using Num isdigit_neq [of "hd (show_nat n)"]
    by (cases "show_nat n") (auto simp: starts_token_def)
next
  case (Str s)
  then show ?thesis by (simp add: starts_token_def quoted_def ctype_defs)
qed

lemma skip_at:
  assumes "at l (w @ s)" "\<forall>c \<in> set w. isspace c" "starts_token s"
  shows "at (skip_whitespace_and_comments l) s"
proof -
  let ?l = "advance_while isspace l"
  have "\<forall>c \<in> set w. isspace c \<and> c \<noteq> NUL" "s \<noteq> [] \<longrightarrow> \<not> isspace (hd s)"
    using assms(2,3) by (auto simp: starts_token_def split: list.splits)
  then have a: "at ?l s" using advance_while_at [OF assms(1)] by blast
  have "\<not> (peek ?l = CHR ''/'' \<and> (peek_next ?l = CHR ''/'' \<or> peek_next ?l = CHR ''*''))"
    using a at_Nil [of ?l] at_Cons(1) [of ?l] at_peek_next [of ?l] assms(3)
    by (cases s) (auto simp: starts_token_def split: list.splits)
  then show ?thesis using a by (subst skip_whitespace_and_comments.simps) (auto simp: Let_def)
qed

lemma starts_token_print: "list_all item_ok is \<Longrightarrow> starts_token (print_items is)"
  by (cases "is") (auto simp: print_items_def starts_token_item, simp add: starts_token_def)

lemma lex_loop_print:
  assumes "list_all item_ok is" "at l (w @ print_items is)" "\<forall>c \<in> set w. isspace c"
  shows "\<exists>l' us. lex_loop l ts = Inr (l', us) \<and>
    (\<exists>new. tokens us = tokens ts @ new \<and> list_all2 item_matches is new)"
  using assms
proof (induction "is" arbitrary: l w ts)
  case Nil
  then have "at (skip_whitespace_and_comments l) []"
    using skip_at [of l w "[]"] by (simp add: print_items_def starts_token_def)
  then show ?case
    by (subst lex_loop.simps) (auto simp: at_end_peek at_Nil)
next
  case (Cons i "is")
  let ?l = "skip_whitespace_and_comments l" and ?r = "print_items is"
  have a: "at ?l (item_text i @ CHR 0x20 # ?r)"
    using skip_at [OF Cons.prems(2)] Cons.prems(1,3) starts_token_item [of i ?r]
    by (simp add: print_items_def)
  then obtain t l' where t: "lex_token ?l = Inr (t, l')" "item_matches i t" "at l' (CHR 0x20 # ?r)"
    using scans_item [of i ?l ?r] Cons.prems(1) by (auto simp: scans_def)
  have "\<not> is_at_end ?l"
    using a starts_token_item [of i ?r] Cons.prems(1) at_Cons(1) [of ?l]
    by (cases "item_text i @ CHR 0x20 # ?r") (auto simp: starts_token_def at_end_peek)
  moreover have "\<exists>m us. lex_loop l' (list_push ts t) = Inr (m, us) \<and>
      (\<exists>new. tokens us = tokens (list_push ts t) @ new \<and> list_all2 item_matches is new)"
    using Cons.IH [of l' "[CHR 0x20]" "list_push ts t"] Cons.prems(1) t(3)
    by (simp add: ctype_defs)
  ultimately show ?case using t(1,2)
    by (subst lex_loop.simps) (fastforce simp: Let_def)
qed

subsection \<open>Properties\<close>

lemma KINDS_length: "length KINDS = Suc (tok_ord TOK_COUNT)"
  by (simp add: KINDS_def)

lemma KINDS_all: "k \<in> set KINDS"
  using KINDS_nth_tok_ord [of k] tok_ord_bound [of k]
  by (metis (no_types) KINDS_length le_imp_less_Suc nth_mem)

lemma eof_terminatedI:
  assumes "tokens_upto s ts n" "tkind e = TOK_EOF"
  shows "eof_terminated (ts @ [e])"
  using assms by (auto simp: eof_terminated_def tokens_upto_def good_token_def)



text \<open>The keyword table and the table of names agree, and so do the tables of operators: every
  keyword, scanned by its printed name, is that keyword, and the name of every kind from
  \<^verbatim>\<open>package\<close> to the underscore is such a keyword.\<close>

theorem keyword_names_agree:
  "map snd KEYWORDS = filter (\<lambda>k. k < TOK_IDENT) KINDS
    \<and> list_all (\<lambda>k. ident_or_keyword (token_kind_name k) = k) (map snd KEYWORDS)
    \<and> list_all (\<lambda>e. token_kind_name (snd e) = [fst (fst e), snd (fst e)]) TWO_CHAR
    \<and> list_all (\<lambda>e. token_kind_name (snd e) = [fst e]) ONE_CHAR
    \<and> set SYMBOLS = {k. TOK_CHAR < k \<and> k < TOK_EOF}"
proof -
  have "{k. TOK_CHAR < k \<and> k < TOK_EOF} = set (filter (\<lambda>k. TOK_CHAR < k \<and> k < TOK_EOF) KINDS)"
    using KINDS_all by auto
  moreover have "set (filter (\<lambda>k. TOK_CHAR < k \<and> k < TOK_EOF) KINDS) = set SYMBOLS"
    by code_simp
  moreover have "map snd KEYWORDS = filter (\<lambda>k. k < TOK_IDENT) KINDS"
    "list_all (\<lambda>k. ident_or_keyword (token_kind_name k) = k) (map snd KEYWORDS)"
    "list_all (\<lambda>e. token_kind_name (snd e) = [fst (fst e), snd (fst e)]) TWO_CHAR"
    "list_all (\<lambda>e. token_kind_name (snd e) = [fst e]) ONE_CHAR"
    by code_simp+
  ultimately show ?thesis by simp
qed

text \<open>C32: Scanning inverts printing. For any sequence of identifiers and keywords, operators, decimal
  numbers and string literals, printed with a blank after each (the string quoted and escaped),
  the scanner succeeds and returns exactly their tokens, in order, with their values (the number
  modulo 2 to the 64, the first 4095 characters of the string) and texts, then end-of-file.\<close>

theorem lexer_inverts_printing:
  assumes "list_all item_ok is"
  shows "\<exists>tl0 ts e. lexer_tokenize (print_items is) = Inr tl0 \<and> tokens tl0 = ts @ [e]
    \<and> list_all2 item_matches is ts \<and> tkind e = TOK_EOF"
proof -
  have a: "at (lexer_init (print_items is)) ([] @ print_items is)"
    by (simp add: at_def lexer_init_def)
  obtain l us where "lex_loop (lexer_init (print_items is)) empty_list = Inr (l, us)"
    "list_all2 item_matches is (tokens us)"
    using lex_loop_print [OF assms a, of empty_list] by (auto simp: empty_list_def)
  then show ?thesis by (simp add: lexer_tokenize_def eof_token_def)
qed

theorem lexer_inverts_printing_witness:
  "\<exists>tl0 ts e. lexer_tokenize ''let x = 42 ; '' = Inr tl0 \<and> tokens tl0 = ts @ [e]
    \<and> list_all2 item_matches [Word ''let'', Word ''x'', Sym TOK_EQ, Num 42, Sym TOK_SEMICOLON] ts
    \<and> tkind e = TOK_EOF"
proof -
  let ?is = "[Word ''let'', Word ''x'', Sym TOK_EQ, Num 42, Sym TOK_SEMICOLON]"
  have "list_all item_ok ?is" by code_simp
  moreover have "print_items ?is = ''let x = 42 ; ''" by code_simp
  ultimately show ?thesis using lexer_inverts_printing [of ?is] by simp
qed

end
