(* ===== verification/Parser_Logic.thy ===== *)
theory Parser_Logic
  imports Parser_Base Lexer_Props
begin

text \<open>
  A program logic for the parser. \<open>hoare m a Q\<close> says that \<open>m\<close>, started in any state that the
  abstract state \<open>a\<close> describes, never lacks fuel, reads past the token array only after it has
  reported an error (on a list that ends with its end-of-file token), keeps the tokens and the
  diagnostics it found, and ends in a state that some \<open>a'\<close> with \<open>Q x a'\<close> describes.
  The abstract state bounds the tokens left (which is what makes fuel enough) and records what a
  test has told: that the current token is not the end, that an error was reported, that a token
  was consumed.
\<close>

record abst =
  bnd :: nat
  nonend :: bool
  erred :: bool
  begun :: bool

definition describes :: "abst \<Rightarrow> parser \<Rightarrow> bool" where
  "describes a p \<longleftrightarrow>
     length (toks p) \<le> ppos p + bnd a
     \<and> (nonend a \<longrightarrow> ppos p < length (toks p) \<and> tkind (toks p ! ppos p) \<noteq> TOK_EOF)
     \<and> (erred a \<longrightarrow> had_error p) \<and> (begun a \<longrightarrow> 0 < ppos p)
     \<and> (eof_terminated (toks p) \<longrightarrow> had_error p \<or> ppos p < length (toks p))
     \<and> (had_error p \<longleftrightarrow> errs p \<noteq> [])"

definition keeps_state :: "parser \<Rightarrow> parser \<Rightarrow> bool" where
  "keeps_state p q \<longleftrightarrow> toks q = toks p \<and> (\<exists>ds. errs q = errs p @ ds)"

definition hoare :: "'a parse \<Rightarrow> abst \<Rightarrow> ('a \<Rightarrow> abst \<Rightarrow> bool) \<Rightarrow> bool" where
  "hoare m a Q \<longleftrightarrow>
     (\<forall>p. describes a p \<longrightarrow>
        (case m p of
           Done x q \<Rightarrow> keeps_state p q \<and> (\<exists>a'. describes a' q \<and> Q x a')
         | Fault e q \<Rightarrow> e \<noteq> NoFuel
             \<and> (e = TokenOverrun \<and> eof_terminated (toks p) \<longrightarrow> had_error q)))"

text \<open>No token is given back, and \<open>lt\<close>: at least one is consumed.\<close>

definition le :: "abst \<Rightarrow> abst \<Rightarrow> bool" where
  "le a a' \<longleftrightarrow> bnd a' \<le> bnd a \<and> (begun a \<longrightarrow> begun a')"

definition lt :: "abst \<Rightarrow> abst \<Rightarrow> bool" where
  "lt a a' \<longleftrightarrow> bnd a' < bnd a \<and> begun a'"

lemma le_refl [simp]: "le a a" by (simp add: le_def)
lemma lt_le: "lt a a' \<Longrightarrow> le a a'" by (simp add: le_def lt_def)
lemma le_trans: "le a b \<Longrightarrow> le b c \<Longrightarrow> le a c" by (auto simp: le_def)
lemma lt_le_trans: "lt a b \<Longrightarrow> le b c \<Longrightarrow> lt a c" by (auto simp: le_def lt_def)
lemma le_lt_trans: "le a b \<Longrightarrow> lt b c \<Longrightarrow> lt a c" by (auto simp: le_def lt_def)

lemma hoareI:
  assumes "\<And>p. describes a p \<Longrightarrow>
    (case m p of
       Done x q \<Rightarrow> keeps_state p q \<and> (\<exists>a'. describes a' q \<and> Q x a')
     | Fault e q \<Rightarrow> e \<noteq> NoFuel \<and> (e = TokenOverrun \<and> eof_terminated (toks p) \<longrightarrow> had_error q))"
  shows "hoare m a Q"
  using assms by (simp add: hoare_def)

lemma keeps_state_refl [simp]: "keeps_state p p"
  by (simp add: keeps_state_def)

lemma keeps_state_trans: "keeps_state p q \<Longrightarrow> keeps_state q r \<Longrightarrow> keeps_state p r"
  by (auto simp: keeps_state_def)

lemma hoare_bind:
  assumes "hoare m a (\<lambda>x a'. hoare (f x) a' Q)"
  shows "hoare (bind m f) a Q"
proof (rule hoareI)
  fix p assume d: "describes a p"
  show "case bind m f p of
      Done x q \<Rightarrow> keeps_state p q \<and> (\<exists>a'. describes a' q \<and> Q x a')
    | Fault e q \<Rightarrow> e \<noteq> NoFuel \<and> (e = TokenOverrun \<and> eof_terminated (toks p) \<longrightarrow> had_error q)"
  proof (cases "m p")
    case (Done x q)
    then obtain a' where k: "keeps_state p q" "describes a' q" "hoare (f x) a' Q"
      using assms d by (fastforce simp: hoare_def)
    then have "toks q = toks p" by (simp add: keeps_state_def)
    then show ?thesis
      using k Done keeps_state_trans [OF k(1)] by (auto simp: hoare_def bind_def split: outcome.splits)
  next
    case (Fault e q)
    then show ?thesis using assms d by (fastforce simp: hoare_def bind_def)
  qed
qed

lemma hoare_conseq:
  "hoare m a R \<Longrightarrow> (\<And>x a'. R x a' \<Longrightarrow> Q x a') \<Longrightarrow> hoare m a Q"
  by (fastforce simp: hoare_def split: outcome.splits)

lemma hoare_ret: "Q x a \<Longrightarrow> hoare (ret x) a Q"
  by (auto simp: hoare_def ret_def)

lemma hoare_then_ret: "hoare m a (\<lambda>x a'. Q (g x) a') \<Longrightarrow> hoare m a (\<lambda>x a'. hoare (ret (g x)) a' Q)"
  by (erule hoare_conseq) (rule hoare_ret)

lemma hoare_state: "(\<And>p. Q p a) \<Longrightarrow> hoare state a Q"
  by (auto simp: hoare_def state_def)

lemma hoare_if: "(c \<Longrightarrow> hoare m a Q) \<Longrightarrow> (\<not> c \<Longrightarrow> hoare m' a Q) \<Longrightarrow> hoare (if c then m else m') a Q"
  by simp

lemma hoare_case_option:
  "(x = None \<Longrightarrow> hoare m a Q) \<Longrightarrow> (\<And>y. x = Some y \<Longrightarrow> hoare (f y) a Q) \<Longrightarrow>
   hoare (case x of None \<Rightarrow> m | Some y \<Rightarrow> f y) a Q"
  by (cases x) simp_all

lemma hoare_case_prod:
  "(\<And>y z. x = (y, z) \<Longrightarrow> hoare (f y z) a Q) \<Longrightarrow> hoare (case x of (y, z) \<Rightarrow> f y z) a Q"
  by (cases x) simp

subsection \<open>Reading and consuming tokens\<close>

lemma hoare_cur:
  assumes "\<And>t. 0 < bnd a \<Longrightarrow> (nonend a \<Longrightarrow> tkind t \<noteq> TOK_EOF)
      \<Longrightarrow> Q t (a\<lparr>nonend := nonend a \<or> tkind t \<noteq> TOK_EOF\<rparr>)"
  shows "hoare cur a Q"
proof (rule hoareI)
  fix p assume d: "describes a p"
  let ?t = "toks p ! ppos p"
  have "ppos p < length (toks p) \<Longrightarrow> Q ?t (a\<lparr>nonend := nonend a \<or> tkind ?t \<noteq> TOK_EOF\<rparr>)"
    using d by (intro assms) (auto simp: describes_def)
  moreover have "ppos p < length (toks p) \<Longrightarrow> describes (a\<lparr>nonend := nonend a \<or> tkind ?t \<noteq> TOK_EOF\<rparr>) p"
    using d by (auto simp: describes_def)
  moreover have "ppos p < length (toks p) \<or> (eof_terminated (toks p) \<longrightarrow> had_error p)"
    using d by (auto simp: describes_def)
  ultimately show "case cur p of
      Done x q \<Rightarrow> keeps_state p q \<and> (\<exists>a'. describes a' q \<and> Q x a')
    | Fault e q \<Rightarrow> e \<noteq> NoFuel \<and> (e = TokenOverrun \<and> eof_terminated (toks p) \<longrightarrow> had_error q)"
    by (simp add: cur_def) blast
qed

lemma hoare_prev:
  assumes "begun a" "\<And>t. Q t a"
  shows "hoare prev a Q"
  using assms by (auto simp: hoare_def prev_def describes_def intro!: exI [of _ a])

text \<open>The last token ends the list, so there is a token after any other.\<close>

lemma eof_terminated_next:
  assumes "eof_terminated ts" "i < length ts" "tkind (ts ! i) \<noteq> TOK_EOF"
  shows "Suc i < length ts"
proof -
  have "i \<noteq> length ts - 1" using assms last_conv_nth [of ts] by (auto simp: eof_terminated_def)
  then show ?thesis using assms(2) by simp
qed

lemma hoare_skip:
  assumes "nonend a \<or> erred a" "Q () (a\<lparr>bnd := bnd a - 1, nonend := False, begun := True\<rparr>)"
  shows "hoare skip a Q"
proof (rule hoareI)
  fix p assume d: "describes a p"
  have "describes (a\<lparr>bnd := bnd a - 1, nonend := False, begun := True\<rparr>) (p\<lparr>ppos := ppos p + 1\<rparr>)"
    using d assms(1) eof_terminated_next [of "toks p" "ppos p"] by (auto simp: describes_def)
  then show "case skip p of
      Done x q \<Rightarrow> keeps_state p q \<and> (\<exists>a'. describes a' q \<and> Q x a')
    | Fault e q \<Rightarrow> e \<noteq> NoFuel \<and> (e = TokenOverrun \<and> eof_terminated (toks p) \<longrightarrow> had_error q)"
    using assms(2) by (auto simp: skip_def keeps_state_def)
qed

lemma hoare_report:
  assumes "Q () (a\<lparr>erred := True\<rparr>)"
  shows "hoare (report l c msg) a Q"
proof (rule hoareI)
  fix p assume d: "describes a p"
  have "describes (a\<lparr>erred := True\<rparr>) (p\<lparr>had_error := True, errs := errs p @ [(l, c, msg)]\<rparr>)"
    using d by (auto simp: describes_def)
  then show "case report l c msg p of
      Done x q \<Rightarrow> keeps_state p q \<and> (\<exists>a'. describes a' q \<and> Q x a')
    | Fault e q \<Rightarrow> e \<noteq> NoFuel \<and> (e = TokenOverrun \<and> eof_terminated (toks p) \<longrightarrow> had_error q)"
    using assms by (auto simp: report_def keeps_state_def)
qed

lemmas hoare_basic = hoare_bind hoare_ret hoare_state hoare_if hoare_case_option hoare_case_prod

text \<open>Knowledge that is not needed may be dropped.\<close>

text \<open>After \<^verbatim>\<open>check\<close>: on success for a kind other than the end, the token is not the end.\<close>

lemma hoare_check:
  assumes "\<And>c a'. le a a' \<Longrightarrow> bnd a' = bnd a \<Longrightarrow> (nonend a \<Longrightarrow> nonend a') \<Longrightarrow> (erred a \<Longrightarrow> erred a')
      \<Longrightarrow> 0 < bnd a \<Longrightarrow> (c \<Longrightarrow> k \<noteq> TOK_EOF \<Longrightarrow> nonend a') \<Longrightarrow> (\<not> c \<Longrightarrow> k = TOK_EOF \<Longrightarrow> nonend a')
      \<Longrightarrow> (c \<Longrightarrow> k = TOK_EOF \<Longrightarrow> \<not> nonend a)
      \<Longrightarrow> Q c a'"
  shows "hoare (check k) a Q"
  unfolding check_def [abs_def]
  by (intro hoare_bind hoare_cur hoare_ret assms) (auto simp: le_def)

text \<open>After \<^verbatim>\<open>match\<close> of a kind other than the end: either a token is consumed or nothing changes.\<close>

lemma hoare_match:
  assumes "k \<noteq> TOK_EOF"
    and "\<And>c a'. le a a' \<Longrightarrow> 0 < bnd a \<Longrightarrow> (erred a \<Longrightarrow> erred a') \<Longrightarrow> (c \<Longrightarrow> lt a a')
      \<Longrightarrow> (\<not> c \<Longrightarrow> bnd a' = bnd a) \<Longrightarrow> (\<not> c \<Longrightarrow> nonend a \<Longrightarrow> nonend a')
      \<Longrightarrow> (nonend a \<Longrightarrow> nonend a' \<or> lt a a') \<Longrightarrow> Q c a'"
  shows "hoare (match k) a Q"
  unfolding match_def [abs_def]
  by (intro hoare_bind hoare_check hoare_if hoare_skip hoare_ret assms(2)) 
     (use assms(1) in \<open>auto simp: le_def lt_def\<close>)

lemma hoare_if_match:
  assumes "k \<noteq> TOK_EOF"
    and "\<And>a'. lt a a' \<Longrightarrow> hoare m a' Q"
    and "\<And>a'. le a a' \<Longrightarrow> bnd a' = bnd a \<Longrightarrow> 0 < bnd a \<Longrightarrow> (nonend a \<Longrightarrow> nonend a') \<Longrightarrow> hoare m' a' Q"
  shows "hoare (if_match k m m') a Q"
  unfolding if_match_def [abs_def]
  by (intro hoare_bind hoare_match hoare_if assms) auto

text \<open>A chain of tests: every branch starts after one token, the default where the chain started.\<close>

definition same :: "abst \<Rightarrow> abst \<Rightarrow> bool" where
  "same a a' \<longleftrightarrow> bnd a' = bnd a \<and> (begun a \<longrightarrow> begun a') \<and> (nonend a \<longrightarrow> nonend a') \<and> 0 < bnd a"

definition branch :: "abst \<Rightarrow> ('a \<Rightarrow> abst \<Rightarrow> bool) \<Rightarrow> token_kind \<times> 'a parse \<Rightarrow> bool" where
  "branch a Q e \<longleftrightarrow> fst e \<noteq> TOK_EOF \<and> (\<forall>a'. lt a a' \<longrightarrow> hoare (snd e) a' Q)"

lemma branchI: "k \<noteq> TOK_EOF \<Longrightarrow> (\<And>a'. lt a a' \<Longrightarrow> hoare m a' Q) \<Longrightarrow> branch a Q (k, m)"
  by (simp add: branch_def)

lemma branches_Cons: "branch a Q e \<Longrightarrow> list_all (branch a Q) es \<Longrightarrow> list_all (branch a Q) (e # es)"
  and branches_Nil: "list_all (branch a Q) []"
  and branches_append: "list_all (branch a Q) es \<Longrightarrow> list_all (branch a Q) fs \<Longrightarrow> list_all (branch a Q) (es @ fs)"
  by simp_all

lemma hoare_dispatch_same:
  assumes "list_all (branch a0 Q) es"
    and "\<And>a'. same a0 a' \<Longrightarrow> hoare d a' Q" and "same a0 a"
  shows "hoare (dispatch es d) a Q"
  using assms(1,3)
proof (induction es arbitrary: a)
  case Nil
  then show ?case
    unfolding fun_eq_iff [THEN iffD2, OF allI, OF dispatch.simps(1)] by (simp add: assms(2))
next
  case (Cons e es)
  show ?case
    unfolding fun_eq_iff [THEN iffD2, OF allI, OF dispatch.simps(2)]
    using Cons.prems
    by (intro hoare_if_match Cons.IH) (auto simp: branch_def same_def lt_def le_def)
qed

lemma hoare_dispatch:
  assumes "es \<noteq> []"
    and "list_all (branch a Q) es"
    and "\<And>a'. same a a' \<Longrightarrow> hoare d a' Q"
  shows "hoare (dispatch es d) a Q"
proof -
  obtain e es' where es: "es = e # es'" using assms(1) by (cases es) auto
  show ?thesis
    unfolding es fun_eq_iff [THEN iffD2, OF allI, OF dispatch.simps(2)]
    using assms(2) es
    by (intro hoare_if_match hoare_dispatch_same [OF _ assms(3)]) (auto simp: branch_def same_def le_def)
qed

text \<open>
  The contracts of parsing functions: \<open>consumes\<close> (at least one token), and \<open>keeps\<close>, which may
  consume none when the current token is the end. \<open>B\<close> is the fuel: more than the tokens left.
\<close>

definition consumes :: "'a parse \<Rightarrow> nat \<Rightarrow> bool" where
  "consumes m B \<longleftrightarrow> (\<forall>a. bnd a < B \<longrightarrow> hoare m a (\<lambda>x a'. lt a a'))"

definition keeps :: "'a parse \<Rightarrow> nat \<Rightarrow> bool" where
  "keeps m B \<longleftrightarrow> (\<forall>a. bnd a < B \<longrightarrow> hoare m a (\<lambda>x a'. le a a' \<and> (nonend a \<longrightarrow> lt a a')))"

text \<open>\<open>follows\<close>: called after a token was consumed, as most functions of the grammar are.\<close>

definition follows :: "'a parse \<Rightarrow> nat \<Rightarrow> bool" where
  "follows m B \<longleftrightarrow> (\<forall>a. bnd a < B \<longrightarrow> begun a \<longrightarrow> hoare m a (\<lambda>x a'. le a a'))"

lemma hoare_consumes: "consumes m B \<Longrightarrow> bnd a < B \<Longrightarrow> (\<And>x a'. lt a a' \<Longrightarrow> Q x a') \<Longrightarrow> hoare m a Q"
  by (auto simp: consumes_def intro: hoare_conseq)

lemma hoare_keeps:
  "keeps m B \<Longrightarrow> bnd a < B \<Longrightarrow> (\<And>x a'. le a a' \<Longrightarrow> (nonend a \<Longrightarrow> lt a a') \<Longrightarrow> Q x a') \<Longrightarrow> hoare m a Q"
  by (rule hoare_conseq [where R = "\<lambda>x a'. le a a' \<and> (nonend a \<longrightarrow> lt a a')"]) (auto simp: keeps_def)

lemma hoare_follows:
  "follows m B \<Longrightarrow> bnd a < B \<Longrightarrow> begun a \<Longrightarrow> (\<And>x a'. le a a' \<Longrightarrow> Q x a') \<Longrightarrow> hoare m a Q"
  by (rule hoare_conseq [where R = "\<lambda>x a'. le a a'"]) (auto simp: follows_def)

lemma consumesI: "(\<And>a. bnd a < B \<Longrightarrow> hoare m a (\<lambda>x a'. lt a a')) \<Longrightarrow> consumes m B"
  by (simp add: consumes_def)

lemma keepsI: "(\<And>a. bnd a < B \<Longrightarrow> hoare m a (\<lambda>x a'. le a a' \<and> (nonend a \<longrightarrow> lt a a'))) \<Longrightarrow> keeps m B"
  by (simp add: keeps_def)

lemma followsI: "(\<And>a. bnd a < B \<Longrightarrow> begun a \<Longrightarrow> hoare m a (\<lambda>x a'. le a a')) \<Longrightarrow> follows m B"
  by (simp add: follows_def)

lemma consumes_keeps: "consumes m B \<Longrightarrow> keeps m B"
  by (auto simp: consumes_def keeps_def intro: hoare_conseq lt_le)

lemma keeps_follows: "keeps m B \<Longrightarrow> follows m B"
  by (auto simp: follows_def keeps_def intro: hoare_conseq)

lemma consumes_mono: "consumes m B \<Longrightarrow> B' \<le> B \<Longrightarrow> consumes m B'"
  by (auto simp: consumes_def)

lemma keeps_mono: "keeps m B \<Longrightarrow> B' \<le> B \<Longrightarrow> keeps m B'"
  by (auto simp: keeps_def)

lemma keeps_expect: "k \<noteq> TOK_EOF \<Longrightarrow> keeps (expect k msg) B"
  unfolding expect_def [abs_def]
  by (intro keepsI hoare_bind hoare_check hoare_if hoare_skip hoare_prev hoare_cur hoare_report hoare_ret)
    (auto simp: le_def lt_def)

text \<open>\<open>hoare_expect\<close>: an expected token is consumed unless the list ends.\<close>

lemma hoare_expect:
  assumes "k \<noteq> TOK_EOF"
    and "\<And>t a'. le a a' \<Longrightarrow> (nonend a \<Longrightarrow> lt a a') \<Longrightarrow> Q t a'"
  shows "hoare (expect k msg) a Q"
  by (rule hoare_keeps [OF keeps_expect [OF assms(1)], of _ "Suc (bnd a)"]) (auto intro: assms(2))

lemma hoare_opt_match:
  assumes "k \<noteq> TOK_EOF"
    and "\<And>a'. lt a a' \<Longrightarrow> hoare m a' (\<lambda>x a''. Q (Some x) a'')"
    and "\<And>a'. le a a' \<Longrightarrow> (nonend a \<Longrightarrow> nonend a') \<Longrightarrow> bnd a' = bnd a \<Longrightarrow> Q None a'"
  shows "hoare (opt_match k m) a Q"
  unfolding opt_match_def [abs_def]
  by (intro hoare_if_match hoare_bind hoare_then_ret hoare_ret assms)

lemma hoare_unless_check:
  assumes "\<And>a'. le a a' \<Longrightarrow> bnd a' = bnd a \<Longrightarrow> (nonend a \<Longrightarrow> nonend a') \<Longrightarrow> hoare m a' (\<lambda>x a''. Q (Some x) a'')"
    and "\<And>a'. le a a' \<Longrightarrow> bnd a' = bnd a \<Longrightarrow> (nonend a \<Longrightarrow> nonend a') \<Longrightarrow> Q None a'"
  shows "hoare (unless_check k m) a Q"
  unfolding unless_check_def [abs_def]
  by (intro hoare_bind hoare_check hoare_if hoare_then_ret hoare_ret assms)

subsection \<open>Loops\<close>

text \<open>A loop with invariant \<open>P\<close> whose every turn but the last consumes a token.\<close>

lemma hoare_ploop:
  fixes body :: "'a \<Rightarrow> ('a + 'b) parse"
  assumes "\<And>acc a'. P a' \<Longrightarrow> le a a' \<Longrightarrow> bnd a' < n \<Longrightarrow>
      hoare (body acc) a' (\<lambda>r a''. case r of Inl _ \<Rightarrow> lt a' a'' \<and> P a'' | Inr y \<Rightarrow> le a' a'' \<and> R a' y a'')"
    and "P a" "bnd a < n"
    and "\<And>y a' a''. le a a' \<Longrightarrow> le a' a'' \<Longrightarrow> R a' y a'' \<Longrightarrow> Q y a''"
  shows "hoare (ploop n body acc) a Q"
  using assms
proof (induction n arbitrary: a acc)
  case (Suc n)
  show ?case
    unfolding ploop.simps
  proof (rule hoare_bind, rule hoare_conseq)
    show "hoare (body acc) a
        (\<lambda>r a''. case r of Inl _ \<Rightarrow> lt a a'' \<and> P a'' | Inr y \<Rightarrow> le a a'' \<and> R a y a'')"
      using Suc.prems by simp
  next
    fix r :: "'a + 'b" and a'
    assume r: "case r of Inl _ \<Rightarrow> lt a a' \<and> P a' | Inr y \<Rightarrow> le a a' \<and> R a y a'"
    show "hoare (case r of Inl acc' \<Rightarrow> ploop n body acc' | Inr x \<Rightarrow> ret x) a' Q"
    proof (cases r)
      case (Inl acc')
      then have a': "lt a a'" "P a'" using r by simp_all
      have "hoare (ploop n body acc') a' Q"
      proof (rule Suc.IH)
        fix acc b assume "P b" "le a' b" "bnd b < n"
        then show "hoare (body acc) b
            (\<lambda>r a''. case r of Inl _ \<Rightarrow> lt b a'' \<and> P a'' | Inr y \<Rightarrow> le b a'' \<and> R b y a'')"
          using le_trans [OF lt_le [OF a'(1)]] by (intro Suc.prems(1)) auto
      next
        show "P a'" "bnd a' < n" using a' Suc.prems(3) by (auto simp: lt_def)
      next
        fix y b c assume "le a' b" "le b c" "R b y c"
        then show "Q y c" using Suc.prems(4) lt_le [OF a'(1)] by (blast intro: le_trans)
      qed
      then show ?thesis using Inl by simp
    next
      case (Inr y)
      then show ?thesis using r Suc.prems(4) [of a a' y] by (auto intro: hoare_ret)
    qed
  qed
qed simp

lemma hoare_loop:
  assumes "\<And>acc a'. le a a' \<Longrightarrow> bnd a' < n \<Longrightarrow>
      hoare (body acc) a' (\<lambda>r a''. case r of Inl _ \<Rightarrow> lt a' a'' | Inr _ \<Rightarrow> le a' a'')"
    and "bnd a < n"
    and "\<And>y a'. le a a' \<Longrightarrow> Q y a'"
  shows "hoare (ploop n body acc) a Q"
proof (rule hoare_ploop [where P = "\<lambda>_. True" and R = "\<lambda>_ _ _. True"])
  fix acc a' assume "le a a'" "bnd a' < n"
  then show "hoare (body acc) a'
      (\<lambda>r a''. case r of Inl _ \<Rightarrow> lt a' a'' \<and> True | Inr _ \<Rightarrow> le a' a'' \<and> True)"
    by (rule hoare_conseq [OF assms(1)]) (auto split: sum.splits)
qed (auto intro: assms le_trans)

lemma hoare_until_close:
  assumes "\<And>acc a'. le a a' \<Longrightarrow> bnd a' < n \<Longrightarrow> nonend a' \<Longrightarrow> hoare (body acc) a' (\<lambda>_ a''. lt a' a'')"
    and "bnd a < n"
    and "\<And>y a'. le a a' \<Longrightarrow> Q y a'"
  shows "hoare (until_close n k body acc) a Q"
  unfolding until_close_def [abs_def]
proof (rule hoare_loop)
  fix acc a' assume a': "le a a'" "bnd a' < n"
  show "hoare (bind (check k) (\<lambda>c. if c then ret (Inr acc)
      else bind (check TOK_EOF) (\<lambda>e. if e then ret (Inr acc) else bind (body acc) (\<lambda>b. ret (Inl b))))) a'
      (\<lambda>r a''. case r of Inl _ \<Rightarrow> lt a' a'' | Inr _ \<Rightarrow> le a' a'')"
  proof (intro hoare_bind hoare_check hoare_if hoare_ret)
    fix b c d e
    assume "le a' c" "bnd c = bnd a'" "le c b" "bnd b = bnd c" "\<not> d" "\<not> d \<Longrightarrow> TOK_EOF = TOK_EOF \<Longrightarrow> nonend b"
    then show "hoare (body acc) b (\<lambda>x a''. hoare (ret (Inl x)) a''
        (\<lambda>r a''. case r of Inl _ \<Rightarrow> lt a' a'' | Inr _ \<Rightarrow> le a' a''))"
      using a'
      by (intro hoare_then_ret hoare_conseq [OF assms(1)]) (auto intro: le_trans dest: le_lt_trans)
  qed (auto intro: le_trans)
qed (use assms in auto)

lemma hoare_list_until:
  assumes "\<And>a'. le a a' \<Longrightarrow> bnd a' < n \<Longrightarrow> nonend a' \<Longrightarrow> hoare item a' (\<lambda>_ a''. lt a' a'')"
    and "bnd a < n"
    and "\<And>y a'. le a a' \<Longrightarrow> Q y a'"
  shows "hoare (list_until n k item) a Q"
  unfolding list_until_def [abs_def]
  by (intro hoare_until_close hoare_bind) (auto intro: assms hoare_ret hoare_conseq)

lemma hoare_comma_list:
  assumes "\<And>a'. le a a' \<Longrightarrow> bnd a' < n \<Longrightarrow> hoare item a' (\<lambda>_ a''. le a' a'')"
    and "bnd a < n"
    and "\<And>y a'. le a a' \<Longrightarrow> Q y a'"
  shows "hoare (comma_list n item) a Q"
  unfolding comma_list_def [abs_def]
proof (rule hoare_loop)
  fix acc a' assume a': "le a a'" "bnd a' < n"
  show "hoare (bind item (\<lambda>x. bind (match TOK_COMMA) (\<lambda>m. ret (if m then Inl (acc @ [x]) else Inr (acc @ [x])))))
      a' (\<lambda>r a''. case r of Inl _ \<Rightarrow> lt a' a'' | Inr _ \<Rightarrow> le a' a'')"
    using a'
    by (intro hoare_bind hoare_conseq [OF assms(1)] hoare_match hoare_ret)
      (auto intro: le_trans le_lt_trans)
qed (use assms in auto)

text \<open>The rules, applied to a goal by its outermost construct.\<close>

lemmas [parser_rules] = hoare_bind hoare_then_ret hoare_ret hoare_state hoare_if hoare_case_option
  hoare_case_prod hoare_cur hoare_prev hoare_skip hoare_report hoare_check hoare_match hoare_if_match
  hoare_dispatch branchI branches_Cons branches_Nil branches_append hoare_expect hoare_opt_match hoare_unless_check hoare_list_until hoare_until_close hoare_comma_list
  consumesI keepsI followsI

lemmas order_defs = le_def lt_def same_def


end
