(* ===== verification/Parser_Spec.thy ===== *)
theory Parser_Spec
  imports Parser_Decl Parser_Logic
begin

text \<open>
  The contract of every parsing function, in the order of the grammar. The bound of a contract is
  the fuel of the function: a call with more fuel than tokens left never lacks fuel.
\<close>

subsection \<open>Paths and types\<close>

lemma is_path_token_EOF: "\<not> is_path_token TOK_EOF b"
  by (simp add: is_path_token_def)

lemma keeps_path_token: "keeps (expect_path_token msg b) B"
  unfolding expect_path_token_def [abs_def]
  by (intro parser_rules) (auto simp: order_defs is_path_token_EOF)

lemma keeps_parse_path: "keeps (parse_path n msg b) n"
  unfolding parse_path_def [abs_def]
  by (intro parser_rules hoare_loop hoare_keeps [OF keeps_path_token [of _ _ "Suc n"]])
    (auto simp: order_defs)

lemma parse_type_args_rule:
  assumes "nonend a" "bnd a < n" "\<And>y a'. lt a a' \<Longrightarrow> Q y a'"
  shows "hoare (parse_type_args n buf) a Q"
  unfolding parse_type_args_def [abs_def]
  by (rule hoare_ploop [where P = nonend and R = "\<lambda>a' y a''. lt a' a''"])
    (use assms in \<open>intro parser_rules | force simp: order_defs\<close>)+

lemma keeps_named_type: "keeps (parse_named_type n t) n"
  unfolding parse_named_type_def [abs_def]
  by (intro parser_rules hoare_keeps [OF keeps_parse_path] parse_type_args_rule) (auto simp: order_defs)

lemma array_length_rule:
  assumes "\<And>x a'. le a a' \<Longrightarrow> (nonend a \<Longrightarrow> bnd a' = bnd a \<Longrightarrow> nonend a') \<Longrightarrow> Q x a'"
  shows "hoare parse_array_length a Q"
  unfolding parse_array_length_def [abs_def]
  by (intro parser_rules assms) (auto simp: order_defs)

lemma keeps_parse_type: "keeps (parse_type n) n"
proof (induction n)
  case (Suc n)
  show ?case
    unfolding fun_eq_iff [THEN iffD2, OF allI, OF parse_type.simps(2)]
    by (intro parser_rules hoare_keeps [OF Suc.IH] array_length_rule hoare_keeps [OF keeps_named_type])
      (auto simp: order_defs)
qed (simp add: keeps_def)

lemma keeps_opt_type:
  assumes "bnd a < n" "\<And>x a'. le a a' \<Longrightarrow> (nonend a \<Longrightarrow> bnd a' = bnd a \<Longrightarrow> nonend a') \<Longrightarrow> Q x a'"
  shows "hoare (opt_type n) a Q"
  unfolding opt_type_def [abs_def]
  by (intro parser_rules hoare_keeps [OF keeps_parse_type] assms) (use assms(1) in \<open>auto simp: order_defs\<close>)

subsection \<open>Primary expressions\<close>

lemma follows_bindings: "follows (parse_bindings n) n"
  unfolding parse_bindings_def [abs_def]
  by (intro parser_rules hoare_loop) (auto simp: order_defs)

lemma keeps_pattern_key: "keeps parse_pattern_key n"
  unfolding parse_pattern_key_def [abs_def]
  by (intro parser_rules) (auto simp: order_defs)

lemma copy_pattern_rule:
  assumes "Q (take 127 pat) a"
  shows "hoare (copy_pattern pat) a Q"
  using assms by (auto simp: copy_pattern_def [abs_def] hoare_def fail_def ret_def)

lemma keeps_pattern: "keeps (parse_pattern n) n"
  unfolding parse_pattern_def [abs_def]
  by (intro parser_rules hoare_keeps [OF keeps_pattern_key [of "Suc n"]] hoare_follows [OF follows_bindings])
    (auto simp: order_defs)

text \<open>\<open>pe\<close> has fuel \<open>B\<close>; the loops have fuel \<open>n\<close>.\<close>

lemma consumes_match_arm:
  assumes "consumes pe B"
  shows "consumes (parse_match_arm pe n) (min n B)"
  unfolding parse_match_arm_def [abs_def]
  by (intro parser_rules hoare_keeps [OF keeps_pattern] hoare_consumes [OF assms(1)] copy_pattern_rule)
    (auto simp: order_defs)

lemma consumes_match_expr:
  assumes "consumes pe B"
  shows "consumes (parse_match_expr pe n t) (min n B)"
  unfolding parse_match_expr_def [abs_def]
  by (intro parser_rules hoare_consumes [OF assms(1)] hoare_consumes [OF consumes_match_arm [OF assms]])
    (auto simp: order_defs)

text \<open>
  The two look-aheads of struct literals advance only over tokens they have seen, and stop before
  the end of the list.
\<close>

lemma scan_close_le: "scan_close ts d \<le> length ts"
  by (induction ts d rule: scan_close.induct) auto

lemma gen_args_le:
  "0 < d \<Longrightarrow> gen_args ts b = (n, b') \<Longrightarrow> n \<le> scan_close ts d"
proof (induction ts b arbitrary: n b' d rule: gen_args.induct)
  case (2 t ts b)
  obtain m b'' where m: "gen_args ts (b @ take (256 - length b - 2) (lexeme t)) = (m, b'')"
    by fastforce
  have IH: "tkind t \<noteq> TOK_RBRACKET \<Longrightarrow> 0 < e \<Longrightarrow> m \<le> scan_close ts e" for e
    using "2.IH" m by blast
  show ?case
    using "2.prems" IH [of d] IH [of "d + 1"] m by (auto split: if_splits)
qed simp

lemma gen_struct_head_rule:
  assumes "Q None a" "\<And>x a'. lt a a' \<Longrightarrow> Q (Some x) a'"
  shows "hoare (gen_struct_head t) a Q"
proof (rule hoareI)
  fix p assume d: "describes a p"
  let ?rest = "drop (ppos p + 1) (toks p)"
  obtain n b where g: "gen_args ?rest (take 200 (lexeme t) @ ''['') = (n, b)" by fastforce
  let ?a = "\<lparr>bnd = bnd a - 1, nonend = False, erred = erred a, begun = True\<rparr>"
  have "n \<le> scan_close ?rest 1" using gen_args_le [OF _ g, of 1] by simp
  then have "is_gen_sl p \<Longrightarrow> describes ?a (p\<lparr>ppos := ppos p + 1 + n + 1\<rparr>)"
    using d by (auto simp: describes_def is_gen_sl_def struct_body_at_def Let_def)
  moreover have "is_gen_sl p \<Longrightarrow> 0 < bnd a"
    using d by (auto simp: describes_def is_gen_sl_def Let_def)
  ultimately show "case gen_struct_head t p of
      Done x q \<Rightarrow> keeps_state p q \<and> (\<exists>a'. describes a' q \<and> Q x a')
    | Fault e q \<Rightarrow> e \<noteq> NoFuel \<and> (e = TokenOverrun \<and> eof_terminated (toks p) \<longrightarrow> had_error q)"
    using d assms(1) assms(2) [of ?a] g
    by (cases "is_gen_sl p") (auto simp: gen_struct_head_def keeps_state_def lt_def)
qed

lemma plain_struct_head_rule:
  assumes "Q False a" "\<And>a'. lt a a' \<Longrightarrow> Q True a'"
  shows "hoare plain_struct_head a Q"
proof (rule hoareI)
  fix p assume d: "describes a p"
  let ?a = "\<lparr>bnd = bnd a - 1, nonend = False, erred = erred a, begun = True\<rparr>"
  have "struct_body_at (toks p) (ppos p + 1) \<Longrightarrow> describes ?a (p\<lparr>ppos := ppos p + 1\<rparr>) \<and> 0 < bnd a"
    using d by (auto simp: describes_def struct_body_at_def)
  then show "case plain_struct_head p of
      Done x q \<Rightarrow> keeps_state p q \<and> (\<exists>a'. describes a' q \<and> Q x a')
    | Fault e q \<Rightarrow> e \<noteq> NoFuel \<and> (e = TokenOverrun \<and> eof_terminated (toks p) \<longrightarrow> had_error q)"
    using d assms(1) assms(2) [of ?a]
    by (cases "struct_body_at (toks p) (ppos p + 1)")
      (auto simp: plain_struct_head_def keeps_state_def lt_def)
qed

lemma follows_struct_lit:
  assumes "consumes pe B"
  shows "follows (parse_struct_lit pe n t name) (min n B)"
  unfolding parse_struct_lit_def [abs_def]
  by (intro parser_rules hoare_consumes [OF assms]) (auto simp: order_defs)

lemma follows_ident:
  assumes "consumes pe B"
  shows "follows (parse_ident pe n t) (min n B)"
  unfolding parse_ident_def [abs_def]
  by (intro parser_rules gen_struct_head_rule plain_struct_head_rule
      hoare_follows [OF follows_struct_lit [OF assms]]) (auto simp: order_defs)

text \<open>From here on a token is consumed before \<open>pe\<close> is called, so that one more token may be left.\<close>

lemma consumes_primary:
  assumes "consumes pe B"
  shows "consumes (parse_primary pe n) (min n (Suc B))"
  unfolding parse_primary_def [abs_def] parse_literal_def parse_group_def [abs_def]
    unexpected_token_def [abs_def]
  by (intro parser_rules hoare_consumes [OF assms] hoare_consumes [OF consumes_match_expr [OF assms]]
      hoare_follows [OF follows_ident [OF assms]]) (auto simp: order_defs)

subsection \<open>Operators\<close>

lemma follows_call_args:
  assumes "consumes pe B"
  shows "follows (parse_call_args pe n t e) (min n B)"
  unfolding parse_call_args_def [abs_def]
  by (intro parser_rules hoare_consumes [OF assms]) (auto simp: order_defs)

lemma follows_field: "follows (parse_field e) B"
  unfolding parse_field_def [abs_def] by (intro parser_rules) (auto simp: order_defs)

lemma follows_slice_end:
  assumes "consumes pe B"
  shows "follows (parse_slice_end pe t e s) B"
  unfolding parse_slice_end_def [abs_def]
  by (intro parser_rules hoare_consumes [OF assms]) (auto simp: order_defs)

lemma follows_index:
  assumes "consumes pe B"
  shows "follows (parse_index pe t e) B"
  unfolding parse_index_def [abs_def]
  by (intro parser_rules hoare_consumes [OF assms] hoare_follows [OF follows_slice_end [OF assms]])
    (auto simp: order_defs)

lemma postfix_step_rule:
  assumes "consumes pe B" "bnd a < min n (Suc B)"
  shows "hoare (postfix_step pe n e) a (\<lambda>r a'. case r of Inl _ \<Rightarrow> lt a a' | Inr _ \<Rightarrow> le a a')"
  unfolding postfix_step_def [abs_def]
  by (intro parser_rules hoare_follows [OF follows_call_args [OF assms(1)]]
      hoare_follows [OF follows_field] hoare_follows [OF follows_index [OF assms(1)]])
    (use assms(2) in \<open>auto simp: order_defs\<close>)

lemma consumes_postfix:
  assumes "consumes pe B"
  shows "consumes (parse_postfix pe n) (min n (Suc B))"
  unfolding parse_postfix_def [abs_def]
  by (intro parser_rules hoare_consumes [OF consumes_primary [OF assms]] hoare_loop
      postfix_step_rule [OF assms]) (auto simp: order_defs)

lemma match_any_rule:
  assumes "TOK_EOF \<notin> set ks" "\<And>c a'. le a a' \<Longrightarrow> (c \<Longrightarrow> lt a a') \<Longrightarrow> Q c a'"
  shows "hoare (match_any ks) a Q"
  using assms
proof (induction ks arbitrary: a)
  case (Cons k ks)
  show ?case
    unfolding fun_eq_iff [THEN iffD2, OF allI, OF match_any.simps(2)]
    using Cons.prems
    by (intro parser_rules Cons.IH) (auto simp: order_defs)
qed (auto simp: fun_eq_iff [THEN iffD2, OF allI, OF match_any.simps(1)] intro: hoare_ret)

lemma consumes_unary:
  assumes "consumes pe B"
  shows "consumes (parse_unary pe n) (min n (Suc B))"
proof (induction n)
  case (Suc n)
  show ?case
    unfolding fun_eq_iff [THEN iffD2, OF allI, OF parse_unary.simps(2)]
    by (intro parser_rules match_any_rule hoare_consumes [OF Suc.IH]
        hoare_consumes [OF consumes_postfix [OF assms]]) (auto simp: order_defs)
qed (simp add: consumes_def)

lemma consumes_cast:
  assumes "consumes pe B"
  shows "consumes (parse_cast pe n) (min n (Suc B))"
  unfolding parse_cast_def [abs_def]
  by (intro parser_rules hoare_consumes [OF consumes_unary [OF assms]] hoare_loop
      hoare_keeps [OF keeps_parse_type]) (auto simp: order_defs)

lemma consumes_binop:
  assumes "consumes m (min n B)" "TOK_EOF \<notin> set ops"
  shows "consumes (parse_binop m ops n) (min n B)"
  unfolding parse_binop_def [abs_def]
  by (intro parser_rules hoare_consumes [OF assms(1)] hoare_loop match_any_rule)
    (use assms(2) in \<open>auto simp: order_defs\<close>)

lemmas binop_level_defs = parse_factor_def [abs_def] parse_term_def [abs_def] parse_shift_def [abs_def]
  parse_comparison_def [abs_def] parse_equality_def [abs_def] parse_bitwise_and_def [abs_def]
  parse_bitwise_xor_def [abs_def] parse_bitwise_or_def [abs_def] parse_logical_and_def [abs_def]
  parse_logical_or_def [abs_def]

lemma consumes_logical_or:
  assumes "consumes pe B"
  shows "consumes (parse_logical_or pe n) (min n (Suc B))"
  unfolding binop_level_defs
  by (intro consumes_binop consumes_cast [OF assms]) simp_all

lemma compound_op_rule:
  assumes "Q None a" "\<And>x a'. lt a a' \<Longrightarrow> Q (Some x) a'" "\<And>a'. le a a' \<Longrightarrow> Q None a'"
  shows "hoare compound_op a Q"
  unfolding compound_op_def [abs_def]
  by (intro parser_rules assms) (auto simp: order_defs)

lemma consumes_assign:
  assumes "consumes pe B"
  shows "consumes (parse_assign pe n) (min n (Suc B))"
proof (induction n)
  case (Suc n)
  show ?case
    unfolding fun_eq_iff [THEN iffD2, OF allI, OF parse_assign.simps(2)]
    by (intro parser_rules compound_op_rule hoare_consumes [OF Suc.IH]
        hoare_consumes [OF consumes_logical_or [OF assms]]) (auto simp: order_defs)
qed (simp add: consumes_def)

lemma consumes_expr: "consumes (parse_expr n) n"
proof (induction n)
  case (Suc n)
  show ?case
    unfolding fun_eq_iff [THEN iffD2, OF allI, OF parse_expr.simps(2)]
    using consumes_assign [OF Suc.IH, of "Suc n"] by (simp del: parse_assign.simps)
qed (simp add: consumes_def)

end
