(* ===== verification/Parser_Spec_Decl.thy ===== *)
theory Parser_Spec_Decl
  imports Parser_Spec
begin

text \<open>
  The contracts of statements, user-interface elements and declarations, and of the whole parser.
\<close>

subsection \<open>Statements\<close>

lemma keeps_let_head: "keeps (parse_let_head (parse_expr n) n t) n"
  unfolding parse_let_head_def [abs_def]
  by (intro parser_rules keeps_opt_type hoare_consumes [OF consumes_expr]) (auto simp: order_defs)

lemma keeps_block_of:
  assumes "keeps ps B"
  shows "keeps (parse_block_of ps n) (min n B)"
  unfolding parse_block_of_def [abs_def]
  by (intro parser_rules hoare_keeps [OF assms]) (auto simp: order_defs)

lemma keeps_const_rest:
  "keeps (parse_const_rest (parse_expr n) n pos_of m1 m2 m3) n"
  unfolding parse_const_rest_def [abs_def]
  by (intro parser_rules keeps_opt_type hoare_consumes [OF consumes_expr]) (auto simp: order_defs)

lemmas stmt_defs = parse_let_def [abs_def] parse_const_def [abs_def] parse_return_def [abs_def]
  parse_if_def [abs_def] parse_while_def [abs_def] parse_for_def [abs_def] parse_for_init_def [abs_def]
  parse_jump_def [abs_def] parse_defer_def [abs_def] parse_expr_stmt_def [abs_def]

lemma keeps_for_init: "consumes (parse_for_init (parse_expr n) n t) n"
  unfolding stmt_defs
  by (intro parser_rules hoare_keeps [OF keeps_let_head] hoare_consumes [OF consumes_expr])
    (auto simp: order_defs)

text \<open>The simple statements, after their first token.\<close>

lemma follows_simple_stmts:
  "follows (parse_let (parse_expr n) n t) n" "follows (parse_const (parse_expr n) n t) n"
  "follows (parse_return (parse_expr n) t) n" "follows (parse_jump w x t) n"
  "follows (parse_defer (parse_expr n) t) n"
  unfolding stmt_defs
  by (intro parser_rules hoare_keeps [OF keeps_let_head] hoare_keeps [OF keeps_const_rest]
      hoare_consumes [OF consumes_expr]; auto simp: order_defs)+

lemma consumes_expr_stmt: "consumes (parse_expr_stmt (parse_expr n) t) n"
  unfolding stmt_defs
  by (intro parser_rules hoare_consumes [OF consumes_expr]) (auto simp: order_defs)

lemma follows_blocks:
  assumes "keeps pb B" "consumes ps B"
  shows "follows (parse_if (parse_expr n) pb ps t) (min n B)"
    and "follows (parse_while (parse_expr n) pb t) (min n B)"
    and "follows (parse_for (parse_expr n) pb n t) (min n B)"
  unfolding parse_if_def [abs_def] parse_while_def [abs_def] parse_for_def [abs_def]
  by (intro parser_rules hoare_keeps [OF assms(1)] hoare_consumes [OF assms(2)]
      hoare_consumes [OF consumes_expr] hoare_consumes [OF keeps_for_init]; auto simp: order_defs)+

lemma consumes_stmt_of:
  assumes "keeps pb B" "consumes ps B"
  shows "consumes (parse_stmt_of (parse_expr n) pb ps n) (min n (Suc B))"
  unfolding parse_stmt_of_def [abs_def]
  by (intro parser_rules hoare_keeps [OF assms(1)] hoare_follows [OF follows_simple_stmts(1)]
      hoare_follows [OF follows_simple_stmts(2)] hoare_follows [OF follows_simple_stmts(3)]
      hoare_follows [OF follows_simple_stmts(4), of _ "Suc n"] hoare_follows [OF follows_simple_stmts(5)]
      hoare_follows [OF follows_blocks(1) [OF assms]] hoare_follows [OF follows_blocks(2) [OF assms]]
      hoare_follows [OF follows_blocks(3) [OF assms]] hoare_consumes [OF consumes_expr_stmt])
    (auto simp: order_defs)

lemma consumes_stmt: "consumes (parse_stmt n) n"
proof (induction n)
  case (Suc n)
  have "keeps (parse_block_of (parse_stmt n) (Suc n)) n"
    using keeps_block_of [OF consumes_keeps [OF Suc.IH], of "Suc n"] by simp
  then have "consumes (parse_stmt_of (parse_expr (Suc n)) (parse_block_of (parse_stmt n) (Suc n))
      (parse_stmt n) (Suc n)) (min (Suc n) (Suc n))"
    by (intro consumes_stmt_of Suc.IH)
  then show ?case
    unfolding fun_eq_iff [THEN iffD2, OF allI, OF parse_stmt.simps(2)] by (simp del: parse_expr.simps)
qed (simp add: consumes_def)

lemma keeps_block: "keeps (parse_block n) n"
  unfolding parse_block_def [abs_def]
  using keeps_block_of [OF consumes_keeps [OF consumes_stmt], of n n] by simp

subsection \<open>Parameters and user-interface elements\<close>

lemma keeps_typed_name: "keeps (typed_name n name msg) n"
  unfolding typed_name_def [abs_def]
  by (intro parser_rules hoare_keeps [OF keeps_parse_type]) (auto simp: order_defs)

lemma keeps_param: "keeps (parse_param n) n"
  unfolding parse_param_def [abs_def]
  by (intro parser_rules hoare_keeps [OF keeps_typed_name]) (auto simp: order_defs)

lemma keeps_params: "keeps (parse_params n) n"
  unfolding parse_params_def [abs_def]
  by (intro parser_rules hoare_keeps [OF keeps_param]) (auto simp: order_defs)

lemma keeps_ui_property: "keeps (parse_ui_property (parse_expr n)) n"
  unfolding parse_ui_property_def [abs_def]
  by (intro parser_rules hoare_consumes [OF consumes_expr]) (auto simp: order_defs)

lemma cur_ident_in_rule:
  assumes "\<And>x a'. le a a' \<Longrightarrow> bnd a' = bnd a \<Longrightarrow> 0 < bnd a \<Longrightarrow> (nonend a \<Longrightarrow> nonend a') \<Longrightarrow> (x \<noteq> None \<Longrightarrow> nonend a') \<Longrightarrow> Q x a'"
  shows "hoare (cur_ident_in tab) a Q"
  unfolding cur_ident_in_def [abs_def]
  by (intro parser_rules assms) (auto simp: order_defs)

lemma consumes_ui_handler: "consumes (parse_ui_handler (parse_block n)) n"
  unfolding parse_ui_handler_def [abs_def]
  by (intro parser_rules cur_ident_in_rule hoare_keeps [OF keeps_block]) (auto simp: order_defs)

lemma follows_ui_title: "follows parse_ui_title n"
  unfolding parse_ui_title_def [abs_def]
  by (intro parser_rules) (auto simp: order_defs)

lemma ui_member_rule:
  assumes "consumes pu B" "bnd a < min n B" "nonend a"
  shows "hoare (parse_ui_member (parse_expr n) (parse_block n) pu acc) a (\<lambda>_ a'. lt a a')"
  unfolding parse_ui_member_def [abs_def]
  by (intro parser_rules cur_ident_in_rule hoare_consumes [OF consumes_ui_handler]
      hoare_consumes [OF assms(1)] hoare_keeps [OF keeps_ui_property])
    (use assms in \<open>auto simp: order_defs\<close>)

lemma consumes_ui_element_of:
  assumes "consumes pu B"
  shows "consumes (parse_ui_element_of (parse_expr n) (parse_block n) pu n) (min n (Suc B))"
  unfolding parse_ui_element_of_def [abs_def]
  by (intro parser_rules cur_ident_in_rule hoare_follows [OF follows_ui_title, of _ "Suc n"]
      hoare_conseq [OF ui_member_rule [OF assms]]) (auto simp: order_defs)

lemma consumes_ui_element: "consumes (parse_ui_element n) n"
proof (induction n)
  case (Suc n)
  then show ?case
    unfolding fun_eq_iff [THEN iffD2, OF allI, OF parse_ui_element.simps(2)]
    using consumes_ui_element_of [OF Suc.IH, of "Suc n"] by (simp del: parse_expr.simps)
qed (simp add: consumes_def)

subsection \<open>Declarations\<close>

lemma type_params_rule:
  assumes "bnd a < n" "\<And>x a'. le a a' \<Longrightarrow> Q x a'"
  shows "hoare (parse_type_params n) a Q"
  unfolding parse_type_params_def [abs_def]
  by (intro parser_rules assms(2)) (use assms(1) in \<open>auto simp: order_defs\<close>)

lemma follows_fn_decl: "follows (parse_fn_decl n pub owner) n"
  unfolding parse_fn_decl_def [abs_def]
  by (intro parser_rules type_params_rule hoare_keeps [OF keeps_params] hoare_keeps [OF keeps_parse_type]
      hoare_keeps [OF keeps_block]) (auto simp: order_defs)

text \<open>Methods are parsed at a token that is not the end, after the opening brace.\<close>

lemma method_rules:
  assumes "bnd a < n" "nonend a" "begun a"
  shows "hoare (parse_impl_method n target) a (\<lambda>_ a'. lt a a')"
    and "hoare (parse_interface_method n) a (\<lambda>_ a'. lt a a')"
  unfolding parse_impl_method_def [abs_def] parse_interface_method_def [abs_def]
  by (intro parser_rules hoare_follows [OF follows_fn_decl] hoare_keeps [OF keeps_params]
      hoare_keeps [OF keeps_parse_type]; use assms in \<open>auto simp: order_defs\<close>)+

lemma comptime_const_rule:
  assumes "bnd a < n" "nonend a"
  shows "hoare (parse_comptime_const n xs) a (\<lambda>_ a'. lt a a')"
  unfolding parse_comptime_const_def [abs_def]
  by (intro parser_rules hoare_keeps [OF keeps_const_rest]) (use assms in \<open>auto simp: order_defs\<close>)

lemma kernel_fn_rule:
  assumes "bnd a < n" "nonend a"
  shows "hoare (parse_kernel_fn n xs) a (\<lambda>_ a'. lt a a')"
  unfolding parse_kernel_fn_def [abs_def]
  by (intro parser_rules hoare_follows [OF follows_fn_decl]) (use assms in \<open>auto simp: order_defs\<close>)

lemma keeps_field_decl: "keeps (parse_field_decl n) n"
  unfolding parse_field_decl_def [abs_def]
  by (intro parser_rules hoare_keeps [OF keeps_typed_name]) (auto simp: order_defs)

lemma follows_fields: "follows (parse_fields n w c) n"
  unfolding parse_fields_def [abs_def]
  by (intro parser_rules hoare_keeps [OF keeps_field_decl]) (auto simp: order_defs)

lemma follows_variant_fields: "follows (parse_variant_fields n) n"
  unfolding parse_variant_fields_def [abs_def]
  by (intro parser_rules hoare_keeps [OF keeps_typed_name]) (auto simp: order_defs)

lemma keeps_variant: "keeps (parse_variant n) n"
  unfolding parse_variant_def [abs_def]
  by (intro parser_rules hoare_follows [OF follows_variant_fields]) (auto simp: order_defs)

lemma follows_decls:
  "follows (parse_const_decl n t) n" "follows (parse_packed n pub t) n" "follows (parse_struct n pub t) n"
  "follows (parse_enum n pub t) n" "follows (parse_union n pub t) n" "follows (parse_extern n pub t) n"
  "follows (parse_ui_app n pub t) n"
  unfolding parse_const_decl_def [abs_def] parse_packed_def [abs_def] parse_struct_def [abs_def]
    parse_enum_def [abs_def] parse_union_def [abs_def] parse_extern_def [abs_def] parse_ui_app_def [abs_def]
  by (intro parser_rules hoare_keeps [OF keeps_const_rest] type_params_rule hoare_follows [OF follows_fields]
      hoare_keeps [OF keeps_variant] hoare_keeps [OF keeps_params] hoare_keeps [OF keeps_parse_type]
      hoare_consumes [OF consumes_ui_element]; auto simp: order_defs)+

lemma follows_bodies:
  "follows (parse_impl n t) n" "follows (parse_interface n pub t) n" "follows (parse_comptime n t) n"
  "follows (parse_kernel_app n pub t) n"
  unfolding parse_impl_def [abs_def] parse_interface_def [abs_def] parse_comptime_def [abs_def]
    parse_kernel_app_def [abs_def]
  by (intro parser_rules method_rules comptime_const_rule kernel_fn_rule; auto simp: order_defs)+

lemma consumes_decl: "consumes (parse_decl n) n"
  unfolding parse_decl_def [abs_def] unexpected_token_def [abs_def]
  by (intro parser_rules hoare_follows [OF follows_decls(1)] hoare_follows [OF follows_decls(2)]
      hoare_follows [OF follows_decls(3)] hoare_follows [OF follows_decls(4)]
      hoare_follows [OF follows_decls(5)] hoare_follows [OF follows_decls(6)]
      hoare_follows [OF follows_decls(7)] hoare_follows [OF follows_bodies(1)]
      hoare_follows [OF follows_bodies(2)] hoare_follows [OF follows_bodies(3)]
      hoare_follows [OF follows_bodies(4)] hoare_follows [OF follows_fn_decl])
    (auto simp: order_defs)

end
