(* ===== verification/Parser_Props.thy ===== *)
theory Parser_Props
  imports Parser_Spec_Decl
begin

text \<open>
  What the parser guarantees on any token list, and what it does not: it always ends, it accepts
  exactly the programs for which it printed no diagnostic and only after it has read them to the
  end, its fixed-size name buffers hold what is written to them, and it leaves the token array only
  after an error; there are inputs on which it does.
\<close>

subsection \<open>The whole parser\<close>

lemma set_package_rule: "Q () a \<Longrightarrow> hoare (set_package s) a Q"
  by (auto simp: hoare_def set_package_def keeps_state_def describes_def intro!: exI [of _ a])

lemma follows_package: "follows (parse_package n) n" "follows (parse_import n) n"
  unfolding parse_package_def [abs_def] parse_import_def [abs_def]
  by (intro parser_rules hoare_keeps [OF keeps_parse_path] set_package_rule; auto simp: order_defs)+

lemma parse_program_rule:
  assumes "bnd a < n"
  shows "hoare (parse_program n) a (\<lambda>_ _. True)"
  unfolding parse_program_def [abs_def] parse_imports_def [abs_def] parse_decls_def [abs_def]
  by (intro parser_rules hoare_follows [OF follows_package(1)] hoare_follows [OF follows_package(2)]
      hoare_loop hoare_consumes [OF consumes_decl]) (use assms in \<open>auto simp: order_defs\<close>)

lemma bind_Done: "bind m f p = Done y q \<longleftrightarrow> (\<exists>x p'. m p = Done x p' \<and> f x p' = Done y q)"
  by (auto simp: bind_def split: outcome.splits)

text \<open>What holds of the result of a loop: an invariant of its accumulator gives it.\<close>

lemma ploop_result:
  assumes "\<And>acc p r q. J acc \<Longrightarrow> body acc p = Done r q \<Longrightarrow> (case r of Inl acc' \<Rightarrow> J acc' | Inr y \<Rightarrow> R y q)"
    and "ploop n body acc p = Done y q" "J acc"
  shows "R y q"
  using assms(2,3)
proof (induction n arbitrary: acc p)
  case (Suc n)
  then obtain r p' where r: "body acc p = Done r p'"
    "(case r of Inl acc' \<Rightarrow> ploop n body acc' | Inr x \<Rightarrow> ret x) p' = Done y q"
    by (auto simp: bind_Done)
  then show ?case
    using assms(1) [OF Suc.prems(2) r(1)] Suc.IH by (cases r) (auto simp: ret_def)
qed (simp add: fail_def)

lemma parse_decls_at_EOF:
  assumes "parse_decls n p = Done ds q"
  shows "ppos q < length (toks q) \<and> tkind (toks q ! ppos q) = TOK_EOF"
  using assms unfolding parse_decls_def
  by (rule ploop_result [where J = "\<lambda>_. True" and R = "\<lambda>_ q. ppos q < length (toks q) \<and> tkind (toks q ! ppos q) = TOK_EOF", rotated])
    (auto simp: bind_Done check_def cur_def ret_def split: if_splits)

lemma parser_init_describes:
  "describes \<lparr>bnd = length ts, nonend = False, erred = False, begun = False\<rparr> (parser_init ts)"
  by (auto simp: describes_def parser_init_def eof_terminated_def)

lemma parse_program_outcome:
  "case parse_program (Suc (length ts)) (parser_init ts) of
     Done prog q \<Rightarrow> toks q = ts \<and> ppos q < length ts \<and> tkind (ts ! ppos q) = TOK_EOF
       \<and> (had_error q \<longleftrightarrow> errs q \<noteq> [])
   | Fault e q \<Rightarrow> e \<noteq> NoFuel \<and> (e = TokenOverrun \<and> eof_terminated ts \<longrightarrow> had_error q)"
proof -
  have h: "hoare (parse_program (Suc (length ts)))
      \<lparr>bnd = length ts, nonend = False, erred = False, begun = False\<rparr> (\<lambda>_ _. True)"
    by (rule parse_program_rule) simp
  note h' = h [unfolded hoare_def, rule_format, OF parser_init_describes]
  show ?thesis
  proof (cases "parse_program (Suc (length ts)) (parser_init ts)")
    case (Done prog q)
    obtain a where "toks q = ts" "describes a q"
      using h' unfolding Done by (auto simp: keeps_state_def parser_init_def)
    moreover have "ppos q < length (toks q) \<and> tkind (toks q ! ppos q) = TOK_EOF"
      using Done by (auto simp: parse_program_def bind_Done ret_def dest: parse_decls_at_EOF)
    ultimately show ?thesis using Done by (simp add: describes_def)
  next
    case (Fault e q)
    then show ?thesis using h' by (simp add: parser_init_def)
  qed
qed

lemma parser_parse_eq:
  "parser_parse ts =
     (case parse_program (Suc (length ts)) (parser_init ts) of
        Done prog q \<Rightarrow> Done (if had_error q then None else Some prog) q
      | Fault e q \<Rightarrow> Fault e q)"
  by (simp add: parser_parse_def bind_def state_def ret_def split: outcome.splits)

lemma eof_terminated_last:
  assumes "eof_terminated ts" "i < length ts" "tkind (ts ! i) = TOK_EOF"
  shows "i = length ts - 1"
proof (rule ccontr)
  assume "i \<noteq> length ts - 1"
  then have "i < length (butlast ts)" using assms(2) by simp
  then have "ts ! i \<in> set (butlast ts)" by (metis nth_butlast nth_mem)
  then show False using assms(1,3) by (simp add: eof_terminated_def)
qed

subsection \<open>The buffers\<close>

lemma path_append_bound: "length b \<le> 255 \<Longrightarrow> length (path_append b t) \<le> 255"
  by (auto simp: path_append_def Let_def)

lemma append_type_token_bound: "length b \<le> 255 \<Longrightarrow> length (append_type_token b 256 t) \<le> 255"
  by (auto simp: append_type_token_def)

lemma gen_args_bound: "length b \<le> 254 \<Longrightarrow> length (snd (gen_args ts b)) \<le> 254"
  by (induction ts b rule: gen_args.induct) (auto split: prod.splits)

lemma parse_path_bound:
  assumes "parse_path n msg b p = Done s q"
  shows "length s \<le> 255"
proof -
  obtain t p' where "ploop n (\<lambda>buf.
      bind (check TOK_DOT) (\<lambda>d.
      if d then bind skip (\<lambda>_.
        bind (expect_path_token (''expected identifier after '' @ in_quotes ''.'') False) (\<lambda>u.
        ret (Inl (path_append buf u))))
      else ret (Inr buf))) (path_start t) p' = Done s q"
    using assms by (auto simp: parse_path_def bind_Done)
  then show ?thesis
    by (rule ploop_result [where J = "\<lambda>s. length s \<le> 255" and R = "\<lambda>s _. length s \<le> 255", rotated])
      (auto simp: bind_Done ret_def path_start_def path_append_bound split: if_splits)
qed

lemma parse_type_args_bound:
  assumes "parse_type_args n b p = Done s q" "length b \<le> 255"
  shows "length s \<le> 255"
  using assms(1) unfolding parse_type_args_def
  by (rule ploop_result [where J = "\<lambda>x. length (snd x) \<le> 255" and R = "\<lambda>s _. length s \<le> 255", rotated])
    (use assms(2) in \<open>auto simp: bind_Done ret_def append_type_token_bound split: if_splits\<close>)

subsection \<open>Properties\<close>

text \<open>C1: The parser always returns. On any list of tokens, well formed or not, the calls of the
  recursive descent and the turns of its loops are bounded by the number of tokens: fuel of one
  more than the tokens is never used up.\<close>

theorem parser_terminates: "parser_parse ts \<noteq> Fault NoFuel q"
  using parse_program_outcome [of ts] by (auto simp: parser_parse_eq split: outcome.splits)

text \<open>C11: When the parser returns on the token list of a source, it stands at the end-of-file token,
  so every token was read, and it returns a tree exactly if it printed no diagnostic.\<close>

theorem parser_accepts_iff_no_diagnostic:
  assumes "eof_terminated ts" "parser_parse ts = Done r q"
  shows "toks q = ts \<and> Suc (ppos q) = length ts \<and> (r = None \<longleftrightarrow> errs q \<noteq> [])"
proof -
  obtain prog where p: "parse_program (Suc (length ts)) (parser_init ts) = Done prog q"
    and r: "r = (if had_error q then None else Some prog)"
    using assms(2) by (auto simp: parser_parse_eq split: outcome.splits)
  have h: "toks q = ts" "ppos q < length ts" "tkind (ts ! ppos q) = TOK_EOF" "had_error q \<longleftrightarrow> errs q \<noteq> []"
    using parse_program_outcome [of ts] p by auto
  then show ?thesis using eof_terminated_last [OF assms(1) h(2,3)] r by auto
qed

definition simple_tok :: "token_kind \<Rightarrow> string \<Rightarrow> token" where
  "simple_tok k s =
     \<lparr>tkind = k, tstart = 0, tlen = length s, tline = 1, tcol = 1, tval = IntVal 0, lexeme = s\<rparr>"

text \<open>The tokens of \<^verbatim>\<open>const N = x ;\<close>\<close>

definition const_toks :: "token list" where
  "const_toks =
    [simple_tok TOK_CONST ''const'', simple_tok TOK_IDENT ''N'', simple_tok TOK_EQ ''='',
     simple_tok TOK_IDENT ''x'', simple_tok TOK_SEMICOLON '';'', simple_tok TOK_EOF []]"

theorem parser_accepts_iff_no_diagnostic_witness:
  "\<exists>prog q. parser_parse const_toks = Done (Some prog) q \<and> errs q = []"
proof -
  have "case parser_parse const_toks of Done (Some prog) q \<Rightarrow> True | _ \<Rightarrow> False" by code_simp
  then obtain prog q where h: "parser_parse const_toks = Done (Some prog) q"
    by (auto split: outcome.splits option.splits)
  have "eof_terminated const_toks" by code_simp
  from parser_accepts_iff_no_diagnostic [OF this h] h show ?thesis by auto
qed

text \<open>C13: On the token list of a source, a read past the token array happens only after the parser
  has reported an error: a program without syntax errors is parsed within bounds.\<close>

theorem parser_in_bounds:
  assumes "eof_terminated ts" "parser_parse ts = Fault TokenOverrun q"
  shows "had_error q"
  using parse_program_outcome [of ts] assms by (auto simp: parser_parse_eq split: outcome.splits)

theorem parser_in_bounds_witness:
  "\<exists>q. parser_parse [simple_tok TOK_PUB ''pub'', simple_tok TOK_EOF []] = Fault TokenOverrun q
     \<and> had_error q"
proof -
  let ?ts = "[simple_tok TOK_PUB ''pub'', simple_tok TOK_EOF []]"
  have "case parser_parse ?ts of Fault e q \<Rightarrow> e = TokenOverrun | _ \<Rightarrow> False" by code_simp
  then obtain q where h: "parser_parse ?ts = Fault TokenOverrun q"
    by (auto split: outcome.splits)
  have "eof_terminated ?ts" by code_simp
  from parser_in_bounds [OF this h] h show ?thesis by blast
qed

text \<open>There are sources on which the parser does read past its token array. The source
  \<^verbatim>\<open>pub\<close> is scanned to two tokens; the parser reports that nothing follows, advances past the
  end-of-file token and reads on. The same happens when a file ends in an expression.\<close>

lemma parser_leaves_token_array:
  "\<exists>tl0 q. lexer_tokenize ''pub'' = Inr tl0 \<and> parser_parse (tokens tl0) = Fault TokenOverrun q
     \<and> ppos q = length (tokens tl0)"
proof -
  have "case lexer_tokenize ''pub'' of
      Inr tl0 \<Rightarrow> (case parser_parse (tokens tl0) of
        Fault e q \<Rightarrow> e = TokenOverrun \<and> ppos q = length (tokens tl0) | _ \<Rightarrow> False)
    | Inl _ \<Rightarrow> False"
    by code_simp
  then show ?thesis by (auto split: sum.splits outcome.splits)
qed

text \<open>C24: The name buffers of the parser (256 bytes each) are large enough for all that is written
  to them and its terminator: dotted paths, named types with their bracketed arguments, and the
  names of generic struct literals.\<close>

theorem name_buffers_bounded:
  "(case parse_path n msg b p of Done s _ \<Rightarrow> length s < 256 | Fault _ _ \<Rightarrow> True)
   \<and> (case parse_named_type n t p of
        Done x _ \<Rightarrow> \<exists>s. nas x = NODE_TYPE_NAMED s \<and> length s < 256 | Fault _ _ \<Rightarrow> True)
   \<and> (case gen_struct_head t p of Done (Some s) _ \<Rightarrow> length s < 256 | _ \<Rightarrow> True)"
proof -
  have "length s < 256" if "parse_path n msg b p = Done s q" for s q
    using parse_path_bound [OF that] by simp
  moreover have "\<exists>s. nas x = NODE_TYPE_NAMED s \<and> length s < 256"
    if h0: "parse_named_type n t p = Done x q" for x q
  proof -
    obtain buf p1 c p2 s where h: "parse_path n ''expected type name'' True p = Done buf p1"
      "(if c then parse_type_args n buf else ret buf) p2 = Done s q" "x = node_new t (NODE_TYPE_NAMED s)"
      using h0 by (auto simp: parse_named_type_def bind_Done ret_def)
    have "length buf \<le> 255" using parse_path_bound [OF h(1)] .
    then have "length s \<le> 255"
      using h(2) parse_type_args_bound by (cases c) (auto simp: ret_def)
    then show ?thesis using h(3) by (simp add: node_new_def)
  qed
  moreover have "length (snd (gen_args (drop (ppos p + 1) (toks p)) (take 200 (lexeme t) @ ''[''))) \<le> 254"
    by (rule gen_args_bound) simp
  then have "length s < 256" if "gen_struct_head t p = Done (Some s) q" for s q
    using that by (auto simp: gen_struct_head_def split: if_splits prod.splits)
  ultimately show ?thesis by (auto split: outcome.splits option.splits)
qed

text \<open>The tokens of a match expression whose pattern has two names of 64 characters.\<close>

definition long_match_toks :: "token list" where
  "long_match_toks =
    [simple_tok TOK_MATCH ''match'', simple_tok TOK_IDENT ''x'', simple_tok TOK_LBRACE ''{'',
     simple_tok TOK_IDENT (replicate 64 CHR ''A''), simple_tok TOK_DOT ''.'',
     simple_tok TOK_IDENT (replicate 64 CHR ''B''), simple_tok TOK_FAT_ARROW ''=>'',
     simple_tok TOK_IDENT ''y'', simple_tok TOK_RBRACE ''}'', simple_tok TOK_EOF []]"

text \<open>The buffer of a match pattern (128 bytes) is read past its end when the names of the enum
  and of the variant have 128 characters or more together: the length that \<^verbatim>\<open>snprintf\<close> returns
  counts what did not fit. No error has been reported then.\<close>

theorem match_pattern_overread:
  "\<exists>q. parse_expr 11 (parser_init long_match_toks) = Fault PatternOverread q \<and> \<not> had_error q"
proof -
  have "case parse_expr 11 (parser_init long_match_toks) of
      Fault e q \<Rightarrow> e = PatternOverread \<and> \<not> had_error q | _ \<Rightarrow> False"
    by code_simp
  then show ?thesis by (auto split: outcome.splits)
qed

end
