(* ===== verification/Parser_Grammar.thy ===== *)
theory Parser_Grammar
  imports Parser_Props
begin

text \<open>
  The grammar of expressions and types that the parser implements, as inductive predicates:
  \<open>renders k e ts\<close> says that the tokens \<open>ts\<close> are a phrase for the tree \<open>e\<close> at precedence level
  \<open>k\<close> (0 assignment, 1 to 10 the binary operators from \<^verbatim>\<open>||\<close> to \<^verbatim>\<open>*\<close>, 11 casts, 12 prefix
  operators, 13 postfix and primary). The theorem at the end: the parser maps every phrase to its
  tree. Left out are indexing, struct literals and \<^verbatim>\<open>match\<close>, which depend on look-ahead.
\<close>

subsection \<open>Running the parser on known tokens\<close>

definition rest :: "parser \<Rightarrow> token list" where
  "rest p = drop (ppos p) (toks p)"

definition adv :: "nat \<Rightarrow> parser \<Rightarrow> parser" where
  "adv n p = p\<lparr>ppos := ppos p + n\<rparr>"

lemma rest_adv [simp]: "rest (adv n p) = drop n (rest p)"
  by (simp add: rest_def adv_def add.commute)

lemma adv_adv [simp]: "adv m (adv n p) = adv (n + m) p"
  by (simp add: adv_def add.assoc)

lemma adv_0 [simp]: "adv 0 p = p"
  by (simp add: adv_def)

lemma bindI: "m p = Done x q \<Longrightarrow> bind m f p = f x q"
  by (simp add: bind_def)

lemma cur_rest: "rest p = t # r \<Longrightarrow> cur p = Done t p"
  by (auto simp: cur_def rest_def dest: drop_eq_ConsD)

lemma skip_adv: "skip p = Done () (adv 1 p)"
  by (simp add: skip_def adv_def)

lemma prev_adv: "rest p = t # r \<Longrightarrow> prev (adv (Suc 0) p) = Done t (adv (Suc 0) p)"
  by (auto simp: prev_def rest_def adv_def dest: drop_eq_ConsD)

lemma check_rest: "rest p = t # r \<Longrightarrow> check k p = Done (tkind t = k) p"
  by (simp add: check_def bind_def cur_rest ret_def)

lemma match_rest:
  "rest p = t # r \<Longrightarrow> match k p = (if tkind t = k then Done True (adv (Suc 0) p) else Done False p)"
  by (simp add: match_def bind_def check_rest skip_adv ret_def)

lemma if_match_rest:
  "rest p = t # r \<Longrightarrow> if_match k a b p = (if tkind t = k then a (adv (Suc 0) p) else b p)"
  by (simp add: if_match_def bind_def match_rest)

lemma dispatch_rest:
  "rest p = t # r \<Longrightarrow>
   dispatch es d p = (case map_of es (tkind t) of Some m \<Rightarrow> m (adv (Suc 0) p) | None \<Rightarrow> d p)"
  by (induction es) (auto simp: if_match_rest)

lemma match_any_rest:
  "rest p = t # r \<Longrightarrow>
   match_any ks p = (if tkind t \<in> set ks then Done True (adv (Suc 0) p) else Done False p)"
  by (induction ks) (auto simp: if_match_rest ret_def)

declare dispatch.simps [simp del] match_any.simps [simp del]

lemma expect_rest: "rest p = t # r \<Longrightarrow> tkind t = k \<Longrightarrow> expect k msg p = Done t (adv (Suc 0) p)"
  by (simp add: expect_def bind_def check_rest skip_adv prev_adv)

lemma ploop_Inr: "body acc p = Done (Inr y) q \<Longrightarrow> 0 < n \<Longrightarrow> ploop n body acc p = Done y q"
  by (cases n) (simp_all add: bind_def ret_def)

lemma ploop_Inl: "body acc p = Done (Inl acc') q \<Longrightarrow> ploop (Suc n) body acc p = ploop n body acc' q"
  by (simp add: bind_def)

lemmas run_simps = bind_def ret_def cur_rest prev_adv check_rest match_rest if_match_rest dispatch_rest
  match_any_rest expect_rest skip_adv opt_match_def unless_check_def

subsection \<open>Types\<close>

inductive renders_type :: "node \<Rightarrow> token list \<Rightarrow> bool" where
  named: "tkind t = TOK_IDENT \<Longrightarrow> renders_type (node_new t (NODE_TYPE_NAMED (take 255 (lexeme t)))) [t]"
| pointer: "tkind s = TOK_STAR \<Longrightarrow> renders_type ty ts \<Longrightarrow>
    renders_type (node_new s (NODE_TYPE_POINTER ty False False)) (s # ts)"
| const_pointer: "tkind s = TOK_STAR \<Longrightarrow> tkind c = TOK_CONST \<Longrightarrow> renders_type ty ts \<Longrightarrow>
    renders_type (node_new s (NODE_TYPE_POINTER ty True False)) (s # c # ts)"
| nullable: "tkind q = TOK_QUESTION \<Longrightarrow> tkind s = TOK_STAR \<Longrightarrow> renders_type ty ts \<Longrightarrow>
    renders_type (node_new q (NODE_TYPE_POINTER ty False True)) (q # s # ts)"
| slice: "tkind b = TOK_LBRACKET \<Longrightarrow> tkind c = TOK_RBRACKET \<Longrightarrow> renders_type ty ts \<Longrightarrow>
    renders_type (node_new b (NODE_TYPE_ARRAY ty (-1))) (b # c # ts)"
| array: "tkind b = TOK_LBRACKET \<Longrightarrow> tkind l = TOK_INT \<Longrightarrow> tkind c = TOK_RBRACKET \<Longrightarrow>
    renders_type ty ts \<Longrightarrow>
    renders_type (node_new b (NODE_TYPE_ARRAY ty (sint (ucast (int_val l) :: 32 word)))) (b # l # c # ts)"

definition type_start :: "token list \<Rightarrow> bool" where
  "type_start ts \<longleftrightarrow> ts \<noteq> [] \<and> tkind (hd ts) \<in> {TOK_IDENT, TOK_STAR, TOK_QUESTION, TOK_LBRACKET}"

lemma renders_type_start: "renders_type ty ts \<Longrightarrow> type_start ts"
  by (induction rule: renders_type.induct) (simp_all add: type_start_def)

lemma parse_type_renders:
  assumes "renders_type ty ts" "rest p = ts @ u # r" "tkind u \<notin> {TOK_DOT, TOK_LBRACKET}" "length ts < m"
  shows "parse_type m p = Done ty (adv (length ts) p)"
  using assms
proof (induction arbitrary: p m rule: renders_type.induct)
  case (named t)
  then obtain n where m: "m = Suc n" by (cases m) auto
  have "ploop m f s p = Done x q" if "f s p = Done (Inr x) q" for f :: "string \<Rightarrow> (string + string) parse" and s x q p
    using that m by (simp add: bind_def ret_def)
  then show ?case
    using named m
    by (simp add: run_simps parse_named_type_def parse_path_def expect_path_token_def is_path_token_def
        path_start_def del: ploop.simps)
next
  case (pointer s ty ts)
  obtain n where m: "m = Suc n" using pointer.prems by (cases m) auto
  have "rest (adv (Suc 0) p) = ts @ u # r" using pointer.prems by simp
  moreover have "ts \<noteq> []" "tkind (hd ts) \<noteq> TOK_CONST"
    using renders_type_start [OF pointer.hyps(2)] by (auto simp: type_start_def)
  ultimately show ?case
    using pointer m by (cases ts) (auto simp: run_simps)
next
  case (const_pointer s c ty ts)
  obtain n where m: "m = Suc n" using const_pointer.prems by (cases m) auto
  then show ?case using const_pointer by (simp add: run_simps)
next
  case (nullable q s ty ts)
  obtain n where m: "m = Suc n" using nullable.prems by (cases m) auto
  moreover have "ts \<noteq> []" "tkind (hd ts) \<noteq> TOK_CONST"
    using renders_type_start [OF nullable.hyps(3)] by (auto simp: type_start_def)
  ultimately show ?case using nullable by (cases ts) (auto simp: run_simps)
next
  case (slice b c ty ts)
  obtain n where m: "m = Suc n" using slice.prems by (cases m) auto
  then show ?case using slice by (simp add: run_simps parse_array_length_def)
next
  case (array b l c ty ts)
  obtain n where m: "m = Suc n" using array.prems by (cases m) auto
  then show ?case using array by (simp add: run_simps parse_array_length_def)
qed

subsection \<open>Expressions\<close>

text \<open>The operators of the levels 0 (right associative) to 10 (left associative).\<close>

definition OPS :: "token_kind list list" where
  "OPS =
    [[TOK_EQ, TOK_PLUS_EQ, TOK_MINUS_EQ, TOK_STAR_EQ, TOK_SLASH_EQ, TOK_PERCENT_EQ],
     [TOK_OROR], [TOK_ANDAND], [TOK_PIPE], [TOK_CARET], [TOK_AMP], [TOK_EQEQ, TOK_NE],
     [TOK_LT, TOK_GT, TOK_LE, TOK_GE], [TOK_LSHIFT, TOK_RSHIFT], [TOK_PLUS, TOK_MINUS],
     [TOK_STAR, TOK_SLASH, TOK_PERCENT]]"

definition PREFIX_OPS :: "token_kind set" where
  "PREFIX_OPS = {TOK_BANG, TOK_MINUS, TOK_STAR, TOK_AMP, TOK_TILDE}"

text \<open>The trees of one token, and the operator of a compound assignment.\<close>

definition leaf :: "token \<Rightarrow> node_as option" where
  "leaf t =
     (case tkind t of
        TOK_INT \<Rightarrow> Some (NODE_LIT_INT (int_val t))
      | TOK_FLOAT \<Rightarrow> Some (NODE_LIT_FLOAT (float_val t))
      | TOK_STRING \<Rightarrow> Some (NODE_LIT_STRING (c_string (str_val t)))
      | TOK_CHAR \<Rightarrow> Some (NODE_LIT_CHAR (int_val t))
      | TOK_TRUE \<Rightarrow> Some (NODE_LIT_BOOL True)
      | TOK_FALSE \<Rightarrow> Some (NODE_LIT_BOOL False)
      | TOK_NULL \<Rightarrow> Some NODE_LIT_NULL
      | TOK_IDENT \<Rightarrow> Some (NODE_IDENT (lexeme t))
      | TOK_SELF \<Rightarrow> Some (NODE_IDENT (lexeme t))
      | _ \<Rightarrow> None)"

definition assign_op :: "token \<Rightarrow> string option" where
  "assign_op t =
     map_of [(TOK_PLUS_EQ, ''+''), (TOK_MINUS_EQ, ''-''), (TOK_STAR_EQ, ''*''), (TOK_SLASH_EQ, ''/''),
       (TOK_PERCENT_EQ, ''%'')] (tkind t)"

inductive renders :: "nat \<Rightarrow> node \<Rightarrow> token list \<Rightarrow> bool"
  and renders_args :: "node list \<Rightarrow> token list \<Rightarrow> bool" where
  leaf: "leaf t = Some a \<Longrightarrow> renders 13 (node_new t a) [t]"
| group: "tkind o1 = TOK_LPAREN \<Longrightarrow> renders 0 e ts \<Longrightarrow> tkind c = TOK_RPAREN \<Longrightarrow>
    renders 13 (node_new o1 (NODE_GROUP e)) (o1 # ts @ [c])"
| field: "renders 13 e ts \<Longrightarrow> tkind d = TOK_DOT \<Longrightarrow> tkind f = TOK_IDENT \<Longrightarrow>
    renders 13 (node_new f (NODE_FIELD e (lexeme f))) (ts @ [d, f])"
| call0: "renders 13 e ts \<Longrightarrow> tkind o1 = TOK_LPAREN \<Longrightarrow> tkind c = TOK_RPAREN \<Longrightarrow>
    renders 13 (node_new o1 (NODE_CALL e [])) (ts @ [o1, c])"
| call: "renders 13 e ts \<Longrightarrow> tkind o1 = TOK_LPAREN \<Longrightarrow> renders_args es us \<Longrightarrow> tkind c = TOK_RPAREN \<Longrightarrow>
    renders 13 (node_new o1 (NODE_CALL e es)) (ts @ o1 # us @ [c])"
| question: "renders 13 e ts \<Longrightarrow> tkind q = TOK_QUESTION \<Longrightarrow>
    renders 13 (node_new q (NODE_UNARY (lexeme q) e)) (ts @ [q])"
| incr: "renders 13 e ts \<Longrightarrow> tkind i \<in> {TOK_PLUSPLUS, TOK_MINUSMINUS} \<Longrightarrow>
    renders 13 (incr_node i e) (ts @ [i])"
| prefix: "tkind t \<in> PREFIX_OPS \<Longrightarrow> renders 12 e ts \<Longrightarrow>
    renders 12 (node_new t (NODE_UNARY (lexeme t) e)) (t # ts)"
| cast: "renders 11 e ts \<Longrightarrow> tkind a = TOK_AS \<Longrightarrow> renders_type ty us \<Longrightarrow>
    renders 11 (node_new a (NODE_CAST e ty)) (ts @ a # us)"
| binary: "1 \<le> k \<Longrightarrow> k \<le> 10 \<Longrightarrow> renders k e ts \<Longrightarrow> tkind b \<in> set (OPS ! k) \<Longrightarrow> renders (Suc k) f us \<Longrightarrow>
    renders k (node_new b (NODE_BINARY (lexeme b) e f)) (ts @ b # us)"
| assign: "renders 1 e ts \<Longrightarrow> tkind a \<in> set (OPS ! 0) \<Longrightarrow> renders 0 f us \<Longrightarrow>
    renders 0 (node_new a (NODE_ASSIGN e f (assign_op a))) (ts @ a # us)"
| higher: "k \<le> 12 \<Longrightarrow> renders (Suc k) e ts \<Longrightarrow> renders k e ts"
| arg: "renders 0 e ts \<Longrightarrow> renders_args [e] ts"
| args: "renders 0 e ts \<Longrightarrow> tkind c = TOK_COMMA \<Longrightarrow> renders_args es us \<Longrightarrow>
    renders_args (e # es) (ts @ c # us)"

text \<open>The parser of each level, and the kinds that make a phrase of a level go on.\<close>

definition LEVELS :: "(node parse \<Rightarrow> nat \<Rightarrow> node parse) list" where
  "LEVELS = [parse_assign, parse_logical_or, parse_logical_and, parse_bitwise_or, parse_bitwise_xor,
     parse_bitwise_and, parse_equality, parse_comparison, parse_shift, parse_term, parse_factor,
     parse_cast, parse_unary, parse_postfix]"

definition conts :: "nat \<Rightarrow> token_kind set" where
  "conts k = {TOK_LBRACE, TOK_LBRACKET}
     \<union> (if k \<le> 13 then {TOK_LPAREN, TOK_DOT, TOK_QUESTION, TOK_PLUSPLUS, TOK_MINUSMINUS} else {})
     \<union> (if k \<le> 11 then {TOK_AS} else {}) \<union> (\<Union>j \<in> {k..10}. set (OPS ! j))"

definition ends :: "nat \<Rightarrow> token list \<Rightarrow> bool" where
  "ends k r \<longleftrightarrow> r \<noteq> [] \<and> tkind (hd r) \<notin> conts k"

lemma ends_Suc: "ends k r \<Longrightarrow> ends (Suc k) r"
  by (auto simp: ends_def conts_def split: if_splits)

lemma level_cases: "1 \<le> k \<Longrightarrow> k \<le> (10::nat) \<Longrightarrow> k \<in> {1, 2, 3, 4, 5, 6, 7, 8, 9, 10}"
  by simp presburger

lemma level_binop:
  assumes "1 \<le> k" "k \<le> 10"
  shows "(LEVELS ! k) pe n = parse_binop ((LEVELS ! Suc k) pe n) (OPS ! k) n"
  using level_cases [OF assms]
  by (auto simp: LEVELS_def OPS_def binop_level_defs)

lemma OPS_not_conts:
  assumes "k \<le> 10" "o1 \<in> set (OPS ! k)"
  shows "o1 \<notin> conts (Suc k)"
proof -
  have "\<forall>k \<in> {0..10}. \<forall>o1 \<in> set (OPS ! k). o1 \<notin> conts (Suc k)"
    unfolding conts_def by code_simp
  then show ?thesis using assms by simp
qed

lemma closers: "TOK_RPAREN \<notin> conts 0" "TOK_COMMA \<notin> conts 0" "TOK_SEMICOLON \<notin> conts 0"
  unfolding conts_def by code_simp+

text \<open>The loop of a level, on a tree that is complete so far.\<close>

definition step :: "nat \<Rightarrow> node parse \<Rightarrow> nat \<Rightarrow> node \<Rightarrow> (node + node) parse" where
  "step k pe n =
     (if k = 13 then postfix_step pe n
      else if k = 11 then
        (\<lambda>e. if_match TOK_AS
          (bind prev (\<lambda>a. bind (parse_type n) (\<lambda>ty. ret (Inl (node_new a (NODE_CAST e ty))))))
          (ret (Inr e)))
      else
        (\<lambda>e. bind (match_any (OPS ! k)) (\<lambda>m. if m then
          bind prev (\<lambda>a. bind ((LEVELS ! Suc k) pe n) (\<lambda>f.
            ret (Inl (node_new a (NODE_BINARY (intern a) e f)))))
          else ret (Inr e))))"

definition base :: "nat \<Rightarrow> node parse \<Rightarrow> nat \<Rightarrow> node parse" where
  "base k = (if k = 13 then parse_primary else LEVELS ! Suc k)"

lemma level_loop:
  assumes "1 \<le> k" "k \<le> 13" "k \<noteq> 12"
  shows "(LEVELS ! k) pe n = bind (base k pe n) (ploop n (step k pe n))"
proof -
  consider "k \<le> 10" | "k = 11" | "k = 13" using assms by linarith
  then show ?thesis
  proof cases
    case 1
    then show ?thesis
      using assms level_binop [OF assms(1) 1, of pe n]
      by (simp add: base_def step_def parse_binop_def [abs_def])
  next
    case 2
    then show ?thesis by (simp add: base_def step_def LEVELS_def parse_cast_def [abs_def])
  next
    case 3
    then show ?thesis by (simp add: base_def step_def LEVELS_def parse_postfix_def [abs_def])
  qed
qed

lemma step_ends:
  assumes "1 \<le> k" "k \<le> 13" "k \<noteq> 12" "rest p = r" "ends k r"
  shows "step k pe n e p = Done (Inr e) p"
proof -
  obtain t r' where r: "rest p = t # r'" "tkind t \<notin> conts k"
    using assms(4,5) by (cases r) (auto simp: ends_def)
  consider "k \<le> 10" | "k = 11" | "k = 13" using assms by linarith
  then show ?thesis
  proof cases
    case 1
    then have "tkind t \<notin> set (OPS ! k)" using r(2) by (auto simp: conts_def)
    then show ?thesis using 1 r(1) by (simp add: step_def run_simps)
  next
    case 2
    then show ?thesis using r by (simp add: step_def run_simps conts_def)
  next
    case 3
    then show ?thesis using r by (simp add: step_def run_simps conts_def postfix_step_def)
  qed
qed

definition LEAVES :: "token_kind set" where
  "LEAVES = {TOK_INT, TOK_FLOAT, TOK_STRING, TOK_CHAR, TOK_TRUE, TOK_FALSE, TOK_NULL, TOK_IDENT, TOK_SELF}"

lemma leaf_kind: "leaf t = Some a \<Longrightarrow> tkind t \<in> LEAVES"
  by (auto simp: leaf_def LEAVES_def split: token_kind.splits)

definition starts :: "nat \<Rightarrow> token list \<Rightarrow> bool" where
  "starts k ts \<longleftrightarrow> ts \<noteq> [] \<and>
     tkind (hd ts) \<in> LEAVES \<union> {TOK_LPAREN} \<union> (if k \<le> 12 then PREFIX_OPS else {})"

lemma renders_starts:
  "renders k e ts \<Longrightarrow> starts k ts" "renders_args es us \<Longrightarrow> starts 0 us"
  by (induction rule: renders_renders_args.inducts)
    (auto simp: starts_def dest: leaf_kind split: if_splits)

text \<open>What is shown by induction: the loops of a level build the tree and leave the rest.\<close>

definition done_at :: "nat \<Rightarrow> node \<Rightarrow> token list \<Rightarrow> bool" where
  "done_at k e ts \<longleftrightarrow> (\<forall>n m p r. rest p = ts @ r \<longrightarrow> ends k r \<longrightarrow> length ts \<le> n \<longrightarrow> length ts < m \<longrightarrow>
     (LEVELS ! k) (parse_expr n) m p = Done e (adv (length ts) p))"

definition loop_at :: "nat \<Rightarrow> node \<Rightarrow> token list \<Rightarrow> bool" where
  "loop_at k e ts \<longleftrightarrow> (\<forall>n m p r. rest p = ts @ r \<longrightarrow> ends (Suc k) r \<longrightarrow> length ts \<le> n \<longrightarrow> length ts < m \<longrightarrow>
     (\<exists>j. j < length ts \<and> (LEVELS ! k) (parse_expr n) m p
        = ploop (m - j) (step k (parse_expr n) m) e (adv (length ts) p)))"

definition parses_at :: "nat \<Rightarrow> node \<Rightarrow> token list \<Rightarrow> bool" where
  "parses_at k e ts \<longleftrightarrow> k \<le> 13 \<and> (if k = 0 \<or> k = 12 then done_at k e ts else loop_at k e ts)"

lemma loop_done:
  assumes "loop_at k e ts" "1 \<le> k" "k \<le> 13" "k \<noteq> 12"
  shows "done_at k e ts"
  unfolding done_at_def
proof (intro allI impI)
  fix n m p r
  assume h: "rest p = ts @ r" "ends k r" "length ts \<le> n" "length ts < m"
  obtain j where j: "j < length ts" "(LEVELS ! k) (parse_expr n) m p
      = ploop (m - j) (step k (parse_expr n) m) e (adv (length ts) p)"
    using assms(1) h ends_Suc [OF h(2)] unfolding loop_at_def by blast
  have "step k (parse_expr n) m e (adv (length ts) p) = Done (Inr e) (adv (length ts) p)"
    using h by (intro step_ends [OF assms(2-4)]) auto
  then show "(LEVELS ! k) (parse_expr n) m p = Done e (adv (length ts) p)"
    using j h(4) by (simp add: ploop_Inr)
qed

lemma parses_done: "parses_at k e ts \<Longrightarrow> done_at k e ts"
  using loop_done by (cases "k = 0 \<or> k = 12") (auto simp: parses_at_def)

text \<open>A base of a level followed by its loop, and one turn of the loop.\<close>

lemma loop_start:
  assumes "1 \<le> k" "k \<le> 13" "k \<noteq> 12" "ts \<noteq> []"
    and "\<And>n m p r. rest p = ts @ r \<Longrightarrow> ends (Suc k) r \<Longrightarrow> length ts \<le> n \<Longrightarrow> length ts < m \<Longrightarrow>
      base k (parse_expr n) m p = Done e (adv (length ts) p)"
  shows "loop_at k e ts"
  unfolding loop_at_def
proof (intro allI impI exI [of _ 0] conjI)
  fix n m p r
  assume "rest p = ts @ r" "ends (Suc k) r" "length ts \<le> n" "length ts < m"
  then show "(LEVELS ! k) (parse_expr n) m p = ploop (m - 0) (step k (parse_expr n) m) e (adv (length ts) p)"
    using assms(5) level_loop [OF assms(1-3)] by (simp add: bindI)
qed (use assms(4) in simp)

lemma loop_step:
  assumes "loop_at k e ts" "us \<noteq> []" "tkind (hd us) \<notin> conts (Suc k)"
    and "\<And>n m p r. rest p = us @ r \<Longrightarrow> ends (Suc k) r \<Longrightarrow> length us \<le> n \<Longrightarrow> length us < m \<Longrightarrow>
      step k (parse_expr n) m e p = Done (Inl e') (adv (length us) p)"
  shows "loop_at k e' (ts @ us)"
  unfolding loop_at_def
proof (intro allI impI)
  fix n m p r
  assume h: "rest p = (ts @ us) @ r" "ends (Suc k) r" "length (ts @ us) \<le> n" "length (ts @ us) < m"
  let ?step = "step k (parse_expr n) m" and ?p = "adv (length ts) p"
  have "ends (Suc k) (us @ r)" using assms(2,3) by (simp add: ends_def)
  moreover have "rest p = ts @ (us @ r)" "length ts \<le> n" "length ts < m" using h by simp_all
  ultimately obtain j where j: "j < length ts" "(LEVELS ! k) (parse_expr n) m p = ploop (m - j) ?step e ?p"
    using assms(1) unfolding loop_at_def by blast
  have "?step e ?p = Done (Inl e') (adv (length us) ?p)"
    using h by (intro assms(4)) auto
  moreover have "m - j = Suc (m - Suc j)" using j(1) h(4) by simp
  ultimately have "(LEVELS ! k) (parse_expr n) m p = ploop (m - Suc j) ?step e' (adv (length (ts @ us)) p)"
    using j(2) by (simp del: ploop.simps add: ploop_Inl)
  then show "\<exists>j. j < length (ts @ us) \<and> (LEVELS ! k) (parse_expr n) m p
      = ploop (m - j) ?step e' (adv (length (ts @ us)) p)"
    using j(1) assms(2) by (intro exI [of _ "Suc j"]) (auto simp: Suc_le_eq intro: le_less_trans)
qed

lemma expr_done:
  assumes "done_at 0 e ts" "rest p = ts @ r" "ends 0 r" "length ts < n"
  shows "parse_expr n p = Done e (adv (length ts) p)"
  using assms by (cases n) (auto simp: done_at_def LEVELS_def simp del: parse_assign.simps)

definition args_at :: "node list \<Rightarrow> token list \<Rightarrow> bool" where
  "args_at es ts \<longleftrightarrow> (\<forall>n m p r xs. rest p = ts @ r \<longrightarrow> r \<noteq> [] \<longrightarrow> tkind (hd r) = TOK_RPAREN \<longrightarrow>
     length ts < n \<longrightarrow> length ts < m \<longrightarrow>
     ploop m (\<lambda>xs. bind (parse_expr n) (\<lambda>x. bind (match TOK_COMMA) (\<lambda>c.
       ret (if c then Inl (xs @ [x]) else Inr (xs @ [x]))))) xs p = Done (xs @ es) (adv (length ts) p))"

lemma primary_leaf:
  assumes "leaf t = Some a" "rest p = t # r" "ends 14 r"
  shows "parse_primary pe m p = Done (node_new t a) (adv (Suc 0) p)"
proof -
  obtain u r' where r: "r = u # r'" "tkind u \<noteq> TOK_LBRACE" "tkind u \<noteq> TOK_LBRACKET"
    using assms(3) by (cases r) (auto simp: ends_def conts_def)
  have "tkind t \<in> LEAVES" using leaf_kind [OF assms(1)] .
  then show ?thesis
    using assms(1,2) r
    by (auto simp: LEAVES_def run_simps parse_primary_def parse_literal_def parse_ident_def leaf_def intern_def)
qed

lemma primary_group:
  assumes "done_at 0 e ts" "tkind o1 = TOK_LPAREN" "tkind c = TOK_RPAREN"
    "rest p = o1 # ts @ c # r" "Suc (length ts) \<le> n"
  shows "parse_primary (parse_expr n) m p = Done (node_new o1 (NODE_GROUP e)) (adv (length ts + 2) p)"
proof -
  have "parse_expr n (adv (Suc 0) p) = Done e (adv (Suc (length ts)) p)"
    using expr_done [OF assms(1), of "adv (Suc 0) p" "c # r" n] assms(3-5)
    by (simp add: ends_def closers)
  then show ?thesis
    using assms(2-4) by (simp add: run_simps parse_primary_def parse_literal_def parse_group_def del: parse_expr.simps)
qed

subsection \<open>Every phrase is parsed to its tree\<close>

lemma postfix_loop_step:
  assumes "loop_at 13 e ts" "us \<noteq> []"
    "tkind (hd us) \<in> {TOK_LPAREN, TOK_DOT, TOK_QUESTION, TOK_PLUSPLUS, TOK_MINUSMINUS}"
    and "\<And>n m p r. rest p = us @ r \<Longrightarrow> length us \<le> n \<Longrightarrow> length us < m \<Longrightarrow>
      postfix_step (parse_expr n) m e p = Done (Inl e') (adv (length us) p)"
  shows "parses_at 13 e' (ts @ us)"
proof -
  have "tkind (hd us) \<notin> conts (Suc 13)" using assms(3) by (auto simp: conts_def)
  then have "loop_at 13 e' (ts @ us)"
    using assms(4) by (intro loop_step [OF assms(1,2)]) (simp_all add: step_def)
  then show ?thesis by (simp add: parses_at_def)
qed

lemma call_step:
  assumes "args_at es us" "starts 0 us" "tkind o1 = TOK_LPAREN" "tkind c = TOK_RPAREN"
    "rest p = o1 # us @ c # r" "Suc (Suc (length us)) \<le> n" "Suc (length us) < m"
  shows "postfix_step (parse_expr n) m e p =
    Done (Inl (node_new o1 (NODE_CALL e es))) (adv (length us + 2) p)"
proof -
  have q: "rest (adv (Suc 0) p) = us @ c # r" using assms(5) by simp
  obtain u us' where u: "us = u # us'" "tkind u \<noteq> TOK_RPAREN"
    using assms(2) by (cases us) (auto simp: starts_def LEAVES_def PREFIX_OPS_def)
  have "comma_list m (parse_expr n) (adv (Suc 0) p) = Done es (adv (length us) (adv (Suc 0) p))"
    using assms(1) q assms(4,6,7)
    unfolding comma_list_def args_at_def by (fastforce simp: ends_def closers)
  then show ?thesis
    using assms(3-5) u
    by (simp add: run_simps postfix_step_def parse_call_args_def del: parse_expr.simps ploop.simps)
qed

lemma parses_prefix:
  assumes "tkind t \<in> PREFIX_OPS" "done_at 12 e ts"
  shows "parses_at 12 (node_new t (NODE_UNARY (lexeme t) e)) (t # ts)"
  unfolding parses_at_def done_at_def
proof (simp, intro allI impI)
  fix n m p r
  assume h: "rest p = t # ts @ r" "ends 12 r" "Suc (length ts) \<le> n" "Suc (length ts) < m"
  obtain m' where m: "m = Suc m'" using h(4) by (cases m) auto
  have "parse_unary (parse_expr n) m' (adv (Suc 0) p) = Done e (adv (Suc (length ts)) p)"
    using assms(2) [unfolded done_at_def, rule_format, of "adv (Suc 0) p" r n m'] h m
    by (simp add: LEVELS_def)
  then show "(LEVELS ! 12) (parse_expr n) m p
      = Done (node_new t (NODE_UNARY (lexeme t) e)) (adv (Suc (length ts)) p)"
    using assms(1) h(1) m
    by (auto simp: LEVELS_def run_simps PREFIX_OPS_def intern_def simp del: parse_expr.simps)
qed

lemma compound_op_rest:
  "rest p = t # r \<Longrightarrow> compound_op p =
     (case assign_op t of Some s \<Rightarrow> Done (Some s) (adv (Suc 0) p) | None \<Rightarrow> Done None p)"
  by (simp add: compound_op_def dispatch_rest assign_op_def ret_def)

lemma assign_op_cases: "tkind a \<in> set (OPS ! 0) \<Longrightarrow> tkind a = TOK_EQ \<and> assign_op a = None \<or> assign_op a \<noteq> None"
  and assign_op_None: "tkind a \<notin> set (OPS ! 0) \<Longrightarrow> tkind a \<noteq> TOK_EQ \<and> assign_op a = None"
  by (auto simp: OPS_def assign_op_def)

lemma parses_assign:
  assumes "done_at 1 e ts" "tkind a \<in> set (OPS ! 0)" "done_at 0 f us"
  shows "parses_at 0 (node_new a (NODE_ASSIGN e f (assign_op a))) (ts @ a # us)"
  unfolding parses_at_def done_at_def
proof (simp, intro allI impI)
  fix n m p r
  assume h: "rest p = ts @ a # us @ r" "ends 0 r" "Suc (length ts + length us) \<le> n"
    "Suc (length ts + length us) < m"
  obtain m' where m: "m = Suc m'" using h(4) by (cases m) auto
  let ?p = "adv (length ts) p"
  have e1: "ends 1 (a # us @ r)" using OPS_not_conts [of 0 "tkind a"] assms(2) by (simp add: ends_def)
  have "parse_logical_or (parse_expr n) m p = Done e ?p"
    using assms(1) [unfolded done_at_def, rule_format, OF h(1) e1, of n m] h(3,4)
    by (simp add: LEVELS_def)
  moreover have "parse_assign (parse_expr n) m' (adv (Suc 0) ?p) = Done f (adv (Suc (length ts + length us)) p)"
    using assms(3) [unfolded done_at_def, rule_format, of "adv (Suc 0) ?p" r n m'] h m
    by (simp add: LEVELS_def)
  moreover have "rest ?p = a # us @ r" using h(1) by simp
  moreover note prev_adv [OF this]
  ultimately show "(LEVELS ! 0) (parse_expr n) m p
      = Done (node_new a (NODE_ASSIGN e f (assign_op a))) (adv (Suc (length ts + length us)) p)"
    using m assign_op_cases [OF assms(2)]
    by (auto simp: LEVELS_def run_simps compound_op_rest simp del: parse_expr.simps)
qed

lemma parses_higher:
  assumes "k \<le> 12" "parses_at (Suc k) e ts" "starts (Suc k) ts"
  shows "parses_at k e ts"
proof -
  have d: "done_at (Suc k) e ts" using parses_done [OF assms(2)] .
  have ne: "ts \<noteq> []" using assms(3) by (simp add: starts_def)
  consider "k = 0" | "1 \<le> k" "k \<le> 11" | "k = 12" using assms(1) by linarith
  then show ?thesis
  proof cases
    case 1
    have "parse_assign (parse_expr n) m p = Done e (adv (length ts) p)"
      if h: "rest p = ts @ r" "ends 0 r" "length ts \<le> n" "length ts < m" for n m p r
    proof -
      obtain m' where m: "m = Suc m'" using h(4) by (cases m) auto
      obtain u r' where r: "r = u # r'" "tkind u \<notin> set (OPS ! 0)"
        using h(2) by (cases r) (auto simp: ends_def conts_def)
      have "parse_logical_or (parse_expr n) m p = Done e (adv (length ts) p)"
        using d [unfolded done_at_def, rule_format, OF h(1) _ h(3,4)] ends_Suc [OF h(2)] 1
        by (simp add: LEVELS_def)
      then show ?thesis
        using h(1) r m assign_op_None [OF r(2)]
        by (simp add: run_simps compound_op_rest del: parse_expr.simps)
    qed
    then show ?thesis using 1 by (auto simp: parses_at_def done_at_def LEVELS_def)
  next
    case 2
    then have "loop_at k e ts"
      using d ne unfolding done_at_def by (intro loop_start) (auto simp: base_def)
    then show ?thesis using 2 by (simp add: parses_at_def)
  next
    case 3
    have "parse_unary (parse_expr n) m p = Done e (adv (length ts) p)"
      if h: "rest p = ts @ r" "ends 12 r" "length ts \<le> n" "length ts < m" for n m p r
    proof -
      obtain m' where m: "m = Suc m'" using h(4) by (cases m) auto
      obtain u us where u: "ts = u # us" "tkind u \<notin> PREFIX_OPS"
        using assms(3) 3 by (cases ts) (auto simp: starts_def LEAVES_def PREFIX_OPS_def)
      have "parse_postfix (parse_expr n) m p = Done e (adv (length ts) p)"
        using d [unfolded done_at_def, rule_format, OF h(1) _ h(3,4)] ends_Suc [OF h(2)] 3
        by (simp add: LEVELS_def)
      then show ?thesis
        using h(1) u m by (auto simp: run_simps PREFIX_OPS_def simp del: parse_expr.simps)
    qed
    then show ?thesis using 3 by (auto simp: parses_at_def done_at_def LEVELS_def)
  qed
qed

lemma cast_step:
  assumes "tkind a = TOK_AS" "renders_type ty us" "rest p = a # us @ r" "ends 12 r" "Suc (length us) < m"
  shows "step 11 pe m e p = Done (Inl (node_new a (NODE_CAST e ty))) (adv (Suc (length us)) p)"
proof -
  obtain u r' where r: "r = u # r'" "tkind u \<notin> {TOK_DOT, TOK_LBRACKET}"
    using assms(4) by (cases r) (auto simp: ends_def conts_def)
  have "parse_type m (adv (Suc 0) p) = Done ty (adv (Suc (length us)) p)"
    using parse_type_renders [OF assms(2), of "adv (Suc 0) p" u r' m] assms(3,5) r by simp
  then show ?thesis using assms(1,3) by (simp add: step_def run_simps)
qed

lemma binary_step:
  assumes "k \<le> 10" "tkind b \<in> set (OPS ! k)" "done_at (Suc k) f us" "rest p = b # us @ r" "ends (Suc k) r"
    "Suc (length us) \<le> n" "Suc (length us) < m"
  shows "step k (parse_expr n) m e p = Done (Inl (node_new b (NODE_BINARY (lexeme b) e f))) (adv (Suc (length us)) p)"
proof -
  have "(LEVELS ! Suc k) (parse_expr n) m (adv (Suc 0) p) = Done f (adv (Suc (length us)) p)"
    using assms(3) [unfolded done_at_def, rule_format, of "adv (Suc 0) p" r n m] assms(4-7) by simp
  then show ?thesis using assms(1,2,4) by (simp add: step_def run_simps intern_def)
qed

lemma args_step:
  assumes "done_at 0 e ts" "rest p = ts @ c # r" "tkind c \<in> {TOK_COMMA, TOK_RPAREN}" "length ts < n"
  shows "bind (parse_expr n) (\<lambda>x. bind (match TOK_COMMA) (\<lambda>c.
      ret (if c then Inl (xs @ [x]) else Inr (xs @ [x])))) p
    = (if tkind c = TOK_COMMA then Done (Inl (xs @ [e])) (adv (Suc (length ts)) p)
       else Done (Inr (xs @ [e])) (adv (length ts) p))"
proof -
  have "ends 0 (c # r)" using assms(3) closers by (auto simp: ends_def)
  then have "parse_expr n p = Done e (adv (length ts) p)"
    using expr_done [OF assms(1,2)] assms(4) by simp
  moreover have "rest (adv (length ts) p) = c # r" using assms(2) by simp
  ultimately show ?thesis by (simp add: run_simps)
qed

lemma args_done:
  assumes "done_at 0 e ts"
  shows "args_at [e] ts"
  unfolding args_at_def
proof (intro allI impI)
  fix n m p r and xs :: "node list"
  assume h: "rest p = ts @ r" "r \<noteq> []" "tkind (hd r) = TOK_RPAREN" "length ts < n" "length ts < m"
  then obtain c r' where r: "r = c # r'" "tkind c = TOK_RPAREN" by (cases r) auto
  show "ploop m (\<lambda>xs. bind (parse_expr n) (\<lambda>x. bind (match TOK_COMMA) (\<lambda>c.
      ret (if c then Inl (xs @ [x]) else Inr (xs @ [x]))))) xs p = Done (xs @ [e]) (adv (length ts) p)"
    using h r by (intro ploop_Inr, subst args_step [OF assms]) auto
qed

lemma args_more:
  assumes "done_at 0 e ts" "tkind c = TOK_COMMA" "args_at es us"
  shows "args_at (e # es) (ts @ c # us)"
  unfolding args_at_def
proof (intro allI impI)
  fix n m p r and xs :: "node list"
  let ?body = "\<lambda>xs. bind (parse_expr n) (\<lambda>x. bind (match TOK_COMMA) (\<lambda>c.
      ret (if c then Inl (xs @ [x]) else Inr (xs @ [x]))))"
  assume h: "rest p = (ts @ c # us) @ r" "r \<noteq> []" "tkind (hd r) = TOK_RPAREN"
    "length (ts @ c # us) < n" "length (ts @ c # us) < m"
  obtain m' where m: "m = Suc m'" using h(5) by (cases m) auto
  have "?body xs p = Done (Inl (xs @ [e])) (adv (Suc (length ts)) p)"
    using args_step [OF assms(1), of p c "us @ r" n xs] h(1,4) assms(2) by simp
  moreover have "ploop m' ?body (xs @ [e]) (adv (Suc (length ts)) p)
      = Done ((xs @ [e]) @ es) (adv (length us) (adv (Suc (length ts)) p))"
    using assms(3) [unfolded args_at_def, rule_format, of "adv (Suc (length ts)) p" r n m' "xs @ [e]"] h m
    by simp
  ultimately show "ploop m ?body xs p = Done (xs @ e # es) (adv (length (ts @ c # us)) p)"
    using m by (simp add: ploop_Inl del: ploop.simps)
qed

lemma renders_parses:
  "renders k e ts \<Longrightarrow> parses_at k e ts"
  "renders_args es us \<Longrightarrow> args_at es us"
proof (induction rule: renders_renders_args.inducts)
  case (leaf t a)
  have "loop_at 13 (node_new t a) [t]"
    by (rule loop_start) (use primary_leaf [OF leaf] in \<open>auto simp: base_def\<close>)
  then show ?case by (simp add: parses_at_def)
next
  case (group o1 e ts c)
  have "loop_at 13 (node_new o1 (NODE_GROUP e)) (o1 # ts @ [c])"
    by (rule loop_start)
      (use primary_group [OF parses_done [OF group.IH] group.hyps(1,3)] in \<open>auto simp: base_def\<close>)
  then show ?case by (simp add: parses_at_def)
next
  case (field e ts d f)
  then show ?case
    by (intro postfix_loop_step [of e]) (auto simp: parses_at_def postfix_step_def run_simps parse_field_def intern_def
        simp del: parse_expr.simps)
next
  case (call0 e ts o1 c)
  then show ?case
    by (intro postfix_loop_step [of e]) (auto simp: parses_at_def postfix_step_def run_simps parse_call_args_def
        simp del: parse_expr.simps)
next
  case (call e ts o1 es us c)
  then show ?case
    using call_step [OF call.IH(2) renders_starts(2)]
    by (intro postfix_loop_step [of e]) (auto simp: parses_at_def)
next
  case (question e ts q)
  then show ?case
    by (intro postfix_loop_step [of e]) (auto simp: parses_at_def postfix_step_def run_simps intern_def
        simp del: parse_expr.simps)
next
  case (incr e ts i)
  then show ?case
    by (intro postfix_loop_step [of e]) (auto simp: parses_at_def postfix_step_def run_simps
        simp del: parse_expr.simps)
next
  case (prefix t e ts)
  then show ?case using parses_prefix parses_done by blast
next
  case (cast e ts a ty us)
  have "loop_at 11 (node_new a (NODE_CAST e ty)) (ts @ a # us)"
    by (rule loop_step [of 11 e]) (use cast cast_step in \<open>auto simp: parses_at_def conts_def OPS_def\<close>)
  then show ?case by (simp add: parses_at_def)
next
  case (binary k e ts b f us)
  have "loop_at k (node_new b (NODE_BINARY (lexeme b) e f)) (ts @ b # us)"
    by (rule loop_step [of k e])
      (use binary binary_step [OF _ _ parses_done] OPS_not_conts in \<open>auto simp: parses_at_def\<close>)
  then show ?case using binary by (simp add: parses_at_def)
next
  case (assign e ts a f us)
  then show ?case using parses_assign parses_done by blast
next
  case (higher k e ts)
  then show ?case using parses_higher renders_starts(1) by blast
next
  case (arg e ts)
  then show ?case using args_done parses_done by blast
next
  case (args e ts c es us)
  then show ?case using args_more parses_done by blast
qed

subsection \<open>Properties\<close>

text \<open>C6: The parser implements the precedence grammar. For every phrase of the grammar (ten levels of
  left-associative binary operators, right-associative assignment, casts, prefix and postfix
  operators, calls, parentheses), followed by a token that does not continue an expression,
  \<^verbatim>\<open>parse_expr\<close> returns exactly its tree, positions included, consumes exactly its tokens and
  reports nothing. In particular the grammar is unambiguous.\<close>

theorem parse_expr_grammar:
  assumes "renders 0 e ts" "rest p = ts @ r" "r \<noteq> []" "tkind (hd r) \<notin> conts 0" "length ts < n"
  shows "parse_expr n p = Done e (p\<lparr>ppos := ppos p + length ts\<rparr>)"
  using expr_done [OF parses_done [OF renders_parses(1) [OF assms(1)]] assms(2)] assms(3-5)
  by (simp add: ends_def adv_def)

text \<open>The tokens of \<^verbatim>\<open>a - b - c * d\<close> and a semicolon.\<close>

definition sub_toks :: "token list" where
  "sub_toks =
    [simple_tok TOK_IDENT ''a'', simple_tok TOK_MINUS ''-'', simple_tok TOK_IDENT ''b'',
     simple_tok TOK_MINUS ''-'', simple_tok TOK_IDENT ''c'', simple_tok TOK_STAR ''*'',
     simple_tok TOK_IDENT ''d'']"

lemma renders_down:
  assumes "renders k e ts" "k \<le> 13" "j \<le> k"
  shows "renders j e ts"
  using assms(3)
proof (induction rule: inc_induct)
  case (step n)
  then show ?case using assms(2) by (intro renders_renders_args.higher [of n e ts]) simp_all
qed (rule assms(1))

lemma renders_ident: "renders 13 (Node 1 1 (NODE_IDENT s)) [simple_tok TOK_IDENT s]"
  using renders_renders_args.leaf [of "simple_tok TOK_IDENT s" "NODE_IDENT s"]
  by (simp add: leaf_def simple_tok_def node_new_def)

theorem parse_expr_grammar_witness:
  "\<exists>q. parse_expr 8 (parser_init (sub_toks @ [simple_tok TOK_SEMICOLON '';''])) =
     Done (Node 1 1 (NODE_BINARY ''-''
       (Node 1 1 (NODE_BINARY ''-'' (Node 1 1 (NODE_IDENT ''a'')) (Node 1 1 (NODE_IDENT ''b''))))
       (Node 1 1 (NODE_BINARY ''*'' (Node 1 1 (NODE_IDENT ''c'')) (Node 1 1 (NODE_IDENT ''d'')))))) q"
proof -
  let ?minus = "simple_tok TOK_MINUS ''-''" and ?star = "simple_tok TOK_STAR ''*''"
  let ?i = "\<lambda>s. Node 1 1 (NODE_IDENT s)" and ?t = "\<lambda>s. [simple_tok TOK_IDENT s]"
  note binary = renders_renders_args.binary [where b = ?minus and k = 9]
    and star = renders_renders_args.binary [where b = ?star and k = 10]
  have id: "k \<le> 13 \<Longrightarrow> renders k (?i s) (?t s)" for k s
    using renders_down [OF renders_ident] by simp
  have ab: "renders 9 (node_new ?minus (NODE_BINARY (lexeme ?minus) (?i ''a'') (?i ''b'')))
      (?t ''a'' @ ?minus # ?t ''b'')"
    by (rule binary [OF _ _ id _ id]) (simp_all add: OPS_def simple_tok_def)
  have cd: "renders (Suc 9) (node_new ?star (NODE_BINARY (lexeme ?star) (?i ''c'') (?i ''d'')))
      (?t ''c'' @ ?star # ?t ''d'')"
    using star [OF _ _ id [where s = "''c''"] _ id [where s = "''d''"]] by (simp add: OPS_def simple_tok_def)
  note all = renders_down [OF binary [OF _ _ ab _ cd], of 0]
  show ?thesis
    using parse_expr_grammar [OF all, where p = "parser_init (sub_toks @ [simple_tok TOK_SEMICOLON '';''])"
        and r = "[simple_tok TOK_SEMICOLON '';'']" and n = 8] closers(3)
    by (simp add: sub_toks_def rest_def parser_init_def simple_tok_def node_new_def OPS_def)
qed

text \<open>C15: Types are parsed to their trees: for every phrase of the type grammar (names, pointers
  with \<^verbatim>\<open>const\<close> and \<^verbatim>\<open>?\<close>, slices and arrays, nested in any way) that no dot or bracket follows,
  \<^verbatim>\<open>parse_type\<close> returns exactly its tree and consumes exactly its tokens.\<close>

theorem parse_type_grammar:
  assumes "renders_type ty ts" "rest p = ts @ u # r" "tkind u \<notin> {TOK_DOT, TOK_LBRACKET}" "length ts < n"
  shows "parse_type n p = Done ty (p\<lparr>ppos := ppos p + length ts\<rparr>)"
  using parse_type_renders [OF assms] by (simp add: adv_def)

theorem parse_type_grammar_witness:
  "\<exists>q. parse_type 4 (parser_init [simple_tok TOK_STAR ''*'', simple_tok TOK_CONST ''const'',
       simple_tok TOK_IDENT ''u8'', simple_tok TOK_COMMA '','']) =
     Done (Node 1 1 (NODE_TYPE_POINTER (Node 1 1 (NODE_TYPE_NAMED ''u8'')) True False)) q"
proof -
  let ?s = "simple_tok TOK_STAR ''*''" and ?c = "simple_tok TOK_CONST ''const''"
    and ?u = "simple_tok TOK_IDENT ''u8''"
  have "renders_type (node_new ?s (NODE_TYPE_POINTER (node_new ?u (NODE_TYPE_NAMED (take 255 (lexeme ?u))))
      True False)) (?s # ?c # [?u])"
    by (intro renders_type.intros) (simp_all add: simple_tok_def)
  from parse_type_grammar [OF this, where p = "parser_init [?s, ?c, ?u, simple_tok TOK_COMMA '','']"
      and u = "simple_tok TOK_COMMA '',''" and r = "[]" and n = 4]
  show ?thesis by (simp add: rest_def parser_init_def simple_tok_def node_new_def)
qed

end
