(* ===== verification/Ast_Dump.thy ===== *)
theory Ast_Dump
  imports Ast
begin

text \<open>
  The tree printer of \<^verbatim>\<open>compiler/src/parser/ast_dump.c\<close>. Everything it writes is a sequence of
  lines, each an indentation and a text, so the output is a list of such pairs and \<open>render\<close> gives
  the characters. \<open>fg\<close> stands for the \<^verbatim>\<open>%g\<close> conversion of \<^verbatim>\<open>printf\<close> on the double that a
  literal's text denotes. Pointers that are never NULL in a parsed tree are nodes here, so the
  \<^verbatim>\<open><null>\<close> line does not arise.
\<close>

type_synonym lines = "(nat \<times> string) list"

definition print_line :: "nat \<Rightarrow> string \<Rightarrow> lines" where
  "print_line n s = [(n, s)]"

definition print_child_label :: "nat \<Rightarrow> string \<Rightarrow> lines" where
  "print_child_label n label = [(n, label @ '':'')]"

definition print_index_label :: "nat \<Rightarrow> string \<Rightarrow> nat \<Rightarrow> lines" where
  "print_index_label n label i = [(n, label @ ''['' @ show_nat i @ '']:'')]"

definition bool_word :: "bool \<Rightarrow> string" where
  "bool_word b = (if b then ''true'' else ''false'')"

text \<open>A line \<^verbatim>\<open>Kind(arguments)\<close>, and the arguments that are optional in it.\<close>

definition print_args :: "nat \<Rightarrow> string \<Rightarrow> string \<Rightarrow> lines" where
  "print_args n kind args = [(n, kind @ ''('' @ args @ '')'')]"

definition pub_word :: "bool \<Rightarrow> string" where
  "pub_word b = (if b then '', pub'' else [])"

definition dquote :: "string \<Rightarrow> string" where
  "dquote s = CHR 0x22 # s @ [CHR 0x22]"

definition elem_name :: "ui_elem_kind \<Rightarrow> string" where
  "elem_name k =
     (case k of UI_ELEM_WINDOW \<Rightarrow> ''window'' | UI_ELEM_BUTTON \<Rightarrow> ''button'' | UI_ELEM_LABEL \<Rightarrow> ''label''
      | UI_ELEM_INPUT \<Rightarrow> ''input'' | UI_ELEM_ROW \<Rightarrow> ''row'' | UI_ELEM_COLUMN \<Rightarrow> ''column''
      | UI_ELEM_CANVAS \<Rightarrow> ''canvas'' | UI_ELEM_PANEL \<Rightarrow> ''panel'' | UI_ELEM_MENU \<Rightarrow> ''menu'')"

definition handler_name :: "ui_handler_kind \<Rightarrow> string" where
  "handler_name k =
     (case k of UI_HANDLER_CLICK \<Rightarrow> ''onClick'' | UI_HANDLER_KEY \<Rightarrow> ''onKey''
      | UI_HANDLER_CHANGE \<Rightarrow> ''onChange'')"

fun join_commas :: "string list \<Rightarrow> string" where
  "join_commas [] = []"
| "join_commas [s] = s"
| "join_commas (s # t # ss) = s @ '','' @ join_commas (t # ss)"

text \<open>The first line of a match arm.\<close>

definition arm_line :: "nat \<Rightarrow> string \<Rightarrow> string list \<Rightarrow> string" where
  "arm_line i pat bs =
     ''arm['' @ show_nat i @ ''](pattern='' @ pat @
     (if bs = [] then [] else '', bindings='' @ join_commas bs) @ ''):''"

text \<open>
  The mutual recursion: \<open>dump_node\<close> is the \<^verbatim>\<open>switch\<close>, in three parts for expressions and types,
  statements, and declarations; \<open>dump_opt\<close> prints a label and the child below it, if there is one.
\<close>

definition dump_type_head :: "nat \<Rightarrow> int \<Rightarrow> lines" where
  "dump_type_head n k =
     (if k \<ge> 0 then print_args n ''TypeArray'' (''length='' @ show_int k) else print_line n ''TypeSlice'')"

definition fn_head :: "string \<Rightarrow> string option \<Rightarrow> bool \<Rightarrow> string" where
  "fn_head s ow pub =
     ''name='' @ s @ (case ow of Some t \<Rightarrow> '', owner='' @ t | None \<Rightarrow> []) @ pub_word pub"

fun variant_lines :: "nat \<Rightarrow> nat \<Rightarrow> string list \<Rightarrow> lines" where
  "variant_lines n i [] = []"
| "variant_lines n i (v # vs) =
     print_line n (''variant['' @ show_nat i @ '']='' @ v) @ variant_lines n (Suc i) vs"

lemmas [fundef_cong] = node_as.case_cong

function (sequential) dump_node :: "(string \<Rightarrow> string) \<Rightarrow> nat \<Rightarrow> node \<Rightarrow> lines"
  and dump_expr :: "(string \<Rightarrow> string) \<Rightarrow> nat \<Rightarrow> node_as \<Rightarrow> lines"
  and dump_stmt :: "(string \<Rightarrow> string) \<Rightarrow> nat \<Rightarrow> node_as \<Rightarrow> lines"
  and dump_decl :: "(string \<Rightarrow> string) \<Rightarrow> nat \<Rightarrow> node_as \<Rightarrow> lines"
  and dump_opt :: "(string \<Rightarrow> string) \<Rightarrow> string \<Rightarrow> nat \<Rightarrow> node option \<Rightarrow> lines"
  and dump_node_list :: "(string \<Rightarrow> string) \<Rightarrow> string \<Rightarrow> nat \<Rightarrow> nat \<Rightarrow> node list \<Rightarrow> lines"
  and dump_fields :: "(string \<Rightarrow> string) \<Rightarrow> nat \<Rightarrow> nat \<Rightarrow> (string \<times> node) list \<Rightarrow> lines"
  and dump_arms ::
    "(string \<Rightarrow> string) \<Rightarrow> nat \<Rightarrow> nat \<Rightarrow> (string \<times> string list \<times> node) list \<Rightarrow> lines" where
  "dump_node fg n (Node l c a) = dump_expr fg n a"
| "dump_expr fg n a =
     (case a of
        NODE_TYPE_NAMED s \<Rightarrow> print_args n ''TypeNamed'' (''name='' @ s)
      | NODE_TYPE_POINTER t c q \<Rightarrow>
          print_args n ''TypePointer'' (''const='' @ bool_word c @ '', nullable='' @
          bool_word q) @ print_child_label (n + 1) ''inner'' @ dump_node fg (n + 2) t
      | NODE_TYPE_ARRAY e k \<Rightarrow>
          dump_type_head n k @ print_child_label (n + 1) ''elem'' @ dump_node fg (n + 2) e
      | NODE_LIT_INT v \<Rightarrow> print_args n ''IntLiteral'' (''value='' @ show_int (sint v))
      | NODE_LIT_CHAR v \<Rightarrow> print_args n ''CharLiteral'' (''value='' @ show_int (sint v))
      | NODE_LIT_FLOAT s \<Rightarrow> print_args n ''FloatLiteral'' (''value='' @ fg s)
      | NODE_LIT_STRING s \<Rightarrow> print_args n ''StringLiteral'' (''value='' @ dquote s)
      | NODE_LIT_BOOL b \<Rightarrow> print_args n ''BoolLiteral'' (''value='' @ bool_word b)
      | NODE_LIT_NULL \<Rightarrow> print_line n ''NullLiteral''
      | NODE_IDENT s \<Rightarrow> print_args n ''Identifier'' (''name='' @ s)
      | NODE_BINARY q x y \<Rightarrow>
          print_args n ''Binary'' (''op='' @ q) @ print_child_label (n + 1) ''left'' @
          dump_node fg (n + 2) x @ print_child_label (n + 1) ''right'' @ dump_node fg (n + 2) y
      | NODE_UNARY q x \<Rightarrow>
          print_args n ''Unary'' (''op='' @ q) @ print_child_label (n + 1) ''operand'' @
          dump_node fg (n + 2) x
      | NODE_CALL f xs \<Rightarrow>
          print_line n ''Call'' @ print_child_label (n + 1) ''callee'' @ dump_node fg (n + 2) f @
          dump_node_list fg ''args'' (n + 1) 0 xs
      | NODE_FIELD x f \<Rightarrow>
          print_args n ''Field'' (''name='' @ f) @ print_child_label (n + 1) ''object'' @
          dump_node fg (n + 2) x
      | NODE_CAST x t \<Rightarrow>
          print_line n ''Cast'' @ print_child_label (n + 1) ''expr'' @ dump_node fg (n + 2) x @
          print_child_label (n + 1) ''type'' @ dump_node fg (n + 2) t
      | NODE_ASSIGN x y q \<Rightarrow>
          (case q of Some s \<Rightarrow> print_args n ''CompoundAssign'' (''op='' @ s @ ''='')
           | None \<Rightarrow> print_line n ''Assign'') @
          print_child_label (n + 1) ''target'' @ dump_node fg (n + 2) x @
          print_child_label (n + 1) ''value'' @ dump_node fg (n + 2) y
      | NODE_INDEX x y \<Rightarrow>
          print_line n ''Index'' @ print_child_label (n + 1) ''object'' @
          dump_node fg (n + 2) x @ print_child_label (n + 1) ''index'' @ dump_node fg (n + 2) y
      | NODE_SLICE x s e \<Rightarrow>
          print_line n ''Slice'' @ print_child_label (n + 1) ''object'' @
          dump_node fg (n + 2) x @ dump_opt fg ''start'' (n + 1) s @
          dump_opt fg ''end'' (n + 1) e
      | NODE_STRUCT_LIT s fs \<Rightarrow>
          print_args n ''StructLit'' (''type='' @ s) @ dump_fields fg n 0 fs
      | NODE_MATCH x ms \<Rightarrow>
          print_line n ''Match'' @ print_child_label (n + 1) ''subject'' @
          dump_node fg (n + 2) x @ dump_arms fg n 0 ms
      | NODE_GROUP x \<Rightarrow>
          print_line n ''Group'' @ print_child_label (n + 1) ''expr'' @ dump_node fg (n + 2) x
      | _ \<Rightarrow> dump_stmt fg n a)"
| "dump_stmt fg n a =
     (case a of
        NODE_BLOCK xs \<Rightarrow>
          print_line n ''Block'' @ dump_node_list fg ''stmts'' (n + 1) 0 xs
      | NODE_LET s t v \<Rightarrow>
          print_args n ''Let'' (''name='' @ s) @ dump_opt fg ''type'' (n + 1) t @
          dump_opt fg ''value'' (n + 1) v
      | NODE_CONST s t v \<Rightarrow>
          print_args n ''Const'' (''name='' @ s) @ dump_opt fg ''type'' (n + 1) t @
          print_child_label (n + 1) ''value'' @ dump_node fg (n + 2) v
      | NODE_RETURN v \<Rightarrow> print_line n ''Return'' @ dump_opt fg ''value'' (n + 1) v
      | NODE_IF c x y \<Rightarrow>
          print_line n ''If'' @ print_child_label (n + 1) ''cond'' @ dump_node fg (n + 2) c @
          print_child_label (n + 1) ''then'' @ dump_node fg (n + 2) x @
          dump_opt fg ''else'' (n + 1) y
      | NODE_WHILE c x \<Rightarrow>
          print_line n ''While'' @ print_child_label (n + 1) ''cond'' @ dump_node fg (n + 2) c @
          print_child_label (n + 1) ''body'' @ dump_node fg (n + 2) x
      | NODE_FOR i c q x \<Rightarrow>
          print_line n ''For'' @ dump_opt fg ''init'' (n + 1) i @
          dump_opt fg ''cond'' (n + 1) c @ dump_opt fg ''post'' (n + 1) q @
          print_child_label (n + 1) ''body'' @ dump_node fg (n + 2) x
      | NODE_LOOP x \<Rightarrow>
          print_line n ''Loop'' @ print_child_label (n + 1) ''body'' @ dump_node fg (n + 2) x
      | NODE_UNSAFE x \<Rightarrow>
          print_line n ''Unsafe'' @ print_child_label (n + 1) ''body'' @ dump_node fg (n + 2) x
      | NODE_BREAK \<Rightarrow> print_line n ''Break''
      | NODE_CONTINUE \<Rightarrow> print_line n ''Continue''
      | NODE_DEFER x \<Rightarrow>
          print_line n ''Defer'' @ print_child_label (n + 1) ''expr'' @ dump_node fg (n + 2) x
      | NODE_EXPR_STMT x \<Rightarrow>
          print_line n ''ExprStmt'' @ print_child_label (n + 1) ''expr'' @ dump_node fg (n + 2) x
      | _ \<Rightarrow> dump_decl fg n a)"
| "dump_decl fg n a =
     (case a of
        NODE_PROGRAM k is ds \<Rightarrow>
          print_line n ''Program'' @ dump_opt fg ''package'' (n + 1) k @
          dump_node_list fg ''imports'' (n + 1) 0 is @ dump_node_list fg ''decls'' (n + 1) 0 ds
      | NODE_PACKAGE s \<Rightarrow> print_args n ''Package'' (''path='' @ s)
      | NODE_IMPORT s \<Rightarrow> print_args n ''Import'' (''path='' @ s)
      | NODE_FN_DECL s ow _ _ ps t b pub \<Rightarrow>
          print_args n ''FnDecl'' (fn_head s ow pub) @
          dump_node_list fg ''params'' (n + 1) 0 ps @ dump_opt fg ''ret'' (n + 1) t @
          dump_opt fg ''body'' (n + 1) b
      | NODE_EXTERN_FN s _ cc ps t pub \<Rightarrow>
          print_args n ''ExternFn'' (''name='' @ s @ '', abi='' @
          (case cc of Some c \<Rightarrow> c | None \<Rightarrow> ''default'') @ pub_word pub) @
          dump_node_list fg ''params'' (n + 1) 0 ps @ dump_opt fg ''ret'' (n + 1) t
      | NODE_STRUCT_DECL s _ _ fs pub pk \<Rightarrow>
          print_args n ''StructDecl'' (''name='' @ s @ '', packed='' @ bool_word pk @
          pub_word pub) @ dump_node_list fg ''fields'' (n + 1) 0 fs
      | NODE_ENUM_DECL s _ vs pub \<Rightarrow>
          print_args n ''EnumDecl'' (''name='' @ s @ pub_word pub) @
          variant_lines (n + 1) 0 (map fst vs)
      | NODE_UNION_DECL s _ fs pub \<Rightarrow>
          print_args n ''UnionDecl'' (''name='' @ s @ pub_word pub) @
          dump_node_list fg ''fields'' (n + 1) 0 fs
      | NODE_IMPL_DECL s _ i ms \<Rightarrow>
          print_args n ''ImplDecl'' (''target='' @ s @
          (case i of Some t \<Rightarrow> '', interface='' @ t | None \<Rightarrow> [])) @
          dump_node_list fg ''methods'' (n + 1) 0 ms
      | NODE_INTERFACE_DECL s _ ms pub \<Rightarrow>
          print_args n ''InterfaceDecl'' (''name='' @ s @ pub_word pub) @
          dump_node_list fg ''methods'' (n + 1) 0 ms
      | NODE_UI_APP s _ cs pub \<Rightarrow>
          print_args n ''UIApp'' (''name='' @ s @ pub_word pub) @
          dump_node_list fg ''children'' (n + 1) 0 cs
      | NODE_UI_ELEMENT k t ps cs hs \<Rightarrow>
          print_args n ''UIElement'' (''kind='' @ elem_name k @
          (case t of Some s \<Rightarrow> '', text='' @ dquote s | None \<Rightarrow> [])) @
          dump_node_list fg ''properties'' (n + 1) 0 ps @
          dump_node_list fg ''children'' (n + 1) 0 cs @
          dump_node_list fg ''handlers'' (n + 1) 0 hs
      | NODE_UI_HANDLER k x \<Rightarrow>
          print_args n ''UIHandler'' (''kind='' @ handler_name k) @
          print_child_label (n + 1) ''body'' @ dump_node fg (n + 2) x
      | NODE_UI_PROPERTY s x \<Rightarrow>
          print_args n ''UIProperty'' (''name='' @ s) @ print_child_label (n + 1) ''value'' @
          dump_node fg (n + 2) x
      | _ \<Rightarrow> print_line n ''<unknown node>'')"
| "dump_opt fg label n None = []"
| "dump_opt fg label n (Some x) = print_child_label n label @ dump_node fg (n + 1) x"
| "dump_node_list fg label n i [] = []"
| "dump_node_list fg label n i (x # xs) =
     print_index_label n label i @ dump_node fg (n + 1) x @ dump_node_list fg label n (Suc i) xs"
| "dump_fields fg n i [] = []"
| "dump_fields fg n i ((f, x) # fs) =
     [(n + 1, ''field['' @ show_nat i @ ''](name='' @ f @ ''):'')] @ dump_node fg (n + 2) x
       @ dump_fields fg n (Suc i) fs"
| "dump_arms fg n i [] = []"
| "dump_arms fg n i ((pat, bs, x) # ms) =
     [(n + 1, arm_line i pat bs)] @ dump_node fg (n + 2) x @ dump_arms fg n (Suc i) ms"
  by pat_completeness auto

termination
  by (relation "measure
      (case_sum
        (case_sum
          (case_sum (\<lambda>(fg, n, x). 4 * size x) (\<lambda>(fg, n, a). 4 * size a + 3))
          (case_sum (\<lambda>(fg, n, a). 4 * size a + 2) (\<lambda>(fg, n, a). 4 * size a + 1)))
        (case_sum
          (case_sum (\<lambda>(fg, l, n, x). 4 * size_option size x) (\<lambda>(fg, l, n, i, xs). 4 * size_list size xs))
          (case_sum (\<lambda>(fg, n, i, fs). 4 * size_list (size_prod (\<lambda>_. 0) size) fs)
            (\<lambda>(fg, n, i, ms). 4 * size_list (size_prod (\<lambda>_. 0) (size_prod (\<lambda>_. 0) size)) ms))))")
    simp_all

definition render :: "lines \<Rightarrow> string" where
  "render ls = concat (map (\<lambda>(n, s). replicate (2 * n) CHR 0x20 @ s @ [newline]) ls)"

definition ast_dump_node :: "(string \<Rightarrow> string) \<Rightarrow> node \<Rightarrow> string" where
  "ast_dump_node fg x = render (dump_node fg 0 x)"

declare dump_expr.simps [simp del] dump_stmt.simps [simp del] dump_decl.simps [simp del]

subsection \<open>The structure of the output\<close>

lemmas print_defs = print_line_def print_child_label_def print_index_label_def print_args_def
  dump_type_head_def

text \<open>Indentation is relative: a dump further to the right is the same dump, shifted.\<close>

definition shift :: "nat \<Rightarrow> lines \<Rightarrow> lines" where
  "shift k ls = map (\<lambda>l. (fst l + k, snd l)) ls"

lemma shift_simps [simp]:
  "shift k [] = []" "shift k (l # ls) = (fst l + k, snd l) # shift k ls"
  "shift k (ls @ ms) = shift k ls @ shift k ms"
  by (simp_all add: shift_def)

lemma variant_lines_shift: "variant_lines (n + k) i vs = shift k (variant_lines n i vs)"
  by (induction n i vs rule: variant_lines.induct) (auto simp: print_defs)

lemma dump_shift:
  "dump_node fg (n + k) x = shift k (dump_node fg n x)"
  "dump_expr fg (n + k) a = shift k (dump_expr fg n a)"
  "dump_stmt fg (n + k) a = shift k (dump_stmt fg n a)"
  "dump_decl fg (n + k) a = shift k (dump_decl fg n a)"
  "dump_opt fg label (n + k) y = shift k (dump_opt fg label n y)"
  "dump_node_list fg label (n + k) i xs = shift k (dump_node_list fg label n i xs)"
  "dump_fields fg (n + k) i fs = shift k (dump_fields fg n i fs)"
  "dump_arms fg (n + k) i ms = shift k (dump_arms fg n i ms)"
proof (induction fg n x and fg n a and fg n a and fg n a and fg label n y and fg label n i xs
    and fg n i fs and fg n i ms rule: dump_node_dump_expr_dump_stmt_dump_decl_dump_opt_dump_node_list_dump_fields_dump_arms.induct)
  case (2 fg n a)
  show ?case
    by (subst (1 2) dump_expr.simps; cases a)
      (use 2 in \<open>auto simp: print_defs split: option.split\<close>)
next
  case (3 fg n a)
  show ?case
    by (subst (1 2) dump_stmt.simps; cases a) (use 3 in \<open>auto simp: print_defs\<close>)
next
  case (4 fg n a)
  show ?case
    using variant_lines_shift [of "Suc n" k]
    by (subst (1 2) dump_decl.simps; cases a) (use 4 in \<open>auto simp: print_defs\<close>)
qed (auto simp: print_defs)

subsection \<open>What is printed of a node\<close>

text \<open>
  The children that the printer shows, in their order, written down independently of it: every expression and
  statement below a node, its types, its members. Type parameters and the types of variants are not shown; a
  variant is a line of its own, without a node (\<open>None\<close>).
\<close>

definition opt_child :: "node option \<Rightarrow> node option list" where
  "opt_child x = (case x of None \<Rightarrow> [] | Some y \<Rightarrow> [Some y])"

definition printed_children :: "node \<Rightarrow> node option list" where
  "printed_children x =
     (case nas x of
        NODE_TYPE_POINTER t _ _ \<Rightarrow> [Some t]
      | NODE_TYPE_ARRAY e _ \<Rightarrow> [Some e]
      | NODE_BINARY _ y z \<Rightarrow> [Some y, Some z]
      | NODE_UNARY _ y \<Rightarrow> [Some y]
      | NODE_CALL f ys \<Rightarrow> Some f # map Some ys
      | NODE_FIELD y _ \<Rightarrow> [Some y]
      | NODE_CAST y t \<Rightarrow> [Some y, Some t]
      | NODE_ASSIGN y z _ \<Rightarrow> [Some y, Some z]
      | NODE_INDEX y z \<Rightarrow> [Some y, Some z]
      | NODE_SLICE y s e \<Rightarrow> Some y # opt_child s @ opt_child e
      | NODE_STRUCT_LIT _ fs \<Rightarrow> map (\<lambda>f. Some (snd f)) fs
      | NODE_MATCH y ms \<Rightarrow> Some y # map (\<lambda>m. Some (snd (snd m))) ms
      | NODE_GROUP y \<Rightarrow> [Some y]
      | NODE_BLOCK ys \<Rightarrow> map Some ys
      | NODE_LET _ t v \<Rightarrow> opt_child t @ opt_child v
      | NODE_CONST _ t v \<Rightarrow> opt_child t @ [Some v]
      | NODE_RETURN v \<Rightarrow> opt_child v
      | NODE_IF y z w \<Rightarrow> Some y # Some z # opt_child w
      | NODE_WHILE y z \<Rightarrow> [Some y, Some z]
      | NODE_FOR i y q z \<Rightarrow> opt_child i @ opt_child y @ opt_child q @ [Some z]
      | NODE_LOOP y \<Rightarrow> [Some y]
      | NODE_UNSAFE y \<Rightarrow> [Some y]
      | NODE_DEFER y \<Rightarrow> [Some y]
      | NODE_EXPR_STMT y \<Rightarrow> [Some y]
      | NODE_PROGRAM k is ds \<Rightarrow> opt_child k @ map Some is @ map Some ds
      | NODE_FN_DECL _ _ _ _ ps t y _ \<Rightarrow> map Some ps @ opt_child t @ opt_child y
      | NODE_EXTERN_FN _ _ _ ps t _ \<Rightarrow> map Some ps @ opt_child t
      | NODE_STRUCT_DECL _ _ _ fs _ _ \<Rightarrow> map Some fs
      | NODE_ENUM_DECL _ _ vs _ \<Rightarrow> map (\<lambda>_. None) vs
      | NODE_UNION_DECL _ _ fs _ \<Rightarrow> map Some fs
      | NODE_IMPL_DECL _ _ _ ms \<Rightarrow> map Some ms
      | NODE_INTERFACE_DECL _ _ ms _ \<Rightarrow> map Some ms
      | NODE_UI_APP _ _ cs _ \<Rightarrow> map Some cs
      | NODE_UI_ELEMENT _ _ ps cs hs \<Rightarrow> map Some ps @ map Some cs @ map Some hs
      | NODE_UI_HANDLER _ y \<Rightarrow> [Some y]
      | NODE_UI_PROPERTY _ y \<Rightarrow> [Some y]
      | _ \<Rightarrow> [])"

text \<open>One child with its label: the label one level below the node, the child two levels below it.\<close>

definition labelled :: "(string \<Rightarrow> string) \<Rightarrow> nat \<Rightarrow> string \<Rightarrow> node option \<Rightarrow> lines" where
  "labelled fg n label c = (Suc n, label) # (case c of None \<Rightarrow> [] | Some y \<Rightarrow> dump_node fg (Suc (Suc n)) y)"

definition shows_children :: "(string \<Rightarrow> string) \<Rightarrow> nat \<Rightarrow> node option list \<Rightarrow> lines \<Rightarrow> bool" where
  "shows_children fg n cs r \<longleftrightarrow> (\<exists>labels. length labels = length cs \<and> r = concat (map2 (labelled fg n) labels cs))"

named_theorems shows_rules \<open>the parts of what a node shows\<close>

lemma shows_Nil [shows_rules]: "shows_children fg n [] []"
  by (simp add: shows_children_def)

lemma shows_append [shows_rules]:
  assumes "shows_children fg n cs r" "shows_children fg n cs' r'"
  shows "shows_children fg n (cs @ cs') (r @ r')"
proof -
  from assms obtain ls ls' where "length ls = length cs" "r = concat (map2 (labelled fg n) ls cs)"
    "length ls' = length cs'" "r' = concat (map2 (labelled fg n) ls' cs')"
    by (auto simp: shows_children_def)
  then show ?thesis
    by (auto simp: shows_children_def intro!: exI [of _ "ls @ ls'"])
qed

lemma shows_child: "shows_children fg n [Some y] ((Suc n, s) # dump_node fg (Suc (Suc n)) y)"
  unfolding shows_children_def by (rule exI [of _ "[s]"]) (simp add: labelled_def)

lemma shows_first [shows_rules]:
  "shows_children fg n cs r \<Longrightarrow> shows_children fg n (Some y # cs) ((Suc n, s) # dump_node fg (Suc (Suc n)) y @ r)"
  using shows_append [OF shows_child] by fastforce

lemma shows_opt [shows_rules]: "shows_children fg n (opt_child x) (dump_opt fg label (Suc n) x)"
  by (cases x) (auto simp: opt_child_def print_defs intro: shows_rules shows_child)

lemma shows_list [shows_rules]: "shows_children fg n (map Some xs) (dump_node_list fg label (Suc n) i xs)"
  by (induction xs arbitrary: i) (auto simp: print_defs intro: shows_rules)

lemma shows_fields [shows_rules]: "shows_children fg n (map (\<lambda>f. Some (snd f)) fs) (dump_fields fg n i fs)"
  by (induction fs arbitrary: i) (auto simp: shows_Nil shows_first)

lemma shows_arms [shows_rules]: "shows_children fg n (map (\<lambda>m. Some (snd (snd m))) ms) (dump_arms fg n i ms)"
  by (induction ms arbitrary: i) (auto simp: shows_Nil shows_first)

lemma shows_variants [shows_rules]: "shows_children fg n (map (\<lambda>_. None) vs) (variant_lines (Suc n) i (map fst vs))"
proof (induction vs arbitrary: i)
  case (Cons v vs)
  have "shows_children fg n [None] [(Suc n, s)]" for s
    unfolding shows_children_def by (rule exI [of _ "[s]"]) (simp add: labelled_def)
  from shows_append [OF this Cons] show ?case by (simp add: print_defs)
qed (simp add: shows_Nil)

lemma dump_shows: "\<exists>s r. dump_node fg n x = (n, s) # r \<and> shows_children fg n (printed_children x) r"
proof (cases x)
  case (Node l c a)
  have one: "shows_children fg n [Some y] ((Suc n, s) # dump_node fg (Suc (Suc n)) y)" for y s
    by (rule shows_child)
  show ?thesis
    by (cases a)
      (auto simp: Node dump_expr.simps dump_stmt.simps dump_decl.simps printed_children_def print_defs
        intro!: shows_rules one split: option.split)
qed

subsection \<open>Properties\<close>

text \<open>C39: The printed tree shows the structure of the program by its indentation: a node is a line at the
  indentation it is printed at, then, for each of its children in order, a label one level below and the
  printed child two levels below; nothing else. A line is one call of the printer: the text of a string
  literal with a newline in it continues on the next line of the terminal. Printing \<open>k\<close> levels deeper
  shifts all lines by \<open>k\<close>.\<close>

theorem ast_dump_structure:
  "(\<exists>s labels. length labels = length (printed_children x) \<and>
      dump_node fg n x =
        (n, s) # concat (map2 (\<lambda>label c. (Suc n, label) # (case c of None \<Rightarrow> [] | Some y \<Rightarrow> dump_node fg (Suc (Suc n)) y))
                         labels (printed_children x)))
   \<and> dump_node fg (n + k) x = map (\<lambda>(i, s). (i + k, s)) (dump_node fg n x)"
  using dump_shows [of fg n x] dump_shift(1) [of fg n k x]
  by (auto simp: shows_children_def labelled_def shift_def case_prod_beta)

text \<open>A kernel application and a \<^verbatim>\<open>comptime\<close> block are printed as one line that names neither
  them nor what they hold: the printer has no case for these two kinds of declaration.\<close>

theorem ast_dump_unknown_nodes:
  "ast_dump_node fg (Node l c (NODE_KERNEL_APP name pkg fns pub)) = ''<unknown node>'' @ [newline]
   \<and> ast_dump_node fg (Node l c (NODE_COMPTIME decls)) = ''<unknown node>'' @ [newline]"
  by (simp add: ast_dump_node_def dump_expr.simps dump_stmt.simps dump_decl.simps print_defs render_def)

end
