(* ===== verification/Sema_Base.thy ===== *)
theory Sema_Base
  imports Ast
begin

text \<open>
  The state of the semantic analyser (\<^verbatim>\<open>compiler/src/sema/sema.c\<close>): its symbol tables, the chain
  of scopes, the validation of type names, and the resolution of import paths.

  \<^verbatim>\<open>malloc\<close> and \<^verbatim>\<open>realloc\<close> are taken to succeed, so a table with a count and a capacity is a list.
  A function that returns 0 or 1 and may print a diagnostic is a \<open>check\<close>: it takes the analyser and
  returns the result with the analyser after it. What \<^verbatim>\<open>sema_error\<close> prints is kept in \<open>printed\<close>.
\<close>

subsection \<open>The analyser\<close>

record named_decl =
  decl_name :: string
  decl_node :: node

record method_decl =
  method_owner :: string
  method_name :: string
  method_node :: node

type_synonym diagnostic = "nat \<times> nat \<times> string"

record analyzer =
  source_name :: string
  had_error :: bool
  fn_decls :: "named_decl list"
  extern_functions :: "named_decl list"
  structs :: "named_decl list"
  enums :: "named_decl list"
  unions :: "named_decl list"
  methods :: "method_decl list"
  interfaces :: "named_decl list"
  global_names :: "string list"
  printed :: "diagnostic list"

definition analyzer_init :: "string \<Rightarrow> analyzer" where
  "analyzer_init src =
     \<lparr>source_name = src, had_error = False, fn_decls = [], extern_functions = [], structs = [],
      enums = [], unions = [], methods = [], interfaces = [], global_names = [], printed = []\<rparr>"

definition sema_error :: "nat \<Rightarrow> nat \<Rightarrow> string \<Rightarrow> analyzer \<Rightarrow> analyzer" where
  "sema_error l c msg a = a\<lparr>had_error := True, printed := printed a @ [(l, c, msg)]\<rparr>"

text \<open>
  \<open>accept\<close> is \<^verbatim>\<open>return 1\<close>, \<open>reject\<close> is \<^verbatim>\<open>sema_error\<close> followed by \<^verbatim>\<open>return 0\<close>, \<open>both\<close> is the
  short-circuiting \<^verbatim>\<open>&&\<close> and also the sequence of two tests that each return 0 when they fail.
  \<open>check_each\<close> is a loop over the items that returns 0 at the first failure; the test of an item
  also gets the items before it, which the inner loops \<^verbatim>\<open>for (j = 0; j < i; j++)\<close> compare with.
\<close>

type_synonym check = "analyzer \<Rightarrow> bool \<times> analyzer"

definition accept :: check where
  "accept a = (True, a)"

definition reject :: "node \<Rightarrow> string \<Rightarrow> check" where
  "reject nd msg a = (False, sema_error (nline nd) (ncol nd) msg a)"

definition both :: "check \<Rightarrow> check \<Rightarrow> check" where
  "both f g a = (case f a of (ok, a') \<Rightarrow> if ok then g a' else (False, a'))"

primrec check_each :: "('a list \<Rightarrow> 'a \<Rightarrow> check) \<Rightarrow> 'a list \<Rightarrow> 'a list \<Rightarrow> check" where
  "check_each f pre [] = accept"
| "check_each f pre (x # xs) = both (f pre x) (check_each f (pre @ [x]) xs)"

subsection \<open>Fields of nodes\<close>

text \<open>The members of the union \<^verbatim>\<open>as\<close> that the analyser reads on nodes whose kind is known.\<close>

definition let_name :: "node \<Rightarrow> string" where
  "let_name nd = (case nas nd of NODE_LET s _ _ \<Rightarrow> s | _ \<Rightarrow> [])"

definition let_type :: "node \<Rightarrow> node option" where
  "let_type nd = (case nas nd of NODE_LET _ t _ \<Rightarrow> t | _ \<Rightarrow> None)"

definition fn_name :: "node \<Rightarrow> string" where
  "fn_name nd = (case nas nd of NODE_FN_DECL s _ _ _ _ _ _ _ \<Rightarrow> s | NODE_EXTERN_FN s _ _ _ _ _ \<Rightarrow> s | _ \<Rightarrow> [])"

definition fn_params :: "node \<Rightarrow> node list" where
  "fn_params nd =
     (case nas nd of NODE_FN_DECL _ _ _ _ ps _ _ _ \<Rightarrow> ps | NODE_EXTERN_FN _ _ _ ps _ _ \<Rightarrow> ps | _ \<Rightarrow> [])"

definition fn_ret_type :: "node \<Rightarrow> node option" where
  "fn_ret_type nd =
     (case nas nd of NODE_FN_DECL _ _ _ _ _ r _ _ \<Rightarrow> r | NODE_EXTERN_FN _ _ _ _ r _ \<Rightarrow> r | _ \<Rightarrow> None)"

definition fn_body :: "node \<Rightarrow> node option" where
  "fn_body nd = (case nas nd of NODE_FN_DECL _ _ _ _ _ _ b _ \<Rightarrow> b | _ \<Rightarrow> None)"

definition struct_type_params :: "node \<Rightarrow> node list" where
  "struct_type_params nd = (case nas nd of NODE_STRUCT_DECL _ _ tps _ _ _ \<Rightarrow> tps | _ \<Rightarrow> [])"

definition enum_variants :: "node \<Rightarrow> string list" where
  "enum_variants nd = (case nas nd of NODE_ENUM_DECL _ _ vs _ \<Rightarrow> map fst vs | _ \<Rightarrow> [])"

definition composite_fields :: "node \<Rightarrow> node list" where
  "composite_fields nd =
     (case nas nd of NODE_STRUCT_DECL _ _ _ fs _ _ \<Rightarrow> fs | NODE_UNION_DECL _ _ fs _ \<Rightarrow> fs | _ \<Rightarrow> [])"

definition composite_has_field :: "node \<Rightarrow> string \<Rightarrow> bool" where
  "composite_has_field nd f \<longleftrightarrow> f \<in> set (map let_name (composite_fields nd))"

subsection \<open>Tables\<close>

definition push_named_decl :: "named_decl list \<Rightarrow> string \<Rightarrow> node \<Rightarrow> named_decl list" where
  "push_named_decl items s nd = items @ [\<lparr>decl_name = s, decl_node = nd\<rparr>]"

definition push_method_decl :: "method_decl list \<Rightarrow> string \<Rightarrow> string \<Rightarrow> node \<Rightarrow> method_decl list" where
  "push_method_decl items owner s nd =
     items @ [\<lparr>method_owner = owner, method_name = s, method_node = nd\<rparr>]"

fun find_named_decl :: "named_decl list \<Rightarrow> string \<Rightarrow> named_decl option" where
  "find_named_decl [] s = None"
| "find_named_decl (d # ds) s = (if decl_name d = s then Some d else find_named_decl ds s)"

fun find_method :: "method_decl list \<Rightarrow> string \<Rightarrow> string \<Rightarrow> method_decl option" where
  "find_method [] owner s = None"
| "find_method (d # ds) owner s =
     (if method_owner d = owner \<and> method_name d = s then Some d else find_method ds owner s)"

definition find_method_decl :: "analyzer \<Rightarrow> string \<Rightarrow> string \<Rightarrow> method_decl option" where
  "find_method_decl a = find_method (methods a)"

definition enum_has_variant :: "analyzer \<Rightarrow> string \<Rightarrow> string \<Rightarrow> bool" where
  "enum_has_variant a e v =
     (case find_named_decl (enums a) e of None \<Rightarrow> False | Some d \<Rightarrow> v \<in> set (enum_variants (decl_node d)))"

definition register_global_name :: "string \<Rightarrow> node \<Rightarrow> check" where
  "register_global_name s nd a =
     (if s \<in> set (global_names a) then reject nd (''duplicate top-level symbol '' @ in_quotes s) a
      else (True, a\<lparr>global_names := global_names a @ [s]\<rparr>))"

subsection \<open>Scopes\<close>

record local_binding =
  bind_name :: string
  bind_node :: node

datatype scope = Scope (bindings: "local_binding list") (parent: "scope option")

definition scope_new :: "scope option \<Rightarrow> scope" where
  "scope_new p = Scope [] p"

text \<open>\<open>None\<close> where C returns 0 because the scope itself already binds the name.\<close>

fun scope_define :: "scope \<Rightarrow> string \<Rightarrow> node \<Rightarrow> scope option" where
  "scope_define (Scope bs p) s nd =
     (if s \<in> set (map bind_name bs) then None
      else Some (Scope (\<lparr>bind_name = s, bind_node = nd\<rparr> # bs) p))"

text \<open>
  A loop that defines names one after the other with a function like \<open>scope_define\<close>; \<open>Inl\<close> the
  binding at which it stops.
\<close>

fun define_all_by ::
  "('s \<Rightarrow> string \<Rightarrow> 'v \<Rightarrow> 's option) \<Rightarrow> 's \<Rightarrow> (string \<times> 'v) list \<Rightarrow> (string \<times> 'v, 's) sum" where
  "define_all_by def sc [] = Inr sc"
| "define_all_by def sc ((s, nd) # bs) =
     (case def sc s nd of None \<Rightarrow> Inl (s, nd) | Some sc' \<Rightarrow> define_all_by def sc' bs)"

definition define_all :: "scope \<Rightarrow> (string \<times> node) list \<Rightarrow> (string \<times> node, scope) sum" where
  "define_all = define_all_by scope_define"

fun binding_of :: "local_binding list \<Rightarrow> string \<Rightarrow> node option" where
  "binding_of [] s = None"
| "binding_of (b # bs) s = (if bind_name b = s then Some (bind_node b) else binding_of bs s)"

fun scope_resolve :: "scope \<Rightarrow> string \<Rightarrow> node option" where
  "scope_resolve (Scope bs None) s = binding_of bs s"
| "scope_resolve (Scope bs (Some p)) s =
     (case binding_of bs s of Some nd \<Rightarrow> Some nd | None \<Rightarrow> scope_resolve p s)"

subsection \<open>Type names\<close>

definition BUILTIN_TYPES :: "string list" where
  "BUILTIN_TYPES =
    [''i8'', ''i16'', ''i32'', ''i64'', ''isize'', ''u8'', ''u16'', ''u32'', ''u64'', ''usize'',
     ''f32'', ''f64'', ''bool'', ''char'', ''void'', ''never'', ''str'', ''String'', ''cstr'']"

definition is_builtin_type :: "string \<Rightarrow> bool" where
  "is_builtin_type s \<longleftrightarrow> s \<in> set BUILTIN_TYPES"

definition BUILTIN_IO :: "string list" where
  "BUILTIN_IO =
    [''print'', ''println'', ''eprint'', ''eprintln'',
     ''print_int'', ''print_long'', ''print_uint'', ''print_ulong'',
     ''print_f32'', ''print_f64'', ''print_bool'', ''print_char'', ''flush'',
     ''input'', ''read_int'', ''read_long'', ''read_uint'', ''read_f64'',
     ''stdout'', ''stderr'', ''stdin'', ''asm'',
     ''inb'', ''outb'', ''inw'', ''outw'', ''inl'', ''outl'', ''io_wait'']"

definition is_builtin_io :: "string \<Rightarrow> bool" where
  "is_builtin_io s \<longleftrightarrow> s \<in> set BUILTIN_IO"

definition is_known_type :: "analyzer \<Rightarrow> string \<Rightarrow> bool" where
  "is_known_type a s \<longleftrightarrow>
     is_builtin_type s \<or> find_named_decl (structs a) s \<noteq> None \<or> find_named_decl (enums a) s \<noteq> None \<or>
     find_named_decl (unions a) s \<noteq> None \<or> find_named_decl (interfaces a) s \<noteq> None"

definition is_identifier_like_name :: "string \<Rightarrow> bool" where
  "is_identifier_like_name s \<longleftrightarrow>
     s \<noteq> [] \<and> list_all (\<lambda>c. in_range 97 122 c \<or> in_range 65 90 c \<or> in_range 48 57 c \<or>
                          c = CHR ''_'' \<or> c = CHR ''.'') s"

definition type_name_has_form :: "string \<Rightarrow> string \<Rightarrow> bool" where
  "type_name_has_form s prefix \<longleftrightarrow>
     length s > length prefix + 1 \<and> take (length prefix) s = prefix \<and>
     c_at s (length prefix) = CHR ''['' \<and> c_at s (length s - 1) = CHR '']''"

text \<open>\<^verbatim>\<open>slice_range_dup(name + i, name + strlen(name) - 1)\<close>.\<close>

definition slice_range :: "string \<Rightarrow> nat \<Rightarrow> string" where
  "slice_range s i = substr s i (length s - 1 - i)"

text \<open>The first comma outside brackets; the depth is an \<^verbatim>\<open>int\<close> and may become negative.\<close>

fun top_level_comma :: "int \<Rightarrow> string \<Rightarrow> nat option" where
  "top_level_comma depth [] = None"
| "top_level_comma depth (c # cs) =
     (if c = CHR ''['' then map_option Suc (top_level_comma (depth + 1) cs)
      else if c = CHR '']'' then map_option Suc (top_level_comma (depth - 1) cs)
      else if c = CHR '','' \<and> depth = 0 then Some 0
      else map_option Suc (top_level_comma depth cs))"

definition split_top_level_comma :: "string \<Rightarrow> (string \<times> string) option" where
  "split_top_level_comma s = map_option (\<lambda>i. (take i s, drop (i + 1) s)) (top_level_comma 0 s)"

text \<open>
  The base of a bracketed name, \<^verbatim>\<open>Pair\<close> for \<^verbatim>\<open>Pair[i32]\<close>, if it fits the buffer of 256 bytes.
\<close>

definition generic_base :: "string \<Rightarrow> string option" where
  "generic_base s =
     (case strchr s (CHR ''['') of
        Some i \<Rightarrow> if c_at s (length s - 1) = CHR '']'' \<and> i < 256 then Some (take i s) else None
      | None \<Rightarrow> None)"

definition is_generic_struct_type :: "analyzer \<Rightarrow> string \<Rightarrow> bool" where
  "is_generic_struct_type a s =
     (case generic_base s of
        Some b \<Rightarrow>
          (case find_named_decl (structs a) b of
             Some d \<Rightarrow> struct_type_params (decl_node d) \<noteq> []
           | None \<Rightarrow> False)
      | None \<Rightarrow> False)"

lemma length_slice_range [simp]: "length (slice_range s i) = length s - 1 - i"
  by (simp add: slice_range_def substr_def)

lemma top_level_comma_length: "top_level_comma k s = Some i \<Longrightarrow> i < length s"
  by (induction k s arbitrary: i rule: top_level_comma.induct) (auto split: if_splits)

lemma split_top_level_comma_length:
  "split_top_level_comma s = Some (l, r) \<Longrightarrow> length l < length s \<and> length r < length s"
  using top_level_comma_length by (fastforce simp: split_top_level_comma_def)

function (sequential) validate_type_name :: "analyzer \<Rightarrow> string \<Rightarrow> bool" where
  "validate_type_name a s =
     (if type_name_has_form s ''Option'' then validate_type_name a (slice_range s 7)
      else if type_name_has_form s ''Result'' then
        (case split_top_level_comma (slice_range s 7) of
           None \<Rightarrow> False
         | Some (l, r) \<Rightarrow> validate_type_name a l \<and> validate_type_name a r)
      else is_generic_struct_type a s \<or> is_identifier_like_name s \<and> is_known_type a s)"
  by pat_completeness auto
termination
  by (relation "measure (\<lambda>(a, s). length s)")
    (auto simp: type_name_has_form_def dest!: split_top_level_comma_length)

declare validate_type_name.simps [simp del]

lemmas [fundef_cong] = node_as.case_cong

fun validate_type :: "node \<Rightarrow> check" where
  "validate_type (Node l c ty) a =
     (case ty of
        NODE_TYPE_NAMED s \<Rightarrow>
          if validate_type_name a s then accept a
          else reject (Node l c ty) (''unknown type '' @ in_quotes s) a
      | NODE_TYPE_POINTER t _ _ \<Rightarrow> validate_type t a
      | NODE_TYPE_ARRAY t _ \<Rightarrow> validate_type t a
      | _ \<Rightarrow> reject (Node l c ty) ''unsupported type syntax'' a)"

definition validate_opt_type :: "node option \<Rightarrow> check" where
  "validate_opt_type t = (case t of None \<Rightarrow> accept | Some ty \<Rightarrow> validate_type ty)"

subsection \<open>Import paths\<close>

definition path_dirname :: "string \<Rightarrow> string" where
  "path_dirname path =
     (case strrchr path (CHR ''/'') of
        None \<Rightarrow> ''.''
      | Some i \<Rightarrow> take (if i = 0 then 1 else i) path)"

definition path_join :: "string \<Rightarrow> string \<Rightarrow> string" where
  "path_join dir s =
     dir @ (if dir \<noteq> [] \<and> last dir \<noteq> CHR ''/'' then ''/'' else []) @ s"

definition slash_path :: "string \<Rightarrow> string" where
  "slash_path s = map (\<lambda>c. if c = CHR ''.'' then CHR ''/'' else c) s"

text \<open>\<open>fe\<close> is the test \<^verbatim>\<open>stat(path, &st) == 0 && S_ISREG(st.st_mode)\<close> of \<^verbatim>\<open>file_exists\<close>.\<close>

definition import_path_exists :: "(string \<Rightarrow> bool) \<Rightarrow> string \<Rightarrow> string \<Rightarrow> bool" where
  "import_path_exists fe src imp =
     (let dir = path_dirname src
      in fe (path_join dir (slash_path imp @ ''.afns'')) \<or>
         fe (path_join dir (slash_path imp @ ''/main.afns'')))"

end
