(* ===== verification/Sema_Register.thy ===== *)
theory Sema_Register
  imports Sema_Base
begin

text \<open>
  The registration of declarations in \<^verbatim>\<open>compiler/src/sema/sema.c\<close>: functions, structs, enums,
  unions, interfaces and impls, with the checks of their members.
\<close>

definition validate_receiver_type :: "string \<Rightarrow> node option \<Rightarrow> node \<Rightarrow> check" where
  "validate_receiver_type owner ty at a =
     (case ty of
        None \<Rightarrow> (False, a)
      | Some t \<Rightarrow>
          if (case nas t of
                NODE_TYPE_NAMED s \<Rightarrow> s = owner
              | NODE_TYPE_POINTER u _ _ \<Rightarrow> nas u = NODE_TYPE_NAMED owner
              | _ \<Rightarrow> False)
          then accept a
          else reject at (''self parameter for '' @ in_quotes owner @ '' method must be '' @ owner @
                          '' or *'' @ owner) a)"

text \<open>A parameter or field: its name differs from the names before it, and its type is valid.\<close>

definition check_member :: "string \<Rightarrow> node list \<Rightarrow> node \<Rightarrow> check" where
  "check_member what pre x a =
     (if let_name x \<in> set (map let_name pre)
      then reject x (''duplicate '' @ what @ '' '' @ in_quotes (let_name x)) a
      else validate_opt_type (let_type x) a)"

definition push_function :: "bool \<Rightarrow> node \<Rightarrow> check" where
  "push_function is_extern decl a =
     (True, if is_extern
            then a\<lparr>extern_functions := push_named_decl (extern_functions a) (fn_name decl) decl\<rparr>
            else a\<lparr>fn_decls := push_named_decl (fn_decls a) (fn_name decl) decl\<rparr>)"

definition fresh_function :: "node \<Rightarrow> check" where
  "fresh_function decl a =
     (if find_named_decl (fn_decls a) (fn_name decl) \<noteq> None \<or>
         find_named_decl (extern_functions a) (fn_name decl) \<noteq> None
      then reject decl (''duplicate function '' @ in_quotes (fn_name decl)) a
      else accept a)"

definition register_function_like :: "bool \<Rightarrow> node \<Rightarrow> check" where
  "register_function_like is_extern decl =
     both (register_global_name (fn_name decl) decl)
       (both (fresh_function decl)
         (both (validate_opt_type (fn_ret_type decl))
           (both (check_each (check_member ''parameter'') [] (fn_params decl))
             (push_function is_extern decl))))"

definition register_struct_decl :: "string \<Rightarrow> node \<Rightarrow> check" where
  "register_struct_decl s decl =
     both (register_global_name s decl)
       (\<lambda>a. if find_named_decl (structs a) s \<noteq> None
            then reject decl (''duplicate struct '' @ in_quotes s) a
            else (True, a\<lparr>structs := push_named_decl (structs a) s decl\<rparr>))"

definition register_enum_decl :: "string \<Rightarrow> node \<Rightarrow> check" where
  "register_enum_decl s decl =
     both (register_global_name s decl)
       (\<lambda>a. if find_named_decl (enums a) s \<noteq> None
            then reject decl (''duplicate enum '' @ in_quotes s) a
            else (True, a\<lparr>enums := push_named_decl (enums a) s decl\<rparr>))"

definition register_union_decl :: "string \<Rightarrow> node \<Rightarrow> check" where
  "register_union_decl s decl =
     both (register_global_name s decl)
       (\<lambda>a. if find_named_decl (unions a) s \<noteq> None
            then reject decl (''duplicate union '' @ in_quotes s) a
            else (True, a\<lparr>unions := push_named_decl (unions a) s decl\<rparr>))"

definition register_interface_decl :: "string \<Rightarrow> node \<Rightarrow> check" where
  "register_interface_decl s decl =
     both (register_global_name s decl)
       (\<lambda>a. if find_named_decl (interfaces a) s \<noteq> None
            then reject decl (''duplicate interface '' @ in_quotes s) a
            else (True, a\<lparr>interfaces := push_named_decl (interfaces a) s decl\<rparr>))"

definition interface_methods :: "node \<Rightarrow> node list" where
  "interface_methods nd = (case nas nd of NODE_INTERFACE_DECL _ _ ms _ \<Rightarrow> ms | _ \<Rightarrow> [])"

definition impl_methods :: "node \<Rightarrow> node list" where
  "impl_methods nd = (case nas nd of NODE_IMPL_DECL _ _ _ ms \<Rightarrow> ms | _ \<Rightarrow> [])"

definition impl_has_method :: "node \<Rightarrow> string \<Rightarrow> bool" where
  "impl_has_method decl s \<longleftrightarrow> s \<in> set (map fn_name (impl_methods decl))"

definition check_impl_satisfies_interface :: "string \<Rightarrow> string \<Rightarrow> node \<Rightarrow> node \<Rightarrow> check" where
  "check_impl_satisfies_interface target iface impl_decl iface_decl =
     check_each (\<lambda>_ req.
       if impl_has_method impl_decl (fn_name req) then accept
       else reject impl_decl
              (''impl '' @ in_quotes target @ '' does not satisfy interface '' @ in_quotes iface @
               '': missing method '' @ in_quotes (fn_name req))) [] (interface_methods iface_decl)"

definition check_method_param :: "string \<Rightarrow> node list \<Rightarrow> node \<Rightarrow> check" where
  "check_method_param target pre x =
     both (check_member ''parameter'' pre x)
       (if pre = [] \<and> let_name x = ''self'' then validate_receiver_type target (let_type x) x
        else accept)"

definition register_method :: "string \<Rightarrow> node list \<Rightarrow> node \<Rightarrow> check" where
  "register_method target _ m a =
     (if find_method_decl a target (fn_name m) \<noteq> None
      then reject m (''duplicate method '' @ in_quotes (target @ ''.'' @ fn_name m)) a
      else both (validate_opt_type (fn_ret_type m))
             (both (check_each (check_method_param target) [] (fn_params m))
               (\<lambda>a. (True, a\<lparr>methods := push_method_decl (methods a) target (fn_name m) m\<rparr>))) a)"

text \<open>
  \<^verbatim>\<open>snprintf\<close> truncates the name of the coercion to 255 characters; the result of registering it is
  ignored, although a duplicate sets \<^verbatim>\<open>had_error\<close>.
\<close>

definition coercion_name :: "string \<Rightarrow> string \<Rightarrow> string" where
  "coercion_name target iface = take 255 (target @ ''_as_'' @ iface)"

definition register_coercion :: "string \<Rightarrow> string \<Rightarrow> node \<Rightarrow> check" where
  "register_coercion target iface decl a =
     (True, snd (register_global_name (coercion_name target iface) decl a))"

definition check_impl_interface :: "string \<Rightarrow> string \<Rightarrow> node \<Rightarrow> check" where
  "check_impl_interface target iface decl a =
     (case find_named_decl (interfaces a) iface of
        None \<Rightarrow> reject decl (''unknown interface '' @ in_quotes iface) a
      | Some d \<Rightarrow>
          both (check_impl_satisfies_interface target iface decl (decl_node d))
            (register_coercion target iface decl) a)"

definition register_impl_decl :: "string \<Rightarrow> string option \<Rightarrow> node list \<Rightarrow> node \<Rightarrow> check" where
  "register_impl_decl target iface ms decl a =
     (if find_named_decl (structs a) target = None
      then reject decl (''unknown impl target '' @ in_quotes target) a
      else both (check_each (register_method target) [] ms)
             (case iface of None \<Rightarrow> accept | Some i \<Rightarrow> check_impl_interface target i decl) a)"

definition validate_fields :: "node list \<Rightarrow> string \<Rightarrow> check" where
  "validate_fields fs kind_name = check_each (check_member (kind_name @ '' field'')) [] fs"

definition validate_enum_variants :: "string \<Rightarrow> node \<Rightarrow> check" where
  "validate_enum_variants s decl =
     check_each (\<lambda>pre v.
       if v \<in> set pre then reject decl (''duplicate enum variant '' @ in_quotes (s @ ''.'' @ v))
       else accept) [] (enum_variants decl)"

end
