(* ===== verification/Sema.thy ===== *)
theory Sema
  imports Sema_Register
begin

text \<open>
  The analysis of expressions, statements and bodies in \<^verbatim>\<open>compiler/src/sema/sema.c\<close>, and the driver
  \<^verbatim>\<open>sema_analyze\<close> with its passes over the declarations.
\<close>

subsection \<open>Expressions\<close>

text \<open>The buffers for the two halves of a pattern have 128 bytes.\<close>

definition analyze_match_pattern :: "node \<Rightarrow> string \<Rightarrow> check" where
  "analyze_match_pattern at pat a =
     (if pat = ''_'' \<or> pat \<in> {''Some'', ''None'', ''Ok'', ''Err''} then accept a
      else
        (case strchr pat (CHR ''.'') of
           None \<Rightarrow> reject at (''invalid match pattern '' @ in_quotes pat) a
         | Some i \<Rightarrow>
             if i = 0 \<or> i \<ge> 128 \<or> length (drop (i + 1) pat) \<ge> 128
             then reject at (''invalid match pattern '' @ in_quotes pat) a
             else if find_named_decl (enums a) (take i pat) = None
             then reject at (''unknown enum '' @ in_quotes (take i pat) @ '' in match pattern'') a
             else if \<not> enum_has_variant a (take i pat) (drop (i + 1) pat)
             then reject at (''unknown enum variant '' @ in_quotes pat) a
             else accept a))"

definition ident_known :: "scope \<Rightarrow> analyzer \<Rightarrow> string \<Rightarrow> bool" where
  "ident_known sc a s \<longleftrightarrow>
     s = ''None'' \<or> is_builtin_io s \<or> scope_resolve sc s \<noteq> None \<or> s \<in> set (global_names a) \<or>
     find_named_decl (fn_decls a) s \<noteq> None \<or> find_named_decl (extern_functions a) s \<noteq> None"

definition analyze_ident :: "scope \<Rightarrow> node \<Rightarrow> string \<Rightarrow> check" where
  "analyze_ident sc at s a =
     (if ident_known sc a s then accept a else reject at (''unknown symbol '' @ in_quotes s) a)"

text \<open>\<^verbatim>\<open>is_gfn\<close>: a global name that is no function with a body to analyse.\<close>

definition is_generic_callee :: "analyzer \<Rightarrow> node \<Rightarrow> bool" where
  "is_generic_callee a obj =
     (case nas obj of
        NODE_IDENT s \<Rightarrow>
          s \<in> set (global_names a) \<and> find_named_decl (fn_decls a) s = None \<and>
          find_named_decl (extern_functions a) s = None
      | _ \<Rightarrow> False)"

definition is_constructor_call :: "node \<Rightarrow> bool" where
  "is_constructor_call callee =
     (case nas callee of NODE_IDENT s \<Rightarrow> s \<in> {''Some'', ''Ok'', ''Err''} | _ \<Rightarrow> False)"

text \<open>
  The cases of \<^verbatim>\<open>NODE_FIELD\<close> that are decided without analysing the object: a member of an enum,
  which is checked, and a field of any other known type, which is not.
\<close>

definition analyze_type_member :: "node \<Rightarrow> node \<Rightarrow> string \<Rightarrow> analyzer \<Rightarrow> (bool \<times> analyzer) option" where
  "analyze_type_member at obj f a =
     (case nas obj of
        NODE_IDENT base \<Rightarrow>
          if find_named_decl (enums a) base \<noteq> None then
            Some (if \<not> enum_has_variant a base f \<and> find_method_decl a base f = None
                  then reject at (''unknown enum member '' @ in_quotes (base @ ''.'' @ f)) a
                  else accept a)
          else if is_known_type a base then Some (accept a)
          else None
      | _ \<Rightarrow> None)"

definition find_composite :: "analyzer \<Rightarrow> string \<Rightarrow> named_decl option" where
  "find_composite a s =
     (case find_named_decl (structs a) s of
        Some d \<Rightarrow> Some d
      | None \<Rightarrow>
          (case find_named_decl (unions a) s of
             Some d \<Rightarrow> Some d
           | None \<Rightarrow>
               (case generic_base s of
                  Some b \<Rightarrow> find_named_decl (structs a) b
                | None \<Rightarrow> None)))"

definition check_init_name :: "named_decl \<Rightarrow> node \<Rightarrow> string \<Rightarrow> string list \<Rightarrow> string \<Rightarrow> check" where
  "check_init_name d at ty pre f a =
     (if f \<in> set pre then reject at (''duplicate struct literal field '' @ in_quotes f) a
      else if \<not> composite_has_field (decl_node d) f
      then reject at (''unknown field '' @ in_quotes f @ '' for '' @ in_quotes ty) a
      else accept a)"

text \<open>
  \<open>analyze_inits\<close> is the loop over the fields of a struct literal, with the names before the current
  one; \<open>analyze_arms\<close> the loop over the arms of a match, each in a scope of its own.
\<close>

function (sequential) analyze_expr :: "scope \<Rightarrow> node \<Rightarrow> check"
  and analyze_all :: "scope \<Rightarrow> node list \<Rightarrow> check"
  and analyze_opt :: "scope \<Rightarrow> node option \<Rightarrow> check"
  and analyze_inits ::
    "scope \<Rightarrow> node \<Rightarrow> string \<Rightarrow> named_decl \<Rightarrow> string list \<Rightarrow> (string \<times> node) list \<Rightarrow> check"
  and analyze_arms :: "scope \<Rightarrow> node \<Rightarrow> (string \<times> string list \<times> node) list \<Rightarrow> check" where
  "analyze_expr sc (Node l c x) a =
     (case x of
        NODE_LIT_INT _ \<Rightarrow> accept a
      | NODE_LIT_CHAR _ \<Rightarrow> accept a
      | NODE_LIT_FLOAT _ \<Rightarrow> accept a
      | NODE_LIT_STRING _ \<Rightarrow> accept a
      | NODE_LIT_BOOL _ \<Rightarrow> accept a
      | NODE_LIT_NULL \<Rightarrow> accept a
      | NODE_IDENT s \<Rightarrow> analyze_ident sc (Node l c x) s a
      | NODE_GROUP e \<Rightarrow> analyze_expr sc e a
      | NODE_UNARY _ e \<Rightarrow> analyze_expr sc e a
      | NODE_BINARY _ e f \<Rightarrow> both (\<lambda>a. analyze_expr sc e a) (\<lambda>a. analyze_expr sc f a) a
      | NODE_ASSIGN e f _ \<Rightarrow> both (\<lambda>a. analyze_expr sc e a) (\<lambda>a. analyze_expr sc f a) a
      | NODE_INDEX e i \<Rightarrow>
          if is_generic_callee a e then analyze_expr sc e a
          else both (\<lambda>a. analyze_expr sc e a) (\<lambda>a. analyze_expr sc i a) a
      | NODE_SLICE e s t \<Rightarrow>
          both (\<lambda>a. analyze_expr sc e a)
            (both (\<lambda>a. analyze_opt sc s a) (\<lambda>a. analyze_opt sc t a)) a
      | NODE_CALL e es \<Rightarrow>
          if is_constructor_call e then analyze_all sc es a
          else both (\<lambda>a. analyze_expr sc e a) (\<lambda>a. analyze_all sc es a) a
      | NODE_CAST e t \<Rightarrow> both (validate_type t) (\<lambda>a. analyze_expr sc e a) a
      | NODE_FIELD e f \<Rightarrow>
          (case analyze_type_member (Node l c x) e f a of
             Some r \<Rightarrow> r
           | None \<Rightarrow> analyze_expr sc e a)
      | NODE_STRUCT_LIT s inits \<Rightarrow>
          (case find_composite a s of
             None \<Rightarrow> reject (Node l c x) (''unknown composite type '' @ in_quotes s) a
           | Some d \<Rightarrow> analyze_inits sc (Node l c x) s d [] inits a)
      | NODE_MATCH e arms \<Rightarrow>
          both (\<lambda>a. analyze_expr sc e a) (\<lambda>a. analyze_arms sc (Node l c x) arms a) a
      | _ \<Rightarrow> reject (Node l c x) ''unsupported expression kind'' a)"
| "analyze_all sc [] a = accept a"
| "analyze_all sc (e # es) a = both (\<lambda>a. analyze_expr sc e a) (\<lambda>a. analyze_all sc es a) a"
| "analyze_opt sc None a = accept a"
| "analyze_opt sc (Some e) a = analyze_expr sc e a"
| "analyze_inits sc at ty d pre [] a = accept a"
| "analyze_inits sc at ty d pre ((f, e) # inits) a =
     both (check_init_name d at ty pre f)
       (both (\<lambda>a. analyze_expr sc e a) (\<lambda>a. analyze_inits sc at ty d (pre @ [f]) inits a)) a"
| "analyze_arms sc at [] a = accept a"
| "analyze_arms sc at ((pat, bs, e) # arms) a =
     both (analyze_match_pattern at pat)
       (\<lambda>a. case define_all (scope_new (Some sc)) (map (\<lambda>s. (s, at)) bs) of
              Inl (s, _) \<Rightarrow> reject at (''duplicate match binding '' @ in_quotes s) a
            | Inr arm_scope \<Rightarrow>
                both (\<lambda>a. analyze_expr arm_scope e a) (\<lambda>a. analyze_arms sc at arms a) a) a"
  by pat_completeness auto
termination
  by (relation "measure (\<lambda>x. case x of
       Inl (Inl (_, n, _)) \<Rightarrow> size n
     | Inl (Inr (_, ns, _)) \<Rightarrow> size_list size ns
     | Inr (Inl (_, nop, _)) \<Rightarrow> size_option size nop
     | Inr (Inr (Inl (_, _, _, _, _, fs, _))) \<Rightarrow> size_list (size_prod (\<lambda>_. 0) size) fs
     | Inr (Inr (Inr (_, _, ms, _))) \<Rightarrow>
         size_list (size_prod (\<lambda>_. 0) (size_prod (\<lambda>_. 0) size)) ms)") auto

declare analyze_expr.simps [simp del]

subsection \<open>Statements\<close>

text \<open>
  A statement also changes the scope it is analysed in. Only \<^verbatim>\<open>scope_define\<close> writes to a scope, and
  only to the one it is given, never to a parent, so after \<open>in_scope\<close> (a new scope, the statement, and
  \<^verbatim>\<open>scope_free\<close>) the scope is the one before.
\<close>

type_synonym stmt_check = "scope \<Rightarrow> analyzer \<Rightarrow> bool \<times> scope \<times> analyzer"

definition then_stmt :: "stmt_check \<Rightarrow> stmt_check \<Rightarrow> stmt_check" where
  "then_stmt f g sc a =
     (case f sc a of (ok, sc', a') \<Rightarrow> if ok then g sc' a' else (False, sc', a'))"

definition no_scope :: "(scope \<Rightarrow> check) \<Rightarrow> stmt_check" where
  "no_scope f sc a = (case f sc a of (ok, a') \<Rightarrow> (ok, sc, a'))"

definition in_scope :: "stmt_check \<Rightarrow> stmt_check" where
  "in_scope f sc a = (case f (scope_new (Some sc)) a of (ok, _, a') \<Rightarrow> (ok, sc, a'))"

definition define_local :: "node \<Rightarrow> string \<Rightarrow> stmt_check" where
  "define_local at s sc a =
     (case scope_define sc s at of
        None \<Rightarrow> (case reject at (''duplicate local '' @ in_quotes s) a of (ok, a') \<Rightarrow> (ok, sc, a'))
      | Some sc' \<Rightarrow> (True, sc', a))"

definition analyze_let :: "node \<Rightarrow> string \<Rightarrow> node option \<Rightarrow> node option \<Rightarrow> stmt_check" where
  "analyze_let at s ty v =
     then_stmt (no_scope (\<lambda>sc. both (validate_opt_type ty) (analyze_opt sc v))) (define_local at s)"

definition analyze_jump :: "node \<Rightarrow> string \<Rightarrow> nat \<Rightarrow> stmt_check" where
  "analyze_jump at what d =
     no_scope (\<lambda>sc. if d = 0 then reject at (in_quotes what @ '' can only be used inside a loop'')
                    else accept)"

function (sequential) analyze_stmt :: "nat \<Rightarrow> node \<Rightarrow> stmt_check"
  and analyze_stmt_opt :: "nat \<Rightarrow> node option \<Rightarrow> stmt_check"
  and analyze_else :: "nat \<Rightarrow> node option \<Rightarrow> stmt_check"
  and analyze_block :: "nat \<Rightarrow> node \<Rightarrow> stmt_check"
  and analyze_stmts :: "nat \<Rightarrow> node list \<Rightarrow> stmt_check" where
  "analyze_stmt d (Node l c x) =
     (case x of
        NODE_LET s ty v \<Rightarrow> analyze_let (Node l c x) s ty v
      | NODE_CONST s ty v \<Rightarrow> analyze_let (Node l c x) s ty (Some v)
      | NODE_RETURN v \<Rightarrow> no_scope (\<lambda>sc. analyze_opt sc v)
      | NODE_IF e th el \<Rightarrow>
          then_stmt (no_scope (\<lambda>sc. analyze_expr sc e))
            (then_stmt (in_scope (analyze_block d th)) (in_scope (analyze_else d el)))
      | NODE_WHILE e b \<Rightarrow>
          then_stmt (no_scope (\<lambda>sc. analyze_expr sc e)) (in_scope (analyze_block (d + 1) b))
      | NODE_LOOP b \<Rightarrow> in_scope (analyze_block (d + 1) b)
      | NODE_UNSAFE b \<Rightarrow> in_scope (analyze_block d b)
      | NODE_FOR i e p b \<Rightarrow>
          in_scope
            (then_stmt (analyze_stmt_opt d i)
              (then_stmt (no_scope (\<lambda>sc. both (analyze_opt sc e) (analyze_opt sc p)))
                (in_scope (analyze_block (d + 1) b))))
      | NODE_BREAK \<Rightarrow> analyze_jump (Node l c x) ''break'' d
      | NODE_CONTINUE \<Rightarrow> analyze_jump (Node l c x) ''continue'' d
      | NODE_DEFER e \<Rightarrow> no_scope (\<lambda>sc. analyze_expr sc e)
      | NODE_EXPR_STMT e \<Rightarrow> no_scope (\<lambda>sc. analyze_expr sc e)
      | NODE_BLOCK ss \<Rightarrow> in_scope (analyze_stmts d ss)
      | _ \<Rightarrow> no_scope (\<lambda>sc. reject (Node l c x) ''unsupported statement kind''))"
| "analyze_stmt_opt d None = no_scope (\<lambda>sc. accept)"
| "analyze_stmt_opt d (Some s) = analyze_stmt d s"
| "analyze_else d None = no_scope (\<lambda>sc. accept)"
| "analyze_else d (Some (Node l c x)) =
     (case x of NODE_BLOCK ss \<Rightarrow> analyze_stmts d ss | _ \<Rightarrow> analyze_stmt d (Node l c x))"
| "analyze_block d (Node l c x) =
     (case x of NODE_BLOCK ss \<Rightarrow> analyze_stmts d ss | _ \<Rightarrow> no_scope (\<lambda>sc. accept))"
| "analyze_stmts d [] = no_scope (\<lambda>sc. accept)"
| "analyze_stmts d (s # ss) = then_stmt (analyze_stmt d s) (analyze_stmts d ss)"
  by pat_completeness auto
termination
  by (relation "measure (\<lambda>x. case x of
       Inl (Inl (_, n)) \<Rightarrow> size n
     | Inl (Inr (_, nop)) \<Rightarrow> size_option size nop
     | Inr (Inl (_, nop)) \<Rightarrow> size_option size nop
     | Inr (Inr (Inl (_, n))) \<Rightarrow> size n
     | Inr (Inr (Inr (_, ns))) \<Rightarrow> size_list size ns)") simp_all

declare analyze_stmt.simps [simp del]

subsection \<open>Bodies\<close>

text \<open>
  The scope of a body holds all functions, all extern functions and the parameters. Where a function
  is already defined C returns 0 without a diagnostic.
\<close>

definition named_bindings :: "named_decl list \<Rightarrow> (string \<times> node) list" where
  "named_bindings ds = map (\<lambda>d. (decl_name d, decl_node d)) ds"

definition param_bindings :: "node \<Rightarrow> (string \<times> node) list" where
  "param_bindings fn = map (\<lambda>p. (let_name p, p)) (fn_params fn)"

definition analyze_function_body :: "node \<Rightarrow> check" where
  "analyze_function_body fn a =
     (case define_all (scope_new None) (named_bindings (fn_decls a) @ named_bindings (extern_functions a)) of
        Inl _ \<Rightarrow> (False, a)
      | Inr sc \<Rightarrow>
          (case define_all sc (param_bindings fn) of
             Inl (s, at) \<Rightarrow> reject at (''duplicate parameter '' @ in_quotes s) a
           | Inr sc' \<Rightarrow>
               (case fn_body fn of
                  None \<Rightarrow> accept a
                | Some b \<Rightarrow> (case analyze_block 0 b sc' a of (ok, _, a') \<Rightarrow> (ok, a')))))"

subsection \<open>Passes\<close>

text \<open>
  A pass is a loop over the declarations that stops when \<^verbatim>\<open>had_error\<close> is set. Two treatments of a
  check that returns 0 occur: setting \<^verbatim>\<open>had_error\<close> (which it almost always is already), and
  reporting lack of memory if it is not.
\<close>

primrec until_error :: "('a \<Rightarrow> analyzer \<Rightarrow> analyzer) \<Rightarrow> 'a list \<Rightarrow> analyzer \<Rightarrow> analyzer" where
  "until_error f [] a = a"
| "until_error f (x # xs) a = (if had_error a then a else until_error f xs (f x a))"

definition or_mark :: "check \<Rightarrow> analyzer \<Rightarrow> analyzer" where
  "or_mark f a = (case f a of (ok, a') \<Rightarrow> if ok then a' else a'\<lparr>had_error := True\<rparr>)"

definition or_report :: "node \<Rightarrow> check \<Rightarrow> analyzer \<Rightarrow> analyzer" where
  "or_report at f a =
     (case f a of (ok, a') \<Rightarrow>
        if ok \<or> had_error a' then a' else sema_error (nline at) (ncol at) ''out of memory'' a')"

definition register_type_decl :: "node \<Rightarrow> analyzer \<Rightarrow> analyzer" where
  "register_type_decl decl a =
     (case nas decl of
        NODE_STRUCT_DECL s _ _ _ _ _ \<Rightarrow> or_mark (register_struct_decl s decl) a
      | NODE_ENUM_DECL s _ _ _ \<Rightarrow> or_mark (register_enum_decl s decl) a
      | NODE_UNION_DECL s _ _ _ \<Rightarrow> or_mark (register_union_decl s decl) a
      | NODE_CONST s _ _ \<Rightarrow> or_mark (register_global_name s decl) a
      | _ \<Rightarrow> a)"

definition validate_type_decl :: "node \<Rightarrow> analyzer \<Rightarrow> analyzer" where
  "validate_type_decl decl a =
     (case nas decl of
        NODE_STRUCT_DECL _ _ tps fs _ _ \<Rightarrow>
          if tps \<noteq> [] then a else or_mark (validate_fields fs ''struct'') a
      | NODE_UNION_DECL _ _ fs _ \<Rightarrow> or_mark (validate_fields fs ''union'') a
      | NODE_ENUM_DECL s _ _ _ \<Rightarrow> or_mark (validate_enum_variants s decl) a
      | _ \<Rightarrow> a)"

definition register_comptime_const :: "node \<Rightarrow> analyzer \<Rightarrow> analyzer" where
  "register_comptime_const cn a =
     (case nas cn of NODE_CONST s _ _ \<Rightarrow> snd (register_global_name s cn a) | _ \<Rightarrow> a)"

definition register_interface_or_comptime :: "node \<Rightarrow> analyzer \<Rightarrow> analyzer" where
  "register_interface_or_comptime decl a =
     (case nas decl of
        NODE_INTERFACE_DECL s _ _ _ \<Rightarrow> or_mark (register_interface_decl s decl) a
      | NODE_COMPTIME ds \<Rightarrow> until_error register_comptime_const ds a
      | _ \<Rightarrow> a)"

definition register_callable :: "node \<Rightarrow> analyzer \<Rightarrow> analyzer" where
  "register_callable decl a =
     (case nas decl of
        NODE_FN_DECL s _ _ tps _ _ _ _ \<Rightarrow>
          if tps \<noteq> [] then snd (register_global_name s decl a)
          else or_report decl (register_function_like False decl) a
      | NODE_EXTERN_FN _ _ _ _ _ _ \<Rightarrow> or_report decl (register_function_like True decl) a
      | NODE_IMPL_DECL target _ iface ms \<Rightarrow> or_mark (register_impl_decl target iface ms decl) a
      | NODE_KERNEL_APP _ _ fns _ \<Rightarrow>
          until_error (\<lambda>fn. or_report decl (register_function_like False fn)) fns a
      | _ \<Rightarrow> a)"

definition analyze_bodies :: "node \<Rightarrow> analyzer \<Rightarrow> analyzer" where
  "analyze_bodies decl a =
     (case nas decl of
        NODE_FN_DECL _ _ _ tps _ _ _ _ \<Rightarrow>
          if tps \<noteq> [] then a else or_mark (analyze_function_body decl) a
      | NODE_IMPL_DECL _ _ _ ms \<Rightarrow> until_error (\<lambda>m. or_mark (analyze_function_body m)) ms a
      | NODE_KERNEL_APP _ _ fns _ \<Rightarrow> until_error (\<lambda>fn. or_mark (analyze_function_body fn)) fns a
      | _ \<Rightarrow> a)"

definition import_path :: "node \<Rightarrow> string" where
  "import_path nd = (case nas nd of NODE_IMPORT s \<Rightarrow> s | NODE_PACKAGE s \<Rightarrow> s | _ \<Rightarrow> [])"

text \<open>The loop over the imports does not stop at the first unresolved one.\<close>

definition check_import :: "(string \<Rightarrow> bool) \<Rightarrow> node \<Rightarrow> analyzer \<Rightarrow> analyzer" where
  "check_import fe nd a =
     (if import_path nd = [] then sema_error (nline nd) (ncol nd) ''import path cannot be empty'' a
      else if \<not> import_path_exists fe (source_name a) (import_path nd)
      then sema_error (nline nd) (ncol nd) (''cannot resolve import '' @ in_quotes (import_path nd)) a
      else a)"

definition check_imports :: "(string \<Rightarrow> bool) \<Rightarrow> node list \<Rightarrow> analyzer \<Rightarrow> analyzer" where
  "check_imports fe imps a = (if had_error a then a else fold (check_import fe) imps a)"

definition run_passes :: "(string \<Rightarrow> bool) \<Rightarrow> node list \<Rightarrow> node list \<Rightarrow> analyzer \<Rightarrow> analyzer" where
  "run_passes fe imps ds a =
     check_imports fe imps
       (until_error analyze_bodies ds
         (until_error register_callable ds
           (until_error register_interface_or_comptime ds
             (until_error validate_type_decl ds
               (until_error register_type_decl ds a)))))"

subsection \<open>The driver\<close>

record semantic_model =
  model_functions :: "node list"
  model_extern_functions :: "node list"
  model_structs :: "node list"
  model_enums :: "node list"
  model_unions :: "node list"
  model_impls :: "node list"

definition copy_nodes_from_named :: "named_decl list \<Rightarrow> node list" where
  "copy_nodes_from_named ds = map decl_node ds"

definition is_impl_decl :: "node \<Rightarrow> bool" where
  "is_impl_decl nd = (case nas nd of NODE_IMPL_DECL _ _ _ _ \<Rightarrow> True | _ \<Rightarrow> False)"

definition copy_impl_nodes :: "node list \<Rightarrow> node list" where
  "copy_impl_nodes ds = filter is_impl_decl ds"

definition build_model :: "node list \<Rightarrow> analyzer \<Rightarrow> semantic_model" where
  "build_model ds a =
     \<lparr>model_functions = copy_nodes_from_named (fn_decls a),
      model_extern_functions = copy_nodes_from_named (extern_functions a),
      model_structs = copy_nodes_from_named (structs a),
      model_enums = copy_nodes_from_named (enums a),
      model_unions = copy_nodes_from_named (unions a),
      model_impls = copy_impl_nodes ds\<rparr>"

text \<open>The model, or \<open>None\<close> where C returns 0, and the diagnostics that were printed.\<close>

definition sema_analyze ::
  "(string \<Rightarrow> bool) \<Rightarrow> node \<Rightarrow> string \<Rightarrow> semantic_model option \<times> diagnostic list" where
  "sema_analyze fe program src =
     (case nas program of
        NODE_PROGRAM _ imps ds \<Rightarrow>
          (let a = run_passes fe imps ds (analyzer_init src)
           in (if had_error a then None else Some (build_model ds a), printed a))
      | _ \<Rightarrow> (None, [(0, 0, ''invalid AST root'')]))"

end
