(* ===== verification/Sema_Tables.thy ===== *)
theory Sema_Tables
  imports Sema_Register
begin

text \<open>
  What the analyser relies on in its tables and scopes, stated as two interfaces: a \<open>symbol_table\<close>
  that returns the first entry pushed under a key, and a \<open>name_scope\<close> whose definitions shadow the
  outer ones and may not repeat in one scope. The tables of named declarations, the method table and
  the scope chain of \<^verbatim>\<open>sema.c\<close> are instances. The last part is the calculus of \<open>decides\<close>, in
  which the checks are compared with what they should decide.
\<close>

subsection \<open>Symbol tables\<close>

locale symbol_table =
  fixes empty :: 't
    and push :: "'t \<Rightarrow> 'k \<Rightarrow> 'e \<Rightarrow> 't"
    and find :: "'t \<Rightarrow> 'k \<Rightarrow> 'd option"
    and entry :: "'k \<Rightarrow> 'e \<Rightarrow> 'd"
  assumes find_empty: "find empty k = None"
    and find_push: "find (push t k e) k' =
          (case find t k' of Some d \<Rightarrow> Some d | None \<Rightarrow> if k' = k then Some (entry k e) else None)"
begin

definition push_all :: "'t \<Rightarrow> ('k \<times> 'e) list \<Rightarrow> 't" where
  "push_all t kes = fold (\<lambda>(k, e) t. push t k e) kes t"

lemma push_all_Nil [simp]: "push_all t [] = t"
  by (simp add: push_all_def)

lemma push_all_Cons [simp]: "push_all t ((k, e) # kes) = push_all (push t k e) kes"
  by (simp add: push_all_def)

lemma find_push_all:
  "find (push_all t kes) k =
     (case find t k of Some d \<Rightarrow> Some d | None \<Rightarrow> map_option (entry k) (map_of kes k))"
proof (induction kes arbitrary: t)
  case (Cons ke kes)
  then show ?case
    by (cases ke) (auto simp: find_push split: option.split)
qed (simp split: option.split)

lemma find_built: "find (push_all empty kes) k = map_option (entry k) (map_of kes k)"
  by (simp add: find_push_all find_empty)

lemma find_built_None: "find (push_all empty kes) k = None \<longleftrightarrow> k \<notin> fst ` set kes"
  by (simp add: find_built map_of_eq_None_iff)

end

interpretation named: symbol_table "[]" push_named_decl find_named_decl
  "\<lambda>s nd. \<lparr>decl_name = s, decl_node = nd\<rparr>"
proof
  fix t k e k'
  show "find_named_decl (push_named_decl t k e) k' =
     (case find_named_decl t k' of
        Some d \<Rightarrow> Some d | None \<Rightarrow> if k' = k then Some \<lparr>decl_name = k, decl_node = e\<rparr> else None)"
    by (induction t) (auto simp: push_named_decl_def)
qed simp

interpretation method_table: symbol_table "[]" "\<lambda>t k. push_method_decl t (fst k) (snd k)"
  "\<lambda>t k. find_method t (fst k) (snd k)"
  "\<lambda>k nd. \<lparr>method_owner = fst k, method_name = snd k, method_node = nd\<rparr>"
proof
  fix t k e k'
  show "find_method (push_method_decl t (fst k) (snd k) e) (fst k') (snd k') =
     (case find_method t (fst k') (snd k') of
        Some d \<Rightarrow> Some d
      | None \<Rightarrow> if k' = k then Some \<lparr>method_owner = fst k, method_name = snd k, method_node = e\<rparr> else None)"
    by (induction t) (auto simp: push_method_decl_def prod_eq_iff)
qed simp

lemma find_named_decl_None: "find_named_decl ds s = None \<longleftrightarrow> s \<notin> decl_name ` set ds"
  by (induction ds) auto

lemma find_named_decl_SomeD: "find_named_decl ds s = Some d \<Longrightarrow> d \<in> set ds \<and> decl_name d = s"
  by (induction ds) (auto split: if_splits)

lemma find_method_None:
  "find_method ds owner s = None \<longleftrightarrow> (owner, s) \<notin> (\<lambda>d. (method_owner d, method_name d)) ` set ds"
  by (induction ds) auto

subsection \<open>Scopes\<close>

locale name_scope =
  fixes child :: "'s \<Rightarrow> 's"
    and define_name :: "'s \<Rightarrow> string \<Rightarrow> 'v \<Rightarrow> 's option"
    and resolve :: "'s \<Rightarrow> string \<Rightarrow> 'v option"
    and local_names :: "'s \<Rightarrow> string set"
  assumes local_names_child: "local_names (child sc) = {}"
    and resolve_child: "resolve (child sc) s = resolve sc s"
    and define_None: "define_name sc s nd = None \<longleftrightarrow> s \<in> local_names sc"
    and define_local_names: "define_name sc s nd = Some sc' \<Longrightarrow> local_names sc' = insert s (local_names sc)"
    and define_resolve: "define_name sc s nd = Some sc' \<Longrightarrow>
          resolve sc' s' = (if s' = s then Some nd else resolve sc s')"
begin

lemma define_all_Inl:
  "(\<exists>b. define_all_by define_name sc bs = Inl b) \<longleftrightarrow>
     \<not> distinct (map fst bs) \<or> \<not> fst ` set bs \<inter> local_names sc = {}"
proof (induction bs arbitrary: sc)
  case (Cons b bs)
  obtain s nd where b: "b = (s, nd)" by fastforce
  show ?case
  proof (cases "define_name sc s nd")
    case None
    with define_None [of sc s nd] show ?thesis by (auto simp: b)
  next
    case (Some sc')
    then have "s \<notin> local_names sc"
      using define_None [of sc s nd] by simp
    with Some Cons [of sc'] show ?thesis
      by (auto simp: b define_local_names [OF Some])
  qed
qed simp

lemma define_all_InlD:
  "define_all_by define_name sc bs = Inl b \<Longrightarrow> b \<in> set bs"
proof (induction bs arbitrary: sc)
  case (Cons c bs)
  then show ?case
    by (cases c) (auto split: option.splits)
qed simp

lemma define_all_Inr:
  "define_all_by define_name sc bs = Inr sc' \<Longrightarrow>
     local_names sc' = fst ` set bs \<union> local_names sc \<and>
     resolve sc' s = (case map_of (rev bs) s of Some nd \<Rightarrow> Some nd | None \<Rightarrow> resolve sc s)"
proof (induction bs arbitrary: sc)
  case (Cons b bs)
  obtain t nd where b: "b = (t, nd)" by fastforce
  with Cons.prems obtain sc1 where sc1: "define_name sc t nd = Some sc1"
    and rest: "define_all_by define_name sc1 bs = Inr sc'"
    by (auto split: option.splits)
  from Cons.IH [OF rest] show ?case
    by (auto simp: b define_local_names [OF sc1] define_resolve [OF sc1] map_add_def
        split: option.splits)
qed simp

text \<open>Inside a child scope the outer definitions are visible until they are shadowed.\<close>

lemma define_all_child:
  assumes "define_all_by define_name (child sc) bs = Inr sc'"
  shows "local_names sc' = fst ` set bs"
    and "resolve sc' s \<noteq> None \<longleftrightarrow> s \<in> fst ` set bs \<or> resolve sc s \<noteq> None"
  using define_all_Inr [OF assms, of s] map_of_eq_None_iff [of "rev bs" s]
  by (cases "map_of (rev bs) s"; simp add: local_names_child resolve_child)+

end

definition locals :: "scope \<Rightarrow> string set" where
  "locals sc = bind_name ` set (bindings sc)"

fun visible :: "scope \<Rightarrow> string set" where
  "visible (Scope bs None) = bind_name ` set bs"
| "visible (Scope bs (Some p)) = bind_name ` set bs \<union> visible p"

lemma binding_of_None: "binding_of bs s = None \<longleftrightarrow> s \<notin> bind_name ` set bs"
  by (induction bs) auto

lemma scope_resolve_visible: "scope_resolve sc s \<noteq> None \<longleftrightarrow> s \<in> visible sc"
proof (induction sc s rule: scope_resolve.induct)
  case (2 bs p s)
  then show ?case
    using binding_of_None [of bs s] by (cases "binding_of bs s") auto
qed (simp add: binding_of_None)

interpretation scopes: name_scope "\<lambda>sc. scope_new (Some sc)" scope_define scope_resolve locals
proof
  fix sc s nd sc' s'
  show "scope_define sc s nd = None \<longleftrightarrow> s \<in> locals sc"
    by (cases sc) (simp add: locals_def)
  assume "scope_define sc s nd = Some sc'"
  then show "locals sc' = insert s (locals sc)"
    and "scope_resolve sc' s' = (if s' = s then Some nd else scope_resolve sc s')"
    by (cases "(sc, s')" rule: scope_resolve.cases; force simp: locals_def split: if_splits)+
qed (simp_all add: scope_new_def locals_def)

lemma visible_child [simp]: "visible (scope_new (Some sc)) = visible sc" "locals (scope_new p) = {}"
  by (simp_all add: scope_new_def locals_def)

lemma visible_define:
  assumes "scope_define sc s nd = Some sc'"
  shows "visible sc' = insert s (visible sc)"
  using scopes.define_resolve [OF assms] scope_resolve_visible
  by (metis insert_iff option.discI subset_antisym subsetI)

lemma locals_visible: "locals sc \<subseteq> visible sc"
  by (cases sc rule: visible.cases) (auto simp: locals_def)

subsection \<open>Deciding\<close>

text \<open>
  A check decides \<open>P\<close> in a state if it accepts and leaves the state unchanged when \<open>P\<close> holds, and
  otherwise rejects with exactly one diagnostic.
\<close>

definition rejected :: "analyzer \<Rightarrow> analyzer \<Rightarrow> bool" where
  "rejected a a' \<longleftrightarrow> (\<exists>l c m. a' = sema_error l c m a)"

lemma rejected_sema_error [simp]: "rejected a (sema_error l c m a)"
  by (auto simp: rejected_def)

definition decides :: "check \<Rightarrow> analyzer \<Rightarrow> bool \<Rightarrow> bool" where
  "decides f a P \<longleftrightarrow> (if P then f a = (True, a) else (\<exists>a'. f a = (False, a') \<and> rejected a a'))"

lemma decides_accept: "P \<Longrightarrow> decides accept a P"
  by (simp add: decides_def accept_def)

lemma decides_reject: "\<not> P \<Longrightarrow> decides (reject at m) a P"
  by (auto simp: decides_def reject_def)

lemma decides_if:
  "(b \<Longrightarrow> decides f a P) \<Longrightarrow> (\<not> b \<Longrightarrow> decides g a P) \<Longrightarrow> decides (if b then f else g) a P"
  by simp

lemma decides_both:
  assumes "decides f a P" "P \<Longrightarrow> decides g a Q"
  shows "decides (both f g) a (P \<and> Q)"
  using assms by (auto simp: decides_def both_def split: if_splits)

lemma decides_accepted: "decides f a P \<Longrightarrow> fst (f a) \<longleftrightarrow> P"
  by (auto simp: decides_def split: if_splits)

lemma decides_check_each:
  assumes "\<And>i. i < length xs \<Longrightarrow> decides (f (pre @ take i xs) (xs ! i)) a (P i)"
  shows "decides (check_each f pre xs) a (\<forall>i < length xs. P i)"
  using assms
proof (induction xs arbitrary: pre P)
  case (Cons x xs)
  have "decides (check_each f pre (x # xs)) a (P 0 \<and> (\<forall>i < length xs. P (Suc i)))"
    unfolding check_each.simps
  proof (rule decides_both)
    show "decides (f pre x) a (P 0)"
      using Cons.prems [of 0] by simp
    show "decides (check_each f (pre @ [x]) xs) a (\<forall>i < length xs. P (Suc i))"
      using Cons.prems [of "Suc i" for i] by (intro Cons.IH) simp
  qed
  moreover have "(P 0 \<and> (\<forall>i < length xs. P (Suc i))) = (\<forall>i < length (x # xs). P i)"
    by (simp add: All_less_Suc2)
  ultimately show ?case by simp
qed (simp add: decides_accept)

end
