(* ===== verification/Sema_Types.thy ===== *)
theory Sema_Types
  imports Sema_Tables
begin

text \<open>
  The language of type names that \<^verbatim>\<open>validate_type_name\<close> accepts, as a grammar over the declared
  names, and as the printed form of type terms; the same for whole types and for match patterns.
\<close>

subsection \<open>The grammar of type names\<close>

definition depth :: "string \<Rightarrow> int" where
  "depth s = int (count_list s (CHR ''['')) - int (count_list s (CHR '']''))"

text \<open>No comma of the text is outside brackets, and the brackets of the text balance.\<close>

definition comma_free :: "string \<Rightarrow> bool" where
  "comma_free s \<longleftrightarrow> depth s = 0 \<and> (\<forall>i < length s. s ! i = CHR '','' \<longrightarrow> depth (take i s) \<noteq> 0)"

definition generic_struct :: "analyzer \<Rightarrow> string \<Rightarrow> bool" where
  "generic_struct a b \<longleftrightarrow>
     length b < 256 \<and> CHR ''['' \<notin> set b \<and>
     (\<exists>d. find_named_decl (structs a) b = Some d \<and> struct_type_params (decl_node d) \<noteq> [])"

definition plain_type :: "analyzer \<Rightarrow> string \<Rightarrow> bool" where
  "plain_type a s \<longleftrightarrow> is_identifier_like_name s \<and> is_known_type a s"

inductive valid_type_name :: "analyzer \<Rightarrow> string \<Rightarrow> bool" for a where
  plain: "plain_type a s \<Longrightarrow> valid_type_name a s"
| generic: "generic_struct a b \<Longrightarrow> b \<noteq> ''Option'' \<Longrightarrow> b \<noteq> ''Result'' \<Longrightarrow>
     valid_type_name a (b @ ''['' @ args @ '']'')"
| option: "valid_type_name a t \<Longrightarrow> valid_type_name a (''Option['' @ t @ '']'')"
| result: "valid_type_name a t \<Longrightarrow> valid_type_name a e \<Longrightarrow> comma_free t \<Longrightarrow>
     valid_type_name a (''Result['' @ t @ '','' @ e @ '']'')"

lemma c_at_last: "c_at s (length s - 1) = c \<Longrightarrow> c \<noteq> NUL \<Longrightarrow> s = butlast s @ [c]"
  by (cases s rule: rev_cases) (auto simp: c_at_def nth_append)

lemma c_at_append_right: "c_at (s @ t) (length s + i) = c_at t i"
  by (simp add: c_at_def nth_append)

lemma strchr_split: "strchr s c = Some i \<Longrightarrow> s = take i s @ c # drop (Suc i) s \<and> c \<notin> set (take i s)"
  using strchr_SomeD [of s c i] id_take_nth_drop [of i s] by simp

lemma type_name_has_form_iff:
  "type_name_has_form s p \<longleftrightarrow> (\<exists>t. s = p @ ''['' @ t @ '']'')"
proof
  assume f: "type_name_has_form s p"
  define r where "r = drop (length p) s"
  have s: "s = p @ r" and len: "1 < length r" and h: "c_at r 0 = CHR ''[''"
    using f by (auto simp: type_name_has_form_def r_def c_at_def) (metis append_take_drop_id)
  have "c_at r (length r - 1) = CHR '']''"
    using f len c_at_append_right [of p r "length r - 1"] by (simp add: type_name_has_form_def s)
  then have "r = butlast r @ '']''" by (intro c_at_last) auto
  moreover obtain x ys where r: "r = x # ys" "ys \<noteq> []" using len by (cases r) auto
  ultimately show "\<exists>t. s = p @ ''['' @ t @ '']''"
    using s h by (auto simp: c_at_def)
qed (auto simp: type_name_has_form_def c_at_def nth_append)

lemma bracket_forms:
  "slice_range (''Option['' @ t @ '']'') 7 = t" "slice_range (''Result['' @ t @ '']'') 7 = t"
  "type_name_has_form (''Option['' @ t @ '']'') ''Option''"
  "type_name_has_form (''Result['' @ t @ '']'') ''Result''"
  "\<not> type_name_has_form (''Result['' @ t @ '']'') ''Option''"
  by (simp_all add: slice_range_def substr_def type_name_has_form_iff)

lemma top_level_comma_Some_iff:
  "top_level_comma k s = Some i \<longleftrightarrow>
     i < length s \<and> s ! i = CHR '','' \<and> k + depth (take i s) = 0 \<and>
     (\<forall>j < i. s ! j = CHR '','' \<longrightarrow> k + depth (take j s) \<noteq> 0)"
proof (induction k s arbitrary: i rule: top_level_comma.induct)
  case (2 k c cs)
  show ?case
    by (cases i) (use 2 in \<open>auto simp: depth_def All_less_Suc2 algebra_simps split: if_splits\<close>)
qed simp

lemma split_top_level_comma_iff:
  "split_top_level_comma s = Some (t, e) \<longleftrightarrow> s = t @ '','' @ e \<and> comma_free t"
proof
  assume "split_top_level_comma s = Some (t, e)"
  then obtain i where i: "top_level_comma 0 s = Some i" and t: "t = take i s" and e: "e = drop (i + 1) s"
    by (auto simp: split_top_level_comma_def)
  from i show "s = t @ '','' @ e \<and> comma_free t"
    unfolding top_level_comma_Some_iff t e
    by (auto simp: comma_free_def min_def id_take_nth_drop [symmetric])
      (metis Cons_nth_drop_Suc append_take_drop_id)
next
  assume "s = t @ '','' @ e \<and> comma_free t"
  then have "top_level_comma 0 s = Some (length t)"
    unfolding top_level_comma_Some_iff by (auto simp: comma_free_def nth_append)
  with \<open>s = t @ '','' @ e \<and> comma_free t\<close> show "split_top_level_comma s = Some (t, e)"
    by (simp add: split_top_level_comma_def)
qed

lemma generic_base_iff:
  "generic_base s = Some b \<longleftrightarrow> (\<exists>t. s = b @ ''['' @ t) \<and> last s = CHR '']'' \<and> CHR ''['' \<notin> set b \<and> length b < 256"
proof -
  have last: "c_at s (length s - 1) = last s" if "s \<noteq> []"
    using that by (simp add: c_at_def last_conv_nth)
  show ?thesis
  proof
    assume "generic_base s = Some b"
    then obtain i where i: "strchr s (CHR ''['') = Some i" "i < 256" "b = take i s"
      and l: "c_at s (length s - 1) = CHR '']''"
      by (auto simp: generic_base_def split: option.splits if_splits)
    then have "s \<noteq> []" by auto
    with strchr_split [OF i(1)] i l last
    show "(\<exists>t. s = b @ ''['' @ t) \<and> last s = CHR '']'' \<and> CHR ''['' \<notin> set b \<and> length b < 256"
      by (auto intro: exI [of _ "drop (Suc i) s"])
  next
    assume "(\<exists>t. s = b @ ''['' @ t) \<and> last s = CHR '']'' \<and> CHR ''['' \<notin> set b \<and> length b < 256"
    then show "generic_base s = Some b"
      using last by (auto simp: generic_base_def strchr_append)
  qed
qed

lemma bracket_eq:
  assumes "b @ CHR ''['' # x = p @ CHR ''['' # y" "CHR ''['' \<notin> set b" "CHR ''['' \<notin> set p"
  shows "b = p \<and> x = y"
proof -
  have "length b = length p"
    using assms strchr_append [of "CHR ''[''" b x] strchr_append [of "CHR ''[''" p y] by simp
  with assms(1) show ?thesis by simp
qed

lemma generic_struct_type_iff:
  "is_generic_struct_type a s \<longleftrightarrow> (\<exists>b args. s = b @ ''['' @ args @ '']'' \<and> generic_struct a b)"
proof -
  have "(\<exists>t. s = b @ ''['' @ t) \<and> last s = CHR '']'' \<longleftrightarrow> (\<exists>args. s = b @ ''['' @ args @ '']'')" for b
  proof
    assume "(\<exists>t. s = b @ ''['' @ t) \<and> last s = CHR '']''"
    then obtain t where t: "s = b @ ''['' @ t" "last s = CHR '']''" by blast
    then have "t \<noteq> []" by auto
    then have "t = butlast t @ '']''" using t append_butlast_last_id [of t] by simp
    with t(1) show "\<exists>args. s = b @ ''['' @ args @ '']''" by metis
  qed auto
  then have base: "generic_base s = Some b \<longleftrightarrow>
      (\<exists>args. s = b @ ''['' @ args @ '']'') \<and> CHR ''['' \<notin> set b \<and> length b < 256" for b
    unfolding generic_base_iff by blast
  have "is_generic_struct_type a s \<longleftrightarrow> (\<exists>b d. generic_base s = Some b \<and>
      find_named_decl (structs a) b = Some d \<and> struct_type_params (decl_node d) \<noteq> [])"
    by (auto simp: is_generic_struct_type_def split: option.splits)
  then show ?thesis
    unfolding base generic_struct_def by blast
qed

lemma generic_instance:
  assumes "CHR ''['' \<notin> set b"
  shows "is_generic_struct_type a (b @ ''['' @ args @ '']'') \<longleftrightarrow> generic_struct a b"
proof
  assume "is_generic_struct_type a (b @ ''['' @ args @ '']'')"
  then obtain b' args' where e: "b @ ''['' @ args @ '']'' = b' @ ''['' @ args' @ '']''"
    and g: "generic_struct a b'"
    unfolding generic_struct_type_iff by blast
  with assms bracket_eq [of b "args @ '']''" b' "args' @ '']''"] have "b = b'"
    by (simp add: generic_struct_def)
  with g show "generic_struct a b" by simp
qed (auto simp: generic_struct_type_iff)

lemma no_form:
  assumes "CHR ''['' \<notin> set p" "CHR ''['' \<notin> set b" "b \<noteq> p"
  shows "\<not> type_name_has_form (b @ ''['' @ args @ '']'') p"
proof
  assume "type_name_has_form (b @ ''['' @ args @ '']'') p"
  then obtain t where "b @ ''['' @ args @ '']'' = p @ ''['' @ t @ '']''"
    unfolding type_name_has_form_iff by blast
  with assms bracket_eq [of b "args @ '']''" p "t @ '']''"] show False
    by simp
qed

lemma identifier_no_bracket: "is_identifier_like_name s \<Longrightarrow> CHR ''['' \<notin> set s"
  by (auto simp: is_identifier_like_name_def list_all_iff in_range_def)

lemma identifier_no_form: "is_identifier_like_name s \<Longrightarrow> \<not> type_name_has_form s p"
  using identifier_no_bracket [of s] by (auto simp: type_name_has_form_iff)

lemma validate_option: "validate_type_name a (''Option['' @ t @ '']'') = validate_type_name a t"
  by (subst validate_type_name.simps) (simp only: bracket_forms if_True)

lemma validate_result_split:
  "validate_type_name a (''Result['' @ t @ '']'') \<longleftrightarrow>
     (\<exists>u e. split_top_level_comma t = Some (u, e) \<and> validate_type_name a u \<and> validate_type_name a e)"
  by (subst validate_type_name.simps) (simp only: bracket_forms if_True if_False split: option.split; auto)

lemmas validate_result = validate_result_split [unfolded split_top_level_comma_iff, simplified conj_assoc]

lemma validate_other:
  assumes "\<not> type_name_has_form s ''Option''" "\<not> type_name_has_form s ''Result''"
  shows "validate_type_name a s \<longleftrightarrow> is_generic_struct_type a s \<or> plain_type a s"
  using assms by (subst validate_type_name.simps) (simp add: plain_type_def)

lemma validate_type_name_sound: "validate_type_name a s \<Longrightarrow> valid_type_name a s"
proof (induction "length s" arbitrary: s rule: less_induct)
  case less
  consider (opt) t where "s = ''Option['' @ t @ '']''" | (res) t where "s = ''Result['' @ t @ '']''"
    | (other) "\<not> type_name_has_form s ''Option''" "\<not> type_name_has_form s ''Result''"
    by (auto simp: type_name_has_form_iff)
  then show ?case
  proof cases
    case (opt t)
    then have "valid_type_name a t"
      using less.prems by (intro less.hyps) (simp_all only: validate_option, simp)
    then show ?thesis
      unfolding opt by (rule valid_type_name.option)
  next
    case (res t)
    then obtain u e where t: "t = u @ '','' @ e" and u: "comma_free u"
      and v: "validate_type_name a u" "validate_type_name a e"
      using less.prems by (auto simp only: validate_result)
    have "valid_type_name a u" "valid_type_name a e"
      using v by (auto intro!: less.hyps simp: res t)
    then have "valid_type_name a (''Result['' @ u @ '','' @ e @ '']'')"
      using u by (rule valid_type_name.result)
    then show ?thesis
      by (simp add: res t)
  next
    case other
    then consider "plain_type a s" | b args where "s = b @ ''['' @ args @ '']''" "generic_struct a b"
      using less.prems by (auto simp: validate_other generic_struct_type_iff)
    then show ?thesis
    proof cases
      case 2
      with other have "b \<noteq> ''Option''" "b \<noteq> ''Result''"
        by (auto simp: type_name_has_form_iff)
      with 2(2) show ?thesis
        unfolding 2(1) by (intro valid_type_name.generic)
    qed (rule valid_type_name.plain)
  qed
qed

lemma validate_type_name_complete: "valid_type_name a s \<Longrightarrow> validate_type_name a s"
proof (induction rule: valid_type_name.induct)
  case (plain s)
  then show ?case
    by (subst validate_other) (simp_all add: plain_type_def identifier_no_form)
next
  case (generic b args)
  then have "CHR ''['' \<notin> set b" by (simp add: generic_struct_def)
  with generic show ?case
    by (subst validate_other)
      (simp_all only: no_form generic_struct_type_iff list.set char.inject insert_iff
        empty_iff simp_thms, blast)
next
  case (option t)
  then show ?case by (simp only: validate_option)
next
  case (result t e)
  then have "validate_type_name a (''Result['' @ (t @ '','' @ e) @ '']'')"
    unfolding validate_result by blast
  then show ?case by simp
qed

subsection \<open>Type terms\<close>

text \<open>
  The names that the parser builds for written types: the constructors \<^verbatim>\<open>Option\<close> and \<^verbatim>\<open>Result\<close>, an
  instance of a generic struct, and plain names.
\<close>

datatype type_term =
    TName string
  | TOption type_term
  | TResult type_term type_term
  | TInst string "type_term list"

fun print_term :: "type_term \<Rightarrow> string" and print_terms :: "type_term list \<Rightarrow> string" where
  "print_term (TName s) = s"
| "print_term (TOption t) = ''Option['' @ print_term t @ '']''"
| "print_term (TResult t e) = ''Result['' @ print_term t @ '','' @ print_term e @ '']''"
| "print_term (TInst b ts) = b @ ''['' @ print_terms ts @ '']''"
| "print_terms [] = []"
| "print_terms [t] = print_term t"
| "print_terms (t # u # ts) = print_term t @ '','' @ print_terms (u # ts)"

text \<open>The names of a term are identifiers, and its instances are not of the two built-in constructors.\<close>

fun proper_term :: "type_term \<Rightarrow> bool" where
  "proper_term (TName s) \<longleftrightarrow> is_identifier_like_name s"
| "proper_term (TOption t) \<longleftrightarrow> proper_term t"
| "proper_term (TResult t e) \<longleftrightarrow> proper_term t \<and> proper_term e"
| "proper_term (TInst b ts) \<longleftrightarrow>
     is_identifier_like_name b \<and> b \<noteq> ''Option'' \<and> b \<noteq> ''Result'' \<and> list_all proper_term ts"

text \<open>What is checked of a term: every name outside the arguments of generic structs.\<close>

fun declared_term :: "analyzer \<Rightarrow> type_term \<Rightarrow> bool" where
  "declared_term a (TName s) \<longleftrightarrow> is_known_type a s"
| "declared_term a (TOption t) \<longleftrightarrow> declared_term a t"
| "declared_term a (TResult t e) \<longleftrightarrow> declared_term a t \<and> declared_term a e"
| "declared_term a (TInst b ts) \<longleftrightarrow> generic_struct a b"

text \<open>The position a search returns after a prefix of length \<open>n\<close>.\<close>

definition later :: "nat \<Rightarrow> nat option \<Rightarrow> nat option" where
  "later n x = map_option ((+) n) x"

lemma later_simps:
  "later 0 x = x" "later m (later n x) = later (m + n) x" "map_option Suc x = later 1 x"
  by (cases x; simp add: later_def)+

text \<open>A prefix without brackets or commas, and a printed term, are skipped by the search for a comma.\<close>

lemma scan_identifier:
  "is_identifier_like_name s \<Longrightarrow> top_level_comma k (s @ r) = later (length s) (top_level_comma k r)"
proof -
  assume "is_identifier_like_name s"
  then have "list_all (\<lambda>c. c \<noteq> CHR ''['' \<and> c \<noteq> CHR '']'' \<and> c \<noteq> CHR '','') s"
    by (auto simp: is_identifier_like_name_def list_all_iff in_range_def)
  then show ?thesis
    by (induction s) (auto simp: later_simps)
qed

lemma scan_term:
  "proper_term t \<Longrightarrow> 0 \<le> k \<Longrightarrow>
     top_level_comma k (print_term t @ r) = later (length (print_term t)) (top_level_comma k r)"
  "list_all proper_term ts \<Longrightarrow> 0 < k \<Longrightarrow>
     top_level_comma k (print_terms ts @ r) = later (length (print_terms ts)) (top_level_comma k r)"
proof (induction t and ts arbitrary: k r and k r rule: print_term_print_terms.induct)
  case (1 s)
  then show ?case using scan_identifier [of s k r] by simp
next
  case (4 b ts)
  then show ?case
    using scan_identifier [of b k "CHR ''['' # print_terms ts @ CHR '']'' # r"]
    by (simp add: later_simps)
qed (auto simp: later_simps)

lemma split_printed:
  "proper_term t \<Longrightarrow> split_top_level_comma (print_term t @ CHR '','' # s) = Some (print_term t, s)"
  by (simp add: split_top_level_comma_def scan_term later_def)

lemma validate_print_term:
  "proper_term t \<Longrightarrow> validate_type_name a (print_term t) \<longleftrightarrow> declared_term a t"
proof (induction t)
  case (TName s)
  then have "\<not> is_generic_struct_type a s"
    using identifier_no_bracket [of s] by (auto simp: generic_struct_type_iff)
  with TName show ?case
    by (subst print_term.simps, subst validate_other) (simp_all add: identifier_no_form plain_type_def)
next
  case (TOption t)
  then show ?case by (simp only: print_term.simps validate_option proper_term.simps declared_term.simps)
next
  case (TResult t e)
  have "validate_type_name a (print_term (TResult t e)) \<longleftrightarrow>
      validate_type_name a (''Result['' @ (print_term t @ '','' @ print_term e) @ '']'')"
    by simp
  also have "\<dots> \<longleftrightarrow> validate_type_name a (print_term t) \<and> validate_type_name a (print_term e)"
    unfolding validate_result_split using TResult.prems by (simp add: split_printed)
  finally show ?case
    using TResult by simp
next
  case (TInst b ts)
  let ?s = "b @ ''['' @ print_terms ts @ '']''"
  have b: "CHR ''['' \<notin> set b" "b \<noteq> ''Option''" "b \<noteq> ''Result''"
    using TInst.prems identifier_no_bracket by auto
  have "\<not> type_name_has_form ?s ''Option''" "\<not> type_name_has_form ?s ''Result''"
    using b by (simp_all only: no_form list.set char.inject insert_iff empty_iff simp_thms)
  moreover have "\<not> plain_type a ?s"
    using identifier_no_bracket [of ?s] by (auto simp: plain_type_def)
  moreover have "is_generic_struct_type a ?s \<longleftrightarrow> generic_struct a b"
    using b by (intro generic_instance)
  ultimately show ?case
    by (simp add: validate_other)
qed

subsection \<open>Types and patterns\<close>

inductive valid_type :: "analyzer \<Rightarrow> node \<Rightarrow> bool" for a where
  named: "valid_type_name a s \<Longrightarrow> valid_type a (Node l c (NODE_TYPE_NAMED s))"
| pointer: "valid_type a t \<Longrightarrow> valid_type a (Node l c (NODE_TYPE_POINTER t m q))"
| array: "valid_type a t \<Longrightarrow> valid_type a (Node l c (NODE_TYPE_ARRAY t n))"

inductive_simps valid_type_Node: "valid_type a (Node l c x)"

abbreviation valid_opt_type :: "analyzer \<Rightarrow> node option \<Rightarrow> bool" where
  "valid_opt_type a t \<equiv> pred_option (valid_type a) t"

lemma valid_type_name_iff: "validate_type_name a s \<longleftrightarrow> valid_type_name a s"
  using validate_type_name_sound validate_type_name_complete by blast

lemma decides_validate_type: "decides (validate_type t) a (valid_type a t)"
proof (induction t a rule: validate_type.induct)
  case (1 l c ty a)
  show ?case
  proof (cases ty)
    case (NODE_TYPE_NAMED s)
    then show ?thesis
      by (auto simp: decides_def valid_type_Node valid_type_name_iff accept_def reject_def)
  qed (use 1 in \<open>auto simp: decides_def valid_type_Node reject_def\<close>)
qed

lemma decides_validate_opt_type: "decides (validate_opt_type t) a (valid_opt_type a t)"
  by (cases t) (simp_all add: validate_opt_type_def decides_accept decides_validate_type)

text \<open>A pattern: a wildcard, a constructor of \<^verbatim>\<open>Option\<close> or \<^verbatim>\<open>Result\<close>, or a variant of a declared enum.\<close>

inductive valid_pattern :: "analyzer \<Rightarrow> string \<Rightarrow> bool" for a where
  builtin: "p \<in> {''_'', ''Some'', ''None'', ''Ok'', ''Err''} \<Longrightarrow> valid_pattern a p"
| variant: "enum_has_variant a e v \<Longrightarrow> e \<noteq> [] \<Longrightarrow> CHR ''.'' \<notin> set e \<Longrightarrow> length e < 128 \<Longrightarrow>
     length v < 128 \<Longrightarrow> valid_pattern a (e @ CHR ''.'' # v)"

lemma enum_has_variant_known: "enum_has_variant a e v \<Longrightarrow> find_named_decl (enums a) e \<noteq> None"
  by (auto simp: enum_has_variant_def split: option.splits)

lemma valid_pattern_iff:
  "valid_pattern a p \<longleftrightarrow> p \<in> {''_'', ''Some'', ''None'', ''Ok'', ''Err''} \<or>
     (\<exists>i. strchr p (CHR ''.'') = Some i \<and> 0 < i \<and> i < 128 \<and> length (drop (i + 1) p) < 128 \<and>
          enum_has_variant a (take i p) (drop (i + 1) p))"
proof
  assume "valid_pattern a p"
  then show "p \<in> {''_'', ''Some'', ''None'', ''Ok'', ''Err''} \<or>
     (\<exists>i. strchr p (CHR ''.'') = Some i \<and> 0 < i \<and> i < 128 \<and> length (drop (i + 1) p) < 128 \<and>
          enum_has_variant a (take i p) (drop (i + 1) p))"
    by cases (auto simp: strchr_append)
next
  have "valid_pattern a p"
    if "strchr p (CHR ''.'') = Some i" "0 < i" "i < 128" "length (drop (i + 1) p) < 128"
      "enum_has_variant a (take i p) (drop (i + 1) p)" for i
  proof -
    from strchr_split [OF that(1)] that have "valid_pattern a (take i p @ CHR ''.'' # drop (Suc i) p)"
      by (intro valid_pattern.variant) auto
    with strchr_split [OF that(1)] show ?thesis by simp
  qed
  then show "p \<in> {''_'', ''Some'', ''None'', ''Ok'', ''Err''} \<or>
     (\<exists>i. strchr p (CHR ''.'') = Some i \<and> 0 < i \<and> i < 128 \<and> length (drop (i + 1) p) < 128 \<and>
          enum_has_variant a (take i p) (drop (i + 1) p)) \<Longrightarrow> valid_pattern a p"
    using valid_pattern.builtin by blast
qed

subsection \<open>Properties\<close>

text \<open>C30: The accepted type names are a language: a declared or built-in identifier, an instance
  \<^verbatim>\<open>Base[...]\<close> of a declared generic struct with a base of fewer than 256 bytes and any text between
  the brackets, \<^verbatim>\<open>Option[T]\<close> of an accepted name, and \<^verbatim>\<open>Result[T,E]\<close> of two accepted names where
  the separating comma is the first one outside brackets.\<close>

theorem type_names_follow_grammar:
  "validate_type_name a s = valid_type_name a s"
  by (rule valid_type_name_iff)

text \<open>C31: Printing a type term and validating the printed name checks exactly that the names of the
  term are declared, through any nesting of \<^verbatim>\<open>Option\<close>, \<^verbatim>\<open>Result\<close> and generic instances; the
  arguments of a generic struct are the one part that is not checked.\<close>

theorem printed_types_validate:
  assumes "proper_term t"
  shows "validate_type_name a (print_term t) = declared_term a t"
  using assms by (rule validate_print_term)

theorem printed_types_validate_witness:
  "validate_type_name (analyzer_init []) ''Result[Option[i32],Result[str,Option[bool]]]''
   \<and> \<not> validate_type_name (analyzer_init []) ''Result[Option[i32],Result[str,Option[Point]]]''"
proof -
  let ?t = "\<lambda>s. TResult (TOption (TName ''i32'')) (TResult (TName ''str'') (TOption (TName s)))"
  have "proper_term (?t ''bool'')" "proper_term (?t ''Point'')"
    by (simp_all add: is_identifier_like_name_def in_range_def)
  from this [THEN printed_types_validate [of _ "analyzer_init []"]] show ?thesis
    by (simp add: is_known_type_def is_builtin_type_def BUILTIN_TYPES_def analyzer_init_def)
qed

end
