(* ===== verification/Sema_Rules.thy ===== *)
theory Sema_Rules
  imports Sema Sema_Types
begin

text \<open>
  The static semantics that \<^verbatim>\<open>sema.c\<close> implements, as inductive judgements over sets of visible
  names, and the proof that the analysis of expressions and statements decides them.

  \<open>wf_expr a \<Gamma> e\<close>: with the tables of \<open>a\<close> and the names \<open>\<Gamma>\<close> of the enclosing scopes, every name in
  \<open>e\<close> is declared and used as what it is. \<open>wf_stmt a d \<Gamma> F s F'\<close>: inside \<open>d\<close> loops, with the names
  \<open>\<Gamma>\<close> of the outer scopes and \<open>F\<close> of the current one, \<open>s\<close> is well-formed and the current scope has
  the names \<open>F'\<close> after it.
\<close>

subsection \<open>The judgements\<close>

definition name_known :: "analyzer \<Rightarrow> string set \<Rightarrow> string \<Rightarrow> bool" where
  "name_known a \<Gamma> s \<longleftrightarrow>
     s = ''None'' \<or> s \<in> set BUILTIN_IO \<or> s \<in> \<Gamma> \<or> s \<in> set (global_names a) \<or>
     s \<in> decl_name ` set (fn_decls a) \<or> s \<in> decl_name ` set (extern_functions a)"

text \<open>An identifier that names an enum, or another type, before a dot.\<close>

definition names_enum :: "analyzer \<Rightarrow> node \<Rightarrow> bool" where
  "names_enum a e \<longleftrightarrow> (\<exists>b. nas e = NODE_IDENT b \<and> b \<in> decl_name ` set (enums a))"

definition names_type :: "analyzer \<Rightarrow> node \<Rightarrow> bool" where
  "names_type a e \<longleftrightarrow> (\<exists>b. nas e = NODE_IDENT b \<and> is_known_type a b)"

definition enum_member :: "analyzer \<Rightarrow> node \<Rightarrow> string \<Rightarrow> bool" where
  "enum_member a e f \<longleftrightarrow>
     (\<exists>b. nas e = NODE_IDENT b \<and> (enum_has_variant a b f \<or> find_method_decl a b f \<noteq> None))"

inductive wf_expr :: "analyzer \<Rightarrow> string set \<Rightarrow> node \<Rightarrow> bool" for a where
  lit_int: "wf_expr a \<Gamma> (Node l c (NODE_LIT_INT i))"
| lit_char: "wf_expr a \<Gamma> (Node l c (NODE_LIT_CHAR i))"
| lit_float: "wf_expr a \<Gamma> (Node l c (NODE_LIT_FLOAT s))"
| lit_string: "wf_expr a \<Gamma> (Node l c (NODE_LIT_STRING s))"
| lit_bool: "wf_expr a \<Gamma> (Node l c (NODE_LIT_BOOL b))"
| lit_null: "wf_expr a \<Gamma> (Node l c NODE_LIT_NULL)"
| ident: "name_known a \<Gamma> s \<Longrightarrow> wf_expr a \<Gamma> (Node l c (NODE_IDENT s))"
| group: "wf_expr a \<Gamma> e \<Longrightarrow> wf_expr a \<Gamma> (Node l c (NODE_GROUP e))"
| unary: "wf_expr a \<Gamma> e \<Longrightarrow> wf_expr a \<Gamma> (Node l c (NODE_UNARY q e))"
| binary: "wf_expr a \<Gamma> e \<Longrightarrow> wf_expr a \<Gamma> f \<Longrightarrow> wf_expr a \<Gamma> (Node l c (NODE_BINARY q e f))"
| assign: "wf_expr a \<Gamma> e \<Longrightarrow> wf_expr a \<Gamma> f \<Longrightarrow> wf_expr a \<Gamma> (Node l c (NODE_ASSIGN e f q))"
| index: "wf_expr a \<Gamma> e \<Longrightarrow> is_generic_callee a e \<or> wf_expr a \<Gamma> i \<Longrightarrow>
    wf_expr a \<Gamma> (Node l c (NODE_INDEX e i))"
| slice: "wf_expr a \<Gamma> e \<Longrightarrow> pred_option (wf_expr a \<Gamma>) s \<Longrightarrow> pred_option (wf_expr a \<Gamma>) t \<Longrightarrow>
    wf_expr a \<Gamma> (Node l c (NODE_SLICE e s t))"
| call: "is_constructor_call e \<or> wf_expr a \<Gamma> e \<Longrightarrow> list_all (wf_expr a \<Gamma>) es \<Longrightarrow>
    wf_expr a \<Gamma> (Node l c (NODE_CALL e es))"
| cast: "wf_expr a \<Gamma> e \<Longrightarrow> valid_type a t \<Longrightarrow> wf_expr a \<Gamma> (Node l c (NODE_CAST e t))"
| enum_field: "names_enum a e \<Longrightarrow> enum_member a e f \<Longrightarrow> wf_expr a \<Gamma> (Node l c (NODE_FIELD e f))"
| type_field: "names_type a e \<Longrightarrow> \<not> names_enum a e \<Longrightarrow> wf_expr a \<Gamma> (Node l c (NODE_FIELD e f))"
| field: "\<not> names_type a e \<Longrightarrow> wf_expr a \<Gamma> e \<Longrightarrow> wf_expr a \<Gamma> (Node l c (NODE_FIELD e f))"
| struct_lit: "find_composite a s = Some d \<Longrightarrow> distinct (map fst inits) \<Longrightarrow>
    list_all (\<lambda>(f, e). composite_has_field (decl_node d) f \<and> wf_expr a \<Gamma> e) inits \<Longrightarrow>
    wf_expr a \<Gamma> (Node l c (NODE_STRUCT_LIT s inits))"
| match: "wf_expr a \<Gamma> e \<Longrightarrow>
    list_all (\<lambda>(p, bs, v). valid_pattern a p \<and> distinct bs \<and> wf_expr a (\<Gamma> \<union> set bs) v) arms \<Longrightarrow>
    wf_expr a \<Gamma> (Node l c (NODE_MATCH e arms))"

inductive_simps wf_expr_Node: "wf_expr a \<Gamma> (Node l c x)"

inductive wf_stmt :: "analyzer \<Rightarrow> nat \<Rightarrow> string set \<Rightarrow> string set \<Rightarrow> node \<Rightarrow> string set \<Rightarrow> bool"
  and wf_stmts :: "analyzer \<Rightarrow> nat \<Rightarrow> string set \<Rightarrow> string set \<Rightarrow> node list \<Rightarrow> bool"
  and wf_block :: "analyzer \<Rightarrow> nat \<Rightarrow> string set \<Rightarrow> node \<Rightarrow> bool" for a where
  let_stmt: "valid_opt_type a t \<Longrightarrow> pred_option (wf_expr a (\<Gamma> \<union> F)) v \<Longrightarrow> s \<notin> F \<Longrightarrow>
    wf_stmt a d \<Gamma> F (Node l c (NODE_LET s t v)) (insert s F)"
| const_stmt: "valid_opt_type a t \<Longrightarrow> wf_expr a (\<Gamma> \<union> F) v \<Longrightarrow> s \<notin> F \<Longrightarrow>
    wf_stmt a d \<Gamma> F (Node l c (NODE_CONST s t v)) (insert s F)"
| return_stmt: "pred_option (wf_expr a (\<Gamma> \<union> F)) v \<Longrightarrow> wf_stmt a d \<Gamma> F (Node l c (NODE_RETURN v)) F"
| if_stmt: "wf_expr a (\<Gamma> \<union> F) e \<Longrightarrow> wf_block a d (\<Gamma> \<union> F) th \<Longrightarrow>
    wf_stmt a d \<Gamma> F (Node l c (NODE_IF e th None)) F"
| if_else: "wf_expr a (\<Gamma> \<union> F) e \<Longrightarrow> wf_block a d (\<Gamma> \<union> F) th \<Longrightarrow>
    nas s = NODE_BLOCK ss \<Longrightarrow> wf_stmts a d (\<Gamma> \<union> F) {} ss \<Longrightarrow>
    wf_stmt a d \<Gamma> F (Node l c (NODE_IF e th (Some s))) F"
| if_chain: "wf_expr a (\<Gamma> \<union> F) e \<Longrightarrow> wf_block a d (\<Gamma> \<union> F) th \<Longrightarrow>
    wf_stmt a d (\<Gamma> \<union> F) {} s F' \<Longrightarrow> \<forall>ss. nas s \<noteq> NODE_BLOCK ss \<Longrightarrow>
    wf_stmt a d \<Gamma> F (Node l c (NODE_IF e th (Some s))) F"
| while_stmt: "wf_expr a (\<Gamma> \<union> F) e \<Longrightarrow> wf_block a (Suc d) (\<Gamma> \<union> F) b \<Longrightarrow>
    wf_stmt a d \<Gamma> F (Node l c (NODE_WHILE e b)) F"
| loop_stmt: "wf_block a (Suc d) (\<Gamma> \<union> F) b \<Longrightarrow> wf_stmt a d \<Gamma> F (Node l c (NODE_LOOP b)) F"
| unsafe_stmt: "wf_block a d (\<Gamma> \<union> F) b \<Longrightarrow> wf_stmt a d \<Gamma> F (Node l c (NODE_UNSAFE b)) F"
| for_stmt: "pred_option (wf_expr a (\<Gamma> \<union> F)) e \<Longrightarrow> pred_option (wf_expr a (\<Gamma> \<union> F)) p \<Longrightarrow>
    wf_block a (Suc d) (\<Gamma> \<union> F) b \<Longrightarrow> wf_stmt a d \<Gamma> F (Node l c (NODE_FOR None e p b)) F"
| for_init: "wf_stmt a d (\<Gamma> \<union> F) {} i G \<Longrightarrow> pred_option (wf_expr a (\<Gamma> \<union> F \<union> G)) e \<Longrightarrow>
    pred_option (wf_expr a (\<Gamma> \<union> F \<union> G)) p \<Longrightarrow> wf_block a (Suc d) (\<Gamma> \<union> F \<union> G) b \<Longrightarrow>
    wf_stmt a d \<Gamma> F (Node l c (NODE_FOR (Some i) e p b)) F"
| break_stmt: "0 < d \<Longrightarrow> wf_stmt a d \<Gamma> F (Node l c NODE_BREAK) F"
| continue_stmt: "0 < d \<Longrightarrow> wf_stmt a d \<Gamma> F (Node l c NODE_CONTINUE) F"
| defer_stmt: "wf_expr a (\<Gamma> \<union> F) e \<Longrightarrow> wf_stmt a d \<Gamma> F (Node l c (NODE_DEFER e)) F"
| expr_stmt: "wf_expr a (\<Gamma> \<union> F) e \<Longrightarrow> wf_stmt a d \<Gamma> F (Node l c (NODE_EXPR_STMT e)) F"
| block_stmt: "wf_stmts a d (\<Gamma> \<union> F) {} ss \<Longrightarrow> wf_stmt a d \<Gamma> F (Node l c (NODE_BLOCK ss)) F"
| stmts_Nil: "wf_stmts a d \<Gamma> F []"
| stmts_Cons: "wf_stmt a d \<Gamma> F s F' \<Longrightarrow> wf_stmts a d \<Gamma> F' ss \<Longrightarrow> wf_stmts a d \<Gamma> F (s # ss)"
| block: "(\<And>ss. nas b = NODE_BLOCK ss \<Longrightarrow> wf_stmts a d \<Gamma> {} ss) \<Longrightarrow> wf_block a d \<Gamma> b"

inductive_simps wf_stmt_Node: "wf_stmt a d \<Gamma> F (Node l c x) F'"
inductive_simps wf_stmt_if: "wf_stmt a d \<Gamma> F (Node l c (NODE_IF e th el)) F'"
inductive_simps wf_stmt_for: "wf_stmt a d \<Gamma> F (Node l c (NODE_FOR i e p b)) F'"
inductive_simps wf_stmts_Nil: "wf_stmts a d \<Gamma> F []"
inductive_simps wf_stmts_Cons: "wf_stmts a d \<Gamma> F (s # ss)"
inductive_simps wf_block_iff: "wf_block a d \<Gamma> b"

lemma ident_known_iff: "ident_known sc a s \<longleftrightarrow> name_known a (visible sc) s"
  using scope_resolve_visible [of sc s]
  by (auto simp: ident_known_def name_known_def is_builtin_io_def find_named_decl_None)

subsection \<open>Expressions\<close>

lemma names_enum_iff:
  "names_enum a e \<longleftrightarrow> (case nas e of NODE_IDENT b \<Rightarrow> find_named_decl (enums a) b \<noteq> None | _ \<Rightarrow> False)"
  by (auto simp: names_enum_def find_named_decl_None split: node_as.split)

lemma names_type_iff: "names_type a e \<longleftrightarrow> (case nas e of NODE_IDENT b \<Rightarrow> is_known_type a b | _ \<Rightarrow> False)"
  by (auto simp: names_type_def split: node_as.split)

lemma enum_member_iff:
  "enum_member a e f \<longleftrightarrow>
     (case nas e of NODE_IDENT b \<Rightarrow> enum_has_variant a b f \<or> find_method_decl a b f \<noteq> None | _ \<Rightarrow> False)"
  by (auto simp: enum_member_def split: node_as.split)

lemma names_enum_type: "names_enum a e \<Longrightarrow> names_type a e"
  by (auto simp: names_enum_def names_type_def is_known_type_def find_named_decl_None)

lemma analyze_type_member_cases:
  "analyze_type_member at e f a =
     (if names_enum a e then
        Some (if enum_member a e f then accept a
              else reject at (''unknown enum member '' @ in_quotes ((case nas e of NODE_IDENT b \<Rightarrow> b) @ ''.'' @ f)) a)
      else if names_type a e then Some (accept a) else None)"
  by (auto simp: analyze_type_member_def names_enum_iff names_type_iff enum_member_iff
      split: node_as.split)

lemma decides_ident: "decides (analyze_ident sc at s) a (name_known a (visible sc) s)"
  by (auto simp: decides_def analyze_ident_def ident_known_iff accept_def reject_def)

lemma decides_match_pattern: "decides (analyze_match_pattern at p) a (valid_pattern a p)"
  by (auto simp: decides_def analyze_match_pattern_def valid_pattern_iff accept_def reject_def
      dest: enum_has_variant_known split: option.split)

lemma decides_init_name:
  "decides (check_init_name d at ty pre f) a (f \<notin> set pre \<and> composite_has_field (decl_node d) f)"
  by (auto simp: decides_def check_init_name_def accept_def reject_def)

text \<open>A check that is defined by cases on the state is decided in each state by its branch there.\<close>

lemma decides_at: "f a = g a \<Longrightarrow> decides g a P \<Longrightarrow> decides f a P"
  by (simp add: decides_def)

lemma arm_bindings_Inl:
  "(\<exists>b. define_all (scope_new (Some sc)) (map (\<lambda>s. (s, at)) bs) = Inl b) \<longleftrightarrow> \<not> distinct bs"
  using scopes.define_all_Inl [of "scope_new (Some sc)" "map (\<lambda>s. (s, at)) bs"]
  by (simp add: define_all_def comp_def)

lemma arm_bindings_Inr:
  assumes "define_all (scope_new (Some sc)) (map (\<lambda>s. (s, at)) bs) = Inr sc'"
  shows "distinct bs" "visible sc' = visible sc \<union> set bs"
proof -
  show "distinct bs" using arm_bindings_Inl [of sc at bs] assms by auto
  have "s \<in> visible sc' \<longleftrightarrow> s \<in> set bs \<or> s \<in> visible sc" for s
    using scopes.define_all_child(2) [OF assms [unfolded define_all_def], of s]
    by (simp only: scope_resolve_visible) (auto simp: image_image)
  then show "visible sc' = visible sc \<union> set bs" by auto
qed

lemma analyze_arms_Cons: "analyze_arms sc at ((pat, bs, e) # arms) =
     both (analyze_match_pattern at pat)
       (\<lambda>a. case define_all (scope_new (Some sc)) (map (\<lambda>s. (s, at)) bs) of
              Inl (s, _) \<Rightarrow> reject at (''duplicate match binding '' @ in_quotes s) a
            | Inr arm_scope \<Rightarrow>
                both (\<lambda>a. analyze_expr arm_scope e a) (\<lambda>a. analyze_arms sc at arms a) a)"
  by (rule ext) (rule analyze_arms.simps)

lemma decides_expr:
  "decides (analyze_expr sc e) a (wf_expr a (visible sc) e)"
  "decides (analyze_all sc es) a (list_all (wf_expr a (visible sc)) es)"
  "decides (analyze_opt sc eo) a (pred_option (wf_expr a (visible sc)) eo)"
  "decides (analyze_inits sc at ty d pre inits) a
     (distinct (map fst inits) \<and> set pre \<inter> fst ` set inits = {} \<and>
      list_all (\<lambda>(f, e). composite_has_field (decl_node d) f \<and> wf_expr a (visible sc) e) inits)"
  "decides (analyze_arms sc at arms) a
     (list_all (\<lambda>(p, bs, v). valid_pattern a p \<and> distinct bs \<and> wf_expr a (visible sc \<union> set bs) v) arms)"
proof (induction sc e a and sc es a and sc eo a and sc at ty d pre inits a and sc at arms a
    rule: analyze_expr_analyze_all_analyze_opt_analyze_inits_analyze_arms.induct)
  case (1 sc l c x a)
  let ?e = "\<lambda>e a. analyze_expr sc e a" and ?wf = "wf_expr a (visible sc)"
  show ?case
  proof (cases x)
    case (NODE_IDENT s)
    with decides_ident [of sc "Node l c x" s a] show ?thesis
      by (simp add: decides_def analyze_expr.simps wf_expr_Node)
  next
    case (NODE_GROUP e)
    with 1 show ?thesis by (simp add: decides_def analyze_expr.simps wf_expr_Node)
  next
    case (NODE_UNARY q e)
    with 1 show ?thesis by (simp add: decides_def analyze_expr.simps wf_expr_Node)
  next
    case (NODE_BINARY q e f)
    have "decides (both (?e e) (?e f)) a (?wf e \<and> ?wf f)"
      using 1 by (intro decides_both) (simp_all add: NODE_BINARY)
    then show ?thesis by (simp add: decides_def analyze_expr.simps wf_expr_Node NODE_BINARY)
  next
    case (NODE_ASSIGN e f q)
    have "decides (both (?e e) (?e f)) a (?wf e \<and> ?wf f)"
      using 1 by (intro decides_both) (simp_all add: NODE_ASSIGN)
    then show ?thesis by (simp add: decides_def analyze_expr.simps wf_expr_Node NODE_ASSIGN)
  next
    case (NODE_INDEX e f)
    have "decides (if is_generic_callee a e then ?e e else both (?e e) (?e f)) a
        (?wf e \<and> (is_generic_callee a e \<or> ?wf f))"
    proof (cases "is_generic_callee a e")
      case False
      have "decides (both (?e e) (?e f)) a (?wf e \<and> ?wf f)"
        using 1 by (intro decides_both) (simp_all add: NODE_INDEX False)
      with False show ?thesis by simp
    qed (use 1 in \<open>simp add: NODE_INDEX\<close>)
    then show ?thesis
      by (cases "is_generic_callee a e") (simp_all add: decides_def analyze_expr.simps wf_expr_Node NODE_INDEX)
  next
    case (NODE_SLICE e f g)
    have "decides (both (?e e) (both (\<lambda>a. analyze_opt sc f a) (\<lambda>a. analyze_opt sc g a))) a
        (?wf e \<and> pred_option ?wf f \<and> pred_option ?wf g)"
      using 1 by (intro decides_both) (simp_all add: NODE_SLICE)
    then show ?thesis by (simp add: decides_def analyze_expr.simps wf_expr_Node NODE_SLICE)
  next
    case (NODE_CALL e es)
    have "decides (if is_constructor_call e then analyze_all sc es
        else both (?e e) (\<lambda>a. analyze_all sc es a)) a
        ((is_constructor_call e \<or> ?wf e) \<and> list_all ?wf es)"
    proof (cases "is_constructor_call e")
      case False
      have "decides (both (?e e) (\<lambda>a. analyze_all sc es a)) a (?wf e \<and> list_all ?wf es)"
        using 1 by (intro decides_both) (simp_all add: NODE_CALL False)
      with False show ?thesis by simp
    qed (use 1 in \<open>simp add: NODE_CALL\<close>)
    then show ?thesis
      by (cases "is_constructor_call e") (simp_all add: decides_def analyze_expr.simps wf_expr_Node NODE_CALL)
  next
    case (NODE_CAST e t)
    have "decides (both (validate_type t) (?e e)) a (valid_type a t \<and> ?wf e)"
      using 1 by (intro decides_both decides_validate_type) (simp_all add: NODE_CAST)
    then show ?thesis by (simp add: decides_def analyze_expr.simps wf_expr_Node NODE_CAST conj_commute)
  next
    case (NODE_FIELD e f)
    with 1 names_enum_type [of a e] show ?thesis
      by (cases "names_enum a e"; cases "names_type a e"; cases "enum_member a e f")
        (auto simp: decides_def analyze_expr.simps wf_expr_Node analyze_type_member_cases
          accept_def reject_def)
  next
    case (NODE_STRUCT_LIT s inits)
    with 1 show ?thesis
      by (cases "find_composite a s")
        (auto simp: decides_def analyze_expr.simps wf_expr_Node reject_def)
  next
    case (NODE_MATCH e arms)
    let ?arm = "\<lambda>(p, bs, v). valid_pattern a p \<and> distinct bs \<and> wf_expr a (visible sc \<union> set bs) v"
    have "decides (both (?e e) (\<lambda>a. analyze_arms sc (Node l c x) arms a)) a (?wf e \<and> list_all ?arm arms)"
      using 1 by (intro decides_both) (simp_all add: NODE_MATCH)
    then show ?thesis by (simp add: decides_def analyze_expr.simps wf_expr_Node NODE_MATCH)
  qed (simp_all add: decides_def analyze_expr.simps wf_expr_Node accept_def reject_def)
next
  case (3 sc e es a)
  have "decides (both (\<lambda>a. analyze_expr sc e a) (\<lambda>a. analyze_all sc es a)) a
      (wf_expr a (visible sc) e \<and> list_all (wf_expr a (visible sc)) es)"
    using 3 by (intro decides_both)
  then show ?case by (simp add: decides_def)
next
  case (7 sc at ty d pre f e inits a)
  have "decides (both (check_init_name d at ty pre f)
      (both (\<lambda>a. analyze_expr sc e a) (\<lambda>a. analyze_inits sc at ty d (pre @ [f]) inits a))) a
      ((f \<notin> set pre \<and> composite_has_field (decl_node d) f) \<and> wf_expr a (visible sc) e \<and>
       distinct (map fst inits) \<and> set (pre @ [f]) \<inter> fst ` set inits = {} \<and>
      list_all (\<lambda>(f, e). composite_has_field (decl_node d) f \<and> wf_expr a (visible sc) e) inits)"
    using 7 by (intro decides_both decides_init_name)
  moreover have "((f \<notin> set pre \<and> composite_has_field (decl_node d) f) \<and> wf_expr a (visible sc) e \<and>
       distinct (map fst inits) \<and> set (pre @ [f]) \<inter> fst ` set inits = {} \<and>
      list_all (\<lambda>(f, e). composite_has_field (decl_node d) f \<and> wf_expr a (visible sc) e) inits) =
      (distinct (map fst ((f, e) # inits)) \<and> set pre \<inter> fst ` set ((f, e) # inits) = {} \<and>
      list_all (\<lambda>(f, e). composite_has_field (decl_node d) f \<and> wf_expr a (visible sc) e) ((f, e) # inits))"
    by auto
  ultimately show ?case by (simp add: decides_def)
next
  case (9 sc at pat bs e arms a)
  let ?arms = "list_all (\<lambda>(p, bs, v). valid_pattern a p \<and> distinct bs \<and>
    wf_expr a (visible sc \<union> set bs) v) arms"
  have "decides (\<lambda>a. case define_all (scope_new (Some sc)) (map (\<lambda>s. (s, at)) bs) of
        Inl (s, _) \<Rightarrow> reject at (''duplicate match binding '' @ in_quotes s) a
      | Inr arm_scope \<Rightarrow>
          both (\<lambda>a. analyze_expr arm_scope e a) (\<lambda>a. analyze_arms sc at arms a) a) a
      ((distinct bs \<and> wf_expr a (visible sc \<union> set bs) e) \<and> ?arms)"
  proof (cases "define_all (scope_new (Some sc)) (map (\<lambda>s. (s, at)) bs)")
    case (Inl b)
    then have "\<not> distinct bs"
      using arm_bindings_Inl [of sc at bs] by auto
    with Inl show ?thesis by (cases b) (simp add: decides_def reject_def)
  next
    case (Inr sc')
    then have bs: "distinct bs" and sc': "visible sc' = visible sc \<union> set bs"
      using arm_bindings_Inr by auto
    have "decides (both (\<lambda>a. analyze_expr sc' e a) (\<lambda>a. analyze_arms sc at arms a)) a
        (wf_expr a (visible sc') e \<and> ?arms)"
      using 9 Inr by (intro decides_both) auto
    with Inr bs show ?thesis by (simp add: sc' decides_def)
  qed
  then have "decides (analyze_arms sc at ((pat, bs, e) # arms)) a
      (valid_pattern a pat \<and> (distinct bs \<and> wf_expr a (visible sc \<union> set bs) e) \<and> ?arms)"
    unfolding analyze_arms_Cons [abs_def] by (intro decides_both decides_match_pattern)
  then show ?case by (simp del: analyze_arms.simps)
qed (auto simp: decides_def accept_def)

end
