(* ===== verification/Sema_Stmts.thy ===== *)
theory Sema_Stmts
  imports Sema_Rules
begin

text \<open>
  The second half of the comparison with the static semantics: statements decide the judgements
  \<open>wf_stmt\<close>, \<open>wf_stmts\<close> and \<open>wf_block\<close>, and change the current scope as these say.
\<close>

subsection \<open>Statements\<close>

text \<open>The names a statement adds to the current scope; the judgement adds no others.\<close>

definition declares :: "node \<Rightarrow> string set" where
  "declares s = (case nas s of NODE_LET n _ _ \<Rightarrow> {n} | NODE_CONST n _ _ \<Rightarrow> {n} | _ \<Rightarrow> {})"

definition ok_stmt :: "analyzer \<Rightarrow> nat \<Rightarrow> string set \<Rightarrow> string set \<Rightarrow> node \<Rightarrow> bool" where
  "ok_stmt a d \<Gamma> F s \<longleftrightarrow> (\<exists>F'. wf_stmt a d \<Gamma> F s F')"

definition ok_opt :: "analyzer \<Rightarrow> nat \<Rightarrow> string set \<Rightarrow> node option \<Rightarrow> bool" where
  "ok_opt a d \<Gamma> s \<longleftrightarrow> pred_option (ok_stmt a d \<Gamma> {}) s"

definition ok_else :: "analyzer \<Rightarrow> nat \<Rightarrow> string set \<Rightarrow> node option \<Rightarrow> bool" where
  "ok_else a d \<Gamma> s =
     (case s of
        None \<Rightarrow> True
      | Some n \<Rightarrow> (case nas n of NODE_BLOCK ss \<Rightarrow> wf_stmts a d \<Gamma> {} ss | _ \<Rightarrow> ok_stmt a d \<Gamma> {} n))"

lemma wf_stmt_declares: "wf_stmt a d \<Gamma> F s F' \<Longrightarrow> F' = F \<union> declares s"
  by (erule wf_stmt.cases) (simp_all add: declares_def)

lemma wf_stmts_Cons_ok:
  "wf_stmts a d \<Gamma> F (s # ss) \<longleftrightarrow> ok_stmt a d \<Gamma> F s \<and> wf_stmts a d \<Gamma> (F \<union> declares s) ss"
  unfolding wf_stmts_Cons ok_stmt_def by (auto dest: wf_stmt_declares)

lemma wf_stmt_iff: "wf_stmt a d \<Gamma> F s F' \<longleftrightarrow> ok_stmt a d \<Gamma> F s \<and> F' = F \<union> declares s"
  unfolding ok_stmt_def by (auto dest: wf_stmt_declares)

lemma ok_else_block: "nas s = NODE_BLOCK ss \<Longrightarrow> ok_else a d \<Gamma> (Some s) \<longleftrightarrow> wf_stmts a d \<Gamma> {} ss"
  by (simp add: ok_else_def)

lemma ok_else_other: "\<forall>ss. nas s \<noteq> NODE_BLOCK ss \<Longrightarrow> ok_else a d \<Gamma> (Some s) \<longleftrightarrow> ok_stmt a d \<Gamma> {} s"
  by (simp add: ok_else_def split: node_as.split)

lemma ok_if:
  "ok_stmt a d \<Gamma> F (Node l c (NODE_IF e th el)) \<longleftrightarrow>
     wf_expr a (\<Gamma> \<union> F) e \<and> wf_block a d (\<Gamma> \<union> F) th \<and> ok_else a d (\<Gamma> \<union> F) el"
proof (cases el)
  case None
  then show ?thesis by (simp add: ok_stmt_def wf_stmt_if ok_else_def)
next
  case (Some s)
  have eq: "ok_stmt a d \<Gamma> F (Node l c (NODE_IF e th el)) \<longleftrightarrow>
      (\<exists>F'. wf_stmt a d \<Gamma> F (Node l c (NODE_IF e th el)) F')"
    by (simp only: ok_stmt_def)
  show ?thesis
  proof (cases "\<exists>ss. nas s = NODE_BLOCK ss")
    case True
    then obtain ss where "nas s = NODE_BLOCK ss" by blast
    then show ?thesis
      unfolding eq wf_stmt_if unfolding wf_stmt_iff Some by (simp add: ok_else_block)
  next
    case False
    then show ?thesis
      unfolding eq wf_stmt_if unfolding wf_stmt_iff Some by (simp add: ok_else_other)
  qed
qed

lemma ok_for:
  "ok_stmt a d \<Gamma> F (Node l c (NODE_FOR i e p b)) \<longleftrightarrow>
     ok_opt a d (\<Gamma> \<union> F) i \<and>
     (let \<Delta> = \<Gamma> \<union> F \<union> (case i of None \<Rightarrow> {} | Some s \<Rightarrow> declares s)
      in pred_option (wf_expr a \<Delta>) e \<and> pred_option (wf_expr a \<Delta>) p \<and> wf_block a (Suc d) \<Delta> b)"
proof -
  have "ok_stmt a d \<Gamma> F (Node l c (NODE_FOR i e p b)) \<longleftrightarrow>
      (\<exists>F'. wf_stmt a d \<Gamma> F (Node l c (NODE_FOR i e p b)) F')"
    by (simp only: ok_stmt_def)
  then show ?thesis
    unfolding wf_stmt_for unfolding wf_stmt_iff ok_opt_def Let_def by (cases i) auto
qed

text \<open>The same comparison for statements: also the names and the parent of the scope are right.\<close>

definition outer :: "scope \<Rightarrow> string set" where
  "outer sc = (case parent sc of None \<Rightarrow> {} | Some p \<Rightarrow> visible p)"

lemma visible_outer: "visible sc = outer sc \<union> locals sc"
  by (cases sc rule: visible.cases) (auto simp: outer_def locals_def)

lemma outer_child [simp]: "outer (scope_new (Some sc)) = visible sc" "outer (scope_new None) = {}"
  by (simp_all add: outer_def scope_new_def)

definition decides_stmt :: "stmt_check \<Rightarrow> scope \<Rightarrow> analyzer \<Rightarrow> bool \<Rightarrow> string set \<Rightarrow> bool" where
  "decides_stmt f sc a P F \<longleftrightarrow>
     (if P then \<exists>sc'. f sc a = (True, sc', a) \<and> locals sc' = F \<and> outer sc' = outer sc
      else \<exists>sc' a'. f sc a = (False, sc', a') \<and> rejected a a')"

lemma decides_no_scope: "decides (f sc) a P \<Longrightarrow> F = locals sc \<Longrightarrow> decides_stmt (no_scope f) sc a P F"
  by (auto simp: decides_stmt_def no_scope_def decides_def split: if_splits)

lemma decides_in_scope:
  "decides_stmt f (scope_new (Some sc)) a P F \<Longrightarrow> F' = locals sc \<Longrightarrow> decides_stmt (in_scope f) sc a P F'"
  by (auto simp: decides_stmt_def in_scope_def split: if_splits)

lemma decides_then:
  assumes "decides_stmt f sc a P F"
    and "\<And>sc'. P \<Longrightarrow> locals sc' = F \<Longrightarrow> outer sc' = outer sc \<Longrightarrow> decides_stmt g sc' a Q F'"
  shows "decides_stmt (then_stmt f g) sc a (P \<and> Q) F'"
proof (cases P)
  case True
  with assms(1) obtain sc' where "f sc a = (True, sc', a)" "locals sc' = F" "outer sc' = outer sc"
    by (auto simp: decides_stmt_def)
  with True assms(2) [of sc'] show ?thesis
    by (auto simp: decides_stmt_def then_stmt_def split: if_splits)
qed (use assms(1) in \<open>auto simp: decides_stmt_def then_stmt_def\<close>)

lemma decides_define_local:
  "decides_stmt (define_local at s) sc a (s \<notin> locals sc) (insert s (locals sc))"
proof (cases "scope_define sc s at")
  case None
  with scopes.define_None [of sc s at] show ?thesis
    by (auto simp: decides_stmt_def define_local_def reject_def)
next
  case (Some sc')
  moreover from this have "outer sc' = outer sc"
    by (cases sc) (auto simp: outer_def split: if_splits)
  ultimately show ?thesis
    using scopes.define_None [of sc s at] scopes.define_local_names [OF Some]
    by (auto simp: decides_stmt_def define_local_def)
qed

lemma decides_let:
  "decides_stmt (analyze_let at s t v) sc a
     ((valid_opt_type a t \<and> pred_option (wf_expr a (visible sc)) v) \<and> s \<notin> locals sc) (insert s (locals sc))"
  unfolding analyze_let_def
proof (rule decides_then)
  show "decides_stmt (no_scope (\<lambda>sc. both (validate_opt_type t) (analyze_opt sc v))) sc a
      (valid_opt_type a t \<and> pred_option (wf_expr a (visible sc)) v) (locals sc)"
    by (intro decides_no_scope decides_both decides_validate_opt_type decides_expr refl)
  show "decides_stmt (define_local at s) sc' a (s \<notin> locals sc) (insert s (locals sc))"
    if "locals sc' = locals sc" for sc'
    using decides_define_local [of at s sc' a] that by simp
qed

lemma decides_jump: "decides_stmt (analyze_jump at w d) sc a (0 < d) (locals sc)"
  by (auto simp: analyze_jump_def intro!: decides_no_scope decides_accept decides_reject)

lemma decides_stmt_eq:
  "decides_stmt f sc a P F \<Longrightarrow> g = f \<Longrightarrow> P = Q \<Longrightarrow> F = F' \<Longrightarrow> decides_stmt g sc a Q F'"
  by simp

text \<open>Composite judgements, split in the order in which the code tests their parts.\<close>

lemma ok_simple:
  "ok_stmt a d \<Gamma> F (Node l c (NODE_LET s t v)) \<longleftrightarrow>
     (valid_opt_type a t \<and> pred_option (wf_expr a (\<Gamma> \<union> F)) v) \<and> s \<notin> F"
  "ok_stmt a d \<Gamma> F (Node l c (NODE_CONST s t e)) \<longleftrightarrow>
     (valid_opt_type a t \<and> pred_option (wf_expr a (\<Gamma> \<union> F)) (Some e)) \<and> s \<notin> F"
  "ok_stmt a d \<Gamma> F (Node l c (NODE_RETURN v)) \<longleftrightarrow> pred_option (wf_expr a (\<Gamma> \<union> F)) v"
  "ok_stmt a d \<Gamma> F (Node l c (NODE_WHILE e b)) \<longleftrightarrow> wf_expr a (\<Gamma> \<union> F) e \<and> wf_block a (Suc d) (\<Gamma> \<union> F) b"
  "ok_stmt a d \<Gamma> F (Node l c (NODE_LOOP b)) \<longleftrightarrow> wf_block a (Suc d) (\<Gamma> \<union> F) b"
  "ok_stmt a d \<Gamma> F (Node l c (NODE_UNSAFE b)) \<longleftrightarrow> wf_block a d (\<Gamma> \<union> F) b"
  "ok_stmt a d \<Gamma> F (Node l c NODE_BREAK) \<longleftrightarrow> 0 < d"
  "ok_stmt a d \<Gamma> F (Node l c NODE_CONTINUE) \<longleftrightarrow> 0 < d"
  "ok_stmt a d \<Gamma> F (Node l c (NODE_DEFER e)) \<longleftrightarrow> wf_expr a (\<Gamma> \<union> F) e"
  "ok_stmt a d \<Gamma> F (Node l c (NODE_EXPR_STMT e)) \<longleftrightarrow> wf_expr a (\<Gamma> \<union> F) e"
  "ok_stmt a d \<Gamma> F (Node l c (NODE_BLOCK ss)) \<longleftrightarrow> wf_stmts a d (\<Gamma> \<union> F) {} ss"
  by (simp_all add: ok_stmt_def wf_stmt_Node)

lemma ok_none: "ok_stmt a d \<Gamma> F (Node l c x) \<longrightarrow>
   (case x of NODE_LET _ _ _ \<Rightarrow> True | NODE_CONST _ _ _ \<Rightarrow> True | NODE_RETURN _ \<Rightarrow> True
     | NODE_IF _ _ _ \<Rightarrow> True | NODE_WHILE _ _ \<Rightarrow> True | NODE_LOOP _ \<Rightarrow> True | NODE_UNSAFE _ \<Rightarrow> True
     | NODE_FOR _ _ _ _ \<Rightarrow> True | NODE_BREAK \<Rightarrow> True | NODE_CONTINUE \<Rightarrow> True | NODE_DEFER _ \<Rightarrow> True
     | NODE_EXPR_STMT _ \<Rightarrow> True | NODE_BLOCK _ \<Rightarrow> True | _ \<Rightarrow> False)"
  unfolding ok_stmt_def by (rule impI, erule exE, erule wf_stmt.cases) simp_all

lemma decides_unsupported:
  "\<not> P \<Longrightarrow> decides_stmt (no_scope (\<lambda>sc. reject at m)) sc a P (locals sc)"
  by (intro decides_no_scope decides_reject refl)

lemmas decide_rules = decides_then decides_no_scope decides_in_scope decides_both decides_expr
  decides_let decides_jump

definition end_names :: "string set \<Rightarrow> node list \<Rightarrow> string set" where
  "end_names F ss = F \<union> \<Union> (declares ` set ss)"

lemma decides_in_block:
  "\<exists>F. decides_stmt f (scope_new (Some sc)) a P F \<Longrightarrow> decides_stmt (in_scope f) sc a P (locals sc)"
  using decides_in_scope by blast

abbreviation decides_ok :: "stmt_check \<Rightarrow> scope \<Rightarrow> analyzer \<Rightarrow> nat \<Rightarrow> node \<Rightarrow> bool" where
  "decides_ok f sc a d s \<equiv>
     decides_stmt f sc a (ok_stmt a d (outer sc) (locals sc) s) (locals sc \<union> declares s)"

lemma decides_stmts:
  "decides_ok (analyze_stmt d s) sc a d s"
  "decides_stmt (analyze_stmt_opt d so) sc a (pred_option (ok_stmt a d (outer sc) (locals sc)) so)
     (locals sc \<union> (case so of None \<Rightarrow> {} | Some s \<Rightarrow> declares s))"
  "locals sc = {} \<Longrightarrow> \<exists>F. decides_stmt (analyze_else d so) sc a (ok_else a d (outer sc) so) F"
  "locals sc = {} \<Longrightarrow> \<exists>F. decides_stmt (analyze_block d s) sc a (wf_block a d (outer sc) s) F"
  "decides_stmt (analyze_stmts d ss) sc a (wf_stmts a d (outer sc) (locals sc) ss) (end_names (locals sc) ss)"
proof (induction d s and d so and d so and d s and d ss arbitrary: sc and sc and sc and sc and sc
    rule: analyze_stmt_analyze_stmt_opt_analyze_else_analyze_block_analyze_stmts.induct)
  case (1 d l c x)
  let ?s = "Node l c x"
  have sc: "outer sc \<union> locals sc = visible sc" by (simp add: visible_outer)
  have block: "locals (scope_new (Some s)) = {}" for s by simp
  show ?case
  proof (cases x)
    case (NODE_LET n t v)
    show ?thesis
      using decides_let [of ?s n t v sc a]
      by (simp add: NODE_LET analyze_stmt.simps ok_simple sc declares_def)
  next
    case (NODE_CONST n t v)
    show ?thesis
      using decides_let [of ?s n t "Some v" sc a]
      by (simp add: NODE_CONST analyze_stmt.simps ok_simple sc declares_def)
  next
    case (NODE_RETURN v)
    show ?thesis
      by (simp add: NODE_RETURN analyze_stmt.simps ok_simple sc declares_def decide_rules)
  next
    case (NODE_BREAK)
    show ?thesis
      using decides_jump [of ?s "''break''" d sc a]
      by (simp add: NODE_BREAK analyze_stmt.simps ok_simple sc declares_def)
  next
    case (NODE_CONTINUE)
    show ?thesis
      using decides_jump [of ?s "''continue''" d sc a]
      by (simp add: NODE_CONTINUE analyze_stmt.simps ok_simple sc declares_def)
  next
    case (NODE_DEFER e)
    show ?thesis
      by (simp add: NODE_DEFER analyze_stmt.simps ok_simple sc declares_def decide_rules)
  next
    case (NODE_EXPR_STMT e)
    show ?thesis
      by (simp add: NODE_EXPR_STMT analyze_stmt.simps ok_simple sc declares_def decide_rules)
  next
    case (NODE_BLOCK ss)
    have "decides_stmt (in_scope (analyze_stmts d ss)) sc a (wf_stmts a d (visible sc) {} ss) (locals sc)"
      using "1.IH"(1) [OF NODE_BLOCK, of "scope_new (Some sc)"] by (intro decides_in_block exI) simp
    then show ?thesis by (simp add: NODE_BLOCK analyze_stmt.simps ok_simple sc declares_def)
  next
    case (NODE_LOOP b)
    have "decides_stmt (in_scope (analyze_block (d + 1) b)) sc a (wf_block a (d + 1) (visible sc) b) (locals sc)"
      using "1.IH"(5) [OF NODE_LOOP block, of sc] by (intro decides_in_block) simp
    then show ?thesis by (simp add: NODE_LOOP analyze_stmt.simps ok_simple sc declares_def)
  next
    case (NODE_UNSAFE b)
    have "decides_stmt (in_scope (analyze_block d b)) sc a (wf_block a d (visible sc) b) (locals sc)"
      using "1.IH"(6) [OF NODE_UNSAFE block, of sc] by (intro decides_in_block) simp
    then show ?thesis by (simp add: NODE_UNSAFE analyze_stmt.simps ok_simple sc declares_def)
  next
    case (NODE_WHILE e b)
    have "decides_stmt (then_stmt (no_scope (\<lambda>sc. analyze_expr sc e)) (in_scope (analyze_block (d + 1) b))) sc a
        (wf_expr a (visible sc) e \<and> wf_block a (d + 1) (visible sc) b) (locals sc)"
    proof (rule decides_then)
      show "decides_stmt (no_scope (\<lambda>sc. analyze_expr sc e)) sc a (wf_expr a (visible sc) e) (locals sc)"
        by (intro decides_no_scope decides_expr refl)
      fix sc' assume sc': "locals sc' = locals sc" "outer sc' = outer sc"
      show "decides_stmt (in_scope (analyze_block (d + 1) b)) sc' a (wf_block a (d + 1) (visible sc) b) (locals sc)"
        using "1.IH"(4) [OF NODE_WHILE block, of sc'] decides_in_block [of _ sc' a]
        by (simp add: sc' visible_outer)
    qed
    then show ?thesis by (simp add: NODE_WHILE analyze_stmt.simps ok_simple sc declares_def)
  next
    case (NODE_IF e b el)
    have "decides_stmt (then_stmt (no_scope (\<lambda>sc. analyze_expr sc e))
          (then_stmt (in_scope (analyze_block d b)) (in_scope (analyze_else d el)))) sc a
        (wf_expr a (visible sc) e \<and> wf_block a d (visible sc) b \<and> ok_else a d (visible sc) el) (locals sc)"
    proof (intro decides_then)
      show "decides_stmt (no_scope (\<lambda>sc. analyze_expr sc e)) sc a (wf_expr a (visible sc) e) (locals sc)"
        by (intro decides_no_scope decides_expr refl)
      fix sc' assume sc': "locals sc' = locals sc" "outer sc' = outer sc"
      show "decides_stmt (in_scope (analyze_block d b)) sc' a (wf_block a d (visible sc) b) (locals sc')"
        using "1.IH"(2) [OF NODE_IF block, of sc'] decides_in_block [of _ sc' a]
        by (simp add: sc' visible_outer)
      fix sc'' assume sc'': "locals sc'' = locals sc'" "outer sc'' = outer sc'"
      show "decides_stmt (in_scope (analyze_else d el)) sc'' a (ok_else a d (visible sc) el) (locals sc)"
        using "1.IH"(3) [OF NODE_IF block, of sc''] decides_in_block [of _ sc'' a]
        by (simp add: sc' sc'' visible_outer)
    qed
    then show ?thesis by (simp add: NODE_IF analyze_stmt.simps ok_if sc declares_def)
  next
    case (NODE_FOR i e p b)
    let ?D = "visible sc \<union> (case i of None \<Rightarrow> {} | Some s \<Rightarrow> declares s)"
    have "decides_stmt (then_stmt (analyze_stmt_opt d i)
          (then_stmt (no_scope (\<lambda>sc. both (analyze_opt sc e) (analyze_opt sc p)))
            (in_scope (analyze_block (d + 1) b)))) (scope_new (Some sc)) a
        (ok_opt a d (visible sc) i \<and> (pred_option (wf_expr a ?D) e \<and> pred_option (wf_expr a ?D) p) \<and>
          wf_block a (d + 1) ?D b) (case i of None \<Rightarrow> {} | Some s \<Rightarrow> declares s)"
    proof (intro decides_then)
      show "decides_stmt (analyze_stmt_opt d i) (scope_new (Some sc)) a (ok_opt a d (visible sc) i)
          (case i of None \<Rightarrow> {} | Some s \<Rightarrow> declares s)"
        using "1.IH"(7) [OF NODE_FOR, of "scope_new (Some sc)"] by (simp add: ok_opt_def)
      fix sc' assume sc': "locals sc' = (case i of None \<Rightarrow> {} | Some s \<Rightarrow> declares s)"
        "outer sc' = outer (scope_new (Some sc))"
      have v: "visible sc' = ?D" using sc' by (simp add: visible_outer)
      show "decides_stmt (no_scope (\<lambda>sc. both (analyze_opt sc e) (analyze_opt sc p))) sc' a
          (pred_option (wf_expr a ?D) e \<and> pred_option (wf_expr a ?D) p) (locals sc')"
        unfolding v [symmetric] by (intro decides_no_scope decides_both decides_expr refl)
      fix sc'' assume sc'': "locals sc'' = locals sc'" "outer sc'' = outer sc'"
      have v: "visible sc'' = ?D" using v sc'' by (simp add: visible_outer)
      show "decides_stmt (in_scope (analyze_block (d + 1) b)) sc'' a (wf_block a (d + 1) ?D b)
        (case i of None \<Rightarrow> {} | Some s \<Rightarrow> declares s)"
        using "1.IH"(8) [OF NODE_FOR block, of sc''] decides_in_block [of _ sc'' a]
        by (simp add: v sc' sc'')
    qed
    from decides_in_scope [OF this refl] show ?thesis
      by (simp add: NODE_FOR analyze_stmt.simps ok_for sc declares_def Let_def conj_assoc)
  qed (use ok_none [of a d "outer sc" "locals sc" l c x] in
      \<open>simp_all add: analyze_stmt.simps declares_def decides_unsupported\<close>)
next
  case (5 d l c x)
  let ?s = "Node l c x"
  show ?case
  proof (cases "\<exists>ss. x = NODE_BLOCK ss")
    case True
    then obtain ss where x: "x = NODE_BLOCK ss" by blast
    with "5.IH"(22) [OF x, of sc] "5.prems" show ?thesis
      by (intro exI) (simp add: ok_else_def)
  next
    case False
    then have eq: "analyze_else d (Some ?s) = analyze_stmt d ?s"
      by (cases x) simp_all
    have "decides_ok (analyze_stmt d ?s) sc a d ?s"
      by (cases x; ((rule "5.IH", assumption) | (use False in blast)))
    with False 5(51) show ?thesis
      unfolding eq by (intro exI) (simp add: ok_else_other)
  qed
next
  case (6 d l c x)
  show ?case
  proof (cases "\<exists>ss. x = NODE_BLOCK ss")
    case True
    then obtain ss where x: "x = NODE_BLOCK ss" by blast
    with "6.IH" [OF x, of sc] "6.prems" show ?thesis
      by (intro exI) (simp add: wf_block_iff)
  next
    case False
    then have eq: "analyze_block d (Node l c x) = no_scope (\<lambda>sc. accept)"
      by (cases x) simp_all
    from False show ?thesis
      unfolding eq by (intro exI [of _ "locals sc"] decides_no_scope decides_accept refl) (simp add: wf_block_iff)
  qed
next
  case (8 d s ss)
  have "decides_stmt (then_stmt (analyze_stmt d s) (analyze_stmts d ss)) sc a
      (ok_stmt a d (outer sc) (locals sc) s \<and> wf_stmts a d (outer sc) (locals sc \<union> declares s) ss)
      (end_names (locals sc) (s # ss))"
  proof (rule decides_then)
    fix sc' assume sc': "locals sc' = locals sc \<union> declares s" "outer sc' = outer sc"
    have "end_names (locals sc') ss = end_names (locals sc) (s # ss)"
      by (auto simp: end_names_def sc')
    with 8(2) [of sc'] show "decides_stmt (analyze_stmts d ss) sc' a
        (wf_stmts a d (outer sc) (locals sc \<union> declares s) ss) (end_names (locals sc) (s # ss))"
      by (simp add: sc')
  qed (rule 8(1))
  then show ?case by (simp add: wf_stmts_Cons_ok)
qed (auto intro!: decides_no_scope decides_accept simp: wf_stmts_Nil ok_else_def end_names_def)

end
