(* ===== verification/Sema_Program.thy ===== *)
theory Sema_Program
  imports Sema_Stmts
begin

text \<open>
  Whole programs: what each pass of \<^verbatim>\<open>sema_analyze\<close> requires and adds to the tables, as closed
  expressions over the list of declarations, and the declarative notion of a well-formed program.
\<close>

subsection \<open>Outcomes of checks and passes\<close>

text \<open>
  \<open>yields q f a P a1\<close>: the check returns 1 in state \<open>a1\<close> if \<open>P\<close> holds, and otherwise 0, having
  printed a diagnostic if \<open>q\<close>; \<open>finishes\<close> also covers a check that returns 1 after an error, and
  \<open>outcome\<close> is the same for a step of a pass.
\<close>

definition yields :: "bool \<Rightarrow> check \<Rightarrow> analyzer \<Rightarrow> bool \<Rightarrow> analyzer \<Rightarrow> bool" where
  "yields q f a P a1 \<longleftrightarrow>
     (if P then f a = (True, a1) else \<exists>a'. f a = (False, a') \<and> (q \<longrightarrow> had_error a' \<and> printed a' \<noteq> []))"

definition finishes :: "bool \<Rightarrow> check \<Rightarrow> analyzer \<Rightarrow> bool \<Rightarrow> analyzer \<Rightarrow> bool" where
  "finishes q f a P a1 \<longleftrightarrow>
     (if P then f a = (True, a1)
      else \<exists>ok a'. f a = (ok, a') \<and> (ok \<longrightarrow> had_error a') \<and> (q \<longrightarrow> had_error a' \<and> printed a' \<noteq> []))"

definition outcome :: "bool \<Rightarrow> analyzer \<Rightarrow> bool \<Rightarrow> analyzer \<Rightarrow> bool" where
  "outcome q r P a1 \<longleftrightarrow> (if P then r = a1 else had_error r \<and> (q \<longrightarrow> printed r \<noteq> []))"

lemma rejected_noisy: "rejected a a' \<Longrightarrow> had_error a'" "rejected a a' \<Longrightarrow> printed a' \<noteq> []"
  by (auto simp: rejected_def sema_error_def)

lemma yields_decides: "decides f a P \<Longrightarrow> yields q f a P a"
  by (auto simp: decides_def yields_def rejected_noisy split: if_splits)

lemma finishes_yields: "yields q f a P a1 \<Longrightarrow> finishes q f a P a1"
  unfolding yields_def finishes_def by (cases P) auto

lemma yields_both:
  "yields q f a P a1 \<Longrightarrow> (P \<Longrightarrow> yields q g a1 R a2) \<Longrightarrow> yields q (both f g) a (P \<and> R) a2"
  by (auto simp: yields_def both_def split: if_splits)

lemma finishes_both:
  "yields q f a P a1 \<Longrightarrow> (P \<Longrightarrow> finishes q g a1 R a2) \<Longrightarrow> finishes q (both f g) a (P \<and> R) a2"
  by (auto simp: yields_def finishes_def both_def split: if_splits)

lemma outcome_or_mark: "finishes q f a P a1 \<Longrightarrow> outcome q (or_mark f a) P a1"
  by (auto simp: outcome_def finishes_def or_mark_def split: if_splits)

lemma outcome_or_report: "yields q f a P a1 \<Longrightarrow> outcome q (or_report at f a) P a1"
  by (auto simp: outcome_def yields_def or_report_def sema_error_def split: if_splits)

lemma outcome_same: "\<not> had_error a \<Longrightarrow> P \<Longrightarrow> outcome q a P a"
  by (simp add: outcome_def)

lemma until_error_stop: "had_error a \<Longrightarrow> until_error f xs a = a"
  by (cases xs) simp_all

lemma outcome_until_Cons:
  assumes "\<not> had_error a" "outcome q (f x a) P a1" "P \<Longrightarrow> outcome q (until_error f xs a1) R a2"
  shows "outcome q (until_error f (x # xs) a) (P \<and> R) a2"
  using assms by (auto simp: outcome_def until_error_stop split: if_splits)

lemma outcome_pass:
  assumes "outcome q r P a1" "P \<Longrightarrow> outcome q (until_error f xs a1) R a2"
  shows "outcome q (until_error f xs r) (P \<and> R) a2"
  using assms by (auto simp: outcome_def until_error_stop split: if_splits)

text \<open>A pass that only checks.\<close>

lemma outcome_until_same:
  assumes "\<not> had_error a" "\<And>x. x \<in> set xs \<Longrightarrow> outcome q (f x a) (P x) a"
  shows "outcome q (until_error f xs a) (list_all P xs) a"
  using assms(2)
proof (induction xs)
  case (Cons x xs)
  then show ?case
    using outcome_until_Cons [OF assms(1), of q f x "P x" a xs "list_all P xs" a] by simp
qed (simp add: outcome_def)

lemma yields_reject: "\<not> P \<Longrightarrow> yields q (reject at m) a P a1"
  by (auto simp: yields_def reject_def sema_error_def)

lemma yields_accept: "P \<Longrightarrow> yields q accept a P a"
  by (simp add: yields_def accept_def)

lemma yields_at: "f a = g a \<Longrightarrow> yields q g a P a1 \<Longrightarrow> yields q f a P a1"
  by (simp add: yields_def)

subsection \<open>Validity depends on the type tables only\<close>

definition same_types :: "analyzer \<Rightarrow> analyzer \<Rightarrow> bool" where
  "same_types a a' \<longleftrightarrow> structs a' = structs a \<and> enums a' = enums a \<and> unions a' = unions a \<and>
     interfaces a' = interfaces a"

lemma valid_type_name_mono: "valid_type_name a s \<Longrightarrow> same_types a a' \<Longrightarrow> valid_type_name a' s"
proof (induction rule: valid_type_name.induct)
  case (plain s)
  then show ?case
    by (intro valid_type_name.plain) (auto simp: plain_type_def is_known_type_def same_types_def)
next
  case (generic b args)
  then show ?case
    by (intro valid_type_name.generic) (auto simp: generic_struct_def same_types_def)
next
  case (option t)
  then show ?case by (intro valid_type_name.option)
next
  case (result t e)
  then show ?case by (intro valid_type_name.result)
qed

lemma valid_type_mono: "valid_type a t \<Longrightarrow> same_types a a' \<Longrightarrow> valid_type a' t"
  by (induction rule: valid_type.induct) (auto intro: valid_type.intros valid_type_name_mono)

lemma same_types_sym: "same_types a a' \<Longrightarrow> same_types a' a"
  by (simp add: same_types_def)

lemma valid_type_cong: "same_types a a' \<Longrightarrow> valid_type a' t = valid_type a t"
  using valid_type_mono same_types_sym by blast

subsection \<open>Members\<close>

definition members_ok :: "analyzer \<Rightarrow> node list \<Rightarrow> bool" where
  "members_ok a xs \<longleftrightarrow> distinct (map let_name xs) \<and> list_all (\<lambda>x. valid_opt_type a (let_type x)) xs"

lemma members_ok_cong: "same_types a a' \<Longrightarrow> members_ok a' xs = members_ok a xs"
  using valid_type_cong [of a a'] by (simp add: members_ok_def option.pred_map pred_option_def list_all_iff)

lemma decides_check_member:
  "decides (check_member what pre x) a (let_name x \<notin> set (map let_name pre) \<and> valid_opt_type a (let_type x))"
  using decides_validate_opt_type [of "let_type x" a]
  by (auto simp: decides_def check_member_def reject_def split: if_splits)

lemma distinct_prefix: "distinct xs \<longleftrightarrow> (\<forall>i < length xs. xs ! i \<notin> set (take i xs))"
proof (induction xs rule: rev_induct)
  case (snoc x xs)
  have "(\<forall>i < length (xs @ [x]). (xs @ [x]) ! i \<notin> set (take i (xs @ [x]))) \<longleftrightarrow>
      (\<forall>i < length xs. xs ! i \<notin> set (take i xs)) \<and> x \<notin> set xs"
    by (auto simp: nth_append less_Suc_eq)
  with snoc show ?case by auto
qed simp

text \<open>A loop whose tests compare the key of an item with those before it, and test the item.\<close>

lemma decides_check_distinct:
  assumes "\<And>pre x. decides (f pre x) a (k x \<notin> set (map k pre) \<and> Q x)"
  shows "decides (check_each f [] xs) a (distinct (map k xs) \<and> list_all Q xs)"
proof -
  have "decides (check_each f [] xs) a (\<forall>i < length xs. k (xs ! i) \<notin> set (map k (take i xs)) \<and> Q (xs ! i))"
    using assms by (intro decides_check_each) simp
  moreover have "(\<forall>i < length xs. k (xs ! i) \<notin> set (map k (take i xs)) \<and> Q (xs ! i)) \<longleftrightarrow>
      distinct (map k xs) \<and> list_all Q xs"
    unfolding distinct_prefix list_all_length by (auto simp: take_map)
  ultimately show ?thesis by simp
qed

lemma decides_members: "decides (check_each (check_member what) [] xs) a (members_ok a xs)"
  unfolding members_ok_def by (intro decides_check_distinct decides_check_member)

subsection \<open>What the declarations add to the tables\<close>

definition entry :: "string \<Rightarrow> node \<Rightarrow> named_decl" where
  "entry s nd = \<lparr>decl_name = s, decl_node = nd\<rparr>"

definition collect :: "(node \<Rightarrow> 'a list) \<Rightarrow> node list \<Rightarrow> 'a list" where
  "collect f ds = concat (map f ds)"

lemma collect_simps [simp]: "collect f [] = []" "collect f (d # ds) = f d @ collect f ds"
  by (simp_all add: collect_def)

definition type_names :: "node \<Rightarrow> string list" where
  "type_names d =
     (case nas d of NODE_STRUCT_DECL s _ _ _ _ _ \<Rightarrow> [s] | NODE_ENUM_DECL s _ _ _ \<Rightarrow> [s]
      | NODE_UNION_DECL s _ _ _ \<Rightarrow> [s] | NODE_CONST s _ _ \<Rightarrow> [s] | _ \<Rightarrow> [])"

definition struct_entries :: "node \<Rightarrow> named_decl list" where
  "struct_entries d = (case nas d of NODE_STRUCT_DECL s _ _ _ _ _ \<Rightarrow> [entry s d] | _ \<Rightarrow> [])"

definition enum_entries :: "node \<Rightarrow> named_decl list" where
  "enum_entries d = (case nas d of NODE_ENUM_DECL s _ _ _ \<Rightarrow> [entry s d] | _ \<Rightarrow> [])"

definition union_entries :: "node \<Rightarrow> named_decl list" where
  "union_entries d = (case nas d of NODE_UNION_DECL s _ _ _ \<Rightarrow> [entry s d] | _ \<Rightarrow> [])"

definition const_names :: "node \<Rightarrow> string list" where
  "const_names d = (case nas d of NODE_CONST s _ _ \<Rightarrow> [s] | _ \<Rightarrow> [])"

definition interface_names :: "node \<Rightarrow> string list" where
  "interface_names d =
     (case nas d of NODE_INTERFACE_DECL s _ _ _ \<Rightarrow> [s] | NODE_COMPTIME cs \<Rightarrow> collect const_names cs | _ \<Rightarrow> [])"

definition interface_entries :: "node \<Rightarrow> named_decl list" where
  "interface_entries d = (case nas d of NODE_INTERFACE_DECL s _ _ _ \<Rightarrow> [entry s d] | _ \<Rightarrow> [])"

definition callable_names :: "node \<Rightarrow> string list" where
  "callable_names d =
     (case nas d of
        NODE_FN_DECL s _ _ _ _ _ _ _ \<Rightarrow> [s]
      | NODE_EXTERN_FN s _ _ _ _ _ \<Rightarrow> [s]
      | NODE_IMPL_DECL target _ (Some i) _ \<Rightarrow> [coercion_name target i]
      | NODE_KERNEL_APP _ _ fns _ \<Rightarrow> map fn_name fns
      | _ \<Rightarrow> [])"

definition fn_entries :: "node \<Rightarrow> named_decl list" where
  "fn_entries d =
     (case nas d of
        NODE_FN_DECL s _ _ tps _ _ _ _ \<Rightarrow> if tps = [] then [entry s d] else []
      | NODE_KERNEL_APP _ _ fns _ \<Rightarrow> map (\<lambda>f. entry (fn_name f) f) fns
      | _ \<Rightarrow> [])"

definition extern_entries :: "node \<Rightarrow> named_decl list" where
  "extern_entries d = (case nas d of NODE_EXTERN_FN s _ _ _ _ _ \<Rightarrow> [entry s d] | _ \<Rightarrow> [])"

definition method_entry :: "string \<Rightarrow> node \<Rightarrow> method_decl" where
  "method_entry target m = \<lparr>method_owner = target, method_name = fn_name m, method_node = m\<rparr>"

definition method_entries :: "node \<Rightarrow> method_decl list" where
  "method_entries d = (case nas d of NODE_IMPL_DECL target _ _ ms \<Rightarrow> map (method_entry target) ms | _ \<Rightarrow> [])"

definition method_key :: "method_decl \<Rightarrow> string \<times> string" where
  "method_key d = (method_owner d, method_name d)"

definition add_types :: "node list \<Rightarrow> analyzer \<Rightarrow> analyzer" where
  "add_types ds a = a\<lparr>structs := structs a @ collect struct_entries ds,
     enums := enums a @ collect enum_entries ds, unions := unions a @ collect union_entries ds,
     global_names := global_names a @ collect type_names ds\<rparr>"

definition add_interfaces :: "node list \<Rightarrow> analyzer \<Rightarrow> analyzer" where
  "add_interfaces ds a = a\<lparr>interfaces := interfaces a @ collect interface_entries ds,
     global_names := global_names a @ collect interface_names ds\<rparr>"

definition add_callables :: "node list \<Rightarrow> analyzer \<Rightarrow> analyzer" where
  "add_callables ds a = a\<lparr>fn_decls := fn_decls a @ collect fn_entries ds,
     extern_functions := extern_functions a @ collect extern_entries ds,
     methods := methods a @ collect method_entries ds,
     global_names := global_names a @ collect callable_names ds\<rparr>"

text \<open>Every declared name is a global name, so a fresh global name is fresh in every table.\<close>

definition tables_named :: "analyzer \<Rightarrow> bool" where
  "tables_named a \<longleftrightarrow>
     decl_name ` set (structs a @ enums a @ unions a @ interfaces a @ fn_decls a @ extern_functions a)
       \<subseteq> set (global_names a)"

subsection \<open>Types\<close>

lemma register_rules:
  assumes "tables_named a"
  shows "yields q (register_global_name s d) a (s \<notin> set (global_names a))
           (a\<lparr>global_names := global_names a @ [s]\<rparr>)"
    and "yields q (register_struct_decl s d) a (s \<notin> set (global_names a))
           (a\<lparr>structs := structs a @ [entry s d], global_names := global_names a @ [s]\<rparr>)"
    and "yields q (register_enum_decl s d) a (s \<notin> set (global_names a))
           (a\<lparr>enums := enums a @ [entry s d], global_names := global_names a @ [s]\<rparr>)"
    and "yields q (register_union_decl s d) a (s \<notin> set (global_names a))
           (a\<lparr>unions := unions a @ [entry s d], global_names := global_names a @ [s]\<rparr>)"
    and "yields q (register_interface_decl s d) a (s \<notin> set (global_names a))
           (a\<lparr>interfaces := interfaces a @ [entry s d], global_names := global_names a @ [s]\<rparr>)"
  using assms
  by (force simp: yields_def register_global_name_def register_struct_decl_def register_enum_decl_def
      register_union_decl_def register_interface_decl_def both_def reject_def sema_error_def
      find_named_decl_None tables_named_def push_named_decl_def entry_def)+

lemma outcome_register_type:
  assumes "tables_named a" "\<not> had_error a"
  shows "outcome q (register_type_decl d a) (set (type_names d) \<inter> set (global_names a) = {}) (add_types [d] a)"
  by (cases "nas d")
    (simp_all add: register_type_decl_def type_names_def add_types_def struct_entries_def
      enum_entries_def union_entries_def outcome_same assms
      outcome_or_mark [OF finishes_yields [OF register_rules(1) [OF assms(1)]]]
      outcome_or_mark [OF finishes_yields [OF register_rules(2) [OF assms(1)]]]
      outcome_or_mark [OF finishes_yields [OF register_rules(3) [OF assms(1)]]]
      outcome_or_mark [OF finishes_yields [OF register_rules(4) [OF assms(1)]]])

subsection \<open>Passes that add to the tables\<close>

text \<open>
  What the registering passes have in common: a step adds its declaration if it fits, and a list of
  declarations fits if the first does and the rest fits after it.
\<close>

lemma outcome_weaken: "outcome q r P a1 \<Longrightarrow> (q' \<Longrightarrow> q) \<Longrightarrow> outcome q' r P a1"
  by (auto simp: outcome_def split: if_splits)

definition quiet :: "analyzer \<Rightarrow> bool" where
  "quiet a \<longleftrightarrow> \<not> had_error a \<and> tables_named a \<and> distinct (global_names a) \<and>
     distinct (map method_key (methods a))"

locale adding_pass =
  fixes step :: "'x \<Rightarrow> analyzer \<Rightarrow> analyzer"
    and add :: "'x list \<Rightarrow> analyzer \<Rightarrow> analyzer"
    and fits :: "analyzer \<Rightarrow> 'x list \<Rightarrow> bool"
    and loud :: "'x \<Rightarrow> bool"
  assumes step_outcome: "quiet a \<Longrightarrow> outcome (loud x) (step x a) (fits a [x]) (add [x] a)"
    and add_quiet: "quiet a \<Longrightarrow> fits a [x] \<Longrightarrow> quiet (add [x] a)"
    and add_Nil: "add [] a = a"
    and add_Cons: "add (x # xs) a = add xs (add [x] a)"
    and fits_Nil: "quiet a \<Longrightarrow> fits a []"
    and fits_Cons: "quiet a \<Longrightarrow> fits a (x # xs) \<longleftrightarrow> fits a [x] \<and> fits (add [x] a) xs"
begin

lemma outcome_all:
  "quiet a \<Longrightarrow> outcome (list_all loud xs) (until_error step xs a) (fits a xs) (add xs a)"
proof (induction xs arbitrary: a)
  case Nil
  then show ?case by (simp add: outcome_def add_Nil fits_Nil)
next
  case (Cons x xs)
  let ?q = "list_all loud (x # xs)"
  have "outcome ?q (until_error step (x # xs) a) (fits a [x] \<and> fits (add [x] a) xs) (add xs (add [x] a))"
  proof (rule outcome_until_Cons)
    show "\<not> had_error a" using Cons.prems by (simp add: quiet_def)
    show "outcome ?q (step x a) (fits a [x]) (add [x] a)"
      by (rule outcome_weaken [OF step_outcome [OF Cons.prems]]) simp
    show "outcome ?q (until_error step xs (add [x] a)) (fits (add [x] a) xs) (add xs (add [x] a))"
      if "fits a [x]"
      by (rule outcome_weaken [OF Cons.IH [OF add_quiet [OF Cons.prems that]]]) simp
  qed
  then show ?case
    unfolding fits_Cons [OF Cons.prems, of x xs] add_Cons [of x xs] .
qed

lemma all_quiet: "quiet a \<Longrightarrow> fits a xs \<Longrightarrow> quiet (add xs a)"
proof (induction xs arbitrary: a)
  case (Cons x xs)
  then have "fits a [x]" "fits (add [x] a) xs"
    using fits_Cons by blast+
  then show ?case
    unfolding add_Cons [of x xs] using Cons add_quiet by blast
qed (simp add: add_Nil)

end

definition types_fit :: "analyzer \<Rightarrow> node list \<Rightarrow> bool" where
  "types_fit a ds \<longleftrightarrow> distinct (global_names a @ collect type_names ds)"

lemma type_names_single: "type_names d = [] \<or> (\<exists>s. type_names d = [s])"
  by (simp add: type_names_def split: node_as.split)

lemma type_entries_named:
  "decl_name ` set (struct_entries d @ enum_entries d @ union_entries d) \<subseteq> set (type_names d)"
  by (simp add: type_names_def struct_entries_def enum_entries_def union_entries_def entry_def
      split: node_as.split)

interpretation type_pass: adding_pass register_type_decl add_types types_fit "\<lambda>_. True"
proof
  fix a x xs assume a: "quiet a"
  have fits: "types_fit a [x] \<longleftrightarrow> set (type_names x) \<inter> set (global_names a) = {}"
    using a type_names_single [of x] by (auto simp: types_fit_def quiet_def)
  show "outcome True (register_type_decl x a) (types_fit a [x]) (add_types [x] a)"
    unfolding fits using a by (intro outcome_register_type) (simp_all add: quiet_def)
  show "quiet (add_types [x] a)" if "types_fit a [x]"
    using a that type_entries_named [of x]
    by (auto simp: quiet_def tables_named_def add_types_def types_fit_def)
  show "types_fit a (x # xs) \<longleftrightarrow> types_fit a [x] \<and> types_fit (add_types [x] a) xs"
    by (auto simp: types_fit_def add_types_def)
qed (simp_all add: add_types_def types_fit_def quiet_def)

end
