(* ===== verification/Sema_Passes.thy ===== *)
theory Sema_Passes
  imports Sema_Program
begin

text \<open>
  The later passes of \<^verbatim>\<open>sema_analyze\<close>: members of types, interfaces and compile-time constants,
  functions and impls, bodies, and imports.
\<close>

subsection \<open>Members of types\<close>

definition type_decl_ok :: "analyzer \<Rightarrow> node \<Rightarrow> bool" where
  "type_decl_ok a d =
     (case nas d of
        NODE_STRUCT_DECL _ _ tps fs _ _ \<Rightarrow> tps \<noteq> [] \<or> members_ok a fs
      | NODE_UNION_DECL _ _ fs _ \<Rightarrow> members_ok a fs
      | NODE_ENUM_DECL _ _ vs _ \<Rightarrow> distinct (map fst vs)
      | _ \<Rightarrow> True)"

lemma decides_variants: "decides (validate_enum_variants s d) a (distinct (enum_variants d))"
proof -
  have "decides (validate_enum_variants s d) a
      (distinct (map (\<lambda>v. v) (enum_variants d)) \<and> list_all (\<lambda>_. True) (enum_variants d))"
    unfolding validate_enum_variants_def
    by (intro decides_check_distinct) (simp add: decides_def reject_def accept_def)
  then show ?thesis by (simp add: list_all_iff)
qed

lemma outcome_checked: "decides f a P \<Longrightarrow> outcome q (or_mark f a) P a"
  by (intro outcome_or_mark finishes_yields yields_decides)

lemma outcome_type_decl:
  "\<not> had_error a \<Longrightarrow> outcome q (validate_type_decl d a) (type_decl_ok a d) a"
  using decides_variants [of _ d a] decides_members
  by (cases "nas d") (simp_all add: validate_type_decl_def type_decl_ok_def validate_fields_def
    outcome_same outcome_checked enum_variants_def)

subsection \<open>Interfaces and compile-time constants\<close>

definition names_fit :: "('x \<Rightarrow> string list) \<Rightarrow> analyzer \<Rightarrow> 'x list \<Rightarrow> bool" where
  "names_fit f a xs \<longleftrightarrow> distinct (global_names a @ concat (map f xs))"

definition add_names :: "('x \<Rightarrow> string list) \<Rightarrow> 'x list \<Rightarrow> analyzer \<Rightarrow> analyzer" where
  "add_names f xs a = a\<lparr>global_names := global_names a @ concat (map f xs)\<rparr>"

lemma outcome_register_name:
  assumes "quiet a"
  shows "outcome q (snd (register_global_name s d a)) (s \<notin> set (global_names a))
    (a\<lparr>global_names := global_names a @ [s]\<rparr>)"
  by (auto simp: outcome_def register_global_name_def reject_def sema_error_def)

lemma quiet_add_names: "quiet a \<Longrightarrow> names_fit f a xs \<Longrightarrow> quiet (add_names f xs a)"
  by (auto simp: quiet_def names_fit_def add_names_def tables_named_def)

interpretation const_pass: adding_pass register_comptime_const "add_names const_names"
  "names_fit const_names" "\<lambda>_. True"
proof
  fix a x xs assume a: "quiet a"
  show "outcome True (register_comptime_const x a) (names_fit const_names a [x]) (add_names const_names [x] a)"
    using a outcome_register_name [OF a]
    by (cases "nas x") (simp_all add: register_comptime_const_def names_fit_def add_names_def
        const_names_def outcome_same quiet_def)
  show "quiet (add_names const_names [x] a)" if "names_fit const_names a [x]"
    using a that by (rule quiet_add_names)
  show "names_fit const_names a (x # xs) \<longleftrightarrow>
      names_fit const_names a [x] \<and> names_fit const_names (add_names const_names [x] a) xs"
    by (auto simp: names_fit_def add_names_def)
qed (simp_all add: add_names_def names_fit_def quiet_def)

definition interfaces_fit :: "analyzer \<Rightarrow> node list \<Rightarrow> bool" where
  "interfaces_fit a ds \<longleftrightarrow> distinct (global_names a @ collect interface_names ds)"

lemma collect_concat: "collect f ds = concat (map f ds)"
  by (simp add: collect_def)

lemma outcome_register_interface:
  assumes a: "quiet a"
  shows "outcome True (register_interface_or_comptime d a) (interfaces_fit a [d]) (add_interfaces [d] a)"
proof (cases "nas d")
  case (NODE_INTERFACE_DECL s p ms pub)
  have "outcome True (or_mark (register_interface_decl s d) a) (s \<notin> set (global_names a))
      (a\<lparr>interfaces := interfaces a @ [entry s d], global_names := global_names a @ [s]\<rparr>)"
    using a by (intro outcome_or_mark finishes_yields register_rules) (simp add: quiet_def)
  moreover have "interfaces_fit a [d] \<longleftrightarrow> s \<notin> set (global_names a)"
    using a by (simp add: interfaces_fit_def interface_names_def NODE_INTERFACE_DECL quiet_def)
  ultimately show ?thesis
    by (simp add: register_interface_or_comptime_def NODE_INTERFACE_DECL add_interfaces_def
        interface_entries_def interface_names_def)
next
  case (NODE_COMPTIME cs)
  have "outcome True (until_error register_comptime_const cs a) (names_fit const_names a cs)
      (add_names const_names cs a)"
    by (rule outcome_weaken [OF const_pass.outcome_all [OF a]]) (simp add: list_all_iff)
  then show ?thesis
    by (simp add: register_interface_or_comptime_def NODE_COMPTIME add_interfaces_def
        interface_entries_def interface_names_def interfaces_fit_def names_fit_def add_names_def collect_concat)
qed (use a in \<open>simp_all add: register_interface_or_comptime_def interfaces_fit_def add_interfaces_def
      interface_entries_def interface_names_def outcome_same quiet_def\<close>)

lemma interface_entries_named: "decl_name ` set (interface_entries d) \<subseteq> set (interface_names d)"
  by (simp add: interface_names_def interface_entries_def entry_def split: node_as.split)

interpretation interface_pass: adding_pass register_interface_or_comptime add_interfaces interfaces_fit
  "\<lambda>_. True"
proof
  fix a x xs assume a: "quiet a"
  show "outcome True (register_interface_or_comptime x a) (interfaces_fit a [x]) (add_interfaces [x] a)"
    by (rule outcome_register_interface [OF a])
  show "quiet (add_interfaces [x] a)" if "interfaces_fit a [x]"
    using a that interface_entries_named [of x]
    by (auto simp: quiet_def tables_named_def add_interfaces_def interfaces_fit_def)
  show "interfaces_fit a (x # xs) \<longleftrightarrow> interfaces_fit a [x] \<and> interfaces_fit (add_interfaces [x] a) xs"
    by (auto simp: interfaces_fit_def add_interfaces_def)
qed (simp_all add: add_interfaces_def interfaces_fit_def quiet_def)

subsection \<open>Functions\<close>

definition sig_ok :: "analyzer \<Rightarrow> node \<Rightarrow> bool" where
  "sig_ok a d \<longleftrightarrow> valid_opt_type a (fn_ret_type d) \<and> members_ok a (fn_params d)"

lemma sig_ok_cong: "same_types a a' \<Longrightarrow> sig_ok a' d = sig_ok a d"
  using valid_type_cong [of a a'] members_ok_cong [of a a']
  by (simp add: sig_ok_def option.pred_map pred_option_def)

definition push_entry :: "bool \<Rightarrow> node \<Rightarrow> analyzer \<Rightarrow> analyzer" where
  "push_entry ext d a =
     (if ext then a\<lparr>extern_functions := extern_functions a @ [entry (fn_name d) d],
                     global_names := global_names a @ [fn_name d]\<rparr>
      else a\<lparr>fn_decls := fn_decls a @ [entry (fn_name d) d],
             global_names := global_names a @ [fn_name d]\<rparr>)"

lemma yields_function_like:
  assumes "quiet a"
  shows "yields q (register_function_like ext d) a (fn_name d \<notin> set (global_names a) \<and> sig_ok a d)
    (push_entry ext d a)"
proof -
  let ?a = "a\<lparr>global_names := global_names a @ [fn_name d]\<rparr>"
  have same: "same_types a ?a" by (simp add: same_types_def)
  have tn: "tables_named a" using assms by (simp add: quiet_def)
  have "yields q (register_function_like ext d) a
      (fn_name d \<notin> set (global_names a) \<and> True \<and> valid_opt_type ?a (fn_ret_type d) \<and>
       members_ok ?a (fn_params d) \<and> True) (push_entry ext d a)"
    unfolding register_function_like_def
  proof (intro yields_both)
    show "yields q (register_global_name (fn_name d) d) a (fn_name d \<notin> set (global_names a)) ?a"
      by (rule register_rules [OF tn])
    assume "fn_name d \<notin> set (global_names a)"
    with tn show "yields q (fresh_function d) ?a True ?a"
      by (auto simp: yields_def fresh_function_def accept_def find_named_decl_None tables_named_def)
    show "yields q (validate_opt_type (fn_ret_type d)) ?a (valid_opt_type ?a (fn_ret_type d)) ?a"
      by (intro yields_decides decides_validate_opt_type)
    show "yields q (check_each (check_member ''parameter'') [] (fn_params d)) ?a (members_ok ?a (fn_params d)) ?a"
      by (intro yields_decides decides_members)
    show "yields q (push_function ext d) ?a True (push_entry ext d a)"
      by (simp add: yields_def push_function_def push_entry_def push_named_decl_def entry_def)
  qed
  moreover have "valid_opt_type ?a (fn_ret_type d) \<longleftrightarrow> valid_opt_type a (fn_ret_type d)"
    "members_ok ?a (fn_params d) \<longleftrightarrow> members_ok a (fn_params d)"
    using valid_type_cong [OF same] members_ok_cong [OF same] by (simp_all add: pred_option_def)
  ultimately show ?thesis by (simp add: sig_ok_def)
qed

subsection \<open>Impls\<close>

definition receives :: "string \<Rightarrow> node option \<Rightarrow> bool" where
  "receives target ty \<longleftrightarrow>
     (\<exists>t. ty = Some t \<and>
        (nas t = NODE_TYPE_NAMED target \<or>
         (\<exists>u c n. nas t = NODE_TYPE_POINTER u c n \<and> nas u = NODE_TYPE_NAMED target)))"

definition receiver_ok :: "string \<Rightarrow> node list \<Rightarrow> bool" where
  "receiver_ok target ps \<longleftrightarrow>
     (case ps of [] \<Rightarrow> True | p # _ \<Rightarrow> let_name p \<noteq> ''self'' \<or> receives target (let_type p))"

definition method_ok :: "analyzer \<Rightarrow> string \<Rightarrow> node \<Rightarrow> bool" where
  "method_ok a target m \<longleftrightarrow> sig_ok a m \<and> receiver_ok target (fn_params m)"

text \<open>Every parameter has a type, as in every tree that the parser builds.\<close>

definition params_typed :: "node \<Rightarrow> bool" where
  "params_typed m \<longleftrightarrow> list_all (\<lambda>p. let_type p \<noteq> None) (fn_params m)"

lemma yields_receiver:
  "(q \<Longrightarrow> ty \<noteq> None) \<Longrightarrow> yields q (validate_receiver_type target ty at) a (receives target ty) a"
  by (cases ty) (auto simp: validate_receiver_type_def receives_def yields_def reject_def accept_def
      sema_error_def split: node_as.splits)

lemma yields_method_params:
  assumes "q \<Longrightarrow> list_all (\<lambda>p. let_type p \<noteq> None) (pre @ ps)"
  shows "yields q (check_each (check_method_param target) pre ps) a
    ((\<forall>i < length ps. let_name (ps ! i) \<notin> set (map let_name (pre @ take i ps)) \<and>
       valid_opt_type a (let_type (ps ! i))) \<and> (pre = [] \<longrightarrow> receiver_ok target ps)) a"
  using assms
proof (induction ps arbitrary: pre)
  case (Cons p ps)
  let ?one = "let_name p \<notin> set (map let_name pre) \<and> valid_opt_type a (let_type p)"
  let ?rec = "pre = [] \<and> let_name p = ''self'' \<longrightarrow> receives target (let_type p)"
  let ?rest = "\<forall>i < length ps. let_name (ps ! i) \<notin> set (map let_name ((pre @ [p]) @ take i ps)) \<and>
       valid_opt_type a (let_type (ps ! i))"
  have "yields q (check_each (check_method_param target) pre (p # ps)) a ((?one \<and> ?rec) \<and> ?rest) a"
    unfolding check_each.simps check_method_param_def [of target pre p]
  proof (intro yields_both)
    show "yields q (check_member ''parameter'' pre p) a ?one a"
      by (intro yields_decides decides_check_member)
    have "q \<Longrightarrow> let_type p \<noteq> None" using Cons.prems by simp
    then show "yields q (if pre = [] \<and> let_name p = ''self'' then validate_receiver_type target (let_type p) p
        else accept) a ?rec a"
      using yields_receiver [of q "let_type p" target p a] yields_accept [of True q a] by auto
    show "yields q (check_each (check_method_param target) (pre @ [p]) ps) a ?rest a"
      using Cons.IH [of "pre @ [p]"] Cons.prems by simp
  qed
  moreover have "((?one \<and> ?rec) \<and> ?rest) \<longleftrightarrow>
      (\<forall>i < length (p # ps). let_name ((p # ps) ! i) \<notin> set (map let_name (pre @ take i (p # ps))) \<and>
       valid_opt_type a (let_type ((p # ps) ! i))) \<and> (pre = [] \<longrightarrow> receiver_ok target (p # ps))"
    by (auto simp: All_less_Suc2 receiver_ok_def)
  ultimately show ?case by simp
qed (simp add: yields_accept receiver_ok_def)

lemma yields_method:
  assumes "params_typed m \<or> \<not> q"
  shows "yields q (register_method target pre m) a
    ((target, fn_name m) \<notin> set (map method_key (methods a)) \<and> method_ok a target m)
    (a\<lparr>methods := methods a @ [method_entry target m]\<rparr>)"
proof (cases "(target, fn_name m) \<in> set (map method_key (methods a))")
  case True
  then show ?thesis
    by (simp add: yields_def register_method_def find_method_decl_def find_method_None method_key_def
        reject_def sema_error_def image_image)
next
  case False
  let ?ps = "fn_params m"
  have params: "yields q (check_each (check_method_param target) [] ?ps) a
      (members_ok a ?ps \<and> receiver_ok target ?ps) a"
  proof -
    have "(\<forall>i < length ?ps. let_name (?ps ! i) \<notin> set (map let_name (take i ?ps)) \<and>
        valid_opt_type a (let_type (?ps ! i))) \<longleftrightarrow> members_ok a ?ps"
      unfolding members_ok_def distinct_prefix list_all_length by (auto simp: take_map)
    then show ?thesis
      using yields_method_params [of q "[]" ?ps target a] assms by (auto simp: params_typed_def)
  qed
  have "yields q (both (validate_opt_type (fn_ret_type m))
      (both (check_each (check_method_param target) [] ?ps)
        (\<lambda>a. (True, a\<lparr>methods := push_method_decl (methods a) target (fn_name m) m\<rparr>)))) a
      (valid_opt_type a (fn_ret_type m) \<and> (members_ok a ?ps \<and> receiver_ok target ?ps) \<and> True)
      (a\<lparr>methods := methods a @ [method_entry target m]\<rparr>)"
  proof (intro yields_both)
    show "yields q (validate_opt_type (fn_ret_type m)) a (valid_opt_type a (fn_ret_type m)) a"
      by (intro yields_decides decides_validate_opt_type)
    show "yields q (check_each (check_method_param target) [] ?ps) a
        (members_ok a ?ps \<and> receiver_ok target ?ps) a"
      by (rule params)
    show "yields q (\<lambda>a. (True, a\<lparr>methods := push_method_decl (methods a) target (fn_name m) m\<rparr>)) a True
        (a\<lparr>methods := methods a @ [method_entry target m]\<rparr>)"
      by (simp add: yields_def push_method_decl_def method_entry_def)
  qed
  moreover have "find_method_decl a target (fn_name m) = None"
    using False by (auto simp: find_method_decl_def find_method_None method_key_def)
  ultimately show ?thesis
    using False by (simp add: yields_def register_method_def method_ok_def sig_ok_def conj_assoc)
qed

lemma same_types_methods: "same_types a (a\<lparr>methods := ms\<rparr>)"
  by (simp add: same_types_def)

lemma method_ok_cong: "same_types a a' \<Longrightarrow> method_ok a' target m = method_ok a target m"
  by (simp add: method_ok_def sig_ok_cong)

lemma method_key_entry [simp]: "method_key (method_entry target m) = (target, fn_name m)"
  by (simp add: method_key_def method_entry_def)

lemma yields_methods:
  assumes "q \<Longrightarrow> list_all params_typed ms" "distinct (map method_key (methods a))"
  shows "yields q (check_each (register_method target) pre ms) a
    (distinct (map method_key (methods a @ map (method_entry target) ms)) \<and> list_all (method_ok a target) ms)
    (a\<lparr>methods := methods a @ map (method_entry target) ms\<rparr>)"
  using assms
proof (induction ms arbitrary: pre a)
  case (Cons m ms)
  let ?a = "a\<lparr>methods := methods a @ [method_entry target m]\<rparr>"
  have same: "same_types a ?a" by (simp add: same_types_def)
  have "yields q (check_each (register_method target) pre (m # ms)) a
      (((target, fn_name m) \<notin> set (map method_key (methods a)) \<and> method_ok a target m) \<and>
       distinct (map method_key (methods ?a @ map (method_entry target) ms)) \<and> list_all (method_ok ?a target) ms)
      (?a\<lparr>methods := methods ?a @ map (method_entry target) ms\<rparr>)"
    unfolding check_each.simps
  proof (intro yields_both)
    show "yields q (register_method target pre m) a
        ((target, fn_name m) \<notin> set (map method_key (methods a)) \<and> method_ok a target m) ?a"
      using Cons.prems by (intro yields_method) auto
    assume "(target, fn_name m) \<notin> set (map method_key (methods a)) \<and> method_ok a target m"
    then show "yields q (check_each (register_method target) (pre @ [m]) ms) ?a
        (distinct (map method_key (methods ?a @ map (method_entry target) ms)) \<and> list_all (method_ok ?a target) ms)
        (?a\<lparr>methods := methods ?a @ map (method_entry target) ms\<rparr>)"
      using Cons.prems by (intro Cons.IH) auto
  qed
  then show ?case
    using method_ok_cong [OF same] by (auto simp: yields_def list_all_iff)
qed (simp add: yields_accept list_all_iff)

text \<open>The impl provides every method that the interface requires.\<close>

definition satisfies :: "node \<Rightarrow> node \<Rightarrow> bool" where
  "satisfies impl iface \<longleftrightarrow> fn_name ` set (interface_methods iface) \<subseteq> fn_name ` set (impl_methods impl)"

definition interface_ok :: "analyzer \<Rightarrow> node \<Rightarrow> string \<Rightarrow> bool" where
  "interface_ok a d i \<longleftrightarrow> (\<exists>e. find_named_decl (interfaces a) i = Some e \<and> satisfies d (decl_node e))"

lemma decides_satisfies:
  "decides (check_impl_satisfies_interface target i d iface) a (satisfies d iface)"
proof -
  have "decides (check_impl_satisfies_interface target i d iface) a
      (\<forall>j < length (interface_methods iface). impl_has_method d (fn_name (interface_methods iface ! j)))"
    unfolding check_impl_satisfies_interface_def
    by (intro decides_check_each decides_if decides_accept decides_reject) simp_all
  moreover have "(\<forall>j < length (interface_methods iface). impl_has_method d (fn_name (interface_methods iface ! j)))
      \<longleftrightarrow> satisfies d iface"
    by (auto simp: satisfies_def impl_has_method_def all_set_conv_all_nth [symmetric] in_set_conv_nth)
      (metis imageE image_eqI in_set_conv_nth subset_iff)
  ultimately show ?thesis by simp
qed

lemma finishes_interface:
  "finishes q (check_impl_interface target i d) a
     (interface_ok a d i \<and> coercion_name target i \<notin> set (global_names a))
     (a\<lparr>global_names := global_names a @ [coercion_name target i]\<rparr>)"
proof (cases "find_named_decl (interfaces a) i")
  case None
  then show ?thesis
    by (auto simp: finishes_def check_impl_interface_def interface_ok_def reject_def sema_error_def)
next
  case (Some e)
  have "finishes q (both (check_impl_satisfies_interface target i d (decl_node e)) (register_coercion target i d)) a
      (satisfies d (decl_node e) \<and> coercion_name target i \<notin> set (global_names a))
      (a\<lparr>global_names := global_names a @ [coercion_name target i]\<rparr>)"
  proof (intro finishes_both)
    show "yields q (check_impl_satisfies_interface target i d (decl_node e)) a (satisfies d (decl_node e)) a"
      by (intro yields_decides decides_satisfies)
    show "finishes q (register_coercion target i d) a (coercion_name target i \<notin> set (global_names a))
        (a\<lparr>global_names := global_names a @ [coercion_name target i]\<rparr>)"
      by (auto simp: finishes_def register_coercion_def register_global_name_def reject_def sema_error_def)
  qed
  with Some show ?thesis
    by (simp add: finishes_def check_impl_interface_def interface_ok_def)
qed

definition impl_ok :: "analyzer \<Rightarrow> node \<Rightarrow> string \<Rightarrow> string option \<Rightarrow> node list \<Rightarrow> bool" where
  "impl_ok a d target iface ms \<longleftrightarrow>
     target \<in> decl_name ` set (structs a) \<and> list_all (method_ok a target) ms \<and>
     pred_option (interface_ok a d) iface"

lemma finishes_impl:
  assumes a: "quiet a" and q: "q \<Longrightarrow> list_all params_typed ms"
  shows "finishes q (register_impl_decl target iface ms d) a
     (impl_ok a d target iface ms \<and>
      distinct (map method_key (methods a @ map (method_entry target) ms)) \<and>
      (case iface of None \<Rightarrow> True | Some i \<Rightarrow> coercion_name target i \<notin> set (global_names a)))
     (a\<lparr>methods := methods a @ map (method_entry target) ms,
        global_names := global_names a @ (case iface of None \<Rightarrow> [] | Some i \<Rightarrow> [coercion_name target i])\<rparr>)"
    (is "finishes q _ a ?P ?a1")
proof (cases "find_named_decl (structs a) target")
  case None
  then show ?thesis
    by (auto simp: finishes_def register_impl_decl_def impl_ok_def find_named_decl_None reject_def sema_error_def)
next
  case (Some e)
  let ?a = "a\<lparr>methods := methods a @ map (method_entry target) ms\<rparr>"
  let ?Q = "distinct (map method_key (methods a @ map (method_entry target) ms)) \<and> list_all (method_ok a target) ms"
  let ?R = "case iface of None \<Rightarrow> True
    | Some i \<Rightarrow> interface_ok ?a d i \<and> coercion_name target i \<notin> set (global_names ?a)"
  have "finishes q (both (check_each (register_method target) [] ms)
      (case iface of None \<Rightarrow> accept | Some i \<Rightarrow> check_impl_interface target i d)) a (?Q \<and> ?R) ?a1"
  proof (intro finishes_both)
    show "yields q (check_each (register_method target) [] ms) a ?Q ?a"
      using a q by (intro yields_methods) (simp_all add: quiet_def)
    show "finishes q (case iface of None \<Rightarrow> accept | Some i \<Rightarrow> check_impl_interface target i d) ?a ?R ?a1"
      using finishes_interface [of q target "the iface" d ?a]
      by (cases iface) (simp_all add: finishes_yields yields_accept)
  qed
  moreover have "target \<in> decl_name ` set (structs a)"
    using find_named_decl_SomeD [OF Some] by auto
  then have "(?Q \<and> ?R) \<longleftrightarrow> ?P"
    by (auto simp: impl_ok_def interface_ok_def split: option.splits)
  ultimately show ?thesis
    by (simp add: finishes_def register_impl_decl_def Some)
qed

subsection \<open>Functions and impls of a program\<close>

definition fns_fit :: "analyzer \<Rightarrow> node list \<Rightarrow> bool" where
  "fns_fit a fns \<longleftrightarrow> distinct (global_names a @ map fn_name fns) \<and> list_all (sig_ok a) fns"

definition add_fns :: "node list \<Rightarrow> analyzer \<Rightarrow> analyzer" where
  "add_fns fns a = a\<lparr>fn_decls := fn_decls a @ map (\<lambda>f. entry (fn_name f) f) fns,
     global_names := global_names a @ map fn_name fns\<rparr>"

interpretation kernel_pass: adding_pass "\<lambda>fn. or_report d (register_function_like False fn)"
  add_fns fns_fit "\<lambda>_. True" for d
proof
  fix a x xs assume a: "quiet a"
  have fits: "fns_fit a [x] \<longleftrightarrow> fn_name x \<notin> set (global_names a) \<and> sig_ok a x"
    using a by (auto simp: fns_fit_def quiet_def)
  have push: "add_fns [x] a = push_entry False x a"
    by (simp add: add_fns_def push_entry_def)
  show "outcome True (or_report d (register_function_like False x) a) (fns_fit a [x]) (add_fns [x] a)"
    unfolding fits push using a by (intro outcome_or_report yields_function_like)
  show "quiet (add_fns [x] a)" if "fns_fit a [x]"
    using a that by (auto simp: quiet_def tables_named_def add_fns_def fns_fit_def entry_def)
  have "same_types a (add_fns [x] a)" by (simp add: same_types_def add_fns_def)
  from sig_ok_cong [OF this] show "fns_fit a (x # xs) \<longleftrightarrow> fns_fit a [x] \<and> fns_fit (add_fns [x] a) xs"
    by (auto simp: fns_fit_def add_fns_def list_all_iff)
qed (simp_all add: add_fns_def fns_fit_def quiet_def)

definition callable_ok :: "analyzer \<Rightarrow> node \<Rightarrow> bool" where
  "callable_ok a d =
     (case nas d of
        NODE_FN_DECL _ _ _ tps _ _ _ _ \<Rightarrow> tps \<noteq> [] \<or> sig_ok a d
      | NODE_EXTERN_FN _ _ _ _ _ _ \<Rightarrow> sig_ok a d
      | NODE_IMPL_DECL target _ iface ms \<Rightarrow> impl_ok a d target iface ms
      | NODE_KERNEL_APP _ _ fns _ \<Rightarrow> list_all (sig_ok a) fns
      | _ \<Rightarrow> True)"

definition callables_fit :: "analyzer \<Rightarrow> node list \<Rightarrow> bool" where
  "callables_fit a ds \<longleftrightarrow>
     distinct (global_names a @ collect callable_names ds) \<and>
     distinct (map method_key (methods a @ collect method_entries ds)) \<and>
     list_all (callable_ok a) ds"

definition impl_typed :: "node \<Rightarrow> bool" where
  "impl_typed d = (case nas d of NODE_IMPL_DECL _ _ _ ms \<Rightarrow> list_all params_typed ms | _ \<Rightarrow> True)"

lemma callable_ok_cong: "same_types a a' \<Longrightarrow> callable_ok a' d = callable_ok a d"
  using sig_ok_cong [of a a'] method_ok_cong [of a a']
  by (simp add: callable_ok_def impl_ok_def interface_ok_def list_all_iff pred_option_def same_types_def
      split: node_as.split)

lemmas callable_defs = register_callable_def callables_fit_def add_callables_def callable_ok_def
  callable_names_def fn_entries_def extern_entries_def method_entries_def

lemma outcome_register_callable:
  assumes a: "quiet a"
  shows "outcome (impl_typed d) (register_callable d a) (callables_fit a [d]) (add_callables [d] a)"
proof -
  have dist: "distinct (global_names a)" "distinct (map method_key (methods a))"
    using a by (simp_all add: quiet_def)
  show ?thesis
  proof (cases "nas d")
    case (NODE_FN_DECL s p ow tps ps r b pub)
    have name: "fn_name d = s" by (simp add: fn_name_def NODE_FN_DECL)
    show ?thesis
    proof (cases "tps = []")
      case True
      have "outcome (impl_typed d) (or_report d (register_function_like False d) a)
          (fn_name d \<notin> set (global_names a) \<and> sig_ok a d) (push_entry False d a)"
        using a by (intro outcome_or_report yields_function_like)
      with True dist show ?thesis
        by (simp add: callable_defs NODE_FN_DECL name push_entry_def)
    next
      case False
      with outcome_register_name [OF a, of "impl_typed d" s d] dist show ?thesis
        by (simp add: callable_defs NODE_FN_DECL)
    qed
  next
    case (NODE_EXTERN_FN s p cc ps r pub)
    have name: "fn_name d = s" by (simp add: fn_name_def NODE_EXTERN_FN)
    have "outcome (impl_typed d) (or_report d (register_function_like True d) a)
        (fn_name d \<notin> set (global_names a) \<and> sig_ok a d) (push_entry True d a)"
      using a by (intro outcome_or_report yields_function_like)
    with dist show ?thesis
      by (simp add: callable_defs NODE_EXTERN_FN name push_entry_def)
  next
    case (NODE_IMPL_DECL target p iface ms)
    let ?P = "impl_ok a d target iface ms \<and>
      distinct (map method_key (methods a @ map (method_entry target) ms)) \<and>
      (case iface of None \<Rightarrow> True | Some i \<Rightarrow> coercion_name target i \<notin> set (global_names a))"
    let ?a = "a\<lparr>methods := methods a @ map (method_entry target) ms,
      global_names := global_names a @ (case iface of None \<Rightarrow> [] | Some i \<Rightarrow> [coercion_name target i])\<rparr>"
    have "outcome (impl_typed d) (or_mark (register_impl_decl target iface ms d) a) ?P ?a"
      using a by (intro outcome_or_mark finishes_impl) (simp_all add: impl_typed_def NODE_IMPL_DECL)
    moreover have "callables_fit a [d] \<longleftrightarrow> ?P"
      using dist by (cases iface) (auto simp: callable_defs NODE_IMPL_DECL)
    moreover have "add_callables [d] a = ?a"
      by (cases iface) (simp_all add: callable_defs NODE_IMPL_DECL)
    ultimately show ?thesis
      by (simp add: register_callable_def NODE_IMPL_DECL)
  next
    case (NODE_KERNEL_APP s p fns pub)
    have "outcome (impl_typed d) (until_error (\<lambda>fn. or_report d (register_function_like False fn)) fns a)
        (fns_fit a fns) (add_fns fns a)"
      by (rule outcome_weaken [OF kernel_pass.outcome_all [OF a]]) (simp add: list_all_iff)
    with dist show ?thesis
      by (simp add: callable_defs NODE_KERNEL_APP fns_fit_def add_fns_def)
  qed (use a in \<open>simp_all add: callable_defs outcome_same quiet_def\<close>)
qed

lemma callable_entries_named:
  "decl_name ` set (fn_entries d @ extern_entries d) \<subseteq> set (callable_names d)"
  by (auto simp: callable_names_def fn_entries_def extern_entries_def entry_def split: node_as.split option.split)

interpretation callable_pass: adding_pass register_callable add_callables callables_fit impl_typed
proof
  fix a x xs assume a: "quiet a"
  show "outcome (impl_typed x) (register_callable x a) (callables_fit a [x]) (add_callables [x] a)"
    by (rule outcome_register_callable [OF a])
  show "quiet (add_callables [x] a)" if "callables_fit a [x]"
    using a that callable_entries_named [of x]
    by (auto simp: quiet_def tables_named_def add_callables_def callables_fit_def)
  have "same_types a (add_callables [x] a)" by (simp add: same_types_def add_callables_def)
  from callable_ok_cong [OF this]
  show "callables_fit a (x # xs) \<longleftrightarrow> callables_fit a [x] \<and> callables_fit (add_callables [x] a) xs"
    by (auto simp: callables_fit_def add_callables_def list_all_iff)
qed (simp_all add: add_callables_def callables_fit_def quiet_def)

end
