(* ===== verification/Sema_Props.thy ===== *)
theory Sema_Props
  imports Sema_Passes
begin

text \<open>
  The declarative notion of a well-formed program, and the theorems about \<^verbatim>\<open>sema_analyze\<close>: it
  accepts exactly the well-formed programs, returns their declarations, and never rejects in
  silence.
\<close>

subsection \<open>Bodies\<close>

definition function_names :: "analyzer \<Rightarrow> string set" where
  "function_names a = decl_name ` (set (fn_decls a) \<union> set (extern_functions a))"

definition body_ok :: "analyzer \<Rightarrow> node \<Rightarrow> bool" where
  "body_ok a fn \<longleftrightarrow>
     distinct (map let_name (fn_params fn)) \<and>
     let_name ` set (fn_params fn) \<inter> function_names a = {} \<and>
     (case fn_body fn of
        None \<Rightarrow> True
      | Some b \<Rightarrow>
          (case nas b of
             NODE_BLOCK ss \<Rightarrow> wf_stmts a 0 {} (function_names a \<union> let_name ` set (fn_params fn)) ss
           | _ \<Rightarrow> True))"

lemma fst_bindings:
  "fst ` set (named_bindings ds) = decl_name ` set ds" "map fst (named_bindings ds) = map decl_name ds"
  "fst ` set (param_bindings fn) = let_name ` set (fn_params fn)"
  "map fst (param_bindings fn) = map let_name (fn_params fn)"
  by (simp_all add: named_bindings_def param_bindings_def image_image comp_def)

lemma define_all_outer: "define_all sc bs = Inr sc' \<Longrightarrow> outer sc' = outer sc"
  unfolding define_all_def
proof (induction bs arbitrary: sc)
  case (Cons b bs)
  obtain s nd where b: "b = (s, nd)" by fastforce
  from Cons.prems obtain sc1 where sc1: "scope_define sc s nd = Some sc1"
    and rest: "define_all_by scope_define sc1 bs = Inr sc'"
    by (auto simp: b split: option.splits)
  from sc1 have "outer sc1 = outer sc"
    by (cases sc) (auto simp: outer_def split: if_splits)
  with Cons.IH [OF rest] show ?case by simp
qed simp

lemma decides_body:
  assumes "distinct (map decl_name (fn_decls a @ extern_functions a))"
  shows "decides (analyze_function_body fn) a (body_ok a fn)"
proof -
  let ?fs = "named_bindings (fn_decls a) @ named_bindings (extern_functions a)"
  have fs: "fst ` set ?fs = function_names a" "distinct (map fst ?fs)"
    using assms by (simp_all add: fst_bindings function_names_def image_Un)
  have "\<nexists>b. define_all (scope_new None) ?fs = Inl b"
    using scopes.define_all_Inl [of "scope_new None" ?fs] fs(2) by (simp add: define_all_def)
  then obtain sc where sc: "define_all (scope_new None) ?fs = Inr sc"
    by (cases "define_all (scope_new None) ?fs") auto
  have lsc: "locals sc = function_names a"
    using scopes.define_all_Inr [OF sc [unfolded define_all_def]] fs(1) by simp
  have osc: "outer sc = {}"
    using define_all_outer [OF sc] by simp
  show ?thesis
  proof (cases "define_all sc (param_bindings fn)")
    case (Inl b)
    then have "\<not> body_ok a fn"
      using scopes.define_all_Inl [of sc "param_bindings fn"]
      by (auto simp: define_all_def body_ok_def fst_bindings lsc)
    with sc Inl show ?thesis
      by (cases b) (simp add: decides_def analyze_function_body_def reject_def)
  next
    case (Inr sc')
    let ?F = "function_names a \<union> let_name ` set (fn_params fn)"
    have params: "distinct (map let_name (fn_params fn))"
        "let_name ` set (fn_params fn) \<inter> function_names a = {}"
      using Inr scopes.define_all_Inl [of sc "param_bindings fn"]
      by (auto simp: define_all_def fst_bindings lsc)
    have lsc': "locals sc' = ?F"
      using scopes.define_all_Inr [OF Inr [unfolded define_all_def]] by (auto simp: fst_bindings lsc)
    have osc': "outer sc' = {}"
      using define_all_outer [OF Inr] osc by simp
    have block: "decides_stmt (analyze_stmts 0 ss) sc' a (wf_stmts a 0 {} ?F ss) (end_names ?F ss)" for ss
      using decides_stmts(5) [of 0 ss sc' a] by (simp add: lsc' osc')
    show ?thesis
    proof (cases "fn_body fn")
      case None
      with sc Inr params show ?thesis
        by (simp add: decides_def analyze_function_body_def accept_def body_ok_def)
    next
      case (Some b)
      obtain l c x where b: "b = Node l c x" by (cases b)
      show ?thesis
      proof (cases "\<exists>ss. x = NODE_BLOCK ss")
        case True
        then obtain ss where x: "x = NODE_BLOCK ss" by blast
        have "body_ok a fn \<longleftrightarrow> wf_stmts a 0 {} ?F ss"
          using params by (simp add: body_ok_def Some b x)
        moreover have "analyze_function_body fn a =
            (case analyze_stmts 0 ss sc' a of (ok, _, a') \<Rightarrow> (ok, a'))"
          using sc Inr by (simp add: analyze_function_body_def Some b x)
        ultimately show ?thesis
          using block [of ss] by (auto simp: decides_def decides_stmt_def split: if_splits)
      next
        case False
        then have "analyze_block 0 b sc' a = (True, sc', a)"
          by (cases x) (simp_all add: b no_scope_def accept_def)
        moreover have "body_ok a fn"
          using False params by (simp add: body_ok_def Some b split: node_as.split)
        ultimately show ?thesis
          using sc Inr by (simp add: decides_def analyze_function_body_def Some)
      qed
    qed
  qed
qed

definition bodies_ok :: "analyzer \<Rightarrow> node \<Rightarrow> bool" where
  "bodies_ok a d =
     (case nas d of
        NODE_FN_DECL _ _ _ tps _ _ _ _ \<Rightarrow> tps \<noteq> [] \<or> body_ok a d
      | NODE_IMPL_DECL _ _ _ ms \<Rightarrow> list_all (body_ok a) ms
      | NODE_KERNEL_APP _ _ fns _ \<Rightarrow> list_all (body_ok a) fns
      | _ \<Rightarrow> True)"

lemma outcome_bodies:
  assumes "\<not> had_error a" "distinct (map decl_name (fn_decls a @ extern_functions a))"
  shows "outcome q (analyze_bodies d a) (bodies_ok a d) a"
proof -
  have one: "outcome q (or_mark (analyze_function_body fn) a) (body_ok a fn) a" for fn
    by (intro outcome_checked decides_body assms)
  have all: "outcome q (until_error (\<lambda>fn. or_mark (analyze_function_body fn)) fns a) (list_all (body_ok a) fns) a"
    for fns
    using assms(1) one by (rule outcome_until_same)
  show ?thesis
    using one [of d] all assms(1)
    by (cases "nas d") (simp_all add: analyze_bodies_def bodies_ok_def outcome_same)
qed

subsection \<open>Imports\<close>

definition import_ok :: "(string \<Rightarrow> bool) \<Rightarrow> string \<Rightarrow> node \<Rightarrow> bool" where
  "import_ok fe src nd \<longleftrightarrow> import_path nd \<noteq> [] \<and> import_path_exists fe src (import_path nd)"

lemma check_import_fails:
  "had_error a \<Longrightarrow> had_error (fold (check_import fe) imps a)"
  "printed a \<noteq> [] \<Longrightarrow> printed (fold (check_import fe) imps a) \<noteq> []"
  by (induction imps arbitrary: a) (simp_all add: check_import_def sema_error_def)

lemma outcome_imports:
  "\<not> had_error a \<Longrightarrow> source_name a = src \<Longrightarrow>
     outcome q (fold (check_import fe) imps a) (list_all (import_ok fe src) imps) a"
proof (induction imps)
  case (Cons nd imps)
  show ?case
  proof (cases "import_ok fe src nd")
    case True
    with Cons show ?thesis by (simp add: check_import_def import_ok_def)
  next
    case False
    with Cons.prems have "had_error (check_import fe nd a)" "printed (check_import fe nd a) \<noteq> []"
      by (auto simp: check_import_def import_ok_def sema_error_def)
    with False show ?thesis
      by (simp add: outcome_def check_import_fails)
  qed
qed (simp add: outcome_def)

subsection \<open>Programs\<close>

text \<open>The tables after the three passes that add to them.\<close>

definition type_env :: "string \<Rightarrow> node list \<Rightarrow> analyzer" where
  "type_env src ds = add_types ds (analyzer_init src)"

definition interface_env :: "string \<Rightarrow> node list \<Rightarrow> analyzer" where
  "interface_env src ds = add_interfaces ds (type_env src ds)"

definition program_env :: "string \<Rightarrow> node list \<Rightarrow> analyzer" where
  "program_env src ds = add_callables ds (interface_env src ds)"

definition symbol_names :: "node list \<Rightarrow> string list" where
  "symbol_names ds = collect type_names ds @ collect interface_names ds @ collect callable_names ds"

definition well_formed_program :: "(string \<Rightarrow> bool) \<Rightarrow> string \<Rightarrow> node list \<Rightarrow> node list \<Rightarrow> bool" where
  "well_formed_program fe src imps ds \<longleftrightarrow>
     distinct (symbol_names ds) \<and>
     distinct (map method_key (collect method_entries ds)) \<and>
     list_all (type_decl_ok (type_env src ds)) ds \<and>
     list_all (callable_ok (interface_env src ds)) ds \<and>
     list_all (bodies_ok (program_env src ds)) ds \<and>
     list_all (import_ok fe src) imps"

lemma analyzer_init_quiet: "quiet (analyzer_init src)"
  by (simp add: quiet_def analyzer_init_def tables_named_def)

lemma env_simps:
  "global_names (analyzer_init src) = []"
  "global_names (type_env src ds) = collect type_names ds"
  "global_names (interface_env src ds) = collect type_names ds @ collect interface_names ds"
  "global_names (program_env src ds) = symbol_names ds"
  "methods (interface_env src ds) = []" "source_name (program_env src ds) = src"
  "fn_decls (program_env src ds) = collect fn_entries ds"
  "extern_functions (program_env src ds) = collect extern_entries ds"
  "structs (program_env src ds) = collect struct_entries ds"
  "enums (program_env src ds) = collect enum_entries ds"
  "unions (program_env src ds) = collect union_entries ds"
  "had_error (program_env src ds) = False" "printed (program_env src ds) = []"
  by (simp_all add: type_env_def interface_env_def program_env_def add_types_def add_interfaces_def
      add_callables_def analyzer_init_def symbol_names_def)

lemma callable_entries_distinct:
  "distinct (callable_names d) \<Longrightarrow>
     distinct (map decl_name (fn_entries d)) \<and> distinct (map decl_name (extern_entries d)) \<and>
     (fn_entries d = [] \<or> extern_entries d = [])"
  by (cases "nas d") (simp_all add: fn_entries_def extern_entries_def callable_names_def entry_def comp_def)

lemma disjoint_mono: "A \<subseteq> C \<Longrightarrow> B \<subseteq> D \<Longrightarrow> C \<inter> D = {} \<Longrightarrow> A \<inter> B = {}"
  by blast

lemma function_entries_distinct:
  "distinct (collect callable_names ds) \<Longrightarrow>
     distinct (map decl_name (collect fn_entries ds @ collect extern_entries ds)) \<and>
     decl_name ` set (collect fn_entries ds @ collect extern_entries ds) \<subseteq> set (collect callable_names ds)"
proof (induction ds)
  case (Cons d ds)
  let ?F = "decl_name ` set (fn_entries d)" and ?X = "decl_name ` set (extern_entries d)"
  let ?Fs = "decl_name ` set (collect fn_entries ds)" and ?Xs = "decl_name ` set (collect extern_entries ds)"
  have d: "distinct (map decl_name (fn_entries d))" "distinct (map decl_name (extern_entries d))"
      "fn_entries d = [] \<or> extern_entries d = []"
    using callable_entries_distinct [of d] Cons.prems by simp_all
  have IH: "distinct (map decl_name (collect fn_entries ds))" "distinct (map decl_name (collect extern_entries ds))"
      "?Fs \<inter> ?Xs = {}" "?Fs \<union> ?Xs \<subseteq> set (collect callable_names ds)"
    using Cons by auto
  have sub: "?F \<union> ?X \<subseteq> set (callable_names d)"
    using callable_entries_named [of d] by (simp add: image_Un)
  have "set (callable_names d) \<inter> set (collect callable_names ds) = {}"
    using Cons.prems by simp
  then have all: "(?F \<union> ?X) \<inter> (?Fs \<union> ?Xs) = {}"
    by (rule disjoint_mono [OF sub IH(4)])
  then have dis: "?F \<inter> ?Fs = {}" "?F \<inter> ?Xs = {}" "?Fs \<inter> ?X = {}" "?X \<inter> ?Xs = {}"
    by (simp_all only: Int_Un_distrib Int_Un_distrib2 Un_empty Int_commute [of ?Fs ?X])
  have FX: "?F \<inter> ?X = {}" using d(3) by auto
  have "distinct (map decl_name (collect fn_entries (d # ds)))"
    "distinct (map decl_name (collect extern_entries (d # ds)))"
    using d(1,2) IH(1,2) dis(1,4) by simp_all
  moreover have "(?F \<union> ?Fs) \<inter> (?X \<union> ?Xs) = {}"
    by (simp only: Int_Un_distrib Int_Un_distrib2 FX dis IH(3) Un_empty_left)
  moreover have "(?F \<union> ?Fs) \<union> (?X \<union> ?Xs) \<subseteq> set (collect callable_names (d # ds))"
    using sub IH(4) by auto
  moreover have "decl_name ` set (collect fn_entries (d # ds)) = ?F \<union> ?Fs"
      "decl_name ` set (collect extern_entries (d # ds)) = ?X \<union> ?Xs"
    by (simp_all only: collect_simps set_append image_Un)
  ultimately show ?case
    by (simp only: map_append distinct_append set_map set_append image_Un simp_thms)
qed simp

lemma outcome_check_imports:
  assumes "outcome q r P a" "P \<Longrightarrow> \<not> had_error a" "source_name a = src"
  shows "outcome q (check_imports fe imps r) (P \<and> list_all (import_ok fe src) imps) a"
proof (cases P)
  case True
  with assms outcome_imports [of a src q fe imps] show ?thesis
    by (simp add: outcome_def check_imports_def)
qed (use assms(1) in \<open>simp add: outcome_def check_imports_def\<close>)

lemma run_passes_outcome:
  "outcome (list_all impl_typed ds) (run_passes fe imps ds (analyzer_init src))
     (well_formed_program fe src imps ds) (program_env src ds)"
proof -
  let ?q = "list_all impl_typed ds"
  let ?E1 = "type_env src ds" and ?E3 = "interface_env src ds" and ?E4 = "program_env src ds"
  have true: "list_all (\<lambda>_. True) ds" by (simp add: list_all_iff)
  have q1: "types_fit (analyzer_init src) ds \<Longrightarrow> quiet ?E1"
    unfolding type_env_def by (intro type_pass.all_quiet analyzer_init_quiet)
  have q3: "quiet ?E1 \<Longrightarrow> interfaces_fit ?E1 ds \<Longrightarrow> quiet ?E3"
    unfolding interface_env_def by (rule interface_pass.all_quiet)
  have quiet: "quiet ?E1" "quiet ?E3" if "types_fit (analyzer_init src) ds" "interfaces_fit ?E1 ds"
    using that q1 q3 by auto
  have "outcome ?q (run_passes fe imps ds (analyzer_init src))
      (((((types_fit (analyzer_init src) ds \<and> list_all (type_decl_ok ?E1) ds) \<and> interfaces_fit ?E1 ds) \<and>
        callables_fit ?E3 ds) \<and> list_all (bodies_ok ?E4) ds) \<and> list_all (import_ok fe src) imps) ?E4"
    unfolding run_passes_def
  proof (intro outcome_check_imports outcome_pass)
    show "outcome ?q (until_error register_type_decl ds (analyzer_init src))
        (types_fit (analyzer_init src) ds) ?E1"
      unfolding type_env_def
      by (rule outcome_weaken [OF type_pass.outcome_all [OF analyzer_init_quiet]]) (simp add: true)
    show "outcome ?q (until_error validate_type_decl ds ?E1) (list_all (type_decl_ok ?E1) ds) ?E1"
      if "types_fit (analyzer_init src) ds"
      using q1 [OF that] by (intro outcome_until_same outcome_type_decl) (simp_all add: quiet_def)
    show "outcome ?q (until_error register_interface_or_comptime ds ?E1) (interfaces_fit ?E1 ds) ?E3"
      if "types_fit (analyzer_init src) ds \<and> list_all (type_decl_ok ?E1) ds"
      unfolding interface_env_def
      using that q1 by (intro outcome_weaken [OF interface_pass.outcome_all]) (simp_all add: true)
    show "outcome ?q (until_error register_callable ds ?E3) (callables_fit ?E3 ds) ?E4"
      if "(types_fit (analyzer_init src) ds \<and> list_all (type_decl_ok ?E1) ds) \<and> interfaces_fit ?E1 ds"
      unfolding program_env_def using that quiet by (intro callable_pass.outcome_all) simp
    show "outcome ?q (until_error analyze_bodies ds ?E4) (list_all (bodies_ok ?E4) ds) ?E4"
      if "((types_fit (analyzer_init src) ds \<and> list_all (type_decl_ok ?E1) ds) \<and> interfaces_fit ?E1 ds) \<and>
        callables_fit ?E3 ds"
    proof (intro outcome_until_same outcome_bodies)
      show "distinct (map decl_name (fn_decls ?E4 @ extern_functions ?E4))"
        using that function_entries_distinct [of ds] by (simp add: env_simps callables_fit_def)
    qed (simp_all add: env_simps)
  qed (simp_all add: env_simps)
  moreover have "(((((types_fit (analyzer_init src) ds \<and> list_all (type_decl_ok ?E1) ds) \<and>
      interfaces_fit ?E1 ds) \<and> callables_fit ?E3 ds) \<and> list_all (bodies_ok ?E4) ds) \<and>
      list_all (import_ok fe src) imps) \<longleftrightarrow> well_formed_program fe src imps ds"
    by (auto simp: types_fit_def interfaces_fit_def callables_fit_def well_formed_program_def
        env_simps symbol_names_def)
  ultimately show ?thesis by simp
qed

text \<open>What the model of an accepted program holds.\<close>

definition program_functions :: "node \<Rightarrow> node list" where
  "program_functions d =
     (case nas d of
        NODE_FN_DECL _ _ _ tps _ _ _ _ \<Rightarrow> if tps = [] then [d] else []
      | NODE_KERNEL_APP _ _ fns _ \<Rightarrow> fns
      | _ \<Rightarrow> [])"

definition is_extern_fn :: "node \<Rightarrow> bool" where
  "is_extern_fn d = (case nas d of NODE_EXTERN_FN _ _ _ _ _ _ \<Rightarrow> True | _ \<Rightarrow> False)"

definition is_struct_decl :: "node \<Rightarrow> bool" where
  "is_struct_decl d = (case nas d of NODE_STRUCT_DECL _ _ _ _ _ _ \<Rightarrow> True | _ \<Rightarrow> False)"

definition is_enum_decl :: "node \<Rightarrow> bool" where
  "is_enum_decl d = (case nas d of NODE_ENUM_DECL _ _ _ _ \<Rightarrow> True | _ \<Rightarrow> False)"

definition is_union_decl :: "node \<Rightarrow> bool" where
  "is_union_decl d = (case nas d of NODE_UNION_DECL _ _ _ _ \<Rightarrow> True | _ \<Rightarrow> False)"

definition expected_model :: "node list \<Rightarrow> semantic_model" where
  "expected_model ds =
     \<lparr>model_functions = collect program_functions ds,
      model_extern_functions = filter is_extern_fn ds,
      model_structs = filter is_struct_decl ds,
      model_enums = filter is_enum_decl ds,
      model_unions = filter is_union_decl ds,
      model_impls = filter is_impl_decl ds\<rparr>"

lemma entry_nodes:
  "map decl_node (fn_entries d) = program_functions d"
  "map decl_node (extern_entries d) = (if is_extern_fn d then [d] else [])"
  "map decl_node (struct_entries d) = (if is_struct_decl d then [d] else [])"
  "map decl_node (enum_entries d) = (if is_enum_decl d then [d] else [])"
  "map decl_node (union_entries d) = (if is_union_decl d then [d] else [])"
  by (cases "nas d"; simp add: fn_entries_def program_functions_def extern_entries_def is_extern_fn_def
      struct_entries_def is_struct_decl_def enum_entries_def is_enum_decl_def union_entries_def
      is_union_decl_def entry_def comp_def)+

lemma collected_nodes:
  "map decl_node (collect fn_entries ds) = collect program_functions ds"
  "map decl_node (collect extern_entries ds) = filter is_extern_fn ds"
  "map decl_node (collect struct_entries ds) = filter is_struct_decl ds"
  "map decl_node (collect enum_entries ds) = filter is_enum_decl ds"
  "map decl_node (collect union_entries ds) = filter is_union_decl ds"
  by (induction ds) (simp_all add: entry_nodes)

lemma sema_analyze_result:
  "fst (sema_analyze fe (Node l c (NODE_PROGRAM pkg imps ds)) src) =
     (if well_formed_program fe src imps ds then Some (expected_model ds) else None)"
  "list_all impl_typed ds \<Longrightarrow> snd (sema_analyze fe (Node l c (NODE_PROGRAM pkg imps ds)) src) = [] \<longleftrightarrow>
     well_formed_program fe src imps ds"
proof -
  let ?a = "run_passes fe imps ds (analyzer_init src)"
  have model: "build_model ds (program_env src ds) = expected_model ds"
    by (simp add: build_model_def expected_model_def copy_nodes_from_named_def copy_impl_nodes_def
        env_simps collected_nodes)
  show "fst (sema_analyze fe (Node l c (NODE_PROGRAM pkg imps ds)) src) =
     (if well_formed_program fe src imps ds then Some (expected_model ds) else None)"
    using run_passes_outcome [of ds fe imps src]
    by (auto simp: sema_analyze_def Let_def outcome_def model env_simps split: if_splits)
  show "list_all impl_typed ds \<Longrightarrow> snd (sema_analyze fe (Node l c (NODE_PROGRAM pkg imps ds)) src) = [] \<longleftrightarrow>
     well_formed_program fe src imps ds"
    using run_passes_outcome [of ds fe imps src]
    by (auto simp: sema_analyze_def Let_def outcome_def env_simps split: if_splits)
qed

lemma accepted_silent:
  "well_formed_program fe src imps ds \<Longrightarrow> snd (sema_analyze fe (Node l c (NODE_PROGRAM pkg imps ds)) src) = []"
  using run_passes_outcome [of ds fe imps src]
  by (simp add: sema_analyze_def Let_def outcome_def env_simps)

end
