(* ===== verification/Sema_Scoping.thy ===== *)
theory Sema_Scoping
  imports Sema_Props
begin

text \<open>
  What acceptance means for the bodies of a program: the free names of a body, with the scopes of
  \<^verbatim>\<open>let\<close>, \<^verbatim>\<open>for\<close> and match arms, are declared, and no jump leaves the function. The last part
  collects the properties of \<^verbatim>\<open>sema_analyze\<close>.
\<close>

subsection \<open>Free names\<close>

text \<open>
  The identifiers that an expression mentions as values. A constructor that is called, a type before
  a dot, and the index of a global that is no function are no such occurrences.
\<close>

inductive occurs :: "analyzer \<Rightarrow> node \<Rightarrow> string \<Rightarrow> bool" for a where
  ident: "occurs a (Node l c (NODE_IDENT s)) s"
| group: "occurs a e s \<Longrightarrow> occurs a (Node l c (NODE_GROUP e)) s"
| unary: "occurs a e s \<Longrightarrow> occurs a (Node l c (NODE_UNARY q e)) s"
| binary: "occurs a e s \<or> occurs a f s \<Longrightarrow> occurs a (Node l c (NODE_BINARY q e f)) s"
| assign: "occurs a e s \<or> occurs a f s \<Longrightarrow> occurs a (Node l c (NODE_ASSIGN e f q)) s"
| index: "occurs a e s \<Longrightarrow> occurs a (Node l c (NODE_INDEX e i)) s"
| subscript: "\<not> is_generic_callee a e \<Longrightarrow> occurs a i s \<Longrightarrow> occurs a (Node l c (NODE_INDEX e i)) s"
| slice: "occurs a e s \<Longrightarrow> occurs a (Node l c (NODE_SLICE e f g)) s"
| slice_end: "x \<in> set_option f \<union> set_option g \<Longrightarrow> occurs a x s \<Longrightarrow> occurs a (Node l c (NODE_SLICE e f g)) s"
| callee: "\<not> is_constructor_call e \<Longrightarrow> occurs a e s \<Longrightarrow> occurs a (Node l c (NODE_CALL e es)) s"
| argument: "x \<in> set es \<Longrightarrow> occurs a x s \<Longrightarrow> occurs a (Node l c (NODE_CALL e es)) s"
| cast: "occurs a e s \<Longrightarrow> occurs a (Node l c (NODE_CAST e t)) s"
| field: "\<not> names_type a e \<Longrightarrow> occurs a e s \<Longrightarrow> occurs a (Node l c (NODE_FIELD e f)) s"
| struct_lit: "(f, x) \<in> set inits \<Longrightarrow> occurs a x s \<Longrightarrow> occurs a (Node l c (NODE_STRUCT_LIT t inits)) s"
| subject: "occurs a e s \<Longrightarrow> occurs a (Node l c (NODE_MATCH e arms)) s"
| arm: "(p, bs, x) \<in> set arms \<Longrightarrow> occurs a x s \<Longrightarrow> s \<notin> set bs \<Longrightarrow>
    occurs a (Node l c (NODE_MATCH e arms)) s"

inductive_simps occurs_Node: "occurs a (Node l c x) s"

lemma name_known_mono: "name_known a \<Gamma> s \<Longrightarrow> \<Gamma> \<subseteq> \<Delta> \<Longrightarrow> name_known a \<Delta> s"
  by (auto simp: name_known_def)

lemma name_known_insert: "name_known a (\<Gamma> \<union> B) s \<Longrightarrow> s \<notin> B \<Longrightarrow> name_known a \<Gamma> s"
  by (auto simp: name_known_def)

lemma wf_expr_occurs: "wf_expr a \<Gamma> e \<Longrightarrow> occurs a e s \<Longrightarrow> name_known a \<Gamma> s"
proof (induction arbitrary: s rule: wf_expr.induct)
  case (match \<Gamma> e arms l c)
  from match.prems consider "occurs a e s"
    | p bs x where "(p, bs, x) \<in> set arms" "occurs a x s" "s \<notin> set bs"
    by (auto simp: occurs_Node)
  then show ?case
  proof cases
    case (2 p bs x)
    with match.IH(2) have "name_known a (\<Gamma> \<union> set bs) s"
      by (auto simp: list_all_iff)
    with 2(3) show ?thesis by (rule name_known_insert [rotated])
  qed (rule match.IH(1))
qed (auto simp: occurs_Node list_all_iff names_enum_type option.pred_set)

inductive free_stmt :: "analyzer \<Rightarrow> node \<Rightarrow> string \<Rightarrow> bool"
  and free_stmts :: "analyzer \<Rightarrow> node list \<Rightarrow> string \<Rightarrow> bool"
  and free_block :: "analyzer \<Rightarrow> node \<Rightarrow> string \<Rightarrow> bool" for a where
  let_value: "occurs a v s \<Longrightarrow> free_stmt a (Node l c (NODE_LET n t (Some v))) s"
| const_value: "occurs a v s \<Longrightarrow> free_stmt a (Node l c (NODE_CONST n t v)) s"
| return_value: "occurs a v s \<Longrightarrow> free_stmt a (Node l c (NODE_RETURN (Some v))) s"
| if_part: "occurs a e s \<or> free_block a b s \<Longrightarrow> free_stmt a (Node l c (NODE_IF e b el)) s"
| else_part: "free_stmt a x s \<Longrightarrow> free_stmt a (Node l c (NODE_IF e b (Some x))) s"
| while_part: "occurs a e s \<or> free_block a b s \<Longrightarrow> free_stmt a (Node l c (NODE_WHILE e b)) s"
| loop_body: "free_block a b s \<Longrightarrow> free_stmt a (Node l c (NODE_LOOP b)) s"
| unsafe_body: "free_block a b s \<Longrightarrow> free_stmt a (Node l c (NODE_UNSAFE b)) s"
| for_init: "free_stmt a i s \<Longrightarrow> free_stmt a (Node l c (NODE_FOR (Some i) e p b)) s"
| for_part: "(\<exists>x \<in> set_option e \<union> set_option p. occurs a x s) \<or> free_block a b s \<Longrightarrow>
    s \<notin> \<Union> (declares ` set_option i) \<Longrightarrow> free_stmt a (Node l c (NODE_FOR i e p b)) s"
| defer_expr: "occurs a e s \<Longrightarrow> free_stmt a (Node l c (NODE_DEFER e)) s"
| expr_stmt: "occurs a e s \<Longrightarrow> free_stmt a (Node l c (NODE_EXPR_STMT e)) s"
| block_stmts: "free_stmts a ss s \<Longrightarrow> free_stmt a (Node l c (NODE_BLOCK ss)) s"
| stmts_head: "free_stmt a x s \<Longrightarrow> free_stmts a (x # ss) s"
| stmts_tail: "free_stmts a ss s \<Longrightarrow> s \<notin> declares x \<Longrightarrow> free_stmts a (x # ss) s"
| block: "nas b = NODE_BLOCK ss \<Longrightarrow> free_stmts a ss s \<Longrightarrow> free_block a b s"

inductive_simps free_stmt_Node: "free_stmt a (Node l c x) s"
inductive_simps free_stmts_Nil: "free_stmts a [] s"
inductive_simps free_stmts_Cons: "free_stmts a (x # ss) s"
inductive_simps free_block_iff: "free_block a b s"

lemma free_else_block: "nas x = NODE_BLOCK ss \<Longrightarrow> free_stmt a x s \<longleftrightarrow> free_stmts a ss s"
  by (cases x) (simp add: free_stmt_Node)

lemma wf_free:
  "wf_stmt a d \<Gamma> F x F' \<Longrightarrow> free_stmt a x s \<Longrightarrow> name_known a (\<Gamma> \<union> F) s"
  "wf_stmts a d \<Gamma> F ss \<Longrightarrow> free_stmts a ss s \<Longrightarrow> name_known a (\<Gamma> \<union> F) s"
  "wf_block a d \<Gamma> b \<Longrightarrow> free_block a b s \<Longrightarrow> name_known a \<Gamma> s"
proof (induction arbitrary: s and s and s rule: wf_stmt_wf_stmts_wf_block.inducts)
  case (if_else \<Gamma> F e d th x ss l c)
  then show ?case
    by (auto simp: free_stmt_Node free_else_block dest: wf_expr_occurs)
next
  case (for_init d \<Gamma> F i G e p b l c)
  then have G: "G = declares i"
    using wf_stmt_declares [of a d "\<Gamma> \<union> F" "{}" i G] by simp
  from for_init.prems consider "free_stmt a i s"
    | "(\<exists>x \<in> set_option e \<union> set_option p. occurs a x s) \<or> free_block a b s" "s \<notin> declares i"
    by (auto simp: free_stmt_Node)
  then show ?case
  proof cases
    case 1
    with for_init.IH(2) show ?thesis by simp
  next
    case 2
    then have "name_known a (\<Gamma> \<union> F \<union> G) s"
      using for_init by (auto simp: option.pred_set dest: wf_expr_occurs)
    with 2(2) show ?thesis
      unfolding G by (rule name_known_insert [rotated])
  qed
next
  case (stmts_Cons d \<Gamma> F x F' ss)
  then have F': "F' = F \<union> declares x"
    using wf_stmt_declares by blast
  from stmts_Cons.prems consider "free_stmt a x s" | "free_stmts a ss s" "s \<notin> declares x"
    by (auto simp: free_stmts_Cons)
  then show ?case
  proof cases
    case 2
    with stmts_Cons.IH(4) have "name_known a (\<Gamma> \<union> F \<union> declares x) s"
      by (simp add: F' Un_assoc)
    with 2(2) show ?thesis by (rule name_known_insert [rotated])
  qed (rule stmts_Cons.IH(2))
qed (auto simp: free_stmt_Node free_stmts_Nil free_block_iff option.pred_set dest: wf_expr_occurs)

subsection \<open>Jumps\<close>

text \<open>A \<^verbatim>\<open>break\<close> or \<^verbatim>\<open>continue\<close> that no loop of the statement encloses.\<close>

inductive jumps :: "node \<Rightarrow> bool" where
  break_jump: "jumps (Node l c NODE_BREAK)"
| continue_jump: "jumps (Node l c NODE_CONTINUE)"
| then_jump: "nas b = NODE_BLOCK ss \<Longrightarrow> x \<in> set ss \<Longrightarrow> jumps x \<Longrightarrow> jumps (Node l c (NODE_IF e b el))"
| else_jump: "jumps x \<Longrightarrow> jumps (Node l c (NODE_IF e b (Some x)))"
| unsafe_jump: "nas b = NODE_BLOCK ss \<Longrightarrow> x \<in> set ss \<Longrightarrow> jumps x \<Longrightarrow> jumps (Node l c (NODE_UNSAFE b))"
| init_jump: "jumps i \<Longrightarrow> jumps (Node l c (NODE_FOR (Some i) e p b))"
| block_jump: "x \<in> set ss \<Longrightarrow> jumps x \<Longrightarrow> jumps (Node l c (NODE_BLOCK ss))"

inductive_simps jumps_Node: "jumps (Node l c x)"

lemma jumps_block: "nas x = NODE_BLOCK ss \<Longrightarrow> jumps x \<longleftrightarrow> (\<exists>y \<in> set ss. jumps y)"
  by (cases x) (auto simp: jumps_Node)

lemma wf_jumps:
  "wf_stmt a d \<Gamma> F x F' \<Longrightarrow> jumps x \<Longrightarrow> 0 < d"
  "wf_stmts a d \<Gamma> F ss \<Longrightarrow> \<exists>x \<in> set ss. jumps x \<Longrightarrow> 0 < d"
  "wf_block a d \<Gamma> b \<Longrightarrow> nas b = NODE_BLOCK ss \<Longrightarrow> \<exists>x \<in> set ss. jumps x \<Longrightarrow> 0 < d"
proof (induction arbitrary: and and ss rule: wf_stmt_wf_stmts_wf_block.inducts)
  case (if_else \<Gamma> F e d th x ss l c)
  then show ?case by (auto simp: jumps_Node jumps_block)
qed (auto simp: jumps_Node)

subsection \<open>Accepted programs\<close>

text \<open>The functions and methods whose bodies are analysed.\<close>

definition analysed :: "node \<Rightarrow> node list" where
  "analysed d =
     (case nas d of
        NODE_FN_DECL _ _ _ tps _ _ _ _ \<Rightarrow> if tps = [] then [d] else []
      | NODE_IMPL_DECL _ _ _ ms \<Rightarrow> ms
      | NODE_KERNEL_APP _ _ fns _ \<Rightarrow> fns
      | _ \<Rightarrow> [])"

definition body_stmts :: "node \<Rightarrow> node list" where
  "body_stmts fn =
     (case fn_body fn of None \<Rightarrow> [] | Some b \<Rightarrow> (case nas b of NODE_BLOCK ss \<Rightarrow> ss | _ \<Rightarrow> []))"

definition accepted :: "(string \<Rightarrow> bool) \<Rightarrow> string \<Rightarrow> node list \<Rightarrow> node list \<Rightarrow> bool" where
  "accepted fe src imps ds \<longleftrightarrow>
     (\<exists>m. fst (sema_analyze fe (Node 1 1 (NODE_PROGRAM None imps ds)) src) = Some m)"

lemma accepted_iff: "accepted fe src imps ds \<longleftrightarrow> well_formed_program fe src imps ds"
  by (simp add: accepted_def sema_analyze_result)

lemma bodies_ok_analysed: "bodies_ok a d \<Longrightarrow> fn \<in> set (analysed d) \<Longrightarrow> body_ok a fn"
  by (cases "nas d") (auto simp: bodies_ok_def analysed_def list_all_iff split: if_splits)

lemma accepted_body:
  assumes "accepted fe src imps ds" "d \<in> set ds" "fn \<in> set (analysed d)"
  shows "body_ok (program_env src ds) fn"
    and "wf_stmts (program_env src ds) 0 {}
      (function_names (program_env src ds) \<union> let_name ` set (fn_params fn)) (body_stmts fn)"
proof -
  show "body_ok (program_env src ds) fn"
    using assms bodies_ok_analysed by (auto simp: accepted_iff well_formed_program_def list_all_iff)
  then show "wf_stmts (program_env src ds) 0 {}
      (function_names (program_env src ds) \<union> let_name ` set (fn_params fn)) (body_stmts fn)"
    by (auto simp: body_ok_def body_stmts_def wf_stmts_Nil split: option.splits node_as.splits)
qed

lemma program_names_known:
  assumes "distinct (collect callable_names ds)"
    and "name_known (program_env src ds) ({} \<union> (function_names (program_env src ds) \<union> P)) s"
  shows "s = ''None'' \<or> s \<in> set BUILTIN_IO \<or> s \<in> P \<or> s \<in> set (symbol_names ds)"
proof -
  have "function_names (program_env src ds) \<subseteq> set (symbol_names ds)"
    using function_entries_distinct [OF assms(1)]
    by (auto simp: function_names_def env_simps symbol_names_def)
  with assms(2) show ?thesis
    by (auto simp: name_known_def env_simps function_names_def)
qed

lemma type_env_tables:
  "decl_name ` set (structs (type_env src ds)) \<union> decl_name ` set (enums (type_env src ds)) \<union>
   decl_name ` set (unions (type_env src ds)) \<subseteq> set (collect type_names ds)"
  "interfaces (type_env src ds) = []"
proof -
  show "decl_name ` set (structs (type_env src ds)) \<union> decl_name ` set (enums (type_env src ds)) \<union>
      decl_name ` set (unions (type_env src ds)) \<subseteq> set (collect type_names ds)"
    using type_entries_named
    by (auto simp: type_env_def add_types_def analyzer_init_def collect_def)
qed (simp add: type_env_def add_types_def analyzer_init_def)

lemma unknown_in_type_env:
  assumes "s \<notin> set (collect type_names ds)" "s \<notin> set BUILTIN_TYPES" "is_identifier_like_name s"
  shows "\<not> valid_type_name (type_env src ds) s"
proof
  assume "valid_type_name (type_env src ds) s"
  then have "validate_type_name (type_env src ds) s" by (simp add: valid_type_name_iff)
  then have "is_known_type (type_env src ds) s"
    using assms(3) identifier_no_bracket [OF assms(3)]
    by (simp add: validate_other identifier_no_form generic_struct_type_iff plain_type_def)
      (auto simp: generic_struct_type_iff)
  with assms(1,2) type_env_tables [of src ds] show False
    by (auto simp: is_known_type_def is_builtin_type_def find_named_decl_None)
qed

text \<open>A small program for the concrete instances below.\<close>

definition nd :: "node_as \<Rightarrow> node" where
  "nd x = Node 1 1 x"

definition example_fn :: "node list \<Rightarrow> node" where
  "example_fn ss =
     nd (NODE_FN_DECL ''get'' None None [] [nd (NODE_LET ''p'' (Some (nd (NODE_TYPE_NAMED ''Point''))) None)]
       (Some (nd (NODE_TYPE_NAMED ''Option[i32]''))) (Some (nd (NODE_BLOCK ss))) False)"

definition example_decls :: "node list \<Rightarrow> node list" where
  "example_decls ss =
    [nd (NODE_CONST ''LIMIT'' None (nd (NODE_LIT_INT 8))),
     nd (NODE_STRUCT_DECL ''Point'' None []
       [nd (NODE_LET ''x'' (Some (nd (NODE_TYPE_NAMED ''i32''))) None)] False False),
     example_fn ss]"

definition example_stmts :: "node list" where
  "example_stmts =
    [nd (NODE_LET ''v'' None (Some (nd (NODE_FIELD (nd (NODE_IDENT ''p'')) ''x'')))),
     nd (NODE_WHILE (nd (NODE_IDENT ''v'')) (nd (NODE_BLOCK [nd NODE_BREAK]))),
     nd (NODE_RETURN (Some (nd (NODE_BINARY ''+'' (nd (NODE_IDENT ''v'')) (nd (NODE_IDENT ''LIMIT''))))))]"

lemma example_accepted: "accepted (\<lambda>_. False) ''a'' [] (example_decls example_stmts)"
proof -
  have "fst (sema_analyze (\<lambda>_. False) (Node 1 1 (NODE_PROGRAM None [] (example_decls example_stmts))) ''a'') \<noteq> None"
    by code_simp
  then show ?thesis by (simp add: accepted_def)
qed

lemma example_analysed: "example_fn ss \<in> set (analysed (example_fn ss))"
  "example_fn ss \<in> set (example_decls ss)" "body_stmts (example_fn ss) = ss"
  by (simp_all add: example_fn_def example_decls_def analysed_def body_stmts_def fn_body_def nd_def)

subsection \<open>Properties\<close>

text \<open>C12: The analysis decides well-formedness: \<^verbatim>\<open>sema_analyze\<close> succeeds exactly on the programs whose
  top-level names (with the names of coercions) are distinct, whose methods are distinct per struct,
  whose types, members, signatures, receivers and interface implementations are valid, whose bodies
  satisfy the scoping rules and whose imports exist; and the model it returns holds exactly the
  non-generic functions with those of kernel applications, the extern functions, structs, enums,
  unions and impls of the program, in their order.\<close>

theorem sema_accepts_exactly_well_formed:
  "fst (sema_analyze fe (Node l c (NODE_PROGRAM pkg imps ds)) src) =
     (if well_formed_program fe src imps ds then Some (expected_model ds) else None)"
  by (rule sema_analyze_result)

text \<open>C16: The analyser never rejects in silence and never accepts with a diagnostic: for a program
  whose parameters have types, as the parser builds them, no model is returned exactly if something
  was printed.\<close>

theorem sema_rejects_with_diagnostic:
  assumes "list_all impl_typed ds"
  shows "fst (sema_analyze fe (Node l c (NODE_PROGRAM pkg imps ds)) src) = None \<longleftrightarrow>
    snd (sema_analyze fe (Node l c (NODE_PROGRAM pkg imps ds)) src) \<noteq> []"
  using sema_analyze_result(1) [of fe l c pkg imps ds src] sema_analyze_result(2) [OF assms, of fe l c pkg imps src]
  by auto

theorem sema_rejects_with_diagnostic_witness:
  "snd (sema_analyze (\<lambda>_. False) (Node 1 1 (NODE_PROGRAM None [] (example_decls example_stmts))) ''a'') = []"
proof -
  have "list_all impl_typed (example_decls example_stmts)"
    by (simp add: example_decls_def example_fn_def impl_typed_def nd_def)
  from sema_rejects_with_diagnostic [OF this, of "\<lambda>_. False" 1 1 None "[]" "''a''"] example_accepted
  show ?thesis by (auto simp: accepted_def)
qed



text \<open>C25: In an accepted program no \<^verbatim>\<open>break\<close> or \<^verbatim>\<open>continue\<close> in a function without type parameters, or in a
  method, leaves the body it is in: each is inside a loop of its function. Generic functions and the handlers of
  user interfaces are not analysed, so nothing is said of them.\<close>

theorem accepted_jumps_in_loops:
  assumes "accepted fe src imps ds" "d \<in> set ds" "fn \<in> set (analysed d)"
  shows "\<not> list_ex jumps (body_stmts fn)"
  using wf_jumps(2) [OF accepted_body(2) [OF assms]] by (auto simp: list_ex_iff)

theorem accepted_jumps_in_loops_witness:
  "\<not> list_ex jumps example_stmts \<and> \<not> accepted (\<lambda>_. False) ''a'' [] (example_decls [nd NODE_BREAK])"
proof -
  have "list_ex jumps [nd NODE_BREAK]"
    by (simp add: nd_def jumps_Node)
  with accepted_jumps_in_loops [OF example_accepted example_analysed(2) example_analysed(1)]
    accepted_jumps_in_loops [OF _ example_analysed(2) example_analysed(1), of _ _ _ "[nd NODE_BREAK]"]
  show ?thesis by (auto simp only: example_analysed(3))
qed

text \<open>An interface is no type for the fields of structs and unions: fields are validated before
  interfaces are registered, so a program with a field of a declared interface type is rejected.\<close>

lemma interface_fields_rejected:
  assumes "nas i = NODE_INTERFACE_DECL s p ms pub" "i \<in> set ds"
    and "nas d = NODE_STRUCT_DECL n q [] fs pb pk" "d \<in> set ds"
    and "f \<in> set fs" "let_type f = Some (Node l c (NODE_TYPE_NAMED s))"
    and "s \<notin> set BUILTIN_TYPES" "is_identifier_like_name s"
  shows "\<not> accepted fe src imps ds"
proof
  assume "accepted fe src imps ds"
  then have wf: "well_formed_program fe src imps ds" by (simp add: accepted_iff)
  have "s \<in> set (collect interface_names ds)"
    using assms(1,2) by (force simp: collect_def interface_names_def)
  with wf have "s \<notin> set (collect type_names ds)"
    by (auto simp: well_formed_program_def symbol_names_def)
  then have "\<not> valid_type (type_env src ds) (Node l c (NODE_TYPE_NAMED s))"
    using unknown_in_type_env assms(7,8) by (simp add: valid_type_Node)
  moreover have "type_decl_ok (type_env src ds) d"
    using wf assms(4) by (simp add: well_formed_program_def list_all_iff)
  ultimately show False
    using assms(3,5,6) by (auto simp: type_decl_ok_def members_ok_def list_all_iff)
qed

lemma interface_fields_rejected_witness:
  "\<not> accepted (\<lambda>_. True) ''a'' []
     [nd (NODE_INTERFACE_DECL ''Shape'' None [] False),
      nd (NODE_STRUCT_DECL ''Canvas'' None []
        [nd (NODE_LET ''shape'' (Some (nd (NODE_TYPE_NAMED ''Shape''))) None)] False False)]"
  by (rule interface_fields_rejected [where s = "''Shape''" and l = 1 and c = 1 and p = None and ms = "[]" and pub = False
        and n = "''Canvas''" and q = None and pb = False and pk = False
        and fs = "[nd (NODE_LET ''shape'' (Some (nd (NODE_TYPE_NAMED ''Shape''))) None)]"
        and i = "nd (NODE_INTERFACE_DECL ''Shape'' None [] False)"
        and f = "nd (NODE_LET ''shape'' (Some (nd (NODE_TYPE_NAMED ''Shape''))) None)"
        and d = "nd (NODE_STRUCT_DECL ''Canvas'' None []
          [nd (NODE_LET ''shape'' (Some (nd (NODE_TYPE_NAMED ''Shape''))) None)] False False)"])
    (simp_all add: nd_def let_type_def BUILTIN_TYPES_def is_identifier_like_name_def in_range_def)

text \<open>The subscript of a global that is no function is not analysed at all, so any expression,
  with any unknown names, is accepted there.\<close>

theorem global_subscript_unchecked:
  assumes "g \<in> set (global_names a)" "g \<notin> function_names a"
  shows "analyze_expr sc (Node l c (NODE_INDEX (Node l' c' (NODE_IDENT g)) i)) a = (True, a)"
proof -
  have g: "is_generic_callee a (Node l' c' (NODE_IDENT g))"
    using assms by (auto simp: is_generic_callee_def function_names_def find_named_decl_None)
  have "name_known a (visible sc) g"
    using assms(1) by (simp add: name_known_def)
  then have "wf_expr a (visible sc) (Node l c (NODE_INDEX (Node l' c' (NODE_IDENT g)) i))"
    using g by (intro wf_expr.index wf_expr.ident) simp_all
  then show ?thesis
    using decides_expr(1) [of sc "Node l c (NODE_INDEX (Node l' c' (NODE_IDENT g)) i)" a]
    by (simp add: decides_def)
qed

theorem global_subscript_unchecked_witness:
  "\<exists>a. fst (analyze_expr (scope_new None)
     (nd (NODE_INDEX (nd (NODE_IDENT ''TABLE'')) (nd (NODE_IDENT ''nowhere'')))) a)"
proof -
  let ?a = "(analyzer_init ''a'')\<lparr>global_names := [''TABLE'']\<rparr>"
  have "''TABLE'' \<in> set (global_names ?a)" "''TABLE'' \<notin> function_names ?a"
    by (simp_all add: function_names_def analyzer_init_def)
  from global_subscript_unchecked [OF this, of "scope_new None" 1 1 1 1 "nd (NODE_IDENT ''nowhere'')"]
  show ?thesis by (intro exI [of _ ?a]) (simp add: nd_def)
qed

end
