(* ===== verification/Typeck_Types.thy ===== *)
theory Typeck_Types
  imports Sema_Tables Sema
begin

text \<open>
  The types of the type checker \<^verbatim>\<open>compiler/src/typeck/typeck.c\<close> and everything it decides about them
  without looking at an expression: equality, assignability, casts, printing, the type a type node
  denotes, the parts of \<^verbatim>\<open>Option[T]\<close> and \<^verbatim>\<open>Result[T,E]\<close>, the look-up of declarations and their
  visibility, and the scopes.

  A \<^verbatim>\<open>Type\<close> is never changed after its creation, so it is a value: one constructor per \<^verbatim>\<open>TypeKind\<close>
  with the members of the struct that this kind uses. The identity of a declaration is the node
  itself with its position.
\<close>

subsection \<open>Types\<close>

datatype (plugins only: size code) night_type =
    TYPE_ERROR
  | TYPE_VOID
  | TYPE_BOOL
  | TYPE_CHAR
  | TYPE_I8
  | TYPE_I16
  | TYPE_I32
  | TYPE_I64
  | TYPE_ISIZE
  | TYPE_U8
  | TYPE_U16
  | TYPE_U32
  | TYPE_U64
  | TYPE_USIZE
  | TYPE_F32
  | TYPE_F64
  | TYPE_STR
  | TYPE_CSTR
  | TYPE_NAMED string
  | TYPE_POINTER night_type bool bool
  | TYPE_ARRAY night_type int
  | TYPE_FUNCTION node
  | TYPE_INT_LITERAL
  | TYPE_FLOAT_LITERAL
  | TYPE_STRING_LITERAL
  | TYPE_NULL



definition is_pointer :: "night_type \<Rightarrow> bool" where
  "is_pointer t = (case t of TYPE_POINTER _ _ _ \<Rightarrow> True | _ \<Rightarrow> False)"

definition is_integer_kind :: "night_type \<Rightarrow> bool" where
  "is_integer_kind t \<longleftrightarrow>
     t \<in> {TYPE_CHAR, TYPE_I8, TYPE_I16, TYPE_I32, TYPE_I64, TYPE_ISIZE, TYPE_U8, TYPE_U16, TYPE_U32,
          TYPE_U64, TYPE_USIZE, TYPE_INT_LITERAL}"

definition is_float_kind :: "night_type \<Rightarrow> bool" where
  "is_float_kind t \<longleftrightarrow> t \<in> {TYPE_F32, TYPE_F64, TYPE_FLOAT_LITERAL}"

definition is_numeric_type :: "night_type \<Rightarrow> bool" where
  "is_numeric_type t \<longleftrightarrow> is_integer_kind t \<or> is_float_kind t"

text \<open>
  The names of the kinds that have one; those up to \<^verbatim>\<open>cstr\<close> are the spellings a type node is
  resolved with.
\<close>

definition TYPE_NAMES :: "(string \<times> night_type) list" where
  "TYPE_NAMES =
    [(''void'', TYPE_VOID), (''bool'', TYPE_BOOL), (''char'', TYPE_CHAR), (''i8'', TYPE_I8),
     (''i16'', TYPE_I16), (''i32'', TYPE_I32), (''i64'', TYPE_I64), (''isize'', TYPE_ISIZE),
     (''u8'', TYPE_U8), (''u16'', TYPE_U16), (''u32'', TYPE_U32), (''u64'', TYPE_U64),
     (''usize'', TYPE_USIZE), (''f32'', TYPE_F32), (''f64'', TYPE_F64), (''str'', TYPE_STR),
     (''cstr'', TYPE_CSTR)]"

fun builtin_name :: "night_type \<Rightarrow> string option" where
  "builtin_name TYPE_VOID = Some ''void''"
| "builtin_name TYPE_BOOL = Some ''bool''"
| "builtin_name TYPE_CHAR = Some ''char''"
| "builtin_name TYPE_I8 = Some ''i8''"
| "builtin_name TYPE_I16 = Some ''i16''"
| "builtin_name TYPE_I32 = Some ''i32''"
| "builtin_name TYPE_I64 = Some ''i64''"
| "builtin_name TYPE_ISIZE = Some ''isize''"
| "builtin_name TYPE_U8 = Some ''u8''"
| "builtin_name TYPE_U16 = Some ''u16''"
| "builtin_name TYPE_U32 = Some ''u32''"
| "builtin_name TYPE_U64 = Some ''u64''"
| "builtin_name TYPE_USIZE = Some ''usize''"
| "builtin_name TYPE_F32 = Some ''f32''"
| "builtin_name TYPE_F64 = Some ''f64''"
| "builtin_name TYPE_STR = Some ''str''"
| "builtin_name TYPE_CSTR = Some ''cstr''"
| "builtin_name TYPE_INT_LITERAL = Some ''<int literal>''"
| "builtin_name TYPE_FLOAT_LITERAL = Some ''<float literal>''"
| "builtin_name TYPE_STRING_LITERAL = Some ''<string literal>''"
| "builtin_name TYPE_NULL = Some ''null''"
| "builtin_name _ = None"

text \<open>
  Every buffer a type is printed into has 128 bytes, the inner ones of the recursion included, so
  \<^verbatim>\<open>snprintf\<close> cuts the text at each level.
\<close>

definition in_buffer :: "nat \<Rightarrow> string \<Rightarrow> string" where
  "in_buffer n s = take (n - 1) s"

fun format_type :: "night_type \<Rightarrow> string" where
  "format_type (TYPE_NAMED s) = in_buffer 128 s"
| "format_type (TYPE_POINTER t k nl) =
     in_buffer 128 (format_type t @ (if k then ''*const'' else ''*''))"
| "format_type (TYPE_ARRAY t n) =
     in_buffer 128 ((if n \<ge> 0 then ''['' @ show_int n @ '']'' else ''[]'') @ format_type t)"
| "format_type (TYPE_FUNCTION nd) = ''<function>''"
| "format_type t = in_buffer 128 (case builtin_name t of Some s \<Rightarrow> s | None \<Rightarrow> ''<type>'')"

lemmas [fundef_cong] = night_type.case_cong

text \<open>
  The code compares function declarations by their addresses, the model by their values, lines and
  columns included. The type checker runs on programs that the analyser has accepted, in which no
  two functions have the same name, so two declarations with one value are one declaration.
\<close>

fun type_equals :: "night_type \<Rightarrow> night_type \<Rightarrow> bool" where
  "type_equals a b =
     (case a of
        TYPE_NAMED s \<Rightarrow> (case b of TYPE_NAMED t \<Rightarrow> s = t | _ \<Rightarrow> False)
      | TYPE_POINTER x k nl \<Rightarrow>
          (case b of TYPE_POINTER y k' nl' \<Rightarrow> k = k' \<and> nl = nl' \<and> type_equals x y | _ \<Rightarrow> False)
      | TYPE_ARRAY x n \<Rightarrow> (case b of TYPE_ARRAY y m \<Rightarrow> n = m \<and> type_equals x y | _ \<Rightarrow> False)
      | TYPE_FUNCTION d \<Rightarrow> (case b of TYPE_FUNCTION e \<Rightarrow> d = e | _ \<Rightarrow> False)
      | _ \<Rightarrow> a = b)"

declare type_equals.simps [simp del]

definition is_assignable :: "night_type \<Rightarrow> night_type \<Rightarrow> bool" where
  "is_assignable expected actual \<longleftrightarrow>
     expected = TYPE_ERROR \<or> actual = TYPE_ERROR \<or>
     type_equals expected actual \<or>
     actual = TYPE_INT_LITERAL \<and> (is_integer_kind expected \<or> expected = TYPE_CHAR) \<or>
     actual = TYPE_FLOAT_LITERAL \<and> is_float_kind expected \<or>
     actual = TYPE_STRING_LITERAL \<and> (expected = TYPE_STR \<or> expected = TYPE_CSTR) \<or>
     actual = TYPE_NULL \<and> is_pointer expected"

definition is_castable :: "night_type \<Rightarrow> night_type \<Rightarrow> bool" where
  "is_castable source target \<longleftrightarrow>
     source = TYPE_ERROR \<or> target = TYPE_ERROR \<or>
     type_equals source target \<or>
     is_numeric_type source \<and> is_numeric_type target \<or>
     is_pointer source \<and> is_pointer target \<or>
     is_pointer source \<and> is_integer_kind target \<or> is_pointer target \<and> is_integer_kind source \<or>
     source = TYPE_NULL \<and> is_pointer target \<or> target = TYPE_NULL \<and> is_pointer source"

definition widen_literal :: "night_type \<Rightarrow> night_type" where
  "widen_literal t =
     (if t = TYPE_INT_LITERAL then TYPE_I32
      else if t = TYPE_FLOAT_LITERAL then TYPE_F64
      else if t = TYPE_STRING_LITERAL then TYPE_STR
      else t)"

text \<open>The type a name or a type node denotes; a missing type node is \<^verbatim>\<open>void\<close>.\<close>

definition type_from_name_text :: "string \<Rightarrow> night_type" where
  "type_from_name_text s = (case map_of TYPE_NAMES s of Some t \<Rightarrow> t | None \<Rightarrow> TYPE_NAMED s)"

fun type_from_node :: "node \<Rightarrow> night_type" where
  "type_from_node (Node l c ty) =
     (case ty of
        NODE_TYPE_NAMED s \<Rightarrow> type_from_name_text s
      | NODE_TYPE_POINTER t k nl \<Rightarrow> TYPE_POINTER (type_from_node t) k nl
      | NODE_TYPE_ARRAY t n \<Rightarrow> TYPE_ARRAY (type_from_node t) n
      | _ \<Rightarrow> TYPE_ERROR)"

definition type_from_ast :: "node option \<Rightarrow> night_type" where
  "type_from_ast ty = (case ty of None \<Rightarrow> TYPE_VOID | Some nd \<Rightarrow> type_from_node nd)"

subsection \<open>Option and Result\<close>

definition is_option_type :: "night_type \<Rightarrow> bool" where
  "is_option_type t = (case t of TYPE_NAMED s \<Rightarrow> type_name_has_form s ''Option'' | _ \<Rightarrow> False)"

definition is_result_type :: "night_type \<Rightarrow> bool" where
  "is_result_type t = (case t of TYPE_NAMED s \<Rightarrow> type_name_has_form s ''Result'' | _ \<Rightarrow> False)"

definition option_inner_type :: "night_type \<Rightarrow> night_type" where
  "option_inner_type t =
     (case t of TYPE_NAMED s \<Rightarrow> type_from_name_text (slice_range s 7) | _ \<Rightarrow> TYPE_ERROR)"

definition result_inner_names :: "night_type \<Rightarrow> (string \<times> string) option" where
  "result_inner_names t =
     (case t of
        TYPE_NAMED s \<Rightarrow>
          if type_name_has_form s ''Result'' then split_top_level_comma (slice_range s 7) else None
      | _ \<Rightarrow> None)"

subsection \<open>Expressions by their shape\<close>

definition is_addressable :: "node \<Rightarrow> bool" where
  "is_addressable e =
     (case nas e of
        NODE_IDENT _ \<Rightarrow> True | NODE_FIELD _ _ \<Rightarrow> True | NODE_INDEX _ _ \<Rightarrow> True
      | NODE_SLICE _ _ _ \<Rightarrow> True | NODE_UNARY op _ \<Rightarrow> c_at op 0 = CHR ''*'' | _ \<Rightarrow> False)"

definition ident_name :: "node \<Rightarrow> string option" where
  "ident_name e = (case nas e of NODE_IDENT s \<Rightarrow> Some s | _ \<Rightarrow> None)"

definition is_option_constructor_expr :: "node \<Rightarrow> bool" where
  "is_option_constructor_expr e =
     (case nas e of
        NODE_IDENT s \<Rightarrow> s = ''None''
      | NODE_CALL f _ \<Rightarrow> ident_name f = Some ''Some''
      | _ \<Rightarrow> False)"

definition is_result_constructor_expr :: "node \<Rightarrow> bool" where
  "is_result_constructor_expr e =
     (case nas e of NODE_CALL f _ \<Rightarrow> ident_name f \<in> {Some ''Ok'', Some ''Err''} | _ \<Rightarrow> False)"

subsection \<open>Declarations\<close>

datatype decl_kind = KIND_FN | KIND_EXTERN_FN | KIND_STRUCT | KIND_ENUM | KIND_UNION

definition candidate_name :: "decl_kind \<Rightarrow> node \<Rightarrow> string option" where
  "candidate_name k nd =
     (case nas nd of
        NODE_FN_DECL s _ _ _ _ _ _ _ \<Rightarrow> if k = KIND_FN then Some s else None
      | NODE_EXTERN_FN s _ _ _ _ _ \<Rightarrow> if k = KIND_EXTERN_FN then Some s else None
      | NODE_STRUCT_DECL s _ _ _ _ _ \<Rightarrow> if k = KIND_STRUCT then Some s else None
      | NODE_ENUM_DECL s _ _ _ \<Rightarrow> if k = KIND_ENUM then Some s else None
      | NODE_UNION_DECL s _ _ _ \<Rightarrow> if k = KIND_UNION then Some s else None
      | _ \<Rightarrow> None)"

definition find_named_node :: "node list \<Rightarrow> string \<Rightarrow> decl_kind \<Rightarrow> node option" where
  "find_named_node items s k = List.find (\<lambda>nd. candidate_name k nd = Some s) items"

definition impl_methods_of :: "string \<Rightarrow> node \<Rightarrow> node list" where
  "impl_methods_of owner nd =
     (case nas nd of NODE_IMPL_DECL target _ _ ms \<Rightarrow> if target = owner then ms else [] | _ \<Rightarrow> [])"

definition find_method_node :: "semantic_model \<Rightarrow> string \<Rightarrow> string \<Rightarrow> node option" where
  "find_method_node sm owner m =
     List.find (\<lambda>nd. fn_name nd = m) (concat (map (impl_methods_of owner) (model_impls sm)))"

text \<open>\<^verbatim>\<open>p\<close> or, where it is NULL, \<^verbatim>\<open>q\<close>.\<close>

definition or_else :: "'a option \<Rightarrow> 'a option \<Rightarrow> 'a option" where
  "or_else p q = (case p of Some x \<Rightarrow> Some x | None \<Rightarrow> q)"

definition find_type_decl :: "semantic_model \<Rightarrow> string \<Rightarrow> node option" where
  "find_type_decl sm s =
     or_else (find_named_node (model_structs sm) s KIND_STRUCT)
       (or_else (find_named_node (model_enums sm) s KIND_ENUM)
         (find_named_node (model_unions sm) s KIND_UNION))"

definition find_struct_or_union :: "semantic_model \<Rightarrow> string \<Rightarrow> node option" where
  "find_struct_or_union sm s =
     or_else (find_named_node (model_structs sm) s KIND_STRUCT)
       (find_named_node (model_unions sm) s KIND_UNION)"

definition find_enum :: "semantic_model \<Rightarrow> string \<Rightarrow> node option" where
  "find_enum sm s = find_named_node (model_enums sm) s KIND_ENUM"

definition find_function :: "semantic_model \<Rightarrow> string \<Rightarrow> node option" where
  "find_function sm s =
     or_else (find_named_node (model_functions sm) s KIND_FN)
       (find_named_node (model_extern_functions sm) s KIND_EXTERN_FN)"

text \<open>The field of a struct or union, and the payload of a variant of an enum.\<close>

definition composite_field :: "node \<Rightarrow> string \<Rightarrow> node option" where
  "composite_field decl f = List.find (\<lambda>nd. let_name nd = f) (composite_fields decl)"

definition enum_variant_fields :: "node \<Rightarrow> string \<Rightarrow> node list option" where
  "enum_variant_fields decl v =
     (case nas decl of NODE_ENUM_DECL _ _ vs _ \<Rightarrow> map_of vs v | _ \<Rightarrow> None)"

definition find_variant :: "semantic_model \<Rightarrow> string \<Rightarrow> string \<Rightarrow> node option" where
  "find_variant sm s v =
     (case find_enum sm s of
        Some d \<Rightarrow> if v \<in> set (enum_variants d) then Some d else None
      | None \<Rightarrow> None)"

definition method_has_receiver :: "node \<Rightarrow> bool" where
  "method_has_receiver m =
     (case fn_params m of p # _ \<Rightarrow> let_name p = ''self'' | [] \<Rightarrow> False)"

definition node_package_name :: "node \<Rightarrow> string option" where
  "node_package_name nd =
     (case nas nd of
        NODE_FN_DECL _ _ pkg _ _ _ _ _ \<Rightarrow> pkg
      | NODE_EXTERN_FN _ pkg _ _ _ _ \<Rightarrow> pkg
      | NODE_STRUCT_DECL _ pkg _ _ _ _ \<Rightarrow> pkg
      | NODE_ENUM_DECL _ pkg _ _ \<Rightarrow> pkg
      | NODE_UNION_DECL _ pkg _ _ \<Rightarrow> pkg
      | NODE_INTERFACE_DECL _ pkg _ _ \<Rightarrow> pkg
      | _ \<Rightarrow> None)"

definition node_is_public :: "node \<Rightarrow> bool" where
  "node_is_public nd =
     (case nas nd of
        NODE_FN_DECL _ _ _ _ _ _ _ pub \<Rightarrow> pub
      | NODE_EXTERN_FN _ _ _ _ _ pub \<Rightarrow> pub
      | NODE_STRUCT_DECL _ _ _ _ pub _ \<Rightarrow> pub
      | NODE_ENUM_DECL _ _ _ pub \<Rightarrow> pub
      | NODE_UNION_DECL _ _ _ pub \<Rightarrow> pub
      | NODE_INTERFACE_DECL _ _ _ pub \<Rightarrow> pub
      | _ \<Rightarrow> False)"

text \<open>\<^verbatim>\<open>same_package_name\<close>: both NULL, or both strings and equal.\<close>

definition same_package_name :: "string option \<Rightarrow> string option \<Rightarrow> bool" where
  "same_package_name p q \<longleftrightarrow> p = q"

definition decl_visible_from :: "string option \<Rightarrow> node \<Rightarrow> bool" where
  "decl_visible_from pkg nd \<longleftrightarrow> node_is_public nd \<or> same_package_name pkg (node_package_name nd)"

subsection \<open>Scopes\<close>

record binding =
  b_type :: night_type
  b_mutable :: bool

datatype tscope = TScope (tbindings: "(string \<times> binding) list") (tparent: "tscope option")

definition tscope_new :: "tscope option \<Rightarrow> tscope" where
  "tscope_new p = TScope [] p"

fun tscope_define :: "tscope \<Rightarrow> string \<Rightarrow> binding \<Rightarrow> tscope option" where
  "tscope_define (TScope bs p) s b =
     (if s \<in> fst ` set bs then None else Some (TScope ((s, b) # bs) p))"

definition bind_var :: "night_type \<Rightarrow> bool \<Rightarrow> binding" where
  "bind_var t m = \<lparr>b_type = t, b_mutable = m\<rparr>"

fun tscope_resolve :: "tscope \<Rightarrow> string \<Rightarrow> binding option" where
  "tscope_resolve (TScope bs None) s = map_of bs s"
| "tscope_resolve (TScope bs (Some p)) s =
     (case map_of bs s of Some b \<Rightarrow> Some b | None \<Rightarrow> tscope_resolve p s)"

definition resolve_in :: "tscope option \<Rightarrow> string \<Rightarrow> binding option" where
  "resolve_in sc s = (case sc of None \<Rightarrow> None | Some sc \<Rightarrow> tscope_resolve sc s)"

interpretation type_scopes: name_scope "\<lambda>sc. tscope_new (Some sc)" tscope_define tscope_resolve
  "\<lambda>sc. fst ` set (tbindings sc)"
proof
  fix sc s b sc' s'
  show "tscope_define sc s b = None \<longleftrightarrow> s \<in> fst ` set (tbindings sc)"
    by (cases sc) simp
  assume "tscope_define sc s b = Some sc'"
  then show "fst ` set (tbindings sc') = insert s (fst ` set (tbindings sc))"
    and "tscope_resolve sc' s' = (if s' = s then Some b else tscope_resolve sc s')"
    by (cases "(sc, s')" rule: tscope_resolve.cases; force split: if_splits)+
qed (simp_all add: tscope_new_def)

end
