(* ===== verification/Typeck_Base.thy ===== *)
theory Typeck_Base
  imports Typeck_Types
begin

text \<open>
  The state of the type checker and the rules of \<^verbatim>\<open>compiler/src/typeck/typeck.c\<close> that look only at
  the types of the operands: the operators, subscripts, slices, built-in fields and the built-in
  input and output routines.

  A call returns \<open>Inr\<close> with its value and the checker after it. \<open>Inl\<close> marks the two places where the
  behaviour of the C code is undefined and the one where it does not return: \<open>NameOverrun\<close> a
  \<^verbatim>\<open>memcpy\<close> past the 128 bytes of \<^verbatim>\<open>enum_name\<close>, \<open>DanglingName\<close> the return of a type whose name points
  into the dead stack buffer \<^verbatim>\<open>inner_buf\<close>, and \<open>NoReturn\<close> that the depth of the calls allowed was
  not enough.
\<close>

subsection \<open>The checker\<close>

record checker =
  c_source_name :: string
  c_sema :: semantic_model
  c_program :: node
  c_return_type :: "night_type option"
  c_package :: "string option"
  c_had_error :: bool
  c_printed :: "diagnostic list"

datatype tc_fault = NameOverrun | DanglingName | NoReturn

type_synonym 'a tc = "checker \<Rightarrow> (tc_fault, 'a \<times> checker) sum"

definition tret :: "'a \<Rightarrow> 'a tc" where
  "tret x c = Inr (x, c)"

definition tbind :: "'a tc \<Rightarrow> ('a \<Rightarrow> 'b tc) \<Rightarrow> 'b tc" where
  "tbind m f c = (case m c of Inl e \<Rightarrow> Inl e | Inr (x, c') \<Rightarrow> f x c')"

definition tfail :: "tc_fault \<Rightarrow> 'a tc" where
  "tfail e c = Inl e"

text \<open>Reading the state; \<open>sema_of\<close> and \<open>decls_of\<close> read the two members that never change.\<close>

definition tget :: "(checker \<Rightarrow> 'a) \<Rightarrow> ('a \<Rightarrow> 'b tc) \<Rightarrow> 'b tc" where
  "tget sel f c = f (sel c) c"

definition program_decls :: "node \<Rightarrow> node list" where
  "program_decls nd = (case nas nd of NODE_PROGRAM _ _ ds \<Rightarrow> ds | _ \<Rightarrow> [])"

definition with_sema :: "(semantic_model \<Rightarrow> 'b tc) \<Rightarrow> 'b tc" where
  "with_sema = tget c_sema"

definition with_decls :: "(node list \<Rightarrow> 'b tc) \<Rightarrow> 'b tc" where
  "with_decls = tget (\<lambda>c. program_decls (c_program c))"

definition typeck_error :: "nat \<Rightarrow> nat \<Rightarrow> string \<Rightarrow> unit tc" where
  "typeck_error l col msg c =
     Inr ((), c\<lparr>c_had_error := True, c_printed := c_printed c @ [(l, col, msg)]\<rparr>)"

text \<open>A diagnostic at a node, followed by \<^verbatim>\<open>return x\<close>; for expressions that is \<^verbatim>\<open>&TYPE_ERROR_VALUE\<close>.\<close>

definition complain :: "node \<Rightarrow> string \<Rightarrow> 'a \<Rightarrow> 'a tc" where
  "complain at msg x = tbind (typeck_error (nline at) (ncol at) msg) (\<lambda>_. tret x)"

definition type_error :: "node \<Rightarrow> string \<Rightarrow> night_type tc" where
  "type_error at msg = complain at msg TYPE_ERROR"

text \<open>The verdict of a rule: \<open>Inl\<close> the diagnostic, \<open>Inr\<close> the type of the expression.\<close>

type_synonym verdict = "(string, night_type) sum"

definition conclude :: "node \<Rightarrow> verdict \<Rightarrow> night_type tc" where
  "conclude at v = (case v of Inl msg \<Rightarrow> type_error at msg | Inr t \<Rightarrow> tret t)"

text \<open>\<open>if_ok m t\<close> is \<^verbatim>\<open>if (!m) return &TYPE_ERROR_VALUE;\<close> and then \<open>t\<close>.\<close>

definition if_ok :: "bool tc \<Rightarrow> night_type tc \<Rightarrow> night_type tc" where
  "if_ok m t = tbind m (\<lambda>ok. if ok then t else tret TYPE_ERROR)"

subsection \<open>Visibility\<close>

definition require_decl_visible :: "node \<Rightarrow> node \<Rightarrow> string \<Rightarrow> bool tc" where
  "require_decl_visible decl at s =
     tget c_package (\<lambda>pkg.
     if decl_visible_from pkg decl then tret True
     else complain at
       (''symbol '' @ in_quotes s @ '' is private to package '' @
         in_quotes (case node_package_name decl of Some p \<Rightarrow> p | None \<Rightarrow> ''<unknown>'')) False)"

definition require_type_visible :: "node \<Rightarrow> string \<Rightarrow> bool tc" where
  "require_type_visible at s =
     with_sema (\<lambda>sm. case find_type_decl sm s of
       None \<Rightarrow> tret True
     | Some decl \<Rightarrow> require_decl_visible decl at s)"

fun ensure_node_visible :: "node \<Rightarrow> node \<Rightarrow> bool tc" where
  "ensure_node_visible at (Node l col ty) =
     (case ty of
        NODE_TYPE_POINTER t _ _ \<Rightarrow> ensure_node_visible at t
      | NODE_TYPE_ARRAY t _ \<Rightarrow> ensure_node_visible at t
      | NODE_TYPE_NAMED s \<Rightarrow> require_type_visible at s
      | _ \<Rightarrow> tret True)"

definition ensure_type_visible :: "node \<Rightarrow> node option \<Rightarrow> bool tc" where
  "ensure_type_visible at ty = (case ty of None \<Rightarrow> tret True | Some nd \<Rightarrow> ensure_node_visible at nd)"

fun ensure_resolved_type_visible :: "node \<Rightarrow> night_type \<Rightarrow> bool tc" where
  "ensure_resolved_type_visible at t =
     (case t of
        TYPE_FUNCTION decl \<Rightarrow> require_decl_visible decl at (fn_name decl)
      | TYPE_POINTER u _ _ \<Rightarrow> ensure_resolved_type_visible at u
      | TYPE_ARRAY u _ \<Rightarrow> ensure_resolved_type_visible at u
      | TYPE_NAMED s \<Rightarrow> if s = ''String'' then tret True else require_type_visible at s
      | _ \<Rightarrow> tret True)"

declare ensure_resolved_type_visible.simps [simp del]

text \<open>The result type of a call, if its declaration is visible.\<close>

definition call_result :: "node \<Rightarrow> node \<Rightarrow> night_type tc" where
  "call_result at fn =
     (let t = type_from_ast (fn_ret_type fn)
      in if_ok (ensure_resolved_type_visible at t) (tret t))"

subsection \<open>Operators\<close>

definition got :: "night_type \<Rightarrow> string" where
  "got t = '', got '' @ format_type t"

definition got_both :: "night_type \<Rightarrow> night_type \<Rightarrow> string" where
  "got_both t u = '', got '' @ format_type t @ '' and '' @ format_type u"

text \<open>\<open>addr\<close> says whether the operand is addressable.\<close>

definition unary_rule :: "string \<Rightarrow> bool \<Rightarrow> night_type \<Rightarrow> verdict" where
  "unary_rule op addr t =
     (if op = ''!'' then
        if is_assignable TYPE_BOOL t then Inr TYPE_BOOL
        else Inl (''operator ! requires bool'' @ got t)
      else if op = ''-'' then
        if is_numeric_type t then Inr t
        else Inl (''operator - requires numeric type'' @ got t)
      else if op = ''&'' then
        if addr then Inr (TYPE_POINTER (widen_literal t) False False)
        else Inl ''operator & requires an addressable expression''
      else if op = ''*'' then
        (case t of
           TYPE_POINTER u _ _ \<Rightarrow> Inr u
         | _ \<Rightarrow> Inl (''operator * requires pointer type'' @ got t))
      else if op = ''~'' then
        if is_integer_kind t then Inr t
        else Inl (''operator ~ requires integer type'' @ got t)
      else Inr TYPE_ERROR)"

definition binary_rule :: "string \<Rightarrow> night_type \<Rightarrow> night_type \<Rightarrow> verdict" where
  "binary_rule op t u =
     (if op \<in> {''+'', ''-'', ''*'', ''/'', ''%''} then
        if \<not> is_numeric_type t \<or> \<not> is_numeric_type u
        then Inl (''operator '' @ op @ '' requires numeric operands'' @ got_both t u)
        else if is_float_kind t \<or> is_float_kind u then Inr TYPE_F64
        else Inr TYPE_INT_LITERAL
      else if op \<in> {''=='', ''!=''} then
        if is_assignable t u \<or> is_assignable u t then Inr TYPE_BOOL
        else Inl (''cannot compare '' @ format_type t @ '' and '' @ format_type u)
      else if op \<in> {''<'', ''>'', ''<='', ''>=''} then
        if is_numeric_type t \<and> is_numeric_type u then Inr TYPE_BOOL
        else Inl (''comparison requires numeric operands'' @ got_both t u)
      else if op \<in> {''&&'', ''||''} then
        if is_assignable TYPE_BOOL t \<and> is_assignable TYPE_BOOL u then Inr TYPE_BOOL
        else Inl (''logical operator '' @ op @ '' requires bool operands'' @ got_both t u)
      else if op \<in> {''&'', ''|'', ''^'', ''<<'', ''>>''} then
        if is_integer_kind t \<and> is_integer_kind u
        then Inr (if t = TYPE_INT_LITERAL then u else t)
        else Inl (''bitwise operator '' @ op @ '' requires integer operands'' @ got_both t u)
      else Inr TYPE_ERROR)"

text \<open>\<open>compound\<close>: the assignment has an operator.\<close>

definition assign_rule :: "bool \<Rightarrow> night_type \<Rightarrow> night_type \<Rightarrow> verdict" where
  "assign_rule compound t u =
     (if compound then
        if is_numeric_type t \<and> is_numeric_type u then Inr t
        else Inl (''compound assignment requires numeric types'' @ got_both t u)
      else if is_assignable t u then Inr t
      else Inl (''cannot assign '' @ format_type u @ '' to '' @ format_type t))"

definition cast_rule :: "night_type \<Rightarrow> night_type \<Rightarrow> verdict" where
  "cast_rule source target =
     (if is_castable source target then Inr target
      else Inl (''cannot cast '' @ format_type source @ '' to '' @ format_type target))"

subsection \<open>Subscripts, slices and built-in fields\<close>

definition not_an_index :: "night_type \<Rightarrow> bool" where
  "not_an_index t \<longleftrightarrow> t \<noteq> TYPE_ERROR \<and> \<not> is_integer_kind t"

definition index_rule :: "night_type \<Rightarrow> night_type \<Rightarrow> verdict" where
  "index_rule t i =
     (if not_an_index i then Inl (''index must be an integer'' @ got i)
      else
        (case t of
           TYPE_ARRAY u _ \<Rightarrow> Inr u
         | TYPE_POINTER u _ _ \<Rightarrow> Inr u
         | TYPE_STR \<Rightarrow> Inr TYPE_U8
         | TYPE_ERROR \<Rightarrow> Inr TYPE_ERROR
         | _ \<Rightarrow> if t = TYPE_NAMED ''String'' then Inr TYPE_U8
               else Inl (''cannot index into type '' @ format_type t)))"

definition bad_bound :: "night_type option \<Rightarrow> bool" where
  "bad_bound b = (case b of None \<Rightarrow> False | Some t \<Rightarrow> not_an_index t)"

definition slice_rule :: "night_type \<Rightarrow> night_type option \<Rightarrow> night_type option \<Rightarrow> verdict" where
  "slice_rule t i j =
     (if bad_bound i then Inl (''slice start must be an integer'' @ got (the i))
      else if bad_bound j then Inl (''slice end must be an integer'' @ got (the j))
      else
        (case t of
           TYPE_STR \<Rightarrow> Inr TYPE_STR
         | TYPE_ARRAY u _ \<Rightarrow> Inr (TYPE_ARRAY u (- 1))
         | TYPE_ERROR \<Rightarrow> Inr TYPE_ERROR
         | _ \<Rightarrow> if t = TYPE_NAMED ''String'' then Inr TYPE_STR
               else Inl (''cannot slice type '' @ format_type t)))"

text \<open>The fields of slices, \<^verbatim>\<open>str\<close> and \<^verbatim>\<open>String\<close>; \<open>None\<close> for a type with declared fields or none.\<close>

definition builtin_field :: "night_type \<Rightarrow> string \<Rightarrow> verdict option" where
  "builtin_field t f =
     (case t of
        TYPE_ARRAY u n \<Rightarrow>
          if n < 0 then
            Some (if f = ''len'' then Inr TYPE_USIZE
                  else if f = ''ptr'' then Inr (TYPE_POINTER u False False)
                  else Inl (''unknown field '' @ in_quotes f @ '' for slice type''))
          else None
      | TYPE_STR \<Rightarrow>
          Some (if f = ''len'' then Inr TYPE_USIZE
                else if f = ''ptr'' then Inr (TYPE_POINTER TYPE_U8 True False)
                else Inl (''unknown field '' @ in_quotes f @ '' for str''))
      | TYPE_NAMED s \<Rightarrow>
          if s = ''String'' then
            Some (if f = ''len'' then Inr TYPE_USIZE
                  else if f = ''cap'' then Inr TYPE_USIZE
                  else if f = ''ptr'' then Inr (TYPE_POINTER TYPE_U8 False False)
                  else Inl (''unknown field '' @ in_quotes f @ '' for String''))
          else None
      | _ \<Rightarrow> None)"

text \<open>The name of the type whose fields and methods a value has, through one pointer.\<close>

definition owner_name :: "night_type \<Rightarrow> string option" where
  "owner_name t =
     (case t of
        TYPE_NAMED s \<Rightarrow> Some s
      | TYPE_POINTER u _ _ \<Rightarrow> (case u of TYPE_NAMED s \<Rightarrow> Some s | _ \<Rightarrow> None)
      | _ \<Rightarrow> None)"

subsection \<open>Built-in routines\<close>

definition OUTPUT_ROUTINES :: "string list" where
  "OUTPUT_ROUTINES =
    [''print'', ''println'', ''eprint'', ''eprintln'', ''print_int'', ''print_long'', ''print_uint'',
     ''print_ulong'', ''print_f32'', ''print_f64'', ''print_bool'', ''print_char'', ''flush'']"

text \<open>The other routines, whose arguments are not looked at, with the type of their result.\<close>

definition OTHER_ROUTINES :: "(string \<times> night_type) list" where
  "OTHER_ROUTINES =
    [(''input'', TYPE_CSTR), (''read_int'', TYPE_I32), (''read_long'', TYPE_I32),
     (''read_uint'', TYPE_U32), (''read_f64'', TYPE_F64), (''asm'', TYPE_VOID),
     (''outb'', TYPE_VOID), (''outw'', TYPE_VOID), (''outl'', TYPE_VOID), (''io_wait'', TYPE_VOID),
     (''inb'', TYPE_U8), (''inw'', TYPE_U16), (''inl'', TYPE_U32)]"

text \<open>Methods of the streams, with \<open>None\<close> for the one whose arguments are checked.\<close>

definition stream_method :: "string \<Rightarrow> string \<Rightarrow> night_type option option" where
  "stream_method obj f =
     (if obj \<in> {''stdout'', ''stderr''} \<and> f = ''flush'' then Some (Some TYPE_VOID)
      else if obj \<in> {''stdout'', ''stderr''} \<and> f = ''write'' then Some None
      else if obj = ''stdin'' then
        map_option Some
          (map_of [(''read_line'', TYPE_CSTR), (''read_int'', TYPE_I32), (''read_f64'', TYPE_F64)] f)
      else None)"

text \<open>
  \<^verbatim>\<open>free\<close> and \<^verbatim>\<open>as_str\<close> on a \<^verbatim>\<open>String\<close> or a pointer to one, with the number of arguments; only a
  \<^verbatim>\<open>String\<close> itself must be addressable to be freed, and that diagnostic is at the receiver.
\<close>

definition string_method :: "node \<Rightarrow> node \<Rightarrow> string \<Rightarrow> nat \<Rightarrow> night_type \<Rightarrow> night_type tc option" where
  "string_method at obj f n t =
     (if t = TYPE_NAMED ''String'' \<or>
         (case t of TYPE_POINTER u _ _ \<Rightarrow> u = TYPE_NAMED ''String'' | _ \<Rightarrow> False) then
        if f = ''free'' then
          Some (if n \<noteq> 0 then
                  type_error at (''String.free expects 0 arguments, got '' @ show_nat n)
                else if t = TYPE_NAMED ''String'' \<and> \<not> is_addressable obj then
                  type_error obj ''String.free requires an addressable receiver''
                else tret TYPE_VOID)
        else if f = ''as_str'' then
          Some (if n \<noteq> 0 then
                  type_error at (''String.as_str expects 0 arguments, got '' @ show_nat n)
                else tret TYPE_STR)
        else None
      else None)"

definition check_receiver :: "night_type \<Rightarrow> night_type \<Rightarrow> node \<Rightarrow> bool tc" where
  "check_receiver expected actual recv =
     (if is_assignable expected actual then tret True
      else if (case expected of
                 TYPE_POINTER u _ _ \<Rightarrow>
                   (case actual of TYPE_NAMED _ \<Rightarrow> type_equals u actual | _ \<Rightarrow> False)
               | _ \<Rightarrow> False) then
        if is_addressable recv then tret True
        else complain recv ''method call requires an addressable receiver'' False
      else complain recv
        (''receiver type mismatch: expected '' @ format_type expected @ got actual) False)"

end
