(* ===== verification/Typeck.thy ===== *)
theory Typeck
  imports Typeck_Base
begin

text \<open>
  The checks of \<^verbatim>\<open>compiler/src/typeck/typeck.c\<close> that descend into expressions and statements.

  Each case of \<^verbatim>\<open>check_expr\<close> is a definition of its own that takes the recursive call as an argument:
  \<open>ev\<close> is \<^verbatim>\<open>check_expr\<close> in the current scope, \<open>rec\<close> takes the scope as well. \<open>check_expr n\<close> ties the
  knot: a call whose nesting exceeds \<open>n\<close> ends with \<open>NoReturn\<close>. A bound is needed because an
  identifier may name an untyped global constant, whose value is then checked in its place: a
  constant that refers to itself is checked for ever.
\<close>

subsection \<open>Values with an expected type\<close>

text \<open>
  The one argument of \<^verbatim>\<open>Some\<close>, \<^verbatim>\<open>Ok\<close> or \<^verbatim>\<open>Err\<close>; \<open>payload\<close> is its type, \<open>None\<close> if the name of the
  expected type cannot be split.
\<close>

definition check_payload ::
  "(node \<Rightarrow> night_type tc) \<Rightarrow> node \<Rightarrow> string \<Rightarrow> night_type \<Rightarrow> night_type option \<Rightarrow> node list \<Rightarrow>
     night_type tc" where
  "check_payload ev at ctor expected payload args =
     (case args of
        [a] \<Rightarrow>
          (case payload of
             None \<Rightarrow> tret TYPE_ERROR
           | Some t \<Rightarrow>
               tbind (ev a) (\<lambda>u.
               if is_assignable t u then tret expected
               else type_error at
                 (ctor @ '' value type mismatch: expected '' @ format_type t @ got u)))
      | _ \<Rightarrow> type_error at (ctor @ '' expects 1 argument, got '' @ show_nat (length args)))"

definition result_payload :: "night_type \<Rightarrow> string \<Rightarrow> night_type option" where
  "result_payload t ctor =
     map_option (\<lambda>(ok, err). type_from_name_text (if ctor = ''Ok'' then ok else err))
       (result_inner_names t)"

text \<open>\<open>None\<close> is \<^verbatim>\<open>return 0\<close>: the expression is not a constructor of the expected type.\<close>

definition check_contextual_constructor ::
  "(node \<Rightarrow> night_type tc) \<Rightarrow> night_type \<Rightarrow> node \<Rightarrow> night_type tc option" where
  "check_contextual_constructor ev expected e =
     (if is_option_type expected \<and> is_option_constructor_expr e then
        Some (case nas e of
                NODE_CALL _ args \<Rightarrow>
                  check_payload ev e ''Some'' expected (Some (option_inner_type expected)) args
              | _ \<Rightarrow> tret expected)
      else if is_result_type expected \<and> is_result_constructor_expr e then
        (case nas e of
           NODE_CALL f args \<Rightarrow>
             map_option
               (\<lambda>ctor. check_payload ev e ctor expected (result_payload expected ctor) args)
               (ident_name f)
         | _ \<Rightarrow> None)
      else None)"

definition check_value :: "(node \<Rightarrow> night_type tc) \<Rightarrow> night_type \<Rightarrow> node \<Rightarrow> night_type tc" where
  "check_value ev expected e =
     (case check_contextual_constructor ev expected e of Some m \<Rightarrow> m | None \<Rightarrow> ev e)"

subsection \<open>Arguments\<close>

text \<open>A loop over arguments whose types are not compared with anything.\<close>

primrec check_ignored :: "(node \<Rightarrow> night_type tc) \<Rightarrow> node list \<Rightarrow> unit tc" where
  "check_ignored ev [] = tret ()"
| "check_ignored ev (e # es) = tbind (ev e) (\<lambda>_. check_ignored ev es)"

text \<open>The loop over parameters and arguments of \<^verbatim>\<open>check_call_arguments\<close> and of enum constructors.\<close>

fun check_arguments ::
  "(night_type \<Rightarrow> node \<Rightarrow> night_type tc) \<Rightarrow> string \<Rightarrow> node list \<Rightarrow> node list \<Rightarrow> bool tc" where
  "check_arguments val what (p # ps) (a # args) =
     (let t = type_from_ast (let_type p)
      in tbind (val t a) (\<lambda>u.
         if is_assignable t u then check_arguments val what ps args
         else complain a (what @ '': expected '' @ format_type t @ got u) False))"
| "check_arguments val what _ _ = tret True"

definition check_call_arguments ::
  "(node \<Rightarrow> night_type tc) \<Rightarrow> node \<Rightarrow> node list \<Rightarrow> node list \<Rightarrow> bool tc" where
  "check_call_arguments ev at ps args =
     (if length args \<noteq> length ps then
        complain at
          (''expected '' @ show_nat (length ps) @ '' arguments, got '' @ show_nat (length args)) False
      else check_arguments (check_value ev) ''argument type mismatch'' ps args)"

subsection \<open>Identifiers\<close>

definition find_global_const :: "node list \<Rightarrow> string \<Rightarrow> (node option \<times> node) option" where
  "find_global_const ds s =
     (case List.find (\<lambda>nd. case nas nd of NODE_CONST t _ _ \<Rightarrow> t = s | _ \<Rightarrow> False) ds of
        Some nd \<Rightarrow> (case nas nd of NODE_CONST _ ty v \<Rightarrow> Some (ty, v) | _ \<Rightarrow> None)
      | None \<Rightarrow> None)"

text \<open>A global constant without a type is checked without a scope.\<close>

definition check_global ::
  "(tscope option \<Rightarrow> node \<Rightarrow> night_type tc) \<Rightarrow> node \<Rightarrow> string \<Rightarrow> night_type tc" where
  "check_global rec at s =
     with_sema (\<lambda>sm. case find_function sm s of
       Some fn \<Rightarrow> if_ok (require_decl_visible fn at s) (tret (TYPE_FUNCTION fn))
     | None \<Rightarrow>
         with_decls (\<lambda>ds. case find_global_const ds s of
           Some (Some ty, v) \<Rightarrow> tret (type_from_ast (Some ty))
         | Some (None, v) \<Rightarrow> rec None v
         | None \<Rightarrow> tret TYPE_ERROR))"

definition check_ident ::
  "(tscope option \<Rightarrow> node \<Rightarrow> night_type tc) \<Rightarrow> tscope option \<Rightarrow> node \<Rightarrow> string \<Rightarrow> night_type tc" where
  "check_ident rec sc at s =
     (case resolve_in sc s of
        Some b \<Rightarrow> if_ok (ensure_resolved_type_visible at (b_type b)) (tret (b_type b))
      | None \<Rightarrow>
          if s = ''None'' then type_error at ''cannot infer Option type for None without context''
          else if s \<in> {''stdout'', ''stderr'', ''stdin''} then tret TYPE_VOID
          else check_global rec at s)"

subsection \<open>The operator ?\<close>

definition try_rule :: "night_type \<Rightarrow> night_type \<Rightarrow> verdict" where
  "try_rule ret t =
     (if is_option_type t then
        if is_option_type ret then Inr (option_inner_type t)
        else Inl (''operator ? on Option requires function return type Option[...]'' @ got ret)
      else if is_result_type t then
        if \<not> is_result_type ret
        then Inl (''operator ? on Result requires function return type Result[..., ...]'' @ got ret)
        else
          (case result_inner_names t of
             None \<Rightarrow> Inr TYPE_ERROR
           | Some (ok, err) \<Rightarrow>
               (case result_inner_names ret of
                  None \<Rightarrow> Inr TYPE_ERROR
                | Some (ret_ok, ret_err) \<Rightarrow>
                    (let e = type_from_name_text err; r = type_from_name_text ret_err
                     in if is_assignable r e \<and> is_assignable e r then Inr (type_from_name_text ok)
                        else Inl (''operator ? error type mismatch: expected '' @ format_type r @ got e))))
      else Inl (''operator ? requires Option or Result'' @ got t))"

definition check_try_expr :: "(node \<Rightarrow> night_type tc) \<Rightarrow> node \<Rightarrow> node \<Rightarrow> night_type tc" where
  "check_try_expr ev at operand =
     tget c_return_type (\<lambda>r. case r of
       None \<Rightarrow> type_error at ''operator ? can only be used inside a function''
     | Some ret \<Rightarrow> tbind (ev operand) (\<lambda>t. conclude at (try_rule ret t)))"

subsection \<open>Calls\<close>

definition check_plain_call ::
  "(node \<Rightarrow> night_type tc) \<Rightarrow> node \<Rightarrow> node \<Rightarrow> node list \<Rightarrow> night_type tc" where
  "check_plain_call ev at callee args =
     tbind (ev callee) (\<lambda>t. case t of
       TYPE_FUNCTION fn \<Rightarrow> if_ok (check_call_arguments ev at (fn_params fn) args) (call_result at fn)
     | _ \<Rightarrow> type_error at (''cannot call non-function value of type '' @ format_type t))"

text \<open>The interface \<^verbatim>\<open>I\<close> of the first \<^verbatim>\<open>impl T : I\<close> whose coercion function \<^verbatim>\<open>T_as_I\<close> has the name.\<close>

definition coercion_target :: "string \<Rightarrow> node \<Rightarrow> string option" where
  "coercion_target s nd =
     (case nas nd of
        NODE_IMPL_DECL target _ iface _ \<Rightarrow>
          (case iface of
             Some i \<Rightarrow> if in_buffer 256 (target @ ''_as_'' @ i) = s then Some i else None
           | None \<Rightarrow> None)
      | _ \<Rightarrow> None)"

primrec first_some :: "('a \<Rightarrow> 'b option) \<Rightarrow> 'a list \<Rightarrow> 'b option" where
  "first_some f [] = None"
| "first_some f (x # xs) = or_else (f x) (first_some f xs)"

definition check_ident_call ::
  "(node \<Rightarrow> night_type tc) \<Rightarrow> node \<Rightarrow> string \<Rightarrow> node \<Rightarrow> node list \<Rightarrow> night_type tc" where
  "check_ident_call ev at s callee args =
     (if s \<in> {''Some'', ''Ok'', ''Err''} then
        type_error at (''cannot infer container type for '' @ s @ '' without context'')
      else if s \<in> set OUTPUT_ROUTINES then tbind (check_ignored ev args) (\<lambda>_. tret TYPE_VOID)
      else
        (case map_of OTHER_ROUTINES s of
           Some t \<Rightarrow> tret t
         | None \<Rightarrow>
             with_decls (\<lambda>ds. case first_some (coercion_target s) ds of
               Some i \<Rightarrow> tbind (check_ignored ev args) (\<lambda>_. tret (TYPE_NAMED i))
             | None \<Rightarrow> check_plain_call ev at callee args)))"

definition check_string_from :: "(node \<Rightarrow> night_type tc) \<Rightarrow> node \<Rightarrow> node list \<Rightarrow> night_type tc" where
  "check_string_from ev at args =
     (case args of
        [a] \<Rightarrow>
          tbind (ev a) (\<lambda>t.
          if is_assignable TYPE_STR t \<or> is_assignable TYPE_CSTR t then tret (TYPE_NAMED ''String'')
          else type_error a (''String.from expects str or cstr'' @ got t))
      | _ \<Rightarrow> type_error at (''String.from expects 1 argument, got '' @ show_nat (length args)))"

definition check_enum_constructor ::
  "(node \<Rightarrow> night_type tc) \<Rightarrow> node \<Rightarrow> node \<Rightarrow> string \<Rightarrow> string \<Rightarrow> node list \<Rightarrow> night_type tc" where
  "check_enum_constructor ev at decl s v args =
     if_ok (require_decl_visible decl at s)
       (let fs = (case enum_variant_fields decl v of Some fs \<Rightarrow> fs | None \<Rightarrow> [])
        in if length args \<noteq> length fs then
             type_error at
               (''enum constructor '' @ in_quotes (s @ ''.'' @ v) @ '' expects '' @
                 show_nat (length fs) @ '' arguments, got '' @ show_nat (length args))
           else if_ok (check_arguments (\<lambda>_. ev) ''enum constructor argument mismatch'' fs args)
                  (tret (TYPE_NAMED s)))"

text \<open>\<^verbatim>\<open>Type.method(args)\<close>, with the receiver among the arguments.\<close>

definition check_type_method ::
  "(node \<Rightarrow> night_type tc) \<Rightarrow> node \<Rightarrow> node \<Rightarrow> string \<Rightarrow> node list \<Rightarrow> night_type tc" where
  "check_type_method ev at m f args =
     if_ok (require_decl_visible m at f)
       (if_ok (check_call_arguments ev at (fn_params m) args) (call_result at m))"

definition check_owner_method ::
  "(node \<Rightarrow> night_type tc) \<Rightarrow> node \<Rightarrow> node \<Rightarrow> node \<Rightarrow> string \<Rightarrow> node list \<Rightarrow> night_type \<Rightarrow> string \<Rightarrow>
     node \<Rightarrow> night_type tc" where
  "check_owner_method ev at callee obj f args t owner m =
     if_ok (require_decl_visible m at f)
       (if \<not> method_has_receiver m then
          type_error callee
            (''associated function '' @ in_quotes (owner @ ''.'' @ f) @ '' must be called on the type'')
        else
          if_ok (check_receiver (type_from_ast (let_type (hd (fn_params m)))) t obj)
            (if_ok (check_call_arguments ev at (tl (fn_params m)) args) (call_result at m)))"

text \<open>
  \<^verbatim>\<open>value.method(args)\<close>. Where the type of the value has no such method the callee is checked again,
  as a field.
\<close>

definition check_method_call ::
  "(node \<Rightarrow> night_type tc) \<Rightarrow> node \<Rightarrow> node \<Rightarrow> node \<Rightarrow> string \<Rightarrow> node list \<Rightarrow> night_type tc" where
  "check_method_call ev at callee obj f args =
     tbind (ev obj) (\<lambda>t. case string_method at obj f (length args) t of
       Some m \<Rightarrow> m
     | None \<Rightarrow>
         (case owner_name t of
            None \<Rightarrow> check_plain_call ev at callee args
          | Some owner \<Rightarrow>
              with_sema (\<lambda>sm. case find_method_node sm owner f of
                None \<Rightarrow> check_plain_call ev at callee args
              | Some m \<Rightarrow> check_owner_method ev at callee obj f args t owner m)))"

definition check_field_call ::
  "(node \<Rightarrow> night_type tc) \<Rightarrow> node \<Rightarrow> node \<Rightarrow> node \<Rightarrow> string \<Rightarrow> node list \<Rightarrow> night_type tc" where
  "check_field_call ev at callee obj f args =
     (case ident_name obj of
        None \<Rightarrow> check_method_call ev at callee obj f args
      | Some s \<Rightarrow>
          (case stream_method s f of
             Some (Some t) \<Rightarrow> tret t
           | Some None \<Rightarrow> tbind (check_ignored ev args) (\<lambda>_. tret TYPE_VOID)
           | None \<Rightarrow>
               if s = ''String'' \<and> f = ''from'' then check_string_from ev at args
               else
                 with_sema (\<lambda>sm. case find_variant sm s f of
                   Some decl \<Rightarrow> check_enum_constructor ev at decl s f args
                 | None \<Rightarrow>
                     (case find_method_node sm s f of
                        Some m \<Rightarrow> check_type_method ev at m f args
                      | None \<Rightarrow> check_method_call ev at callee obj f args))))"

text \<open>\<^verbatim>\<open>f[T](args)\<close> on a generic function.\<close>

definition named_type :: "node \<Rightarrow> string option" where
  "named_type nd = (case nas nd of NODE_TYPE_NAMED s \<Rightarrow> Some s | _ \<Rightarrow> None)"

definition fn_type_params :: "node \<Rightarrow> node list" where
  "fn_type_params nd = (case nas nd of NODE_FN_DECL _ _ _ tps _ _ _ _ \<Rightarrow> tps | _ \<Rightarrow> [])"

definition find_generic_fn :: "node list \<Rightarrow> string \<Rightarrow> node option" where
  "find_generic_fn ds s =
     List.find (\<lambda>nd. fn_type_params nd \<noteq> [] \<and> candidate_name KIND_FN nd = Some s) ds"

definition generic_result :: "node \<Rightarrow> node \<Rightarrow> night_type" where
  "generic_result fn arg =
     (case or_else (ident_name arg) (named_type arg) of
        None \<Rightarrow> TYPE_VOID
      | Some s \<Rightarrow>
          (case fn_ret_type fn of
             None \<Rightarrow> TYPE_VOID
           | Some r \<Rightarrow>
               if named_type r \<noteq> None \<and> named_type r = named_type (hd (fn_type_params fn))
               then type_from_name_text s else TYPE_VOID))"

definition check_generic_call ::
  "(node \<Rightarrow> night_type tc) \<Rightarrow> node \<Rightarrow> node \<Rightarrow> node \<Rightarrow> node \<Rightarrow> node list \<Rightarrow> night_type tc" where
  "check_generic_call ev at callee obj arg args =
     (case ident_name obj of
        None \<Rightarrow> check_plain_call ev at callee args
      | Some s \<Rightarrow>
          with_decls (\<lambda>ds. case find_generic_fn ds s of
            None \<Rightarrow> check_plain_call ev at callee args
          | Some fn \<Rightarrow> tbind (check_ignored ev args) (\<lambda>_. tret (generic_result fn arg))))"

definition check_call ::
  "(node \<Rightarrow> night_type tc) \<Rightarrow> node \<Rightarrow> node \<Rightarrow> node list \<Rightarrow> night_type tc" where
  "check_call ev at callee args =
     (case nas callee of
        NODE_IDENT s \<Rightarrow> check_ident_call ev at s callee args
      | NODE_FIELD obj f \<Rightarrow> check_field_call ev at callee obj f args
      | NODE_INDEX obj arg \<Rightarrow> check_generic_call ev at callee obj arg args
      | _ \<Rightarrow> check_plain_call ev at callee args)"

end
