(* ===== verification/Typeck_Expr.thy ===== *)
theory Typeck_Expr
  imports Typeck
begin

text \<open>
  Fields, literals of structs and unions, and matches in \<^verbatim>\<open>compiler/src/typeck/typeck.c\<close>; then the
  dispatch of \<^verbatim>\<open>check_expr\<close> on the kind of the node, and the recursion.
\<close>

subsection \<open>Fields\<close>

text \<open>The name before the first bracket, if it fits the buffer of 256 bytes.\<close>

definition bracket_base :: "string \<Rightarrow> string option" where
  "bracket_base s =
     (case strchr s (CHR ''['') of
        Some i \<Rightarrow> if i < 256 then Some (take i s) else None
      | None \<Rightarrow> None)"

definition field_owner_decl :: "semantic_model \<Rightarrow> string \<Rightarrow> node option" where
  "field_owner_decl sm s =
     or_else (find_struct_or_union sm s)
       (case bracket_base s of
          Some b \<Rightarrow> find_named_node (model_structs sm) b KIND_STRUCT
        | None \<Rightarrow> None)"

text \<open>
  What is between the brackets of an owner like \<^verbatim>\<open>Pair[i32]\<close>, if it fits \<^verbatim>\<open>inner_buf\<close>; it replaces a
  field type that is one of the type parameters.
\<close>

definition bracket_argument :: "string \<Rightarrow> string option" where
  "bracket_argument s =
     (case strchr s (CHR ''['') of
        Some i \<Rightarrow>
          if c_at s (length s - 1) = CHR '']'' \<and> length s - i - 2 < 256
          then Some (substr s (i + 1) (length s - i - 2)) else None
      | None \<Rightarrow> None)"

definition type_argument :: "node \<Rightarrow> string \<Rightarrow> node option \<Rightarrow> string option" where
  "type_argument decl owner ty =
     (case ty of
        None \<Rightarrow> None
      | Some nd \<Rightarrow>
          if named_type nd \<noteq> None \<and> named_type nd \<in> set (map named_type (struct_type_params decl))
          then bracket_argument owner else None)"

text \<open>
  A substituted type that is not built in keeps a pointer to \<^verbatim>\<open>inner_buf\<close>, which is dead once the
  function has returned.
\<close>

definition substituted_type :: "string \<Rightarrow> night_type tc" where
  "substituted_type s =
     (case map_of TYPE_NAMES s of Some t \<Rightarrow> tret t | None \<Rightarrow> tfail DanglingName)"

definition is_union_decl :: "node \<Rightarrow> bool" where
  "is_union_decl nd = (case nas nd of NODE_UNION_DECL _ _ _ _ \<Rightarrow> True | _ \<Rightarrow> False)"

definition check_declared_field ::
  "nat \<Rightarrow> node \<Rightarrow> string \<Rightarrow> string \<Rightarrow> node \<Rightarrow> night_type tc" where
  "check_declared_field ud at owner f decl =
     (if is_union_decl decl \<and> ud \<le> 0 then type_error at ''union field access requires unsafe block''
      else
        (case composite_field decl f of
           None \<Rightarrow> type_error at (''unknown field '' @ in_quotes f @ '' for '' @ owner)
         | Some fd \<Rightarrow>
             (case type_argument decl owner (let_type fd) of
                Some s \<Rightarrow> substituted_type s
              | None \<Rightarrow>
                  (let t = type_from_ast (let_type fd)
                   in if_ok (ensure_resolved_type_visible at t) (tret t)))))"

definition no_field_access :: "node \<Rightarrow> string \<Rightarrow> night_type \<Rightarrow> night_type tc" where
  "no_field_access at f t =
     type_error at (''cannot access field '' @ in_quotes f @ '' on '' @ format_type t)"

definition check_value_field ::
  "(node \<Rightarrow> night_type tc) \<Rightarrow> nat \<Rightarrow> node \<Rightarrow> node \<Rightarrow> string \<Rightarrow> night_type tc" where
  "check_value_field ev ud at obj f =
     tbind (ev obj) (\<lambda>t. case builtin_field t f of
       Some v \<Rightarrow> conclude at v
     | None \<Rightarrow>
         (case owner_name t of
            None \<Rightarrow> no_field_access at f t
          | Some owner \<Rightarrow>
              with_sema (\<lambda>sm. case field_owner_decl sm owner of
                None \<Rightarrow> no_field_access at f t
              | Some decl \<Rightarrow> check_declared_field ud at owner f decl)))"

definition check_field ::
  "(node \<Rightarrow> night_type tc) \<Rightarrow> nat \<Rightarrow> node \<Rightarrow> node \<Rightarrow> string \<Rightarrow> night_type tc" where
  "check_field ev ud at obj f =
     (case ident_name obj of
        None \<Rightarrow> check_value_field ev ud at obj f
      | Some s \<Rightarrow>
          with_sema (\<lambda>sm. case find_variant sm s f of
            Some decl \<Rightarrow> if_ok (require_decl_visible decl at s) (tret (TYPE_NAMED s))
          | None \<Rightarrow>
              (case find_method_node sm s f of
                 Some m \<Rightarrow> if_ok (require_decl_visible m at f) (tret (TYPE_FUNCTION m))
               | None \<Rightarrow> check_value_field ev ud at obj f)))"

subsection \<open>Literals of structs and unions\<close>

fun check_inits ::
  "(node \<Rightarrow> night_type tc) \<Rightarrow> node \<Rightarrow> string \<Rightarrow> node \<Rightarrow> (string \<times> node) list \<Rightarrow> night_type tc" where
  "check_inits ev at s decl [] = tret (TYPE_NAMED s)"
| "check_inits ev at s decl ((f, e) # inits) =
     if_ok (require_decl_visible decl at s)
       (case composite_field decl f of
          None \<Rightarrow> tret TYPE_ERROR
        | Some fd \<Rightarrow>
            (let t = type_from_ast (let_type fd)
             in tbind (ev e) (\<lambda>u.
                if is_assignable t u then check_inits ev at s decl inits
                else type_error e
                  (''cannot initialize field '' @ in_quotes f @ '' with '' @ format_type u @
                    ''; expected '' @ format_type t))))"

definition check_struct_lit ::
  "(node \<Rightarrow> night_type tc) \<Rightarrow> node \<Rightarrow> string \<Rightarrow> (string \<times> node) list \<Rightarrow> night_type tc" where
  "check_struct_lit ev at s inits =
     with_sema (\<lambda>sm. case find_struct_or_union sm s of
       Some decl \<Rightarrow> check_inits ev at s decl inits
     | None \<Rightarrow>
         (case generic_base s of
            None \<Rightarrow> tret TYPE_ERROR
          | Some b \<Rightarrow>
              (case find_named_node (model_structs sm) b KIND_STRUCT of
                 None \<Rightarrow> tret TYPE_ERROR
               | Some decl \<Rightarrow>
                   tbind (check_ignored ev (map snd inits)) (\<lambda>_. tret (TYPE_NAMED s)))))"

subsection \<open>Matches\<close>

text \<open>The enum and the variant of a pattern: \<^verbatim>\<open>memcpy(enum_name, pattern, dot - pattern)\<close>.\<close>

definition split_pattern :: "string \<Rightarrow> (string \<times> string) option tc" where
  "split_pattern pat =
     (case strchr pat (CHR ''.'') of
        None \<Rightarrow> tret None
      | Some i \<Rightarrow>
          if i < 128 then tret (Some (take i pat, drop (i + 1) pat)) else tfail NameOverrun)"

text \<open>\<open>None\<close> is \<^verbatim>\<open>return 0\<close>.\<close>

definition get_match_binding_types :: "night_type \<Rightarrow> string \<Rightarrow> night_type list option tc" where
  "get_match_binding_types t pat =
     (if is_option_type t then
        tret (if pat = ''Some'' then Some [option_inner_type t]
              else if pat = ''None'' then Some [] else None)
      else if is_result_type t then
        tret (case result_inner_names t of
                None \<Rightarrow> None
              | Some (ok, err) \<Rightarrow>
                  if pat = ''Ok'' then Some [type_from_name_text ok]
                  else if pat = ''Err'' then Some [type_from_name_text err] else None)
      else
        tbind (split_pattern pat) (\<lambda>r. case r of
          None \<Rightarrow> tret None
        | Some (e, v) \<Rightarrow>
            with_sema (\<lambda>sm. tret (case find_enum sm e of
              None \<Rightarrow> None
            | Some decl \<Rightarrow>
                Some (case enum_variant_fields decl v of
                        None \<Rightarrow> []
                      | Some fs \<Rightarrow> map (\<lambda>p. type_from_ast (let_type p)) fs)))))"

text \<open>
  What the loop over the arms carries: whether there was a wildcard, the variants seen (at most 256
  are recorded), and the type of the first arm. In the loop \<open>None\<close> is \<^verbatim>\<open>return &TYPE_ERROR_VALUE\<close>.
\<close>

record match_state =
  saw_wildcard :: bool
  seen_variants :: "string list"
  result_type :: "night_type option"

definition check_subject_pattern :: "node \<Rightarrow> night_type \<Rightarrow> string \<Rightarrow> string option tc" where
  "check_subject_pattern at t pat =
     (let mismatch =
        complain at
          (''match arm '' @ in_quotes pat @ '' does not match subject type '' @
            (if is_option_type t \<or> is_result_type t then (case t of TYPE_NAMED s \<Rightarrow> s | _ \<Rightarrow> [])
             else format_type t)) None
      in if is_option_type t then
           if pat \<in> {''Some'', ''None''} then tret (Some pat) else mismatch
         else if is_result_type t then
           if pat \<in> {''Ok'', ''Err''} then tret (Some pat) else mismatch
         else
           tbind (split_pattern pat) (\<lambda>r. case r of
             None \<Rightarrow> tret None
           | Some (e, v) \<Rightarrow> if t = TYPE_NAMED e then tret (Some v) else mismatch))"

text \<open>The duplicates: a variant is printed with its enum, which together are the pattern.\<close>

definition check_pattern :: "node \<Rightarrow> night_type \<Rightarrow> match_state \<Rightarrow> string \<Rightarrow> match_state option tc" where
  "check_pattern at t ms pat =
     (if pat = ''_'' then
        if saw_wildcard ms then complain at ''duplicate wildcard match arm'' None
        else tret (Some (ms\<lparr>saw_wildcard := True\<rparr>))
      else
        tbind (check_subject_pattern at t pat) (\<lambda>r. case r of
          None \<Rightarrow> tret None
        | Some v \<Rightarrow>
            if v \<in> set (seen_variants ms)
            then complain at (''duplicate match arm '' @ in_quotes pat) None
            else tret (Some (if length (seen_variants ms) < 256
                             then ms\<lparr>seen_variants := seen_variants ms @ [v]\<rparr> else ms))))"

definition check_binding_types ::
  "node \<Rightarrow> night_type \<Rightarrow> string \<Rightarrow> string list \<Rightarrow> night_type list option tc" where
  "check_binding_types at t pat bs =
     (if pat = ''_'' then
        if bs \<noteq> [] then complain at ''wildcard match arm cannot declare bindings'' None
        else tret (Some [])
      else
        tbind (get_match_binding_types t pat) (\<lambda>r. case r of
          None \<Rightarrow> complain at (''invalid match pattern '' @ in_quotes pat) None
        | Some ts \<Rightarrow>
            if bs \<noteq> [] \<and> length ts \<noteq> length bs then
              complain at
                (''match arm '' @ in_quotes pat @ '' expects '' @ show_nat (length ts) @
                  '' bindings, got '' @ show_nat (length bs)) None
            else tret (Some ts)))"

definition arm_scope ::
  "tscope option \<Rightarrow> string list \<Rightarrow> night_type list \<Rightarrow> (string \<times> binding, tscope) sum" where
  "arm_scope sc bs ts =
     define_all_by tscope_define (tscope_new sc) (zip bs (map (\<lambda>t. bind_var t False) ts))"

definition join_arm :: "node \<Rightarrow> match_state \<Rightarrow> night_type \<Rightarrow> match_state option tc" where
  "join_arm value ms u =
     (case result_type ms of
        None \<Rightarrow> tret (Some (ms\<lparr>result_type := Some u\<rparr>))
      | Some t \<Rightarrow>
          if is_assignable t u \<or> is_assignable u t then tret (Some ms)
          else complain value (''match arm type mismatch: expected '' @ format_type t @ got u) None)"

definition if_some :: "'a option tc \<Rightarrow> ('a \<Rightarrow> 'b option tc) \<Rightarrow> 'b option tc" where
  "if_some m f = tbind m (\<lambda>r. case r of None \<Rightarrow> tret None | Some x \<Rightarrow> f x)"

definition check_arm ::
  "(tscope option \<Rightarrow> node \<Rightarrow> night_type tc) \<Rightarrow> tscope option \<Rightarrow> node \<Rightarrow> night_type \<Rightarrow> match_state \<Rightarrow>
     string \<times> string list \<times> node \<Rightarrow> match_state option tc" where
  "check_arm rec sc at t ms arm =
     (case arm of (pat, bs, value) \<Rightarrow>
        if_some (check_pattern at t ms pat) (\<lambda>ms'.
        if_some (check_binding_types at t pat bs) (\<lambda>ts.
        case arm_scope sc bs ts of
          Inl (s, _) \<Rightarrow> complain at (''duplicate match binding '' @ in_quotes s) None
        | Inr inner \<Rightarrow> tbind (rec (Some inner) value) (\<lambda>u. join_arm value ms' u))))"

primrec check_arms ::
  "(tscope option \<Rightarrow> node \<Rightarrow> night_type tc) \<Rightarrow> tscope option \<Rightarrow> node \<Rightarrow> night_type \<Rightarrow> match_state \<Rightarrow>
     (string \<times> string list \<times> node) list \<Rightarrow> match_state option tc" where
  "check_arms rec sc at t ms [] = tret (Some ms)"
| "check_arms rec sc at t ms (arm # arms) =
     if_some (check_arm rec sc at t ms arm) (\<lambda>ms'. check_arms rec sc at t ms' arms)"

text \<open>The variants that must be seen where there is no wildcard, in the order they are asked for.\<close>

definition subject_enum :: "semantic_model \<Rightarrow> night_type \<Rightarrow> node option" where
  "subject_enum sm t =
     (case t of
        TYPE_NAMED s \<Rightarrow> if is_option_type t \<or> is_result_type t then None else find_enum sm s
      | _ \<Rightarrow> None)"

definition missing_variant :: "semantic_model \<Rightarrow> night_type \<Rightarrow> match_state \<Rightarrow> string option" where
  "missing_variant sm t ms =
     (let unseen = List.find (\<lambda>v. v \<notin> set (seen_variants ms))
      in if saw_wildcard ms then None
         else if is_option_type t then
           map_option (\<lambda>v. ''non-exhaustive match for Option: missing '' @ v) (unseen [''Some'', ''None''])
         else if is_result_type t then
           map_option (\<lambda>v. ''non-exhaustive match for Result: missing '' @ v) (unseen [''Ok'', ''Err''])
         else
           (case (t, subject_enum sm t) of
              (TYPE_NAMED s, Some decl) \<Rightarrow>
                map_option
                  (\<lambda>v. ''non-exhaustive match for enum '' @ in_quotes s @ '': missing '' @ s @ ''.'' @ v)
                  (unseen (enum_variants decl))
            | _ \<Rightarrow> None))"

definition can_match :: "semantic_model \<Rightarrow> night_type \<Rightarrow> bool" where
  "can_match sm t \<longleftrightarrow> is_option_type t \<or> is_result_type t \<or> subject_enum sm t \<noteq> None"

definition match_init :: match_state where
  "match_init = \<lparr>saw_wildcard = False, seen_variants = [], result_type = None\<rparr>"

definition check_match_expr ::
  "(tscope option \<Rightarrow> node \<Rightarrow> night_type tc) \<Rightarrow> tscope option \<Rightarrow> node \<Rightarrow> node \<Rightarrow>
     (string \<times> string list \<times> node) list \<Rightarrow> night_type tc" where
  "check_match_expr rec sc at subject arms =
     tbind (rec sc subject) (\<lambda>t.
     with_sema (\<lambda>sm.
     if \<not> can_match sm t then
       type_error at (''match subject must be an enum, Option, or Result'' @ got t)
     else
       tbind (check_arms rec sc at t match_init arms) (\<lambda>r. case r of
         None \<Rightarrow> tret TYPE_ERROR
       | Some ms \<Rightarrow>
           (case missing_variant sm t ms of
              Some msg \<Rightarrow> type_error at msg
            | None \<Rightarrow> tret (case result_type ms of Some u \<Rightarrow> u | None \<Rightarrow> TYPE_ERROR)))))"

subsection \<open>Expressions\<close>

definition immutable_target :: "tscope option \<Rightarrow> node \<Rightarrow> bool" where
  "immutable_target sc e =
     (case ident_name e of
        None \<Rightarrow> False
      | Some s \<Rightarrow> (case resolve_in sc s of Some b \<Rightarrow> \<not> b_mutable b | None \<Rightarrow> False))"

definition check_assign ::
  "(node \<Rightarrow> night_type tc) \<Rightarrow> tscope option \<Rightarrow> node \<Rightarrow> node \<Rightarrow> node \<Rightarrow> bool \<Rightarrow> night_type tc" where
  "check_assign ev sc at target value compound =
     (if \<not> is_addressable target then
        type_error at ''left side of assignment is not assignable''
      else if immutable_target sc target then
        type_error at
          (''cannot assign to immutable binding '' @
            in_quotes (case ident_name target of Some s \<Rightarrow> s | None \<Rightarrow> []))
      else
        tbind (ev target) (\<lambda>t.
        tbind (ev value) (\<lambda>u.
        conclude at (assign_rule compound t u))))"

definition check_opt :: "(node \<Rightarrow> night_type tc) \<Rightarrow> node option \<Rightarrow> night_type option tc" where
  "check_opt ev e = (case e of None \<Rightarrow> tret None | Some x \<Rightarrow> tbind (ev x) (\<lambda>t. tret (Some t)))"

definition check_node ::
  "(tscope option \<Rightarrow> node \<Rightarrow> night_type tc) \<Rightarrow> nat \<Rightarrow> tscope option \<Rightarrow> node \<Rightarrow> night_type tc" where
  "check_node rec ud sc e =
     (let ev = rec sc
      in case nas e of
           NODE_LIT_INT _ \<Rightarrow> tret TYPE_INT_LITERAL
         | NODE_LIT_CHAR _ \<Rightarrow> tret TYPE_CHAR
         | NODE_LIT_FLOAT _ \<Rightarrow> tret TYPE_FLOAT_LITERAL
         | NODE_LIT_STRING _ \<Rightarrow> tret TYPE_STRING_LITERAL
         | NODE_LIT_BOOL _ \<Rightarrow> tret TYPE_BOOL
         | NODE_LIT_NULL \<Rightarrow> tret TYPE_NULL
         | NODE_IDENT s \<Rightarrow> check_ident rec sc e s
         | NODE_GROUP x \<Rightarrow> ev x
         | NODE_UNARY op x \<Rightarrow>
             if op = ''?'' then check_try_expr ev e x
             else tbind (ev x) (\<lambda>t. conclude e (unary_rule op (is_addressable x) t))
         | NODE_BINARY op x y \<Rightarrow>
             tbind (ev x) (\<lambda>t. tbind (ev y) (\<lambda>u. conclude e (binary_rule op t u)))
         | NODE_ASSIGN x y op \<Rightarrow> check_assign ev sc e x y (op \<noteq> None)
         | NODE_INDEX x i \<Rightarrow>
             tbind (ev x) (\<lambda>t. tbind (ev i) (\<lambda>u. conclude e (index_rule t u)))
         | NODE_SLICE x i j \<Rightarrow>
             tbind (ev x) (\<lambda>t. tbind (check_opt ev i) (\<lambda>u. tbind (check_opt ev j) (\<lambda>v.
             conclude e (slice_rule t u v))))
         | NODE_CALL f args \<Rightarrow> check_call ev e f args
         | NODE_CAST x ty \<Rightarrow> tbind (ev x) (\<lambda>t. conclude e (cast_rule t (type_from_node ty)))
         | NODE_FIELD x f \<Rightarrow> check_field ev ud e x f
         | NODE_STRUCT_LIT s inits \<Rightarrow> check_struct_lit ev e s inits
         | NODE_MATCH x arms \<Rightarrow> check_match_expr rec sc e x arms
         | _ \<Rightarrow> tret TYPE_ERROR)"

primrec check_expr :: "nat \<Rightarrow> nat \<Rightarrow> tscope option \<Rightarrow> node \<Rightarrow> night_type tc" where
  "check_expr 0 ud sc e = tfail NoReturn"
| "check_expr (Suc n) ud sc e = check_node (check_expr n ud) ud sc e"

end
