(* ===== verification/Typeck_Stmt.thy ===== *)
theory Typeck_Stmt
  imports Typeck_Expr
begin

text \<open>
  The checks of statements and functions in \<^verbatim>\<open>compiler/src/typeck/typeck.c\<close> and the entry point
  \<^verbatim>\<open>typeck_check\<close>. \<open>ev\<close> is \<^verbatim>\<open>check_expr\<close> in the current scope, \<open>n\<close> its bound.
\<close>

subsection \<open>Declarations of variables\<close>

text \<open>
  A statement returns 0 or 1 and may define a name in the scope it is given; the scopes it opens
  itself are freed again.
\<close>

type_synonym stmt_tc = "tscope \<Rightarrow> (bool \<times> tscope) tc"

definition leave_scope :: "bool tc \<Rightarrow> stmt_tc" where
  "leave_scope m sc = tbind m (\<lambda>ok. tret (ok, sc))"

definition then_do :: "stmt_tc \<Rightarrow> stmt_tc \<Rightarrow> stmt_tc" where
  "then_do f g sc = tbind (f sc) (\<lambda>(ok, sc'). if ok then g sc' else tret (False, sc'))"

definition in_child :: "stmt_tc \<Rightarrow> stmt_tc" where
  "in_child f sc = tbind (f (tscope_new (Some sc))) (\<lambda>(ok, _). tret (ok, sc))"

definition declare_var :: "node \<Rightarrow> string \<Rightarrow> bool \<Rightarrow> night_type \<Rightarrow> stmt_tc" where
  "declare_var at s mutable t sc =
     (case tscope_define sc s (bind_var t mutable) of
        None \<Rightarrow> leave_scope (complain at ''out of memory'' False) sc
      | Some sc' \<Rightarrow> tret (True, sc'))"

text \<open>The type a variable or constant gets; \<open>None\<close> is \<^verbatim>\<open>return 0\<close>.\<close>

definition settle_type ::
  "node \<Rightarrow> string \<Rightarrow> string \<Rightarrow> night_type option \<Rightarrow> night_type option \<Rightarrow> night_type option tc" where
  "settle_type at s from_null declared actual =
     (case or_else declared (map_option widen_literal actual) of
        None \<Rightarrow>
          complain at (''cannot infer type for '' @ in_quotes s @ '' without initializer'') None
      | Some t \<Rightarrow>
          if t = TYPE_NULL then complain at from_null None
          else
            (case actual of
               None \<Rightarrow> tret (Some t)
             | Some u \<Rightarrow>
                 if is_assignable t u then tret (Some t)
                 else complain at (''cannot assign '' @ format_type u @ '' to '' @ format_type t) None))"

definition check_initializer ::
  "(node \<Rightarrow> night_type tc) \<Rightarrow> night_type option \<Rightarrow> node option \<Rightarrow> night_type option tc" where
  "check_initializer ev declared v =
     check_opt (\<lambda>e. case declared of Some t \<Rightarrow> check_value ev t e | None \<Rightarrow> ev e) v"

definition check_local ::
  "(node \<Rightarrow> night_type tc) \<Rightarrow> node \<Rightarrow> string \<Rightarrow> bool \<Rightarrow> string \<Rightarrow> node option \<Rightarrow> node option \<Rightarrow>
     stmt_tc" where
  "check_local ev at s mutable from_null ty v sc =
     tbind (ensure_type_visible at ty) (\<lambda>ok.
     if \<not> ok then tret (False, sc)
     else
       (let declared = map_option type_from_node ty
        in tbind (check_initializer ev declared v) (\<lambda>actual.
           tbind (settle_type at s from_null declared actual) (\<lambda>r. case r of
             None \<Rightarrow> tret (False, sc)
           | Some t \<Rightarrow> declare_var at s mutable t sc))))"

subsection \<open>Statements\<close>

definition check_return ::
  "(node \<Rightarrow> night_type tc) \<Rightarrow> node \<Rightarrow> night_type \<Rightarrow> node option \<Rightarrow> bool tc" where
  "check_return ev at expected v =
     (if expected = TYPE_VOID then
        (case v of
           None \<Rightarrow> tret True
         | Some _ \<Rightarrow> complain at ''void function cannot return a value'' False)
      else
        (case v of
           None \<Rightarrow> complain at (''expected return value of type '' @ format_type expected) False
         | Some e \<Rightarrow>
             tbind (check_value ev expected e) (\<lambda>t.
             if is_assignable expected t then tret True
             else complain at
               (''return type mismatch: expected '' @ format_type expected @ got t) False)))"

definition check_condition :: "(node \<Rightarrow> night_type tc) \<Rightarrow> node \<Rightarrow> string \<Rightarrow> node \<Rightarrow> bool tc" where
  "check_condition ev at what e =
     tbind (ev e) (\<lambda>t.
     if is_assignable TYPE_BOOL t then tret True
     else complain at (what @ '' condition must be bool'' @ got t) False)"

definition check_opt_condition :: "(node \<Rightarrow> night_type tc) \<Rightarrow> node \<Rightarrow> node option \<Rightarrow> bool tc" where
  "check_opt_condition ev at e =
     (case e of None \<Rightarrow> tret True | Some x \<Rightarrow> check_condition ev at ''for'' x)"

text \<open>The treatment of a deferred expression and of the last part of a \<^verbatim>\<open>for\<close>.\<close>

definition check_not_error :: "(node \<Rightarrow> night_type tc) \<Rightarrow> node \<Rightarrow> bool tc" where
  "check_not_error ev e = tbind (ev e) (\<lambda>t. tret (t \<noteq> TYPE_ERROR))"

definition check_post :: "(node \<Rightarrow> night_type tc) \<Rightarrow> node option \<Rightarrow> bool tc" where
  "check_post ev e = (case e of None \<Rightarrow> tret True | Some x \<Rightarrow> check_not_error ev x)"

definition check_expr_stmt :: "(node \<Rightarrow> night_type tc) \<Rightarrow> node \<Rightarrow> bool tc" where
  "check_expr_stmt ev e = tbind (ev e) (\<lambda>_. tget c_had_error (\<lambda>b. tret (\<not> b)))"

text \<open>\<open>simple\<close> is a statement that only looks at expressions in the current scope.\<close>

definition simple :: "nat \<Rightarrow> nat \<Rightarrow> ((node \<Rightarrow> night_type tc) \<Rightarrow> bool tc) \<Rightarrow> stmt_tc" where
  "simple n ud f sc = leave_scope (f (check_expr n ud (Some sc))) sc"

function (sequential) check_stmt :: "nat \<Rightarrow> nat \<Rightarrow> night_type \<Rightarrow> node \<Rightarrow> stmt_tc"
  and check_stmt_opt :: "nat \<Rightarrow> nat \<Rightarrow> night_type \<Rightarrow> node option \<Rightarrow> stmt_tc"
  and check_else :: "nat \<Rightarrow> nat \<Rightarrow> night_type \<Rightarrow> node option \<Rightarrow> stmt_tc"
  and check_block :: "nat \<Rightarrow> nat \<Rightarrow> night_type \<Rightarrow> node \<Rightarrow> stmt_tc"
  and check_stmts :: "nat \<Rightarrow> nat \<Rightarrow> night_type \<Rightarrow> node list \<Rightarrow> stmt_tc" where
  "check_stmt n ud ret (Node l c x) =
     (case x of
        NODE_LET s ty v \<Rightarrow> \<lambda>sc.
          check_local (check_expr n ud (Some sc)) (Node l c x) s True
            (''cannot infer type for '' @ in_quotes s @ '' from null'') ty v sc
      | NODE_CONST s ty v \<Rightarrow> \<lambda>sc.
          check_local (check_expr n ud (Some sc)) (Node l c x) s False
            ''cannot infer const type from null'' ty (Some v) sc
      | NODE_RETURN v \<Rightarrow> simple n ud (\<lambda>ev. check_return ev (Node l c x) ret v)
      | NODE_IF e th el \<Rightarrow>
          then_do (simple n ud (\<lambda>ev. check_condition ev (Node l c x) ''if'' e))
            (then_do (in_child (check_block n ud ret th)) (in_child (check_else n ud ret el)))
      | NODE_WHILE e b \<Rightarrow>
          then_do (simple n ud (\<lambda>ev. check_condition ev (Node l c x) ''while'' e))
            (in_child (check_block n ud ret b))
      | NODE_LOOP b \<Rightarrow> in_child (check_block n ud ret b)
      | NODE_FOR i e p b \<Rightarrow>
          in_child
            (then_do (check_stmt_opt n ud ret i)
              (then_do (simple n ud (\<lambda>ev. check_opt_condition ev (Node l c x) e))
                (then_do (simple n ud (\<lambda>ev. check_post ev p))
                  (in_child (check_block n ud ret b)))))
      | NODE_UNSAFE b \<Rightarrow> in_child (check_block n (ud + 1) ret b)
      | NODE_BREAK \<Rightarrow> leave_scope (tret True)
      | NODE_CONTINUE \<Rightarrow> leave_scope (tret True)
      | NODE_DEFER e \<Rightarrow> simple n ud (\<lambda>ev. check_not_error ev e)
      | NODE_EXPR_STMT e \<Rightarrow> simple n ud (\<lambda>ev. check_expr_stmt ev e)
      | NODE_BLOCK ss \<Rightarrow> in_child (check_stmts n ud ret ss)
      | _ \<Rightarrow> leave_scope (complain (Node l c x) ''unsupported statement kind'' False))"
| "check_stmt_opt n ud ret None = leave_scope (tret True)"
| "check_stmt_opt n ud ret (Some s) = check_stmt n ud ret s"
| "check_else n ud ret None = leave_scope (tret True)"
| "check_else n ud ret (Some (Node l c x)) =
     (case x of NODE_BLOCK ss \<Rightarrow> check_stmts n ud ret ss | _ \<Rightarrow> check_stmt n ud ret (Node l c x))"
| "check_block n ud ret (Node l c x) =
     (case x of NODE_BLOCK ss \<Rightarrow> check_stmts n ud ret ss | _ \<Rightarrow> leave_scope (tret True))"
| "check_stmts n ud ret [] = leave_scope (tret True)"
| "check_stmts n ud ret (s # ss) = then_do (check_stmt n ud ret s) (check_stmts n ud ret ss)"
  by pat_completeness auto
termination
  by (relation "measure (\<lambda>x. case x of
       Inl (Inl (_, _, _, nd)) \<Rightarrow> size nd
     | Inl (Inr (_, _, _, nop)) \<Rightarrow> size_option size nop
     | Inr (Inl (_, _, _, nop)) \<Rightarrow> size_option size nop
     | Inr (Inr (Inl (_, _, _, nd))) \<Rightarrow> size nd
     | Inr (Inr (Inr (_, _, _, ns))) \<Rightarrow> size_list size ns)") simp_all

declare check_stmt.simps [simp del]

subsection \<open>Functions\<close>

definition tset :: "(checker \<Rightarrow> checker) \<Rightarrow> unit tc" where
  "tset f c = Inr ((), f c)"

definition set_package :: "string option \<Rightarrow> unit tc" where
  "set_package pkg = tset (\<lambda>c. c\<lparr>c_package := pkg\<rparr>)"

definition set_return_type :: "night_type option \<Rightarrow> unit tc" where
  "set_return_type t = tset (\<lambda>c. c\<lparr>c_return_type := t\<rparr>)"

definition function_bindings :: "semantic_model \<Rightarrow> (string \<times> binding) list" where
  "function_bindings sm =
     map (\<lambda>fn. (fn_name fn, bind_var (TYPE_FUNCTION fn) False))
       (model_functions sm @ model_extern_functions sm)"

primrec check_params :: "node list \<Rightarrow> tscope \<Rightarrow> tscope option tc" where
  "check_params [] sc = tret (Some sc)"
| "check_params (p # ps) sc =
     tbind (ensure_type_visible p (let_type p)) (\<lambda>ok.
     if \<not> ok then tret None
     else
       (case tscope_define sc (let_name p) (bind_var (type_from_ast (let_type p)) True) of
          None \<Rightarrow> tret None
        | Some sc' \<Rightarrow> check_params ps sc'))"

text \<open>The body, with the return type of the function in the checker.\<close>

definition check_body :: "nat \<Rightarrow> night_type \<Rightarrow> node \<Rightarrow> tscope \<Rightarrow> bool tc" where
  "check_body n ret fn sc =
     tget c_return_type (\<lambda>prev.
     tbind (set_return_type (Some ret)) (\<lambda>_.
     tbind (case fn_body fn of Some b \<Rightarrow> check_block n 0 ret b sc | None \<Rightarrow> tret (True, sc)) (\<lambda>(ok, _).
     tbind (set_return_type prev) (\<lambda>_.
     tret ok))))"

text \<open>
  Where a function is already defined C returns without restoring the package; the failed check ends
  the loop over the declarations.
\<close>

definition check_function :: "nat \<Rightarrow> node \<Rightarrow> bool tc" where
  "check_function n fn =
     tget c_package (\<lambda>prev.
     tbind (set_package (node_package_name fn)) (\<lambda>_.
     tbind (ensure_type_visible fn (fn_ret_type fn)) (\<lambda>visible.
     if \<not> visible then tbind (set_package prev) (\<lambda>_. tret False)
     else
       with_sema (\<lambda>sm. case define_all_by tscope_define (tscope_new None) (function_bindings sm) of
         Inl _ \<Rightarrow> tret False
       | Inr sc \<Rightarrow>
           tbind (check_params (fn_params fn) sc) (\<lambda>r. case r of
             None \<Rightarrow> tbind (set_package prev) (\<lambda>_. tret False)
           | Some sc' \<Rightarrow>
               tbind (check_body n (type_from_ast (fn_ret_type fn)) fn sc') (\<lambda>ok.
               tbind (set_package prev) (\<lambda>_.
               tget c_had_error (\<lambda>b. tret (ok \<and> \<not> b)))))))))"

subsection \<open>The driver\<close>

definition or_fail :: "bool tc \<Rightarrow> unit tc" where
  "or_fail m = tbind m (\<lambda>ok. if ok then tret () else tset (\<lambda>c. c\<lparr>c_had_error := True\<rparr>))"

primrec until_failed :: "('a \<Rightarrow> unit tc) \<Rightarrow> 'a list \<Rightarrow> unit tc" where
  "until_failed f [] = tret ()"
| "until_failed f (x # xs) =
     tget c_had_error (\<lambda>b. if b then tret () else tbind (f x) (\<lambda>_. until_failed f xs))"

definition checked_functions :: "node \<Rightarrow> node list" where
  "checked_functions decl =
     (case nas decl of
        NODE_FN_DECL _ _ _ tps _ _ _ _ \<Rightarrow> if tps \<noteq> [] then [] else [decl]
      | NODE_IMPL_DECL _ _ _ ms \<Rightarrow> ms
      | NODE_KERNEL_APP _ _ fns _ \<Rightarrow> fns
      | _ \<Rightarrow> [])"

definition check_decl :: "nat \<Rightarrow> node \<Rightarrow> unit tc" where
  "check_decl n decl = until_failed (\<lambda>fn. or_fail (check_function n fn)) (checked_functions decl)"

definition checker_init :: "node \<Rightarrow> semantic_model \<Rightarrow> string \<Rightarrow> checker" where
  "checker_init program sm src =
     \<lparr>c_source_name = src, c_sema = sm, c_program = program, c_return_type = None, c_package = None,
      c_had_error = False, c_printed = []\<rparr>"

text \<open>The result of \<^verbatim>\<open>typeck_check\<close> and the diagnostics that were printed.\<close>

definition typeck_check ::
  "nat \<Rightarrow> node \<Rightarrow> semantic_model \<Rightarrow> string \<Rightarrow> (tc_fault, bool \<times> diagnostic list) sum" where
  "typeck_check n program sm src =
     (case until_failed (check_decl n) (program_decls program) (checker_init program sm src) of
        Inl e \<Rightarrow> Inl e
      | Inr (_, c) \<Rightarrow> Inr (\<not> c_had_error c, c_printed c))"

end
