(* ===== verification/Typeck_Logic.thy ===== *)
theory Typeck_Logic
  imports Typeck_Stmt
begin

text \<open>
  One structural argument over all the checks of an expression, carried out once in the locale
  \<open>tc_simulation\<close> and used for four purposes: the checks only add diagnostics, a larger bound on the
  nesting of calls changes no answer, the checks return, and no buffer is overrun.
\<close>

text \<open>
  The expressions that the check of an expression may descend into directly; the arguments of
  constructors among the arguments of a call and the object of a called field are reached without
  their parent.
\<close>

definition call_args :: "node \<Rightarrow> node list" where
  "call_args e = (case nas e of NODE_CALL _ args \<Rightarrow> args | _ \<Rightarrow> [])"

definition field_object :: "node \<Rightarrow> node list" where
  "field_object e = (case nas e of NODE_FIELD x _ \<Rightarrow> [x] | _ \<Rightarrow> [])"

definition value_parts :: "node \<Rightarrow> node list" where
  "value_parts e = e # call_args e"

definition opt_list :: "'a option \<Rightarrow> 'a list" where
  "opt_list x = (case x of None \<Rightarrow> [] | Some y \<Rightarrow> [y])"

definition parts :: "node \<Rightarrow> node list" where
  "parts e =
     (case nas e of
        NODE_GROUP x \<Rightarrow> [x]
      | NODE_UNARY _ x \<Rightarrow> [x]
      | NODE_BINARY _ x y \<Rightarrow> [x, y]
      | NODE_ASSIGN x y _ \<Rightarrow> [x, y]
      | NODE_INDEX x i \<Rightarrow> [x, i]
      | NODE_SLICE x i j \<Rightarrow> x # opt_list i @ opt_list j
      | NODE_CALL f args \<Rightarrow> f # field_object f @ concat (map value_parts args)
      | NODE_CAST x _ \<Rightarrow> [x]
      | NODE_FIELD x _ \<Rightarrow> [x]
      | NODE_STRUCT_LIT _ inits \<Rightarrow> map snd inits
      | NODE_MATCH x arms \<Rightarrow> x # map (\<lambda>(_, _, v). v) arms
      | _ \<Rightarrow> [])"

definition patterns :: "node \<Rightarrow> string list" where
  "patterns e = (case nas e of NODE_MATCH _ arms \<Rightarrow> map fst arms | _ \<Rightarrow> [])"

named_theorems tc_rules \<open>rules of the simulations between checks, one per construct or function\<close>

subsection \<open>Simulations\<close>

text \<open>
  \<open>sim m m'\<close>: in the states of one program, \<open>m'\<close> answers as \<open>m\<close> does and \<open>m\<close> moves the state by a
  \<open>step\<close>. A fault of \<open>m\<close> must be \<open>harmless\<close> and shared by \<open>m'\<close>, or \<open>lenient\<close>, which leaves \<open>m'\<close> free.
\<close>

definition same_program :: "semantic_model \<Rightarrow> node list \<Rightarrow> checker \<Rightarrow> bool" where
  "same_program sm ds c \<longleftrightarrow> c_sema c = sm \<and> program_decls (c_program c) = ds"

locale tc_simulation =
  fixes sm :: semantic_model
    and ds :: "node list"
    and lenient :: "tc_fault \<Rightarrow> bool"
    and harmless :: "tc_fault \<Rightarrow> bool"
    and step :: "checker \<Rightarrow> checker \<Rightarrow> bool"
  assumes step_refl: "step c c"
    and step_trans: "step c c' \<Longrightarrow> step c' c'' \<Longrightarrow> step c c''"
    and step_error: "step c (c\<lparr>c_had_error := True, c_printed := c_printed c @ [d]\<rparr>)"
    and step_program: "step c c' \<Longrightarrow> same_program sm ds c \<Longrightarrow> same_program sm ds c'"
    and dangling: "lenient DanglingName \<or> harmless DanglingName"
begin

definition sim :: "'a tc \<Rightarrow> 'a tc \<Rightarrow> bool" where
  "sim m m' \<longleftrightarrow>
     (\<forall>c. same_program sm ds c \<longrightarrow>
        (case m c of
           Inl e \<Rightarrow> lenient e \<or> harmless e \<and> m' c = Inl e
         | Inr (x, c') \<Rightarrow> step c c' \<and> m' c = Inr (x, c')))"

text \<open>Patterns whose enum fits the buffer, unless overrunning it is tolerated.\<close>

definition fits :: "string \<Rightarrow> bool" where
  "fits pat \<longleftrightarrow>
     lenient NameOverrun \<or> harmless NameOverrun \<or>
     (case strchr pat (CHR ''.'') of None \<Rightarrow> True | Some i \<Rightarrow> i < 128)"

lemma sim_ret [tc_rules]: "sim (tret x) (tret x)"
  by (simp add: sim_def tret_def step_refl)

lemma sim_bind [tc_rules]:
  assumes "sim m m'" "\<And>x. sim (f x) (f' x)"
  shows "sim (tbind m f) (tbind m' f')"
  unfolding sim_def
proof (intro allI impI)
  fix c assume c: "same_program sm ds c"
  show "case tbind m f c of
      Inl e \<Rightarrow> lenient e \<or> harmless e \<and> tbind m' f' c = Inl e
    | Inr (x, c') \<Rightarrow> step c c' \<and> tbind m' f' c = Inr (x, c')"
  proof (cases "m c")
    case (Inl e)
    with assms(1) c show ?thesis by (auto simp: sim_def tbind_def)
  next
    case (Inr r)
    then obtain x c1 where m: "m c = Inr (x, c1)" by (cases r) auto
    with assms(1) c have s: "step c c1" "m' c = Inr (x, c1)" by (auto simp: sim_def)
    with c have "same_program sm ds c1" by (blast intro: step_program)
    with assms(2) [of x] have "case f x c1 of
        Inl e \<Rightarrow> lenient e \<or> harmless e \<and> f' x c1 = Inl e
      | Inr (y, c') \<Rightarrow> step c1 c' \<and> f' x c1 = Inr (y, c')"
      by (simp add: sim_def)
    with m s show ?thesis
      by (auto simp: tbind_def split: sum.splits intro: step_trans)
  qed
qed

lemma sim_get [tc_rules]: "(\<And>x. sim (f x) (f' x)) \<Longrightarrow> sim (tget sel f) (tget sel f')"
  unfolding sim_def tget_def by blast

lemma sim_sema [tc_rules]: "sim (f sm) (f' sm) \<Longrightarrow> sim (with_sema f) (with_sema f')"
  unfolding sim_def with_sema_def tget_def same_program_def by auto

lemma sim_decls [tc_rules]: "sim (f ds) (f' ds) \<Longrightarrow> sim (with_decls f) (with_decls f')"
  unfolding sim_def with_decls_def tget_def same_program_def by auto

lemma sim_error [tc_rules]: "sim (typeck_error l col msg) (typeck_error l col msg)"
  by (simp add: sim_def typeck_error_def step_error)

lemma sim_dangling [tc_rules]: "sim (tfail DanglingName) (tfail DanglingName)"
  using dangling by (auto simp: sim_def tfail_def)

lemma sim_split_pattern: "fits pat \<Longrightarrow> sim (split_pattern pat) (split_pattern pat)"
  unfolding split_pattern_def fits_def
  by (cases "strchr pat (CHR ''.'')") (auto simp: sim_def tfail_def tret_def step_refl)

text \<open>The derived forms.\<close>

lemma sim_complain [tc_rules]: "sim (complain at msg x) (complain at msg x)"
  unfolding complain_def by (intro tc_rules)

lemma sim_type_error [tc_rules]: "sim (type_error at msg) (type_error at msg)"
  unfolding type_error_def by (intro tc_rules)

lemma sim_conclude [tc_rules]: "sim (conclude at v) (conclude at v)"
  unfolding conclude_def by (cases v) (auto intro: tc_rules)

lemma sim_if_ok [tc_rules]: "sim m m' \<Longrightarrow> sim t t' \<Longrightarrow> sim (if_ok m t) (if_ok m' t')"
  unfolding if_ok_def by (auto intro!: tc_rules)

lemma sim_if_some [tc_rules]:
  "sim m m' \<Longrightarrow> (\<And>x. sim (f x) (f' x)) \<Longrightarrow> sim (if_some m f) (if_some m' f')"
  unfolding if_some_def by (auto intro!: tc_rules split: option.split)

lemma sim_if [tc_rules]:
  "(b \<Longrightarrow> sim m m') \<Longrightarrow> (\<not> b \<Longrightarrow> sim n n') \<Longrightarrow> sim (if b then m else n) (if b then m' else n')"
  by simp

lemma sim_option [tc_rules]:
  "(x = None \<Longrightarrow> sim m m') \<Longrightarrow> (\<And>y. x = Some y \<Longrightarrow> sim (f y) (f' y)) \<Longrightarrow>
     sim (case x of None \<Rightarrow> m | Some y \<Rightarrow> f y) (case x of None \<Rightarrow> m' | Some y \<Rightarrow> f' y)"
  by (cases x) auto

lemma sim_prod [tc_rules]:
  "(\<And>x y. p = (x, y) \<Longrightarrow> sim (f x y) (f' x y)) \<Longrightarrow>
     sim (case p of (x, y) \<Rightarrow> f x y) (case p of (x, y) \<Rightarrow> f' x y)"
  by (cases p) auto

subsection \<open>Visibility and type rules\<close>

lemma sim_require_decl [tc_rules]: "sim (require_decl_visible d at s) (require_decl_visible d at s)"
  unfolding require_decl_visible_def by (intro tc_rules)

lemma sim_require_type [tc_rules]: "sim (require_type_visible at s) (require_type_visible at s)"
  unfolding require_type_visible_def by (intro tc_rules)

lemma sim_resolved_visible [tc_rules]:
  "sim (ensure_resolved_type_visible at t) (ensure_resolved_type_visible at t)"
  by (induction t) (subst (1 2) ensure_resolved_type_visible.simps, simp add: tc_rules)+

lemma sim_node_visible [tc_rules]: "sim (ensure_node_visible at ty) (ensure_node_visible at ty)"
  by (induction at ty rule: ensure_node_visible.induct) (auto intro!: tc_rules split: node_as.split)

lemma sim_type_visible [tc_rules]: "sim (ensure_type_visible at ty) (ensure_type_visible at ty)"
  unfolding ensure_type_visible_def by (intro tc_rules)

lemma sim_call_result [tc_rules]: "sim (call_result at fn) (call_result at fn)"
  unfolding call_result_def Let_def by (intro tc_rules)

lemma sim_check_receiver [tc_rules]: "sim (check_receiver t u nd) (check_receiver t u nd)"
  unfolding check_receiver_def by (intro tc_rules)

subsection \<open>Arguments and calls\<close>

lemma sim_payload [tc_rules]:
  assumes "\<And>a. a \<in> set args \<Longrightarrow> sim (ev a) (ev' a)"
  shows "sim (check_payload ev at ctor t p args) (check_payload ev' at ctor t p args)"
  using assms unfolding check_payload_def by (auto intro!: tc_rules split: list.split option.split)

lemma sim_value [tc_rules]:
  assumes "\<And>x. x \<in> set (value_parts e) \<Longrightarrow> sim (ev x) (ev' x)"
  shows "sim (check_value ev t e) (check_value ev' t e)"
proof -
  have "sim (ev e) (ev' e)" "\<And>a. a \<in> set (call_args e) \<Longrightarrow> sim (ev a) (ev' a)"
    using assms by (auto simp: value_parts_def)
  then show ?thesis
    unfolding check_value_def check_contextual_constructor_def
    by (cases "nas e")
      (auto intro!: tc_rules simp: call_args_def is_option_constructor_expr_def
        is_result_constructor_expr_def split: option.split)
qed

lemma sim_ignored [tc_rules]:
  "(\<And>e. e \<in> set es \<Longrightarrow> sim (ev e) (ev' e)) \<Longrightarrow> sim (check_ignored ev es) (check_ignored ev' es)"
  by (induction es) (auto intro!: tc_rules)

lemma sim_arguments [tc_rules]:
  "(\<And>t a. a \<in> set args \<Longrightarrow> sim (val t a) (val' t a)) \<Longrightarrow>
     sim (check_arguments val what ps args) (check_arguments val' what ps args)"
  by (induction val what ps args rule: check_arguments.induct) (auto simp: Let_def intro!: tc_rules)

lemma sim_call_arguments [tc_rules]:
  assumes "\<And>a x. a \<in> set args \<Longrightarrow> x \<in> set (value_parts a) \<Longrightarrow> sim (ev x) (ev' x)"
  shows "sim (check_call_arguments ev at ps args) (check_call_arguments ev' at ps args)"
  unfolding check_call_arguments_def using assms by (intro tc_rules)

lemma sim_sum [tc_rules]:
  "(\<And>y. x = Inl y \<Longrightarrow> sim (f y) (f' y)) \<Longrightarrow> (\<And>y. x = Inr y \<Longrightarrow> sim (g y) (g' y)) \<Longrightarrow>
     sim (case x of Inl y \<Rightarrow> f y | Inr y \<Rightarrow> g y) (case x of Inl y \<Rightarrow> f' y | Inr y \<Rightarrow> g' y)"
  by (cases x) auto

text \<open>\<open>calls ev ev' callee args\<close>: the two evaluations agree on all that a call may look at.\<close>

definition calls :: "(node \<Rightarrow> night_type tc) \<Rightarrow> (node \<Rightarrow> night_type tc) \<Rightarrow> node \<Rightarrow> node list \<Rightarrow> bool" where
  "calls ev ev' callee args \<longleftrightarrow>
     (\<forall>x \<in> set (callee # field_object callee @ concat (map value_parts args)). sim (ev x) (ev' x))"

lemma callsD:
  assumes "calls ev ev' callee args"
  shows "sim (ev callee) (ev' callee)"
    and "a \<in> set args \<Longrightarrow> x \<in> set (value_parts a) \<Longrightarrow> sim (ev x) (ev' x)"
    and "a \<in> set args \<Longrightarrow> sim (ev a) (ev' a)"
    and "nas callee = NODE_FIELD obj f \<Longrightarrow> sim (ev obj) (ev' obj)"
  using assms by (auto simp: calls_def value_parts_def field_object_def)

lemma sim_plain_call [tc_rules]:
  assumes "calls ev ev' callee args"
  shows "sim (check_plain_call ev at callee args) (check_plain_call ev' at callee args)"
  unfolding check_plain_call_def using callsD [OF assms]
  by (auto intro!: tc_rules split: night_type.split)

lemma sim_ident_call [tc_rules]:
  assumes "calls ev ev' callee args"
  shows "sim (check_ident_call ev at s callee args) (check_ident_call ev' at s callee args)"
  unfolding check_ident_call_def using callsD(3) [OF assms] assms by (intro tc_rules)

lemma sim_string_from [tc_rules]:
  assumes "calls ev ev' callee args"
  shows "sim (check_string_from ev at args) (check_string_from ev' at args)"
  unfolding check_string_from_def using callsD(3) [OF assms]
  by (auto intro!: tc_rules split: list.split)

lemma sim_enum_constructor [tc_rules]:
  assumes "calls ev ev' callee args"
  shows "sim (check_enum_constructor ev at d s v args) (check_enum_constructor ev' at d s v args)"
  unfolding check_enum_constructor_def Let_def using callsD(3) [OF assms] by (intro tc_rules)

lemma sim_type_method [tc_rules]:
  assumes "calls ev ev' callee args"
  shows "sim (check_type_method ev at m f args) (check_type_method ev' at m f args)"
  unfolding check_type_method_def using callsD(2) [OF assms] by (intro tc_rules)

lemma sim_owner_method [tc_rules]:
  assumes "calls ev ev' callee args"
  shows "sim (check_owner_method ev at callee obj f args t owner m)
             (check_owner_method ev' at callee obj f args t owner m)"
  unfolding check_owner_method_def using callsD(2) [OF assms] by (intro tc_rules)

lemma sim_string_method:
  "string_method at obj f n t = Some m \<Longrightarrow> sim m m"
  unfolding string_method_def by (auto split: if_splits intro!: tc_rules)

lemma sim_method_call [tc_rules]:
  assumes "calls ev ev' callee args" "nas callee = NODE_FIELD obj f"
  shows "sim (check_method_call ev at callee obj f args) (check_method_call ev' at callee obj f args)"
  unfolding check_method_call_def using callsD(4) [OF assms] assms(1)
  by (intro tc_rules) (auto intro: sim_string_method)

lemma sim_field_call [tc_rules]:
  assumes "calls ev ev' callee args" "nas callee = NODE_FIELD obj f"
  shows "sim (check_field_call ev at callee obj f args) (check_field_call ev' at callee obj f args)"
  unfolding check_field_call_def using callsD(3) [OF assms(1)] assms by (intro tc_rules)

lemma sim_generic_call [tc_rules]:
  assumes "calls ev ev' callee args"
  shows "sim (check_generic_call ev at callee obj arg args) (check_generic_call ev' at callee obj arg args)"
  unfolding check_generic_call_def using callsD(3) [OF assms] assms by (intro tc_rules)

lemma sim_call [tc_rules]:
  assumes "calls ev ev' callee args"
  shows "sim (check_call ev at callee args) (check_call ev' at callee args)"
  using assms unfolding check_call_def by (auto intro!: tc_rules split: node_as.split)

subsection \<open>Fields, literals and matches\<close>

lemma sim_declared_field [tc_rules]:
  "sim (check_declared_field ud at o' f d) (check_declared_field ud at o' f d)"
  unfolding check_declared_field_def Let_def substituted_type_def by (intro tc_rules)

lemma sim_no_field [tc_rules]: "sim (no_field_access at f t) (no_field_access at f t)"
  unfolding no_field_access_def by (intro tc_rules)

lemma sim_value_field [tc_rules]:
  "sim (ev obj) (ev' obj) \<Longrightarrow> sim (check_value_field ev ud at obj f) (check_value_field ev' ud at obj f)"
  unfolding check_value_field_def by (intro tc_rules)

lemma sim_field [tc_rules]:
  "sim (ev obj) (ev' obj) \<Longrightarrow> sim (check_field ev ud at obj f) (check_field ev' ud at obj f)"
  unfolding check_field_def by (intro tc_rules)

lemma sim_inits [tc_rules]:
  "(\<And>e. e \<in> snd ` set inits \<Longrightarrow> sim (ev e) (ev' e)) \<Longrightarrow>
     sim (check_inits ev at s d inits) (check_inits ev' at s d inits)"
  by (induction ev at s d inits rule: check_inits.induct) (auto simp: Let_def intro!: tc_rules)

lemma sim_struct_lit [tc_rules]:
  "(\<And>e. e \<in> snd ` set inits \<Longrightarrow> sim (ev e) (ev' e)) \<Longrightarrow>
     sim (check_struct_lit ev at s inits) (check_struct_lit ev' at s inits)"
  unfolding check_struct_lit_def by (intro tc_rules) auto

lemma sim_check_pattern [tc_rules]:
  "fits pat \<Longrightarrow> sim (check_pattern at t ms pat) (check_pattern at t ms pat)"
  unfolding check_pattern_def check_subject_pattern_def Let_def
  by (intro tc_rules sim_split_pattern)

lemma sim_binding_types [tc_rules]:
  "fits pat \<Longrightarrow> sim (check_binding_types at t pat bs) (check_binding_types at t pat bs)"
  unfolding check_binding_types_def get_match_binding_types_def
  by (intro tc_rules sim_split_pattern)

lemma sim_join_arm [tc_rules]: "sim (join_arm v ms u) (join_arm v ms u)"
  unfolding join_arm_def by (intro tc_rules)

lemma sim_arms [tc_rules]:
  assumes "\<And>sc p bs v. (p, bs, v) \<in> set arms \<Longrightarrow> fits p \<and> sim (rec sc v) (rec' sc v)"
  shows "sim (check_arms rec sc at t ms arms) (check_arms rec' sc at t ms arms)"
  using assms
proof (induction arms arbitrary: ms)
  case (Cons arm arms)
  have "sim (check_arm rec sc at t ms arm) (check_arm rec' sc at t ms arm)" for ms
    unfolding check_arm_def by (intro tc_rules) (use Cons.prems in auto)
  moreover have "sim (check_arms rec sc at t ms arms) (check_arms rec' sc at t ms arms)" for ms
    by (rule Cons.IH, rule Cons.prems, erule list.set_intros)
  ultimately show ?case by (simp add: sim_if_some)
qed (auto intro: tc_rules)

lemma sim_match [tc_rules]:
  assumes "sim (rec sc x) (rec' sc x)"
    and "\<And>sc p bs v. (p, bs, v) \<in> set arms \<Longrightarrow> fits p \<and> sim (rec sc v) (rec' sc v)"
  shows "sim (check_match_expr rec sc at x arms) (check_match_expr rec' sc at x arms)"
  unfolding check_match_expr_def by (intro tc_rules assms)

subsection \<open>Expressions\<close>

lemma sim_global [tc_rules]:
  "(\<And>v. find_global_const ds s = Some (None, v) \<Longrightarrow> sim (rec None v) (rec' None v)) \<Longrightarrow>
     sim (check_global rec at s) (check_global rec' at s)"
  unfolding check_global_def by (intro tc_rules) (auto split: option.split intro!: tc_rules)

lemma sim_ident [tc_rules]:
  "(\<And>v. find_global_const ds s = Some (None, v) \<Longrightarrow> sim (rec None v) (rec' None v)) \<Longrightarrow>
     sim (check_ident rec sc at s) (check_ident rec' sc at s)"
  unfolding check_ident_def by (intro tc_rules)

lemma sim_try [tc_rules]:
  "sim (ev x) (ev' x) \<Longrightarrow> sim (check_try_expr ev at x) (check_try_expr ev' at x)"
  unfolding check_try_expr_def by (intro tc_rules)

lemma sim_assign [tc_rules]:
  "sim (ev x) (ev' x) \<Longrightarrow> sim (ev y) (ev' y) \<Longrightarrow>
     sim (check_assign ev sc at x y cmp) (check_assign ev' sc at x y cmp)"
  unfolding check_assign_def by (intro tc_rules)

lemma sim_opt [tc_rules]:
  "(\<And>x. e = Some x \<Longrightarrow> sim (ev x) (ev' x)) \<Longrightarrow> sim (check_opt ev e) (check_opt ev' e)"
  unfolding check_opt_def by (intro tc_rules)

theorem sim_node:
  assumes "\<And>sc x. x \<in> set (parts e) \<Longrightarrow> sim (rec sc x) (rec' sc x)"
    and "\<And>s v. nas e = NODE_IDENT s \<Longrightarrow> find_global_const ds s = Some (None, v) \<Longrightarrow>
           sim (rec None v) (rec' None v)"
    and "\<And>p. p \<in> set (patterns e) \<Longrightarrow> fits p"
  shows "sim (check_node rec ud sc e) (check_node rec' ud sc e)"
proof -
  have "sim (rec sc x) (rec' sc x)" if "x \<in> set (parts e)" for sc x
    by (rule assms(1) [OF that])
  note rules = this assms(2,3) tc_rules
  show ?thesis
  proof (cases "nas e")
    case (NODE_IDENT s)
    then show ?thesis by (simp add: check_node_def rules)
  next
    case (NODE_UNARY op x)
    then show ?thesis by (auto simp: check_node_def Let_def parts_def intro!: rules)
  next
    case (NODE_SLICE x i j)
    then show ?thesis
      unfolding check_node_def Let_def by (simp, intro rules) (auto simp: parts_def opt_list_def)
  next
    case (NODE_CALL f args)
    then have "calls (rec sc) (rec' sc) f args"
      using assms(1) by (auto simp: calls_def parts_def)
    with NODE_CALL show ?thesis by (simp add: check_node_def tc_rules)
  next
    case (NODE_STRUCT_LIT s inits)
    then show ?thesis
      unfolding check_node_def Let_def by (simp, intro rules) (auto simp: parts_def)
  next
    case (NODE_MATCH x arms)
    then have "fits p \<and> sim (rec sc v) (rec' sc v)" if "(p, bs, v) \<in> set arms" for sc p bs v
      using that by (intro conjI rules) (force simp: parts_def patterns_def)+
    with NODE_MATCH show ?thesis
      by (simp add: check_node_def) (intro sim_match, auto intro!: rules simp: parts_def)
  qed (simp_all add: check_node_def Let_def parts_def rules)
qed

end

end
