(* ===== verification/Typeck_Runs.thy ===== *)
theory Typeck_Runs
  imports Typeck_Logic
begin

text \<open>
  The simulations extended to statements, functions and the driver, and what their instances say:
  diagnostics are only added, a larger bound changes no answer.
\<close>

subsection \<open>Statements\<close>

text \<open>The expressions whose checks the check of a statement starts.\<close>

fun stmt_exprs :: "node \<Rightarrow> node list" where
  "stmt_exprs (Node l c x) =
     (case x of
        NODE_LET _ _ v \<Rightarrow> (case v of None \<Rightarrow> [] | Some e \<Rightarrow> value_parts e)
      | NODE_CONST _ _ v \<Rightarrow> value_parts v
      | NODE_RETURN v \<Rightarrow> (case v of None \<Rightarrow> [] | Some e \<Rightarrow> value_parts e)
      | NODE_IF e th el \<Rightarrow>
          e # stmt_exprs th @ (case el of None \<Rightarrow> [] | Some s \<Rightarrow> stmt_exprs s)
      | NODE_WHILE e b \<Rightarrow> e # stmt_exprs b
      | NODE_LOOP b \<Rightarrow> stmt_exprs b
      | NODE_UNSAFE b \<Rightarrow> stmt_exprs b
      | NODE_FOR i e p b \<Rightarrow>
          (case i of None \<Rightarrow> [] | Some s \<Rightarrow> stmt_exprs s) @ opt_list e @ opt_list p @ stmt_exprs b
      | NODE_DEFER e \<Rightarrow> [e]
      | NODE_EXPR_STMT e \<Rightarrow> [e]
      | NODE_BLOCK ss \<Rightarrow> concat (map stmt_exprs ss)
      | _ \<Rightarrow> [])"

declare stmt_exprs.simps [simp del]

context tc_simulation
begin

definition evals :: "nat \<Rightarrow> nat \<Rightarrow> node list \<Rightarrow> bool" where
  "evals n m es \<longleftrightarrow> (\<forall>e \<in> set es. \<forall>ud sc. sim (check_expr n ud sc e) (check_expr m ud sc e))"

lemma evalsD: "evals n m es \<Longrightarrow> e \<in> set es \<Longrightarrow> sim (check_expr n ud sc e) (check_expr m ud sc e)"
  by (simp add: evals_def)

lemma sim_leave_scope [tc_rules]: "sim m m' \<Longrightarrow> sim (leave_scope m sc) (leave_scope m' sc)"
  unfolding leave_scope_def by (intro tc_rules)

lemma sim_then_do [tc_rules]:
  "sim (f sc) (f' sc) \<Longrightarrow> (\<And>sc. sim (g sc) (g' sc)) \<Longrightarrow> sim (then_do f g sc) (then_do f' g' sc)"
  unfolding then_do_def by (intro tc_rules)

lemma sim_in_child [tc_rules]: "(\<And>sc. sim (f sc) (f' sc)) \<Longrightarrow> sim (in_child f sc) (in_child f' sc)"
  unfolding in_child_def by (intro tc_rules)

lemma sim_declare_var [tc_rules]: "sim (declare_var at s mt t sc) (declare_var at s mt t sc)"
  unfolding declare_var_def by (intro tc_rules)

lemma sim_settle_type [tc_rules]: "sim (settle_type at s msg d a) (settle_type at s msg d a)"
  unfolding settle_type_def by (intro tc_rules)

lemma sim_initializer [tc_rules]:
  "(\<And>e x. v = Some e \<Longrightarrow> x \<in> set (value_parts e) \<Longrightarrow> sim (ev x) (ev' x)) \<Longrightarrow>
     sim (check_initializer ev d v) (check_initializer ev' d v)"
  unfolding check_initializer_def by (intro tc_rules) (auto simp: value_parts_def)

lemma sim_local [tc_rules]:
  "(\<And>e x. v = Some e \<Longrightarrow> x \<in> set (value_parts e) \<Longrightarrow> sim (ev x) (ev' x)) \<Longrightarrow>
     sim (check_local ev at s mt msg ty v sc) (check_local ev' at s mt msg ty v sc)"
  unfolding check_local_def Let_def by (intro tc_rules)

lemma sim_return [tc_rules]:
  "(\<And>e x. v = Some e \<Longrightarrow> x \<in> set (value_parts e) \<Longrightarrow> sim (ev x) (ev' x)) \<Longrightarrow>
     sim (check_return ev at t v) (check_return ev' at t v)"
  unfolding check_return_def by (intro tc_rules)

lemma sim_condition [tc_rules]:
  "sim (ev e) (ev' e) \<Longrightarrow> sim (check_condition ev at what e) (check_condition ev' at what e)"
  unfolding check_condition_def by (intro tc_rules)

lemma sim_opt_condition [tc_rules]:
  "(\<And>x. e = Some x \<Longrightarrow> sim (ev x) (ev' x)) \<Longrightarrow>
     sim (check_opt_condition ev at e) (check_opt_condition ev' at e)"
  unfolding check_opt_condition_def by (intro tc_rules)

lemma sim_not_error [tc_rules]: "sim (ev e) (ev' e) \<Longrightarrow> sim (check_not_error ev e) (check_not_error ev' e)"
  unfolding check_not_error_def by (intro tc_rules)

lemma sim_post [tc_rules]:
  "(\<And>x. e = Some x \<Longrightarrow> sim (ev x) (ev' x)) \<Longrightarrow> sim (check_post ev e) (check_post ev' e)"
  unfolding check_post_def by (intro tc_rules)

lemma sim_expr_stmt [tc_rules]: "sim (ev e) (ev' e) \<Longrightarrow> sim (check_expr_stmt ev e) (check_expr_stmt ev' e)"
  unfolding check_expr_stmt_def by (intro tc_rules)

lemma sim_simple [tc_rules]:
  "sim (f (check_expr n ud (Some sc))) (f' (check_expr m ud (Some sc))) \<Longrightarrow>
     sim (simple n ud f sc) (simple m ud f' sc)"
  unfolding simple_def by (intro tc_rules)

lemma sim_stmt:
  shows "evals n m (stmt_exprs s) \<Longrightarrow> sim (check_stmt n ud ret s sc) (check_stmt m ud ret s sc)"
    and "(\<And>x. so = Some x \<Longrightarrow> evals n m (stmt_exprs x)) \<Longrightarrow>
           sim (check_stmt_opt n ud ret so sc) (check_stmt_opt m ud ret so sc)"
    and "(\<And>x. so = Some x \<Longrightarrow> evals n m (stmt_exprs x)) \<Longrightarrow>
           sim (check_else n ud ret so sc) (check_else m ud ret so sc)"
    and "evals n m (stmt_exprs s) \<Longrightarrow> sim (check_block n ud ret s sc) (check_block m ud ret s sc)"
    and "evals n m (concat (map stmt_exprs ss)) \<Longrightarrow>
           sim (check_stmts n ud ret ss sc) (check_stmts m ud ret ss sc)"
proof (induction n ud ret s and n ud ret so and n ud ret so and n ud ret s and n ud ret ss
    arbitrary: sc and sc and sc and sc and sc rule: check_stmt_check_stmt_opt_check_else_check_block_check_stmts.induct)
  case (1 n ud ret l c x)
  then show ?case
    by (cases x)
      (auto simp: check_stmt.simps stmt_exprs.simps evals_def opt_list_def ball_Un split: option.splits
        intro!: tc_rules)
qed (auto simp: stmt_exprs.simps evals_def ball_Un intro!: tc_rules split: node_as.splits)

end

subsection \<open>Functions and the driver\<close>

text \<open>The functions also move the package and the return type, and mark the run as failed.\<close>

locale tc_driver = tc_simulation +
  assumes step_package: "step c (c\<lparr>c_package := p\<rparr>)"
    and step_return_type: "step c (c\<lparr>c_return_type := t\<rparr>)"
    and step_failed: "step c (c\<lparr>c_had_error := True\<rparr>)"
begin

lemma sim_set_package [tc_rules]: "sim (set_package p) (set_package p)"
  by (simp add: sim_def set_package_def tset_def step_package)

lemma sim_set_return_type [tc_rules]: "sim (set_return_type t) (set_return_type t)"
  by (simp add: sim_def set_return_type_def tset_def step_return_type)

lemma sim_or_fail [tc_rules]: "sim m m' \<Longrightarrow> sim (or_fail m) (or_fail m')"
proof -
  have "sim (tset (\<lambda>c. c\<lparr>c_had_error := True\<rparr>)) (tset (\<lambda>c. c\<lparr>c_had_error := True\<rparr>))"
    by (simp add: sim_def tset_def step_failed)
  then show "sim m m' \<Longrightarrow> sim (or_fail m) (or_fail m')"
    unfolding or_fail_def by (intro tc_rules)
qed

lemma sim_params [tc_rules]: "sim (check_params ps sc) (check_params ps sc)"
  by (induction ps arbitrary: sc) (auto intro!: tc_rules)

definition fn_exprs :: "node \<Rightarrow> node list" where
  "fn_exprs fn = (case fn_body fn of None \<Rightarrow> [] | Some b \<Rightarrow> stmt_exprs b)"

lemma sim_body [tc_rules]:
  "evals n m (fn_exprs fn) \<Longrightarrow> sim (check_body n ret fn sc) (check_body m ret fn sc)"
  unfolding check_body_def fn_exprs_def by (intro tc_rules) (auto intro: sim_stmt)

lemma sim_function [tc_rules]:
  "evals n m (fn_exprs fn) \<Longrightarrow> sim (check_function n fn) (check_function m fn)"
  unfolding check_function_def by (intro tc_rules)

lemma sim_until_failed [tc_rules]:
  "(\<And>x. x \<in> set xs \<Longrightarrow> sim (f x) (f' x)) \<Longrightarrow> sim (until_failed f xs) (until_failed f' xs)"
  by (induction xs) (auto intro!: tc_rules)

theorem sim_program:
  assumes "\<And>d fn. d \<in> set decls \<Longrightarrow> fn \<in> set (checked_functions d) \<Longrightarrow> evals n m (fn_exprs fn)"
  shows "sim (until_failed (check_decl n) decls) (until_failed (check_decl m) decls)"
  unfolding check_decl_def using assms by (intro tc_rules)

end

subsection \<open>Instances\<close>

text \<open>
  \<open>adds\<close>: all a check of an expression or a statement does to the state is to append diagnostics and
  to set \<^verbatim>\<open>had_error\<close> with the first. \<open>evolves\<close>: what a check of a function may do.
\<close>

definition adds :: "checker \<Rightarrow> checker \<Rightarrow> bool" where
  "adds c c' \<longleftrightarrow>
     (\<exists>d. c' = c\<lparr>c_had_error := c_had_error c \<or> d \<noteq> [], c_printed := c_printed c @ d\<rparr>)"

definition evolves :: "checker \<Rightarrow> checker \<Rightarrow> bool" where
  "evolves c c' \<longleftrightarrow>
     c_sema c' = c_sema c \<and> c_program c' = c_program c \<and> c_source_name c' = c_source_name c \<and>
     (\<exists>d. c_printed c' = c_printed c @ d \<and> (c_had_error c \<or> d \<noteq> [] \<longrightarrow> c_had_error c'))"

lemma adds_refl: "adds c c"
  by (auto simp: adds_def intro: exI [of _ "[]"])

lemma adds_trans: "adds c c' \<Longrightarrow> adds c' c'' \<Longrightarrow> adds c c''"
  unfolding adds_def
proof (elim exE)
  fix d e
  assume c': "c' = c\<lparr>c_had_error := c_had_error c \<or> d \<noteq> [], c_printed := c_printed c @ d\<rparr>"
    and c'': "c'' = c'\<lparr>c_had_error := c_had_error c' \<or> e \<noteq> [], c_printed := c_printed c' @ e\<rparr>"
  show "\<exists>d. c'' = c\<lparr>c_had_error := c_had_error c \<or> d \<noteq> [], c_printed := c_printed c @ d\<rparr>"
    by (rule exI [of _ "d @ e"]) (simp add: c' c'')
qed

lemma adds_error: "adds c (c\<lparr>c_had_error := True, c_printed := c_printed c @ [d]\<rparr>)"
  unfolding adds_def by (rule exI [of _ "[d]"]) simp

lemma adds_program: "adds c c' \<Longrightarrow> same_program sm ds c \<Longrightarrow> same_program sm ds c'"
  by (auto simp: adds_def same_program_def)

lemma evolves_refl: "evolves c c"
  by (simp add: evolves_def)

lemma evolves_trans: "evolves c c' \<Longrightarrow> evolves c' c'' \<Longrightarrow> evolves c c''"
  by (auto simp: evolves_def)

text \<open>
  \<open>answers\<close> compares a check with the same check under a larger bound; \<open>drives\<close> does so for whole
  functions.
\<close>

interpretation answers: tc_simulation sm ds "\<lambda>e. e = NoReturn" "\<lambda>_. True" adds for sm ds
  by unfold_locales (blast intro: adds_refl adds_trans adds_error adds_program | simp)+

interpretation drives: tc_driver sm ds "\<lambda>e. e = NoReturn" "\<lambda>_. True" evolves for sm ds
  by unfold_locales (auto intro: evolves_refl evolves_trans simp: evolves_def same_program_def)

end
