(* ===== verification/Typeck_Total.thy ===== *)
theory Typeck_Total
  imports Typeck_Runs
begin

text \<open>
  When the type checker returns. The recursion of \<^verbatim>\<open>check_expr\<close> follows the syntax, except that a
  name of an untyped global constant is replaced by the value of the constant. The check of a
  program returns if these constants do not refer to each other in a circle, and a bound on the
  nesting of calls is given; a constant that names itself is checked for ever.
\<close>

subsection \<open>A larger bound changes no answer\<close>

lemma answers_mono: "n \<le> m \<Longrightarrow> answers.sim sm ds (check_expr n ud sc e) (check_expr m ud sc e)"
proof (induction n arbitrary: m sc e)
  case (Suc n)
  then obtain k where m: "m = Suc k" "n \<le> k"
    by (cases m) auto
  with Suc.IH have "answers.sim sm ds (check_expr n ud sc e) (check_expr k ud sc e)" for sc e
    by blast
  then have "answers.sim sm ds (check_node (check_expr n ud) ud sc e) (check_node (check_expr k ud) ud sc e)"
    by (intro answers.sim_node) (auto simp: answers.fits_def)
  with m show ?case by simp
qed (simp add: answers.sim_def tfail_def)

lemma answers_evals: "n \<le> m \<Longrightarrow> answers.evals sm ds n m es"
  by (simp add: answers.evals_def answers_mono)

lemma same_program_self: "same_program (c_sema c) (program_decls (c_program c)) c"
  by (simp add: same_program_def)

lemma answers_Inr:
  assumes "\<And>sm ds. answers.sim sm ds m m'" "m c = Inr (x, c')"
  shows "adds c c'" "m' c = Inr (x, c')"
  using assms(1) [of "c_sema c" "program_decls (c_program c)"] assms(2) same_program_self [of c]
  by (auto simp: answers.sim_def dest!: spec [of _ c])

lemma check_expr_mono:
  assumes "check_expr n ud sc e c = Inr r" "n \<le> m"
  shows "check_expr m ud sc e c = Inr r"
  using assms answers_Inr(2) [OF answers_mono] by (cases r) blast

lemma check_stmts_mono:
  assumes "check_stmts n ud ret ss sc c = Inr r" "n \<le> m"
  shows "check_stmts m ud ret ss sc c = Inr r"
  using assms answers_Inr(2) [OF answers.sim_stmt(5) [OF answers_evals]] by (cases r) blast

subsection \<open>Returning\<close>

text \<open>No fault but \<open>NoReturn\<close> is excluded.\<close>

interpretation returns: tc_simulation sm ds "\<lambda>_. False" "\<lambda>e. e \<noteq> NoReturn" adds for sm ds
  by unfold_locales (blast intro: adds_refl adds_trans adds_error adds_program | simp)+

interpretation finishes: tc_driver sm ds "\<lambda>_. False" "\<lambda>e. e \<noteq> NoReturn" evolves for sm ds
  by unfold_locales (auto intro: evolves_refl evolves_trans simp: evolves_def same_program_def)

lemma size_in_list: "x \<in> set xs \<Longrightarrow> f x \<le> size_list f xs"
  by (induction xs) auto

lemma size_nas: "size e = Suc (size (nas e))"
  by (cases e) simp

lemma value_parts_size: "x \<in> set (value_parts e) \<Longrightarrow> size x \<le> size e"
  using size_in_list [of x "call_args e" size]
  by (cases "nas e") (auto simp: value_parts_def call_args_def size_nas [of e])

lemma field_object_size: "x \<in> set (field_object e) \<Longrightarrow> size x < size e"
  by (cases "nas e") (auto simp: field_object_def size_nas [of e])

lemma parts_smaller: "x \<in> set (parts e) \<Longrightarrow> size x < size e"
proof (cases "nas e")
  case (NODE_CALL f args)
  assume "x \<in> set (parts e)"
  then consider "x = f" | "x \<in> set (field_object f)" | a where "a \<in> set args" "x \<in> set (value_parts a)"
    by (auto simp: parts_def NODE_CALL)
  then show ?thesis
    by cases (auto simp: size_nas [of e] NODE_CALL dest!: field_object_size value_parts_size
        dest: size_in_list [of _ _ size])
next
  case (NODE_STRUCT_LIT s inits)
  assume "x \<in> set (parts e)"
  then obtain f where "(f, x) \<in> set inits"
    by (auto simp: parts_def NODE_STRUCT_LIT)
  from size_in_list [OF this, of "size_prod (\<lambda>_. 0) size"] show ?thesis
    by (simp add: size_nas [of e] NODE_STRUCT_LIT)
next
  case (NODE_MATCH y arms)
  assume "x \<in> set (parts e)"
  moreover have arm: "size x < size_list (size_prod (\<lambda>_. 0) (size_prod (\<lambda>_. 0) size)) arms"
    if "(p, bs, x) \<in> set arms" for p bs
    using size_in_list [OF that, of "size_prod (\<lambda>_. 0) (size_prod (\<lambda>_. 0) size)"] by simp
  ultimately show ?thesis
    by (auto simp: size_nas [of e] parts_def NODE_MATCH dest!: arm)
qed (auto simp: parts_def opt_list_def size_nas [of e] split: option.splits)

lemma stmt_exprs_size:
  "x \<in> set (stmt_exprs s) \<Longrightarrow> size x \<le> size s"
proof (induction s rule: stmt_exprs.induct)
  case (1 l c y)
  show ?case
  proof (cases y)
    case (NODE_BLOCK ss)
    with 1 obtain s where "s \<in> set ss" "size x \<le> size s"
      by (auto simp: stmt_exprs.simps)
    with size_in_list [of s ss size] NODE_BLOCK show ?thesis by simp
  qed (use 1 in \<open>auto simp: stmt_exprs.simps opt_list_def split: option.splits
        dest!: value_parts_size\<close>)
qed

text \<open>All that the check of an expression may come to without unfolding a constant.\<close>

function all_parts :: "node \<Rightarrow> node list" where
  "all_parts e = e # concat (map all_parts (parts e))"
  by auto
termination
  by (relation "measure size") (auto intro: parts_smaller)

declare all_parts.simps [simp del]

lemma all_parts_self: "e \<in> set (all_parts e)"
  by (subst all_parts.simps) simp

lemma all_parts_part: "x \<in> set (parts e) \<Longrightarrow> y \<in> set (all_parts x) \<Longrightarrow> y \<in> set (all_parts e)"
  by (subst all_parts.simps) (simp, blast)

definition mentions :: "node \<Rightarrow> string \<Rightarrow> bool" where
  "mentions e s \<longleftrightarrow> NODE_IDENT s \<in> nas ` set (all_parts e)"

lemma mentions_part: "x \<in> set (parts e) \<Longrightarrow> mentions x s \<Longrightarrow> mentions e s"
  by (auto simp: mentions_def dest: all_parts_part)

text \<open>
  \<open>unfolds ds s v\<close>: the name \<open>s\<close> of a global constant without a type is replaced by its value \<open>v\<close>.
  \<open>ranked\<close>: the constants can be numbered so that a value mentions only constants of smaller number.
\<close>

definition unfolds :: "node list \<Rightarrow> string \<Rightarrow> node \<Rightarrow> bool" where
  "unfolds ds s v \<longleftrightarrow> find_global_const ds s = Some (None, v)"

definition ranked :: "node list \<Rightarrow> (string \<Rightarrow> nat) \<Rightarrow> nat \<Rightarrow> bool" where
  "ranked ds rank k \<longleftrightarrow>
     (\<forall>s v. unfolds ds s v \<longrightarrow>
        rank s < k \<and> (\<forall>t w. mentions v t \<and> unfolds ds t w \<longrightarrow> rank t < rank s))"

lemma find_SomeD: "List.find P xs = Some x \<Longrightarrow> x \<in> set xs \<and> P x"
  by (induction xs) (auto split: if_splits)

lemma unfolds_size:
  assumes "unfolds ds s v"
  shows "size v \<le> size_list size ds"
proof -
  from assms obtain nd where nd: "nd \<in> set ds"
      "(case nas nd of NODE_CONST _ ty v \<Rightarrow> Some (ty, v) | _ \<Rightarrow> None) = Some (None, v)"
    by (auto simp: unfolds_def find_global_const_def dest!: find_SomeD split: option.splits)
  then obtain t where "nas nd = NODE_CONST t None v"
    by (cases "nas nd") auto
  then show ?thesis
    using nd(1) size_in_list [of nd ds size] by (simp add: size_nas [of nd])
qed

lemma returns_expr:
  assumes "ranked ds rank k"
    and "\<And>s v. mentions e s \<Longrightarrow> unfolds ds s v \<Longrightarrow> rank s < r"
    and "r * size_list size ds + size e \<le> n"
  shows "returns.sim sm ds (check_expr n ud sc e) (check_expr n ud sc e)"
  using assms(2,3)
proof (induction n arbitrary: r sc e)
  case 0
  then show ?case by (simp add: size_nas [of e])
next
  case (Suc n)
  let ?M = "size_list size ds"
  have "returns.sim sm ds (check_node (check_expr n ud) ud sc e) (check_node (check_expr n ud) ud sc e)"
  proof (rule returns.sim_node)
    fix sc x assume x: "x \<in> set (parts e)"
    show "returns.sim sm ds (check_expr n ud sc x) (check_expr n ud sc x)"
      using parts_smaller [OF x] Suc.prems mentions_part [OF x] by (intro Suc.IH [of x r]) auto
  next
    fix s v assume s: "nas e = NODE_IDENT s" "find_global_const ds s = Some (None, v)"
    then have v: "mentions e s" "unfolds ds s v"
      by (auto simp: mentions_def unfolds_def intro: image_eqI [OF _ all_parts_self])
    then have "Suc (rank s) * ?M \<le> r * ?M"
      using Suc.prems(1) by (intro mult_le_mono1) fastforce
    with unfolds_size [OF v(2)] Suc.prems(2) size_nas [of e]
    have "rank s * ?M + size v \<le> n" by simp
    moreover have "rank t < rank s" if "mentions v t" "unfolds ds t w" for t w
      using assms(1) v(2) that by (auto simp: ranked_def)
    ultimately show "returns.sim sm ds (check_expr n ud None v) (check_expr n ud None v)"
      by (intro Suc.IH [of v "rank s"]) auto
  qed (simp add: returns.fits_def)
  then show ?case by simp
qed

lemma checked_functions_size: "d \<in> set ds \<Longrightarrow> fn \<in> set (checked_functions d) \<Longrightarrow> size fn \<le> size_list size ds"
  using size_in_list [of d ds size] size_in_list [of fn "checked_functions d" size]
  by (cases "nas d") (auto simp: checked_functions_def size_nas [of d] split: if_splits)

lemma fn_exprs_size: "x \<in> set (drives.fn_exprs fn) \<Longrightarrow> size x \<le> size fn"
  by (cases "nas fn")
    (auto simp: drives.fn_exprs_def fn_body_def size_nas [of fn] split: option.splits
      dest!: stmt_exprs_size)

lemma adds_evolves: "adds c c' \<Longrightarrow> evolves c c'"
  by (auto simp: adds_def evolves_def)

text \<open>A simulation for expressions is one for the driver, whose steps allow more.\<close>

context tc_driver
begin

lemma sim_weaken:
  assumes "\<forall>c. same_program sm ds c \<longrightarrow>
      (case m c of
         Inl e \<Rightarrow> lenient e \<or> harmless e \<and> m' c = Inl e
       | Inr (x, c') \<Rightarrow> adds c c' \<and> m' c = Inr (x, c'))"
    and "\<And>c c'. adds c c' \<Longrightarrow> step c c'"
  shows "sim m m'"
  unfolding sim_def
proof (intro allI impI)
  fix c assume "same_program sm ds c"
  with assms(1) show "case m c of
      Inl e \<Rightarrow> lenient e \<or> harmless e \<and> m' c = Inl e
    | Inr (x, c') \<Rightarrow> step c c' \<and> m' c = Inr (x, c')"
    by (cases "m c") (auto intro: assms(2) dest!: spec [of _ c])
qed

end

lemma returns_finishes: "returns.sim sm ds m m' \<Longrightarrow> finishes.sim sm ds m m'"
  by (rule finishes.sim_weaken) (auto simp: returns.sim_def intro: adds_evolves)

lemma answers_drives: "answers.sim sm ds m m' \<Longrightarrow> drives.sim sm ds m m'"
  by (rule drives.sim_weaken) (auto simp: answers.sim_def intro: adds_evolves)

lemma returns_program:
  assumes "ranked ds rank k" "(k + 1) * size_list size ds \<le> n"
  shows "finishes.sim sm ds (until_failed (check_decl n) ds) (until_failed (check_decl n) ds)"
proof (rule finishes.sim_program)
  fix d fn assume fn: "d \<in> set ds" "fn \<in> set (checked_functions d)"
  show "finishes.evals sm ds n n (finishes.fn_exprs fn)"
    unfolding finishes.evals_def
  proof (intro ballI allI)
    fix e ud sc assume "e \<in> set (finishes.fn_exprs fn)"
    with fn have "size e \<le> size_list size ds"
      by (metis checked_functions_size fn_exprs_size finishes.fn_exprs_def drives.fn_exprs_def order_trans)
    with assms have "returns.sim sm ds (check_expr n ud sc e) (check_expr n ud sc e)"
      by (intro returns_expr [OF assms(1), where r = k]) (auto simp: ranked_def)
    then show "finishes.sim sm ds (check_expr n ud sc e) (check_expr n ud sc e)"
      by (rule returns_finishes)
  qed
qed

lemma drives_program:
  assumes "n \<le> m"
  shows "drives.sim sm ds (until_failed (check_decl n) ds) (until_failed (check_decl m) ds)"
proof (rule drives.sim_program)
  fix d fn assume "d \<in> set ds" "fn \<in> set (checked_functions d)"
  have "drives.sim sm ds (check_expr n ud sc e) (check_expr m ud sc e)" for ud sc e
    by (rule answers_drives [OF answers_mono [OF assms]])
  then show "drives.evals sm ds n m (drives.fn_exprs fn)"
    by (simp add: drives.evals_def)
qed

lemma typeck_check_mono:
  assumes "typeck_check n program sm src \<noteq> Inl NoReturn" "n \<le> m"
  shows "typeck_check m program sm src = typeck_check n program sm src"
proof -
  let ?c = "checker_init program sm src" and ?ds = "program_decls program"
  have "same_program sm ?ds ?c"
    by (simp add: same_program_def checker_init_def)
  with drives_program [OF assms(2), of sm ?ds] assms(1) show ?thesis
    unfolding drives.sim_def typeck_check_def
    by (auto split: sum.splits prod.splits dest!: spec [of _ ?c])
qed

end
