(* ===== verification/Typeck_Silent.thy ===== *)
theory Typeck_Silent
  imports Typeck_Total
begin

text \<open>
  When a check passes without a diagnostic, and with which result: one equation per construct of the
  checker, free of the state. The typing rules are compared with the checker through these.
\<close>

subsection \<open>Silent runs\<close>

definition silent :: "'a tc \<Rightarrow> checker \<Rightarrow> 'a \<Rightarrow> bool" where
  "silent m c x \<longleftrightarrow> m c = Inr (x, c)"

definition adding :: "'a tc \<Rightarrow> bool" where
  "adding m \<longleftrightarrow> (\<forall>sm ds. answers.sim sm ds m m)"

lemma adding_adds: "adding m \<Longrightarrow> m c = Inr (x, c') \<Longrightarrow> adds c c'"
  using answers_Inr(1) [of m m c x c'] by (auto simp: adding_def)

lemma adding_expr [simp]: "adding (check_expr n ud sc e)"
  by (simp add: adding_def answers_mono)

lemma adding_basic [simp]:
  "adding (tret x)" "adding (complain at msg x)" "adding (type_error at msg)" "adding (conclude at v)"
  "adding (require_decl_visible d at s)" "adding (ensure_resolved_type_visible at t)"
  "adding (ensure_type_visible at ty)" "adding (call_result at fn)" "adding (check_receiver t u nd)"
  "adding (check_declared_field ud at o' f d)" "adding (no_field_access at f t)"
  "adding (join_arm at ms u)" "adding (declare_var at s mt t tsc)" "adding (settle_type at s msg dt a)"
  by (simp_all add: adding_def tc_rules)

lemma adding_patterns [simp]:
  "adding (check_pattern at t ms pat)" "adding (check_binding_types at t pat bs)"
  by (simp_all add: adding_def answers.fits_def tc_rules)

lemma adding_bind [simp]: "adding m \<Longrightarrow> (\<And>x. adding (f x)) \<Longrightarrow> adding (tbind m f)"
  by (simp add: adding_def answers.sim_bind)

lemma adding_get [simp]:
  "(\<And>x. adding (f x)) \<Longrightarrow> adding (tget sel f)"
  "(\<And>x. adding (g x)) \<Longrightarrow> adding (with_sema g)"
  "(\<And>x. adding (h x)) \<Longrightarrow> adding (with_decls h)"
  by (simp_all add: adding_def answers.sim_get answers.sim_sema answers.sim_decls)

lemma adding_if_ok [simp]: "adding m \<Longrightarrow> adding t \<Longrightarrow> adding (if_ok m t)"
  by (simp add: adding_def answers.sim_if_ok)

lemma adding_if_some [simp]: "adding m \<Longrightarrow> (\<And>x. adding (f x)) \<Longrightarrow> adding (if_some m f)"
  by (simp add: adding_def answers.sim_if_some)

text \<open>A sequence is silent only if both parts are: diagnostics are never taken back.\<close>

lemma adds_printed: "adds c c' \<Longrightarrow> \<exists>d. c_printed c' = c_printed c @ d \<and> (d = [] \<longrightarrow> c' = c)"
  by (auto simp: adds_def)

lemma adds_back:
  assumes "adds c c'" "adds c' c"
  shows "c' = c"
proof -
  obtain d where "c_printed c' = c_printed c @ d" "d = [] \<longrightarrow> c' = c"
    using adds_printed [OF assms(1)] by blast
  moreover obtain e where "c_printed c = c_printed c' @ e"
    using adds_printed [OF assms(2)] by blast
  ultimately show ?thesis by simp
qed

lemma printed_more: "c\<lparr>c_had_error := b, c_printed := c_printed c @ [d]\<rparr> \<noteq> c"
  by (auto dest: arg_cong [of _ _ c_printed])

lemma silent_bind:
  assumes "adding m" "\<And>x. adding (f x)"
  shows "silent (tbind m f) c y \<longleftrightarrow> (\<exists>x. silent m c x \<and> silent (f x) c y)"
proof
  assume "silent (tbind m f) c y"
  then obtain x c' where x: "m c = Inr (x, c')" "f x c' = Inr (y, c)"
    by (auto simp: silent_def tbind_def split: sum.splits)
  with assms have "adds c c'" "adds c' c"
    by (auto dest: adding_adds)
  then have "c' = c" by (rule adds_back)
  with x show "\<exists>x. silent m c x \<and> silent (f x) c y"
    by (auto simp: silent_def)
qed (auto simp: silent_def tbind_def)

lemma silent_simps [simp]:
  "silent (tret x) c y \<longleftrightarrow> y = x"
  "silent (tfail e) c y \<longleftrightarrow> False"
  "silent (complain at msg x) c y \<longleftrightarrow> False"
  "silent (type_error at msg) c t \<longleftrightarrow> False"
  "silent (tget sel f) c y \<longleftrightarrow> silent (f (sel c)) c y"
  "silent (with_sema g) c y \<longleftrightarrow> silent (g (c_sema c)) c y"
  "silent (with_decls h) c y \<longleftrightarrow> silent (h (program_decls (c_program c))) c y"
  by (auto simp: silent_def tret_def tfail_def complain_def type_error_def typeck_error_def tbind_def
      tget_def with_sema_def with_decls_def printed_more)

lemma silent_conclude [simp]: "silent (conclude at v) c t \<longleftrightarrow> v = Inr t"
  by (cases v) (auto simp: conclude_def)

text \<open>\<open>holds m P\<close>: the test \<open>m\<close> never fails silently, and passes silently where \<open>P\<close>.\<close>

definition holds :: "bool tc \<Rightarrow> checker \<Rightarrow> bool \<Rightarrow> bool" where
  "holds m c P \<longleftrightarrow> (\<forall>b. silent m c b \<longleftrightarrow> b \<and> P)"

lemma silent_if_ok:
  assumes "adding m" "adding t" "holds m c P"
  shows "silent (if_ok m t) c y \<longleftrightarrow> P \<and> silent t c y"
  using assms by (auto simp: if_ok_def silent_bind holds_def)

lemma silent_if_some:
  assumes "adding m" "\<And>x. adding (f x)"
  shows "silent (if_some m f) c y \<longleftrightarrow>
           silent m c None \<and> y = None \<or> (\<exists>x. silent m c (Some x) \<and> silent (f x) c y)"
proof -
  have "adding (case r of None \<Rightarrow> tret None | Some x \<Rightarrow> f x)" for r
    using assms(2) by (cases r) simp_all
  then show ?thesis
    using assms by (auto simp: if_some_def silent_bind split: option.splits)
qed

subsection \<open>Visibility\<close>

definition visible_decl :: "checker \<Rightarrow> node \<Rightarrow> bool" where
  "visible_decl c d \<longleftrightarrow> decl_visible_from (c_package c) d"

definition visible_name :: "checker \<Rightarrow> string \<Rightarrow> bool" where
  "visible_name c s = (case find_type_decl (c_sema c) s of None \<Rightarrow> True | Some d \<Rightarrow> visible_decl c d)"

fun visible_type :: "checker \<Rightarrow> night_type \<Rightarrow> bool" where
  "visible_type c (TYPE_FUNCTION d) \<longleftrightarrow> visible_decl c d"
| "visible_type c (TYPE_POINTER t _ _) \<longleftrightarrow> visible_type c t"
| "visible_type c (TYPE_ARRAY t _) \<longleftrightarrow> visible_type c t"
| "visible_type c (TYPE_NAMED s) \<longleftrightarrow> s = ''String'' \<or> visible_name c s"
| "visible_type c _ \<longleftrightarrow> True"

fun visible_node :: "checker \<Rightarrow> node \<Rightarrow> bool" where
  "visible_node c (Node l k ty) =
     (case ty of
        NODE_TYPE_POINTER t _ _ \<Rightarrow> visible_node c t
      | NODE_TYPE_ARRAY t _ \<Rightarrow> visible_node c t
      | NODE_TYPE_NAMED s \<Rightarrow> visible_name c s
      | _ \<Rightarrow> True)"

lemma holds_decl: "holds (require_decl_visible d at s) c (visible_decl c d)"
  by (auto simp: holds_def require_decl_visible_def visible_decl_def)

lemma holds_name: "holds (require_type_visible at s) c (visible_name c s)"
  using holds_decl by (auto simp: holds_def require_type_visible_def visible_name_def split: option.split)

lemma holds_type: "holds (ensure_resolved_type_visible at t) c (visible_type c t)"
proof (induction t)
  case (TYPE_NAMED s)
  then show ?case
    using holds_name [of at s c] by (subst ensure_resolved_type_visible.simps) (auto simp: holds_def)
next
  case (TYPE_FUNCTION d)
  then show ?case
    using holds_decl [of d at "fn_name d" c] by (subst ensure_resolved_type_visible.simps) simp
qed (subst ensure_resolved_type_visible.simps, simp add: holds_def)+

lemma holds_node: "holds (ensure_node_visible at ty) c (visible_node c ty)"
  by (induction at ty rule: ensure_node_visible.induct)
    (auto simp: holds_name split: node_as.split, simp_all add: holds_def)

definition visible_opt :: "checker \<Rightarrow> node option \<Rightarrow> bool" where
  "visible_opt c ty = (case ty of None \<Rightarrow> True | Some nd \<Rightarrow> visible_node c nd)"

lemma holds_opt: "holds (ensure_type_visible at ty) c (visible_opt c ty)"
  using holds_node by (auto simp: ensure_type_visible_def visible_opt_def holds_def split: option.split)

definition ret_type :: "node \<Rightarrow> night_type" where
  "ret_type fn = type_from_ast (fn_ret_type fn)"

lemma silent_call_result [simp]:
  "silent (call_result at fn) c t \<longleftrightarrow> visible_type c (ret_type fn) \<and> t = ret_type fn"
  by (auto simp: call_result_def Let_def ret_type_def silent_if_ok [OF _ _ holds_type])

end
