(* ===== verification/Typeck_Rules.thy ===== *)
theory Typeck_Rules
  imports Typeck_Silent
begin

text \<open>
  The typing rules of NightScript: \<open>has_type c ud sc e t\<close> says that in scope \<open>sc\<close> the expression \<open>e\<close> has
  type \<open>t\<close>, where \<open>c\<close> holds the declarations, the package and the return type of the function, and
  \<open>ud\<close> is the number of enclosing unsafe blocks. There is no state, no bound and no diagnostic here.
  \<open>TYPE_ERROR\<close> is a type like any other: it is what the checker gives, without a diagnostic, to the
  expressions that the semantic analysis should have rejected.
\<close>

subsection \<open>What the rules ask of names and types\<close>

definition param_type :: "node \<Rightarrow> night_type" where
  "param_type p = type_from_ast (let_type p)"

definition literal_type :: "node \<Rightarrow> night_type option" where
  "literal_type e =
     (case nas e of
        NODE_LIT_INT _ \<Rightarrow> Some TYPE_INT_LITERAL
      | NODE_LIT_CHAR _ \<Rightarrow> Some TYPE_CHAR
      | NODE_LIT_FLOAT _ \<Rightarrow> Some TYPE_FLOAT_LITERAL
      | NODE_LIT_STRING _ \<Rightarrow> Some TYPE_STRING_LITERAL
      | NODE_LIT_BOOL _ \<Rightarrow> Some TYPE_BOOL
      | NODE_LIT_NULL \<Rightarrow> Some TYPE_NULL
      | _ \<Rightarrow> None)"

definition is_expression :: "node \<Rightarrow> bool" where
  "is_expression e =
     (case nas e of
        NODE_IDENT _ \<Rightarrow> True | NODE_GROUP _ \<Rightarrow> True | NODE_UNARY _ _ \<Rightarrow> True
      | NODE_BINARY _ _ _ \<Rightarrow> True | NODE_ASSIGN _ _ _ \<Rightarrow> True | NODE_INDEX _ _ \<Rightarrow> True
      | NODE_SLICE _ _ _ \<Rightarrow> True | NODE_CALL _ _ \<Rightarrow> True | NODE_CAST _ _ \<Rightarrow> True
      | NODE_FIELD _ _ \<Rightarrow> True | NODE_STRUCT_LIT _ _ \<Rightarrow> True | NODE_MATCH _ _ \<Rightarrow> True
      | _ \<Rightarrow> literal_type e \<noteq> None)"

definition free_name :: "tscope option \<Rightarrow> string \<Rightarrow> bool" where
  "free_name sc s \<longleftrightarrow>
     resolve_in sc s = None \<and> s \<notin> {''None'', ''stdout'', ''stderr'', ''stdin''}"

text \<open>What kind of call a callee makes, decided without typing anything.\<close>

datatype route =
    Not_inferable
  | Ignores_arguments night_type
  | Types_arguments night_type
  | String_from
  | Constructor node string string
  | Static_method node
  | Of_value node string
  | Plain

definition route_ident :: "node list \<Rightarrow> string \<Rightarrow> route" where
  "route_ident ds s =
     (if s \<in> {''Some'', ''Ok'', ''Err''} then Not_inferable
      else if s \<in> set OUTPUT_ROUTINES then Types_arguments TYPE_VOID
      else
        (case map_of OTHER_ROUTINES s of
           Some t \<Rightarrow> Ignores_arguments t
         | None \<Rightarrow>
             (case first_some (coercion_target s) ds of
                Some i \<Rightarrow> Types_arguments (TYPE_NAMED i)
              | None \<Rightarrow> Plain)))"

definition route_member :: "semantic_model \<Rightarrow> string \<Rightarrow> node \<Rightarrow> string \<Rightarrow> route" where
  "route_member sm s obj f =
     (case stream_method s f of
        Some (Some t) \<Rightarrow> Ignores_arguments t
      | Some None \<Rightarrow> Types_arguments TYPE_VOID
      | None \<Rightarrow>
          if s = ''String'' \<and> f = ''from'' then String_from
          else
            (case find_variant sm s f of
               Some d \<Rightarrow> Constructor d s f
             | None \<Rightarrow>
                 (case find_method_node sm s f of
                    Some m \<Rightarrow> Static_method m
                  | None \<Rightarrow> Of_value obj f)))"

definition route :: "semantic_model \<Rightarrow> node list \<Rightarrow> node \<Rightarrow> route" where
  "route sm ds callee =
     (case nas callee of
        NODE_IDENT s \<Rightarrow> route_ident ds s
      | NODE_FIELD obj f \<Rightarrow>
          (case ident_name obj of None \<Rightarrow> Of_value obj f | Some s \<Rightarrow> route_member sm s obj f)
      | NODE_INDEX obj arg \<Rightarrow>
          (case ident_name obj of
             None \<Rightarrow> Plain
           | Some s \<Rightarrow>
               (case find_generic_fn ds s of
                  None \<Rightarrow> Plain
                | Some fn \<Rightarrow> Types_arguments (generic_result fn arg)))
      | _ \<Rightarrow> Plain)"

definition route_of :: "checker \<Rightarrow> node \<Rightarrow> route" where
  "route_of c callee = route (c_sema c) (program_decls (c_program c)) callee"

definition is_string_method :: "night_type \<Rightarrow> string \<Rightarrow> bool" where
  "is_string_method t f \<longleftrightarrow>
     f \<in> {''free'', ''as_str''} \<and>
     (t = TYPE_NAMED ''String'' \<or> (\<exists>k nl. t = TYPE_POINTER (TYPE_NAMED ''String'') k nl))"

definition string_result :: "node \<Rightarrow> string \<Rightarrow> night_type \<Rightarrow> night_type option" where
  "string_result obj f t =
     (if f = ''as_str'' then Some TYPE_STR
      else if t = TYPE_NAMED ''String'' \<and> \<not> is_addressable obj then None else Some TYPE_VOID)"

definition method_of :: "checker \<Rightarrow> night_type \<Rightarrow> string \<Rightarrow> node option" where
  "method_of c t f =
     (case owner_name t of None \<Rightarrow> None | Some s \<Rightarrow> find_method_node (c_sema c) s f)"

text \<open>A receiver is passed as it is, or its address is taken.\<close>

definition receives :: "night_type \<Rightarrow> night_type \<Rightarrow> node \<Rightarrow> bool" where
  "receives expected actual recv \<longleftrightarrow>
     is_assignable expected actual \<or>
     is_addressable recv \<and> (\<exists>s k nl. actual = TYPE_NAMED s \<and> expected = TYPE_POINTER actual k nl)"

definition variant_payload :: "node \<Rightarrow> string \<Rightarrow> node list" where
  "variant_payload d v = (case enum_variant_fields d v of Some fs \<Rightarrow> fs | None \<Rightarrow> [])"

text \<open>A member of a type, with the declaration that must be visible.\<close>

definition static_field :: "checker \<Rightarrow> node \<Rightarrow> string \<Rightarrow> (node \<times> night_type) option" where
  "static_field c obj f =
     (case ident_name obj of
        None \<Rightarrow> None
      | Some s \<Rightarrow>
          (case find_variant (c_sema c) s f of
             Some d \<Rightarrow> Some (d, TYPE_NAMED s)
           | None \<Rightarrow> map_option (\<lambda>m. (m, TYPE_FUNCTION m)) (find_method_node (c_sema c) s f)))"

definition field_type :: "checker \<Rightarrow> nat \<Rightarrow> string \<Rightarrow> string \<Rightarrow> node \<Rightarrow> night_type option" where
  "field_type c ud owner f d =
     (if is_union_decl d \<and> ud = 0 then None
      else
        (case composite_field d f of
           None \<Rightarrow> None
         | Some fd \<Rightarrow>
             (case type_argument d owner (let_type fd) of
                Some s \<Rightarrow> map_of TYPE_NAMES s
              | None \<Rightarrow> if visible_type c (param_type fd) then Some (param_type fd) else None)))"

definition declared_field :: "checker \<Rightarrow> nat \<Rightarrow> night_type \<Rightarrow> string \<Rightarrow> night_type option" where
  "declared_field c ud t f =
     (case owner_name t of
        None \<Rightarrow> None
      | Some owner \<Rightarrow>
          (case field_owner_decl (c_sema c) owner of
             None \<Rightarrow> None
           | Some d \<Rightarrow> field_type c ud owner f d))"

text \<open>The declaration of a generic struct that a literal like \<^verbatim>\<open>Pair[i32] { ... }\<close> instantiates.\<close>

definition generic_struct :: "checker \<Rightarrow> string \<Rightarrow> node option" where
  "generic_struct c s =
     (case generic_base s of
        None \<Rightarrow> None
      | Some b \<Rightarrow> find_named_node (model_structs (c_sema c)) b KIND_STRUCT)"

text \<open>A constructor where the expected type says what it builds; \<open>ctor_payload\<close> is its argument.\<close>

definition is_contextual :: "night_type \<Rightarrow> node \<Rightarrow> bool" where
  "is_contextual t e \<longleftrightarrow>
     is_option_type t \<and> is_option_constructor_expr e \<or>
     is_result_type t \<and> is_result_constructor_expr e"

definition ctor_payload :: "night_type \<Rightarrow> node \<Rightarrow> night_type option" where
  "ctor_payload t f =
     (if is_option_type t then Some (option_inner_type t)
      else (case ident_name f of None \<Rightarrow> None | Some s \<Rightarrow> result_payload t s))"

subsection \<open>Patterns\<close>

text \<open>
  The variant a pattern names in a subject type: \<open>None\<close> if it names none, \<open>Some None\<close> if the subject is
  an enum and the pattern has no dot.
\<close>

definition subject_variant :: "night_type \<Rightarrow> string \<Rightarrow> string option option" where
  "subject_variant t pat =
     (if is_option_type t then if pat \<in> {''Some'', ''None''} then Some (Some pat) else None
      else if is_result_type t then if pat \<in> {''Ok'', ''Err''} then Some (Some pat) else None
      else
        (case strchr pat (CHR ''.'') of
           None \<Rightarrow> Some None
         | Some i \<Rightarrow>
             if i < 128 \<and> t = TYPE_NAMED (take i pat) then Some (Some (drop (i + 1) pat)) else None))"

definition pattern_step :: "night_type \<Rightarrow> match_state \<Rightarrow> string \<Rightarrow> match_state option option" where
  "pattern_step t ms pat =
     (if pat = ''_'' then
        if saw_wildcard ms then None else Some (Some (ms\<lparr>saw_wildcard := True\<rparr>))
      else
        (case subject_variant t pat of
           None \<Rightarrow> None
         | Some None \<Rightarrow> Some None
         | Some (Some v) \<Rightarrow>
             if v \<in> set (seen_variants ms) then None
             else Some (Some (if length (seen_variants ms) < 256
                              then ms\<lparr>seen_variants := seen_variants ms @ [v]\<rparr> else ms))))"

definition payload_types :: "checker \<Rightarrow> night_type \<Rightarrow> string \<Rightarrow> night_type list option" where
  "payload_types c t pat =
     (if is_option_type t then
        if pat = ''Some'' then Some [option_inner_type t] else if pat = ''None'' then Some [] else None
      else if is_result_type t then
        if pat \<in> {''Ok'', ''Err''} then map_option (\<lambda>u. [u]) (result_payload t pat) else None
      else
        (case strchr pat (CHR ''.'') of
           None \<Rightarrow> None
         | Some i \<Rightarrow>
             if i < 128 then
               map_option (\<lambda>d. map param_type (variant_payload d (drop (i + 1) pat)))
                 (find_enum (c_sema c) (take i pat))
             else None))"

definition arm_types :: "checker \<Rightarrow> night_type \<Rightarrow> string \<Rightarrow> string list \<Rightarrow> night_type list option" where
  "arm_types c t pat bs =
     (if pat = ''_'' then if bs = [] then Some [] else None
      else
        (case payload_types c t pat of
           None \<Rightarrow> None
         | Some ts \<Rightarrow> if bs = [] \<or> length ts = length bs then Some ts else None))"

definition join :: "match_state \<Rightarrow> night_type \<Rightarrow> match_state option" where
  "join ms u =
     (case result_type ms of
        None \<Rightarrow> Some (ms\<lparr>result_type := Some u\<rparr>)
      | Some t \<Rightarrow> if is_assignable t u \<or> is_assignable u t then Some ms else None)"

definition match_type :: "match_state \<Rightarrow> night_type" where
  "match_type ms = (case result_type ms of Some u \<Rightarrow> u | None \<Rightarrow> TYPE_ERROR)"

subsection \<open>The rules\<close>

text \<open>
  \<open>has_value sc t e u\<close>: \<open>e\<close> has type \<open>u\<close> where \<open>t\<close> is expected, which only matters to constructors of
  \<^verbatim>\<open>Option\<close> and \<^verbatim>\<open>Result\<close>. \<open>has_arms\<close> goes through the arms of a match; it ends with \<open>None\<close> at a
  pattern without a dot on an enum.
\<close>

lemma rel_option_mono' [mono]:
  "(\<And>x y. P x y \<longrightarrow> Q x y) \<Longrightarrow> rel_option P a b \<longrightarrow> rel_option Q a b"
  by (auto elim: option.rel_mono_strong)

lemma list_all2_mono' [mono]:
  "(\<And>x y. P x y \<longrightarrow> Q x y) \<Longrightarrow> list_all2 P xs ys \<longrightarrow> list_all2 Q xs ys"
  by (auto elim: list_all2_mono)

lemma list_all_mono' [mono]: "(\<And>x. P x \<longrightarrow> Q x) \<Longrightarrow> list_all P xs \<longrightarrow> list_all Q xs"
  by (auto simp: list_all_iff)

inductive has_type :: "checker \<Rightarrow> nat \<Rightarrow> tscope option \<Rightarrow> node \<Rightarrow> night_type \<Rightarrow> bool"
  and has_value :: "checker \<Rightarrow> nat \<Rightarrow> tscope option \<Rightarrow> night_type \<Rightarrow> node \<Rightarrow> night_type \<Rightarrow> bool"
  and has_arms :: "checker \<Rightarrow> nat \<Rightarrow> tscope option \<Rightarrow> night_type \<Rightarrow> match_state \<Rightarrow>
    (string \<times> string list \<times> node) list \<Rightarrow> match_state option \<Rightarrow> bool"
  for c ud where
  T_literal: "literal_type e = Some t \<Longrightarrow> has_type c ud sc e t"
| T_local: "nas e = NODE_IDENT s \<Longrightarrow> resolve_in sc s = Some b \<Longrightarrow> visible_type c (b_type b) \<Longrightarrow>
    has_type c ud sc e (b_type b)"
| T_stream: "nas e = NODE_IDENT s \<Longrightarrow> resolve_in sc s = None \<Longrightarrow>
    s \<in> {''stdout'', ''stderr'', ''stdin''} \<Longrightarrow> has_type c ud sc e TYPE_VOID"
| T_function: "nas e = NODE_IDENT s \<Longrightarrow> free_name sc s \<Longrightarrow> find_function (c_sema c) s = Some fn \<Longrightarrow>
    visible_decl c fn \<Longrightarrow> has_type c ud sc e (TYPE_FUNCTION fn)"
| T_typed_const: "nas e = NODE_IDENT s \<Longrightarrow> free_name sc s \<Longrightarrow> find_function (c_sema c) s = None \<Longrightarrow>
    find_global_const (program_decls (c_program c)) s = Some (Some ty, v) \<Longrightarrow>
    has_type c ud sc e (type_from_node ty)"
| T_const: "nas e = NODE_IDENT s \<Longrightarrow> free_name sc s \<Longrightarrow> find_function (c_sema c) s = None \<Longrightarrow>
    find_global_const (program_decls (c_program c)) s = Some (None, v) \<Longrightarrow>
    has_type c ud None v t \<Longrightarrow> has_type c ud sc e t"
| T_unknown: "nas e = NODE_IDENT s \<Longrightarrow> free_name sc s \<Longrightarrow> find_function (c_sema c) s = None \<Longrightarrow>
    find_global_const (program_decls (c_program c)) s = None \<Longrightarrow> has_type c ud sc e TYPE_ERROR"
| T_group: "nas e = NODE_GROUP x \<Longrightarrow> has_type c ud sc x t \<Longrightarrow> has_type c ud sc e t"
| T_try: "nas e = NODE_UNARY ''?'' x \<Longrightarrow> c_return_type c = Some ret \<Longrightarrow> has_type c ud sc x t \<Longrightarrow>
    try_rule ret t = Inr u \<Longrightarrow> has_type c ud sc e u"
| T_unary: "nas e = NODE_UNARY op x \<Longrightarrow> op \<noteq> ''?'' \<Longrightarrow> has_type c ud sc x t \<Longrightarrow>
    unary_rule op (is_addressable x) t = Inr u \<Longrightarrow> has_type c ud sc e u"
| T_binary: "nas e = NODE_BINARY op x y \<Longrightarrow> has_type c ud sc x t \<Longrightarrow> has_type c ud sc y u \<Longrightarrow>
    binary_rule op t u = Inr v \<Longrightarrow> has_type c ud sc e v"
| T_assign: "nas e = NODE_ASSIGN x y op \<Longrightarrow> is_addressable x \<Longrightarrow> \<not> immutable_target sc x \<Longrightarrow>
    has_type c ud sc x t \<Longrightarrow> has_type c ud sc y u \<Longrightarrow> assign_rule (op \<noteq> None) t u = Inr v \<Longrightarrow>
    has_type c ud sc e v"
| T_index: "nas e = NODE_INDEX x i \<Longrightarrow> has_type c ud sc x t \<Longrightarrow> has_type c ud sc i u \<Longrightarrow>
    index_rule t u = Inr v \<Longrightarrow> has_type c ud sc e v"
| T_slice: "nas e = NODE_SLICE x i j \<Longrightarrow> has_type c ud sc x t \<Longrightarrow> rel_option (has_type c ud sc) i u \<Longrightarrow>
    rel_option (has_type c ud sc) j v \<Longrightarrow> slice_rule t u v = Inr w \<Longrightarrow> has_type c ud sc e w"
| T_cast: "nas e = NODE_CAST x ty \<Longrightarrow> has_type c ud sc x t \<Longrightarrow> is_castable t (type_from_node ty) \<Longrightarrow>
    has_type c ud sc e (type_from_node ty)"
| T_ignored: "nas e = NODE_CALL f args \<Longrightarrow> route_of c f = Ignores_arguments t \<Longrightarrow> has_type c ud sc e t"
| T_each: "nas e = NODE_CALL f args \<Longrightarrow> route_of c f = Types_arguments t \<Longrightarrow>
    list_all (\<lambda>a. \<exists>u. has_type c ud sc a u) args \<Longrightarrow> has_type c ud sc e t"
| T_string_from: "nas e = NODE_CALL f [a] \<Longrightarrow> route_of c f = String_from \<Longrightarrow> has_type c ud sc a t \<Longrightarrow>
    is_assignable TYPE_STR t \<or> is_assignable TYPE_CSTR t \<Longrightarrow> has_type c ud sc e (TYPE_NAMED ''String'')"
| T_constructor: "nas e = NODE_CALL f args \<Longrightarrow> route_of c f = Constructor d s v \<Longrightarrow> visible_decl c d \<Longrightarrow>
    list_all2 (\<lambda>p a. \<exists>u. has_type c ud sc a u \<and> is_assignable (param_type p) u)
      (variant_payload d v) args \<Longrightarrow> has_type c ud sc e (TYPE_NAMED s)"
| T_static_method: "nas e = NODE_CALL f args \<Longrightarrow> route_of c f = Static_method m \<Longrightarrow> visible_decl c m \<Longrightarrow>
    list_all2 (\<lambda>p a. \<exists>u. has_value c ud sc (param_type p) a u \<and> is_assignable (param_type p) u)
      (fn_params m) args \<Longrightarrow> visible_type c (ret_type m) \<Longrightarrow> has_type c ud sc e (ret_type m)"
| T_string_method: "nas e = NODE_CALL f [] \<Longrightarrow> route_of c f = Of_value obj g \<Longrightarrow> has_type c ud sc obj t \<Longrightarrow>
    is_string_method t g \<Longrightarrow> string_result obj g t = Some u \<Longrightarrow> has_type c ud sc e u"
| T_method: "nas e = NODE_CALL f args \<Longrightarrow> route_of c f = Of_value obj g \<Longrightarrow> has_type c ud sc obj t \<Longrightarrow>
    \<not> is_string_method t g \<Longrightarrow> method_of c t g = Some m \<Longrightarrow> visible_decl c m \<Longrightarrow>
    fn_params m = p # ps \<Longrightarrow> let_name p = ''self'' \<Longrightarrow> receives (param_type p) t obj \<Longrightarrow>
    list_all2 (\<lambda>p a. \<exists>u. has_value c ud sc (param_type p) a u \<and> is_assignable (param_type p) u)
      ps args \<Longrightarrow> visible_type c (ret_type m) \<Longrightarrow> has_type c ud sc e (ret_type m)"
| T_field_call: "nas e = NODE_CALL f args \<Longrightarrow> route_of c f = Of_value obj g \<Longrightarrow> has_type c ud sc obj t \<Longrightarrow>
    \<not> is_string_method t g \<Longrightarrow> method_of c t g = None \<Longrightarrow> has_type c ud sc f (TYPE_FUNCTION fn) \<Longrightarrow>
    list_all2 (\<lambda>p a. \<exists>u. has_value c ud sc (param_type p) a u \<and> is_assignable (param_type p) u)
      (fn_params fn) args \<Longrightarrow> visible_type c (ret_type fn) \<Longrightarrow> has_type c ud sc e (ret_type fn)"
| T_call: "nas e = NODE_CALL f args \<Longrightarrow> route_of c f = Plain \<Longrightarrow> has_type c ud sc f (TYPE_FUNCTION fn) \<Longrightarrow>
    list_all2 (\<lambda>p a. \<exists>u. has_value c ud sc (param_type p) a u \<and> is_assignable (param_type p) u)
      (fn_params fn) args \<Longrightarrow> visible_type c (ret_type fn) \<Longrightarrow> has_type c ud sc e (ret_type fn)"
| T_member: "nas e = NODE_FIELD x f \<Longrightarrow> static_field c x f = Some (d, t) \<Longrightarrow> visible_decl c d \<Longrightarrow>
    has_type c ud sc e t"
| T_builtin_field: "nas e = NODE_FIELD x f \<Longrightarrow> static_field c x f = None \<Longrightarrow> has_type c ud sc x t \<Longrightarrow>
    builtin_field t f = Some (Inr u) \<Longrightarrow> has_type c ud sc e u"
| T_field: "nas e = NODE_FIELD x f \<Longrightarrow> static_field c x f = None \<Longrightarrow> has_type c ud sc x t \<Longrightarrow>
    builtin_field t f = None \<Longrightarrow> declared_field c ud t f = Some u \<Longrightarrow> has_type c ud sc e u"
| T_struct: "nas e = NODE_STRUCT_LIT s inits \<Longrightarrow> find_struct_or_union (c_sema c) s = Some d \<Longrightarrow>
    inits = [] \<or> visible_decl c d \<Longrightarrow>
    list_all (\<lambda>(f, x). \<exists>fd u. composite_field d f = Some fd \<and> has_type c ud sc x u \<and>
      is_assignable (param_type fd) u) inits \<Longrightarrow> has_type c ud sc e (TYPE_NAMED s)"
| T_no_such_field: "nas e = NODE_STRUCT_LIT s (inits @ (f, x) # rest) \<Longrightarrow>
    find_struct_or_union (c_sema c) s = Some d \<Longrightarrow> visible_decl c d \<Longrightarrow>
    list_all (\<lambda>(f, x). \<exists>fd u. composite_field d f = Some fd \<and> has_type c ud sc x u \<and>
      is_assignable (param_type fd) u) inits \<Longrightarrow> composite_field d f = None \<Longrightarrow>
    has_type c ud sc e TYPE_ERROR"
| T_generic_struct: "nas e = NODE_STRUCT_LIT s inits \<Longrightarrow> find_struct_or_union (c_sema c) s = None \<Longrightarrow>
    generic_struct c s = Some d \<Longrightarrow> list_all (\<lambda>(f, x). \<exists>u. has_type c ud sc x u) inits \<Longrightarrow>
    has_type c ud sc e (TYPE_NAMED s)"
| T_no_such_struct: "nas e = NODE_STRUCT_LIT s inits \<Longrightarrow> find_struct_or_union (c_sema c) s = None \<Longrightarrow>
    generic_struct c s = None \<Longrightarrow> has_type c ud sc e TYPE_ERROR"
| T_match: "nas e = NODE_MATCH x arms \<Longrightarrow> has_type c ud sc x t \<Longrightarrow> can_match (c_sema c) t \<Longrightarrow>
    has_arms c ud sc t match_init arms (Some ms) \<Longrightarrow> missing_variant (c_sema c) t ms = None \<Longrightarrow>
    has_type c ud sc e (match_type ms)"
| T_dotless: "nas e = NODE_MATCH x arms \<Longrightarrow> has_type c ud sc x t \<Longrightarrow> can_match (c_sema c) t \<Longrightarrow>
    has_arms c ud sc t match_init arms None \<Longrightarrow> has_type c ud sc e TYPE_ERROR"
| T_other: "\<not> is_expression e \<Longrightarrow> has_type c ud sc e TYPE_ERROR"
| V_plain: "\<not> is_contextual t e \<Longrightarrow> has_type c ud sc e u \<Longrightarrow> has_value c ud sc t e u"
| V_none: "is_contextual t e \<Longrightarrow> nas e = NODE_IDENT s \<Longrightarrow> has_value c ud sc t e t"
| V_some: "is_contextual t e \<Longrightarrow> nas e = NODE_CALL f [a] \<Longrightarrow> ctor_payload t f = Some p \<Longrightarrow>
    has_type c ud sc a u \<Longrightarrow> is_assignable p u \<Longrightarrow> has_value c ud sc t e t"
| V_unsplit: "is_contextual t e \<Longrightarrow> nas e = NODE_CALL f [a] \<Longrightarrow> ctor_payload t f = None \<Longrightarrow>
    has_value c ud sc t e TYPE_ERROR"
| A_nil: "has_arms c ud sc t ms [] (Some ms)"
| A_dotless: "pattern_step t ms pat = Some None \<Longrightarrow> has_arms c ud sc t ms ((pat, bs, v) # arms) None"
| A_cons: "pattern_step t ms pat = Some (Some ms1) \<Longrightarrow> arm_types c t pat bs = Some ts \<Longrightarrow>
    arm_scope sc bs ts = Inr inner \<Longrightarrow> has_type c ud (Some inner) v u \<Longrightarrow> join ms1 u = Some ms2 \<Longrightarrow>
    has_arms c ud sc t ms2 arms r \<Longrightarrow> has_arms c ud sc t ms ((pat, bs, v) # arms) r"

end
