(* ===== verification/Typeck_Typing.thy ===== *)
theory Typeck_Typing
  imports Typeck_Rules
begin

text \<open>
  The checker and the typing rules agree: \<^verbatim>\<open>check_expr\<close> gives an expression a type without a
  diagnostic, for some bound on the nesting of calls, exactly if the rules give it that type.
\<close>

subsection \<open>Silent runs of the parts\<close>

lemma adding_branches [simp]:
  "adding m \<Longrightarrow> adding n \<Longrightarrow> adding (if b then m else n)"
  "adding m \<Longrightarrow> (\<And>x. adding (f x)) \<Longrightarrow> adding (case r of None \<Rightarrow> m | Some x \<Rightarrow> f x)"
  by (simp_all split: option.split)

lemma adding_parts:
  assumes "\<And>x. adding (ev x)"
  shows "adding (check_value ev t e)" "adding (check_payload ev at ctor t p args)"
    "adding (check_ignored ev es)" "adding (check_call_arguments ev at ps args)"
    "adding (check_opt ev eo)" "adding (check_plain_call ev at f args)"
    "adding (check_inits ev at s d inits)"
proof -
  have "answers.calls sm ds ev ev f args" for sm ds
    using assms by (simp add: answers.calls_def adding_def)
  then show "adding (check_plain_call ev at f args)"
    by (simp add: adding_def answers.sim_plain_call)
qed (use assms in \<open>simp_all add: adding_def answers.sim_value answers.sim_payload answers.sim_ignored
    answers.sim_call_arguments answers.sim_opt answers.sim_inits\<close>)

lemma adding_arguments:
  "(\<And>t x. adding (val t x)) \<Longrightarrow> adding (check_arguments val what ps args)"
  by (simp add: adding_def answers.sim_arguments)

lemma adding_value_field: "(\<And>x. adding (ev x)) \<Longrightarrow> adding (check_value_field ev ud at obj f)"
  by (simp add: adding_def answers.sim_value_field)

lemma adding_arms: "(\<And>sc x. adding (rec sc x)) \<Longrightarrow> adding (check_arms rec sc at t ms arms)"
  by (simp add: adding_def answers.sim_arms answers.fits_def)

lemma silent_payload:
  assumes "\<And>x. adding (ev x)"
  shows "silent (check_payload ev at ctor t p args) c v \<longleftrightarrow>
    (\<exists>a. args = [a] \<and>
       (case p of
          None \<Rightarrow> v = TYPE_ERROR
        | Some q \<Rightarrow> (\<exists>u. silent (ev a) c u \<and> is_assignable q u) \<and> v = t))"
proof -
  have "adding (if b then tret t else type_error at msg)" for b msg by simp
  then show ?thesis
    using assms by (auto simp: check_payload_def silent_bind split: list.split option.split if_splits)
qed

lemma option_not_result: "is_option_type t \<Longrightarrow> \<not> is_result_type t"
  by (cases t) (auto simp: is_option_type_def is_result_type_def type_name_has_form_def)

lemma silent_value:
  assumes "\<And>x. adding (ev x)"
  shows "silent (check_value ev t e) c v \<longleftrightarrow>
    (if is_contextual t e then
       (case nas e of
          NODE_CALL f args \<Rightarrow>
            (\<exists>a. args = [a] \<and>
               (case ctor_payload t f of
                  None \<Rightarrow> v = TYPE_ERROR
                | Some q \<Rightarrow> (\<exists>u. silent (ev a) c u \<and> is_assignable q u) \<and> v = t))
        | _ \<Rightarrow> v = t)
     else silent (ev e) c v)"
  by (cases "nas e")
    (auto simp: check_value_def check_contextual_constructor_def is_contextual_def ctor_payload_def
      is_option_constructor_expr_def is_result_constructor_expr_def silent_payload [OF assms]
      dest: option_not_result)

lemma silent_ignored:
  assumes "\<And>x. adding (ev x)"
  shows "silent (check_ignored ev es) c u \<longleftrightarrow> list_all (\<lambda>e. \<exists>t. silent (ev e) c t) es"
  by (induction es) (auto simp: silent_bind adding_parts assms)

lemma silent_arguments:
  "(\<And>t x. adding (val t x)) \<Longrightarrow> length args = length ps \<Longrightarrow>
    holds (check_arguments val what ps args) c
      (list_all2 (\<lambda>p a. \<exists>u. silent (val (param_type p) a) c u \<and> is_assignable (param_type p) u) ps args)"
proof (induction val what ps args rule: check_arguments.induct)
  case (1 val what p ps a args)
  then show ?case
    by (auto simp: holds_def Let_def silent_bind adding_arguments param_type_def split: if_splits)
qed (auto simp: holds_def)

definition passes ::
  "(night_type \<Rightarrow> node \<Rightarrow> night_type \<Rightarrow> bool) \<Rightarrow> node list \<Rightarrow> node list \<Rightarrow> bool" where
  "passes J ps args \<longleftrightarrow>
     list_all2 (\<lambda>p a. \<exists>u. J (param_type p) a u \<and> is_assignable (param_type p) u) ps args"

lemma holds_call_arguments:
  assumes "\<And>x. adding (ev x)"
  shows "holds (check_call_arguments ev at ps args) c (passes (\<lambda>t a. silent (check_value ev t a) c) ps args)"
proof (cases "length args = length ps")
  case True
  then show ?thesis
    using silent_arguments [of "check_value ev", OF adding_parts(1) [OF assms]]
    by (simp add: check_call_arguments_def passes_def)
next
  case False
  then show ?thesis
    by (auto simp: check_call_arguments_def holds_def passes_def dest: list_all2_lengthD)
qed

lemma silent_plain_call:
  assumes "\<And>x. adding (ev x)"
  shows "silent (check_plain_call ev at f args) c t \<longleftrightarrow>
    (\<exists>fn. silent (ev f) c (TYPE_FUNCTION fn) \<and>
       passes (\<lambda>t a. silent (check_value ev t a) c) (fn_params fn) args \<and>
       visible_type c (ret_type fn) \<and> t = ret_type fn)"
proof -
  let ?k = "\<lambda>t. case t of
       TYPE_FUNCTION fn \<Rightarrow> if_ok (check_call_arguments ev at (fn_params fn) args) (call_result at fn)
     | _ \<Rightarrow> type_error at (''cannot call non-function value of type '' @ format_type t)"
  have "adding (?k t)" for t
    using assms by (cases t) (simp_all add: adding_parts)
  then have "silent (check_plain_call ev at f args) c t \<longleftrightarrow> (\<exists>u. silent (ev f) c u \<and> silent (?k u) c t)"
    unfolding check_plain_call_def by (intro silent_bind assms)
  moreover have "silent (?k u) c t \<longleftrightarrow>
      (\<exists>fn. u = TYPE_FUNCTION fn \<and> passes (\<lambda>t a. silent (check_value ev t a) c) (fn_params fn) args \<and>
         visible_type c (ret_type fn) \<and> t = ret_type fn)" for u
    by (cases u)
      (auto simp: silent_if_ok [OF adding_parts(4) [OF assms] _ holds_call_arguments [OF assms]])
  ultimately show ?thesis by auto
qed

lemma silent_string_method:
  "string_method at obj f n t \<noteq> None \<longleftrightarrow> is_string_method t f"
  "string_method at obj f n t = Some m \<Longrightarrow>
     silent m c u \<longleftrightarrow> n = 0 \<and> string_result obj f t = Some u"
  by (cases t; auto simp: string_method_def is_string_method_def string_result_def split: if_splits)+

lemma type_equals_iff: "type_equals t u \<longleftrightarrow> t = u"
  by (induction t arbitrary: u) (subst type_equals.simps, simp split: night_type.split, fastforce?)+

lemma holds_receiver: "holds (check_receiver t u nd) c (receives t u nd)"
proof -
  show ?thesis
    using type_equals_iff by (cases t; cases u) (auto simp: holds_def check_receiver_def receives_def split: if_splits)
qed

subsection \<open>Calls\<close>

text \<open>What a call of each route is typed as, given the judgement \<open>J\<close> for its parts and \<open>V\<close> for its values.\<close>

definition plain_types ::
  "checker \<Rightarrow> (node \<Rightarrow> night_type \<Rightarrow> bool) \<Rightarrow> (night_type \<Rightarrow> node \<Rightarrow> night_type \<Rightarrow> bool) \<Rightarrow> node \<Rightarrow>
     node list \<Rightarrow> night_type \<Rightarrow> bool" where
  "plain_types c J V f args t \<longleftrightarrow>
     (\<exists>fn. J f (TYPE_FUNCTION fn) \<and> passes V (fn_params fn) args \<and> visible_type c (ret_type fn) \<and>
        t = ret_type fn)"

definition method_types ::
  "checker \<Rightarrow> (night_type \<Rightarrow> node \<Rightarrow> night_type \<Rightarrow> bool) \<Rightarrow> node \<Rightarrow> night_type \<Rightarrow> node \<Rightarrow> node list \<Rightarrow>
     night_type \<Rightarrow> bool" where
  "method_types c V m u obj args t \<longleftrightarrow>
     (\<exists>p ps. visible_decl c m \<and> fn_params m = p # ps \<and> let_name p = ''self'' \<and>
        receives (param_type p) u obj \<and> passes V ps args \<and> visible_type c (ret_type m) \<and> t = ret_type m)"

fun call_types ::
  "checker \<Rightarrow> (node \<Rightarrow> night_type \<Rightarrow> bool) \<Rightarrow> (night_type \<Rightarrow> node \<Rightarrow> night_type \<Rightarrow> bool) \<Rightarrow> node \<Rightarrow>
     node list \<Rightarrow> route \<Rightarrow> night_type \<Rightarrow> bool" where
  "call_types c J V f args Not_inferable t \<longleftrightarrow> False"
| "call_types c J V f args (Ignores_arguments u) t \<longleftrightarrow> t = u"
| "call_types c J V f args (Types_arguments u) t \<longleftrightarrow> list_all (\<lambda>a. \<exists>v. J a v) args \<and> t = u"
| "call_types c J V f args String_from t \<longleftrightarrow>
     (\<exists>a u. args = [a] \<and> J a u \<and> (is_assignable TYPE_STR u \<or> is_assignable TYPE_CSTR u) \<and>
        t = TYPE_NAMED ''String'')"
| "call_types c J V f args (Constructor d s v) t \<longleftrightarrow>
     visible_decl c d \<and> passes (\<lambda>_. J) (variant_payload d v) args \<and> t = TYPE_NAMED s"
| "call_types c J V f args (Static_method m) t \<longleftrightarrow>
     visible_decl c m \<and> passes V (fn_params m) args \<and> visible_type c (ret_type m) \<and> t = ret_type m"
| "call_types c J V f args (Of_value obj g) t \<longleftrightarrow>
     (\<exists>u. J obj u \<and>
        (if is_string_method u g then args = [] \<and> string_result obj g u = Some t
         else
           (case method_of c u g of
              Some m \<Rightarrow> method_types c V m u obj args t
            | None \<Rightarrow> plain_types c J V f args t)))"
| "call_types c J V f args Plain t \<longleftrightarrow> plain_types c J V f args t"

lemma silent_owner_method:
  assumes ev: "\<And>x. adding (ev x)"
  shows "silent (check_owner_method ev at f obj g args u o' m) c t \<longleftrightarrow>
    method_types c (\<lambda>t a. silent (check_value ev t a) c) m u obj args t"
proof (cases "fn_params m")
  case (Cons p ps)
  then show ?thesis
    using ev
    by (auto simp: check_owner_method_def method_types_def method_has_receiver_def adding_parts
        param_type_def silent_if_ok [OF _ _ holds_decl] silent_if_ok [OF _ _ holds_receiver]
        silent_if_ok [OF _ _ holds_call_arguments])
qed (auto simp: check_owner_method_def method_types_def method_has_receiver_def silent_if_ok [OF _ _ holds_decl])

lemma adding_owner_method:
  assumes "\<And>x. adding (ev x)"
  shows "adding (check_owner_method ev at f obj g args u o' m)"
  using assms by (simp add: check_owner_method_def adding_parts)

lemma silent_method_call:
  assumes ev: "\<And>x. adding (ev x)"
  shows "silent (check_method_call ev at f obj g args) c t \<longleftrightarrow>
    call_types c (\<lambda>x. silent (ev x) c) (\<lambda>t a. silent (check_value ev t a) c) f args (Of_value obj g) t"
proof -
  let ?k = "\<lambda>u. case string_method at obj g (length args) u of
       Some m \<Rightarrow> m
     | None \<Rightarrow>
         (case owner_name u of
            None \<Rightarrow> check_plain_call ev at f args
          | Some o' \<Rightarrow>
              with_sema (\<lambda>sm. case find_method_node sm o' g of
                None \<Rightarrow> check_plain_call ev at f args
              | Some m \<Rightarrow> check_owner_method ev at f obj g args u o' m))"
  have "adding (?k u)" for u
    using ev answers.sim_string_method
    by (cases "string_method at obj g (length args) u")
      (auto simp: adding_parts adding_owner_method, auto simp: adding_def)
  then have "silent (check_method_call ev at f obj g args) c t \<longleftrightarrow>
      (\<exists>u. silent (ev obj) c u \<and> silent (?k u) c t)"
    unfolding check_method_call_def by (intro silent_bind ev)
  moreover have "silent (?k u) c t \<longleftrightarrow>
      (if is_string_method u g then args = [] \<and> string_result obj g u = Some t
       else
         (case method_of c u g of
            Some m \<Rightarrow> method_types c (\<lambda>t a. silent (check_value ev t a) c) m u obj args t
          | None \<Rightarrow> plain_types c (\<lambda>x. silent (ev x) c) (\<lambda>t a. silent (check_value ev t a) c) f args t))"
    for u
  proof (cases "string_method at obj g (length args) u")
    case None
    then have "\<not> is_string_method u g"
      using silent_string_method(1) by blast
    with None show ?thesis
      by (auto simp: method_of_def plain_types_def silent_plain_call [OF ev] silent_owner_method [OF ev]
          split: option.split)
  next
    case (Some m)
    then have "is_string_method u g"
      using silent_string_method(1) by blast
    with Some show ?thesis
      by (simp add: silent_string_method(2) [OF Some])
  qed
  ultimately show ?thesis by simp
qed

lemma silent_enum_constructor:
  assumes ev: "\<And>x. adding (ev x)"
  shows "silent (check_enum_constructor ev at d s v args) c t \<longleftrightarrow>
    call_types c (\<lambda>x. silent (ev x) c) V f args (Constructor d s v) t"
proof (cases "length args = length (variant_payload d v)")
  case True
  have holds: "holds (check_arguments (\<lambda>_. ev) ''enum constructor argument mismatch''
        (variant_payload d v) args) c (passes (\<lambda>_ x. silent (ev x) c) (variant_payload d v) args)"
    using silent_arguments [OF _ True, of "\<lambda>_. ev"] ev by (simp add: passes_def)
  show ?thesis
    using True
    by (simp add: check_enum_constructor_def variant_payload_def [symmetric] silent_if_ok [OF _ _ holds_decl]
        silent_if_ok [OF _ _ holds] adding_arguments ev)
next
  case False
  then show ?thesis
    by (auto simp: check_enum_constructor_def variant_payload_def [symmetric] passes_def
        silent_if_ok [OF _ _ holds_decl] dest: list_all2_lengthD)
qed

lemma silent_call:
  assumes ev: "\<And>x. adding (ev x)"
  shows "silent (check_call ev at f args) c t \<longleftrightarrow>
    call_types c (\<lambda>x. silent (ev x) c) (\<lambda>t a. silent (check_value ev t a) c) f args (route_of c f) t"
proof -
  note simps = silent_ignored [OF ev] silent_bind ev adding_parts plain_types_def silent_plain_call [OF ev]
  have each: "silent (tbind (check_ignored ev args) (\<lambda>_. tret u)) c t \<longleftrightarrow>
      list_all (\<lambda>a. \<exists>v. silent (ev a) c v) args \<and> t = u" for u
    by (simp add: simps)
  have plain: "silent (check_plain_call ev at f args) c t \<longleftrightarrow>
      call_types c (\<lambda>x. silent (ev x) c) (\<lambda>t a. silent (check_value ev t a) c) f args Plain t"
    by (simp add: plain_types_def silent_plain_call [OF ev])
  show ?thesis
  proof (cases "nas f")
    case (NODE_IDENT s)
    then show ?thesis
      by (simp add: check_call_def check_ident_call_def route_of_def route_def route_ident_def each plain
          split: option.split)
  next
    case (NODE_INDEX obj arg)
    then show ?thesis
      by (simp add: check_call_def check_generic_call_def route_of_def route_def each plain
          split: option.split)
  next
    case (NODE_FIELD obj g)
    have from_string: "silent (check_string_from ev at args) c t \<longleftrightarrow>
        call_types c (\<lambda>x. silent (ev x) c) (\<lambda>t a. silent (check_value ev t a) c) f args String_from t"
      by (auto simp: check_string_from_def silent_bind ev split: list.split)
    have static: "silent (check_type_method ev at m g args) c t \<longleftrightarrow>
        call_types c (\<lambda>x. silent (ev x) c) (\<lambda>t a. silent (check_value ev t a) c) f args (Static_method m) t"
      for m
      by (simp add: check_type_method_def silent_if_ok [OF _ _ holds_decl] ev adding_parts
          silent_if_ok [OF _ _ holds_call_arguments])
    note routes = from_string static silent_enum_constructor [where ev = ev, OF ev] silent_method_call [where ev = ev, OF ev]
    have member: "silent (check_field_call ev at f obj g args) c t \<longleftrightarrow>
        call_types c (\<lambda>x. silent (ev x) c) (\<lambda>t a. silent (check_value ev t a) c) f args
          (route_member (c_sema c) s obj g) t" if "ident_name obj = Some s" for s
    proof (cases "stream_method s g")
      case None
      then show ?thesis
        using that
        by (cases "find_variant (c_sema c) s g"; cases "find_method_node (c_sema c) s g")
          (simp_all add: check_field_call_def route_member_def routes del: call_types.simps)
    next
      case (Some r)
      with that each show ?thesis
        by (cases r) (simp_all add: check_field_call_def route_member_def)
    qed
    show ?thesis
      using NODE_FIELD member
      by (cases "ident_name obj")
        (simp_all add: check_call_def check_field_call_def route_of_def route_def routes
          del: call_types.simps)
  qed (simp_all add: check_call_def route_of_def route_def plain)
qed

subsection \<open>Fields and literals\<close>

lemma silent_declared_field:
  "silent (check_declared_field ud at owner f d) c t \<longleftrightarrow> field_type c ud owner f d = Some t"
  by (auto simp: check_declared_field_def field_type_def substituted_type_def Let_def param_type_def
      silent_if_ok [OF _ _ holds_type] split: option.split)

lemma silent_value_field:
  assumes ev: "\<And>x. adding (ev x)"
  shows "silent (check_value_field ev ud at obj f) c t \<longleftrightarrow>
    (\<exists>u. silent (ev obj) c u \<and>
       (case builtin_field u f of Some v \<Rightarrow> v = Inr t | None \<Rightarrow> declared_field c ud u f = Some t))"
proof -
  let ?k = "\<lambda>u. case builtin_field u f of
       Some v \<Rightarrow> conclude at v
     | None \<Rightarrow>
         (case owner_name u of
            None \<Rightarrow> no_field_access at f u
          | Some owner \<Rightarrow>
              with_sema (\<lambda>sm. case field_owner_decl sm owner of
                None \<Rightarrow> no_field_access at f u
              | Some decl \<Rightarrow> check_declared_field ud at owner f decl))"
  have "adding (?k u)" for u
    by (auto split: option.split)
  then have "silent (check_value_field ev ud at obj f) c t \<longleftrightarrow> (\<exists>u. silent (ev obj) c u \<and> silent (?k u) c t)"
    unfolding check_value_field_def by (intro silent_bind ev)
  moreover have "silent (?k u) c t \<longleftrightarrow>
      (case builtin_field u f of Some v \<Rightarrow> v = Inr t | None \<Rightarrow> declared_field c ud u f = Some t)" for u
    by (simp add: declared_field_def no_field_access_def silent_declared_field split: option.split)
  ultimately show ?thesis by simp
qed

lemma silent_field:
  assumes ev: "\<And>x. adding (ev x)"
  shows "silent (check_field ev ud at obj f) c t \<longleftrightarrow>
    (case static_field c obj f of
       Some (d, u) \<Rightarrow> visible_decl c d \<and> t = u
     | None \<Rightarrow> silent (check_value_field ev ud at obj f) c t)"
  using adding_value_field [of ev, OF ev]
  by (auto simp: check_field_def static_field_def silent_if_ok [OF _ _ holds_decl] split: option.split)

text \<open>The fields of a literal: all given a type their declaration allows, or one that is not declared.\<close>

definition inits_typed :: "(node \<Rightarrow> night_type \<Rightarrow> bool) \<Rightarrow> node \<Rightarrow> (string \<times> node) list \<Rightarrow> bool" where
  "inits_typed J d inits \<longleftrightarrow>
     list_all (\<lambda>(f, x). \<exists>fd u. composite_field d f = Some fd \<and> J x u \<and>
       is_assignable (param_type fd) u) inits"

lemma ex_split_Cons:
  "(\<exists>pre y post. x # xs = pre @ y # post \<and> P pre y) \<longleftrightarrow>
     P [] x \<or> (\<exists>pre y post. xs = pre @ y # post \<and> P (x # pre) y)"
  by (auto simp: Cons_eq_append_conv)

definition init_undeclared :: "(node \<Rightarrow> night_type \<Rightarrow> bool) \<Rightarrow> node \<Rightarrow> (string \<times> node) list \<Rightarrow> bool" where
  "init_undeclared J d inits \<longleftrightarrow>
     (\<exists>pre i post. inits = pre @ i # post \<and> inits_typed J d pre \<and> composite_field d (fst i) = None)"

lemma inits_typed_Cons:
  "inits_typed J d ((f, x) # inits) \<longleftrightarrow>
     (\<exists>fd u. composite_field d f = Some fd \<and> J x u \<and> is_assignable (param_type fd) u) \<and>
     inits_typed J d inits"
  by (simp add: inits_typed_def)

lemma init_undeclared_Cons:
  "init_undeclared J d ((f, x) # inits) \<longleftrightarrow>
     composite_field d f = None \<or>
     (\<exists>fd u. composite_field d f = Some fd \<and> J x u \<and> is_assignable (param_type fd) u) \<and>
     init_undeclared J d inits"
  unfolding init_undeclared_def by (subst ex_split_Cons) (auto simp: inits_typed_def)

lemma silent_inits:
  assumes ev: "\<And>x. adding (ev x)"
  shows "silent (check_inits ev at s d inits) c t \<longleftrightarrow>
    (inits = [] \<or> visible_decl c d) \<and>
    (inits_typed (\<lambda>x. silent (ev x) c) d inits \<and> t = TYPE_NAMED s \<or>
     init_undeclared (\<lambda>x. silent (ev x) c) d inits \<and> t = TYPE_ERROR)"
proof (induction inits)
  case Nil
  then show ?case by (simp add: inits_typed_def init_undeclared_def)
next
  case (Cons i inits)
  obtain f x where i: "i = (f, x)" by fastforce
  show ?case
  proof (cases "composite_field d f")
    case None
    then show ?thesis
      by (auto simp: i silent_if_ok [OF _ _ holds_decl] inits_typed_Cons init_undeclared_Cons)
  next
    case (Some fd)
    let ?k = "\<lambda>u. if is_assignable (param_type fd) u then check_inits ev at s d inits
        else type_error x (''cannot initialize field '' @ in_quotes f @ '' with '' @ format_type u @
               ''; expected '' @ format_type (param_type fd))"
    have "silent (tbind (ev x) ?k) c t \<longleftrightarrow> (\<exists>u. silent (ev x) c u \<and> silent (?k u) c t)"
      using ev by (intro silent_bind) (simp_all add: adding_parts)
    moreover have "adding (tbind (ev x) ?k)"
      using ev by (simp add: adding_parts)
    moreover have "silent (?k u) c t \<longleftrightarrow>
        is_assignable (param_type fd) u \<and> silent (check_inits ev at s d inits) c t" for u
      by simp
    ultimately show ?thesis
      using Some
      by (auto simp: i silent_if_ok [OF _ _ holds_decl] Let_def param_type_def [symmetric] Cons.IH
          inits_typed_Cons init_undeclared_Cons)
  qed
qed

lemma silent_struct_lit:
  assumes ev: "\<And>x. adding (ev x)"
  shows "silent (check_struct_lit ev at s inits) c t \<longleftrightarrow>
    (case find_struct_or_union (c_sema c) s of
       Some d \<Rightarrow> silent (check_inits ev at s d inits) c t
     | None \<Rightarrow>
         if generic_struct c s = None then t = TYPE_ERROR
         else list_all (\<lambda>(f, x). \<exists>u. silent (ev x) c u) inits \<and> t = TYPE_NAMED s)"
  using ev
  by (auto simp: check_struct_lit_def generic_struct_def silent_bind adding_parts silent_ignored
      list_all_iff case_prod_beta split: option.split)

subsection \<open>Matches\<close>

lemma adding_split [simp]: "adding (split_pattern pat)"
  by (simp add: adding_def answers.sim_split_pattern answers.fits_def)

lemma silent_split:
  "silent (split_pattern pat) c r \<longleftrightarrow>
     (case strchr pat (CHR ''.'') of
        None \<Rightarrow> r = None
      | Some i \<Rightarrow> i < 128 \<and> r = Some (take i pat, drop (i + 1) pat))"
  by (auto simp: split_pattern_def split: option.split)

lemma silent_subject_pattern:
  "silent (check_subject_pattern at t pat) c r \<longleftrightarrow> subject_variant t pat = Some r"
proof -
  have "silent (tbind (split_pattern pat) (\<lambda>r. case r of
          None \<Rightarrow> tret None
        | Some (e, v) \<Rightarrow> if t = TYPE_NAMED e then tret (Some v) else complain at msg None)) c r \<longleftrightarrow>
      (case strchr pat (CHR ''.'') of
         None \<Rightarrow> Some None
       | Some i \<Rightarrow>
           if i < 128 \<and> t = TYPE_NAMED (take i pat) then Some (Some (drop (i + 1) pat)) else None) = Some r"
    for msg
    by (subst silent_bind) (auto simp: silent_split split: option.split prod.split)
  then show ?thesis
    unfolding check_subject_pattern_def subject_variant_def Let_def by auto
qed

lemma adding_subject_pattern [simp]: "adding (check_subject_pattern at t pat)"
  unfolding check_subject_pattern_def Let_def by (auto split: prod.split option.split)

lemma silent_pattern: "silent (check_pattern at t ms pat) c r \<longleftrightarrow> pattern_step t ms pat = Some r"
  by (auto simp: check_pattern_def pattern_step_def silent_bind silent_subject_pattern split: option.split)

lemma adding_get_match_binding_types [simp]: "adding (get_match_binding_types t pat)"
  unfolding get_match_binding_types_def by (auto split: prod.split option.split)

lemma silent_get_match_binding_types:
  "silent (get_match_binding_types t pat) c (Some ts) \<longleftrightarrow> payload_types c t pat = Some ts"
proof -
  let ?k = "\<lambda>r. case r of
          None \<Rightarrow> tret None
        | Some (e, v) \<Rightarrow>
            with_sema (\<lambda>sm. tret (case find_enum sm e of
              None \<Rightarrow> None
            | Some decl \<Rightarrow>
                Some (case enum_variant_fields decl v of
                        None \<Rightarrow> []
                      | Some fs \<Rightarrow> map (\<lambda>p. type_from_ast (let_type p)) fs)))"
  have "adding (?k r)" for r
    by (auto split: option.split)
  then have "silent (tbind (split_pattern pat) ?k) c (Some ts) \<longleftrightarrow>
      (\<exists>r. silent (split_pattern pat) c r \<and> silent (?k r) c (Some ts))"
    by (intro silent_bind) simp_all
  then have enum: "silent (tbind (split_pattern pat) ?k) c (Some ts) \<longleftrightarrow>
      (case strchr pat (CHR ''.'') of
         None \<Rightarrow> None
       | Some i \<Rightarrow>
           if i < 128 then
             map_option (\<lambda>d. map param_type (variant_payload d (drop (i + 1) pat)))
               (find_enum (c_sema c) (take i pat))
           else None) = Some ts"
    by (cases "strchr pat (CHR ''.'')")
      (auto simp: silent_split variant_payload_def param_type_def [abs_def] split: option.split)
  show ?thesis
  proof (cases "is_option_type t \<or> is_result_type t")
    case True
    then show ?thesis
      by (cases "result_inner_names t")
        (auto simp: get_match_binding_types_def payload_types_def result_payload_def)
  next
    case False
    with enum show ?thesis
      by (simp add: get_match_binding_types_def payload_types_def)
  qed
qed

lemma silent_binding_types:
  "silent (check_binding_types at t pat bs) c r \<longleftrightarrow> (\<exists>ts. r = Some ts \<and> arm_types c t pat bs = Some ts)"
proof -
  have "silent (check_binding_types at t pat bs) c r \<longleftrightarrow>
      (if pat = ''_'' then bs = [] \<and> r = Some []
       else \<exists>ts. silent (get_match_binding_types t pat) c (Some ts) \<and>
              (bs = [] \<or> length ts = length bs) \<and> r = Some ts)"
    unfolding check_binding_types_def
    by (auto simp: silent_bind split: option.splits if_splits)
  then show ?thesis
    by (auto simp: silent_get_match_binding_types arm_types_def split: option.split)
qed

lemma silent_join: "silent (join_arm v ms u) c r \<longleftrightarrow> (\<exists>ms'. r = Some ms' \<and> join ms u = Some ms')"
  by (auto simp: join_arm_def join_def split: option.split)

lemma silent_arm:
  assumes ev: "\<And>sc x. adding (rec sc x)"
  shows "silent (check_arm rec sc at t ms (pat, bs, v)) c r \<longleftrightarrow>
    pattern_step t ms pat = Some None \<and> r = None \<or>
    (\<exists>ms1 ts inner u ms2. pattern_step t ms pat = Some (Some ms1) \<and> arm_types c t pat bs = Some ts \<and>
       arm_scope sc bs ts = Inr inner \<and> silent (rec (Some inner) v) c u \<and> join ms1 u = Some ms2 \<and>
       r = Some ms2)"
proof -
  let ?body = "\<lambda>ms' ts. case arm_scope sc bs ts of
          Inl (s, _) \<Rightarrow> complain at (''duplicate match binding '' @ in_quotes s) None
        | Inr inner \<Rightarrow> tbind (rec (Some inner) v) (\<lambda>u. join_arm v ms' u)"
  have adding: "adding (?body ms' ts)" for ms' ts
    using ev by (auto split: sum.split)
  have body: "silent (?body ms' ts) c r \<longleftrightarrow>
      (\<exists>inner u ms2. arm_scope sc bs ts = Inr inner \<and> silent (rec (Some inner) v) c u \<and>
         join ms' u = Some ms2 \<and> r = Some ms2)" for ms' ts
    using ev by (auto simp: silent_bind silent_join split: sum.split)
  show ?thesis
    unfolding check_arm_def
    by (auto simp: silent_if_some adding body silent_pattern silent_binding_types)
qed

end
