(* ===== verification/Typeck_Sound.thy ===== *)
theory Typeck_Sound
  imports Typeck_Typing
begin

text \<open>
  The two directions of the agreement between checker and typing rules: a silent check gives a
  derivation, and a derivation gives silent checks for all large enough bounds.
\<close>

subsection \<open>A silent check gives a derivation\<close>

text \<open>\<open>sound_for\<close>: the evaluation \<open>rec\<close> is silent only with types that the rules give.\<close>

definition sound_for :: "checker \<Rightarrow> nat \<Rightarrow> (tscope option \<Rightarrow> node \<Rightarrow> night_type tc) \<Rightarrow> bool" where
  "sound_for c ud rec \<longleftrightarrow>
     (\<forall>sc x. adding (rec sc x)) \<and> (\<forall>sc x t. silent (rec sc x) c t \<longrightarrow> has_type c ud sc x t)"

lemma sound_forD:
  assumes "sound_for c ud rec"
  shows "adding (rec sc x)" "silent (rec sc x) c t \<Longrightarrow> has_type c ud sc x t"
  using assms by (auto simp: sound_for_def)

lemma sound_value:
  assumes "sound_for c ud rec" "silent (check_value (rec sc) t e) c u"
  shows "has_value c ud sc t e u"
proof -
  note silent = assms(2) [unfolded silent_value [OF sound_forD(1) [OF assms(1)]]]
  show ?thesis
  proof (cases "is_contextual t e")
    case False
    with silent show ?thesis
      by (auto intro: V_plain sound_forD [OF assms(1)])
  next
    case True
    then consider s where "nas e = NODE_IDENT s" | f args where "nas e = NODE_CALL f args"
      by (cases "nas e")
        (auto simp: is_contextual_def is_option_constructor_expr_def is_result_constructor_expr_def)
    then show ?thesis
    proof cases
      case 1
      with True silent show ?thesis by (auto intro: V_none)
    next
      case 2
      with True silent show ?thesis
        by (cases "ctor_payload t f") (auto intro: V_some V_unsplit sound_forD [OF assms(1)])
    qed
  qed
qed

lemma sound_passes:
  assumes "passes J ps args" "\<And>t a u. J t a u \<Longrightarrow> K t a u"
  shows "list_all2 (\<lambda>p a. \<exists>u. K (param_type p) a u \<and> is_assignable (param_type p) u) ps args"
  using assms(1) unfolding passes_def by (rule list_all2_mono) (auto intro: assms(2))

lemma sound_call:
  assumes "sound_for c ud rec" "nas e = NODE_CALL f args" "silent (check_call (rec sc) at f args) c t"
  shows "has_type c ud sc e t"
proof -
  note rec = sound_forD [OF assms(1)] and e = assms(2)
  note call = assms(3) [unfolded silent_call [OF rec(1)]]
  have passes: "list_all2 (\<lambda>p a. \<exists>u. has_value c ud sc (param_type p) a u \<and> is_assignable (param_type p) u) ps as"
    if "passes (\<lambda>t a. silent (check_value (rec sc) t a) c) ps as" for ps as
    using that by (rule sound_passes) (rule sound_value [OF assms(1)])
  have plain: "\<exists>fn. has_type c ud sc f (TYPE_FUNCTION fn) \<and>
      list_all2 (\<lambda>p a. \<exists>u. has_value c ud sc (param_type p) a u \<and> is_assignable (param_type p) u)
        (fn_params fn) args \<and> visible_type c (ret_type fn) \<and> t = ret_type fn"
    if "plain_types c (\<lambda>x. silent (rec sc x) c) (\<lambda>t a. silent (check_value (rec sc) t a) c) f args t"
    using that rec(2) passes unfolding plain_types_def by blast
  show ?thesis
  proof (cases "route_of c f")
    case (Of_value obj g)
    with call obtain u where u: "has_type c ud sc obj u"
      and split: "if is_string_method u g then args = [] \<and> string_result obj g u = Some t
         else
           (case method_of c u g of
              Some m \<Rightarrow> method_types c (\<lambda>t a. silent (check_value (rec sc) t a) c) m u obj args t
            | None \<Rightarrow> plain_types c (\<lambda>x. silent (rec sc x) c)
                (\<lambda>t a. silent (check_value (rec sc) t a) c) f args t)"
      by (auto intro: rec(2))
    show ?thesis
    proof (cases "is_string_method u g")
      case True
      with split e Of_value u show ?thesis by (auto intro: T_string_method)
    next
      case False
      show ?thesis
      proof (cases "method_of c u g")
        case None
        with False split plain e Of_value u show ?thesis by (auto intro: T_field_call)
      next
        case (Some m)
        with False split have "method_types c (\<lambda>t a. silent (check_value (rec sc) t a) c) m u obj args t"
          by simp
        then obtain p ps where "visible_decl c m" "fn_params m = p # ps" "let_name p = ''self''"
            "receives (param_type p) u obj" "visible_type c (ret_type m)" "t = ret_type m"
            "passes (\<lambda>t a. silent (check_value (rec sc) t a) c) ps args"
          unfolding method_types_def by blast
        with False Some e Of_value u show ?thesis
          using passes by (auto intro: T_method)
      qed
    qed
  next
    case (Types_arguments u)
    with call have "list_all (\<lambda>a. \<exists>v. has_type c ud sc a v) args" "t = u"
      by (auto simp: list_all_iff intro: rec(2))
    with Types_arguments e show ?thesis by (auto intro: T_each)
  next
    case (Constructor d s v)
    with call have "visible_decl c d" "t = TYPE_NAMED s"
        "list_all2 (\<lambda>p a. \<exists>u. has_type c ud sc a u \<and> is_assignable (param_type p) u)
           (variant_payload d v) args"
      by (auto intro: rec(2) sound_passes [of "\<lambda>_ x. silent (rec sc x) c"])
    with Constructor e show ?thesis by (auto intro: T_constructor)
  qed (use call e plain passes in \<open>auto intro: T_ignored T_string_from T_static_method T_call rec(2)\<close>)
qed

lemma sound_inits:
  assumes "sound_for c ud rec" "inits_typed (\<lambda>x. silent (rec sc x) c) d inits"
  shows "list_all (\<lambda>(f, x). \<exists>fd u. composite_field d f = Some fd \<and> has_type c ud sc x u \<and>
      is_assignable (param_type fd) u) inits"
  using assms(2) sound_forD(2) [OF assms(1)] unfolding inits_typed_def list_all_iff by fast

lemma sound_struct_lit:
  assumes "sound_for c ud rec" "nas e = NODE_STRUCT_LIT s inits"
    and "silent (check_struct_lit (rec sc) at s inits) c t"
  shows "has_type c ud sc e t"
proof -
  note rec = sound_forD [OF assms(1)] and e = assms(2)
  note lit = assms(3) [unfolded silent_struct_lit [OF rec(1)] silent_inits [OF rec(1)]]
  show ?thesis
  proof (cases "find_struct_or_union (c_sema c) s")
    case None
    show ?thesis
    proof (cases "generic_struct c s")
      case (Some d)
      with lit None have "list_all (\<lambda>(f, x). \<exists>u. has_type c ud sc x u) inits" "t = TYPE_NAMED s"
        by (auto simp: list_all_iff case_prod_beta intro: rec(2))
      with None Some e show ?thesis by (auto intro: T_generic_struct)
    qed (use lit None e in \<open>auto intro: T_no_such_struct\<close>)
  next
    case (Some d)
    with lit consider "inits_typed (\<lambda>x. silent (rec sc x) c) d inits" "t = TYPE_NAMED s"
        "inits = [] \<or> visible_decl c d"
      | pre f x post where "inits = pre @ (f, x) # post" "inits_typed (\<lambda>x. silent (rec sc x) c) d pre"
        "composite_field d f = None" "t = TYPE_ERROR" "visible_decl c d"
      by (auto simp: init_undeclared_def)
    then show ?thesis
    proof cases
      case 1
      with Some e sound_inits [OF assms(1) 1(1)] show ?thesis by (auto intro: T_struct)
    next
      case 2
      with Some e sound_inits [OF assms(1) 2(2)] show ?thesis by (auto intro: T_no_such_field)
    qed
  qed
qed

lemma sound_arms:
  assumes "sound_for c ud rec" "silent (check_arms rec sc at t ms arms) c r"
  shows "has_arms c ud sc t ms arms r"
  using assms(2)
proof (induction arms arbitrary: ms)
  case Nil
  then show ?case by (auto intro: A_nil)
next
  case (Cons arm arms)
  note rec = sound_forD [OF assms(1)]
  obtain pat bs v where arm: "arm = (pat, bs, v)" by (cases arm)
  have "adding (check_arm rec sc at t ms (pat, bs, v))"
    by (auto simp: check_arm_def rec(1) split: sum.split)
  with Cons.prems consider "pattern_step t ms pat = Some None" "r = None"
    | ms1 ts inner u ms2 where "pattern_step t ms pat = Some (Some ms1)" "arm_types c t pat bs = Some ts"
      "arm_scope sc bs ts = Inr inner" "silent (rec (Some inner) v) c u" "join ms1 u = Some ms2"
      "silent (check_arms rec sc at t ms2 arms) c r"
    by (auto simp: arm silent_if_some adding_arms rec(1) silent_arm [of rec, OF rec(1)])
  then show ?case
    by cases (auto simp: arm intro: A_dotless A_cons rec(2) Cons.IH)
qed

text \<open>The type of a match from how its arms ended.\<close>

definition match_outcome :: "checker \<Rightarrow> night_type \<Rightarrow> match_state option \<Rightarrow> night_type \<Rightarrow> bool" where
  "match_outcome c u r t \<longleftrightarrow>
     (case r of
        None \<Rightarrow> t = TYPE_ERROR
      | Some ms \<Rightarrow> missing_variant (c_sema c) u ms = None \<and> t = match_type ms)"

lemma silent_match:
  assumes rec: "\<And>sc x. adding (rec sc x)"
  shows "silent (check_match_expr rec sc at x arms) c t \<longleftrightarrow>
    (\<exists>u r. silent (rec sc x) c u \<and> can_match (c_sema c) u \<and>
       silent (check_arms rec sc at u match_init arms) c r \<and> match_outcome c u r t)"
proof -
  let ?fin = "\<lambda>u sm r. case r of
           None \<Rightarrow> tret TYPE_ERROR
         | Some ms \<Rightarrow>
             (case missing_variant sm u ms of
                Some msg \<Rightarrow> type_error at msg
              | None \<Rightarrow> tret (case result_type ms of Some u \<Rightarrow> u | None \<Rightarrow> TYPE_ERROR))"
  let ?k = "\<lambda>u. with_sema (\<lambda>sm. if \<not> can_match sm u then
         type_error at (''match subject must be an enum, Option, or Result'' @ got u)
       else tbind (check_arms rec sc at u match_init arms) (?fin u sm))"
  have "adding (?fin u sm r)" for u sm r
    by simp
  then have k: "silent (?k u) c t \<longleftrightarrow> can_match (c_sema c) u \<and>
      (\<exists>r. silent (check_arms rec sc at u match_init arms) c r \<and> silent (?fin u (c_sema c) r) c t)" for u
    by (simp add: silent_bind adding_arms rec)
  have "silent (?fin u (c_sema c) r) c t \<longleftrightarrow> match_outcome c u r t" for u r
    by (auto simp: match_outcome_def match_type_def split: option.split)
  moreover have "adding (?k u)" for u
    by (simp add: adding_arms rec)
  then have "silent (check_match_expr rec sc at x arms) c t \<longleftrightarrow>
      (\<exists>u. silent (rec sc x) c u \<and> silent (?k u) c t)"
    unfolding check_match_expr_def by (intro silent_bind rec)
  ultimately show ?thesis
    unfolding k by auto
qed

lemma sound_node:
  assumes "sound_for c ud rec" "silent (check_node rec ud sc e) c t"
  shows "has_type c ud sc e t"
proof -
  note rec = sound_forD [OF assms(1)]
  note silents = silent_bind rec adding_parts [of "rec sc", OF rec(1)]
  show ?thesis
  proof (cases "nas e")
    case (NODE_IDENT s)
    with assms(2) have "silent (check_ident rec sc e s) c t" by (simp add: check_node_def)
    then consider b where "resolve_in sc s = Some b" "visible_type c (b_type b)" "t = b_type b"
      | "resolve_in sc s = None" "s \<in> {''stdout'', ''stderr'', ''stdin''}" "t = TYPE_VOID"
      | "free_name sc s" "silent (check_global rec e s) c t"
      by (auto simp: check_ident_def free_name_def silent_if_ok [OF _ _ holds_type]
          split: option.splits if_splits)
    then show ?thesis
    proof cases
      case 3
      then show ?thesis
        using T_const [OF NODE_IDENT 3(1) _ _ rec(2)] T_typed_const [OF NODE_IDENT 3(1)]
          T_function [OF NODE_IDENT 3(1)] T_unknown [OF NODE_IDENT 3(1)]
        by (auto simp: check_global_def type_from_ast_def silent_if_ok [OF _ _ holds_decl]
            split: option.splits)
    qed (use NODE_IDENT in \<open>auto intro: T_local T_stream\<close>)
  next
    case (NODE_UNARY op x)
    with assms(2) show ?thesis
      by (auto simp: check_node_def Let_def check_try_expr_def silents split: option.splits if_splits
          intro: T_try [OF _ _ rec(2)] T_unary [OF _ _ rec(2)])
  next
    case (NODE_SLICE x i j)
    with assms(2) obtain u v w where u: "silent (rec sc x) c u" "silent (check_opt (rec sc) i) c v"
        "silent (check_opt (rec sc) j) c w" "slice_rule u v w = Inr t"
      by (auto simp: check_node_def Let_def silents)
    have opt: "rel_option (has_type c ud sc) k v" if "silent (check_opt (rec sc) k) c v" for k v
      using that by (cases k) (auto simp: check_opt_def silents intro: rec(2))
    show ?thesis
      by (rule T_slice [OF NODE_SLICE rec(2) [OF u(1)] opt [OF u(2)] opt [OF u(3)] u(4)])
  next
    case (NODE_CALL f args)
    with assms(2) show ?thesis
      by (auto simp: check_node_def Let_def intro: sound_call [OF assms(1)])
  next
    case (NODE_FIELD x f)
    with assms(2) have "silent (check_field (rec sc) ud e x f) c t"
      by (simp add: check_node_def Let_def)
    note field = this [unfolded silent_field [of "rec sc", OF rec(1)] silent_value_field [of "rec sc", OF rec(1)]]
    show ?thesis
    proof (cases "static_field c x f")
      case None
      with field obtain u where "has_type c ud sc x u"
          "case builtin_field u f of Some v \<Rightarrow> v = Inr t | None \<Rightarrow> declared_field c ud u f = Some t"
        by (auto intro: rec(2))
      with None NODE_FIELD show ?thesis
        by (cases "builtin_field u f") (auto intro: T_builtin_field T_field)
    qed (use field NODE_FIELD in \<open>auto intro: T_member\<close>)
  next
    case (NODE_STRUCT_LIT s inits)
    with assms(2) show ?thesis
      by (auto simp: check_node_def Let_def intro: sound_struct_lit [OF assms(1)])
  next
    case (NODE_MATCH x arms)
    with assms(2) have "silent (check_match_expr rec sc e x arms) c t"
      by (simp add: check_node_def)
    then obtain u r where u: "silent (rec sc x) c u" "can_match (c_sema c) u"
        "silent (check_arms rec sc e u match_init arms) c r" "match_outcome c u r t"
      by (auto simp: silent_match [of rec, OF rec(1)])
    with NODE_MATCH rec(2) [OF u(1)] sound_arms [OF assms(1) u(3)] show ?thesis
      by (cases r) (auto simp: match_outcome_def intro: T_match T_dotless)
  qed (use assms(2) in \<open>auto simp: check_node_def Let_def silents literal_type_def cast_rule_def check_assign_def
        is_expression_def split: if_splits
        intro: T_literal T_group T_binary T_index T_cast T_assign T_other rec(2)\<close>)
qed

theorem check_expr_sound:
  "silent (check_expr n ud sc e) c t \<Longrightarrow> has_type c ud sc e t"
proof (induction n arbitrary: sc e t)
  case (Suc n)
  then have "sound_for c ud (check_expr n ud)"
    by (simp add: sound_for_def)
  with Suc.prems show ?case
    by (auto intro: sound_node)
qed simp

end
