(* ===== verification/Typeck_Complete.thy ===== *)
theory Typeck_Complete
  imports Typeck_Sound
begin

text \<open>
  The second direction of the agreement: what the typing rules derive, the checker finds without a
  diagnostic under every large enough bound on the nesting of calls.
\<close>

subsection \<open>A derivation gives silent checks\<close>

text \<open>\<open>settles f x\<close>: for all large enough bounds the check is silent with result \<open>x\<close>.\<close>

definition settles :: "checker \<Rightarrow> (nat \<Rightarrow> 'a tc) \<Rightarrow> 'a \<Rightarrow> bool" where
  "settles c f x \<longleftrightarrow> eventually (\<lambda>n. silent (f n) c x) sequentially"

lemma settles_node:
  assumes "eventually (\<lambda>n. silent (check_node (check_expr n ud) ud sc e) c t) sequentially"
  shows "settles c (\<lambda>n. check_expr n ud sc e) t"
  unfolding settles_def
  by (subst eventually_sequentially_Suc [symmetric]) (simp add: assms)

lemma settles_constant:
  assumes "\<And>n. silent (check_node (check_expr n ud) ud sc e) c t"
  shows "settles c (\<lambda>n. check_expr n ud sc e) t"
  by (intro settles_node always_eventually allI assms)

lemma settles_where:
  assumes "eventually Q sequentially" "\<And>n. Q n \<Longrightarrow> silent (check_node (check_expr n ud) ud sc e) c t"
  shows "settles c (\<lambda>n. check_expr n ud sc e) t"
  using assms(1) by (intro settles_node) (auto elim: eventually_mono intro: assms(2))

lemma settles_opt:
  assumes "rel_option (\<lambda>x t. has_type c ud sc x t \<and> settles c (\<lambda>n. check_expr n ud sc x) t) e u"
  shows "settles c (\<lambda>n. check_opt (check_expr n ud sc) e) u"
  using assms
  by cases (auto simp: settles_def check_opt_def silent_bind elim: eventually_mono)

lemma settles_passes:
  assumes "list_all2 (\<lambda>p a. \<exists>u. (J p a u \<and> settles c (\<lambda>n. f n (param_type p) a) u) \<and>
      is_assignable (param_type p) u) ps args"
  shows "eventually (\<lambda>n. passes (\<lambda>t a. silent (f n t a) c) ps args) sequentially"
  using assms
proof (induction rule: list_all2_induct)
  case (Cons p ps a args)
  then obtain u where "eventually (\<lambda>n. silent (f n (param_type p) a) c u) sequentially"
      "is_assignable (param_type p) u"
    by (auto simp: settles_def)
  with Cons.IH show ?case
    by (auto simp: passes_def elim: eventually_elim2)
qed (simp add: passes_def)

lemma settles_values:
  assumes "list_all2 (\<lambda>p a. \<exists>u. (has_value c ud sc (param_type p) a u \<and>
      settles c (\<lambda>n. check_value (check_expr n ud sc) (param_type p) a) u) \<and>
      is_assignable (param_type p) u) ps args"
  shows "eventually (\<lambda>n. passes (\<lambda>t a. silent (check_value (check_expr n ud sc) t a) c) ps args) sequentially"
  by (rule settles_passes [where f = "\<lambda>n. check_value (check_expr n ud sc)", OF assms])

lemma settles_each:
  assumes "list_all (\<lambda>a. \<exists>u. J a u \<and> settles c (\<lambda>n. f n a) u) args"
  shows "eventually (\<lambda>n. list_all (\<lambda>a. \<exists>u. silent (f n a) c u) args) sequentially"
  using assms
  by (induction args) (auto simp: settles_def elim: eventually_elim2)

lemma settles_inits:
  assumes "list_all (\<lambda>(f, x). \<exists>fd u. composite_field d f = Some fd \<and>
      (has_type c ud sc x u \<and> settles c (\<lambda>n. check_expr n ud sc x) u) \<and>
      is_assignable (param_type fd) u) inits"
  shows "eventually (\<lambda>n. inits_typed (\<lambda>x. silent (check_expr n ud sc x) c) d inits) sequentially"
  using assms
proof (induction inits)
  case (Cons i inits)
  obtain f x where i: "i = (f, x)" by fastforce
  from Cons.prems obtain fd u where u: "composite_field d f = Some fd" "is_assignable (param_type fd) u"
      "eventually (\<lambda>n. silent (check_expr n ud sc x) c u) sequentially"
    by (auto simp: i settles_def)
  from Cons have "eventually (\<lambda>n. inits_typed (\<lambda>x. silent (check_expr n ud sc x) c) d inits) sequentially"
    by simp
  with u(3) show ?case
    by (rule eventually_elim2) (use u in \<open>auto simp: i inits_typed_Cons\<close>)
qed (simp add: inits_typed_def)

lemma silent_check_call:
  assumes "nas e = NODE_CALL f args"
    and "call_types c (\<lambda>x. silent (check_expr n ud sc x) c)
      (\<lambda>t a. silent (check_value (check_expr n ud sc) t a) c) f args (route_of c f) t"
  shows "silent (check_node (check_expr n ud) ud sc e) c t"
  using assms by (simp add: check_node_def silent_call)

lemma silent_plain_call_types:
  assumes "nas e = NODE_CALL f args" "route_of c f = Plain"
    and "silent (check_expr n ud sc f) c (TYPE_FUNCTION fn)"
    and "passes (\<lambda>t a. silent (check_value (check_expr n ud sc) t a) c) (fn_params fn) args"
    and "visible_type c (ret_type fn)"
  shows "silent (check_node (check_expr n ud) ud sc e) c (ret_type fn)"
  using assms by (auto intro!: silent_check_call simp: plain_types_def)

text \<open>The free names: what \<^verbatim>\<open>check_expr\<close> does once no binding and no built-in name was found.\<close>

lemma silent_free_name:
  assumes "nas e = NODE_IDENT s" "free_name sc s" "silent (check_global rec e s) c t"
  shows "silent (check_node rec ud sc e) c t"
  using assms by (simp add: check_node_def check_ident_def free_name_def)

lemma silent_local:
  assumes "nas e = NODE_IDENT s" "resolve_in sc s = Some b" "visible_type c (b_type b)"
  shows "silent (check_node rec ud sc e) c (b_type b)"
  using assms by (simp add: check_node_def check_ident_def silent_if_ok [OF _ _ holds_type])

lemma silent_literal:
  assumes "literal_type e = Some t"
  shows "silent (check_node rec ud sc e) c t"
  using assms by (cases "nas e") (auto simp: check_node_def literal_type_def)

lemma silent_other:
  assumes "\<not> is_expression e"
  shows "silent (check_node rec ud sc e) c TYPE_ERROR"
  using assms by (cases "nas e") (auto simp: check_node_def is_expression_def literal_type_def)

lemma adding_arm: "adding (check_arm (check_expr n ud) sc at t ms (pat, bs, v))"
  by (auto simp: check_arm_def split: sum.split)

theorem check_expr_complete:
  shows "has_type c ud sc e t \<Longrightarrow> settles c (\<lambda>n. check_expr n ud sc e) t"
    and "has_value c ud sc t' e' u \<Longrightarrow> settles c (\<lambda>n. check_value (check_expr n ud sc) t' e') u"
    and "has_arms c ud sc t'' ms arms r \<Longrightarrow>
      settles c (\<lambda>n. check_arms (check_expr n ud) sc at t'' ms arms) r"
proof (induction arbitrary: and and at rule: has_type_has_value_has_arms.inducts)
  case (T_literal e t sc)
  then show ?case by (intro settles_constant silent_literal)
next
  case (T_local e s sc b)
  then show ?case by (intro settles_constant silent_local)
next
  case (T_stream e s sc)
  then show ?case by (intro settles_constant) (auto simp: check_node_def check_ident_def)
next
  case (T_function e s sc fn)
  then show ?case
    by (intro settles_constant silent_free_name)
      (auto simp: check_global_def silent_if_ok [OF _ _ holds_decl])
next
  case (T_typed_const e s sc ty v)
  then show ?case
    by (intro settles_constant silent_free_name) (auto simp: check_global_def type_from_ast_def)
next
  case (T_const e s sc v t)
  from T_const(6) show ?case
    unfolding settles_def [of _ _ t]
    by (rule settles_where [unfolded settles_def]) (rule silent_free_name [OF T_const(1,2)], use T_const(3,4) in \<open>simp add: check_global_def\<close>)
next
  case (T_unknown e s sc)
  then show ?case
    by (intro settles_constant silent_free_name) (auto simp: check_global_def)
next
  case (T_group e x sc t)
  then have "eventually (\<lambda>n. silent (check_expr n ud sc x) c t) sequentially"
    by (simp add: settles_def)
  then show ?case
    by (rule settles_where) (use T_group in \<open>simp add: check_node_def\<close>)
next
  case (T_try e x ret sc t u)
  then have "eventually (\<lambda>n. silent (check_expr n ud sc x) c t) sequentially"
    by (simp add: settles_def)
  then show ?case
    by (rule settles_where) (use T_try in \<open>auto simp: check_node_def check_try_expr_def silent_bind\<close>)
next
  case (T_unary e op x sc t u)
  then have "eventually (\<lambda>n. silent (check_expr n ud sc x) c t) sequentially"
    by (simp add: settles_def)
  then show ?case
    by (rule settles_where) (use T_unary in \<open>auto simp: check_node_def Let_def silent_bind\<close>)
next
  case (T_binary e op x y sc t u v)
  then have "eventually (\<lambda>n. silent (check_expr n ud sc x) c t \<and> silent (check_expr n ud sc y) c u) sequentially"
    by (simp add: settles_def eventually_conj_iff)
  then show ?case
    by (rule settles_where) (use T_binary in \<open>auto simp: check_node_def Let_def silent_bind\<close>)
next
  case (T_assign e x y op sc t u v)
  then have "eventually (\<lambda>n. silent (check_expr n ud sc x) c t \<and> silent (check_expr n ud sc y) c u) sequentially"
    by (simp add: settles_def eventually_conj_iff)
  then show ?case
    by (rule settles_where)
      (use T_assign in \<open>auto simp: check_node_def check_assign_def Let_def silent_bind\<close>)
next
  case (T_index e x i sc t u v)
  then have "eventually (\<lambda>n. silent (check_expr n ud sc x) c t \<and> silent (check_expr n ud sc i) c u) sequentially"
    by (simp add: settles_def eventually_conj_iff)
  then show ?case
    by (rule settles_where) (use T_index in \<open>auto simp: check_node_def Let_def silent_bind\<close>)
next
  case (T_slice e x i j sc t u v w)
  then have "eventually (\<lambda>n. silent (check_expr n ud sc x) c t \<and>
      silent (check_opt (check_expr n ud sc) i) c u \<and> silent (check_opt (check_expr n ud sc) j) c v) sequentially"
    by (auto simp: settles_def eventually_conj_iff dest!: settles_opt [unfolded settles_def])
  then show ?case
    by (rule settles_where)
      (use T_slice in \<open>auto simp: check_node_def Let_def silent_bind adding_parts\<close>)
next
  case (T_cast e x ty sc t)
  then have "eventually (\<lambda>n. silent (check_expr n ud sc x) c t) sequentially"
    by (simp add: settles_def)
  then show ?case
    by (rule settles_where) (use T_cast in \<open>auto simp: check_node_def Let_def silent_bind cast_rule_def\<close>)
next
  case (T_ignored e f args t sc)
  then show ?case by (intro settles_constant silent_check_call) auto
next
  case (T_each e f args t sc)
  note settles_each [OF T_each(3)]
  then show ?case
    by (rule settles_where) (rule silent_check_call [OF T_each(1)], use T_each in simp)
next
  case (T_string_from e f a sc t)
  then have "eventually (\<lambda>n. silent (check_expr n ud sc a) c t) sequentially"
    by (simp add: settles_def)
  then show ?case
    by (rule settles_where) (rule silent_check_call [OF T_string_from(1)], use T_string_from in auto)
next
  case (T_constructor e f args d s v sc)
  note settles_passes [where f = "\<lambda>n _. check_expr n ud sc", OF T_constructor(4)]
  then show ?case
    by (rule settles_where) (rule silent_check_call [OF T_constructor(1)], use T_constructor in simp)
next
  case (T_static_method e f args m sc)
  note settles_values [OF T_static_method(4)]
  then show ?case
    by (rule settles_where) (rule silent_check_call [OF T_static_method(1)], use T_static_method in simp)
next
  case (T_string_method e f obj g sc t u)
  then have "eventually (\<lambda>n. silent (check_expr n ud sc obj) c t) sequentially"
    by (simp add: settles_def)
  then show ?case
    by (rule settles_where)
      (rule silent_check_call [OF T_string_method(1)], use T_string_method in auto)
next
  case (T_method e f args obj g sc t m p ps)
  then have "eventually (\<lambda>n. passes (\<lambda>t a. silent (check_value (check_expr n ud sc) t a) c) ps args) sequentially"
    by (intro settles_values) simp
  with T_method have "eventually (\<lambda>n. silent (check_expr n ud sc obj) c t \<and>
      passes (\<lambda>t a. silent (check_value (check_expr n ud sc) t a) c) ps args) sequentially"
    by (simp add: settles_def eventually_conj_iff)
  then show ?case
    by (rule settles_where)
      (rule silent_check_call [OF T_method(1)], use T_method in \<open>auto simp: method_types_def intro!: exI [of _ t]\<close>)
next
  case (T_field_call e f args obj g sc t fn)
  then have "eventually (\<lambda>n. passes (\<lambda>t a. silent (check_value (check_expr n ud sc) t a) c) (fn_params fn) args) sequentially"
    by (intro settles_values) simp
  with T_field_call have "eventually (\<lambda>n. silent (check_expr n ud sc obj) c t \<and>
      silent (check_expr n ud sc f) c (TYPE_FUNCTION fn) \<and>
      passes (\<lambda>t a. silent (check_value (check_expr n ud sc) t a) c) (fn_params fn) args) sequentially"
    by (simp add: settles_def eventually_conj_iff)
  then show ?case
    by (rule settles_where)
      (rule silent_check_call [OF T_field_call(1)], use T_field_call in \<open>auto simp: plain_types_def intro!: exI [of _ t]\<close>)
next
  case (T_call e f args sc fn)
  then have "eventually (\<lambda>n. passes (\<lambda>t a. silent (check_value (check_expr n ud sc) t a) c) (fn_params fn) args) sequentially"
    by (intro settles_values) simp
  with T_call have "eventually (\<lambda>n. silent (check_expr n ud sc f) c (TYPE_FUNCTION fn) \<and>
      passes (\<lambda>t a. silent (check_value (check_expr n ud sc) t a) c) (fn_params fn) args) sequentially"
    by (simp add: settles_def eventually_conj_iff)
  then show ?case
    by (rule settles_where) (rule silent_plain_call_types [OF T_call(1,2)], use T_call in auto)
next
  case (T_member e x f d t sc)
  then show ?case by (intro settles_constant) (auto simp: check_node_def silent_field)
next
  case (T_builtin_field e x f sc t u)
  then have "eventually (\<lambda>n. silent (check_expr n ud sc x) c t) sequentially"
    by (simp add: settles_def)
  then show ?case
    by (rule settles_where)
      (use T_builtin_field in \<open>auto simp: check_node_def Let_def silent_field silent_value_field\<close>)
next
  case (T_field e x f sc t u)
  then have "eventually (\<lambda>n. silent (check_expr n ud sc x) c t) sequentially"
    by (simp add: settles_def)
  then show ?case
    by (rule settles_where)
      (use T_field in \<open>auto simp: check_node_def Let_def silent_field silent_value_field\<close>)
next
  case (T_struct e s inits d sc)
  note settles_inits [OF T_struct(4)]
  then show ?case
    by (rule settles_where)
      (use T_struct in \<open>auto simp: check_node_def Let_def silent_struct_lit silent_inits\<close>)
next
  case (T_no_such_field e s inits f x rest d sc)
  note settles_inits [OF T_no_such_field(5)]
  then show ?case
    by (rule settles_where)
      (use T_no_such_field in \<open>auto simp: check_node_def Let_def silent_struct_lit silent_inits
         init_undeclared_def\<close>)
next
  case (T_generic_struct e s inits d sc)
  have "eventually (\<lambda>n. list_all (\<lambda>(f, x). \<exists>u. silent (check_expr n ud sc x) c u) inits) sequentially"
    using settles_each [where f = "\<lambda>n (f, x). check_expr n ud sc x" and
        J = "\<lambda>(f, x). has_type c ud sc x" and args = inits and c = c] T_generic_struct(4)
    by (simp add: case_prod_unfold)
  then show ?case
    by (rule settles_where)
      (use T_generic_struct in \<open>auto simp: check_node_def Let_def silent_struct_lit\<close>)
next
  case (T_no_such_struct e s inits sc)
  then show ?case by (intro settles_constant) (auto simp: check_node_def silent_struct_lit)
next
  case (T_match e x arms sc t ms)
  then have "eventually (\<lambda>n. silent (check_expr n ud sc x) c t \<and>
      silent (check_arms (check_expr n ud) sc e t match_init arms) c (Some ms)) sequentially"
    by (simp add: settles_def eventually_conj_iff)
  then show ?case
    by (rule settles_where)
      (use T_match in \<open>auto simp: check_node_def Let_def silent_match match_outcome_def
         intro!: exI [of _ t] exI [of _ "Some ms"]\<close>)
next
  case (T_dotless e x arms sc t)
  then have "eventually (\<lambda>n. silent (check_expr n ud sc x) c t \<and>
      silent (check_arms (check_expr n ud) sc e t match_init arms) c None) sequentially"
    by (simp add: settles_def eventually_conj_iff)
  then show ?case
    by (rule settles_where)
      (use T_dotless in \<open>auto simp: check_node_def Let_def silent_match match_outcome_def
         intro!: exI [of _ t] exI [of _ None]\<close>)
next
  case (T_other e sc)
  then show ?case by (intro settles_constant silent_other)
next
  case (V_plain t e sc u)
  then show ?case by (simp add: settles_def silent_value)
next
  case (V_none t e s sc)
  then show ?case by (simp add: settles_def silent_value)
next
  case (V_some t e f a p sc u)
  then have "eventually (\<lambda>n. silent (check_expr n ud sc a) c u) sequentially"
    by (simp add: settles_def)
  then show ?case
    unfolding settles_def
    by (rule eventually_mono) (use V_some in \<open>auto simp: silent_value\<close>)
next
  case (V_unsplit t e f a sc)
  then show ?case by (simp add: settles_def silent_value)
next
  case (A_nil sc t ms)
  then show ?case by (simp add: settles_def)
next
  case (A_dotless t ms pat sc bs v arms)
  then show ?case
    by (simp add: settles_def silent_if_some adding_arms adding_arm silent_arm)
next
  case (A_cons t ms pat ms1 bs ts sc inner v u ms2 arms r)
  then have "eventually (\<lambda>n. silent (check_expr n ud (Some inner) v) c u \<and>
      silent (check_arms (check_expr n ud) sc at t ms2 arms) c r) sequentially"
    by (simp add: settles_def eventually_conj_iff)
  then show ?case
    unfolding settles_def
    by (rule eventually_mono) (use A_cons in \<open>auto simp: silent_if_some adding_arms adding_arm silent_arm\<close>)
qed

end
