(* ===== verification/Typeck_Statements.thy ===== *)
theory Typeck_Statements
  imports Typeck_Complete
begin

text \<open>
  The typing rules of statements and their agreement with \<^verbatim>\<open>check_stmt\<close>. A statement in scope \<open>sc\<close> leaves the scope
  \<open>sc'\<close>, which holds the name it declares.
\<close>

subsection \<open>The rules of statements\<close>

text \<open>The type of a variable or constant, from its declared type \<open>ty\<close> and its initializer.\<close>

definition init_typed :: "checker \<Rightarrow> nat \<Rightarrow> tscope \<Rightarrow> night_type option \<Rightarrow> node option \<Rightarrow> night_type option \<Rightarrow> bool" where
  "init_typed c ud sc declared v actual \<longleftrightarrow>
     rel_option (\<lambda>e u.
       case declared of Some t \<Rightarrow> has_value c ud (Some sc) t e u | None \<Rightarrow> has_type c ud (Some sc) e u) v actual"

definition settled :: "night_type option \<Rightarrow> night_type option \<Rightarrow> night_type \<Rightarrow> bool" where
  "settled declared actual t \<longleftrightarrow>
     or_else declared (map_option widen_literal actual) = Some t \<and> t \<noteq> TYPE_NULL \<and>
     pred_option (is_assignable t) actual"

definition local_typed ::
  "checker \<Rightarrow> nat \<Rightarrow> string \<Rightarrow> bool \<Rightarrow> node option \<Rightarrow> node option \<Rightarrow> tscope \<Rightarrow> tscope \<Rightarrow> bool" where
  "local_typed c ud s mutable ty v sc sc' \<longleftrightarrow>
     visible_opt c ty \<and>
     (\<exists>actual t. init_typed c ud sc (map_option type_from_node ty) v actual \<and>
        settled (map_option type_from_node ty) actual t \<and>
        tscope_define sc s (bind_var t mutable) = Some sc')"

definition return_typed :: "checker \<Rightarrow> nat \<Rightarrow> tscope \<Rightarrow> night_type \<Rightarrow> node option \<Rightarrow> bool" where
  "return_typed c ud sc ret v \<longleftrightarrow>
     (if ret = TYPE_VOID then v = None
      else \<exists>e u. v = Some e \<and> has_value c ud (Some sc) ret e u \<and> is_assignable ret u)"

definition condition_typed :: "checker \<Rightarrow> nat \<Rightarrow> tscope \<Rightarrow> node \<Rightarrow> bool" where
  "condition_typed c ud sc e \<longleftrightarrow> (\<exists>t. has_type c ud (Some sc) e t \<and> is_assignable TYPE_BOOL t)"

definition effect_typed :: "checker \<Rightarrow> nat \<Rightarrow> tscope \<Rightarrow> node \<Rightarrow> bool" where
  "effect_typed c ud sc e \<longleftrightarrow> (\<exists>t. has_type c ud (Some sc) e t \<and> t \<noteq> TYPE_ERROR)"

inductive stmt_typed :: "checker \<Rightarrow> night_type \<Rightarrow> nat \<Rightarrow> node \<Rightarrow> tscope \<Rightarrow> tscope \<Rightarrow> bool"
  and stmts_typed :: "checker \<Rightarrow> night_type \<Rightarrow> nat \<Rightarrow> node list \<Rightarrow> tscope \<Rightarrow> tscope \<Rightarrow> bool"
  and block_typed :: "checker \<Rightarrow> night_type \<Rightarrow> nat \<Rightarrow> node \<Rightarrow> tscope \<Rightarrow> bool"
  for c ret where
  S_let: "nas s = NODE_LET x ty v \<Longrightarrow> local_typed c ud x True ty v sc sc' \<Longrightarrow>
    stmt_typed c ret ud s sc sc'"
| S_const: "nas s = NODE_CONST x ty v \<Longrightarrow> local_typed c ud x False ty (Some v) sc sc' \<Longrightarrow>
    stmt_typed c ret ud s sc sc'"
| S_return: "nas s = NODE_RETURN v \<Longrightarrow> return_typed c ud sc ret v \<Longrightarrow> stmt_typed c ret ud s sc sc"
| S_if: "nas s = NODE_IF e th None \<Longrightarrow> condition_typed c ud sc e \<Longrightarrow> block_typed c ret ud th sc \<Longrightarrow>
    stmt_typed c ret ud s sc sc"
| S_else: "nas s = NODE_IF e th (Some el) \<Longrightarrow> condition_typed c ud sc e \<Longrightarrow> block_typed c ret ud th sc \<Longrightarrow>
    nas el = NODE_BLOCK ss \<Longrightarrow> block_typed c ret ud el sc \<Longrightarrow> stmt_typed c ret ud s sc sc"
| S_else_if: "nas s = NODE_IF e th (Some el) \<Longrightarrow> condition_typed c ud sc e \<Longrightarrow>
    block_typed c ret ud th sc \<Longrightarrow> \<forall>ss. nas el \<noteq> NODE_BLOCK ss \<Longrightarrow>
    stmt_typed c ret ud el (tscope_new (Some sc)) sc' \<Longrightarrow> stmt_typed c ret ud s sc sc"
| S_while: "nas s = NODE_WHILE e b \<Longrightarrow> condition_typed c ud sc e \<Longrightarrow> block_typed c ret ud b sc \<Longrightarrow>
    stmt_typed c ret ud s sc sc"
| S_loop: "nas s = NODE_LOOP b \<Longrightarrow> block_typed c ret ud b sc \<Longrightarrow> stmt_typed c ret ud s sc sc"
| S_for: "nas s = NODE_FOR (Some i) e p b \<Longrightarrow> stmt_typed c ret ud i (tscope_new (Some sc)) sc' \<Longrightarrow>
    pred_option (condition_typed c ud sc') e \<Longrightarrow> pred_option (effect_typed c ud sc') p \<Longrightarrow>
    block_typed c ret ud b sc' \<Longrightarrow> stmt_typed c ret ud s sc sc"
| S_for_bare: "nas s = NODE_FOR None e p b \<Longrightarrow> pred_option (condition_typed c ud (tscope_new (Some sc))) e \<Longrightarrow>
    pred_option (effect_typed c ud (tscope_new (Some sc))) p \<Longrightarrow>
    block_typed c ret ud b (tscope_new (Some sc)) \<Longrightarrow> stmt_typed c ret ud s sc sc"
| S_unsafe: "nas s = NODE_UNSAFE b \<Longrightarrow> block_typed c ret (ud + 1) b sc \<Longrightarrow> stmt_typed c ret ud s sc sc"
| S_jump: "nas s \<in> {NODE_BREAK, NODE_CONTINUE} \<Longrightarrow> stmt_typed c ret ud s sc sc"
| S_defer: "nas s = NODE_DEFER e \<Longrightarrow> effect_typed c ud sc e \<Longrightarrow> stmt_typed c ret ud s sc sc"
| S_expr: "nas s = NODE_EXPR_STMT e \<Longrightarrow> has_type c ud (Some sc) e t \<Longrightarrow> stmt_typed c ret ud s sc sc"
| S_block: "nas s = NODE_BLOCK ss \<Longrightarrow> block_typed c ret ud s sc \<Longrightarrow> stmt_typed c ret ud s sc sc"
| B_stmts: "nas b = NODE_BLOCK ss \<Longrightarrow> stmts_typed c ret ud ss (tscope_new (Some sc)) sc' \<Longrightarrow>
    block_typed c ret ud b sc"
| B_other: "\<forall>ss. nas b \<noteq> NODE_BLOCK ss \<Longrightarrow> block_typed c ret ud b sc"
| SS_nil: "stmts_typed c ret ud [] sc sc"
| SS_cons: "stmt_typed c ret ud s sc sc1 \<Longrightarrow> stmts_typed c ret ud ss sc1 sc2 \<Longrightarrow>
    stmts_typed c ret ud (s # ss) sc sc2"

subsection \<open>Silent statements\<close>

text \<open>A statement passes: it is checked without a diagnostic and returns 1.\<close>

definition passes_stmt :: "(bool \<times> tscope) tc \<Rightarrow> checker \<Rightarrow> tscope \<Rightarrow> bool" where
  "passes_stmt m c sc' \<longleftrightarrow> silent m c (True, sc')"

lemma adding_stmt [simp]:
  "adding (check_stmt n ud ret s sc)" "adding (check_stmt_opt n ud ret so sc)"
  "adding (check_else n ud ret so sc)" "adding (check_block n ud ret s sc)"
  "adding (check_stmts n ud ret ss sc)"
  by (simp_all add: adding_def answers.sim_stmt answers_evals)

lemma adding_leave [simp]: "adding m \<Longrightarrow> adding (leave_scope m sc)"
  by (simp add: leave_scope_def)

lemma adding_opt [simp]: "(\<And>x. adding (ev x)) \<Longrightarrow> adding (check_opt ev e)"
  by (simp add: adding_parts)

lemma adding_value [simp]: "(\<And>x. adding (ev x)) \<Longrightarrow> adding (check_value ev t e)"
  by (simp add: adding_parts)

lemma adding_checks:
  assumes "\<And>x. adding (ev x)"
  shows "adding (check_return ev at t v)" "adding (check_condition ev at what e)"
    "adding (check_opt_condition ev at eo)" "adding (check_not_error ev e)" "adding (check_post ev eo)"
    "adding (check_expr_stmt ev e)" "adding (check_initializer ev d v)"
    "adding (check_local ev at s mt msg ty v sc)"
  using assms by (simp_all add: adding_def tc_rules)

lemma passes_leave [simp]: "adding m \<Longrightarrow> passes_stmt (leave_scope m sc) c sc' \<longleftrightarrow> sc' = sc \<and> silent m c True"
  by (auto simp: passes_stmt_def leave_scope_def silent_bind)

lemma passes_then:
  assumes "adding (f sc)" "\<And>sc. adding (g sc)"
  shows "passes_stmt (then_do f g sc) c sc' \<longleftrightarrow>
    (\<exists>sc1. passes_stmt (f sc) c sc1 \<and> passes_stmt (g sc1) c sc')"
proof -
  have "adding (if b then g sc1 else tret (False, sc1))" for b sc1
    using assms by simp
  then show ?thesis
    using assms
    by (auto simp: passes_stmt_def then_do_def silent_bind case_prod_beta split: if_splits)
qed

lemma passes_child:
  assumes "adding (f (tscope_new (Some sc)))"
  shows "passes_stmt (in_child f sc) c sc' \<longleftrightarrow>
    sc' = sc \<and> (\<exists>sc1. passes_stmt (f (tscope_new (Some sc))) c sc1)"
  using assms by (auto simp: passes_stmt_def in_child_def silent_bind case_prod_beta)

lemma adding_stmts_parts:
  "(\<And>sc. adding (f sc)) \<Longrightarrow> (\<And>sc. adding (g sc)) \<Longrightarrow> adding (then_do f g sc)"
  "(\<And>sc. adding (f sc)) \<Longrightarrow> adding (in_child f sc)"
  "adding (h (check_expr n ud (Some sc))) \<Longrightarrow> adding (simple n ud h sc)"
  by (simp_all add: then_do_def in_child_def simple_def case_prod_beta)

lemma silent_return:
  assumes "\<And>x. adding (ev x)"
  shows "silent (check_return ev at ret v) c True \<longleftrightarrow>
    (if ret = TYPE_VOID then v = None
     else \<exists>e u. v = Some e \<and> silent (check_value ev ret e) c u \<and> is_assignable ret u)"
  using assms by (auto simp: check_return_def silent_bind split: option.splits if_splits)

lemma silent_condition:
  assumes "adding (ev e)"
  shows "silent (check_condition ev at what e) c True \<longleftrightarrow> (\<exists>t. silent (ev e) c t \<and> is_assignable TYPE_BOOL t)"
  using assms by (auto simp: check_condition_def silent_bind split: if_splits)

lemma silent_opt_condition:
  assumes "\<And>x. adding (ev x)"
  shows "silent (check_opt_condition ev at e) c True \<longleftrightarrow>
    pred_option (\<lambda>x. \<exists>t. silent (ev x) c t \<and> is_assignable TYPE_BOOL t) e"
  using assms by (cases e) (auto simp: check_opt_condition_def silent_condition)

lemma silent_not_error:
  assumes "adding (ev e)"
  shows "silent (check_not_error ev e) c True \<longleftrightarrow> (\<exists>t. silent (ev e) c t \<and> t \<noteq> TYPE_ERROR)"
  using assms by (auto simp: check_not_error_def silent_bind)

lemma silent_post:
  assumes "\<And>x. adding (ev x)"
  shows "silent (check_post ev e) c True \<longleftrightarrow> pred_option (\<lambda>x. \<exists>t. silent (ev x) c t \<and> t \<noteq> TYPE_ERROR) e"
  using assms by (cases e) (auto simp: check_post_def silent_not_error)

lemma silent_expr_stmt:
  assumes "adding (ev e)"
  shows "silent (check_expr_stmt ev e) c True \<longleftrightarrow> (\<exists>t. silent (ev e) c t) \<and> \<not> c_had_error c"
  using assms by (auto simp: check_expr_stmt_def silent_bind)

lemma silent_initializer:
  assumes "\<And>x. adding (ev x)"
  shows "silent (check_initializer ev d v) c actual \<longleftrightarrow>
    rel_option (\<lambda>e u. case d of Some t \<Rightarrow> silent (check_value ev t e) c u | None \<Rightarrow> silent (ev e) c u) v actual"
  using assms
  by (cases v; cases actual; cases d) (auto simp: check_initializer_def check_opt_def silent_bind)

lemma silent_settle:
  "silent (settle_type at s msg d actual) c r \<longleftrightarrow> (\<exists>t. r = Some t \<and> settled d actual t)"
  by (auto simp: settle_type_def settled_def split: option.split)

lemma passes_local:
  assumes "\<And>x. adding (ev x)"
  shows "passes_stmt (check_local ev at s mt msg ty v sc) c sc' \<longleftrightarrow>
    visible_opt c ty \<and>
    (\<exists>actual t. silent (check_initializer ev (map_option type_from_node ty) v) c actual \<and>
       settled (map_option type_from_node ty) actual t \<and>
       tscope_define sc s (bind_var t mt) = Some sc')"
proof -
  let ?d = "map_option type_from_node ty"
  let ?k = "\<lambda>r. case r of None \<Rightarrow> tret (False, sc) | Some t \<Rightarrow> declare_var at s mt t sc"
  have local: "check_local ev at s mt msg ty v sc =
      tbind (ensure_type_visible at ty) (\<lambda>ok. if \<not> ok then tret (False, sc) else
        tbind (check_initializer ev ?d v) (\<lambda>actual. tbind (settle_type at s msg ?d actual) ?k))"
    by (simp only: check_local_def Let_def)
  have k: "adding (?k r)" "silent (?k r) c (True, sc') \<longleftrightarrow>
      (\<exists>t. r = Some t \<and> tscope_define sc s (bind_var t mt) = Some sc')" for r
    by (auto simp: declare_var_def leave_scope_def silent_bind split: option.split)
  have settle: "silent (tbind (settle_type at s msg ?d actual) ?k) c (True, sc') \<longleftrightarrow>
      (\<exists>t. settled ?d actual t \<and> tscope_define sc s (bind_var t mt) = Some sc')" for actual
    by (auto simp: silent_bind k silent_settle)
  have body: "adding (tbind (check_initializer ev ?d v) (\<lambda>actual. tbind (settle_type at s msg ?d actual) ?k))"
    using assms k by (simp add: adding_checks)
  then have "silent (check_local ev at s mt msg ty v sc) c (True, sc') \<longleftrightarrow> visible_opt c ty \<and>
      silent (tbind (check_initializer ev ?d v) (\<lambda>actual. tbind (settle_type at s msg ?d actual) ?k)) c (True, sc')"
    using holds_opt [of at ty c]
    by (auto simp: local silent_bind holds_def split: if_splits)
  then show ?thesis
    using assms k by (simp add: passes_stmt_def silent_bind adding_checks settle)
qed

subsection \<open>A silent statement is well typed\<close>

lemma sound_value_expr: "silent (check_value (check_expr n ud sc) t e) c u \<Longrightarrow> has_value c ud sc t e u"
  by (rule sound_value) (auto simp: sound_for_def intro: check_expr_sound)

lemma sound_local:
  assumes "passes_stmt (check_local (check_expr n ud (Some sc)) at s mt msg ty v sc) c sc'"
  shows "local_typed c ud s mt ty v sc sc'"
proof -
  have init: "init_typed c ud sc d v actual"
    if "silent (check_initializer (check_expr n ud (Some sc)) d v) c actual" for d actual
    using that unfolding init_typed_def
    by (auto simp: silent_initializer intro: check_expr_sound sound_value_expr
        elim!: option.rel_mono_strong split: option.splits)
  show ?thesis
    using assms by (auto simp: passes_local local_typed_def intro: init)
qed

fun else_typed :: "checker \<Rightarrow> night_type \<Rightarrow> nat \<Rightarrow> node option \<Rightarrow> tscope \<Rightarrow> bool" where
  "else_typed c ret ud None sc \<longleftrightarrow> True"
| "else_typed c ret ud (Some s) sc \<longleftrightarrow>
     (case nas s of
        NODE_BLOCK ss \<Rightarrow> block_typed c ret ud s sc
      | _ \<Rightarrow> \<exists>sc'. stmt_typed c ret ud s (tscope_new (Some sc)) sc')"

lemma sound_simple:
  assumes "passes_stmt (simple n ud f sc) c sc'" "adding (f (check_expr n ud (Some sc)))"
  shows "sc' = sc \<and> silent (f (check_expr n ud (Some sc))) c True"
  using assms by (simp add: simple_def)

lemma block_of_stmts:
  "stmts_typed c ret ud ss (tscope_new (Some sc)) sc' \<Longrightarrow> block_typed c ret ud (Node l k (NODE_BLOCK ss)) sc"
  by (rule B_stmts [of _ ss]) simp_all

lemma else_typedI:
  assumes "nas s = NODE_IF e th el" "condition_typed c ud sc e" "block_typed c ret ud th sc"
    and "else_typed c ret ud el sc"
  shows "stmt_typed c ret ud s sc sc"
proof (cases el)
  case None
  with assms show ?thesis by (auto intro: S_if)
next
  case (Some nd)
  with assms show ?thesis
    by (cases "nas nd") (auto intro: S_else S_else_if)
qed

lemma sound_stmt:
  assumes "\<not> c_had_error c"
  shows "passes_stmt (check_stmt n ud ret s sc) c sc' \<Longrightarrow> stmt_typed c ret ud s sc sc'"
    and "passes_stmt (check_stmt_opt n ud ret so sc) c sc' \<Longrightarrow>
      (case so of None \<Rightarrow> sc' = sc | Some s \<Rightarrow> stmt_typed c ret ud s sc sc')"
    and "passes_stmt (check_else n ud ret so (tscope_new (Some sc))) c sc' \<Longrightarrow> else_typed c ret ud so sc"
    and "passes_stmt (check_block n ud ret s (tscope_new (Some sc))) c sc' \<Longrightarrow> block_typed c ret ud s sc"
    and "passes_stmt (check_stmts n ud ret ss sc) c sc' \<Longrightarrow> stmts_typed c ret ud ss sc sc'"
proof (induction n ud ret s and n ud ret so and n ud ret so and n ud ret s and n ud ret ss
    arbitrary: sc sc' and sc sc' and sc sc' and sc sc' and sc sc'
    rule: check_stmt_check_stmt_opt_check_else_check_block_check_stmts.induct)
  case (1 n ud ret l k x)
  note parts = check_stmt.simps passes_then passes_child adding_stmts_parts adding_checks
  have condition: "condition_typed c ud sc e"
    if "silent (check_condition (check_expr n ud (Some sc)) at what e) c True" for e what at sc
    using that by (auto simp: silent_condition condition_typed_def intro: check_expr_sound)
  have effect: "effect_typed c ud sc e"
    if "silent (check_not_error (check_expr n ud (Some sc)) e) c True" for e sc
    using that by (auto simp: silent_not_error effect_typed_def intro: check_expr_sound)
  show ?case
  proof (cases x)
    case (NODE_LET s ty v)
    with 1 show ?thesis by (auto simp: check_stmt.simps intro: S_let sound_local)
  next
    case (NODE_CONST s ty v)
    with 1 show ?thesis by (auto simp: check_stmt.simps intro: S_const sound_local)
  next
    case (NODE_RETURN v)
    with 1(9) have "sc' = sc" "silent (check_return (check_expr n ud (Some sc)) (Node l k x) ret v) c True"
      by (auto simp: parts dest!: sound_simple)
    then have "return_typed c ud sc ret v" "sc' = sc"
      unfolding return_typed_def by (auto simp: silent_return split: if_splits) (metis sound_value_expr)
    with NODE_RETURN show ?thesis by (auto intro: S_return)
  next
    case (NODE_IF e th el)
    from 1(9) obtain sc1 sc2 where "silent (check_condition (check_expr n ud (Some sc)) (Node l k x) ''if'' e) c True"
       "passes_stmt (check_block n ud ret th (tscope_new (Some sc))) c sc1"
       "passes_stmt (check_else n ud ret el (tscope_new (Some sc))) c sc2" "sc' = sc"
      by (auto simp: NODE_IF parts dest!: sound_simple)
    with 1(1-8) show ?thesis
      by (auto simp: NODE_IF intro: else_typedI condition)
  next
    case (NODE_WHILE e b)
    with 1 show ?thesis
      by (auto simp: parts dest!: sound_simple intro: S_while condition)
  next
    case (NODE_LOOP b)
    with 1 show ?thesis
      by (auto simp: parts intro: S_loop)
  next
    case (NODE_UNSAFE b)
    with 1 show ?thesis
      by (auto simp: parts intro: S_unsafe)
  next
    case (NODE_FOR i e p b)
    from 1(9) obtain sc1 sc2 where run: "passes_stmt (check_stmt_opt n ud ret i (tscope_new (Some sc))) c sc1"
       "silent (check_opt_condition (check_expr n ud (Some sc1)) (Node l k x) e) c True"
       "silent (check_post (check_expr n ud (Some sc1)) p) c True"
       "passes_stmt (check_block n ud ret b (tscope_new (Some sc1))) c sc2" "sc' = sc"
      by (auto simp: NODE_FOR parts dest!: sound_simple)
    have "pred_option (condition_typed c ud sc1) e" "pred_option (effect_typed c ud sc1) p"
      using run(2,3) condition effect
      by (cases e; cases p; force simp: check_opt_condition_def check_post_def)+
    moreover have "block_typed c ret ud b sc1"
      using run(4) 1(1-8) by (auto simp: NODE_FOR)
    moreover have "case i of None \<Rightarrow> sc1 = tscope_new (Some sc)
        | Some s \<Rightarrow> stmt_typed c ret ud s (tscope_new (Some sc)) sc1"
      using run(1) 1(1-8) by (auto simp: NODE_FOR)
    ultimately show ?thesis
      using run(5) by (cases i) (auto simp: NODE_FOR intro: S_for S_for_bare)
  next
    case (NODE_DEFER e)
    with 1 show ?thesis
      by (auto simp: parts intro!: S_defer effect dest!: sound_simple)
  next
    case (NODE_BLOCK ss)
    with 1 obtain sc1 where "stmts_typed c ret ud ss (tscope_new (Some sc)) sc1" "sc' = sc"
      by (auto simp: parts)
    with NODE_BLOCK show ?thesis
      using B_stmts [of "Node l k x" ss] by (auto intro: S_block)
  next
    case (NODE_EXPR_STMT e)
    with 1 obtain t where t: "silent (check_expr n ud (Some sc) e) c t" "sc' = sc"
      by (auto simp: parts silent_expr_stmt dest!: sound_simple)
    with NODE_EXPR_STMT show ?thesis
      using S_expr [of "Node l k x" e, OF _ check_expr_sound [OF t(1)]] by simp
  qed (use 1 in \<open>auto simp: parts intro: S_jump\<close>)
next
  case (2 n ud ret)
  then show ?case by simp
next
  case (3 n ud ret s)
  then show ?case by simp
next
  case (4 n ud ret)
  then show ?case by simp
next
  case (5 n ud ret l k x)
  then show ?case by (cases x) (auto intro: block_of_stmts)
next
  case (6 n ud ret l k x)
  then show ?case by (cases x) (auto intro: block_of_stmts B_other)
next
  case (7 n ud ret)
  then show ?case by (auto intro: SS_nil)
next
  case (8 n ud ret s ss)
  from 8(3) obtain sc1 where run: "passes_stmt (check_stmt n ud ret s sc) c sc1"
      "passes_stmt (check_stmts n ud ret ss sc1) c sc'"
    by (auto simp: passes_then)
  show ?case
    by (rule SS_cons [OF 8(1) [OF run(1)] 8(2) [OF run(2)]])
qed


subsection \<open>A well-typed statement passes\<close>

lemma settles_local:
  assumes "local_typed c ud s mt ty v sc sc'"
  shows "eventually (\<lambda>n. passes_stmt (check_local (check_expr n ud (Some sc)) at s mt msg ty v sc) c sc') sequentially"
proof -
  let ?d = "map_option type_from_node ty"
  from assms obtain actual t where local: "visible_opt c ty" "init_typed c ud sc ?d v actual"
      "settled ?d actual t" "tscope_define sc s (bind_var t mt) = Some sc'"
    by (auto simp: local_typed_def)
  from local(2) have "eventually (\<lambda>n. silent (check_initializer (check_expr n ud (Some sc)) ?d v) c actual) sequentially"
    unfolding init_typed_def
    using check_expr_complete(1,2)
    by cases (auto simp: silent_initializer settles_def split: option.splits)
  then show ?thesis
    by (rule eventually_mono) (use local in \<open>auto simp: passes_local\<close>)
qed

lemma eventually_typed:
  "has_type c ud sc e t \<Longrightarrow> eventually (\<lambda>n. silent (check_expr n ud sc e) c t) sequentially"
  using check_expr_complete(1) by (simp add: settles_def)

lemma eventually_value:
  "has_value c ud sc t e u \<Longrightarrow> eventually (\<lambda>n. silent (check_value (check_expr n ud sc) t e) c u) sequentially"
  using check_expr_complete(2) by (simp add: settles_def)

lemma settles_condition:
  assumes "condition_typed c ud sc e"
  shows "eventually (\<lambda>n. silent (check_condition (check_expr n ud (Some sc)) at what e) c True) sequentially"
  using assms unfolding condition_typed_def
  by (auto simp: silent_condition dest!: eventually_typed elim!: eventually_mono)

lemma settles_effect:
  assumes "effect_typed c ud sc e"
  shows "eventually (\<lambda>n. silent (check_not_error (check_expr n ud (Some sc)) e) c True) sequentially"
  using assms unfolding effect_typed_def
  by (auto simp: silent_not_error dest!: eventually_typed elim!: eventually_mono)

lemma settles_opt_condition:
  assumes "pred_option (condition_typed c ud sc) e"
  shows "eventually (\<lambda>n. silent (check_opt_condition (check_expr n ud (Some sc)) at e) c True) sequentially"
  using assms by (cases e) (auto simp: check_opt_condition_def intro: settles_condition)

lemma settles_post:
  assumes "pred_option (effect_typed c ud sc) e"
  shows "eventually (\<lambda>n. silent (check_post (check_expr n ud (Some sc)) e) c True) sequentially"
  using assms by (cases e) (auto simp: check_post_def intro: settles_effect)

lemma settles_return:
  assumes "return_typed c ud sc ret v"
  shows "eventually (\<lambda>n. silent (check_return (check_expr n ud (Some sc)) at ret v) c True) sequentially"
proof (cases "ret = TYPE_VOID")
  case False
  with assms obtain e u where v: "v = Some e" "is_assignable ret u" "has_value c ud (Some sc) ret e u"
    by (auto simp: return_typed_def)
  from eventually_value [OF v(3)] show ?thesis
    by (rule eventually_mono) (use v False in \<open>auto simp: silent_return\<close>)
qed (use assms in \<open>simp add: return_typed_def silent_return\<close>)

text \<open>\<open>goes\<close>: for all large enough bounds the statement passes.\<close>

definition goes :: "(nat \<Rightarrow> stmt_tc) \<Rightarrow> checker \<Rightarrow> tscope \<Rightarrow> tscope \<Rightarrow> bool" where
  "goes f c sc sc' \<longleftrightarrow>
     (\<forall>n sc. adding (f n sc)) \<and> eventually (\<lambda>n. passes_stmt (f n sc) c sc') sequentially"

lemma goes_then:
  assumes "goes f c sc sc1" "goes g c sc1 sc2"
  shows "goes (\<lambda>n. then_do (f n) (g n)) c sc sc2"
  using assms unfolding goes_def
  by (auto simp: passes_then adding_stmts_parts elim: eventually_elim2)

lemma goes_child:
  assumes "goes f c (tscope_new (Some sc)) sc1"
  shows "goes (\<lambda>n. in_child (f n)) c sc sc"
  using assms unfolding goes_def
  by (auto simp: passes_child adding_stmts_parts elim: eventually_mono)

lemma goes_block:
  assumes "\<exists>sc1. goes (\<lambda>n. check_block n ud ret b) c (tscope_new (Some sc)) sc1"
  shows "goes (\<lambda>n. in_child (check_block n ud ret b)) c sc sc"
  using assms by (auto intro: goes_child)

lemma goes_simple:
  assumes "eventually (\<lambda>n. silent (f (check_expr n ud (Some sc))) c True) sequentially"
    and "\<And>n sc. adding (f (check_expr n ud (Some sc)))"
  shows "goes (\<lambda>n. simple n ud f) c sc sc"
  using assms by (simp add: goes_def simple_def)

lemma goes_nothing [simp]: "goes (\<lambda>n. leave_scope (tret True)) c sc sc"
  by (simp add: goes_def)

lemma complete_stmt:
  assumes "\<not> c_had_error c"
  shows "stmt_typed c ret ud s sc sc' \<Longrightarrow> goes (\<lambda>n. check_stmt n ud ret s) c sc sc'"
    and "stmts_typed c ret ud ss sc sc' \<Longrightarrow> goes (\<lambda>n. check_stmts n ud ret ss) c sc sc'"
    and "block_typed c ret ud b sc \<Longrightarrow> \<exists>sc'. goes (\<lambda>n. check_block n ud ret b) c (tscope_new (Some sc)) sc'"
proof (induction rule: stmt_typed_stmts_typed_block_typed.inducts)
  case (S_let s x ty v ud sc sc')
  then show ?case
    by (cases s) (auto simp: goes_def check_stmt.simps adding_checks intro: settles_local)
next
  case (S_const s x ty v ud sc sc')
  then show ?case
    by (cases s) (auto simp: goes_def check_stmt.simps adding_checks intro: settles_local)
next
  case (S_return s v ud sc)
  then show ?case
    by (cases s) (auto simp: check_stmt.simps adding_checks intro!: goes_simple settles_return)
next
  case (S_if s e th ud sc)
  then show ?case
    by (cases s) (auto simp: check_stmt.simps adding_checks
        intro!: goes_simple goes_then goes_block goes_child goes_nothing settles_condition)
next
  case (S_else s e th el ud sc ss)
  then show ?case
    by (cases s; cases el) (auto simp: check_stmt.simps adding_checks
        intro!: goes_simple goes_then goes_block goes_child settles_condition)
next
  case (S_else_if s e th el ud sc sc')
  then have "goes (\<lambda>n. check_else n ud ret (Some el)) c (tscope_new (Some sc)) sc'"
    by (cases el; cases "nas el") auto
  with S_else_if show ?case
    by (cases s) (auto simp: check_stmt.simps adding_checks
        intro!: goes_simple goes_then goes_block goes_child settles_condition)
next
  case (S_while s e b ud sc)
  then show ?case
    by (cases s) (auto simp: check_stmt.simps adding_checks
        intro!: goes_simple goes_then goes_block goes_child settles_condition)
next
  case (S_loop s b ud sc)
  then show ?case
    by (cases s) (auto simp: check_stmt.simps intro!: goes_block)
next
  case (S_for s i e p b ud sc sc')
  then show ?case
    by (cases s) (auto simp: check_stmt.simps adding_checks
        intro!: goes_simple goes_then goes_block goes_child settles_opt_condition settles_post)
next
  case (S_for_bare s e p b ud sc)
  then show ?case
    by (cases s) (auto simp: check_stmt.simps adding_checks
        intro!: goes_simple goes_then goes_block goes_child goes_nothing settles_opt_condition settles_post)
next
  case (S_unsafe s b ud sc)
  then show ?case
    by (cases s) (auto simp: check_stmt.simps intro!: goes_block)
next
  case (S_jump s ud sc)
  then show ?case by (cases s) (auto simp: check_stmt.simps)
next
  case (S_defer s e ud sc)
  then show ?case
    by (cases s) (auto simp: check_stmt.simps adding_checks intro!: goes_simple settles_effect)
next
  case (S_expr s e ud sc t)
  from eventually_typed [OF S_expr(2)]
  have "eventually (\<lambda>n. silent (check_expr_stmt (check_expr n ud (Some sc)) e) c True) sequentially"
    by (rule eventually_mono) (use assms in \<open>auto simp: silent_expr_stmt\<close>)
  with S_expr(1) show ?case
    by (cases s) (auto simp: check_stmt.simps adding_checks intro!: goes_simple)
next
  case (S_block s ss ud sc)
  then show ?case
    by (cases s) (auto simp: check_stmt.simps intro: goes_child)
next
  case (B_stmts b ss ud sc sc')
  then show ?case by (cases b) auto
next
  case (B_other b ud sc)
  then show ?case by (cases b; cases "nas b") (auto intro: goes_nothing)
next
  case (SS_nil ud sc)
  then show ?case by (auto intro: goes_nothing)
next
  case (SS_cons s ud sc sc1 ss sc2)
  then show ?case by (auto intro: goes_then)
qed

end
