(* ===== verification/Typeck_Program.thy ===== *)
theory Typeck_Program
  imports Typeck_Statements
begin

text \<open>
  The typing rules of functions and programs, and their agreement with the checker:
  \<^verbatim>\<open>typeck_check\<close> accepts exactly the well-typed programs.
\<close>

subsection \<open>Functions and programs\<close>

text \<open>
  The parameters are variables of the outermost scope of the function, after the functions of the
  program. A check runs clean if it ends without an error.
\<close>

inductive params_typed :: "checker \<Rightarrow> node list \<Rightarrow> tscope \<Rightarrow> tscope \<Rightarrow> bool" for c where
  P_nil: "params_typed c [] sc sc"
| P_cons: "visible_opt c (let_type p) \<Longrightarrow>
    tscope_define sc (let_name p) (bind_var (param_type p) True) = Some sc1 \<Longrightarrow>
    params_typed c ps sc1 sc2 \<Longrightarrow> params_typed c (p # ps) sc sc2"

inductive_simps params_typed_simps:
  "params_typed c [] sc sc'" "params_typed c (p # ps) sc sc'"

definition in_package :: "checker \<Rightarrow> node \<Rightarrow> checker" where
  "in_package c fn = c\<lparr>c_package := node_package_name fn\<rparr>"

definition returning :: "checker \<Rightarrow> night_type \<Rightarrow> checker" where
  "returning c t = c\<lparr>c_return_type := Some t\<rparr>"

definition function_typed :: "checker \<Rightarrow> node \<Rightarrow> bool" where
  "function_typed c fn \<longleftrightarrow>
     visible_opt (in_package c fn) (fn_ret_type fn) \<and>
     (\<exists>sc0 sc. define_all_by tscope_define (tscope_new None) (function_bindings (c_sema c)) = Inr sc0 \<and>
        params_typed (in_package c fn) (fn_params fn) sc0 sc \<and>
        (\<forall>b ss. fn_body fn = Some b \<and> nas b = NODE_BLOCK ss \<longrightarrow>
           (\<exists>sc'. stmts_typed (returning (in_package c fn) (ret_type fn)) (ret_type fn) 0 ss sc sc')))"

definition program_typed :: "checker \<Rightarrow> bool" where
  "program_typed c \<longleftrightarrow>
     (\<forall>d \<in> set (program_decls (c_program c)). \<forall>fn \<in> set (checked_functions d). function_typed c fn)"

lemma adding_params [simp]: "adding (check_params ps sc)"
proof (induction ps arbitrary: sc)
  case (Cons p ps)
  then show ?case by (auto split: option.split)
qed simp

lemma silent_params: "silent (check_params ps sc) c (Some sc') \<longleftrightarrow> params_typed c ps sc sc'"
proof (induction ps arbitrary: sc)
  case Nil
  then show ?case by (auto simp: params_typed_simps)
next
  case (Cons p ps)
  let ?k = "case tscope_define sc (let_name p) (bind_var (type_from_ast (let_type p)) True) of
      None \<Rightarrow> tret None | Some sc1 \<Rightarrow> check_params ps sc1"
  have "adding ?k" by (auto split: option.split)
  then have "silent (check_params (p # ps) sc) c (Some sc') \<longleftrightarrow>
      visible_opt c (let_type p) \<and> silent ?k c (Some sc')"
    using holds_opt [of p "let_type p" c] by (auto simp: silent_bind holds_def split: if_splits)
  also have "\<dots> \<longleftrightarrow> params_typed c (p # ps) sc sc'"
    using Cons.IH
    by (auto simp: param_type_def params_typed_simps split: option.split)
  finally show ?case .
qed

subsection \<open>Clean runs\<close>

text \<open>A run is clean if it ends without an error; an error is never taken back by what follows.\<close>

definition clean :: "'a tc \<Rightarrow> checker \<Rightarrow> 'a \<Rightarrow> checker \<Rightarrow> bool" where
  "clean m c x c' \<longleftrightarrow> m c = Inr (x, c') \<and> \<not> c_had_error c'"

definition sticky :: "'a tc \<Rightarrow> bool" where
  "sticky m \<longleftrightarrow> (\<forall>c x c'. m c = Inr (x, c') \<longrightarrow> c_had_error c \<longrightarrow> c_had_error c')"

lemma sticky_adding [simp]: "adding m \<Longrightarrow> sticky m"
  by (auto simp: sticky_def adds_def dest!: adding_adds)

lemma sticky_bind [simp]: "sticky m \<Longrightarrow> (\<And>x. sticky (f x)) \<Longrightarrow> sticky (tbind m f)"
  by (auto simp: sticky_def tbind_def split: sum.splits)

lemma sticky_get [simp]:
  "(\<And>x. sticky (f x)) \<Longrightarrow> sticky (tget sel f)" "(\<And>x. sticky (g x)) \<Longrightarrow> sticky (with_sema g)"
  by (auto simp: sticky_def tget_def with_sema_def)

lemma sticky_set [simp]: "sticky (set_package p)" "sticky (set_return_type t)"
  by (auto simp: sticky_def set_package_def set_return_type_def tset_def)

lemma sticky_or_fail [simp]: "sticky m \<Longrightarrow> sticky (or_fail m)"
  by (auto simp: sticky_def or_fail_def tbind_def tset_def tret_def split: sum.splits)

lemma sticky_until [simp]: "(\<And>x. sticky (f x)) \<Longrightarrow> sticky (until_failed f xs)"
  by (induction xs) simp_all

lemma clean_adding: "adding m \<Longrightarrow> clean m c x c' \<longleftrightarrow> silent m c x \<and> c' = c \<and> \<not> c_had_error c"
  by (auto simp: clean_def silent_def adds_def dest!: adding_adds)

lemma clean_bind:
  assumes "\<And>x. sticky (f x)"
  shows "clean (tbind m f) c y c' \<longleftrightarrow> (\<exists>x c1. clean m c x c1 \<and> clean (f x) c1 y c')"
  using assms by (auto simp: clean_def sticky_def tbind_def split: sum.splits)

lemma clean_bind_adding:
  assumes "adding m" "\<And>x. sticky (f x)"
  shows "clean (tbind m f) c y c' \<longleftrightarrow> \<not> c_had_error c \<and> (\<exists>x. silent m c x \<and> clean (f x) c y c')"
  using assms by (auto simp: clean_bind clean_adding)

lemma clean_simps [simp]:
  "clean (tret x) c y c' \<longleftrightarrow> y = x \<and> c' = c \<and> \<not> c_had_error c"
  "clean (tget sel f) c y c' \<longleftrightarrow> clean (f (sel c)) c y c'"
  "clean (with_sema g) c y c' \<longleftrightarrow> clean (g (c_sema c)) c y c'"
  "clean (tbind (set_package p) h) c y c' \<longleftrightarrow> clean (h ()) (c\<lparr>c_package := p\<rparr>) y c'"
  "clean (tbind (set_return_type t) h) c y c' \<longleftrightarrow> clean (h ()) (c\<lparr>c_return_type := t\<rparr>) y c'"
  by (auto simp: clean_def tret_def tget_def with_sema_def tbind_def set_package_def
      set_return_type_def tset_def)

lemma clean_or_fail: "clean (or_fail m) c u c' \<longleftrightarrow> clean m c True c'"
  by (auto simp: clean_def or_fail_def tbind_def tret_def tset_def split: sum.splits if_splits)

lemma clean_until:
  assumes "\<And>x. x \<in> set xs \<Longrightarrow> \<forall>c'. clean (f x) c () c' \<longleftrightarrow> c' = c \<and> P x" "\<And>x. sticky (f x)"
    and "\<not> c_had_error c"
  shows "clean (until_failed f xs) c () c' \<longleftrightarrow> c' = c \<and> (\<forall>x \<in> set xs. P x)"
  using assms(1)
proof (induction xs)
  case Nil
  then show ?case by (simp add: assms(3))
next
  case (Cons x xs)
  then show ?case by (auto simp: clean_bind assms(2,3))
qed

text \<open>What a function must pass under the bound \<open>n\<close>.\<close>

definition body_passes :: "nat \<Rightarrow> checker \<Rightarrow> node \<Rightarrow> tscope \<Rightarrow> bool" where
  "body_passes n c fn sc \<longleftrightarrow>
     (\<forall>b. fn_body fn = Some b \<longrightarrow>
        (\<exists>sc'. silent (check_block n 0 (ret_type fn) b sc) (returning c (ret_type fn)) (True, sc')))"

definition function_passes :: "nat \<Rightarrow> checker \<Rightarrow> node \<Rightarrow> bool" where
  "function_passes n c fn \<longleftrightarrow>
     visible_opt (in_package c fn) (fn_ret_type fn) \<and>
     (\<exists>sc0 sc. define_all_by tscope_define (tscope_new None) (function_bindings (c_sema c)) = Inr sc0 \<and>
        params_typed (in_package c fn) (fn_params fn) sc0 sc \<and> body_passes n (in_package c fn) fn sc)"

lemma sticky_body [simp]: "sticky (check_body n ret fn sc)"
  unfolding check_body_def by (simp add: case_prod_beta split: option.split)

lemma clean_body:
  "clean (check_body n (ret_type fn) fn sc) c True c' \<longleftrightarrow>
     c' = c \<and> \<not> c_had_error c \<and> body_passes n c fn sc"
  by (cases "fn_body fn")
    (auto simp: check_body_def body_passes_def returning_def clean_bind_adding case_prod_beta)

lemma sticky_function [simp]: "sticky (check_function n fn)"
  unfolding check_function_def by (simp split: sum.split option.split)

lemma clean_function:
  "clean (check_function n fn) c True c' \<longleftrightarrow> c' = c \<and> \<not> c_had_error c \<and> function_passes n c fn"
proof -
  let ?c = "in_package c fn" and ?undo = "\<lambda>b. tbind (set_package (c_package c)) (\<lambda>_. tret b)"
  let ?rest = "\<lambda>sc. tbind (check_params (fn_params fn) sc) (\<lambda>r. case r of
      None \<Rightarrow> ?undo False
    | Some sc' \<Rightarrow>
        tbind (check_body n (ret_type fn) fn sc') (\<lambda>ok.
        tbind (set_package (c_package c)) (\<lambda>_. tget c_had_error (\<lambda>b. tret (ok \<and> \<not> b)))))"
  have c: "?c\<lparr>c_package := c_package c\<rparr> = c" "c_had_error ?c = c_had_error c" "c_sema ?c = c_sema c"
    by (simp_all add: in_package_def)
  have body: "clean (tbind (check_body n (ret_type fn) fn sc) (\<lambda>ok.
        tbind (set_package (c_package c)) (\<lambda>_. tget c_had_error (\<lambda>b. tret (ok \<and> \<not> b))))) ?c True c' \<longleftrightarrow>
      c' = c \<and> \<not> c_had_error c \<and> body_passes n ?c fn sc" for sc
    by (auto simp: clean_bind ex_bool_eq clean_body c)
  have "clean (?rest sc) ?c True c' \<longleftrightarrow> c' = c \<and> \<not> c_had_error c \<and>
      (\<exists>sc'. params_typed ?c (fn_params fn) sc sc' \<and> body_passes n ?c fn sc')" for sc
    by (auto simp: clean_bind_adding split_option_ex body c silent_params split: option.split)
  moreover have "sticky (case define_all_by tscope_define (tscope_new None) (function_bindings sm) of
      Inl _ \<Rightarrow> tret False | Inr sc \<Rightarrow> ?rest sc)" for sm
    by (simp split: sum.split option.split)
  ultimately show ?thesis
    using holds_opt [of fn "fn_ret_type fn" ?c]
    unfolding check_function_def ret_type_def [symmetric]
    by (auto simp: in_package_def [symmetric] clean_bind_adding c holds_def function_passes_def
        split: sum.splits if_splits)
qed

lemma checker_init_simps [simp]:
  "c_program (checker_init program sm src) = program" "c_sema (checker_init program sm src) = sm"
  "c_printed (checker_init program sm src) = []" "\<not> c_had_error (checker_init program sm src)"
  "c_package (checker_init program sm src) = None" "c_return_type (checker_init program sm src) = None"
  by (simp_all add: checker_init_def)

lemma clean_program:
  assumes "\<not> c_had_error c"
  shows "clean (until_failed (check_decl n) ds) c () c' \<longleftrightarrow>
    c' = c \<and> (\<forall>d \<in> set ds. \<forall>fn \<in> set (checked_functions d). function_passes n c fn)"
proof (rule clean_until [OF _ _ assms], intro allI)
  fix d c'
  show "clean (check_decl n d) c () c' \<longleftrightarrow>
      c' = c \<and> (\<forall>fn \<in> set (checked_functions d). function_passes n c fn)"
    unfolding check_decl_def
    by (rule clean_until [OF _ _ assms]) (auto simp: clean_or_fail clean_function assms)
qed (simp add: check_decl_def)

lemma typeck_check_clean:
  "typeck_check n program sm src = Inr (True, ds) \<longleftrightarrow>
     ds = [] \<and>
     (\<forall>d \<in> set (program_decls program). \<forall>fn \<in> set (checked_functions d).
        function_passes n (checker_init program sm src) fn)"
proof -
  let ?c = "checker_init program sm src"
  have "typeck_check n program sm src = Inr (True, ds) \<longleftrightarrow>
      (\<exists>c'. clean (until_failed (check_decl n) (program_decls program)) ?c () c' \<and> ds = c_printed c')"
    by (auto simp: typeck_check_def clean_def split: sum.split)
  also have "\<dots> \<longleftrightarrow> ds = [] \<and> (\<forall>d \<in> set (program_decls program). \<forall>fn \<in> set (checked_functions d).
        function_passes n ?c fn)"
    by (subst clean_program) auto
  finally show ?thesis .
qed

subsection \<open>Agreement\<close>

lemma sound_body:
  assumes "body_passes n c fn sc" "\<not> c_had_error c" "fn_body fn = Some b" "nas b = NODE_BLOCK ss"
  shows "\<exists>sc'. stmts_typed (returning c (ret_type fn)) (ret_type fn) 0 ss sc sc'"
proof -
  from assms(1,3) obtain sc' where
    "silent (check_block n 0 (ret_type fn) b sc) (returning c (ret_type fn)) (True, sc')"
    by (auto simp: body_passes_def)
  with assms(4) have "passes_stmt (check_stmts n 0 (ret_type fn) ss sc) (returning c (ret_type fn)) sc'"
    by (cases b) (simp add: passes_stmt_def)
  then have "stmts_typed (returning c (ret_type fn)) (ret_type fn) 0 ss sc sc'"
    by (rule sound_stmt(5) [rotated]) (use assms(2) in \<open>simp add: returning_def\<close>)
  then show ?thesis ..
qed

lemma sound_function:
  assumes "function_passes n c fn" "\<not> c_had_error c"
  shows "function_typed c fn"
proof -
  have "\<not> c_had_error (in_package c fn)"
    using assms(2) by (simp add: in_package_def)
  with assms(1) sound_body [of n "in_package c fn" fn] show ?thesis
    unfolding function_passes_def function_typed_def by blast
qed

lemma complete_function:
  assumes "function_typed c fn" "\<not> c_had_error c"
  shows "eventually (\<lambda>n. function_passes n c fn) sequentially"
proof -
  let ?c = "returning (in_package c fn) (ret_type fn)"
  from assms(1) obtain sc0 sc where head: "visible_opt (in_package c fn) (fn_ret_type fn)"
      "define_all_by tscope_define (tscope_new None) (function_bindings (c_sema c)) = Inr sc0"
      "params_typed (in_package c fn) (fn_params fn) sc0 sc"
    and body: "\<And>b ss. fn_body fn = Some b \<Longrightarrow> nas b = NODE_BLOCK ss \<Longrightarrow>
      \<exists>sc'. stmts_typed ?c (ret_type fn) 0 ss sc sc'"
    unfolding function_typed_def by blast
  have c: "\<not> c_had_error ?c"
    using assms(2) by (simp add: returning_def in_package_def)
  have "eventually (\<lambda>n. body_passes n (in_package c fn) fn sc) sequentially"
  proof (cases "fn_body fn")
    case (Some b)
    show ?thesis
    proof (cases "\<exists>ss. nas b = NODE_BLOCK ss")
      case True
      then obtain ss where ss: "nas b = NODE_BLOCK ss" by blast
      with body Some obtain sc' where "stmts_typed ?c (ret_type fn) 0 ss sc sc'" by blast
      from complete_stmt(2) [OF c this]
      have "eventually (\<lambda>n. passes_stmt (check_stmts n 0 (ret_type fn) ss sc) ?c sc') sequentially"
        by (simp add: goes_def)
      then show ?thesis
        by (rule eventually_mono) (use Some ss in \<open>cases b; auto simp: body_passes_def passes_stmt_def\<close>)
    next
      case False
      then have "check_block n ud ret b = leave_scope (tret True)" for n ud ret
        by (cases b; cases "nas b") auto
      with Some show ?thesis
        by (auto simp: body_passes_def silent_bind leave_scope_def)
    qed
  qed (simp add: body_passes_def)
  then show ?thesis
    by (rule eventually_mono) (use head in \<open>auto simp: function_passes_def\<close>)
qed

theorem program_typed_iff:
  "program_typed (checker_init program sm src) \<longleftrightarrow>
     eventually (\<lambda>n. typeck_check n program sm src = Inr (True, [])) sequentially"
proof
  assume "eventually (\<lambda>n. typeck_check n program sm src = Inr (True, [])) sequentially"
  then obtain n where "typeck_check n program sm src = Inr (True, [])"
    by (auto simp: eventually_sequentially)
  then show "program_typed (checker_init program sm src)"
    by (auto simp: program_typed_def typeck_check_clean intro!: sound_function)
next
  assume "program_typed (checker_init program sm src)"
  then show "eventually (\<lambda>n. typeck_check n program sm src = Inr (True, [])) sequentially"
    by (auto simp: program_typed_def typeck_check_clean intro!: eventually_ball_finite complete_function)
qed

lemma accepted_typed:
  "typeck_check n program sm src = Inr (True, ds) \<Longrightarrow> ds = [] \<and> program_typed (checker_init program sm src)"
  by (auto simp: program_typed_def typeck_check_clean intro!: sound_function)

end
