(* ===== verification/Typeck_Props.thy ===== *)
theory Typeck_Props
  imports Typeck_Program
begin

text \<open>
  The properties of the type checker, with the lemmas that only they need: uniqueness of types,
  exhaustive matches, assignments, unions, the buffer for the name of an enum, and small programs
  that show what the checker lets through.
\<close>

subsection \<open>Types are unique\<close>

lemma has_type_unique:
  assumes "has_type c ud sc e t" "has_type c ud sc e u"
  shows "t = u"
proof -
  have "eventually (\<lambda>n. silent (check_expr n ud sc e) c t \<and> silent (check_expr n ud sc e) c u) sequentially"
    using eventually_typed [OF assms(1)] eventually_typed [OF assms(2)] by (rule eventually_conj)
  then show ?thesis
    by (auto simp: eventually_sequentially silent_def)
qed

subsection \<open>Matches\<close>

text \<open>The patterns that name a variant of a type, written as in the arms of a match.\<close>

definition variant_patterns :: "semantic_model \<Rightarrow> night_type \<Rightarrow> string list" where
  "variant_patterns sm t =
     (if is_option_type t then [''Some'', ''None'']
      else if is_result_type t then [''Ok'', ''Err'']
      else
        (case t of
           TYPE_NAMED s \<Rightarrow>
             (case find_enum sm s of
                Some d \<Rightarrow> map (\<lambda>v. s @ ''.'' @ v) (enum_variants d)
              | None \<Rightarrow> [])
         | _ \<Rightarrow> []))"

inductive_simps has_arms_simps:
  "has_arms c ud sc t ms [] r" "has_arms c ud sc t ms ((pat, bs, v) # arms) r"

lemma join_keeps: "join ms u = Some ms' \<Longrightarrow> saw_wildcard ms' = saw_wildcard ms \<and> seen_variants ms' = seen_variants ms"
  by (auto simp: join_def split: option.splits if_splits)

lemma pattern_step_cases:
  assumes "pattern_step t ms pat = Some (Some ms')" "length (seen_variants ms) < 256"
  obtains "pat = ''_''" "\<not> saw_wildcard ms" "saw_wildcard ms'" "seen_variants ms' = seen_variants ms"
  | v where "pat \<noteq> ''_''" "subject_variant t pat = Some (Some v)" "v \<notin> set (seen_variants ms)"
    "saw_wildcard ms' = saw_wildcard ms" "seen_variants ms' = seen_variants ms @ [v]"
  using assms by (auto simp: pattern_step_def split: option.splits if_splits)

lemma arms_seen:
  assumes "has_arms c ud sc t ms arms (Some ms')" "length (seen_variants ms) + length arms \<le> 256"
  shows "saw_wildcard ms' = (saw_wildcard ms \<or> ''_'' \<in> fst ` set arms) \<and>
    (\<forall>v \<in> set (seen_variants ms') - set (seen_variants ms).
       \<exists>pat \<in> fst ` set arms. subject_variant t pat = Some (Some v)) \<and>
    distinct (map fst arms) \<and>
    (saw_wildcard ms \<longrightarrow> ''_'' \<notin> fst ` set arms) \<and>
    (\<forall>pat \<in> fst ` set arms. pat \<noteq> ''_'' \<longrightarrow>
       (\<exists>w. subject_variant t pat = Some (Some w) \<and> w \<notin> set (seen_variants ms)))"
  using assms
proof (induction arms arbitrary: ms)
  case Nil
  then show ?case by (simp add: has_arms_simps)
next
  case (Cons arm arms)
  obtain pat bs e where arm: "arm = (pat, bs, e)" by (cases arm)
  from Cons.prems(1) obtain ms1 u ms2 where step: "pattern_step t ms pat = Some (Some ms1)"
      "join ms1 u = Some ms2" "has_arms c ud sc t ms2 arms (Some ms')"
    by (auto simp: arm has_arms_simps)
  note keep = join_keeps [OF step(2)]
  have short: "length (seen_variants ms) < 256"
    using Cons.prems(2) by simp
  from step(1) short show ?case
  proof (cases rule: pattern_step_cases)
    case 1
    with keep Cons.prems(2) have "length (seen_variants ms2) + length arms \<le> 256" by simp
    from Cons.IH [OF step(3) this] 1 keep show ?thesis
      by (auto simp: arm)
  next
    case (2 v)
    with keep Cons.prems(2) have "length (seen_variants ms2) + length arms \<le> 256" by simp
    from Cons.IH [OF step(3) this] 2 keep show ?thesis
      by (auto simp: arm) 
  qed
qed

lemma arms_distinct:
  "has_arms c ud sc t match_init arms (Some ms) \<Longrightarrow> length arms \<le> 256 \<Longrightarrow> distinct (map fst arms)"
  using arms_seen [of c ud sc t match_init arms ms] by (simp add: match_init_def)

lemma subject_variant_pattern:
  assumes "subject_variant t pat = Some (Some v)" "can_match sm t"
  shows "is_option_type t \<or> is_result_type t \<Longrightarrow> pat = v"
    and "\<not> is_option_type t \<Longrightarrow> \<not> is_result_type t \<Longrightarrow> \<exists>s. t = TYPE_NAMED s \<and> pat = s @ ''.'' @ v"
proof -
  assume "is_option_type t \<or> is_result_type t"
  with assms(1) show "pat = v"
    by (auto simp: subject_variant_def split: if_splits)
next
  assume "\<not> is_option_type t" "\<not> is_result_type t"
  with assms(1) obtain i where i: "strchr pat (CHR ''.'') = Some i" "t = TYPE_NAMED (take i pat)" "v = drop (i + 1) pat"
    by (auto simp: subject_variant_def split: option.splits if_splits)
  then have "pat = take i pat @ ''.'' @ v"
    using strchr_SomeD [OF i(1)] id_take_nth_drop [of i pat] by simp
  with i(2) show "\<exists>s. t = TYPE_NAMED s \<and> pat = s @ ''.'' @ v" by blast
qed

lemma find_None: "List.find P xs = None \<longleftrightarrow> (\<forall>x \<in> set xs. \<not> P x)"
  by (induction xs) auto

lemma match_exhaustive:
  assumes "has_arms c ud sc t match_init arms (Some ms)" "can_match (c_sema c) t"
    and "missing_variant (c_sema c) t ms = None" "length arms \<le> 256"
  shows "''_'' \<in> fst ` set arms \<or> set (variant_patterns (c_sema c) t) \<subseteq> fst ` set arms"
proof (rule disj_imp [THEN iffD2], rule impI)
  assume no: "''_'' \<notin> fst ` set arms"
  note seen = arms_seen [OF assms(1)] assms(4)
  have w: "\<not> saw_wildcard ms" and pats: "\<And>v. v \<in> set (seen_variants ms) \<Longrightarrow>
      \<exists>pat \<in> fst ` set arms. subject_variant t pat = Some (Some v)"
    using no seen by (auto simp: match_init_def)
  have all: "set (map f vs) \<subseteq> fst ` set arms"
    if "set vs \<subseteq> set (seen_variants ms)" "\<And>v pat. subject_variant t pat = Some (Some v) \<Longrightarrow> pat = f v" for f vs
  proof
    fix p assume "p \<in> set (map f vs)"
    with that(1) obtain v where v: "v \<in> set (seen_variants ms)" "p = f v" by auto
    from pats [OF v(1)] obtain pat where pat: "pat \<in> fst ` set arms" "subject_variant t pat = Some (Some v)" ..
    from that(2) [OF pat(2)] v(2) pat(1) show "p \<in> fst ` set arms" by simp
  qed
  note match = subject_variant_pattern [OF _ assms(2)]
  show "set (variant_patterns (c_sema c) t) \<subseteq> fst ` set arms"
  proof (cases "is_option_type t \<or> is_result_type t")
    case True
    then have "set (variant_patterns (c_sema c) t) \<subseteq> set (seen_variants ms)"
      using assms(3) w
      by (auto simp: missing_variant_def variant_patterns_def find_None Let_def split: if_splits)
    from all [of _ id, OF this] match(1) [OF _ True] show ?thesis by simp
  next
    case False
    then obtain s d where d: "t = TYPE_NAMED s" "find_enum (c_sema c) s = Some d"
      using assms(2) by (auto simp: can_match_def subject_enum_def split: night_type.splits if_splits)
    have f: "pat = s @ ''.'' @ v" if "subject_variant t pat = Some (Some v)" for v pat
      using match(2) [OF that] False d(1) by auto
    have "set (enum_variants d) \<subseteq> set (seen_variants ms)"
      using False assms(3) w d by (auto simp: missing_variant_def find_None Let_def subject_enum_def)
    from all [of _ "\<lambda>v. s @ ''.'' @ v", OF this f] False d show ?thesis
      by (simp add: variant_patterns_def)
  qed
qed

subsection \<open>Inversions of the rules\<close>

lemma has_type_assignE:
  assumes "has_type c ud sc e t" "nas e = NODE_ASSIGN x y op"
  obtains u v where "is_addressable x" "\<not> immutable_target sc x" "has_type c ud sc x u"
    "has_type c ud sc y v" "assign_rule (op \<noteq> None) u v = Inr t"
  using assms by (cases rule: has_type.cases) (auto simp: literal_type_def is_expression_def)

lemma has_type_fieldE:
  assumes "has_type c ud sc e t" "nas e = NODE_FIELD x f"
  obtains d where "static_field c x f = Some (d, t)" "visible_decl c d"
  | u where "static_field c x f = None" "has_type c ud sc x u" "builtin_field u f = Some (Inr t)"
  | u where "static_field c x f = None" "has_type c ud sc x u" "builtin_field u f = None"
    "declared_field c ud u f = Some t"
  using assms by (cases rule: has_type.cases) (auto simp: literal_type_def is_expression_def)

lemma has_type_matchE:
  assumes "has_type c ud sc e t" "nas e = NODE_MATCH x arms"
  obtains u ms where "has_type c ud sc x u" "can_match (c_sema c) u"
    "has_arms c ud sc u match_init arms (Some ms)" "missing_variant (c_sema c) u ms = None" "t = match_type ms"
  | u where "has_type c ud sc x u" "can_match (c_sema c) u" "has_arms c ud sc u match_init arms None" "t = TYPE_ERROR"
  using assms by (cases rule: has_type.cases) (auto simp: literal_type_def is_expression_def)

lemma arms_dotless:
  "has_arms c ud sc t ms arms None \<Longrightarrow> \<exists>pat \<in> fst ` set arms. pat \<noteq> ''_'' \<and> CHR ''.'' \<notin> set pat"
proof (induction arms arbitrary: ms)
  case (Cons arm arms)
  then show ?case
    by (cases arm)
      (auto simp: has_arms_simps pattern_step_def subject_variant_def strchr_None_iff
        split: option.splits if_splits)
qed (simp add: has_arms_simps)

lemma arms_option:
  assumes "has_arms c ud sc t ms arms None" "is_option_type t \<or> is_result_type t"
  shows False
  using assms
proof (induction arms arbitrary: ms)
  case (Cons arm arms)
  then show ?case
    by (cases arm)
      (auto simp: has_arms_simps pattern_step_def subject_variant_def split: option.splits if_splits)
qed (simp add: has_arms_simps)

subsection \<open>The buffer for the name of an enum\<close>

text \<open>A third use of the simulation: every fault but \<open>NameOverrun\<close> is tolerated.\<close>

interpretation fitting: tc_simulation sm ds "\<lambda>_. False" "\<lambda>e. e \<noteq> NameOverrun" adds for sm ds
  by unfold_locales (blast intro: adds_refl adds_trans adds_error adds_program | simp)+

interpretation fitted: tc_driver sm ds "\<lambda>_. False" "\<lambda>e. e \<noteq> NameOverrun" evolves for sm ds
  by unfold_locales (auto intro: evolves_refl evolves_trans simp: evolves_def same_program_def)

definition short_patterns :: "node \<Rightarrow> bool" where
  "short_patterns e \<longleftrightarrow>
     (\<forall>x \<in> set (all_parts e). \<forall>pat \<in> set (patterns x).
        case strchr pat (CHR ''.'') of None \<Rightarrow> True | Some i \<Rightarrow> i < 128)"

lemma short_patterns_part: "short_patterns e \<Longrightarrow> x \<in> set (parts e) \<Longrightarrow> short_patterns x"
  using all_parts_part by (auto simp: short_patterns_def)

lemma fitting_expr:
  assumes "\<And>s v. unfolds ds s v \<Longrightarrow> short_patterns v"
  shows "short_patterns e \<Longrightarrow> fitting.sim sm ds (check_expr n ud sc e) (check_expr n ud sc e)"
proof (induction n arbitrary: sc e)
  case (Suc n)
  have "fitting.sim sm ds (check_node (check_expr n ud) ud sc e) (check_node (check_expr n ud) ud sc e)"
  proof (rule fitting.sim_node)
    show "fitting.sim sm ds (check_expr n ud sc x) (check_expr n ud sc x)" if "x \<in> set (parts e)" for sc x
      using Suc that by (blast intro: short_patterns_part)
    show "fitting.sim sm ds (check_expr n ud None v) (check_expr n ud None v)"
      if "nas e = NODE_IDENT s" "find_global_const ds s = Some (None, v)" for s v
      using Suc.IH assms that by (auto simp: unfolds_def)
    show "fitting.fits pat" if "pat \<in> set (patterns e)" for pat
      using Suc.prems that all_parts_self [of e] by (auto simp: fitting.fits_def short_patterns_def)
  qed
  then show ?case by simp
qed (simp add: fitting.sim_def tfail_def)

lemma fitting_fitted: "fitting.sim sm ds m m' \<Longrightarrow> fitted.sim sm ds m m'"
  by (rule fitted.sim_weaken) (auto simp: fitting.sim_def intro: adds_evolves)

lemma fitted_program:
  assumes "\<And>s v. unfolds ds s v \<Longrightarrow> short_patterns v"
    and "\<And>d fn e. d \<in> set ds \<Longrightarrow> fn \<in> set (checked_functions d) \<Longrightarrow> e \<in> set (drives.fn_exprs fn) \<Longrightarrow>
      short_patterns e"
  shows "fitted.sim sm ds (until_failed (check_decl n) ds) (until_failed (check_decl n) ds)"
proof (rule fitted.sim_program)
  fix d fn assume fn: "d \<in> set ds" "fn \<in> set (checked_functions d)"
  have "fitted.sim sm ds (check_expr n ud sc e) (check_expr n ud sc e)"
    if "e \<in> set (fitted.fn_exprs fn)" for ud sc e
    using assms(2) [OF fn] that fitting_expr [OF assms(1)]
    by (intro fitting_fitted) (auto simp: fitted.fn_exprs_def drives.fn_exprs_def)
  then show "fitted.evals sm ds n n (fitted.fn_exprs fn)"
    by (simp add: fitted.evals_def)
qed

subsection \<open>Constants that name themselves\<close>

lemma circular_constant:
  assumes "nas e = NODE_IDENT s" "free_name sc s" "find_function (c_sema c) s = None"
    and "find_global_const (program_decls (c_program c)) s = Some (None, v)" "nas v = NODE_IDENT s"
    and "s \<notin> {''None'', ''stdout'', ''stderr'', ''stdin''}"
  shows "check_expr n ud sc e c = Inl NoReturn"
  using assms(1,2)
proof (induction n arbitrary: sc e)
  case 0
  then show ?case by (simp add: tfail_def)
next
  case (Suc n)
  have "free_name None s"
    using assms(6) by (simp add: free_name_def resolve_in_def)
  from Suc.IH [OF assms(5) this] Suc.prems show ?case
    using assms(3,4)
    by (simp add: check_node_def check_ident_def free_name_def check_global_def with_sema_def
        with_decls_def tget_def)
qed

subsection \<open>Private functions\<close>

text \<open>All functions that a type contains are visible from the current package.\<close>

fun sees :: "checker \<Rightarrow> night_type \<Rightarrow> bool" where
  "sees c (TYPE_FUNCTION d) \<longleftrightarrow> visible_decl c d"
| "sees c (TYPE_POINTER t _ _) \<longleftrightarrow> sees c t"
| "sees c (TYPE_ARRAY t _) \<longleftrightarrow> sees c t"
| "sees c _ \<longleftrightarrow> True"

lemma sees_name: "sees c (type_from_name_text s)"
proof (cases "map_of TYPE_NAMES s")
  case (Some t)
  then have "t \<in> snd ` set TYPE_NAMES" by (force dest: map_of_SomeD)
  then have "sees c t" by (auto simp: TYPE_NAMES_def)
  with Some show ?thesis by (simp add: type_from_name_text_def)
qed (simp add: type_from_name_text_def)

lemma sees_node: "sees c (type_from_node ty)"
  by (induction ty rule: type_from_node.induct) (auto simp: sees_name split: node_as.split)

lemma sees_visible: "visible_type c t \<Longrightarrow> sees c t"
  by (induction t) auto

lemma sees_try: "try_rule ret t = Inr u \<Longrightarrow> sees c u"
  by (auto simp: try_rule_def option_inner_type_def sees_name Let_def
      split: if_splits option.splits night_type.splits)

lemma sees_unary: "unary_rule op a t = Inr u \<Longrightarrow> sees c t \<Longrightarrow> sees c u"
  by (cases t) (auto simp: unary_rule_def widen_literal_def split: if_splits)

lemma sees_binary: "binary_rule op t u = Inr v \<Longrightarrow> sees c t \<Longrightarrow> sees c u \<Longrightarrow> sees c v"
  by (auto simp: binary_rule_def split: if_splits)

lemma sees_assign: "assign_rule b t u = Inr v \<Longrightarrow> sees c t \<Longrightarrow> sees c v"
  by (auto simp: assign_rule_def split: if_splits)

lemma sees_index: "index_rule t i = Inr v \<Longrightarrow> sees c t \<Longrightarrow> sees c v"
  by (cases t) (auto simp: index_rule_def split: if_splits)

lemma sees_slice: "slice_rule t i j = Inr v \<Longrightarrow> sees c t \<Longrightarrow> sees c v"
  by (cases t) (auto simp: slice_rule_def split: if_splits)

lemma sees_builtin_field: "builtin_field t f = Some (Inr v) \<Longrightarrow> sees c t \<Longrightarrow> sees c v"
  by (cases t) (auto simp: builtin_field_def split: if_splits)

lemma sees_join: "join ms u = Some ms' \<Longrightarrow> sees c u \<Longrightarrow> pred_option (sees c) (result_type ms) \<Longrightarrow>
    pred_option (sees c) (result_type ms')"
  by (auto simp: join_def split: option.splits if_splits)

lemma sees_literal: "literal_type e = Some t \<Longrightarrow> sees c t"
  by (auto simp: literal_type_def split: node_as.splits)

lemma sees_declared_field: "declared_field c ud t f = Some u \<Longrightarrow> sees c u"
proof -
  have "sees c v" if "map_of TYPE_NAMES s = Some v" for s v
    using sees_name [of c s] that by (simp add: type_from_name_text_def)
  then show "declared_field c ud t f = Some u \<Longrightarrow> sees c u"
    by (auto simp: declared_field_def field_type_def intro: sees_visible split: option.splits if_splits)
qed

lemma sees_routines: "(s, t) \<in> set OTHER_ROUTINES \<Longrightarrow> sees c t"
  by (auto simp: OTHER_ROUTINES_def)

lemma sees_stream: "stream_method s f = Some (Some t) \<Longrightarrow> sees c t"
  by (auto simp: stream_method_def split: if_splits)

lemma sees_route:
  "route_of c f = Ignores_arguments t \<Longrightarrow> sees c t" "route_of c f = Types_arguments t \<Longrightarrow> sees c t"
  by (auto simp: route_of_def route_def route_ident_def route_member_def generic_result_def sees_name
      intro: sees_routines sees_stream
      split: node_as.splits option.splits if_splits dest!: map_of_SomeD)

lemma sees_static_field: "static_field c x f = Some (d, t) \<Longrightarrow> visible_decl c d \<Longrightarrow> sees c t"
  by (auto simp: static_field_def split: option.splits)

lemma sees_string_result: "string_result obj f t = Some u \<Longrightarrow> sees c u"
  by (auto simp: string_result_def split: if_splits)

lemma typed_sees:
  shows "has_type c ud sc e t \<Longrightarrow> sees c t"
    and "has_value c ud sc t' e' u \<Longrightarrow> sees c t' \<Longrightarrow> sees c u"
    and "has_arms c ud sc t'' ms arms r \<Longrightarrow> pred_option (sees c) (result_type ms) \<Longrightarrow> r = Some ms' \<Longrightarrow>
      pred_option (sees c) (result_type ms')"
proof (induction arbitrary: and and ms' rule: has_type_has_value_has_arms.inducts)
  case (T_match e x arms sc t ms)
  then show ?case by (cases "result_type ms") (auto simp: match_type_def match_init_def)
next
  case (A_cons t ms pat ms1 bs ts sc inner v u ms2 arms r)
  have "result_type ms1 = result_type ms"
    using A_cons(1) by (auto simp: pattern_step_def split: option.splits if_splits)
  with A_cons have "pred_option (sees c) (result_type ms2)"
    by (auto intro: sees_join)
  with A_cons show ?case by simp
qed (auto simp: sees_node intro: sees_literal sees_visible sees_try sees_unary sees_binary sees_assign
    sees_index sees_slice sees_builtin_field sees_declared_field sees_route sees_static_field sees_string_result)

subsection \<open>Example programs\<close>

definition leaf :: "node_as \<Rightarrow> node" where
  "leaf x = Node 1 1 x"

definition named :: "string \<Rightarrow> node option" where
  "named s = Some (leaf (NODE_TYPE_NAMED s))"

definition ident :: "string \<Rightarrow> node" where
  "ident s = leaf (NODE_IDENT s)"

definition param :: "string \<Rightarrow> string \<Rightarrow> node" where
  "param s t = leaf (NODE_LET s (named t) None)"

definition fn_of :: "string \<Rightarrow> node list \<Rightarrow> string \<Rightarrow> node list \<Rightarrow> node" where
  "fn_of s ps ret ss =
     leaf (NODE_FN_DECL s None None [] ps (named ret) (Some (leaf (NODE_BLOCK ss))) False)"

definition return :: "node \<Rightarrow> node" where
  "return e = leaf (NODE_RETURN (Some e))"

definition program :: "node list \<Rightarrow> node" where
  "program ds = leaf (NODE_PROGRAM None [] ds)"

text \<open>The two analyses of \<^verbatim>\<open>compile_source\<close> one after the other; \<open>None\<close> if the first rejects the program.\<close>

definition checks :: "nat \<Rightarrow> node list \<Rightarrow> (tc_fault, bool \<times> diagnostic list) sum option" where
  "checks n ds =
     map_option (\<lambda>sm. typeck_check n (program ds) sm ''a'')
       (fst (sema_analyze (\<lambda>_. False) (program ds) ''a''))"

lemmas examples = leaf_def named_def ident_def param_def fn_of_def return_def program_def

definition narrowing :: "node list" where
  "narrowing =
    [fn_of ''f'' [param ''a'' ''i64'', param ''b'' ''i64''] ''u8''
      [return (leaf (NODE_BINARY ''+'' (ident ''a'') (ident ''b'')))]]"

lemma narrowing_checks: "checks 10 narrowing = Some (Inr (True, []))"
  by code_simp

definition colours :: node where
  "colours = leaf (NODE_ENUM_DECL ''Colour'' None [(''Red'', []), (''Blue'', [])] False)"

definition red :: node where
  "red = leaf (NODE_FIELD (ident ''Colour'') ''Red'')"

definition one :: node where
  "one = leaf (NODE_LIT_INT 1)"

definition dotless :: "node list" where
  "dotless =
    [colours,
     fn_of ''f'' [param ''c'' ''Colour''] ''i32''
       [return (leaf (NODE_MATCH (ident ''c'') [(''Some'', [], one)]))]]"

lemma dotless_checks: "checks 10 dotless = Some (Inr (True, []))"
  by code_simp

definition silently_rejected :: "node list" where
  "silently_rejected =
    [leaf (NODE_COMPTIME [leaf (NODE_CONST ''LIMIT'' None one)]),
     fn_of ''f'' [] ''i32'' [leaf (NODE_DEFER (ident ''LIMIT'')), return one]]"

definition overrunning :: "node list" where
  "overrunning =
    [colours,
     leaf (NODE_CONST ''V'' None (leaf (NODE_MATCH red [(replicate 128 (CHR ''a'') @ ''.b'', [], one)]))),
     fn_of ''f'' [] ''i32'' [return (ident ''V'')]]"

definition circular :: "node list" where
  "circular =
    [leaf (NODE_CONST ''A'' None (ident ''A'')), fn_of ''f'' [] ''i32'' [return (ident ''A'')]]"

definition circular_model :: semantic_model where
  "circular_model =
    \<lparr>model_functions = [fn_of ''f'' [] ''i32'' [return (ident ''A'')]], model_extern_functions = [],
     model_structs = [], model_enums = [], model_unions = [], model_impls = []\<rparr>"

lemma circular_accepted: "fst (sema_analyze (\<lambda>_. False) (program circular) ''a'') = Some circular_model"
  by code_simp

lemma circular_name:
  assumes "c_sema c = circular_model" "c_program c = program circular" "free_name sc ''A''"
  shows "check_expr n ud sc (ident ''A'') c = Inl NoReturn"
proof (rule circular_constant [where s = "''A''" and v = "ident ''A''"])
  show "find_global_const (program_decls (c_program c)) ''A'' = Some (None, ident ''A'')"
    unfolding assms(2) by code_simp
  show "find_function (c_sema c) ''A'' = None"
    unfolding assms(1) by code_simp
qed (use assms(3) in \<open>simp_all add: ident_def leaf_def\<close>)

lemma circular_checks: "checks n circular = Some (Inl NoReturn)"
proof -
  let ?c = "checker_init (program circular) circular_model ''a''"
  have body: "check_stmt n 0 TYPE_I32 (return (ident ''A'')) sc c = Inl NoReturn"
    if "c_sema c = circular_model" "c_program c = program circular" "tscope_resolve sc ''A'' = None" for sc c
    using circular_name [OF that(1,2), of "Some sc" n 0] that(3)
    by (simp add: free_name_def resolve_in_def return_def leaf_def check_stmt.simps simple_def leave_scope_def
        check_return_def check_value_def tbind_def ident_def is_option_type_def is_result_type_def
        check_contextual_constructor_def)
  let ?fn = "fn_of ''f'' [] ''i32'' [return (ident ''A'')]"
  have visible: "ensure_type_visible ?fn (fn_ret_type ?fn) c = Inr (True, c)" if "c_sema c = circular_model" for c
    using that
    by (simp add: ensure_type_visible_def fn_ret_type_def fn_of_def leaf_def named_def require_type_visible_def
        with_sema_def tget_def find_type_decl_def find_named_node_def circular_model_def or_else_def tret_def)
  have ret: "type_from_ast (fn_ret_type ?fn) = TYPE_I32" by code_simp
  have fn: "fn_params ?fn = []" "fn_body ?fn = Some (leaf (NODE_BLOCK [return (ident ''A'')]))" "fn_name ?fn = ''f''"
    by (simp_all add: fn_params_def fn_body_def fn_name_def fn_of_def leaf_def)
  have scope: "define_all_by tscope_define (tscope_new None) (function_bindings circular_model) =
      Inr (TScope [(''f'', bind_var (TYPE_FUNCTION ?fn) False)] None)"
    by (simp add: function_bindings_def circular_model_def tscope_new_def fn(3))
  have "check_function n ?fn ?c = Inl NoReturn"
    using body
    by (simp add: check_function_def tget_def tbind_def set_package_def tset_def visible ret with_sema_def
        scope fn tret_def check_body_def set_return_type_def leaf_def then_do_def)
  moreover have "program_decls (program circular) = [leaf (NODE_CONST ''A'' None (ident ''A'')), ?fn]"
      "checked_functions ?fn = [?fn]" "checked_functions (leaf (NODE_CONST ''A'' None (ident ''A''))) = []"
    by (simp_all add: program_decls_def program_def leaf_def checked_functions_def fn_of_def circular_def)
  ultimately have "typeck_check n (program circular) circular_model ''a'' = Inl NoReturn"
    by (simp add: typeck_check_def check_decl_def tget_def tbind_def or_fail_def tret_def)
  then show ?thesis
    by (simp add: checks_def circular_accepted)
qed

subsection \<open>Properties\<close>

text \<open>C7: The type checker decides the typing rules: there is a bound on the nesting of calls under
  which \<^verbatim>\<open>typeck_check\<close> accepts a program exactly if every function it checks is well typed, in its
  package and with its return type, from the signature to the last statement.\<close>

theorem typeck_accepts_exactly_well_typed:
  "(\<exists>n ds. typeck_check n prog sm src = Inr (True, ds)) \<longleftrightarrow> program_typed (checker_init prog sm src)"
proof
  assume "program_typed (checker_init prog sm src)"
  then show "\<exists>n ds. typeck_check n prog sm src = Inr (True, ds)"
    unfolding program_typed_iff eventually_sequentially by blast
qed (auto simp: program_typed_def typeck_check_clean intro!: sound_function)

text \<open>C8: The checker gives an expression a type and prints nothing, under some bound, exactly if the
  typing rules derive that type.\<close>

theorem check_expr_follows_rules:
  "(\<exists>n. check_expr n ud sc e c = Inr (t, c)) \<longleftrightarrow> has_type c ud sc e t"
proof
  assume "has_type c ud sc e t"
  then show "\<exists>n. check_expr n ud sc e c = Inr (t, c)"
    using eventually_typed [of c ud sc e t] unfolding eventually_sequentially silent_def by blast
qed (auto simp: silent_def [symmetric] dest: check_expr_sound)

text \<open>C9: \<^verbatim>\<open>typeck_check\<close> returns if the untyped global constants of the program can be ranked so that
  the value of each mentions only constants of smaller rank: for \<open>k\<close> ranks, calls nested
  \<open>(k + 1) * size\<close> deep are enough, and a larger bound gives the same answer.\<close>

theorem typeck_returns:
  assumes "ranked (program_decls prog) rank k" "(k + 1) * size_list size (program_decls prog) \<le> n"
  shows "typeck_check n prog sm src \<noteq> Inl NoReturn \<and>
    typeck_check (n + m) prog sm src = typeck_check n prog sm src"
proof -
  let ?c = "checker_init prog sm src" and ?ds = "program_decls prog"
  have "same_program sm ?ds ?c" by (simp add: same_program_def)
  with returns_program [OF assms, of sm] have "typeck_check n prog sm src \<noteq> Inl NoReturn"
    unfolding finishes.sim_def typeck_check_def
    by (auto split: sum.splits prod.splits dest!: spec [of _ ?c])
  with typeck_check_mono [OF this, of "n + m"] show ?thesis by simp
qed

text \<open>C27: Constants that refer to each other in a circle are checked for ever: the semantic analysis
  accepts the program \<^verbatim>\<open>const A = A; fn f() -> i32 { return A; }\<close>, and no bound on the nesting of
  calls lets the type checker return.\<close>

theorem circular_constants_never_return: "checks n circular = Some (Inl NoReturn)"
  by (rule circular_checks)

text \<open>C17: A match with at most 256 arms that the checker accepts silently has no arm twice, and a wildcard or a
  pattern for each variant of the type of its subject, if the subject is an \<open>Option\<close> or a \<open>Result\<close> or every
  pattern but the wildcard has a dot. Both conditions are needed: the checker keeps 256 variants, and a pattern
  without a dot on an enum ends the check of the match without a message (\<open>dotless_checks\<close>).\<close>

theorem accepted_matches_exhaustive:
  assumes "check_expr n ud sc e c = Inr (t, c)" "nas e = NODE_MATCH x arms"
    and "check_expr m ud sc x c = Inr (u, c)" "length arms \<le> 256"
    and "is_option_type u \<or> is_result_type u \<or> (\<forall>pat \<in> fst ` set arms. pat = ''_'' \<or> CHR ''.'' \<in> set pat)"
  shows "(''_'' \<in> fst ` set arms \<or> set (variant_patterns (c_sema c) u) \<subseteq> fst ` set arms) \<and>
    distinct (map fst arms)"
proof -
  from assms(1) have typed: "has_type c ud sc e t"
    by (auto simp: silent_def [symmetric] intro: check_expr_sound)
  have x: "has_type c ud sc x v \<Longrightarrow> v = u" for v
    using assms(3) by (auto simp: silent_def [symmetric] dest: check_expr_sound has_type_unique)
  from typed assms(2) consider ms where "can_match (c_sema c) u" "has_arms c ud sc u match_init arms (Some ms)"
      "missing_variant (c_sema c) u ms = None"
    | "has_arms c ud sc u match_init arms None"
    using x by (cases rule: has_type_matchE) blast+
  then show ?thesis
  proof cases
    case 1
    then show ?thesis
      using match_exhaustive [OF 1(2,1,3) assms(4)] arms_distinct [OF 1(2) assms(4)] by blast
  next
    case 2
    with assms(5) show ?thesis
      using arms_dotless [OF 2] arms_option [OF 2] by blast
  qed
qed

text \<open>C19: No expression evaluates to a private function of another package: whatever the expression,
  an accepted one with a function as its value names a function that is public or declared in the
  package being checked.\<close>

theorem private_functions_unreachable:
  assumes "check_expr n ud sc e c = Inr (TYPE_FUNCTION fn, c)"
  shows "node_is_public fn \<or> node_package_name fn = c_package c"
proof -
  from assms have "has_type c ud sc e (TYPE_FUNCTION fn)"
    by (auto simp: silent_def [symmetric] intro: check_expr_sound)
  from typed_sees(1) [OF this] show ?thesis
    by (auto simp: visible_decl_def decl_visible_from_def same_package_name_def)
qed

text \<open>C18: The buffer \<^verbatim>\<open>enum_name\<close> of 128 bytes that a pattern is split with is not overrun if the enum
  named in each pattern of the function bodies and of the values of untyped global constants has at
  most 127 characters.\<close>

theorem enum_name_fits:
  assumes "\<forall>s v. unfolds (program_decls prog) s v \<longrightarrow> short_patterns v"
    and "\<forall>d \<in> set (program_decls prog). \<forall>fn \<in> set (checked_functions d).
      \<forall>e \<in> set (drives.fn_exprs fn). short_patterns e"
  shows "typeck_check n prog sm src \<noteq> Inl NameOverrun"
proof -
  let ?c = "checker_init prog sm src" and ?ds = "program_decls prog"
  have "same_program sm ?ds ?c" by (simp add: same_program_def)
  moreover have "fitted.sim sm ?ds (until_failed (check_decl n) ?ds) (until_failed (check_decl n) ?ds)"
    using assms by (intro fitted_program) blast+
  ultimately show ?thesis
    unfolding fitted.sim_def typeck_check_def
    by (auto split: sum.splits prod.splits dest!: spec [of _ ?c])
qed

text \<open>The semantic analysis does not look at the values of global constants, so such a program gets as far as
  this.\<close>

lemma enum_name_overrun: "checks 10 overrunning = Some (Inl NameOverrun)"
  by code_simp

lemma check_arms_append:
  "check_arms rec sc at t ms (arms @ arms') =
    if_some (check_arms rec sc at t ms arms) (\<lambda>ms'. check_arms rec sc at t ms' arms')"
proof (induction arms arbitrary: ms)
  case (Cons arm arms)
  show ?case
    by (rule ext) (auto simp: Cons if_some_def tbind_def tret_def split: sum.splits prod.splits option.splits)
qed (rule ext, simp add: if_some_def tbind_def tret_def)

text \<open>C28: The buffer is overrun by every match on an enum in which a pattern has 128 characters or more before
  its dot, wherever the arm stands, once the subject and the arms before it have been checked without a stop:
  \<^verbatim>\<open>check_expr\<close> copies them into the 128 bytes of \<^verbatim>\<open>enum_name\<close> before it compares them with the type of
  the subject.\<close>

theorem long_patterns_overrun:
  assumes "nas e = NODE_MATCH x (arms @ (pat, bs, v) # arms')" "check_expr n ud sc x c = Inr (t, c1)"
    and "subject_enum (c_sema c1) t \<noteq> None"
    and "check_arms (check_expr n ud) sc e t match_init arms c1 = Inr (Some ms, c2)"
    and "strchr pat (CHR ''.'') = Some i" "128 \<le> i"
  shows "check_expr (Suc n) ud sc e c = Inl NameOverrun"
proof -
  have t: "\<not> is_option_type t \<and> \<not> is_result_type t"
    using assms(3) by (auto simp: subject_enum_def split: night_type.splits if_splits)
  have p: "pat \<noteq> ''_''" using assms(5) by auto
  have s: "split_pattern pat k = Inl NameOverrun" for k using assms(5,6) by (simp add: split_pattern_def tfail_def)
  then have "check_arms (check_expr n ud) sc e t match_init (arms @ (pat, bs, v) # arms') c1 = Inl NameOverrun"
    using t p assms(4) by (simp add: check_arms_append check_arm_def check_pattern_def check_subject_pattern_def if_some_def tbind_def)
  moreover obtain decl where "subject_enum (c_sema c1) t = Some decl" using assms(3) by blast
  ultimately show ?thesis
    using assms(1,2) by (simp add: check_node_def check_match_expr_def tbind_def with_sema_def tget_def can_match_def)
qed
text \<open>A program can be rejected without a diagnostic: a deferred expression whose value is a
  constant of a \<^verbatim>\<open>comptime\<close> block has no type, which fails the check silently.\<close>

theorem rejected_without_diagnostic: "checks 10 silently_rejected = Some (Inr (False, []))"
  by code_simp

text \<open>C29: The sum of two integers, whatever their widths, has the type of an integer literal and is
  accepted where any integer type is expected: the widths of the operands are lost.\<close>

theorem integer_arithmetic_loses_width:
  assumes "nas e = NODE_BINARY op x y" "op \<in> {''+'', ''-'', ''*'', ''/'', ''%''}"
    and "check_expr n ud sc x c = Inr (t, c)" "check_expr n ud sc y c = Inr (u, c)"
    and "is_integer_kind t" "is_integer_kind u" "is_integer_kind v"
  shows "check_expr (Suc n) ud sc e c = Inr (TYPE_INT_LITERAL, c) \<and> is_assignable v TYPE_INT_LITERAL"
proof -
  have "binary_rule op t u = Inr TYPE_INT_LITERAL"
    using assms(2,5,6) by (auto simp: binary_rule_def is_numeric_type_def is_integer_kind_def is_float_kind_def)
  with assms show ?thesis
    by (simp add: check_node_def tbind_def conclude_def tret_def Let_def is_assignable_def)
qed

theorem integer_arithmetic_loses_width_witness:
  "check_expr 2 0 (Some (TScope [(''a'', bind_var TYPE_I64 True)] None))
     (leaf (NODE_BINARY ''+'' (ident ''a'') (ident ''a''))) (checker_init (program []) circular_model ''a'') =
     Inr (TYPE_INT_LITERAL, checker_init (program []) circular_model ''a'') \<and>
   is_assignable TYPE_U8 TYPE_INT_LITERAL"
proof -
  let ?c = "checker_init (program []) circular_model ''a''"
  let ?sc = "Some (TScope [(''a'', bind_var TYPE_I64 True)] None)"
  have "check_expr 1 0 ?sc (ident ''a'') ?c = Inr (TYPE_I64, ?c)" by code_simp
  from integer_arithmetic_loses_width [OF _ _ this this, of "leaf (NODE_BINARY ''+'' (ident ''a'') (ident ''a''))" "''+''" TYPE_U8]
  show ?thesis by (simp add: leaf_def is_integer_kind_def numeral_2_eq_2 del: check_expr.simps)
qed

subsection \<open>Witnesses\<close>

definition ranked_program :: node where
  "ranked_program =
    program [leaf (NODE_CONST ''A'' None one), leaf (NODE_CONST ''B'' None (ident ''A'')),
             fn_of ''f'' [] ''i32'' [return (ident ''B'')]]"

lemma ranked_program_ranked:
  "ranked (program_decls ranked_program) (\<lambda>s. if s = ''A'' then 0 else 1) 2"
proof -
  have unfolds: "unfolds (program_decls ranked_program) s v \<longleftrightarrow> s = ''A'' \<and> v = one \<or> s = ''B'' \<and> v = ident ''A''"
    for s v
    by (auto simp: unfolds_def find_global_const_def ranked_program_def program_decls_def examples)
  have "mentions one t \<longleftrightarrow> False" "mentions (ident ''A'') t \<longleftrightarrow> t = ''A''" for t
    by (auto simp: mentions_def all_parts.simps parts_def one_def examples)
  then show ?thesis
    by (auto simp: ranked_def unfolds)
qed

theorem typeck_returns_witness: "typeck_check 1000 ranked_program circular_model ''a'' \<noteq> Inl NoReturn"
proof -
  have "(2 + 1) * size_list size (program_decls ranked_program) \<le> 1000"
    by (simp add: ranked_program_def program_decls_def examples one_def)
  from typeck_returns [OF ranked_program_ranked this] show ?thesis by blast
qed

definition match_model :: semantic_model where
  "match_model =
    \<lparr>model_functions = [], model_extern_functions = [], model_structs = [], model_enums = [colours],
     model_unions = [], model_impls = []\<rparr>"

definition match_arms :: "(string \<times> string list \<times> node) list" where
  "match_arms = [(''Colour.Red'', [], one), (''Colour.Blue'', [], one)]"

theorem accepted_matches_exhaustive_witness:
  "(''_'' \<in> fst ` set match_arms \<or>
      set (variant_patterns match_model (TYPE_NAMED ''Colour'')) \<subseteq> fst ` set match_arms) \<and>
   distinct (map fst match_arms)"
proof -
  let ?c = "checker_init (program []) match_model ''a''"
  have "check_expr 5 0 None (leaf (NODE_MATCH red match_arms)) ?c = Inr (TYPE_INT_LITERAL, ?c)"
    "check_expr 5 0 None red ?c = Inr (TYPE_NAMED ''Colour'', ?c)" "length match_arms \<le> 256"
    by code_simp+
  from accepted_matches_exhaustive [OF this(1) _ this(2,3)]
  show ?thesis by (simp add: leaf_def match_arms_def)
qed

theorem long_patterns_overrun_witness:
  "check_expr (Suc 4) 0 None (leaf (NODE_MATCH red [(''Colour.Red'', [], one), (replicate 128 (CHR ''a'') @ ''.b'', [], one)]))
     (checker_init (program []) match_model ''a'') = Inl NameOverrun"
proof -
  let ?c = "checker_init (program []) match_model ''a''"
  let ?arms = "[(''Colour.Red'', [], one)] @ [(replicate 128 (CHR ''a'') @ ''.b'', [], one)]"
  have e: "nas (leaf (NODE_MATCH red ?arms)) = NODE_MATCH red ?arms" by (simp add: leaf_def)
  have "check_expr 4 0 None red ?c = Inr (TYPE_NAMED ''Colour'', ?c)" "subject_enum (c_sema ?c) (TYPE_NAMED ''Colour'') \<noteq> None"
    "check_arms (check_expr 4 0) None (leaf (NODE_MATCH red ?arms)) (TYPE_NAMED ''Colour'') match_init [(''Colour.Red'', [], one)] ?c =
      Inr (Some \<lparr>saw_wildcard = False, seen_variants = [''Red''], result_type = Some TYPE_INT_LITERAL\<rparr>, ?c)"
    "strchr (replicate 128 (CHR ''a'') @ ''.b'') (CHR ''.'') = Some 128"
    by code_simp+
  from long_patterns_overrun [OF e this] show ?thesis by simp
qed

theorem private_functions_unreachable_witness:
  "node_is_public (fn_of ''f'' [] ''i32'' []) \<or> node_package_name (fn_of ''f'' [] ''i32'' []) = None"
proof -
  let ?c = "checker_init (program []) match_model ''a''"
  let ?sc = "Some (TScope [(''f'', bind_var (TYPE_FUNCTION (fn_of ''f'' [] ''i32'' [])) False)] None)"
  have "check_expr 1 0 ?sc (ident ''f'') ?c = Inr (TYPE_FUNCTION (fn_of ''f'' [] ''i32'' []), ?c)"
    by code_simp
  from private_functions_unreachable [OF this] show ?thesis by simp
qed

theorem enum_name_fits_witness:
  "typeck_check 10 (program [fn_of ''f'' [] ''i32'' [return (leaf (NODE_MATCH red match_arms))]]) match_model ''a''
     \<noteq> Inl NameOverrun"
proof (rule enum_name_fits)
  show "\<forall>s v. unfolds (program_decls (program [fn_of ''f'' [] ''i32'' [return (leaf (NODE_MATCH red match_arms))]])) s v
      \<longrightarrow> short_patterns v"
    by (auto simp: unfolds_def find_global_const_def program_decls_def examples)
  show "\<forall>d \<in> set (program_decls (program [fn_of ''f'' [] ''i32'' [return (leaf (NODE_MATCH red match_arms))]])).
      \<forall>fn \<in> set (checked_functions d). \<forall>e \<in> set (drives.fn_exprs fn). short_patterns e"
    by (simp add: program_decls_def examples checked_functions_def drives.fn_exprs_def fn_body_def
        stmt_exprs.simps value_parts_def call_args_def short_patterns_def all_parts.simps parts_def
        patterns_def red_def one_def match_arms_def)
qed

end
