(* ===== verification/Driver_Paths.thy ===== *)
theory Driver_Paths
  imports Sema_Base
begin

text \<open>
  The part of the driver \<^verbatim>\<open>compiler/src/main.c\<close> that only works on strings: paths, the quoting of a
  command for the shell, the reader of the manifest \<^verbatim>\<open>night.toml\<close> and the source formatter. The
  functions \<^verbatim>\<open>path_dirname\<close> and \<^verbatim>\<open>path_join\<close> of \<^verbatim>\<open>main.c\<close> are those of \<^verbatim>\<open>sema.c\<close>.
\<close>

subsection \<open>Paths\<close>

definition has_afns_extension :: "string \<Rightarrow> bool" where
  "has_afns_extension path =
     (case strrchr path (CHR ''.'') of None \<Rightarrow> False | Some i \<Rightarrow> drop i path = ''.afns'')"

definition path_basename :: "string \<Rightarrow> string" where
  "path_basename path =
     (case strrchr path (CHR ''/'') of None \<Rightarrow> path | Some i \<Rightarrow> drop (i + 1) path)"

text \<open>The length of the path without its extension; a dot before the last slash starts none.\<close>

definition stem_length :: "string \<Rightarrow> nat" where
  "stem_length path =
     (case strrchr path (CHR ''.'') of
        None \<Rightarrow> length path
      | Some dot \<Rightarrow>
          (case strrchr path (CHR ''/'') of
             None \<Rightarrow> dot
           | Some slash \<Rightarrow> if dot > slash then dot else length path))"

definition replace_extension :: "string \<Rightarrow> string \<Rightarrow> string" where
  "replace_extension path ext = take (stem_length path) path @ ext"

subsection \<open>Quoting for the shell\<close>

abbreviation quote :: char where
  "quote \<equiv> CHR 0x27"

definition quote_char :: "char \<Rightarrow> string" where
  "quote_char c = (if c = quote then [quote, CHR 0x5C, quote, quote] else [c])"

definition shell_quote :: "string \<Rightarrow> string" where
  "shell_quote s = quote # concat (map quote_char s) @ [quote]"

subsection \<open>The manifest\<close>

definition is_blank :: "char \<Rightarrow> bool" where
  "is_blank c \<longleftrightarrow> c = CHR '' '' \<or> c = CHR 0x09 \<or> c = CHR 0x0D \<or> c = newline"

definition trim_end :: "(char \<Rightarrow> bool) \<Rightarrow> string \<Rightarrow> string" where
  "trim_end P s = rev (dropWhile P (rev s))"

definition trim_ascii :: "string \<Rightarrow> string" where
  "trim_ascii s = trim_end is_blank (dropWhile is_blank s)"

text \<open>The text from the first double quote, which must be the first character, to the last.\<close>

definition parse_toml_string :: "string \<Rightarrow> string option" where
  "parse_toml_string v =
     (case v of
        [] \<Rightarrow> None
      | q # s \<Rightarrow>
          if q = CHR 0x22 then
            (case strrchr s (CHR 0x22) of None \<Rightarrow> None | Some n \<Rightarrow> Some (take n s))
          else None)"

record project_config =
  root_dir :: string
  package_name :: "string option"
  version :: "string option"
  author :: "string option"
  description :: "string option"
  target_mode :: "string option"
  target_arch :: "string option"
  entry :: "string option"
  output_path :: "string option"
  optimization :: "string option"
  deps :: "(string \<times> string) list"

definition empty_config :: "string \<Rightarrow> project_config" where
  "empty_config dir =
    \<lparr>root_dir = dir, package_name = None, version = None, author = None, description = None,
     target_mode = None, target_arch = None, entry = None, output_path = None, optimization = None, deps = []\<rparr>"

text \<open>A value that must be a string, and one that is dropped if it is none.\<close>

definition required ::
  "string \<Rightarrow> string \<Rightarrow> (string option \<Rightarrow> project_config) \<Rightarrow> (string, project_config) sum" where
  "required what v store =
     (case parse_toml_string v of None \<Rightarrow> Inl (''invalid '' @ what) | Some s \<Rightarrow> Inr (store (Some s)))"

definition optional_value ::
  "string \<Rightarrow> (string option \<Rightarrow> project_config) \<Rightarrow> project_config \<Rightarrow> (string, project_config) sum" where
  "optional_value v store cfg =
     Inr (case parse_toml_string v of None \<Rightarrow> cfg | Some s \<Rightarrow> store (Some s))"

definition config_entry ::
  "string \<Rightarrow> string \<Rightarrow> string \<Rightarrow> project_config \<Rightarrow> (string, project_config) sum" where
  "config_entry section key v cfg =
     (if section = ''package'' \<and> key = ''name'' then
        required ''package.name'' v (\<lambda>s. cfg\<lparr>package_name := s\<rparr>)
      else if section = ''package'' \<and> key = ''version'' then
        optional_value v (\<lambda>s. cfg\<lparr>version := s\<rparr>) cfg
      else if section = ''package'' \<and> key = ''author'' then
        optional_value v (\<lambda>s. cfg\<lparr>author := s\<rparr>) cfg
      else if section = ''package'' \<and> key = ''description'' then
        optional_value v (\<lambda>s. cfg\<lparr>description := s\<rparr>) cfg
      else if section = ''deps'' then
        Inr (case parse_toml_string v of None \<Rightarrow> cfg | Some s \<Rightarrow> cfg\<lparr>deps := deps cfg @ [(key, s)]\<rparr>)
      else if section = ''target'' \<and> key = ''mode'' then
        required ''target.mode'' v (\<lambda>s. cfg\<lparr>target_mode := s\<rparr>)
      else if section = ''target'' \<and> key = ''arch'' then
        required ''target.arch'' v (\<lambda>s. cfg\<lparr>target_arch := s\<rparr>)
      else if section = ''build'' \<and> key = ''entry'' then
        required ''build.entry'' v (\<lambda>s. cfg\<lparr>entry := s\<rparr>)
      else if section = ''build'' \<and> key = ''output'' then
        required ''build.output'' v (\<lambda>s. cfg\<lparr>output_path := s\<rparr>)
      else if section = ''build'' \<and> key = ''optimization'' then
        optional_value v (\<lambda>s. cfg\<lparr>optimization := s\<rparr>) cfg
      else Inr cfg)"

text \<open>One line: a comment is cut off, then the line is a section header, an assignment or ignored.\<close>

definition cut_at :: "char \<Rightarrow> string \<Rightarrow> string" where
  "cut_at c s = takeWhile (\<lambda>d. d \<noteq> c) s"

definition config_line ::
  "string \<Rightarrow> string \<times> project_config \<Rightarrow> (string, string \<times> project_config) sum" where
  "config_line text = (\<lambda>(section, cfg).
     let line = trim_ascii (cut_at (CHR ''#'') text) in
     if line = [] then Inr (section, cfg)
     else if hd line = CHR ''['' then
       (case strchr line (CHR '']'') of
          None \<Rightarrow> Inl ''malformed section header''
        | Some close \<Rightarrow> Inr (take 31 (take (close - 1) (drop 1 line)), cfg))
     else
       (case strchr line (CHR ''='') of
          None \<Rightarrow> Inr (section, cfg)
        | Some eq \<Rightarrow>
            map_sum id (Pair section)
              (config_entry section (trim_ascii (take eq line)) (trim_ascii (drop (eq + 1) line)) cfg)))"

function split_lines :: "string \<Rightarrow> string list" where
  "split_lines s =
     (if s = [] then []
      else cut_at newline s # split_lines (drop (length (cut_at newline s) + 1) s))"
  by auto
termination
  by (relation "measure length") auto

declare split_lines.simps [simp del]

fun config_lines ::
  "string list \<Rightarrow> string \<times> project_config \<Rightarrow> (string, string \<times> project_config) sum" where
  "config_lines [] st = Inr st"
| "config_lines (l # ls) st =
     (case config_line l st of Inl e \<Rightarrow> Inl e | Inr st' \<Rightarrow> config_lines ls st')"

text \<open>The defaults; the output is named after the package, and this after the directory.\<close>

definition or_default :: "string option \<Rightarrow> string \<Rightarrow> string option" where
  "or_default v d = Some (case v of Some s \<Rightarrow> s | None \<Rightarrow> d)"

definition default_config :: "project_config \<Rightarrow> project_config" where
  "default_config cfg =
     (let name = (case package_name cfg of Some s \<Rightarrow> s | None \<Rightarrow> path_basename (root_dir cfg))
      in cfg\<lparr>entry := or_default (entry cfg) ''src/main.afns'', package_name := Some name,
             target_mode := or_default (target_mode cfg) ''native'',
             output_path := or_default (output_path cfg) name\<rparr>)"

text \<open>\<open>parse_manifest\<close> is \<^verbatim>\<open>parse_project_config\<close> once the file is read; \<open>Inl\<close> is its diagnostic.\<close>

definition parse_manifest :: "string \<Rightarrow> string \<Rightarrow> (string, project_config) sum" where
  "parse_manifest dir text =
     (case config_lines (split_lines text) ([], empty_config dir) of
        Inl e \<Rightarrow> Inl (''error: '' @ e @ '' in '' @ in_quotes (path_join dir ''night.toml''))
      | Inr (_, cfg) \<Rightarrow> Inr (default_config cfg))"

definition resolve_project_entry :: "project_config \<Rightarrow> string" where
  "resolve_project_entry cfg = path_join (root_dir cfg) (case entry cfg of Some s \<Rightarrow> s | None \<Rightarrow> [])"

definition resolve_project_output :: "project_config \<Rightarrow> string" where
  "resolve_project_output cfg = path_join (root_dir cfg) (case output_path cfg of Some s \<Rightarrow> s | None \<Rightarrow> [])"

text \<open>The manifest that \<^verbatim>\<open>init_project\<close> writes.\<close>

definition lines_text :: "string list \<Rightarrow> string" where
  "lines_text ls = concat (map (\<lambda>l. l @ [newline]) ls)"

definition new_manifest :: "string \<Rightarrow> string" where
  "new_manifest name =
     lines_text
       [''[package]'', ''name = '' @ CHR 0x22 # name @ [CHR 0x22], [],
        ''[target]'', ''mode = '' @ CHR 0x22 # ''native'' @ [CHR 0x22],
        ''backend = '' @ CHR 0x22 # ''llvm'' @ [CHR 0x22], [],
        ''[build]'', ''entry = '' @ CHR 0x22 # ''src/main.afns'' @ [CHR 0x22],
        ''output = '' @ CHR 0x22 # name @ [CHR 0x22]]"

definition new_main :: string where
  "new_main =
     lines_text [''package main;'', [], ''fn main() -> i32 {'', ''    return 0;'', [CHR 0x7D]]"

subsection \<open>The formatter\<close>

text \<open>
  \<^verbatim>\<open>format_source_file\<close> removes blanks at the ends of lines, ends every line with a newline and drops
  empty lines at the end of the file, keeping one newline where nothing else is left.
\<close>

definition is_line_blank :: "char \<Rightarrow> bool" where
  "is_line_blank c \<longleftrightarrow> c = CHR '' '' \<or> c = CHR 0x09 \<or> c = CHR 0x0D"

fun drop_blank_lines :: "string \<Rightarrow> string" where
  "drop_blank_lines (c # d # cs) =
     (if c = newline \<and> d = newline then drop_blank_lines (d # cs) else c # d # cs)"
| "drop_blank_lines s = s"

definition format_text :: "string \<Rightarrow> string" where
  "format_text text =
     rev (drop_blank_lines (rev (lines_text (map (trim_end is_line_blank) (split_lines text)))))"

end
