(* ===== verification/Driver_Text.thy ===== *)
theory Driver_Text
  imports Driver_Paths
begin

text \<open>
  The properties of the text functions of the driver: quoting is undone by the shell, the formatter
  changes nothing but blanks at the ends of lines and empty lines at the end of the file, and the
  manifest of a new project reads back.
\<close>

subsection \<open>Quoting\<close>

text \<open>
  How a POSIX shell reads a word that consists of quoted parts and escaped characters. Any other
  character outside quotes makes the result \<open>None\<close>.
\<close>

fun sh_word :: "string \<Rightarrow> string option" and sh_quoted :: "string \<Rightarrow> string option" where
  "sh_word [] = Some []"
| "sh_word (c # s) =
     (if c = quote then sh_quoted s
      else if c = CHR 0x5C then (case s of [] \<Rightarrow> None | d # r \<Rightarrow> map_option ((#) d) (sh_word r))
      else None)"
| "sh_quoted [] = None"
| "sh_quoted (c # s) = (if c = quote then sh_word s else map_option ((#) c) (sh_quoted s))"

lemma sh_quoted_chars: "sh_quoted (concat (map quote_char s) @ t) = map_option ((@) s) (sh_quoted t)"
  by (induction s) (auto simp: quote_char_def option.map_comp o_def option.map_ident)

subsection \<open>Lines\<close>

lemma trim_end_trim_end [simp]: "trim_end P (trim_end P s) = trim_end P s"
  by (simp add: trim_end_def dropWhile_idem)

lemma set_trim_end: "set (trim_end P s) \<subseteq> set s"
  by (auto simp: trim_end_def dest: set_dropWhileD)

lemma split_lines_Nil [simp]: "split_lines [] = []"
  by (simp add: split_lines.simps)

lemma cut_at_append: "c \<notin> set l \<Longrightarrow> cut_at c (l @ c # s) = l"
  by (simp add: cut_at_def takeWhile_append)

lemma split_lines_line: "newline \<notin> set l \<Longrightarrow> split_lines (l @ newline # s) = l # split_lines s"
  by (subst split_lines.simps) (simp add: cut_at_append)

lemma split_lines_text: "\<forall>l \<in> set ls. newline \<notin> set l \<Longrightarrow> split_lines (lines_text ls) = ls"
  by (induction ls) (simp_all add: lines_text_def split_lines_line)

lemma no_newline_lines: "l \<in> set (split_lines s) \<Longrightarrow> newline \<notin> set l"
proof (induction s rule: split_lines.induct)
  case (1 s)
  show ?case
  proof (cases "s = []")
    case False
    with 1(2) have "l = cut_at newline s \<or> l \<in> set (split_lines (drop (length (cut_at newline s) + 1) s))"
      by (subst (asm) split_lines.simps) simp
    then show ?thesis
      using 1(1) [OF False] by (auto simp: cut_at_def dest: set_takeWhileD)
  qed (use 1 in simp)
qed

subsection \<open>The formatter\<close>

text \<open>The lines without the empty ones at the end; one is kept where there are only empty ones.\<close>

fun drop_empty :: "string list \<Rightarrow> string list" where
  "drop_empty (l # m # ls) = (if l = [] then drop_empty (m # ls) else l # m # ls)"
| "drop_empty ls = ls"

definition without_end :: "string list \<Rightarrow> string list" where
  "without_end ls = rev (drop_empty (rev ls))"

lemma rev_lines_text: "rev (lines_text ls) = concat (map (\<lambda>l. newline # rev l) (rev ls))"
  by (induction ls) (simp_all add: lines_text_def)

lemma drop_blank_lines_text:
  "\<forall>l \<in> set ls. newline \<notin> set l \<Longrightarrow>
     drop_blank_lines (concat (map (\<lambda>l. newline # rev l) ls)) = concat (map (\<lambda>l. newline # rev l) (drop_empty ls))"
proof (induction ls rule: drop_empty.induct [case_names two empty single])
  case (two l m ls)
  show ?case
  proof (cases "l = []")
    case False
    then obtain c r where "rev l = c # r" by (cases "rev l") auto
    moreover from this have "c \<in> set l" by (metis list.set_intros(1) set_rev)
    ultimately show ?thesis
      using two False by auto
  qed (use two in simp)
next
  case (single l)
  show ?case
  proof (cases "rev l")
    case (Cons c r)
    then have "c \<in> set l" by (metis list.set_intros(1) set_rev)
    with single Cons show ?thesis by auto
  qed simp
qed simp

lemma drop_empty_idem [simp]: "drop_empty (drop_empty ls) = drop_empty ls"
  by (induction ls rule: drop_empty.induct) auto

lemma set_drop_empty: "set (drop_empty ls) \<subseteq> set ls"
  by (induction ls rule: drop_empty.induct) auto

lemma drop_empty_suffix: "\<exists>k. ls = replicate k [] @ drop_empty ls"
proof (induction ls rule: drop_empty.induct)
  case (1 l m ls)
  then show ?case
    by (cases "l = []") (auto intro: exI [of _ "Suc _"] exI [of _ 0])
qed (auto intro: exI [of _ 0])

definition clean_lines :: "string \<Rightarrow> string list" where
  "clean_lines s = map (trim_end is_line_blank) (split_lines s)"

lemma clean_no_newline: "l \<in> set (clean_lines s) \<Longrightarrow> newline \<notin> set l"
  using no_newline_lines set_trim_end unfolding clean_lines_def by fastforce

lemma format_text_lines: "format_text s = lines_text (without_end (clean_lines s))"
proof -
  have "\<forall>l \<in> set (rev (clean_lines s)). newline \<notin> set l"
    using clean_no_newline by simp
  from drop_blank_lines_text [OF this]
  have "format_text s = rev (concat (map (\<lambda>l. newline # rev l) (drop_empty (rev (clean_lines s)))))"
    by (simp add: format_text_def rev_lines_text clean_lines_def)
  also have "\<dots> = lines_text (without_end (clean_lines s))"
    using rev_lines_text [of "without_end (clean_lines s)"]
    by (simp add: without_end_def rev_swap)
  finally show ?thesis .
qed

lemma split_format: "split_lines (format_text s) = without_end (clean_lines s)"
  unfolding format_text_lines
  by (rule split_lines_text) (use clean_no_newline set_drop_empty in \<open>fastforce simp: without_end_def\<close>)

text \<open>The text that ends a file with no end-of-string character has none either.\<close>

lemma set_format_text: "set (format_text s) \<subseteq> insert newline (set s)"
proof -
  have "set l \<subseteq> set s" if "l \<in> set (split_lines s)" for l
    using that
  proof (induction s rule: split_lines.induct)
    case (1 s)
    then show ?case
      by (subst (asm) (2) split_lines.simps)
        (auto simp: cut_at_def split: if_splits dest: set_takeWhileD in_set_dropD)
  qed
  then have "set l \<subseteq> set s" if "l \<in> set (without_end (clean_lines s))" for l
    using that set_drop_empty [of "rev (clean_lines s)"] set_trim_end
    unfolding without_end_def clean_lines_def by fastforce
  then show ?thesis
    by (auto simp: format_text_lines lines_text_def)
qed

lemma without_end_prefix: "\<exists>k. ls = without_end ls @ replicate k []"
proof -
  obtain k where "rev ls = replicate k [] @ drop_empty (rev ls)"
    using drop_empty_suffix by blast
  then have "ls = rev (replicate k [] @ drop_empty (rev ls))"
    by (metis rev_rev_ident)
  then show ?thesis by (auto simp: without_end_def)
qed

lemma clean_format: "clean_lines (format_text s) = without_end (clean_lines s)"
proof -
  have "trim_end is_line_blank l = l" if "l \<in> set (without_end (clean_lines s))" for l
    using that set_drop_empty [of "rev (clean_lines s)"]
    by (auto simp: without_end_def clean_lines_def dest!: subsetD)
  then show ?thesis
    unfolding clean_lines_def [of "format_text s"] split_format by (simp add: map_idI)
qed

lemma format_idem: "format_text (format_text s) = format_text s"
  unfolding format_text_lines [of "format_text s"] clean_format
  by (simp add: format_text_lines without_end_def)

subsection \<open>Properties\<close>

text \<open>C36: What \<^verbatim>\<open>shell_quote\<close> writes is one word that a POSIX shell reads back as the string given, so
  the command that \<^verbatim>\<open>night run\<close> passes to \<^verbatim>\<open>system\<close> names exactly the program that was built, whatever
  characters its path has.\<close>

theorem shell_quote_roundtrip: "sh_word (shell_quote s) = Some s"
  by (simp add: shell_quote_def sh_quoted_chars)

text \<open>C35: The formatter removes only blanks at the ends of lines and empty lines at the end of the file:
  the lines of its result are those of the source without their trailing blanks, up to empty lines at
  the end, and formatting twice is formatting once.\<close>

theorem format_keeps_lines:
  "(\<exists>k. map (trim_end is_line_blank) (split_lines s) = split_lines (format_text s) @ replicate k []) \<and>
   format_text (format_text s) = format_text s"
  using without_end_prefix [of "clean_lines s"] by (simp add: split_format clean_lines_def format_idem)

end
