(* ===== verification/Driver_Load.thy ===== *)
theory Driver_Load
  imports Driver_Paths Lexer Parser_Decl Typeck_Stmt "HOL-Library.List_Lexorder" "HOL-Library.Char_ord"
begin

text \<open>
  The front end as \<^verbatim>\<open>compile_source\<close> of \<^verbatim>\<open>compiler/src/main.c\<close> runs it: the entry file, the other files of
  its package and the imported files are read, scanned and parsed, merged into one program, analysed
  and type-checked. The file system is a parameter: what \<^verbatim>\<open>stat\<close>, \<^verbatim>\<open>fopen\<close> and \<^verbatim>\<open>opendir\<close> find at a path.
\<close>

subsection \<open>The host\<close>

datatype entry = File string | Directory "string list"

text \<open>\<open>stdlib\<close> is the environment variable \<^verbatim>\<open>NIGHT_STDLIB\<close>.\<close>

record host =
  files :: "string \<Rightarrow> entry option"
  stdlib :: "string option"

definition path_exists :: "host \<Rightarrow> string \<Rightarrow> bool" where
  "path_exists h path \<longleftrightarrow> files h path \<noteq> None"

definition path_is_dir :: "host \<Rightarrow> string \<Rightarrow> bool" where
  "path_is_dir h path \<longleftrightarrow> (\<exists>es. files h path = Some (Directory es))"

definition is_regular :: "host \<Rightarrow> string \<Rightarrow> bool" where
  "is_regular h path \<longleftrightarrow> (\<exists>s. files h path = Some (File s))"

lemma file_tests [code]:
  "path_is_dir h path = (case files h path of Some (Directory _) \<Rightarrow> True | _ \<Rightarrow> False)"
  "is_regular h path = (case files h path of Some (File _) \<Rightarrow> True | _ \<Rightarrow> False)"
  by (auto simp: path_is_dir_def is_regular_def split: option.splits entry.splits)

subsection \<open>The state of a compilation\<close>

record source_unit =
  u_path :: string
  u_source :: "string option"
  u_ast :: "node option"
  u_include :: bool
  u_loaded :: bool

text \<open>What is printed: a line of the driver, or the diagnostics of one phase for a file.\<close>

datatype message =
    Line string
  | Usage
  | Lexical string lex_error
  | Syntax string "diag list"
  | Semantic "diagnostic list"
  | Typing "diagnostic list"

record compile_state =
  cs_units :: "source_unit list"
  cs_cap :: nat
  cs_root :: string
  cs_out :: "message list"

text \<open>
  Ways to leave the driver other than by returning: \<open>StaleUnit\<close> is a read or write through a pointer
  into the array of units after \<^verbatim>\<open>realloc\<close> has moved it, \<open>Endless\<close> means that the bound on the nesting of
  calls was reached, \<open>DirectoryRead\<close> is \<^verbatim>\<open>read_file\<close> on a directory, and the faults of the phases.
\<close>

datatype driver_fault =
    StaleUnit
  | Endless
  | DirectoryRead
  | ParserFault fault
  | CheckerFault tc_fault

text \<open>A step returns a value, or \<open>None\<close> where C returns 0, which every caller passes on.\<close>

type_synonym 'a drv = "compile_state \<Rightarrow> (driver_fault, 'a option \<times> compile_state) sum"

definition dret :: "'a \<Rightarrow> 'a drv" where
  "dret x s = Inr (Some x, s)"

definition dbind :: "'a drv \<Rightarrow> ('a \<Rightarrow> 'b drv) \<Rightarrow> 'b drv" where
  "dbind m f s =
     (case m s of
        Inl e \<Rightarrow> Inl e
      | Inr (r, s') \<Rightarrow> (case r of None \<Rightarrow> Inr (None, s') | Some x \<Rightarrow> f x s'))"

definition crash :: "driver_fault \<Rightarrow> 'a drv" where
  "crash e s = Inl e"

definition dget :: "(compile_state \<Rightarrow> 'b) \<Rightarrow> ('b \<Rightarrow> 'a drv) \<Rightarrow> 'a drv" where
  "dget sel f s = f (sel s) s"

definition dset :: "(compile_state \<Rightarrow> compile_state) \<Rightarrow> unit drv" where
  "dset g s = Inr (Some (), g s)"

definition say :: "message \<Rightarrow> unit drv" where
  "say m = dset (\<lambda>s. s\<lparr>cs_out := cs_out s @ [m]\<rparr>)"

definition give_up :: "message list \<Rightarrow> 'a drv" where
  "give_up ms s = Inr (None, s\<lparr>cs_out := cs_out s @ ms\<rparr>)"

primrec for_each :: "('a \<Rightarrow> unit drv) \<Rightarrow> 'a list \<Rightarrow> unit drv" where
  "for_each f [] = dret ()"
| "for_each f (x # xs) = dbind (f x) (\<lambda>_. for_each f xs)"

definition set_unit :: "nat \<Rightarrow> (source_unit \<Rightarrow> source_unit) \<Rightarrow> unit drv" where
  "set_unit i g = dset (\<lambda>s. s\<lparr>cs_units := (cs_units s)[i := g (cs_units s ! i)]\<rparr>)"

definition compile_state_init :: "string \<Rightarrow> compile_state" where
  "compile_state_init root = \<lparr>cs_units = [], cs_cap = 0, cs_root = root, cs_out = []\<rparr>"

definition push_source_unit :: "string \<Rightarrow> unit drv" where
  "push_source_unit path =
     dset (\<lambda>s. s\<lparr>cs_units := cs_units s @
                  [\<lparr>u_path = path, u_source = None, u_ast = None, u_include = False, u_loaded = False\<rparr>],
                cs_cap := (if length (cs_units s) = cs_cap s
                           then (if cs_cap s = 0 then 8 else 2 * cs_cap s) else cs_cap s)\<rparr>)"

definition index_from :: "nat \<Rightarrow> string \<Rightarrow> source_unit list \<Rightarrow> nat option" where
  "index_from i path us = map_option fst (List.find (\<lambda>(_, u). u_path u = path) (enumerate i us))"

definition find_source_unit_index :: "string \<Rightarrow> compile_state \<Rightarrow> nat option" where
  "find_source_unit_index path s = index_from 0 path (cs_units s)"

subsection \<open>Reading one file\<close>

definition read_file :: "host \<Rightarrow> string \<Rightarrow> string drv" where
  "read_file h path =
     (case files h path of
        None \<Rightarrow> give_up [Line (''error: cannot open '' @ in_quotes path)]
      | Some (Directory _) \<Rightarrow> crash DirectoryRead
      | Some (File text) \<Rightarrow> dret (c_string text))"

definition parse_source :: "string \<Rightarrow> string \<Rightarrow> node drv" where
  "parse_source path text =
     (case lexer_tokenize text of
        Inl e \<Rightarrow> give_up [Lexical path e]
      | Inr ts \<Rightarrow>
          (case parser_parse (tokens ts) of
             Fault e _ \<Rightarrow> crash (ParserFault e)
           | Done r p \<Rightarrow>
               (case r of
                  None \<Rightarrow> give_up [Syntax path (errs p), Line ''parse failed'']
                | Some ast \<Rightarrow> dret ast)))"

definition load_source_unit :: "host \<Rightarrow> nat \<Rightarrow> unit drv" where
  "load_source_unit h i =
     dget (\<lambda>s. u_path (cs_units s ! i)) (\<lambda>path.
     dbind (read_file h path) (\<lambda>text.
     dbind (set_unit i (\<lambda>u. u\<lparr>u_source := Some text\<rparr>)) (\<lambda>_.
     dbind (parse_source path text) (\<lambda>ast.
     set_unit i (\<lambda>u. u\<lparr>u_ast := Some ast\<rparr>)))))"

definition program_package :: "node \<Rightarrow> string option" where
  "program_package ast =
     (case nas ast of
        NODE_PROGRAM (Some pkg) _ _ \<Rightarrow> (case nas pkg of NODE_PACKAGE p \<Rightarrow> Some p | _ \<Rightarrow> None)
      | _ \<Rightarrow> None)"

definition program_imports :: "node \<Rightarrow> node list" where
  "program_imports ast = (case nas ast of NODE_PROGRAM _ imps _ \<Rightarrow> imps | _ \<Rightarrow> [])"

subsection \<open>Finding files\<close>

definition afns_files :: "host \<Rightarrow> string \<Rightarrow> string list \<Rightarrow> string list" where
  "afns_files h dir es =
     sort (filter (is_regular h)
       (map (path_join dir) (filter (\<lambda>e. c_at e 0 \<noteq> CHR ''.'' \<and> has_afns_extension e) es)))"

text \<open>The files of a directory that is opened; \<open>None\<close> if it cannot be.\<close>

definition collect_afns_files_in_dir :: "host \<Rightarrow> string \<Rightarrow> string list option" where
  "collect_afns_files_in_dir h dir =
     (case files h dir of Some (Directory es) \<Rightarrow> Some (afns_files h dir es) | _ \<Rightarrow> None)"

definition collect_package_files :: "host \<Rightarrow> string \<Rightarrow> string list drv" where
  "collect_package_files h path =
     (case collect_afns_files_in_dir h (path_dirname path) of
        None \<Rightarrow> give_up [Line (''error: cannot open directory '' @ in_quotes (path_dirname path))]
      | Some ps \<Rightarrow> dret ps)"

definition import_in :: "host \<Rightarrow> string \<Rightarrow> string \<Rightarrow> string list option option" where
  "import_in h root imp =
     (let file = path_join root (slash_path imp @ ''.afns''); dir = path_join root (slash_path imp)
      in if path_exists h file \<and> \<not> path_is_dir h file then Some (Some [file])
         else if path_is_dir h dir then Some (collect_afns_files_in_dir h dir)
         else None)"

definition resolve_import_files :: "host \<Rightarrow> string \<Rightarrow> string \<Rightarrow> string list option" where
  "resolve_import_files h root imp =
     (case import_in h root imp of
        Some r \<Rightarrow> r
      | None \<Rightarrow>
          (case stdlib h of
             None \<Rightarrow> None
           | Some std \<Rightarrow>
               if std = [] then None
               else (case import_in h std imp of Some r \<Rightarrow> r | None \<Rightarrow> None)))"

subsection \<open>Imports\<close>

text \<open>
  \<^verbatim>\<open>load_imports_recursive\<close> keeps a pointer to its unit while it pushes others. \<open>cap\<close> is the capacity of
  the array when the pointer was taken; \<open>still cap\<close> is an access through the pointer. \<open>n\<close> bounds the
  nesting of calls, and \<open>rec\<close> is the call for an imported unit.
\<close>

definition still :: "nat \<Rightarrow> unit drv" where
  "still cap = dget cs_cap (\<lambda>c. if c = cap then dret () else crash StaleUnit)"

definition load_imported :: "host \<Rightarrow> (nat \<Rightarrow> unit drv) \<Rightarrow> string \<Rightarrow> unit drv" where
  "load_imported h rec path =
     dget (find_source_unit_index path) (\<lambda>r. case r of
       Some i \<Rightarrow> dbind (set_unit i (\<lambda>u. u\<lparr>u_include := True\<rparr>)) (\<lambda>_. rec i)
     | None \<Rightarrow>
         dbind (push_source_unit path) (\<lambda>_.
         dget (\<lambda>s. length (cs_units s) - 1) (\<lambda>i.
         dbind (load_source_unit h i) (\<lambda>_.
         dbind (set_unit i (\<lambda>u. u\<lparr>u_include := True\<rparr>)) (\<lambda>_. rec i)))))"

definition load_import ::
  "host \<Rightarrow> (nat \<Rightarrow> unit drv) \<Rightarrow> string \<Rightarrow> nat \<Rightarrow> string list \<Rightarrow> node \<Rightarrow> unit drv" where
  "load_import h rec path cap stack imp =
     dbind (still cap) (\<lambda>_.
     if import_path imp \<in> set stack then
       give_up [Syntax path [(nline imp, Some (ncol imp), ''circular import detected for '' @ in_quotes (import_path imp))]]
     else
       dget cs_root (\<lambda>root. case resolve_import_files h root (import_path imp) of
         None \<Rightarrow> dret ()
       | Some ps \<Rightarrow> for_each (load_imported h rec) ps))"

definition package_stack :: "node \<Rightarrow> string list" where
  "package_stack ast = (case program_package ast of None \<Rightarrow> [] | Some p \<Rightarrow> [p])"

definition load_imports_of ::
  "host \<Rightarrow> (string list \<Rightarrow> nat \<Rightarrow> unit drv) \<Rightarrow> string list \<Rightarrow> nat \<Rightarrow> unit drv" where
  "load_imports_of h rec stack i =
     dget (\<lambda>s. cs_units s ! i) (\<lambda>u. case u_ast u of
       None \<Rightarrow> dret ()
     | Some ast \<Rightarrow>
         if u_loaded u then dret ()
         else if length stack \<ge> 127 then give_up [Line ''error: import nesting too deep'']
         else
           dget cs_cap (\<lambda>cap.
           dbind (for_each (load_import h (rec (stack @ package_stack ast)) (u_path u) cap (stack @ package_stack ast))
                    (program_imports ast)) (\<lambda>_.
           dbind (still cap) (\<lambda>_.
           set_unit i (\<lambda>u. u\<lparr>u_loaded := True\<rparr>)))))"

primrec load_imports_recursive :: "nat \<Rightarrow> host \<Rightarrow> string list \<Rightarrow> nat \<Rightarrow> unit drv" where
  "load_imports_recursive 0 h stack i = crash Endless"
| "load_imports_recursive (Suc n) h stack i = load_imports_of h (load_imports_recursive n h) stack i"

subsection \<open>The whole front end\<close>

definition load_package_file :: "host \<Rightarrow> string \<Rightarrow> string \<Rightarrow> string \<Rightarrow> unit drv" where
  "load_package_file h entry_path entry_package path =
     (if path = entry_path then dret ()
      else
        dbind (push_source_unit path) (\<lambda>_.
        dget (\<lambda>s. length (cs_units s) - 1) (\<lambda>i.
        dbind (load_source_unit h i) (\<lambda>_.
        set_unit i (\<lambda>u. if Option.bind (u_ast u) program_package = Some entry_package
                         then u\<lparr>u_include := True\<rparr> else u)))))"

definition load_package :: "host \<Rightarrow> string \<Rightarrow> unit drv" where
  "load_package h path =
     dget (\<lambda>s. Option.bind (u_ast (cs_units s ! 0)) program_package) (\<lambda>pkg. case pkg of
       None \<Rightarrow> dret ()
     | Some p \<Rightarrow> dbind (collect_package_files h path) (\<lambda>ps. for_each (load_package_file h path p) ps))"

text \<open>The loop over all units, which grow while it runs; \<open>k\<close> bounds the number of its turns.\<close>

primrec load_all_imports :: "nat \<Rightarrow> nat \<Rightarrow> host \<Rightarrow> nat \<Rightarrow> unit drv" where
  "load_all_imports 0 n h i = crash Endless"
| "load_all_imports (Suc k) n h i =
     dget cs_units (\<lambda>us.
     if i \<ge> length us then dret ()
     else
       dbind (if u_include (us ! i) then load_imports_recursive n h [] i else dret ()) (\<lambda>_.
       load_all_imports k n h (i + 1)))"

definition included_asts :: "source_unit list \<Rightarrow> node list" where
  "included_asts us = List.map_filter u_ast (filter u_include us)"

definition merge_package_program :: "source_unit list \<Rightarrow> node" where
  "merge_package_program us =
     (let asts = included_asts us;
          pkg = (case u_ast (us ! 0) of
                   Some ast \<Rightarrow> (case nas ast of NODE_PROGRAM p _ _ \<Rightarrow> p | _ \<Rightarrow> None)
                 | None \<Rightarrow> None)
      in Node 1 1 (NODE_PROGRAM pkg (concat (map program_imports asts)) (concat (map program_decls asts))))"

definition print_diags :: "message \<Rightarrow> diagnostic list \<Rightarrow> unit drv" where
  "print_diags m ds = (if ds = [] then dret () else say m)"

definition analyse_program :: "nat \<Rightarrow> host \<Rightarrow> string \<Rightarrow> node \<Rightarrow> node drv" where
  "analyse_program n h path program =
     (case sema_analyze (is_regular h) program path of
        (None, ds) \<Rightarrow> give_up [Semantic ds]
      | (Some sm, ds) \<Rightarrow>
          dbind (print_diags (Semantic ds) ds) (\<lambda>_.
          case typeck_check n program sm path of
            Inl e \<Rightarrow> crash (CheckerFault e)
          | Inr (ok, ds') \<Rightarrow>
              if ok then dbind (print_diags (Typing ds') ds') (\<lambda>_. dret program) else give_up [Typing ds']))"

definition load_program :: "nat \<Rightarrow> host \<Rightarrow> string \<Rightarrow> node drv" where
  "load_program n h path =
     dbind (push_source_unit path) (\<lambda>_.
     dbind (load_source_unit h 0) (\<lambda>_.
     dbind (set_unit 0 (\<lambda>u. u\<lparr>u_include := True\<rparr>)) (\<lambda>_.
     dbind (load_package h path) (\<lambda>_.
     dbind (load_all_imports n n h 0) (\<lambda>_.
     dget cs_units (\<lambda>us. dret (merge_package_program us)))))))"

definition compile_source :: "nat \<Rightarrow> host \<Rightarrow> string \<Rightarrow> (driver_fault, node option \<times> message list) sum" where
  "compile_source n h path =
     map_sum id (\<lambda>(r, s). (r, cs_out s))
       (dbind (load_program n h path) (analyse_program n h path)
          (compile_state_init (path_dirname path)))"

end
