(* ===== verification/Driver.thy ===== *)
theory Driver
  imports Driver_Load Ast_Dump
begin

text \<open>
  The commands of \<^verbatim>\<open>compiler/src/main.c\<close>. The world is the host with what may be written and what has
  been printed; the LLVM back end, the program that is run and the printing of floats are parameters.
\<close>

subsection \<open>The world\<close>

datatype command =
    CMD_CODEGEN | CMD_AST | CMD_CHECK | CMD_BUILD | CMD_RUN | CMD_FMT | CMD_INIT | CMD_CLEAN | CMD_TEST

text \<open>\<open>writable path\<close>: a file or directory at this path can be created, written and removed.\<close>

record world =
  w_host :: host
  writable :: "string \<Rightarrow> bool"
  w_out :: "message list"

text \<open>
  \<open>generate\<close> and \<open>emit_ir\<close> are \<^verbatim>\<open>llvmgen_generate\<close> at an optimisation level and \<^verbatim>\<open>llvmgen_emit_ir\<close>,
  \<open>run\<close> says whether \<^verbatim>\<open>system\<close> returns 0 for a command line.
\<close>

record backend =
  generate :: "node \<Rightarrow> string \<Rightarrow> nat \<Rightarrow> bool"
  emit_ir :: "node \<Rightarrow> string option"
  run :: "string \<Rightarrow> bool"
  float_text :: "string \<Rightarrow> string"

type_synonym 'a act = "world \<Rightarrow> (driver_fault, 'a \<times> world) sum"

definition aret :: "'a \<Rightarrow> 'a act" where
  "aret x w = Inr (x, w)"

definition abind :: "'a act \<Rightarrow> ('a \<Rightarrow> 'b act) \<Rightarrow> 'b act" where
  "abind m f w = (case m w of Inl e \<Rightarrow> Inl e | Inr (x, w') \<Rightarrow> f x w')"

definition with_host :: "(host \<Rightarrow> 'a act) \<Rightarrow> 'a act" where
  "with_host f w = f (w_host w) w"

definition tell :: "message list \<Rightarrow> 'a \<Rightarrow> 'a act" where
  "tell ms x w = Inr (x, w\<lparr>w_out := w_out w @ ms\<rparr>)"

definition put_entry :: "string \<Rightarrow> entry option \<Rightarrow> 'a \<Rightarrow> 'a act" where
  "put_entry path e x w =
     Inr (x, w\<lparr>w_host := (w_host w)\<lparr>files := (files (w_host w))(path := e)\<rparr>\<rparr>)"

definition if_writable :: "string \<Rightarrow> 'a act \<Rightarrow> 'a act \<Rightarrow> 'a act" where
  "if_writable path m m' w = (if writable w path then m w else m' w)"

text \<open>\<open>a \<and>\<and> b\<close>: \<open>b\<close> unless \<open>a\<close> fails.\<close>

definition and_then :: "bool act \<Rightarrow> bool act \<Rightarrow> bool act" where
  "and_then a b = abind a (\<lambda>ok. if ok then b else aret False)"

subsection \<open>Files\<close>

definition read_text :: "string \<Rightarrow> string option act" where
  "read_text path =
     with_host (\<lambda>h. case files h path of
       None \<Rightarrow> tell [Line (''error: cannot open '' @ in_quotes path)] None
     | Some (Directory _) \<Rightarrow> (\<lambda>w. Inl DirectoryRead)
     | Some (File text) \<Rightarrow> aret (Some (c_string text)))"

definition write_text_file :: "string \<Rightarrow> string \<Rightarrow> bool act" where
  "write_text_file path text =
     with_host (\<lambda>h.
     let fail = tell [Line (''error: cannot write '' @ in_quotes path)] False
     in if path_is_dir h path then fail
        else if_writable path (put_entry path (Some (File text)) True) fail)"

definition write_if_changed :: "string \<Rightarrow> string \<Rightarrow> bool act" where
  "write_if_changed path text =
     with_host (\<lambda>h.
     if path_exists h path then
       abind (read_text path) (\<lambda>old. if old = Some text then aret True else write_text_file path text)
     else write_text_file path text)"

definition mkdir_if_missing :: "string \<Rightarrow> bool act" where
  "mkdir_if_missing path =
     with_host (\<lambda>h.
     let fail = tell [Line (''error: cannot create directory '' @ in_quotes path)] False
     in case files h path of
          None \<Rightarrow> if_writable path (put_entry path (Some (Directory [])) True) fail
        | Some (Directory _) \<Rightarrow> aret True
        | Some (File _) \<Rightarrow> fail)"

definition ensure_parent_dir :: "string \<Rightarrow> bool act" where
  "ensure_parent_dir path =
     (let dir = path_dirname path
      in if dir = ''.'' \<or> dir = ''/'' then aret True else mkdir_if_missing dir)"

definition remove_if_exists :: "string \<Rightarrow> bool act" where
  "remove_if_exists path =
     with_host (\<lambda>h.
     let fail = tell [Line (''error: cannot remove '' @ in_quotes path)] False
     in case files h path of
          None \<Rightarrow> aret True
        | Some (File _) \<Rightarrow> if_writable path (put_entry path None True) fail
        | Some (Directory es) \<Rightarrow> if es = [] then if_writable path (put_entry path None True) fail else fail)"

subsection \<open>The commands that do not compile\<close>

definition format_source_file :: "string \<Rightarrow> bool act" where
  "format_source_file path =
     abind (read_text path) (\<lambda>r. case r of
       None \<Rightarrow> aret False
     | Some text \<Rightarrow> write_if_changed path (format_text text))"

definition init_project :: "string \<Rightarrow> bool act" where
  "init_project dir =
     and_then (mkdir_if_missing dir)
       (and_then (mkdir_if_missing (path_join dir ''src''))
         (and_then (write_if_changed (path_join dir ''night.toml'') (new_manifest (path_basename dir)))
           (write_if_changed (path_join dir ''src/main.afns'') new_main)))"

definition clean_outputs :: "string \<Rightarrow> string option \<Rightarrow> bool act" where
  "clean_outputs path out =
     (case out of Some built \<Rightarrow> remove_if_exists built | None \<Rightarrow> remove_if_exists (replace_extension path []))"

text \<open>
  \<^verbatim>\<open>resolve_input_path\<close>: the file to compile with, for a project, the output and the optimisation
  flag of the manifest; \<open>None\<close> is \<^verbatim>\<open>return 0\<close>.
\<close>

definition opt_flags_of :: "project_config \<Rightarrow> string option" where
  "opt_flags_of cfg = map_option (\<lambda>s. if s = ''release'' then ''-O2'' else ''-g'') (optimization cfg)"

definition resolve_project :: "command \<Rightarrow> string \<Rightarrow> (string \<times> string option \<times> string option) option act" where
  "resolve_project cmd dir =
     abind (read_text (path_join dir ''night.toml'')) (\<lambda>r. case r of
       None \<Rightarrow> aret None
     | Some text \<Rightarrow>
         (case parse_manifest dir text of
            Inl msg \<Rightarrow> tell [Line msg] None
          | Inr cfg \<Rightarrow>
              aret (Some (resolve_project_entry cfg,
                          if cmd \<in> {CMD_BUILD, CMD_RUN, CMD_CLEAN} then Some (resolve_project_output cfg) else None,
                          opt_flags_of cfg))))"

definition resolve_input_path ::
  "command \<Rightarrow> string option \<Rightarrow> (string \<times> string option \<times> string option) option act" where
  "resolve_input_path cmd input =
     with_host (\<lambda>h. case input of
       None \<Rightarrow> resolve_project cmd ''.''
     | Some path \<Rightarrow> if path_is_dir h path then resolve_project cmd path else aret (Some (path, None, None)))"

subsection \<open>The commands that compile\<close>

definition compile :: "nat \<Rightarrow> string \<Rightarrow> node option act" where
  "compile n path =
     with_host (\<lambda>h. case compile_source n h path of
       Inl e \<Rightarrow> (\<lambda>w. Inl e)
     | Inr (r, ms) \<Rightarrow> tell ms r)"

definition opt_level :: "string option \<Rightarrow> nat" where
  "opt_level flags = (if flags = Some ''-O2'' then 2 else 0)"

text \<open>The exit status.\<close>

definition status :: "bool \<Rightarrow> nat" where
  "status ok = (if ok then 0 else 1)"

definition build_binary :: "nat \<Rightarrow> backend \<Rightarrow> string \<Rightarrow> string \<Rightarrow> string option \<Rightarrow> bool act" where
  "build_binary n b path out flags =
     abind (compile n path) (\<lambda>r. case r of
       None \<Rightarrow> aret False
     | Some ast \<Rightarrow> and_then (ensure_parent_dir out) (aret (generate b ast out (opt_level flags))))"

primrec run_tests :: "nat \<Rightarrow> string list \<Rightarrow> nat \<times> nat \<Rightarrow> (nat \<times> nat) act" where
  "run_tests n [] counts = aret counts"
| "run_tests n (path # paths) counts =
     abind (compile n path) (\<lambda>r.
       case r of
         Some _ \<Rightarrow> abind (tell [Line (''PASS: '' @ path)] ()) (\<lambda>_. run_tests n paths (fst counts + 1, snd counts))
       | None \<Rightarrow> abind (tell [Line (''FAIL: '' @ path)] ()) (\<lambda>_. run_tests n paths (fst counts, snd counts + 1)))"

definition test_project :: "nat \<Rightarrow> string \<Rightarrow> nat act" where
  "test_project n path =
     with_host (\<lambda>h.
     let dir = path_join path ''tests'';
         files = (case collect_afns_files_in_dir h dir of Some ps \<Rightarrow> ps | None \<Rightarrow> [])
     in abind (if path_is_dir h dir then run_tests n files (0, 0)
               else tell [Line ''note: no tests/ directory found''] (0, 0)) (\<lambda>(passed, failed).
        tell [Line (newline # show_nat passed @ '' passed, '' @ show_nat failed @ '' failed'')] (status (failed = 0))))"

definition build_project ::
  "nat \<Rightarrow> backend \<Rightarrow> command \<Rightarrow> string \<Rightarrow> string option \<Rightarrow> string option \<Rightarrow> nat act" where
  "build_project n b cmd path out flags =
     (let target = (case out of Some s \<Rightarrow> s | None \<Rightarrow> replace_extension path [])
      in abind (build_binary n b path target flags) (\<lambda>ok.
         if \<not> ok then aret 1
         else if cmd = CMD_RUN then aret (status (run b (shell_quote target)))
         else aret 0))"

definition show_program :: "nat \<Rightarrow> backend \<Rightarrow> command \<Rightarrow> string \<Rightarrow> nat act" where
  "show_program n b cmd path =
     abind (compile n path) (\<lambda>r. case r of
       None \<Rightarrow> aret 1
     | Some ast \<Rightarrow>
         if cmd = CMD_AST then tell [Line (ast_dump_node (float_text b) ast)] 0
         else if cmd = CMD_CHECK then tell [Line ''OK''] 0
         else
           (case emit_ir b ast of
              Some ir \<Rightarrow> tell [Line ir] 0
            | None \<Rightarrow> tell [Line ''error: IR emission failed''] 1))"

subsection \<open>The command line\<close>

definition COMMANDS :: "(string \<times> command) list" where
  "COMMANDS =
    [(''codegen'', CMD_CODEGEN), (''ast'', CMD_AST), (''check'', CMD_CHECK), (''build'', CMD_BUILD),
     (''run'', CMD_RUN), (''test'', CMD_TEST), (''fmt'', CMD_FMT), (''init'', CMD_INIT), (''clean'', CMD_CLEAN)]"

definition command_of :: "string list \<Rightarrow> command \<times> string list" where
  "command_of args =
     (case args of
        [] \<Rightarrow> (CMD_CODEGEN, [])
      | a # rest \<Rightarrow> (case map_of COMMANDS a of Some cmd \<Rightarrow> (cmd, rest) | None \<Rightarrow> (CMD_CODEGEN, args)))"

text \<open>The options after the path; \<open>Inl\<close> is what is printed before \<^verbatim>\<open>return 1\<close>.\<close>

fun parse_options ::
  "string list \<Rightarrow> command \<Rightarrow> string option \<Rightarrow> (message list, command \<times> string option) sum" where
  "parse_options [] cmd out = Inr (cmd, out)"
| "parse_options (a # args) cmd out =
     (if a = ''-o'' then
        (case args of
           [] \<Rightarrow> Inl [Line ''error: expected output path after -o'']
         | path # rest \<Rightarrow> parse_options rest cmd (Some path))
      else if a = ''--ast'' then parse_options args CMD_AST out
      else if a = ''--target'' then
        (case args of
           [] \<Rightarrow> Inl [Line ''error: expected target after --target'']
         | _ # rest \<Rightarrow> parse_options rest cmd out)
      else if a = ''--emit-ir'' then parse_options args cmd out
      else Inl [Line (''error: unknown argument '' @ in_quotes a), Usage])"

definition run_command ::
  "nat \<Rightarrow> backend \<Rightarrow> command \<Rightarrow> string option \<Rightarrow> string option \<Rightarrow> nat act" where
  "run_command n b cmd input out =
     abind (resolve_input_path cmd input) (\<lambda>r. case r of
       None \<Rightarrow> aret 1
     | Some (path, project_out, flags) \<Rightarrow>
         (let out' = or_else out project_out
          in if cmd = CMD_FMT then abind (format_source_file path) (\<lambda>ok. aret (status ok))
             else if cmd = CMD_CLEAN then abind (clean_outputs path out') (\<lambda>ok. aret (status ok))
             else if cmd = CMD_TEST then test_project n path
             else if cmd = CMD_BUILD \<or> cmd = CMD_RUN then build_project n b cmd path out' flags
             else show_program n b cmd path))"

text \<open>\<open>main\<close> on the arguments after the name of the program; the result is the exit status.\<close>

definition main :: "nat \<Rightarrow> backend \<Rightarrow> string list \<Rightarrow> nat act" where
  "main n b args =
     (if args = [] then tell [Usage] 1
      else
        (let (cmd, rest) = command_of args;
             input = (case rest of [] \<Rightarrow> None | p # _ \<Rightarrow> Some p)
         in if cmd = CMD_INIT then
              abind (init_project (case input of Some dir \<Rightarrow> dir | None \<Rightarrow> ''.'')) (\<lambda>ok. aret (status ok))
            else
              (case parse_options (drop 1 rest) cmd None of
                 Inl ms \<Rightarrow> tell ms 1
               | Inr (cmd', out) \<Rightarrow> run_command n b cmd' input out)))"

end
