(* ===== verification/Driver_Files.thy ===== *)
theory Driver_Files
  imports Driver_Text Driver
begin

text \<open>
  The commands of the driver that work on files without compiling: \<^verbatim>\<open>night fmt\<close>, \<^verbatim>\<open>night init\<close> and how
  its manifest is read again, \<^verbatim>\<open>night clean\<close>, and \<^verbatim>\<open>night test\<close> on a project.
\<close>

subsection \<open>The world after a step\<close>

lemmas act_defs = abind_def aret_def tell_def with_host_def put_entry_def if_writable_def and_then_def Let_def

abbreviation w_files :: "world \<Rightarrow> string \<Rightarrow> entry option" where
  "w_files w \<equiv> files (w_host w)"

text \<open>\<open>holds w path text\<close>: there is a file whose content, as the compiler reads it, is \<open>text\<close>.\<close>

definition holds :: "world \<Rightarrow> string \<Rightarrow> string \<Rightarrow> bool" where
  "holds w path text \<longleftrightarrow> (\<exists>s. w_files w path = Some (File s) \<and> c_string s = text)"

lemma read_holds: "holds w path text \<Longrightarrow> read_text path w = Inr (Some text, w)"
  by (auto simp: holds_def read_text_def act_defs)

lemma write_holds:
  assumes "write_if_changed path text w = Inr (True, w')" "NUL \<notin> set text"
  shows "holds w' path text \<and> (\<forall>p. p \<noteq> path \<longrightarrow> w_files w' p = w_files w p)"
  using assms
  by (auto simp: write_if_changed_def write_text_file_def read_text_def holds_def act_defs c_string_id
        path_exists_def path_is_dir_def split: option.splits entry.splits if_splits sum.splits prod.splits)

lemma write_same: "holds w path text \<Longrightarrow> write_if_changed path text w = Inr (True, w)"
  by (auto simp: write_if_changed_def read_holds path_exists_def with_host_def abind_def aret_def holds_def
        dest: read_holds)

lemma mkdir_keeps_others:
  "mkdir_if_missing path w = Inr (True, w') \<Longrightarrow> p \<noteq> path \<Longrightarrow> w_files w' p = w_files w p"
  by (auto simp: mkdir_if_missing_def act_defs split: option.splits entry.splits if_splits)

lemma path_join_inject [simp]: "path_join dir a = path_join dir b \<longleftrightarrow> a = b"
  by (auto simp: path_join_def)

subsection \<open>A manifest read back\<close>

lemma cut_whole: "c \<notin> set s \<Longrightarrow> cut_at c s = s"
  by (auto simp: cut_at_def takeWhile_eq_all_conv)

lemma config_string:
  assumes "CHR ''#'' \<notin> set s"
  shows "config_line (''name = '' @ CHR 0x22 # s @ [CHR 0x22]) (''package'', cfg) =
      Inr (''package'', cfg\<lparr>package_name := Some s\<rparr>)"
    and "config_line (''output = '' @ CHR 0x22 # s @ [CHR 0x22]) (''build'', cfg) =
      Inr (''build'', cfg\<lparr>output_path := Some s\<rparr>)"
  using assms
  by (simp_all add: config_line_def cut_whole trim_ascii_def trim_end_def is_blank_def Let_def
      config_entry_def required_def parse_toml_string_def strrchr_append)

lemma config_closed:
  "config_line ''[package]'' ([], cfg) = Inr (''package'', cfg)"
  "config_line [] st = Inr st"
  "config_line ''[target]'' (''package'', cfg) = Inr (''target'', cfg)"
  "config_line (''mode = '' @ CHR 0x22 # ''native'' @ [CHR 0x22]) (''target'', cfg) =
     Inr (''target'', cfg\<lparr>target_mode := Some ''native''\<rparr>)"
  "config_line (''backend = '' @ CHR 0x22 # ''llvm'' @ [CHR 0x22]) (''target'', cfg) = Inr (''target'', cfg)"
  "config_line ''[build]'' (''target'', cfg) = Inr (''build'', cfg)"
  "config_line (''entry = '' @ CHR 0x22 # ''src/main.afns'' @ [CHR 0x22]) (''build'', cfg) =
     Inr (''build'', cfg\<lparr>entry := Some ''src/main.afns''\<rparr>)"
  by (simp_all add: config_line_def cut_at_def trim_ascii_def trim_end_def is_blank_def Let_def
      config_entry_def required_def parse_toml_string_def split: prod.split)

definition fresh_config :: "string \<Rightarrow> string \<Rightarrow> project_config" where
  "fresh_config dir s =
     (empty_config dir)\<lparr>package_name := Some s, target_mode := Some ''native'',
        entry := Some ''src/main.afns'', output_path := Some s\<rparr>"

lemma parse_new_manifest:
  assumes "CHR ''#'' \<notin> set s" "newline \<notin> set s"
  shows "parse_manifest dir (new_manifest s) = Inr (fresh_config dir s)"
proof -
  have "split_lines (new_manifest s) =
      [''[package]'', ''name = '' @ CHR 0x22 # s @ [CHR 0x22], [],
       ''[target]'', ''mode = '' @ CHR 0x22 # ''native'' @ [CHR 0x22],
       ''backend = '' @ CHR 0x22 # ''llvm'' @ [CHR 0x22], [],
       ''[build]'', ''entry = '' @ CHR 0x22 # ''src/main.afns'' @ [CHR 0x22],
       ''output = '' @ CHR 0x22 # s @ [CHR 0x22]]"
    unfolding new_manifest_def using assms(2) by (intro split_lines_text) simp
  then show ?thesis
    unfolding parse_manifest_def
    by (simp only: config_lines.simps config_closed config_string [OF assms(1)] sum.case)
      (simp add: default_config_def or_default_def fresh_config_def empty_config_def)
qed

subsection \<open>Properties\<close>

text \<open>A world in which everything may be written, and a back end that does nothing, for the examples.\<close>

definition idle :: backend where
  "idle = \<lparr>generate = \<lambda>_ _ _. False, emit_ir = \<lambda>_. None, run = \<lambda>_. False, float_text = (\<lambda>s. s)\<rparr>"

definition world_of :: "(string \<times> entry) list \<Rightarrow> world" where
  "world_of fs = \<lparr>w_host = \<lparr>files = map_of fs, stdlib = None\<rparr>, writable = \<lambda>_. True, w_out = []\<rparr>"

text \<open>C34: \<^verbatim>\<open>night init\<close> writes a project that the driver can read back: when it succeeds on a directory
  whose name has no number sign and no newline, its manifest is read as the entry file \<^verbatim>\<open>src/main.afns\<close>
  and an output named after the directory, and the entry file holds the program of the template.\<close>

theorem init_reads_back:
  assumes "main n b [''init'', dir] w = Inr (0, w')"
    and "set (path_basename dir) \<inter> {CHR ''#'', newline, NUL} = {}"
  shows "resolve_project cmd dir w' =
      Inr (Some (path_join dir ''src/main.afns'',
                 if cmd \<in> {CMD_BUILD, CMD_RUN, CMD_CLEAN} then Some (path_join dir (path_basename dir)) else None,
                 None), w')
    \<and> holds w' (path_join dir ''src/main.afns'') new_main"
proof -
  let ?s = "path_basename dir"
  from assms(1) have "init_project dir w = Inr (True, w')"
    by (auto simp: main_def command_of_def COMMANDS_def act_defs status_def split: sum.splits prod.splits if_splits)
  then obtain w1 w2 w3 where m: "mkdir_if_missing dir w = Inr (True, w1)"
      "mkdir_if_missing (path_join dir ''src'') w1 = Inr (True, w2)"
    and t: "write_if_changed (path_join dir ''night.toml'') (new_manifest ?s) w2 = Inr (True, w3)"
    and p: "write_if_changed (path_join dir ''src/main.afns'') new_main w3 = Inr (True, w')"
    by (auto simp: init_project_def act_defs split: sum.splits prod.splits if_splits)
  have "NUL \<notin> set (new_manifest ?s)" "NUL \<notin> set new_main"
    using assms(2) by (auto simp: new_manifest_def new_main_def lines_text_def)
  with write_holds [OF t] write_holds [OF p]
  have toml: "holds w' (path_join dir ''night.toml'') (new_manifest ?s)"
    and main: "holds w' (path_join dir ''src/main.afns'') new_main"
    by (auto simp: holds_def)
  from assms(2) have "parse_manifest dir (new_manifest ?s) = Inr (fresh_config dir ?s)"
    by (intro parse_new_manifest) auto
  then have "resolve_project cmd dir w' =
      Inr (Some (path_join dir ''src/main.afns'',
                 if cmd \<in> {CMD_BUILD, CMD_RUN, CMD_CLEAN} then Some (path_join dir ?s) else None, None), w')"
    unfolding resolve_project_def abind_def read_holds [OF toml]
    by (simp add: aret_def resolve_project_entry_def resolve_project_output_def opt_flags_of_def
        fresh_config_def empty_config_def)
  with main show ?thesis by blast
qed

theorem init_reads_back_witness:
  "\<exists>w'. main 0 idle [''init'', ''app''] (world_of []) = Inr (0, w') \<and>
     resolve_project CMD_BUILD ''app'' w' = Inr (Some (''app/src/main.afns'', Some ''app/app'', None), w')"
proof -
  have "\<exists>w'. main 0 idle [''init'', ''app''] (world_of []) = Inr (0, w')"
    by (simp add: main_def command_of_def COMMANDS_def init_project_def mkdir_if_missing_def world_of_def
        write_if_changed_def write_text_file_def path_exists_def path_is_dir_def path_join_def act_defs status_def)
  then obtain w' where w': "main 0 idle [''init'', ''app''] (world_of []) = Inr (0, w')" by blast
  have "path_basename ''app'' = ''app''" by code_simp
  with init_reads_back [OF w'] w' show ?thesis
    by (auto simp: path_join_def)
qed

text \<open>\<^verbatim>\<open>night fmt\<close> replaces a file by its formatted text and changes nothing else; a second run leaves
  everything as it is.\<close>

lemma fmt_settles:
  assumes "w_files w path = Some (File text)" "NUL \<notin> set text" "writable w path"
  shows "\<exists>w'. main n b [''fmt'', path] w = Inr (0, w') \<and>
    w_files w' = (w_files w)(path \<mapsto> File (format_text text)) \<and>
    main n b [''fmt'', path] w' = Inr (0, w')"
proof -
  have fmt: "main n b [''fmt'', path] v = abind (format_source_file path) (\<lambda>ok. aret (status ok)) v"
    if "w_files v path = Some (File s)" for v s
    using that
    by (simp add: main_def command_of_def COMMANDS_def run_command_def resolve_input_path_def path_is_dir_def
        act_defs)
  have nul: "NUL \<notin> set (format_text text)"
    using assms(2) set_format_text [of "text"] by auto
  have h: "holds w path text"
    using assms(1,2) by (simp add: holds_def c_string_id)
  obtain w' where w': "write_if_changed path (format_text text) w = Inr (True, w')"
      "w_files w' = (w_files w)(path \<mapsto> File (format_text text))"
  proof (cases "format_text text = text")
    case True
    with write_same [OF h] assms(1) that [of w] show ?thesis by (simp add: fun_upd_idem)
  next
    case False
    with assms read_holds [OF h] that show ?thesis
      by (auto simp: write_if_changed_def path_exists_def write_text_file_def path_is_dir_def act_defs)
  qed
  then have h': "holds w' path (format_text text)"
    using nul by (simp add: holds_def c_string_id)
  from w' assms(1) write_same [OF h'] read_holds [OF h] read_holds [OF h'] show ?thesis
    by (intro exI [of _ w']) (simp add: fmt format_source_file_def abind_def aret_def status_def format_idem)
qed

lemma fmt_settles_witness:
  "\<exists>w'. main 0 idle [''fmt'', ''a.afns''] (world_of [(''a.afns'', File ''x  '')]) = Inr (0, w') \<and>
     w_files w' ''a.afns'' = Some (File [CHR ''x'', newline]) \<and> main 0 idle [''fmt'', ''a.afns''] w' = Inr (0, w')"
proof -
  have "format_text ''x  '' = [CHR ''x'', newline]" by code_simp
  with fmt_settles [of "world_of [(''a.afns'', File ''x  '')]" "''a.afns''" "''x  ''" 0 idle] show ?thesis
    by (fastforce simp: world_of_def)
qed

text \<open>\<^verbatim>\<open>night clean\<close> on a source file whose name has no extension removes the source itself: without
  an extension to cut off, the default output is the path of the source.\<close>

lemma clean_removes_source:
  assumes "w_files w path = Some (File t)" "CHR ''.'' \<notin> set (path_basename path)" "writable w path"
  shows "main n b [''clean'', path] w =
    Inr (0, w\<lparr>w_host := (w_host w)\<lparr>files := (w_files w)(path := None)\<rparr>\<rparr>)"
proof -
  have "stem_length path = length path"
  proof (rule ccontr)
    assume "stem_length path \<noteq> length path"
    then obtain dot where d: "strrchr path (CHR ''.'') = Some dot"
      and s: "\<And>slash. strrchr path (CHR ''/'') = Some slash \<Longrightarrow> slash < dot"
      by (auto simp: stem_length_def split: option.splits if_splits)
    from strrchr_SomeD [OF d] have "CHR ''.'' \<in> set (drop k path)" if "k \<le> dot" for k
      using that by (auto simp: in_set_conv_nth intro!: exI [of _ "dot - k"])
    with s assms(2) show False
      by (cases "strrchr path (CHR ''/'')") (force simp: path_basename_def)+
  qed
  then have "replace_extension path [] = path" by (simp add: replace_extension_def)
  with assms show ?thesis
    by (simp add: main_def command_of_def COMMANDS_def run_command_def resolve_input_path_def path_is_dir_def
        clean_outputs_def remove_if_exists_def act_defs or_else_def status_def)
qed

lemma clean_removes_source_witness:
  "\<exists>w'. main 0 idle [''clean'', ''x/app''] (world_of [(''x/app'', File [])]) = Inr (0, w') \<and> w_files w' = Map.empty"
proof -
  have "CHR ''.'' \<notin> set (path_basename ''x/app'')" by code_simp
  with clean_removes_source [of "world_of [(''x/app'', File [])]" "''x/app''" "[]" 0 idle] show ?thesis
    by (simp add: world_of_def)
qed

text \<open>\<^verbatim>\<open>night test\<close> on a project finds no test, whatever the directory \<^verbatim>\<open>tests\<close> holds: it looks for
  this directory below the entry file of the project, where a file system has none, and succeeds.\<close>

theorem test_finds_no_tests:
  assumes "w_files w dir = Some (Directory es)"
    and "w_files w (path_join dir ''night.toml'') = Some (File t)" "parse_manifest dir (c_string t) = Inr cfg"
    and "w_files w (resolve_project_entry cfg) = Some (File s)"
    and "\<forall>p u q. w_files w p = Some (File u) \<longrightarrow> w_files w (path_join p q) = None"
  shows "main n b [''test'', dir] w =
    Inr (0, w\<lparr>w_out := w_out w @ [Line ''note: no tests/ directory found'',
                                   Line (newline # ''0 passed, 0 failed'')]\<rparr>)"
proof -
  from assms(4,5) have "\<not> path_is_dir (w_host w) (path_join (resolve_project_entry cfg) ''tests'')"
    by (simp add: path_is_dir_def)
  moreover have "show_nat 0 = ''0''" by code_simp
  ultimately show ?thesis
    using assms(1-3)
    by (simp add: main_def command_of_def COMMANDS_def run_command_def resolve_input_path_def
        resolve_project_def read_text_def path_is_dir_def test_project_def act_defs status_def)
qed

text \<open>A project with a test.\<close>

definition tested_project :: world where
  "tested_project = world_of
     [(''app'', Directory [''night.toml'', ''main.afns'', ''tests'']),
      (''app/night.toml'', File (''[build]'' @ newline # ''entry = '' @ CHR 0x22 # ''main.afns'' @ [CHR 0x22])),
      (''app/main.afns'', File new_main),
      (''app/tests'', Directory [''one.afns'']), (''app/tests/one.afns'', File new_main)]"

theorem test_finds_no_tests_witness:
  "main 0 idle [''test'', ''app''] tested_project =
    Inr (0, tested_project\<lparr>w_out := [Line ''note: no tests/ directory found'',
                                   Line (newline # ''0 passed, 0 failed'')]\<rparr>)"
proof -
  let ?t = "''[build]'' @ newline # ''entry = '' @ CHR 0x22 # ''main.afns'' @ [CHR 0x22]"
  obtain cfg where cfg: "parse_manifest ''app'' (c_string ?t) = Inr cfg" "resolve_project_entry cfg = ''app/main.afns''"
    by (rule that) code_simp+
  have "w_files tested_project (path_join p q) = None" if "w_files tested_project p = Some (File u)" for p q u
    using that by (auto simp: tested_project_def world_of_def path_join_def map_of_Cons_code split: if_splits)
  with test_finds_no_tests [of tested_project "''app''" _ ?t, OF _ _ cfg(1)] cfg(2) show ?thesis
    by (simp add: tested_project_def world_of_def path_join_def)
qed

end
