(* ===== verification/Driver_Runs.thy ===== *)
theory Driver_Runs
  imports Driver_Load
begin

text \<open>
  A Hoare logic for the steps of the driver. \<open>runs E P m Q\<close>: from a state with \<open>P\<close>, the step \<open>m\<close> leaves
  the driver only by a fault in \<open>E\<close>, and where it returns a value, \<open>Q\<close> holds, nothing was printed and
  the units have only grown.
\<close>

subsection \<open>Growth\<close>

definition extends_unit :: "source_unit \<Rightarrow> source_unit \<Rightarrow> bool" where
  "extends_unit u v \<longleftrightarrow> u_path v = u_path u \<and> (\<forall>ast. u_ast u = Some ast \<longrightarrow> u_ast v = Some ast) \<and>
     (u_include u \<longrightarrow> u_include v) \<and> (u_loaded u \<longrightarrow> u_loaded v)"

definition grows :: "compile_state \<Rightarrow> compile_state \<Rightarrow> bool" where
  "grows s s' \<longleftrightarrow> cs_root s' = cs_root s \<and> cs_out s' = cs_out s \<and> length (cs_units s) \<le> length (cs_units s') \<and>
     (\<forall>j < length (cs_units s). extends_unit (cs_units s ! j) (cs_units s' ! j))"

lemma extends_unit_refl [simp]: "extends_unit u u"
  by (simp add: extends_unit_def)

lemma extends_unit_trans: "extends_unit u v \<Longrightarrow> extends_unit v w \<Longrightarrow> extends_unit u w"
  by (auto simp: extends_unit_def)

lemma grows_refl [simp]: "grows s s"
  by (simp add: grows_def)

lemma grows_trans [trans]:
  assumes "grows s t" "grows t u" shows "grows s u"
proof -
  have "extends_unit (cs_units s ! j) (cs_units u ! j)" if "j < length (cs_units s)" for j
    using that assms extends_unit_trans [of "cs_units s ! j" "cs_units t ! j" "cs_units u ! j"]
    by (simp add: grows_def)
  with assms show ?thesis by (simp add: grows_def)
qed

text \<open>A fact is stable if it survives growth.\<close>

definition stable :: "(compile_state \<Rightarrow> bool) \<Rightarrow> bool" where
  "stable F \<longleftrightarrow> (\<forall>s s'. F s \<longrightarrow> grows s s' \<longrightarrow> F s')"

definition merged :: "string \<Rightarrow> source_unit list \<Rightarrow> bool" where
  "merged p us \<longleftrightarrow> (\<exists>u \<in> set us. u_path u = p \<and> u_include u)"

definition unit_at :: "nat \<Rightarrow> source_unit \<Rightarrow> compile_state \<Rightarrow> bool" where
  "unit_at i u s \<longleftrightarrow> i < length (cs_units s) \<and> extends_unit u (cs_units s ! i)"

lemma merged_grows:
  assumes "merged p (cs_units s)" "grows s s'" shows "merged p (cs_units s')"
proof -
  from assms(1) obtain j where j: "j < length (cs_units s)" "u_path (cs_units s ! j) = p" "u_include (cs_units s ! j)"
    by (auto simp: merged_def in_set_conv_nth)
  with assms(2) have "j < length (cs_units s')" "u_path (cs_units s' ! j) = p" "u_include (cs_units s' ! j)"
    by (auto simp: grows_def extends_unit_def)
  then show ?thesis unfolding merged_def by (metis nth_mem)
qed

lemma unit_at_grows: "unit_at i u s \<Longrightarrow> grows s s' \<Longrightarrow> unit_at i u s'"
  by (auto simp: unit_at_def grows_def dest!: spec [of _ i] intro: extends_unit_trans)

lemma stable_merged: "stable (\<lambda>s. merged p (cs_units s))"
  by (simp add: stable_def merged_grows)

lemma stable_unit_at: "stable (unit_at i u)"
  by (simp add: stable_def unit_at_grows)

lemma stable_conj: "stable F \<Longrightarrow> stable G \<Longrightarrow> stable (\<lambda>s. F s \<and> G s)"
  unfolding stable_def by blast

lemma stable_all: "(\<And>x. stable (H x)) \<Longrightarrow> stable (\<lambda>s. \<forall>x \<in> A. H x s)"
  unfolding stable_def by blast

lemmas stable_intros = stable_merged stable_unit_at stable_conj stable_all

subsection \<open>The rules\<close>

definition runs ::
  "(driver_fault \<Rightarrow> bool) \<Rightarrow> (compile_state \<Rightarrow> bool) \<Rightarrow> 'a drv \<Rightarrow> ('a \<Rightarrow> compile_state \<Rightarrow> bool) \<Rightarrow> bool" where
  "runs E P m Q \<longleftrightarrow> (\<forall>s. P s \<longrightarrow> (case m s of
     Inl e \<Rightarrow> E e
   | Inr (r, s') \<Rightarrow> (case r of None \<Rightarrow> True | Some x \<Rightarrow> grows s s' \<and> Q x s')))"

lemma runs_conseq: "runs E P m Q \<Longrightarrow> (\<And>s. P' s \<Longrightarrow> P s) \<Longrightarrow> (\<And>x s. Q x s \<Longrightarrow> Q' x s) \<Longrightarrow> runs E P' m Q'"
  unfolding runs_def by (fastforce split: sum.splits prod.splits option.splits)

lemma runs_pre: "runs E P m Q \<Longrightarrow> (\<And>s. P' s \<Longrightarrow> P s) \<Longrightarrow> runs E P' m Q"
  by (rule runs_conseq)

lemma runs_ret: "(\<And>s. P s \<Longrightarrow> Q x s) \<Longrightarrow> runs E P (dret x) Q"
  by (simp add: runs_def dret_def)

lemma runs_bind: "runs E P m R \<Longrightarrow> (\<And>x. runs E (R x) (f x) Q) \<Longrightarrow> runs E P (dbind m f) Q"
  unfolding runs_def dbind_def
  by (fastforce split: sum.splits prod.splits option.splits intro: grows_trans)

lemma runs_get: "(\<And>x. runs E (\<lambda>s. P s \<and> sel s = x) (f x) Q) \<Longrightarrow> runs E P (dget sel f) Q"
  by (simp add: runs_def dget_def)

lemma runs_set: "(\<And>s. P s \<Longrightarrow> grows s (g s) \<and> Q () (g s)) \<Longrightarrow> runs E P (dset g) Q"
  by (simp add: runs_def dset_def)

lemma runs_give_up: "runs E P (give_up ms) Q"
  by (simp add: runs_def give_up_def)

lemma runs_crash: "(\<And>s. P s \<Longrightarrow> E e) \<Longrightarrow> runs E P (crash e) Q"
  by (auto simp: runs_def crash_def)

lemma runs_frame: "runs E P m Q \<Longrightarrow> stable F \<Longrightarrow> runs E (\<lambda>s. P s \<and> F s) m (\<lambda>x s. Q x s \<and> F s)"
  unfolding runs_def stable_def by (fastforce split: sum.splits prod.splits option.splits)

lemma runs_fact: "(c \<Longrightarrow> runs E P m Q) \<Longrightarrow> runs E (\<lambda>s. P s \<and> c) m Q"
  by (auto simp: runs_def)

lemma runs_each:
  "(\<And>ys x zs. xs = ys @ x # zs \<Longrightarrow> runs E (J ys) (f x) (\<lambda>_. J (ys @ [x]))) \<Longrightarrow> runs E (J []) (for_each f xs) (\<lambda>_. J xs)"
proof (induction xs arbitrary: J)
  case (Cons a xs)
  have "runs E (J []) (f a) (\<lambda>_. J ([] @ [a]))"
    using Cons.prems [of "[]" a xs] by simp
  moreover have "runs E (J [a]) (for_each f xs) (\<lambda>_. J (a # xs))"
    using Cons.prems [of "a # ys" for ys] by (intro Cons.IH [of "\<lambda>ys. J (a # ys)"]) simp
  ultimately show ?case by (auto intro: runs_bind)
qed (simp add: runs_ret)

end
