(* ===== verification/Driver_Imports.thy ===== *)
theory Driver_Imports
  imports Driver_Runs
begin

text \<open>
  What the traversal of packages and imports does: which files it loads, which of them it merges, and
  by which faults it can fail.
\<close>

subsection \<open>Files of a program\<close>

text \<open>\<open>file_ast h p ast\<close>: the file at \<open>p\<close> is parsed as \<open>ast\<close>.\<close>

definition file_ast :: "host \<Rightarrow> string \<Rightarrow> node \<Rightarrow> bool" where
  "file_ast h p ast \<longleftrightarrow> (\<exists>t ts q. files h p = Some (File t) \<and> lexer_tokenize (c_string t) = Inr ts \<and>
     parser_parse (tokens ts) = Done (Some ast) q)"

text \<open>\<open>imports_file h path ast q\<close>: an import of \<open>ast\<close> is resolved to \<open>q\<close>, relative to the entry file \<open>path\<close>.\<close>

definition imports_file :: "host \<Rightarrow> string \<Rightarrow> node \<Rightarrow> string \<Rightarrow> bool" where
  "imports_file h path ast q \<longleftrightarrow> (\<exists>imp \<in> set (program_imports ast). \<exists>ps.
     resolve_import_files h (path_dirname path) (import_path imp) = Some ps \<and> q \<in> set ps)"

definition package_files :: "host \<Rightarrow> string \<Rightarrow> string set" where
  "package_files h path = (case collect_afns_files_in_dir h (path_dirname path) of None \<Rightarrow> {} | Some ps \<Rightarrow> set ps)"

text \<open>The files that are read, and those that become part of the program, given the entry file.\<close>

inductive reached :: "host \<Rightarrow> string \<Rightarrow> string \<Rightarrow> bool" for h path where
  reached_entry: "reached h path path"
| reached_package: "file_ast h path ast \<Longrightarrow> program_package ast = Some pkg \<Longrightarrow> p \<in> package_files h path \<Longrightarrow>
    reached h path p"
| reached_import: "reached h path p \<Longrightarrow> file_ast h p ast \<Longrightarrow> imports_file h path ast q \<Longrightarrow> reached h path q"

inductive included :: "host \<Rightarrow> string \<Rightarrow> string \<Rightarrow> bool" for h path where
  included_entry: "included h path path"
| included_package: "file_ast h path ast \<Longrightarrow> program_package ast = Some pkg \<Longrightarrow> p \<in> package_files h path \<Longrightarrow>
    file_ast h p ast' \<Longrightarrow> program_package ast' = Some pkg \<Longrightarrow> included h path p"
| included_import: "included h path p \<Longrightarrow> file_ast h p ast \<Longrightarrow> imports_file h path ast q \<Longrightarrow> included h path q"

lemma file_ast_unique: "file_ast h p a \<Longrightarrow> file_ast h p b \<Longrightarrow> a = b"
  by (auto simp: file_ast_def)

lemma included_reached: "included h path p \<Longrightarrow> reached h path p"
  by (induction rule: included.induct) (auto intro: reached.intros)

lemma collected_regular: "collect_afns_files_in_dir h d = Some ps \<Longrightarrow> p \<in> set ps \<Longrightarrow> is_regular h p"
  by (auto simp: collect_afns_files_in_dir_def afns_files_def split: option.splits entry.splits)

lemma import_in_regular: "import_in h root imp = Some (Some ps) \<Longrightarrow> p \<in> set ps \<Longrightarrow> is_regular h p"
  by (auto simp: import_in_def Let_def path_exists_def path_is_dir_def is_regular_def
      split: if_splits dest: collected_regular) (metis entry.exhaust)

lemma resolved_regular: "resolve_import_files h root imp = Some ps \<Longrightarrow> p \<in> set ps \<Longrightarrow> is_regular h p"
  by (auto simp: resolve_import_files_def split: option.splits if_splits intro: import_in_regular)

lemma reached_regular: "reached h path p \<Longrightarrow> p = path \<or> is_regular h p"
  by (induction rule: reached.induct)
    (auto simp: package_files_def imports_file_def split: option.splits intro: collected_regular resolved_regular)

subsection \<open>The invariant of the units\<close>

text \<open>No directory lists a name twice.\<close>

definition sane_dirs :: "host \<Rightarrow> bool" where
  "sane_dirs h \<longleftrightarrow> (\<forall>d es. files h d = Some (Directory es) \<longrightarrow> distinct es)"

definition few_files :: "host \<Rightarrow> string \<Rightarrow> bool" where
  "few_files h path \<longleftrightarrow> sane_dirs h \<and> finite (Collect (reached h path)) \<and> card (Collect (reached h path)) \<le> 8"

definition cap_ok :: "source_unit list \<Rightarrow> nat \<Rightarrow> bool" where
  "cap_ok us c \<longleftrightarrow> (if us = [] then c = 0 else 8 \<le> c \<and> length us \<le> c \<and> (length us \<le> 8 \<longrightarrow> c = 8))"

definition unit_ok :: "host \<Rightarrow> string \<Rightarrow> source_unit list \<Rightarrow> source_unit \<Rightarrow> bool" where
  "unit_ok h path us u \<longleftrightarrow> reached h path (u_path u) \<and>
     (\<exists>ast. u_ast u = Some ast \<and> file_ast h (u_path u) ast \<and>
       (u_loaded u \<longrightarrow> (\<forall>q. imports_file h path ast q \<longrightarrow> merged q us))) \<and>
     (u_include u \<longrightarrow> included h path (u_path u))"

definition units_ok :: "host \<Rightarrow> string \<Rightarrow> nat set \<Rightarrow> source_unit list \<Rightarrow> bool" where
  "units_ok h path X us \<longleftrightarrow> (\<forall>u \<in> set us. unit_ok h path us u) \<and>
     (\<forall>j < length us. u_include (us ! j) \<longrightarrow> u_loaded (us ! j) \<or> j \<in> X)"

definition framed :: "host \<Rightarrow> string \<Rightarrow> compile_state \<Rightarrow> bool" where
  "framed h path s \<longleftrightarrow> cs_root s = path_dirname path \<and> cap_ok (cs_units s) (cs_cap s) \<and>
     (sane_dirs h \<longrightarrow> distinct (map u_path (cs_units s)))"

text \<open>The imports of the merged units with an index outside \<open>X\<close> are merged too.\<close>

definition inv :: "host \<Rightarrow> string \<Rightarrow> nat set \<Rightarrow> compile_state \<Rightarrow> bool" where
  "inv h path X s \<longleftrightarrow> framed h path s \<and> units_ok h path X (cs_units s)"

lemma inv_mono: "inv h path X s \<Longrightarrow> X \<subseteq> Y \<Longrightarrow> inv h path Y s"
  by (auto simp: inv_def units_ok_def)

lemma inv_unit:
  assumes "inv h path X s" "i < length (cs_units s)"
  obtains ast where "u_ast (cs_units s ! i) = Some ast" "file_ast h (u_path (cs_units s ! i)) ast"
    "u_include (cs_units s ! i) \<Longrightarrow> included h path (u_path (cs_units s ! i))"
  using assms by (auto simp: inv_def units_ok_def unit_ok_def dest!: bspec [OF _ nth_mem])

lemma unit_ok_mono: "unit_ok h path us u \<Longrightarrow> (\<And>q. merged q us \<Longrightarrow> merged q us') \<Longrightarrow> unit_ok h path us' u"
  by (auto simp: unit_ok_def)

lemma merged_append: "merged q us \<Longrightarrow> merged q (us @ vs)"
  by (auto simp: merged_def)

lemma merged_update:
  assumes "merged q us" "u_path (g (us ! i)) = u_path (us ! i)" "u_include (us ! i) \<longrightarrow> u_include (g (us ! i))"
  shows "merged q (us[i := g (us ! i)])"
proof -
  from assms(1) obtain j where "j < length us" "u_path (us ! j) = q" "u_include (us ! j)"
    by (auto simp: merged_def in_set_conv_nth)
  with assms(2,3) have "j < length (us[i := g (us ! i)])" "u_path (us[i := g (us ! i)] ! j) = q"
      "u_include (us[i := g (us ! i)] ! j)"
    by (cases "i = j"; auto)+
  then show ?thesis unfolding merged_def by (metis nth_mem)
qed

lemma map_path_update: "i < length us \<Longrightarrow> u_path (g (us ! i)) = u_path (us ! i) \<Longrightarrow> map u_path (us[i := g (us ! i)]) = map u_path us"
  by (metis list_update_id map_update)

lemma grows_update:
  "extends_unit (cs_units s ! i) (g (cs_units s ! i)) \<Longrightarrow> grows s (s\<lparr>cs_units := (cs_units s)[i := g (cs_units s ! i)]\<rparr>)"
  unfolding grows_def by simp (metis extends_unit_refl nth_list_update_eq nth_list_update_neq)

text \<open>The two changes of a unit: it is merged, and its imports are loaded.\<close>

lemma inv_include:
  assumes "inv h path X s" "i < length (cs_units s)" "included h path (u_path (cs_units s ! i))"
  shows "inv h path (insert i X) (s\<lparr>cs_units := (cs_units s)[i := (cs_units s ! i)\<lparr>u_include := True\<rparr>]\<rparr>)"
proof -
  let ?us = "cs_units s" and ?g = "\<lambda>u. u\<lparr>u_include := True\<rparr>"
  have "merged q ?us \<Longrightarrow> merged q (?us[i := ?g (?us ! i)])" for q
    by (intro merged_update) simp_all
  note up = unit_ok_mono [OF _ this]
  have "unit_ok h path ?us u" if "u \<in> set ?us" for u
    using assms(1) that by (simp add: inv_def units_ok_def)
  then have "unit_ok h path (?us[i := ?g (?us ! i)]) u" if "u \<in> set ?us" for u
    using that up by blast
  moreover have "unit_ok h path (?us[i := ?g (?us ! i)]) (?g (?us ! i))"
    using calculation [OF nth_mem [OF assms(2)]] assms(3) by (simp add: unit_ok_def)
  ultimately show ?thesis
    using assms(1,2) map_path_update [OF assms(2), of ?g]
    by (auto simp: inv_def framed_def cap_ok_def units_ok_def nth_list_update dest!: subsetD [OF set_update_subset_insert])
qed

lemma inv_loaded:
  assumes "inv h path X s" "i < length (cs_units s)" "u_ast (cs_units s ! i) = Some ast"
    and "\<forall>q. imports_file h path ast q \<longrightarrow> merged q (cs_units s)"
  shows "inv h path (X - {i}) (s\<lparr>cs_units := (cs_units s)[i := (cs_units s ! i)\<lparr>u_loaded := True\<rparr>]\<rparr>)"
proof -
  let ?us = "cs_units s" and ?g = "\<lambda>u. u\<lparr>u_loaded := True\<rparr>"
  have m: "merged q ?us \<Longrightarrow> merged q (?us[i := ?g (?us ! i)])" for q
    by (intro merged_update) simp_all
  note up = unit_ok_mono [OF _ this]
  have "unit_ok h path ?us u" if "u \<in> set ?us" for u
    using assms(1) that by (simp add: inv_def units_ok_def)
  then have "unit_ok h path (?us[i := ?g (?us ! i)]) u" if "u \<in> set ?us" for u
    using that up by blast
  moreover have "unit_ok h path (?us[i := ?g (?us ! i)]) (?g (?us ! i))"
    using calculation [OF nth_mem [OF assms(2)]] assms(3,4) m by (auto simp: unit_ok_def)
  ultimately show ?thesis
    using assms(1,2) map_path_update [OF assms(2), of ?g]
    by (auto simp: inv_def framed_def cap_ok_def units_ok_def nth_list_update dest!: subsetD [OF set_update_subset_insert])
qed

subsection \<open>A new unit\<close>

abbreviation new_unit :: "string \<Rightarrow> source_unit" where
  "new_unit p \<equiv> \<lparr>u_path = p, u_source = None, u_ast = None, u_include = False, u_loaded = False\<rparr>"

definition pending :: "host \<Rightarrow> string \<Rightarrow> nat set \<Rightarrow> string \<Rightarrow> nat \<Rightarrow> compile_state \<Rightarrow> bool" where
  "pending h path X p i s \<longleftrightarrow> framed h path s \<and>
     (\<exists>us. cs_units s = us @ [new_unit p] \<and> length us = i \<and> units_ok h path X us)"

definition named :: "nat \<Rightarrow> string \<Rightarrow> compile_state \<Rightarrow> bool" where
  "named i p s \<longleftrightarrow> i < length (cs_units s) \<and> u_path (cs_units s ! i) = p"

lemma push_pending:
  "runs E (\<lambda>s. inv h path X s \<and> u_path ` set (cs_units s) \<subseteq> B \<and> (sane_dirs h \<longrightarrow> p \<notin> u_path ` set (cs_units s)))
     (push_source_unit p)
     (\<lambda>_ s. pending h path X p (length (cs_units s) - 1) s \<and> u_path ` set (cs_units s) \<subseteq> insert p B)"
  unfolding push_source_unit_def
  by (rule runs_set)
    (auto simp: grows_def nth_append inv_def framed_def cap_ok_def pending_def split: if_splits)

lemma pending_loaded:
  assumes "pending h path X p i s" "file_ast h p ast" "reached h path p"
  shows "inv h path X (s\<lparr>cs_units := (cs_units s)[i := (new_unit p)\<lparr>u_source := t, u_ast := Some ast\<rparr>]\<rparr>)"
proof -
  obtain us where us: "cs_units s = us @ [new_unit p]" "length us = i" "units_ok h path X us" "framed h path s"
    using assms(1) by (auto simp: pending_def)
  let ?u = "(new_unit p)\<lparr>u_source := t, u_ast := Some ast\<rparr>"
  have "unit_ok h path (us @ [?u]) u" if "u \<in> set us" for u
    using us(3) that by (auto simp: units_ok_def intro: unit_ok_mono merged_append)
  moreover have "unit_ok h path (us @ [?u]) ?u"
    using assms(2,3) by (simp add: unit_ok_def)
  ultimately have "units_ok h path X (us @ [?u])"
    using us(3) by (auto simp: units_ok_def nth_append less_Suc_eq)
  moreover have "(us @ [new_unit p])[i := ?u] = us @ [?u]"
    using us(2) by (simp add: list_update_append)
  ultimately show ?thesis
    using us by (auto simp: inv_def framed_def cap_ok_def)
qed

subsection \<open>The capacity of the array\<close>

lemma units_bounded:
  assumes "inv h path X s" "sane_dirs h" "finite (Collect (reached h path))"
  shows "length (cs_units s) \<le> card (Collect (reached h path))"
proof -
  have "u_path ` set (cs_units s) \<subseteq> Collect (reached h path)"
    using assms(1) by (auto simp: inv_def units_ok_def unit_ok_def)
  then have "card (set (map u_path (cs_units s))) \<le> card (Collect (reached h path))"
    using assms(3) by (simp add: card_mono)
  moreover have "distinct (map u_path (cs_units s))"
    using assms(1,2) by (simp add: inv_def framed_def)
  ultimately show ?thesis by (metis distinct_card length_map)
qed

lemma few_capacity:
  assumes "inv h path X s" "few_files h path" "cs_units s \<noteq> []"
  shows "cs_cap s = 8"
proof -
  have "length (cs_units s) \<le> 8"
    using units_bounded [OF assms(1)] assms(2) by (auto simp: few_files_def)
  with assms(1,3) show ?thesis by (simp add: inv_def framed_def cap_ok_def)
qed

text \<open>Every file has a package.\<close>

definition packaged :: "host \<Rightarrow> string \<Rightarrow> bool" where
  "packaged h path \<longleftrightarrow> (\<forall>p ast. reached h path p \<longrightarrow> file_ast h p ast \<longrightarrow> program_package ast \<noteq> None)"

text \<open>What an import asks for is merged.\<close>

definition import_merged :: "host \<Rightarrow> string \<Rightarrow> node \<Rightarrow> compile_state \<Rightarrow> bool" where
  "import_merged h path imp s \<longleftrightarrow> (\<forall>ps. resolve_import_files h (path_dirname path) (import_path imp) = Some ps \<longrightarrow>
     (\<forall>q \<in> set ps. merged q (cs_units s)))"

lemma stable_import_merged: "stable (import_merged h path imp)"
  by (auto simp: stable_def import_merged_def intro: merged_grows)

lemma find_index:
  "find_source_unit_index p s = Some i \<Longrightarrow> named i p s"
  "find_source_unit_index p s = None \<Longrightarrow> p \<notin> u_path ` set (cs_units s)"
proof -
  assume "find_source_unit_index p s = Some i"
  then obtain u where "List.find (\<lambda>(_, u). u_path u = p) (enumerate 0 (cs_units s)) = Some (i, u)"
    by (auto simp: find_source_unit_index_def index_from_def)
  then have "(i, u) \<in> set (enumerate 0 (cs_units s))" "u_path u = p"
    unfolding find_Some_iff by (metis nth_mem, auto)
  then show "named i p s" by (auto simp: named_def in_set_enumerate_eq)
next
  assume "find_source_unit_index p s = None"
  then have "u_path (cs_units s ! i) \<noteq> p" if "i < length (cs_units s)" for i
    using that by (auto simp: find_source_unit_index_def index_from_def find_None_iff in_set_enumerate_eq)
  then show "p \<notin> u_path ` set (cs_units s)" by (metis imageE in_set_conv_nth)
qed

subsection \<open>The traversal\<close>

text \<open>\<open>E\<close> is a set of faults the traversal may end with: the client says when it tolerates which.\<close>

locale import_walk =
  fixes h :: host and path :: string and E :: "driver_fault \<Rightarrow> bool"
  assumes parser_fault: "E (ParserFault e)"
    and directory_read: "path_is_dir h path \<Longrightarrow> E DirectoryRead"
    and stale_unit: "\<not> few_files h path \<Longrightarrow> E StaleUnit"
begin

lemma runs_load:
  assumes "reached h path p"
  shows "runs E (\<lambda>s. pending h path X p i s \<and> u_path ` set (cs_units s) \<subseteq> B) (load_source_unit h i)
    (\<lambda>_ s. inv h path X s \<and> named i p s \<and> u_path ` set (cs_units s) \<subseteq> B)"
  unfolding runs_def
proof (intro allI impI, elim conjE)
  fix s assume pend: "pending h path X p i s" and B: "u_path ` set (cs_units s) \<subseteq> B"
  then have at: "cs_units s ! i = new_unit p" "i < length (cs_units s)"
    by (auto simp: pending_def nth_append)
  note defs = load_source_unit_def dget_def dbind_def read_file_def at give_up_def crash_def dret_def parse_source_def
    set_unit_def dset_def
  show "case load_source_unit h i s of Inl e \<Rightarrow> E e
    | Inr (r, s') \<Rightarrow> (case r of None \<Rightarrow> True | Some x \<Rightarrow> grows s s' \<and> inv h path X s' \<and> named i p s' \<and>
        u_path ` set (cs_units s') \<subseteq> B)"
  proof (cases "files h p")
    case None
    then show ?thesis by (simp add: defs)
  next
    case (Some e)
    show ?thesis
    proof (cases e)
      case (Directory es)
      with Some reached_regular [OF assms] have "path_is_dir h path"
        by (auto simp: path_is_dir_def is_regular_def)
      with Some Directory directory_read show ?thesis by (simp add: defs)
    next
      case (File t)
      show ?thesis
      proof (cases "\<exists>ts ast q. lexer_tokenize (c_string t) = Inr ts \<and> parser_parse (tokens ts) = Done (Some ast) q")
        case True
        then obtain ts ast q where ast: "lexer_tokenize (c_string t) = Inr ts" "parser_parse (tokens ts) = Done (Some ast) q"
          by blast
        with Some File have "file_ast h p ast" by (auto simp: file_ast_def)
        moreover have "p \<in> B" using at B nth_mem [OF at(2)] by force
        moreover note pending_loaded [OF pend calculation(1) assms, of "Some (c_string t)"]
        ultimately show ?thesis
          using Some File ast B
          by (auto simp: defs named_def grows_def extends_unit_def nth_list_update dest!: subsetD [OF set_update_subset_insert])
      next
        case False
        with Some File parser_fault show ?thesis
          by (auto simp: defs split: sum.splits outcome.splits option.splits)
      qed
    qed
  qed
qed

lemma runs_load_new:
  assumes "reached h path p"
    and "\<And>i. runs E (\<lambda>s. inv h path X s \<and> named i p s \<and> u_path ` set (cs_units s) \<subseteq> insert p B) (K i) Q"
  shows "runs E (\<lambda>s. inv h path X s \<and> u_path ` set (cs_units s) \<subseteq> B \<and> (sane_dirs h \<longrightarrow> p \<notin> u_path ` set (cs_units s)))
    (dbind (push_source_unit p) (\<lambda>_. dget (\<lambda>s. length (cs_units s) - 1) (\<lambda>i.
       dbind (load_source_unit h i) (\<lambda>_. K i)))) Q"
  by (rule runs_bind [OF push_pending], rule runs_get, rule runs_bind [OF runs_pre [OF runs_load [OF assms(1)]]])
    (auto intro: assms(2))

lemma runs_still:
  assumes "few_files h path \<longrightarrow> cap = 8" "\<And>s. P s \<Longrightarrow> inv h path X s \<and> cs_units s \<noteq> []"
  shows "runs E P (still cap) (\<lambda>_. P)"
  unfolding still_def
proof (rule runs_get)
  fix c
  show "runs E (\<lambda>s. P s \<and> cs_cap s = c) (if c = cap then dret () else crash StaleUnit) (\<lambda>_. P)"
  proof (cases "c = cap")
    case False
    have "E StaleUnit" if "P s" "cs_cap s = c" for s
      using that assms False few_capacity [of h path X s] stale_unit by blast
    with False show ?thesis by (auto intro: runs_crash)
  qed (auto intro: runs_ret)
qed

definition loads :: "(nat \<Rightarrow> unit drv) \<Rightarrow> bool" where
  "loads r \<longleftrightarrow> (\<forall>i X. runs E (\<lambda>s. inv h path X s \<and> i < length (cs_units s) \<and> u_include (cs_units s ! i))
     (r i) (\<lambda>_. inv h path (X - {i})))"

lemma runs_include:
  assumes "loads r" "included h path p"
  shows "runs E (\<lambda>s. inv h path X s \<and> named i p s)
    (dbind (set_unit i (\<lambda>u. u\<lparr>u_include := True\<rparr>)) (\<lambda>_. r i))
    (\<lambda>_ s. inv h path X s \<and> merged p (cs_units s))"
proof (rule runs_bind)
  show "runs E (\<lambda>s. inv h path X s \<and> named i p s) (set_unit i (\<lambda>u. u\<lparr>u_include := True\<rparr>))
    (\<lambda>_ s. (inv h path (insert i X) s \<and> i < length (cs_units s) \<and> u_include (cs_units s ! i)) \<and> merged p (cs_units s))"
    unfolding set_unit_def
  proof (rule runs_set)
    fix s assume s: "inv h path X s \<and> named i p s"
    let ?s = "s\<lparr>cs_units := (cs_units s)[i := (cs_units s ! i)\<lparr>u_include := True\<rparr>]\<rparr>"
    have "grows s ?s" by (rule grows_update) (simp add: extends_unit_def)
    moreover have "merged p (cs_units ?s)"
      unfolding merged_def using s by (intro bexI [of _ "cs_units ?s ! i"]) (auto simp: named_def intro: set_update_memI)
    ultimately show "grows s ?s \<and> (inv h path (insert i X) ?s \<and> i < length (cs_units ?s) \<and> u_include (cs_units ?s ! i)) \<and>
        merged p (cs_units ?s)"
      using s assms(2) inv_include [of h path X s i] by (auto simp: named_def)
  qed
  have "runs E (\<lambda>s. inv h path (insert i X) s \<and> i < length (cs_units s) \<and> u_include (cs_units s ! i)) (r i)
    (\<lambda>_. inv h path (insert i X - {i}))"
    using assms(1) unfolding loads_def by blast
  from runs_frame [OF this stable_merged [of p]]
  show "runs E (\<lambda>s. (inv h path (insert i X) s \<and> i < length (cs_units s) \<and> u_include (cs_units s ! i)) \<and> merged p (cs_units s))
    (r i) (\<lambda>_ s. inv h path X s \<and> merged p (cs_units s))"
    by (rule runs_conseq) (auto elim: inv_mono)
qed

lemma runs_imported:
  assumes "loads r" "included h path p"
  shows "runs E (inv h path X) (load_imported h r p) (\<lambda>_ s. inv h path X s \<and> merged p (cs_units s))"
  unfolding load_imported_def
proof (rule runs_get)
  fix x
  show "runs E (\<lambda>s. inv h path X s \<and> find_source_unit_index p s = x)
     (case x of
        Some i \<Rightarrow> dbind (set_unit i (\<lambda>u. u\<lparr>u_include := True\<rparr>)) (\<lambda>_. r i)
      | None \<Rightarrow>
          dbind (push_source_unit p) (\<lambda>_. dget (\<lambda>s. length (cs_units s) - 1) (\<lambda>i.
            dbind (load_source_unit h i) (\<lambda>_. dbind (set_unit i (\<lambda>u. u\<lparr>u_include := True\<rparr>)) (\<lambda>_. r i)))))
     (\<lambda>_ s. inv h path X s \<and> merged p (cs_units s))"
  proof (cases x)
    case None
    have "runs E (\<lambda>s. inv h path X s \<and> named i p s \<and> u_path ` set (cs_units s) \<subseteq> insert p UNIV)
        (dbind (set_unit i (\<lambda>u. u\<lparr>u_include := True\<rparr>)) (\<lambda>_. r i))
        (\<lambda>_ s. inv h path X s \<and> merged p (cs_units s))" for i
      by (rule runs_pre [OF runs_include [OF assms]]) simp
    from runs_load_new [OF included_reached [OF assms(2)] this] show ?thesis
      unfolding None option.case by (rule runs_pre) (auto dest: find_index)
  next
    case (Some i)
    show ?thesis
      unfolding Some option.case by (rule runs_pre [OF runs_include [OF assms]]) (auto dest: find_index)
  qed
qed

lemma runs_import:
  assumes "loads r" "included h path p" "file_ast h p ast" "imp \<in> set (program_imports ast)"
    and "few_files h path \<longrightarrow> cap = 8"
  shows "runs E (\<lambda>s. inv h path X s \<and> unit_at i u s) (load_import h r pth cap stack imp)
    (\<lambda>_ s. inv h path X s \<and> import_merged h path imp s)"
  unfolding load_import_def
proof (rule runs_bind [OF runs_still [OF assms(5)]])
  show "inv h path X s \<and> unit_at i u s \<Longrightarrow> inv h path X s \<and> cs_units s \<noteq> []" for s
    by (auto simp: unit_at_def)
  let ?ps = "resolve_import_files h (path_dirname path) (import_path imp)"
  have each: "runs E (\<lambda>s. inv h path X s \<and> (\<forall>q \<in> set ys. merged q (cs_units s))) (load_imported h r q)
      (\<lambda>_ s. inv h path X s \<and> (\<forall>q \<in> set (ys @ [q]). merged q (cs_units s)))"
    if "?ps = Some (ys @ q # zs)" for q ys zs
  proof -
    have "included h path q"
      using assms(4) that by (intro included_import [OF assms(2,3)]) (fastforce simp: imports_file_def)
    from runs_frame [OF runs_imported [OF assms(1) this] stable_all [OF stable_merged, of "set ys"]]
    show ?thesis by (rule runs_conseq) auto
  qed
  have all: "runs E (inv h path X) (for_each (load_imported h r) ps) (\<lambda>_ s. inv h path X s \<and> import_merged h path imp s)"
    if "?ps = Some ps" for ps
    by (rule runs_conseq [OF runs_each
          [where J = "\<lambda>ys s. inv h path X s \<and> (\<forall>q \<in> set ys. merged q (cs_units s))" and xs = ps]])
      (use that each in \<open>auto simp: import_merged_def\<close>)
  show "runs E (\<lambda>s. inv h path X s \<and> unit_at i u s)
    (if import_path imp \<in> set stack then
       give_up [Syntax pth [(nline imp, Some (ncol imp), ''circular import detected for '' @ in_quotes (import_path imp))]]
     else dget cs_root (\<lambda>root. case resolve_import_files h root (import_path imp) of
        None \<Rightarrow> dret () | Some ps \<Rightarrow> for_each (load_imported h r) ps))
    (\<lambda>_ s. inv h path X s \<and> import_merged h path imp s)" for x
  proof (cases "import_path imp \<in> set stack")
    case False
    have "runs E (\<lambda>s. (inv h path X s \<and> unit_at i u s) \<and> cs_root s = root)
        (case resolve_import_files h root (import_path imp) of
           None \<Rightarrow> dret () | Some ps \<Rightarrow> for_each (load_imported h r) ps)
        (\<lambda>_ s. inv h path X s \<and> import_merged h path imp s)" for root
    proof (cases "root = path_dirname path")
      case True
      show ?thesis
      proof (cases ?ps)
        case None
        then show ?thesis unfolding True by (auto intro: runs_ret simp: import_merged_def)
      next
        case (Some ps)
        then show ?thesis unfolding True by (auto intro: runs_pre [OF all])
      qed
    next
      case False
      then show ?thesis by (auto simp: runs_def inv_def framed_def)
    qed
    with False show ?thesis by (auto intro: runs_get)
  qed (simp add: runs_give_up)
qed

lemma runs_imports_of:
  assumes rec: "\<And>p ast. reached h path p \<Longrightarrow> file_ast h p ast \<Longrightarrow> length stack < 127 \<Longrightarrow> loads (r (stack @ package_stack ast))"
  shows "loads (load_imports_of h r stack)"
  unfolding loads_def load_imports_of_def
proof (intro allI runs_get)
  fix i X u
  let ?P = "\<lambda>s. (inv h path X s \<and> i < length (cs_units s) \<and> u_include (cs_units s ! i)) \<and> cs_units s ! i = u"
  let ?ok = "\<exists>ast. u_ast u = Some ast \<and> file_ast h (u_path u) ast \<and> included h path (u_path u)"
  have P: "?P s \<Longrightarrow> ?ok" for s
    by (auto elim: inv_unit)
  show "runs E ?P (case u_ast u of
       None \<Rightarrow> dret ()
     | Some ast \<Rightarrow>
         if u_loaded u then dret ()
         else if length stack \<ge> 127 then give_up [Line ''error: import nesting too deep'']
         else
           dget cs_cap (\<lambda>cap.
           dbind (for_each (load_import h (r (stack @ package_stack ast)) (u_path u) cap (stack @ package_stack ast))
                    (program_imports ast)) (\<lambda>_.
           dbind (still cap) (\<lambda>_.
           set_unit i (\<lambda>u. u\<lparr>u_loaded := True\<rparr>)))))
     (\<lambda>_. inv h path (X - {i}))" (is "runs E ?P ?m ?Q")
  proof (cases ?ok)
    case False
    with P show ?thesis by (auto simp: runs_def)
  next
    case True
    then obtain ast where ast: "u_ast u = Some ast" "file_ast h (u_path u) ast" and inc: "included h path (u_path u)"
      by blast
    have loaded: "runs E ?P (dret ()) ?Q" if "u_loaded u"
      using that by (intro runs_ret) (auto simp: inv_def units_ok_def)
    let ?J = "\<lambda>ys s. inv h path X s \<and> unit_at i u s \<and> (\<forall>imp \<in> set ys. import_merged h path imp s)"
    have step: "runs E (?J ys) (load_import h (r (stack @ package_stack ast)) (u_path u) cap (stack @ package_stack ast) imp)
        (\<lambda>_. ?J (ys @ [imp]))"
      if "program_imports ast = ys @ imp # zs" "few_files h path \<longrightarrow> cap = 8" "length stack < 127" for cap ys imp zs
    proof -
      have "imp \<in> set (program_imports ast)" using that(1) by simp
      from runs_frame [OF runs_import [OF rec [OF included_reached [OF inc] ast(2) that(3)] inc ast(2) this that(2),
            of X i u "u_path u" "stack @ package_stack ast"]
          stable_conj [OF stable_unit_at [of i u] stable_all [OF stable_import_merged [of h path], of "set ys"]]]
      show ?thesis by (rule runs_conseq) auto
    qed
    have last: "runs E (?J (program_imports ast)) (set_unit i (\<lambda>u. u\<lparr>u_loaded := True\<rparr>)) ?Q"
      unfolding set_unit_def
    proof (rule runs_set)
      fix s assume J: "?J (program_imports ast) s"
      have "grows s (s\<lparr>cs_units := (cs_units s)[i := (cs_units s ! i)\<lparr>u_loaded := True\<rparr>]\<rparr>)"
        by (rule grows_update) (simp add: extends_unit_def)
      with J ast(1) inv_loaded [of h path X s i ast]
      show "grows s (s\<lparr>cs_units := (cs_units s)[i := (cs_units s ! i)\<lparr>u_loaded := True\<rparr>]\<rparr>) \<and>
          ?Q () (s\<lparr>cs_units := (cs_units s)[i := (cs_units s ! i)\<lparr>u_loaded := True\<rparr>]\<rparr>)"
        by (auto simp: unit_at_def extends_unit_def imports_file_def import_merged_def)
    qed
    have "runs E (\<lambda>s. ?P s \<and> cs_cap s = cap)
        (dbind (for_each (load_import h (r (stack @ package_stack ast)) (u_path u) cap (stack @ package_stack ast))
                    (program_imports ast)) (\<lambda>_. dbind (still cap) (\<lambda>_. set_unit i (\<lambda>u. u\<lparr>u_loaded := True\<rparr>)))) ?Q"
      if "length stack < 127" for cap
    proof (cases "few_files h path \<longrightarrow> cap = 8")
      case True
      show ?thesis
      proof (rule runs_bind)
        show "runs E (\<lambda>s. ?P s \<and> cs_cap s = cap)
           (for_each (load_import h (r (stack @ package_stack ast)) (u_path u) cap (stack @ package_stack ast))
                    (program_imports ast)) (\<lambda>_. ?J (program_imports ast))"
          by (rule runs_pre [OF runs_each [where J = ?J]]) (use step True that in \<open>auto simp: unit_at_def\<close>)
        show "runs E (?J (program_imports ast)) (dbind (still cap) (\<lambda>_. set_unit i (\<lambda>u. u\<lparr>u_loaded := True\<rparr>))) ?Q"
          by (rule runs_bind [OF runs_still [OF True, of _ X] last]) (auto simp: unit_at_def)
      qed
    next
      case False
      then have "\<not> (?P s \<and> cs_cap s = cap)" for s
        using few_capacity [of h path X s] by (cases "cs_units s") auto
      then show ?thesis by (auto simp: runs_def)
    qed
    with loaded ast(1) show ?thesis
      by (auto intro: runs_get runs_give_up)
  qed
qed

text \<open>Only a nesting that the bound on the calls does not allow, or files without a package, make the
  recursion endless.\<close>

lemma runs_imports:
  assumes "E Endless \<or> packaged h path \<and> 128 \<le> n + length stack \<and> length stack \<le> 127"
  shows "loads (load_imports_recursive n h stack)"
  using assms
proof (induction n arbitrary: stack)
  case 0
  then show ?case by (auto simp: loads_def intro: runs_crash)
next
  case (Suc n)
  have "loads (load_imports_recursive n h (stack @ package_stack ast))"
    if "reached h path p" "file_ast h p ast" "length stack < 127" for p ast
    using Suc.prems that by (intro Suc.IH) (fastforce simp: packaged_def package_stack_def split: option.splits)
  then have "loads (load_imports_of h (load_imports_recursive n h) stack)"
    by (rule runs_imports_of)
  then show ?case by (simp add: loads_def)
qed

end

end
