(* ===== verification/Driver_Program.thy ===== *)
theory Driver_Program
  imports Driver_Imports
begin

text \<open>
  What \<^verbatim>\<open>compile_source\<close> merges: exactly the entry file, the files of its package, and what they import;
  and by which faults it can fail.
\<close>

subsection \<open>The package and the loop over the units\<close>

text \<open>A file of the package \<open>pkg\<close> is merged.\<close>

definition joined :: "host \<Rightarrow> string \<Rightarrow> string \<Rightarrow> compile_state \<Rightarrow> bool" where
  "joined h pkg p s \<longleftrightarrow> (\<forall>ast'. file_ast h p ast' \<longrightarrow> program_package ast' = Some pkg \<longrightarrow> merged p (cs_units s))"

lemma stable_joined: "stable (joined h pkg p)"
  by (auto simp: stable_def joined_def intro: merged_grows)

definition package_joined :: "host \<Rightarrow> string \<Rightarrow> compile_state \<Rightarrow> bool" where
  "package_joined h path s \<longleftrightarrow> (\<forall>ast pkg. file_ast h path ast \<longrightarrow> program_package ast = Some pkg \<longrightarrow>
     (\<forall>p \<in> package_files h path. joined h pkg p s))"

lemma stable_package_joined: "stable (package_joined h path)"
  using stable_joined unfolding stable_def package_joined_def by blast

lemma stable_named: "stable (named i p)"
  by (auto simp: stable_def named_def grows_def extends_unit_def)

lemma distinct_collected:
  assumes "sane_dirs h" "collect_afns_files_in_dir h d = Some ps" shows "distinct ps"
proof -
  obtain es where "files h d = Some (Directory es)" and ps: "ps = afns_files h d es"
    using assms(2) by (auto simp: collect_afns_files_in_dir_def split: option.splits entry.splits)
  with assms(1) have "distinct es" by (simp add: sane_dirs_def)
  moreover have "inj_on (path_join d) A" for A by (auto simp: inj_on_def path_join_def)
  ultimately show ?thesis by (simp add: ps afns_files_def distinct_map)
qed

context import_walk
begin

lemma runs_package_file:
  assumes entry: "file_ast h path ast" "program_package ast = Some pkg" and p: "p \<in> package_files h path"
    and fresh: "sane_dirs h \<longrightarrow> p \<notin> A"
  shows "runs E (\<lambda>s. inv h path UNIV s \<and> u_path ` set (cs_units s) \<subseteq> insert path A \<and> merged path (cs_units s))
    (load_package_file h path pkg p)
    (\<lambda>_ s. inv h path UNIV s \<and> u_path ` set (cs_units s) \<subseteq> insert path (insert p A) \<and> merged path (cs_units s) \<and>
      joined h pkg p s)"
proof (cases "p = path")
  case True
  then show ?thesis by (auto simp: load_package_file_def joined_def intro!: runs_ret)
next
  case False
  let ?g = "\<lambda>u. if Option.bind (u_ast u) program_package = Some pkg then u\<lparr>u_include := True\<rparr> else u"
  have "runs E (\<lambda>s. inv h path UNIV s \<and> named i p s \<and> u_path ` set (cs_units s) \<subseteq> insert p (insert path A)) (set_unit i ?g)
     (\<lambda>_ s. inv h path UNIV s \<and> u_path ` set (cs_units s) \<subseteq> insert p (insert path A) \<and>
       joined h pkg p s)" for i
    unfolding set_unit_def
  proof (rule runs_set)
    fix s
    assume s: "inv h path UNIV s \<and> named i p s \<and> u_path ` set (cs_units s) \<subseteq> insert p (insert path A)"
    let ?u = "cs_units s ! i" and ?s = "s\<lparr>cs_units := (cs_units s)[i := ?g (cs_units s ! i)]\<rparr>"
    from s have i: "i < length (cs_units s)" "u_path ?u = p" by (auto simp: named_def)
    from s i obtain ast' where ast': "u_ast ?u = Some ast'" "file_ast h p ast'"
      by (auto elim: inv_unit)
    have "map u_path (cs_units ?s) = map u_path (cs_units s)"
      using map_path_update [OF i(1), of ?g] by simp
    then have paths: "u_path ` set (cs_units ?s) \<subseteq> insert p (insert path A)"
      using s by (simp only: image_set)
    have grow: "grows s ?s" by (rule grows_update) (simp add: extends_unit_def)
    show "grows s ?s \<and> inv h path UNIV ?s \<and> u_path ` set (cs_units ?s) \<subseteq> insert p (insert path A) \<and>
       joined h pkg p ?s"
    proof (cases "program_package ast' = Some pkg")
      case True
      with included_package [OF entry p ast'(2)] s i have "inv h path (insert i UNIV) ?s"
        using inv_include [of h path UNIV s i] ast'(1) by simp
      moreover have "merged p (cs_units ?s)"
        unfolding merged_def using i True ast'(1)
        by (intro bexI [of _ "cs_units ?s ! i"]) (auto intro: set_update_memI)
      ultimately show ?thesis using grow paths by (simp add: joined_def)
    next
      case False
      then have "?s = s" using ast'(1) by simp
      moreover have "program_package b \<noteq> Some pkg" if "file_ast h p b" for b
        using that False file_ast_unique [OF ast'(2)] by blast
      ultimately show ?thesis using s grow by (auto simp: joined_def)
    qed
  qed
  from runs_frame [OF runs_load_new [OF reached_package [OF entry p] this] stable_merged [of path]]
  have "runs E (\<lambda>s. (inv h path UNIV s \<and> u_path ` set (cs_units s) \<subseteq> insert path A \<and>
         (sane_dirs h \<longrightarrow> p \<notin> u_path ` set (cs_units s))) \<and> merged path (cs_units s))
      (load_package_file h path pkg p)
      (\<lambda>_ s. (inv h path UNIV s \<and> u_path ` set (cs_units s) \<subseteq> insert p (insert path A) \<and>
       joined h pkg p s) \<and> merged path (cs_units s))"
    using False by (simp add: load_package_file_def)
  then show ?thesis
    by (rule runs_conseq) (use False fresh in auto)
qed

lemma runs_package:
  "runs E (\<lambda>s. inv h path UNIV s \<and> u_path ` set (cs_units s) \<subseteq> {path} \<and> merged path (cs_units s) \<and> named 0 path s)
    (load_package h path)
    (\<lambda>_ s. (inv h path UNIV s \<and> package_joined h path s) \<and> merged path (cs_units s) \<and> named 0 path s)"
proof -
  let ?P = "\<lambda>s. inv h path UNIV s \<and> u_path ` set (cs_units s) \<subseteq> {path} \<and> merged path (cs_units s) \<and> named 0 path s"
  let ?Q = "\<lambda>_ s. inv h path UNIV s \<and> package_joined h path s"
  have "runs E (\<lambda>s. ?P s \<and> Option.bind (u_ast (cs_units s ! 0)) program_package = pkg)
     (case pkg of
        None \<Rightarrow> dret ()
      | Some p \<Rightarrow> dbind (collect_package_files h path) (\<lambda>ps. for_each (load_package_file h path p) ps)) ?Q" for pkg
  proof (cases "\<exists>ast. file_ast h path ast \<and> program_package ast = pkg")
    case False
    have "\<not> (?P s \<and> Option.bind (u_ast (cs_units s ! 0)) program_package = pkg)" for s
      using False inv_unit [of h path UNIV s 0] by (metis named_def bind.bind_lunit)
    then show ?thesis by (auto simp: runs_def)
  next
    case True
    then obtain ast where ast: "file_ast h path ast" "program_package ast = pkg" by blast
    have joined: "package_joined h path s \<longleftrightarrow> (\<forall>p. pkg = Some p \<longrightarrow> (\<forall>q \<in> package_files h path. joined h p q s))" for s
      using ast file_ast_unique [OF ast(1)] unfolding package_joined_def by metis
    show ?thesis
    proof (cases pkg)
      case None
      then show ?thesis by (auto intro: runs_ret simp: joined)
    next
      case (Some p)
      let ?J = "\<lambda>ys s. (inv h path UNIV s \<and> u_path ` set (cs_units s) \<subseteq> insert path (set ys) \<and> merged path (cs_units s)) \<and>
        (\<forall>q \<in> set ys. joined h p q s)"
      have step: "runs E (?J ys) (load_package_file h path p q) (\<lambda>_. ?J (ys @ [q]))"
        if c: "collect_afns_files_in_dir h (path_dirname path) = Some (ys @ q # zs)" for ys q zs
      proof -
        have "q \<in> package_files h path" "sane_dirs h \<longrightarrow> q \<notin> set ys"
          using c distinct_collected [of h, OF _ c] by (auto simp: package_files_def)
        from runs_frame [OF runs_package_file [OF ast(1) ast(2) [unfolded Some] this]
            stable_all [OF stable_joined [of h p], of "set ys"]]
        show ?thesis by (rule runs_conseq) auto
      qed
      have "runs E (\<lambda>s. ?P s \<and> Option.bind (u_ast (cs_units s ! 0)) program_package = pkg)
          (for_each (load_package_file h path p) ps) ?Q"
        if c: "collect_afns_files_in_dir h (path_dirname path) = Some ps" for ps
        by (rule runs_conseq [OF runs_each [where J = ?J and xs = ps]])
          (use step c in \<open>auto simp: joined Some package_files_def\<close>)
      then show ?thesis
        by (auto simp: Some collect_package_files_def dbind_def runs_def give_up_def dret_def split: option.splits)
    qed
  qed
  then have "runs E ?P (load_package h path) ?Q"
    unfolding load_package_def by (rule runs_get)
  from runs_frame [OF this stable_conj [OF stable_merged [of path] stable_named [of 0 path]]]
  show ?thesis by (rule runs_pre) auto
qed

text \<open>The loop over the units ends when each has been visited.\<close>

definition bounded_files :: "nat \<Rightarrow> bool" where
  "bounded_files m \<longleftrightarrow> sane_dirs h \<and> finite (Collect (reached h path)) \<and> card (Collect (reached h path)) < m"

lemma runs_all_imports:
  assumes "E Endless \<or> packaged h path \<and> 128 \<le> n \<and> bounded_files (k + i)"
  shows "runs E (\<lambda>s. inv h path {i..} s \<and> i \<le> length (cs_units s)) (load_all_imports k n h i) (\<lambda>_. inv h path {})"
  using assms
proof (induction k arbitrary: i)
  case 0
  then have "E Endless" if "inv h path {i..} s" "i \<le> length (cs_units s)" for s
    using that units_bounded [of h path "{i..}" s] by (auto simp: bounded_files_def)
  then show ?case by (auto intro: runs_crash)
next
  case (Suc k)
  show ?case
    unfolding load_all_imports.simps
  proof (rule runs_get)
    fix us
    let ?P = "\<lambda>s. (inv h path {i..} s \<and> i \<le> length (cs_units s)) \<and> cs_units s = us"
    show "runs E ?P (if i \<ge> length us then dret ()
       else dbind (if u_include (us ! i) then load_imports_recursive n h [] i else dret ()) (\<lambda>_. load_all_imports k n h (i + 1)))
       (\<lambda>_. inv h path {})"
    proof (cases "i \<ge> length us")
      case True
      then show ?thesis by (auto intro!: runs_ret simp: inv_def units_ok_def)
    next
      case False
      have "runs E ?P (if u_include (us ! i) then load_imports_recursive n h [] i else dret ())
         (\<lambda>_ s. inv h path {i + 1..} s \<and> unit_at i (us ! i) s)"
      proof (cases "u_include (us ! i)")
        case True
        have "loads (load_imports_recursive n h [])"
          by (rule runs_imports) (use Suc.prems in auto)
        then have "runs E (\<lambda>s. inv h path {i..} s \<and> i < length (cs_units s) \<and> u_include (cs_units s ! i))
            (load_imports_recursive n h [] i) (\<lambda>_. inv h path ({i..} - {i}))"
          unfolding loads_def by blast
        from runs_frame [OF this stable_unit_at [of i "us ! i"]] show ?thesis
          unfolding if_P [OF True]
          by (rule runs_conseq) (use False True in \<open>auto simp: unit_at_def elim!: inv_mono\<close>)
      next
        case excluded: False
        have "inv h path {i + 1..} s" if "?P s" for s
          using that excluded unfolding inv_def units_ok_def by (auto simp: not_less_eq_eq Suc_le_eq nat_less_le)
        with excluded False show ?thesis by (auto intro!: runs_ret simp: unit_at_def)
      qed
      moreover have "runs E (\<lambda>s. inv h path {i + 1..} s \<and> unit_at i (us ! i) s) (load_all_imports k n h (i + 1))
          (\<lambda>_. inv h path {})"
        by (rule runs_pre [OF Suc.IH]) (use Suc.prems in \<open>auto simp: unit_at_def\<close>)
      ultimately show ?thesis using False by (auto intro: runs_bind)
    qed
  qed
qed

text \<open>What holds once all files are loaded.\<close>

definition all_loaded :: "compile_state \<Rightarrow> bool" where
  "all_loaded s \<longleftrightarrow> inv h path {} s \<and> package_joined h path s \<and> merged path (cs_units s) \<and> named 0 path s"

lemma runs_program:
  assumes "E Endless \<or> packaged h path \<and> 128 \<le> n \<and> bounded_files n"
  shows "runs E (\<lambda>s. s = compile_state_init (path_dirname path)) (load_program n h path)
    (\<lambda>prog s. prog = merge_package_program (cs_units s) \<and> all_loaded s)"
proof -
  let ?in = "\<lambda>s. u_path ` set (cs_units s) \<subseteq> {path}" and ?at = "\<lambda>s. merged path (cs_units s) \<and> named 0 path s"
  have push: "runs E (\<lambda>s. s = compile_state_init (path_dirname path)) (push_source_unit path)
      (\<lambda>_ s. pending h path UNIV path 0 s \<and> ?in s)"
    unfolding push_source_unit_def
    by (rule runs_set)
      (auto simp: grows_def compile_state_init_def pending_def framed_def cap_ok_def units_ok_def)
  have mark: "runs E (\<lambda>s. inv h path UNIV s \<and> named 0 path s \<and> ?in s) (set_unit 0 (\<lambda>u. u\<lparr>u_include := True\<rparr>))
      (\<lambda>_ s. inv h path UNIV s \<and> ?in s \<and> ?at s)"
    unfolding set_unit_def
  proof (rule runs_set)
    fix s assume s: "inv h path UNIV s \<and> named 0 path s \<and> ?in s"
    let ?s = "s\<lparr>cs_units := (cs_units s)[0 := (cs_units s ! 0)\<lparr>u_include := True\<rparr>]\<rparr>"
    have "grows s ?s" by (rule grows_update) (simp add: extends_unit_def)
    moreover have "merged path (cs_units ?s)"
      unfolding merged_def using s by (intro bexI [of _ "cs_units ?s ! 0"]) (auto simp: named_def intro: set_update_memI)
    moreover have "?in ?s"
      using s by (auto simp: named_def dest!: subsetD [OF set_update_subset_insert])
    ultimately show "grows s ?s \<and> inv h path UNIV ?s \<and> ?in ?s \<and> ?at ?s"
      using s inv_include [of h path UNIV s 0] included_entry by (auto simp: named_def)
  qed
  have "runs E (\<lambda>s. inv h path {0..} s \<and> 0 \<le> length (cs_units s)) (load_all_imports n n h 0) (\<lambda>_. inv h path {})"
    by (rule runs_all_imports) (use assms in simp)
  from runs_frame [OF this stable_conj [OF stable_package_joined [of h path]
        stable_conj [OF stable_merged [of path] stable_named [of 0 path]]]]
  have "runs E (\<lambda>s. (inv h path UNIV s \<and> package_joined h path s) \<and> ?at s) (load_all_imports n n h 0) (\<lambda>_. all_loaded)"
    by (rule runs_conseq) (auto simp: all_loaded_def elim: inv_mono)
  then have rest: "runs E (\<lambda>s. (inv h path UNIV s \<and> package_joined h path s) \<and> ?at s)
      (dbind (load_all_imports n n h 0) (\<lambda>_. dget cs_units (\<lambda>us. dret (merge_package_program us))))
      (\<lambda>prog s. prog = merge_package_program (cs_units s) \<and> all_loaded s)"
    by (rule runs_bind) (auto intro!: runs_get runs_ret)
  show ?thesis
    unfolding load_program_def
    by (rule runs_bind [OF push], rule runs_bind [OF runs_load [OF reached_entry]], rule runs_bind [OF mark],
        rule runs_bind [OF runs_package rest])
qed

lemma merged_iff_included:
  assumes "all_loaded s"
  shows "merged p (cs_units s) \<longleftrightarrow> included h path p"
proof
  assume "merged p (cs_units s)"
  with assms show "included h path p"
    by (auto simp: merged_def all_loaded_def inv_def units_ok_def unit_ok_def)
next
  assume "included h path p"
  then show "merged p (cs_units s)"
  proof induction
    case included_entry
    with assms show ?case by (simp add: all_loaded_def)
  next
    case (included_package ast pkg p ast')
    with assms show ?case by (auto simp: all_loaded_def package_joined_def joined_def)
  next
    case (included_import p ast q)
    then obtain i where i: "i < length (cs_units s)" "u_path (cs_units s ! i) = p" "u_include (cs_units s ! i)"
      by (auto simp: merged_def in_set_conv_nth)
    with assms have "unit_ok h path (cs_units s) (cs_units s ! i)" "u_loaded (cs_units s ! i)"
      by (auto simp: all_loaded_def inv_def units_ok_def)
    with i(2) included_import.hyps(2,3) show ?case
      by (auto simp: unit_ok_def dest: file_ast_unique)
  qed
qed

end

subsection \<open>The faults of the front end\<close>

definition tolerated :: "nat \<Rightarrow> host \<Rightarrow> string \<Rightarrow> driver_fault \<Rightarrow> bool" where
  "tolerated n h path e = (case e of
     StaleUnit \<Rightarrow> \<not> few_files h path
   | Endless \<Rightarrow> \<not> (packaged h path \<and> 128 \<le> n \<and> sane_dirs h \<and> finite (Collect (reached h path)) \<and>
       card (Collect (reached h path)) < n)
   | DirectoryRead \<Rightarrow> path_is_dir h path
   | ParserFault _ \<Rightarrow> True
   | CheckerFault _ \<Rightarrow> False)"

interpretation front_end: import_walk h path "tolerated n h path" for h path n
  by unfold_locales (simp_all add: tolerated_def)

lemma load_program_outcome:
  "runs (tolerated n h path) (\<lambda>s. s = compile_state_init (path_dirname path)) (load_program n h path)
     (\<lambda>prog s. prog = merge_package_program (cs_units s) \<and> front_end.all_loaded h path s)"
  by (rule front_end.runs_program) (auto simp: tolerated_def front_end.bounded_files_def)

lemma compile_source_faults: "compile_source n h path = Inl e \<Longrightarrow> tolerated n h path e \<or> (\<exists>f. e = CheckerFault f)"
  using load_program_outcome [of n h path]
  by (auto simp: compile_source_def dbind_def runs_def analyse_program_def print_diags_def say_def dset_def dret_def
      give_up_def crash_def split: sum.splits prod.splits option.splits if_splits)

end
