(* ===== verification/Driver_Examples.thy ===== *)
theory Driver_Examples
  imports Driver_Program
begin

text \<open>
  Two small projects that the front end does not survive: an import circle without packages, and a
  directory of eight files whose import moves the array of units.
\<close>

definition host_of :: "(string \<times> entry) list \<Rightarrow> host" where
  "host_of fs = \<lparr>files = map_of fs, stdlib = None\<rparr>"

definition program_of :: "node list \<Rightarrow> node" where
  "program_of imps = Node 1 1 (NODE_PROGRAM None imps [])"

lemma parses:
  "parse_source p [] s = Inr (Some (program_of []), s)"
  "parse_source p ''import m;'' s = Inr (Some (program_of [Node 1 1 (NODE_IMPORT ''m'')]), s)"
  "parse_source p ''import p;'' s = Inr (Some (program_of [Node 1 1 (NODE_IMPORT ''p'')]), s)"
  by code_simp+

lemma program_of_simps [simp]: "program_package (program_of imps) = None" "program_imports (program_of imps) = imps"
    "package_stack (program_of imps) = []"
  by (simp_all add: program_of_def program_package_def program_imports_def package_stack_def)

lemmas drv_defs = dbind_def dret_def dget_def dset_def set_unit_def give_up_def crash_def

subsection \<open>A circle\<close>

text \<open>The file \<^verbatim>\<open>m.afns\<close> holds \<^verbatim>\<open>import m;\<close>.\<close>

definition circle :: host where
  "circle = host_of [(''./m.afns'', File ''import m;'')]"

definition circle_unit :: "bool \<Rightarrow> source_unit" where
  "circle_unit b = \<lparr>u_path = ''./m.afns'', u_source = Some ''import m;'',
     u_ast = Some (program_of [Node 1 1 (NODE_IMPORT ''m'')]), u_include = b, u_loaded = False\<rparr>"

lemma circle_resolves: "resolve_import_files circle ''.'' ''m'' = Some [''./m.afns'']"
  by code_simp

lemma circle_imports:
  assumes "cs_units s = [circle_unit True]" "cs_root s = ''.''"
  shows "load_imports_recursive n circle [] 0 s = Inl Endless"
  using assms
proof (induction n arbitrary: s)
  case (Suc n)
  have "find_source_unit_index ''./m.afns'' s = Some 0"
    using Suc.prems by (simp add: find_source_unit_index_def index_from_def circle_unit_def)
  with Suc show ?case
    by (simp add: load_imports_of_def circle_unit_def drv_defs load_import_def still_def import_path_def
        circle_resolves load_imported_def)
qed (simp add: crash_def)

lemma circle_endless: "compile_source n circle ''./m.afns'' = Inl Endless"
proof -
  have "path_dirname ''./m.afns'' = ''.''" by code_simp
  moreover have "files circle ''./m.afns'' = Some (File ''import m;'')" by (simp add: circle_def host_of_def)
  moreover have "c_string ''import m;'' = ''import m;''" by code_simp
  moreover have "load_all_imports n n circle 0 s = Inl Endless"
    if "cs_units s = [circle_unit True]" "cs_root s = ''.''" for s
    using circle_imports [OF that, of n] that
    by (cases n) (simp_all add: drv_defs circle_unit_def)
  ultimately show ?thesis
    by (simp add: compile_source_def load_program_def drv_defs push_source_unit_def compile_state_init_def
        load_source_unit_def read_file_def parses load_package_def circle_unit_def)
qed

subsection \<open>Nine files\<close>

text \<open>The file \<^verbatim>\<open>m.afns\<close> imports the directory \<^verbatim>\<open>p\<close>, which has eight empty files.\<close>

definition eight :: "string list" where
  "eight = map (\<lambda>c. ''./p/'' @ c # ''.afns'') ''abcdefgh''"

definition crowd :: host where
  "crowd = host_of ((''./m.afns'', File ''import p;'') # (''./p'', Directory (map (\<lambda>c. c # ''.afns'') ''abcdefgh''))
     # map (\<lambda>p. (p, File [])) eight)"

definition empty_unit :: "string \<Rightarrow> source_unit" where
  "empty_unit p = \<lparr>u_path = p, u_source = Some [], u_ast = Some (program_of []), u_include = True, u_loaded = True\<rparr>"

lemma crowd_resolves: "resolve_import_files crowd ''.'' ''p'' = Some eight"
  by code_simp

lemma load_empty:
  assumes "files crowd p = Some (File [])" "p \<notin> u_path ` set (cs_units s)"
  shows "load_imported crowd (load_imports_recursive (Suc n) crowd []) p s =
    Inr (Some (), s\<lparr>cs_units := cs_units s @ [empty_unit p],
      cs_cap := (if length (cs_units s) = cs_cap s then (if cs_cap s = 0 then 8 else 2 * cs_cap s) else cs_cap s)\<rparr>)"
proof -
  have "find_source_unit_index p s = None"
    using assms(2) by (auto simp: find_source_unit_index_def index_from_def find_None_iff in_set_enumerate_eq)
  with assms(1) show ?thesis
    by (simp add: load_imported_def drv_defs push_source_unit_def load_source_unit_def read_file_def parses
        load_imports_of_def still_def empty_unit_def list_update_append nth_append c_string_def)
qed

lemma crowd_each:
  assumes "set ps \<subseteq> set eight" "distinct ps" "u_path ` set (cs_units s) \<inter> set ps = {}" "0 < length (cs_units s)"
    and "length (cs_units s) \<le> 8" "cs_cap s = 8" "length (cs_units s) + length ps = 9"
  shows "\<exists>s'. for_each (load_imported crowd (load_imports_recursive (Suc n) crowd [])) ps s = Inr (Some (), s') \<and> cs_cap s' = 16"
  using assms
proof (induction ps arbitrary: s)
  case (Cons p ps)
  have "files crowd q = Some (File [])" if "q \<in> set eight" for q
    using that by (auto simp: crowd_def host_of_def eight_def)
  with Cons.prems have "files crowd p = Some (File [])" "p \<notin> u_path ` set (cs_units s)" by auto
  note load = load_empty [OF this, of n]
  show ?case
  proof (cases ps)
    case Nil
    with Cons.prems load show ?thesis by (simp add: dbind_def dret_def del: load_imports_recursive.simps)
  next
    case (Cons q qs)
    let ?s = "s\<lparr>cs_units := cs_units s @ [empty_unit p], cs_cap := 8\<rparr>"
    have "\<exists>s'. for_each (load_imported crowd (load_imports_recursive (Suc n) crowd [])) ps ?s = Inr (Some (), s') \<and> cs_cap s' = 16"
      by (rule Cons.IH) (use Cons.prems Cons in \<open>auto simp: empty_unit_def\<close>)
    with load Cons Cons.prems show ?thesis by (simp add: dbind_def del: load_imports_recursive.simps)
  qed
qed simp

definition crowd_unit :: source_unit where
  "crowd_unit = \<lparr>u_path = ''./m.afns'', u_source = Some ''import p;'',
     u_ast = Some (program_of [Node 1 1 (NODE_IMPORT ''p'')]), u_include = True, u_loaded = False\<rparr>"

lemma crowd_imports:
  assumes "cs_units s = [crowd_unit]" "cs_root s = ''.''" "cs_cap s = 8"
  shows "load_imports_recursive (Suc (Suc n)) crowd [] 0 s = Inl StaleUnit"
proof -
  have "set eight \<subseteq> set eight" "distinct eight" "u_path ` set (cs_units s) \<inter> set eight = {}" "length eight = 8"
    using assms(1) by (auto simp: eight_def crowd_unit_def)
  then obtain s' where "for_each (load_imported crowd (load_imports_recursive (Suc n) crowd [])) eight s = Inr (Some (), s')"
      "cs_cap s' = 16"
    using crowd_each [of eight s n] assms by auto
  then show ?thesis
    using assms
    by (subst load_imports_recursive.simps)
      (simp add: load_imports_of_def crowd_unit_def drv_defs load_import_def still_def import_path_def crowd_resolves
        del: load_imports_recursive.simps)
qed

lemma crowd_stale: "compile_source (Suc (Suc n)) crowd ''./m.afns'' = Inl StaleUnit"
proof -
  have "path_dirname ''./m.afns'' = ''.''" by code_simp
  moreover have "files crowd ''./m.afns'' = Some (File ''import p;'')" by (simp add: crowd_def host_of_def)
  moreover have "c_string ''import p;'' = ''import p;''" by code_simp
  moreover have "load_all_imports (Suc (Suc n)) (Suc (Suc n)) crowd 0 s = Inl StaleUnit"
    if "cs_units s = [crowd_unit]" "cs_root s = ''.''" "cs_cap s = 8" for s
    using crowd_imports [OF that, of n] that
    by (subst load_all_imports.simps) (simp add: drv_defs crowd_unit_def del: load_imports_recursive.simps)
  ultimately show ?thesis
    by (simp add: compile_source_def load_program_def drv_defs push_source_unit_def compile_state_init_def
        load_source_unit_def read_file_def parses load_package_def crowd_unit_def
        del: load_imports_recursive.simps load_all_imports.simps)
qed

end
