(* ===== verification/Driver_Props.thy ===== *)
theory Driver_Props
  imports Driver_Examples
begin

text \<open>
  The properties of the loading of a program: what is merged, when the traversal returns, and when the
  array of units is used after it has moved.
\<close>

subsection \<open>A project of one file\<close>

definition solo :: host where
  "solo = host_of [(''./m.afns'', File ''package m;''), (''.'', Directory [''m.afns''])]"

definition solo_ast :: node where
  "solo_ast = Node 1 1 (NODE_PROGRAM (Some (Node 1 1 (NODE_PACKAGE ''m''))) [] [])"

lemma file_ast_parse:
  assumes "files h p = Some (File t)" "parse_source p (c_string t) s = Inr (Some a, s)"
  shows "file_ast h p b \<longleftrightarrow> b = a"
  using assms
  by (auto simp: file_ast_def parse_source_def dret_def give_up_def crash_def
      split: sum.splits outcome.splits option.splits)

lemma solo_file: "file_ast solo ''./m.afns'' ast \<longleftrightarrow> ast = solo_ast"
proof (rule file_ast_parse)
  show "files solo ''./m.afns'' = Some (File ''package m;'')" by (simp add: solo_def host_of_def)
  show "parse_source ''./m.afns'' (c_string ''package m;'') s = Inr (Some solo_ast, s)" for s
    by code_simp
qed

lemma solo_reached: "reached solo ''./m.afns'' p \<Longrightarrow> p = ''./m.afns''"
proof (induction rule: reached.induct)
  case (reached_package ast pkg p)
  have "package_files solo ''./m.afns'' = {''./m.afns''}" by code_simp
  with reached_package show ?case by simp
next
  case (reached_import p ast q)
  then have "file_ast solo ''./m.afns'' ast" by simp
  then have "ast = solo_ast" using solo_file by simp
  with reached_import.hyps show ?case
    by (simp add: imports_file_def solo_ast_def program_imports_def)
qed simp

lemma solo_files: "Collect (reached solo ''./m.afns'') = {''./m.afns''}"
  using solo_reached reached_entry by blast

lemma solo_facts: "sane_dirs solo" "packaged solo ''./m.afns''" "few_files solo ''./m.afns''"
proof -
  show sane: "sane_dirs solo"
    by (auto simp: sane_dirs_def solo_def host_of_def split: if_splits)
  show "few_files solo ''./m.afns''"
    unfolding few_files_def solo_files using sane by simp
  have "program_package ast \<noteq> None" if "reached solo ''./m.afns'' p" "file_ast solo p ast" for p ast
    using that solo_reached [OF that(1)] solo_file by (simp add: solo_ast_def program_package_def)
  then show "packaged solo ''./m.afns''" by (simp add: packaged_def)
qed

subsection \<open>Properties\<close>

text \<open>C4: The program that an accepted compilation returns is the merge of exactly the files that belong
  to it: the entry file first, the files of the directory that have its package, and whatever these
  import, and their imports in turn; each unit is the parse of its file, and no file is taken twice.\<close>

theorem accepted_merges_reachable:
  assumes "compile_source n h path = Inr (Some prog, ms)"
  shows "\<exists>us. prog = merge_package_program us \<and> us \<noteq> [] \<and> u_path (us ! 0) = path \<and>
    u_path ` {u \<in> set us. u_include u} = Collect (included h path) \<and>
    (\<forall>u \<in> set us. \<exists>ast. u_ast u = Some ast \<and> file_ast h (u_path u) ast) \<and>
    (sane_dirs h \<longrightarrow> distinct (map u_path us))"
proof -
  from assms obtain s where "load_program n h path (compile_state_init (path_dirname path)) = Inr (Some prog, s)"
    by (auto simp: compile_source_def dbind_def analyse_program_def print_diags_def say_def dset_def dret_def
        give_up_def crash_def split: sum.splits prod.splits option.splits if_splits)
  with load_program_outcome [of n h path]
  have prog: "prog = merge_package_program (cs_units s)" and s: "front_end.all_loaded h path s"
    by (auto simp: runs_def)
  have "u_path ` {u \<in> set (cs_units s). u_include u} = {p. merged p (cs_units s)}"
    by (auto simp: merged_def)
  also have "\<dots> = Collect (included h path)"
    using front_end.merged_iff_included [OF s] by simp
  finally show ?thesis
    using prog s by (intro exI [of _ "cs_units s"])
      (auto simp: front_end.all_loaded_def inv_def framed_def units_ok_def unit_ok_def named_def)
qed

text \<open>Two files: \<^verbatim>\<open>m.afns\<close> imports \<^verbatim>\<open>n.afns\<close>.\<close>

definition duo :: host where
  "duo = host_of [(''m.afns'', File ''package m; import n;''), (''./n.afns'', File ''package n;''), (''.'', Directory [])]"

definition duo_import :: node where
  "duo_import = Node 1 12 (NODE_IMPORT ''n'')"

definition duo_program :: node where
  "duo_program = Node 1 1 (NODE_PROGRAM (Some (Node 1 1 (NODE_PACKAGE ''m''))) [duo_import] [])"

lemma duo_accepted: "compile_source 3 duo ''m.afns'' = Inr (Some duo_program, [])"
  by code_simp

lemma duo_file: "file_ast duo ''m.afns'' duo_program"
proof -
  have "files duo ''m.afns'' = Some (File ''package m; import n;'')" by (simp add: duo_def host_of_def)
  moreover have "parse_source ''m.afns'' (c_string ''package m; import n;'') s = Inr (Some duo_program, s)" for s
    by code_simp
  ultimately show ?thesis using file_ast_parse by blast
qed

theorem accepted_merges_reachable_witness:
  "\<exists>us. duo_program = merge_package_program us \<and> us \<noteq> [] \<and>
    u_path ` {u \<in> set us. u_include u} = Collect (included duo ''m.afns'')"
  using accepted_merges_reachable [OF duo_accepted] by blast

text \<open>C20: Loading is not cut off by the bound on its calls, circular imports or not, if finitely many files are
  reached, all of them have a package, and no directory lists a name twice; a bound of 128, the limit on the stack
  of imports, and more than the number of files is enough. Then loading ends with a program or a rejection,
  unless behaviour is undefined: the use of a unit after the array has moved, which takes more than eight
  files; a read of the entry file where that is a directory; a read by the parser past its tokens.\<close>

theorem loading_returns:
  assumes "finite (Collect (reached h path))" "card (Collect (reached h path)) < n" "128 \<le> n"
    and "packaged h path" "sane_dirs h"
  shows "compile_source n h path \<noteq> Inl Endless \<and>
    (case load_program n h path (compile_state_init (path_dirname path)) of
       Inr r \<Rightarrow> True
     | Inl e \<Rightarrow> e = StaleUnit \<and> \<not> few_files h path \<or> e = DirectoryRead \<and> path_is_dir h path \<or>
         (\<exists>f. e = ParserFault f))"
proof
  show "compile_source n h path \<noteq> Inl Endless"
    using compile_source_faults [of n h path Endless] assms by (auto simp: tolerated_def)
  have "tolerated n h path e" if "load_program n h path (compile_state_init (path_dirname path)) = Inl e" for e
    using load_program_outcome [of n h path] that by (auto simp: runs_def)
  moreover have "e = StaleUnit \<and> \<not> few_files h path \<or> e = DirectoryRead \<and> path_is_dir h path \<or> (\<exists>f. e = ParserFault f)"
    if "tolerated n h path e" for e
    using that assms by (auto simp: tolerated_def split: driver_fault.splits)
  ultimately show "case load_program n h path (compile_state_init (path_dirname path)) of
      Inr r \<Rightarrow> True
    | Inl e \<Rightarrow> e = StaleUnit \<and> \<not> few_files h path \<or> e = DirectoryRead \<and> path_is_dir h path \<or> (\<exists>f. e = ParserFault f)"
    by (auto split: sum.split)
qed

theorem loading_returns_witness:
  "compile_source 128 solo ''./m.afns'' \<noteq> Inl Endless \<and>
    load_program 128 solo ''./m.afns'' (compile_state_init ''.'') \<noteq> Inl StaleUnit"
proof -
  have "path_dirname ''./m.afns'' = ''.''" by code_simp
  with loading_returns [of solo "''./m.afns''" 128] show ?thesis
    by (auto simp: solo_files solo_facts)
qed

text \<open>Without a package to recognise the circle by, circular imports are followed for ever: the file
  \<^verbatim>\<open>m.afns\<close> that holds \<^verbatim>\<open>import m;\<close> is loaded under no bound.\<close>

lemma circular_imports_never_return: "compile_source n circle ''./m.afns'' = Inl Endless"
  by (rule circle_endless)

text \<open>C21: The pointer to a unit that \<^verbatim>\<open>load_imports_recursive\<close> keeps stays valid as long as at most eight
  files are reached, the capacity the array of units begins with.\<close>

theorem few_files_stay_in_place:
  assumes "few_files h path"
  shows "compile_source n h path \<noteq> Inl StaleUnit"
  using compile_source_faults [of n h path StaleUnit] assms by (auto simp: tolerated_def)

theorem few_files_stay_in_place_witness: "compile_source 3 solo ''./m.afns'' \<noteq> Inl StaleUnit"
  by (rule few_files_stay_in_place) (rule solo_facts)

text \<open>With a ninth file the array is moved while \<^verbatim>\<open>load_imports_recursive\<close> still holds its pointer, and
  the freed memory is used: a file that imports a directory of eight empty files is enough.\<close>

lemma ninth_file_uses_freed_unit: "compile_source (Suc (Suc n)) crowd ''./m.afns'' = Inl StaleUnit"
  by (rule crowd_stale)

end
