(* ===== verification/Gen_Names.thy ===== *)
theory Gen_Names
  imports Sema_Base
begin

text \<open>
  The names the code generator \<^verbatim>\<open>compiler/src/llvmgen/llvmgen.c\<close> reads types from and gives to what it
  generates: the component types of \<^verbatim>\<open>Option[...]\<close> and \<^verbatim>\<open>Result[...]\<close>, and the symbols of instances of
  generic functions and structs.
\<close>

subsection \<open>Type names\<close>

definition lg_type_form :: "string \<Rightarrow> string \<Rightarrow> bool" where
  "lg_type_form s pfx \<longleftrightarrow>
     length s > length pfx + 1 \<and> take (length pfx) s = pfx \<and>
     s ! length pfx = CHR ''['' \<and> s ! (length s - 1) = CHR '']''"

definition lg_extract_inner :: "string \<Rightarrow> string option" where
  "lg_extract_inner s =
     (case (strchr s (CHR ''[''), strrchr s (CHR '']'')) of
        (Some lb, Some rb) \<Rightarrow> if rb \<le> lb + 1 then None else Some (substr s (lb + 1) (rb - lb - 1))
      | _ \<Rightarrow> None)"

text \<open>\<open>seen\<close> is the text before the comma, reversed.\<close>

fun split_comma_from :: "string \<Rightarrow> int \<Rightarrow> string \<Rightarrow> (string \<times> string) option" where
  "split_comma_from seen depth [] = None"
| "split_comma_from seen depth (c # cs) =
     (if c = CHR ''['' then split_comma_from (c # seen) (depth + 1) cs
      else if c = CHR '']'' then split_comma_from (c # seen) (depth - 1) cs
      else if c = CHR '','' \<and> depth = 0 then Some (rev seen, cs)
      else split_comma_from (c # seen) depth cs)"

definition lg_split_comma :: "string \<Rightarrow> (string \<times> string) option" where
  "lg_split_comma s = split_comma_from [] 0 s"

definition lg_is_signed :: "string \<Rightarrow> bool" where
  "lg_is_signed s \<longleftrightarrow> s \<in> {''i8'', ''i16'', ''i32'', ''i64'', ''isize'', ''char''}"

subsection \<open>Symbols\<close>

abbreviation underscore :: char where
  "underscore \<equiv> CHR 0x5F"

definition symbol_char :: "char \<Rightarrow> char" where
  "symbol_char c = (if isalnum c then c else underscore)"

text \<open>\<^verbatim>\<open>while (len > 0 && out[len-1]=='_') out[--len]='\0'\<close>.\<close>

definition drop_underscores :: "string \<Rightarrow> string" where
  "drop_underscores s = rev (dropWhile (\<lambda>c. c = underscore) (rev s))"

text \<open>The buffer has \<open>sz\<close> bytes, 256 in every call.\<close>

definition lg_mangle :: "nat \<Rightarrow> string \<Rightarrow> string option \<Rightarrow> string" where
  "lg_mangle sz base type_arg =
     (let b = take (sz - 2) base in
      drop_underscores
        (case type_arg of
           Some t \<Rightarrow>
             if length b < sz - 2 then
               b @ underscore # take (sz - 2 - (length b + 1)) (map symbol_char t)
             else b
         | None \<Rightarrow> b))"

definition lg_sanitize :: "nat \<Rightarrow> string \<Rightarrow> string" where
  "lg_sanitize sz s = drop_underscores (take (sz - 1) (map symbol_char s))"

definition lg_tmp_name :: "nat \<Rightarrow> string" where
  "lg_tmp_name counter = ''__nst'' @ show_nat counter"

subsection \<open>What the names mean\<close>

text \<open>\<open>Option[t]\<close> and \<open>Result[t]\<close> give back \<open>t\<close>, and the comma is the one the front end splits at.\<close>

lemma lg_type_form_eq: "lg_type_form s pfx \<longleftrightarrow> type_name_has_form s pfx"
  by (auto simp: lg_type_form_def type_name_has_form_def c_at_def)

lemma strrchr_last: "strrchr (s @ [c]) c = Some (length s)"
  using strrchr_append [of c "[]" s] by simp

lemma lg_extract_inner_form:
  assumes "CHR ''['' \<notin> set p" "t \<noteq> []"
  shows "lg_extract_inner (p @ ''['' @ t @ '']'') = Some t"
proof -
  have "strrchr ((p @ CHR ''['' # t) @ [CHR '']'']) (CHR '']'') = Some (length p + 1 + length t)"
    by (subst strrchr_last) simp
  moreover have "strchr (p @ CHR ''['' # (t @ [CHR '']''])) (CHR ''['') = Some (length p)"
    using assms(1) by (rule strchr_append)
  ultimately show ?thesis
    using assms(2) by (simp add: lg_extract_inner_def substr_def)
qed

lemma split_comma_from_eq:
  "split_comma_from seen d s = map_option (\<lambda>i. (rev seen @ take i s, drop (i + 1) s)) (top_level_comma d s)"
  by (induction s arbitrary: seen d) (auto simp: option.map_comp o_def)

lemma lg_split_comma_eq: "lg_split_comma s = split_top_level_comma s"
  by (simp add: lg_split_comma_def split_comma_from_eq split_top_level_comma_def)

text \<open>Mangled symbols of plain names can be told apart.\<close>

lemma drop_underscores_id: "s \<noteq> [] \<Longrightarrow> last s \<noteq> underscore \<Longrightarrow> drop_underscores s = s"
  by (cases s rule: rev_cases) (auto simp: drop_underscores_def)

lemma symbol_char_alnum: "isalnum c \<Longrightarrow> symbol_char c = c"
  by (simp add: symbol_char_def)

definition plain :: "string \<Rightarrow> bool" where
  "plain s \<longleftrightarrow> s \<noteq> [] \<and> (\<forall>c \<in> set s. isalnum c)"

lemma plain_no_underscore: "plain s \<Longrightarrow> underscore \<notin> set s"
  by (auto simp: plain_def ctype_defs)

lemma lg_mangle_plain:
  assumes "plain b" "plain t" "length b + length t + 3 \<le> sz"
  shows "lg_mangle sz b (Some t) = b @ underscore # t"
proof -
  have "map symbol_char t = t"
    using assms(2) by (auto simp: plain_def symbol_char_alnum intro: map_idI)
  moreover have "last t \<noteq> underscore" "t \<noteq> []"
    using assms(2) plain_no_underscore [OF assms(2)] last_in_set [of t] by (metis plain_def)+
  ultimately show ?thesis
    using assms(3) by (simp add: lg_mangle_def Let_def drop_underscores_id)
qed

end
