(* ===== verification/Gen_Base.thy ===== *)
theory Gen_Base
  imports Gen_Names Typeck_Base
begin

text \<open>
  The state of the code generator \<^verbatim>\<open>compiler/src/llvmgen/llvmgen.c\<close> and its small operations: scopes,
  registries, generic instances and the lookups in the program. The LLVM library is a parameter: a
  record of the functions the generator calls, over abstract types \<open>'t\<close> of LLVM types, \<open>'v\<close> of values,
  \<open>'b\<close> of basic blocks and \<open>'m\<close> of what the library keeps (context, module, builder).
\<close>

subsection \<open>The interface to LLVM\<close>

datatype type_kind =
    VoidTypeKind | IntegerTypeKind | FloatTypeKind | DoubleTypeKind | PointerTypeKind | StructTypeKind | OtherTypeKind

datatype binary_op =
    OpAdd | OpSub | OpMul | OpSDiv | OpUDiv | OpSRem | OpURem | OpFAdd | OpFSub | OpFMul | OpFDiv | OpFRem
  | OpAnd | OpOr | OpXor | OpShl | OpAShr | OpLShr

datatype cast_op =
    CastSExt | CastZExt | CastTrunc | CastFPExt | CastFPTrunc | CastSIToFP | CastUIToFP | CastFPToSI | CastFPToUI
  | CastPointer | CastIntToPtr | CastPtrToInt | CastBit

datatype predicate =
    IntEQ | IntNE | IntSLT | IntSLE | IntSGT | IntSGE | IntULT | IntULE | IntUGT | IntUGE
  | RealOEQ | RealONE | RealOLT | RealOLE | RealOGT | RealOGE

text \<open>
  The calls that change what the library keeps, with their arguments: \<open>Build...\<close> are the functions
  \<^verbatim>\<open>LLVMBuild...\<close> at the position of the builder.
\<close>

datatype ('t, 'v, 'b) llvm_call =
    BuildAlloca 't string
  | BuildLoad 't 'v string
  | BuildStore 'v 'v
  | BuildGlobalString string string
  | BuildExtractValue 'v nat string
  | BuildInsertValue 'v 'v nat string
  | BuildBinary binary_op 'v 'v string
  | BuildNeg 'v string
  | BuildFNeg 'v string
  | BuildNot 'v string
  | BuildCast cast_op 'v 't string
  | BuildCmp predicate 'v 'v string
  | BuildGEP 't 'v "'v list" string
  | BuildStructGEP 't 'v nat string
  | BuildCall 't 'v "'v list" string
  | BuildPhi 't "('v \<times> 'b option) list" string
  | BuildBr 'b
  | BuildCondBr 'v 'b 'b
  | BuildRet 'v
  | BuildRetVoid
  | PositionAtEnd 'b
  | AddFunction string 't
  | AddGlobal 't string
  | SetInitializer 'v 'v
  | SetGlobalConstant 'v
  | SetExternal 'v
  | SetInternal 'v
  | SetValueName 'v string

record ('t, 'v, 'b, 'm) llvm =
  void_type :: 't
  int_type :: "nat \<Rightarrow> 't"
  float_type :: 't
  double_type :: 't
  pointer_type :: 't
  array_type :: "'t \<Rightarrow> nat \<Rightarrow> 't"
  struct_type :: "'t list \<Rightarrow> 't"
  function_type :: "'t \<Rightarrow> 't list \<Rightarrow> 't"
  named_struct :: "string \<Rightarrow> 't list \<Rightarrow> bool \<Rightarrow> 'm \<Rightarrow> 't \<times> 'm"
  kind_of :: "'t \<Rightarrow> type_kind"
  int_width :: "'t \<Rightarrow> nat"
  store_size :: "'t \<Rightarrow> nat"
  return_type :: "'t \<Rightarrow> 't"
  param_types :: "'t \<Rightarrow> 't list"
  field_type :: "'t \<Rightarrow> nat \<Rightarrow> 't"
  type_of :: "'v \<Rightarrow> 't"
  const_int :: "'t \<Rightarrow> 64 word \<Rightarrow> 'v"
  const_real :: "'t \<Rightarrow> string \<Rightarrow> 'v"
  const_null :: "'t \<Rightarrow> 'v"
  const_struct :: "'t \<Rightarrow> 'v list \<Rightarrow> 'v"
  undef_value :: "'t \<Rightarrow> 'v"
  get_param :: "'v \<Rightarrow> nat \<Rightarrow> 'v"
  append_block :: "'v option \<Rightarrow> string \<Rightarrow> 'm \<Rightarrow> 'b \<times> 'm"
  terminated :: "'b \<Rightarrow> 'm \<Rightarrow> bool"
  llvm_do :: "('t, 'v, 'b) llvm_call \<Rightarrow> 'm \<Rightarrow> 'v \<times> 'm"

subsection \<open>The state\<close>

text \<open>
  \<open>v_slot\<close> is the stack slot of a variable, \<open>v_ns\<close> its NightScript type where it is known. Of the arrays
  \<^verbatim>\<open>sub_params\<close> and \<^verbatim>\<open>sub_types\<close> only the first entry is ever written: \<open>sub_slot\<close>, whose type becomes \<open>None\<close>
  when its memory is freed; it counts while \<open>sub_count\<close> is 1. \<open>cur_bb\<close> is the variable that the functions
  pass along as \<^verbatim>\<open>cur_bb\<close>.
\<close>

record ('t, 'v) lg_var =
  v_name :: string
  v_slot :: 'v
  v_type :: 't
  v_ns :: "node option"

record ('t, 'v) lg_global =
  gl_name :: string
  gl_value :: 'v
  gl_type :: 't
  gl_ret :: "node option"

record fn_inst =
  fi_decl :: node
  fi_mangled :: string
  fi_type :: string

record struct_inst =
  si_decl :: node
  si_name :: string
  si_mangled :: string
  si_type :: string

record ('t, 'v, 'b, 'm) lg =
  lg_decls :: "node list"
  named_types :: "(string \<times> 't) list"
  lg_globals :: "('t, 'v) lg_global list"
  cur_fn :: "'v option"
  cur_bb :: "'b option"
  scope_chain :: "('t, 'v) lg_var list list"
  cur_ret_ty :: "node option"
  loop_stack :: "('b \<times> 'b) list"
  defer_stack :: "node list"
  defer_marks :: "nat list"
  tmp_counter :: nat
  gfn_decls :: "(string \<times> node) list"
  gst_decls :: "(string \<times> node) list"
  sub_slot :: "(string \<times> string option) option"
  sub_count :: nat
  gfn_insts :: "fn_inst list"
  gst_insts :: "struct_inst list"
  llvm_state :: 'm

text \<open>
  \<open>TooDeep\<close>: the bound on the nesting of calls was reached. \<open>NoArgument\<close>: the first argument of a call
  without arguments is read. \<open>LongSymbol\<close>: \<^verbatim>\<open>strncpy\<close> fills a buffer without ending it.
  \<open>FreedType\<close>: a type argument is read after it was freed.
\<close>

datatype gen_fault = TooDeep | NoArgument | LongSymbol | FreedType

type_synonym ('t, 'v, 'b, 'm, 'a) gen = "('t, 'v, 'b, 'm) lg \<Rightarrow> (gen_fault, 'a \<times> ('t, 'v, 'b, 'm) lg) sum"

definition gret :: "'a \<Rightarrow> ('t, 'v, 'b, 'm, 'a) gen" where
  "gret x g = Inr (x, g)"

definition gbind :: "('t, 'v, 'b, 'm, 'a) gen \<Rightarrow> ('a \<Rightarrow> ('t, 'v, 'b, 'm, 'c) gen) \<Rightarrow> ('t, 'v, 'b, 'm, 'c) gen" where
  "gbind m f g = (case m g of Inl e \<Rightarrow> Inl e | Inr (x, g') \<Rightarrow> f x g')"

definition gfail :: "gen_fault \<Rightarrow> ('t, 'v, 'b, 'm, 'a) gen" where
  "gfail e g = Inl e"

definition gget :: "(('t, 'v, 'b, 'm) lg \<Rightarrow> 'a) \<Rightarrow> ('a \<Rightarrow> ('t, 'v, 'b, 'm, 'c) gen) \<Rightarrow> ('t, 'v, 'b, 'm, 'c) gen" where
  "gget sel f g = f (sel g) g"

definition gset :: "(('t, 'v, 'b, 'm) lg \<Rightarrow> ('t, 'v, 'b, 'm) lg) \<Rightarrow> ('t, 'v, 'b, 'm, unit) gen" where
  "gset f g = Inr ((), f g)"

primrec gmap :: "('a \<Rightarrow> ('t, 'v, 'b, 'm, 'c) gen) \<Rightarrow> 'a list \<Rightarrow> ('t, 'v, 'b, 'm, 'c list) gen" where
  "gmap f [] = gret []"
| "gmap f (x # xs) = gbind (f x) (\<lambda>y. gbind (gmap f xs) (\<lambda>ys. gret (y # ys)))"

primrec giter :: "('a \<Rightarrow> ('t, 'v, 'b, 'm, unit) gen) \<Rightarrow> 'a list \<Rightarrow> ('t, 'v, 'b, 'm, unit) gen" where
  "giter f [] = gret ()"
| "giter f (x # xs) = gbind (f x) (\<lambda>_. giter f xs)"

definition gopt :: "('a \<Rightarrow> ('t, 'v, 'b, 'm, 'c) gen) \<Rightarrow> 'a option \<Rightarrow> ('t, 'v, 'b, 'm, 'c option) gen" where
  "gopt f x = (case x of None \<Rightarrow> gret None | Some y \<Rightarrow> gbind (f y) (\<lambda>z. gret (Some z)))"

definition gwhen :: "bool \<Rightarrow> ('t, 'v, 'b, 'm, unit) gen \<Rightarrow> ('t, 'v, 'b, 'm, unit) gen" where
  "gwhen c m = (if c then m else gret ())"

subsection \<open>Scopes\<close>

text \<open>At most 64 marks are kept; a scope below them is entered without one and still takes one away.\<close>

definition lg_push_scope :: "('t, 'v, 'b, 'm, unit) gen" where
  "lg_push_scope =
     gset (\<lambda>g. g\<lparr>scope_chain := [] # scope_chain g,
       defer_marks := (if length (defer_marks g) < 64 then length (defer_stack g) # defer_marks g else defer_marks g)\<rparr>)"

definition lg_pop_scope :: "('t, 'v, 'b, 'm, unit) gen" where
  "lg_pop_scope =
     gset (\<lambda>g. if scope_chain g = [] then g
       else g\<lparr>scope_chain := tl (scope_chain g), defer_marks := tl (defer_marks g)\<rparr>)"

definition lg_define :: "string \<Rightarrow> 'v \<Rightarrow> 't \<Rightarrow> node option \<Rightarrow> ('t, 'v, 'b, 'm, unit) gen" where
  "lg_define s slot ty ns =
     gset (\<lambda>g. case scope_chain g of
        [] \<Rightarrow> g
      | vs # scs \<Rightarrow> g\<lparr>scope_chain := (\<lparr>v_name = s, v_slot = slot, v_type = ty, v_ns = ns\<rparr> # vs) # scs\<rparr>)"

definition lg_lookup :: "('t, 'v, 'b, 'm) lg \<Rightarrow> string \<Rightarrow> ('t, 'v) lg_var option" where
  "lg_lookup g s = List.find (\<lambda>v. v_name v = s) (concat (scope_chain g))"

subsection \<open>Registries\<close>

definition lg_register_type :: "string \<Rightarrow> 't \<Rightarrow> ('t, 'v, 'b, 'm, unit) gen" where
  "lg_register_type s ty =
     gset (\<lambda>g. if length (named_types g) \<ge> 512 then g else g\<lparr>named_types := named_types g @ [(s, ty)]\<rparr>)"

definition lg_find_named_type :: "('t, 'v, 'b, 'm) lg \<Rightarrow> string \<Rightarrow> 't option" where
  "lg_find_named_type g s = map_of (named_types g) s"

definition lg_add_global :: "string \<Rightarrow> 'v \<Rightarrow> 't \<Rightarrow> node option \<Rightarrow> ('t, 'v, 'b, 'm, unit) gen" where
  "lg_add_global s v ty ret =
     gset (\<lambda>g. if length (lg_globals g) \<ge> 1024 then g
       else g\<lparr>lg_globals := lg_globals g @ [\<lparr>gl_name = s, gl_value = v, gl_type = ty, gl_ret = ret\<rparr>]\<rparr>)"

definition lg_find_global :: "('t, 'v, 'b, 'm) lg \<Rightarrow> string \<Rightarrow> ('t, 'v) lg_global option" where
  "lg_find_global g s = List.find (\<lambda>gl. gl_name gl = s) (lg_globals g)"

definition lg_subst :: "string \<Rightarrow> ('t, 'v, 'b, 'm, string option) gen" where
  "lg_subst s g =
     (case sub_slot g of
        Some (param, ty) \<Rightarrow>
          if sub_count g = 0 \<or> param \<noteq> s then Inr (None, g)
          else (case ty of None \<Rightarrow> Inl FreedType | Some t \<Rightarrow> Inr (Some t, g))
      | None \<Rightarrow> Inr (None, g))"

text \<open>The substitution is set for an instance, and for a field of a generic struct.\<close>

definition set_subst :: "string \<Rightarrow> string \<Rightarrow> ('t, 'v, 'b, 'm, unit) gen" where
  "set_subst param t = gset (\<lambda>g. g\<lparr>sub_slot := Some (param, Some t), sub_count := 1\<rparr>)"

definition lg_gfn_find_or_add :: "node \<Rightarrow> string \<Rightarrow> string \<Rightarrow> ('t, 'v, 'b, 'm, unit) gen" where
  "lg_gfn_find_or_add decl s ns_type =
     (let mangled = lg_mangle 256 s (Some ns_type) in
      gset (\<lambda>g. if mangled \<in> fi_mangled ` set (gfn_insts g) then g
        else g\<lparr>gfn_insts := \<lparr>fi_decl = decl, fi_mangled = mangled, fi_type = ns_type\<rparr> # gfn_insts g\<rparr>))"

text \<open>\<^verbatim>\<open>strncpy\<close> keeps 255 characters of the name; the search compares with the whole name.\<close>

definition lg_gst_find_or_add :: "node \<Rightarrow> string \<Rightarrow> string \<Rightarrow> ('t, 'v, 'b, 'm, unit) gen" where
  "lg_gst_find_or_add decl ns_name ns_type =
     gset (\<lambda>g. if ns_name \<in> si_name ` set (gst_insts g) then g
       else g\<lparr>gst_insts := \<lparr>si_decl = decl, si_name = take 255 ns_name,
                si_mangled = lg_sanitize 256 ns_name, si_type = ns_type\<rparr> # gst_insts g\<rparr>)"

subsection \<open>Lookups in the program\<close>

datatype lg_kind = LG_STRUCT | LG_ENUM | LG_UNION | LG_INTERFACE

definition lg_decl_name :: "lg_kind \<Rightarrow> node \<Rightarrow> string option" where
  "lg_decl_name k d =
     (case nas d of
        NODE_STRUCT_DECL s _ _ _ _ _ \<Rightarrow> if k = LG_STRUCT then Some s else None
      | NODE_ENUM_DECL s _ _ _ \<Rightarrow> if k = LG_ENUM then Some s else None
      | NODE_UNION_DECL s _ _ _ \<Rightarrow> if k = LG_UNION then Some s else None
      | NODE_INTERFACE_DECL s _ _ _ \<Rightarrow> if k = LG_INTERFACE then Some s else None
      | _ \<Rightarrow> None)"

definition lg_find_decl :: "node list \<Rightarrow> lg_kind \<Rightarrow> string \<Rightarrow> node option" where
  "lg_find_decl ds k s = List.find (\<lambda>d. lg_decl_name k d = Some s) ds"

definition lg_find_fn :: "node list \<Rightarrow> string \<Rightarrow> node option" where
  "lg_find_fn ds s =
     List.find (\<lambda>d. case nas d of
        NODE_FN_DECL t owner _ _ _ _ _ _ \<Rightarrow> owner = None \<and> t = s
      | NODE_EXTERN_FN t _ _ _ _ _ \<Rightarrow> t = s
      | _ \<Rightarrow> False) ds"

definition lg_methods_of :: "string \<Rightarrow> node \<Rightarrow> node list" where
  "lg_methods_of owner d =
     (case nas d of NODE_IMPL_DECL target _ _ ms \<Rightarrow> if target = owner then ms else [] | _ \<Rightarrow> [])"

definition lg_find_method :: "node list \<Rightarrow> string \<Rightarrow> string \<Rightarrow> node option" where
  "lg_find_method ds owner method = List.find (\<lambda>m. fn_name m = method) (concat (map (lg_methods_of owner) ds))"

definition lg_enum_has_variant :: "node list \<Rightarrow> string \<Rightarrow> string \<Rightarrow> bool" where
  "lg_enum_has_variant ds s variant =
     (case lg_find_decl ds LG_ENUM s of None \<Rightarrow> False | Some d \<Rightarrow> variant \<in> set (enum_variants d))"

definition lg_find_field_type :: "node list \<Rightarrow> string \<Rightarrow> string \<Rightarrow> node option" where
  "lg_find_field_type ds owner field =
     (case or_else (lg_find_decl ds LG_STRUCT owner) (lg_find_decl ds LG_UNION owner) of
        None \<Rightarrow> None
      | Some d \<Rightarrow> Option.bind (List.find (\<lambda>f. let_name f = field) (composite_fields d)) let_type)"

definition lg_method_has_receiver :: "node \<Rightarrow> bool" where
  "lg_method_has_receiver m =
     (case nas m of
        NODE_FN_DECL _ _ _ _ (p # ps) _ _ _ \<Rightarrow> let_name p \<in> {''self'', ''Self''}
      | _ \<Rightarrow> False)"

definition lg_is_known_type :: "node list \<Rightarrow> string \<Rightarrow> bool" where
  "lg_is_known_type ds s \<longleftrightarrow>
     s = ''String'' \<or> lg_find_decl ds LG_STRUCT s \<noteq> None \<or> lg_find_decl ds LG_ENUM s \<noteq> None \<or>
     lg_find_decl ds LG_UNION s \<noteq> None"

end
