(* ===== verification/Gen_Types.thy ===== *)
theory Gen_Types
  imports Gen_Base
begin

text \<open>
  Types in the code generator: the LLVM type of a NightScript type (\<^verbatim>\<open>llg_ns_to_ll\<close>, \<^verbatim>\<open>llg_node_to_ll\<close>), the
  generator's own inference of NightScript types (\<^verbatim>\<open>llg_infer_type\<close>), and the set-up of structs, unions and
  enums.
\<close>

subsection \<open>From NightScript types to LLVM types\<close>

definition scalar_types :: "('t, 'v, 'b, 'm) llvm \<Rightarrow> (string \<times> 't) list" where
  "scalar_types L =
    [(''void'', void_type L), (''bool'', int_type L 1), (''i8'', int_type L 8), (''u8'', int_type L 8),
     (''char'', int_type L 8), (''i16'', int_type L 16), (''u16'', int_type L 16), (''i32'', int_type L 32),
     (''u32'', int_type L 32), (''i64'', int_type L 64), (''u64'', int_type L 64), (''isize'', int_type L 64),
     (''usize'', int_type L 64), (''f32'', float_type L), (''f64'', double_type L), (''cstr'', pointer_type L)]"

text \<open>A named struct with its body, registered under the name \<open>s\<close>.\<close>

definition new_struct ::
  "('t, 'v, 'b, 'm) llvm \<Rightarrow> string \<Rightarrow> 't list \<Rightarrow> bool \<Rightarrow> string \<Rightarrow> ('t, 'v, 'b, 'm, 't) gen" where
  "new_struct L tname ftys packed s g =
     (let (ty, m) = named_struct L tname ftys packed (llvm_state g)
      in gbind (lg_register_type s ty) (\<lambda>_. gret ty) (g\<lparr>llvm_state := m\<rparr>))"

definition registered :: "string \<Rightarrow> ('t, 'v, 'b, 'm, 't) gen \<Rightarrow> ('t, 'v, 'b, 'm, 't) gen" where
  "registered s m = gget (\<lambda>g. lg_find_named_type g s) (\<lambda>r. case r of Some ty \<Rightarrow> gret ty | None \<Rightarrow> m)"

definition option_struct ::
  "('t, 'v, 'b, 'm) llvm \<Rightarrow> (string \<Rightarrow> ('t, 'v, 'b, 'm, 't) gen) \<Rightarrow> string \<Rightarrow> ('t, 'v, 'b, 'm, 't) gen" where
  "option_struct L rec s =
     (case lg_extract_inner s of
        None \<Rightarrow> gret (int_type L 32)
      | Some inner \<Rightarrow>
          gbind (rec inner) (\<lambda>ty. new_struct L (lg_sanitize 256 s) [int_type L 1, ty] False s))"

definition result_struct ::
  "('t, 'v, 'b, 'm) llvm \<Rightarrow> (string \<Rightarrow> ('t, 'v, 'b, 'm, 't) gen) \<Rightarrow> string \<Rightarrow> ('t, 'v, 'b, 'm, 't) gen" where
  "result_struct L rec s =
     (case Option.bind (lg_extract_inner s) lg_split_comma of
        None \<Rightarrow> gret (int_type L 32)
      | Some (ok, err) \<Rightarrow>
          gbind (rec ok) (\<lambda>ok_ty. gbind (rec err) (\<lambda>err_ty.
          new_struct L (lg_sanitize 256 s) [int_type L 1, ok_ty, err_ty] False s)))"

primrec llg_ns_to_ll :: "('t, 'v, 'b, 'm) llvm \<Rightarrow> nat \<Rightarrow> string \<Rightarrow> ('t, 'v, 'b, 'm, 't) gen" where
  "llg_ns_to_ll L 0 s = gfail TooDeep"
| "llg_ns_to_ll L (Suc n) s =
     (case map_of (scalar_types L) s of
        Some ty \<Rightarrow> gret ty
      | None \<Rightarrow>
          registered s
            (if s = ''str'' then new_struct L ''NStr'' [pointer_type L, int_type L 64] False s
             else if s = ''String'' then
               new_struct L ''NString'' [pointer_type L, int_type L 64, int_type L 64] False s
             else if lg_type_form s ''Option'' then option_struct L (llg_ns_to_ll L n) s
             else if lg_type_form s ''Result'' then result_struct L (llg_ns_to_ll L n) s
             else
               gbind (lg_subst s) (\<lambda>sub. case sub of
                 Some s' \<Rightarrow> llg_ns_to_ll L n s'
               | None \<Rightarrow> registered (lg_sanitize 256 s) (gret (pointer_type L)))))"

fun llg_node_to_ll :: "('t, 'v, 'b, 'm) llvm \<Rightarrow> nat \<Rightarrow> node \<Rightarrow> ('t, 'v, 'b, 'm, 't) gen" where
  "llg_node_to_ll L n (Node l c (NODE_TYPE_NAMED s)) =
     gbind (lg_subst s) (\<lambda>sub. llg_ns_to_ll L n (case sub of Some s' \<Rightarrow> s' | None \<Rightarrow> s))"
| "llg_node_to_ll L n (Node l c (NODE_TYPE_POINTER _ _ _)) = gret (pointer_type L)"
| "llg_node_to_ll L n (Node l c (NODE_TYPE_ARRAY e len)) =
     gbind (llg_node_to_ll L n e) (\<lambda>ty.
     gret (if len < 0 then struct_type L [pointer_type L, int_type L 64] else array_type L ty (nat len)))"
| "llg_node_to_ll L n nd = gret (void_type L)"

definition llg_opt_to_ll :: "('t, 'v, 'b, 'm) llvm \<Rightarrow> nat \<Rightarrow> node option \<Rightarrow> ('t, 'v, 'b, 'm, 't) gen" where
  "llg_opt_to_ll L n t = (case t of None \<Rightarrow> gret (void_type L) | Some nd \<Rightarrow> llg_node_to_ll L n nd)"

subsection \<open>Inference\<close>

text \<open>A temporary type node; \<^verbatim>\<open>calloc\<close> leaves its position 0.\<close>

definition lg_temp_named :: "string \<Rightarrow> node" where
  "lg_temp_named s = Node 0 0 (NODE_TYPE_NAMED s)"

definition lg_temp_ptr :: "node \<Rightarrow> bool \<Rightarrow> node" where
  "lg_temp_ptr inner is_const = Node 0 0 (NODE_TYPE_POINTER inner is_const False)"

definition type_node_name :: "node \<Rightarrow> string option" where
  "type_node_name t = (case nas t of NODE_TYPE_NAMED s \<Rightarrow> Some s | _ \<Rightarrow> None)"

definition lg_try_unwrapped :: "node option \<Rightarrow> node option" where
  "lg_try_unwrapped t =
     (case Option.bind t type_node_name of
        None \<Rightarrow> None
      | Some s \<Rightarrow>
          if lg_type_form s ''Option'' then map_option lg_temp_named (lg_extract_inner s)
          else if lg_type_form s ''Result'' then
            map_option (\<lambda>(ok, err). lg_temp_named ok) (Option.bind (lg_extract_inner s) lg_split_comma)
          else None)"

text \<open>The named type whose fields and methods an object of type \<open>t\<close> has, through one pointer.\<close>

definition owner_of :: "node \<Rightarrow> string option" where
  "owner_of t =
     (case nas t of
        NODE_TYPE_NAMED s \<Rightarrow> Some s
      | NODE_TYPE_POINTER inner _ _ \<Rightarrow> type_node_name inner
      | _ \<Rightarrow> None)"

definition comparison_ops :: "string list" where
  "comparison_ops = [''=='', ''!='', ''<'', ''>'', ''<='', ''>='', ''&&'', ''||'']"

definition builtin_member :: "node \<Rightarrow> string \<Rightarrow> node option" where
  "builtin_member ot fld =
     (case nas ot of
        NODE_TYPE_ARRAY e len \<Rightarrow>
          if len < 0 \<and> fld = ''len'' then Some (lg_temp_named ''usize'')
          else if len < 0 \<and> fld = ''ptr'' then Some (lg_temp_ptr e False)
          else None
      | NODE_TYPE_NAMED s \<Rightarrow>
          if s \<in> {''str'', ''String''} \<and> fld = ''len'' \<or> s = ''String'' \<and> fld = ''cap'' then
            Some (lg_temp_named ''usize'')
          else if s \<in> {''str'', ''String''} \<and> fld = ''ptr'' then
            Some (lg_temp_ptr (lg_temp_named ''u8'') (s = ''str''))
          else None
      | _ \<Rightarrow> None)"

definition member_type :: "node list \<Rightarrow> node \<Rightarrow> string \<Rightarrow> node option" where
  "member_type ds ot fld =
     (case builtin_member ot fld of
        Some t \<Rightarrow> Some t
      | None \<Rightarrow> Option.bind (owner_of ot) (\<lambda>owner. lg_find_field_type ds owner fld))"

definition element_type :: "node \<Rightarrow> node option" where
  "element_type ot =
     (case nas ot of
        NODE_TYPE_ARRAY e _ \<Rightarrow> Some e
      | NODE_TYPE_POINTER inner _ _ \<Rightarrow> Some inner
      | NODE_TYPE_NAMED s \<Rightarrow> if s \<in> {''str'', ''String''} then Some (lg_temp_named ''u8'') else None
      | _ \<Rightarrow> None)"

text \<open>The methods of \<open>lg_call_ret_type\<close>: a static one of a type name, else one of the type of the object.\<close>

definition static_method :: "node list \<Rightarrow> node \<Rightarrow> string \<Rightarrow> node option" where
  "static_method ds obj method =
     (case nas obj of
        NODE_IDENT s \<Rightarrow>
          if lg_is_known_type ds s then
            (case lg_find_method ds s method of
               Some m \<Rightarrow> if lg_method_has_receiver m then None else Some m
             | None \<Rightarrow> None)
          else None
      | _ \<Rightarrow> None)"

definition method_ret_type :: "node list \<Rightarrow> node option \<Rightarrow> string \<Rightarrow> node option" where
  "method_ret_type ds ot method =
     Option.bind (Option.bind (Option.bind ot owner_of) (\<lambda>owner. lg_find_method ds owner method)) fn_ret_type"

lemmas [fundef_cong] = node_as.case_cong

fun llg_infer_type :: "('t, 'v, 'b, 'm) lg \<Rightarrow> node \<Rightarrow> node option" where
  "llg_infer_type g (Node l c a) =
     (case a of
        NODE_LIT_INT _ \<Rightarrow> Some (lg_temp_named ''i32'')
      | NODE_LIT_CHAR _ \<Rightarrow> Some (lg_temp_named ''char'')
      | NODE_LIT_FLOAT _ \<Rightarrow> Some (lg_temp_named ''f64'')
      | NODE_LIT_STRING _ \<Rightarrow> Some (lg_temp_named ''str'')
      | NODE_LIT_BOOL _ \<Rightarrow> Some (lg_temp_named ''bool'')
      | NODE_LIT_NULL \<Rightarrow> Some (lg_temp_named ''void'')
      | NODE_GROUP e \<Rightarrow> llg_infer_type g e
      | NODE_CAST _ t \<Rightarrow> Some t
      | NODE_STRUCT_LIT s _ \<Rightarrow> Some (lg_temp_named s)
      | NODE_IDENT s \<Rightarrow>
          (case lg_lookup g s of
             Some v \<Rightarrow> v_ns v
           | None \<Rightarrow> if lg_is_known_type (lg_decls g) s then Some (lg_temp_named s) else None)
      | NODE_UNARY op e \<Rightarrow>
          (if op = ''?'' then lg_try_unwrapped (llg_infer_type g e)
           else if op = ''&'' then map_option (\<lambda>t. lg_temp_ptr t False) (llg_infer_type g e)
           else if op = ''*'' then
             Option.bind (llg_infer_type g e) (\<lambda>t.
               case nas t of NODE_TYPE_POINTER inner _ _ \<Rightarrow> Some inner | _ \<Rightarrow> None)
           else llg_infer_type g e)
      | NODE_BINARY op x y \<Rightarrow>
          (if op \<in> set comparison_ops then Some (lg_temp_named ''bool'')
           else or_else (llg_infer_type g x) (llg_infer_type g y))
      | NODE_CALL (Node _ _ callee) _ \<Rightarrow>
          (case callee of
             NODE_IDENT s \<Rightarrow> Option.bind (lg_find_fn (lg_decls g) s) fn_ret_type
           | NODE_FIELD obj fld \<Rightarrow>
               (case static_method (lg_decls g) obj fld of
                  Some m \<Rightarrow> fn_ret_type m
                | None \<Rightarrow> method_ret_type (lg_decls g) (llg_infer_type g obj) fld)
           | NODE_INDEX obj _ \<Rightarrow>
               Option.bind (Option.bind (ident_name obj) (lg_find_fn (lg_decls g))) fn_ret_type
           | _ \<Rightarrow> None)
      | NODE_FIELD obj fld \<Rightarrow>
          (if (case ident_name obj of Some s \<Rightarrow> lg_enum_has_variant (lg_decls g) s fld | None \<Rightarrow> False)
           then map_option lg_temp_named (ident_name obj)
           else Option.bind (llg_infer_type g obj) (\<lambda>ot. member_type (lg_decls g) ot fld))
      | NODE_INDEX obj _ \<Rightarrow> Option.bind (llg_infer_type g obj) element_type
      | NODE_ASSIGN _ e _ \<Rightarrow> llg_infer_type g e
      | NODE_MATCH _ arms \<Rightarrow> (case arms of [] \<Rightarrow> None | (_, _, e) # _ \<Rightarrow> llg_infer_type g e)
      | _ \<Rightarrow> None)"

end
