(* ===== verification/Gen_Build.thy ===== *)
theory Gen_Build
  imports Gen_Types
begin

text \<open>
  Building instructions in \<^verbatim>\<open>compiler/src/llvmgen/llvmgen.c\<close>: basic blocks, the deferred expressions of a
  scope, and the parts of the translation of expressions that need no other expression: literals, names,
  casts and operators.
\<close>

subsection \<open>Instructions and blocks\<close>

text \<open>An expression has a value and, where it is addressable, a pointer with the type of what it points to.\<close>

type_synonym ('t, 'v) emitted = "'v \<times> ('v \<times> 't) option"

definition build :: "('t, 'v, 'b, 'm) llvm \<Rightarrow> ('t, 'v, 'b) llvm_call \<Rightarrow> ('t, 'v, 'b, 'm, 'v) gen" where
  "build L c g = (let (v, m) = llvm_do L c (llvm_state g) in Inr (v, g\<lparr>llvm_state := m\<rparr>))"

definition perform :: "('t, 'v, 'b, 'm) llvm \<Rightarrow> ('t, 'v, 'b) llvm_call \<Rightarrow> ('t, 'v, 'b, 'm, unit) gen" where
  "perform L c = gbind (build L c) (\<lambda>_. gret ())"

text \<open>An expression that is not addressable.\<close>

definition rvalue :: "('t, 'v, 'b, 'm, 'v) gen \<Rightarrow> ('t, 'v, 'b, 'm, ('t, 'v) emitted) gen" where
  "rvalue m = gbind m (\<lambda>v. gret (v, None))"

definition value_of :: "('t, 'v, 'b, 'm, ('t, 'v) emitted) gen \<Rightarrow> ('t, 'v, 'b, 'm, 'v) gen" where
  "value_of m = gbind m (\<lambda>(v, _). gret v)"

text \<open>The value at an address.\<close>

definition lvalue ::
  "('t, 'v, 'b, 'm) llvm \<Rightarrow> 't \<Rightarrow> 'v \<Rightarrow> string \<Rightarrow> ('t, 'v, 'b, 'm, ('t, 'v) emitted) gen" where
  "lvalue L ty ptr s = gbind (build L (BuildLoad ty ptr s)) (\<lambda>v. gret (v, Some (ptr, ty)))"

definition fresh_block :: "('t, 'v, 'b, 'm) llvm \<Rightarrow> string \<Rightarrow> ('t, 'v, 'b, 'm, 'b) gen" where
  "fresh_block L s g =
     (let (b, m) = append_block L (cur_fn g) s (llvm_state g) in Inr (b, g\<lparr>llvm_state := m\<rparr>))"

text \<open>The builder and \<^verbatim>\<open>*cur_bb\<close> move together.\<close>

definition goto_block :: "('t, 'v, 'b, 'm) llvm \<Rightarrow> 'b \<Rightarrow> ('t, 'v, 'b, 'm, unit) gen" where
  "goto_block L b = gbind (perform L (PositionAtEnd b)) (\<lambda>_. gset (\<lambda>g. g\<lparr>cur_bb := Some b\<rparr>))"

definition block_ended :: "('t, 'v, 'b, 'm) llvm \<Rightarrow> ('t, 'v, 'b, 'm) lg \<Rightarrow> bool" where
  "block_ended L g = (case cur_bb g of None \<Rightarrow> False | Some b \<Rightarrow> terminated L b (llvm_state g))"

definition branch_unless_ended :: "('t, 'v, 'b, 'm) llvm \<Rightarrow> 'b \<Rightarrow> ('t, 'v, 'b, 'm, unit) gen" where
  "branch_unless_ended L b = gget (block_ended L) (\<lambda>e. gwhen (\<not> e) (perform L (BuildBr b)))"

abbreviation i1_const :: "('t, 'v, 'b, 'm) llvm \<Rightarrow> 64 word \<Rightarrow> 'v" where
  "i1_const L w \<equiv> const_int L (int_type L 1) w"

abbreviation i32_const :: "('t, 'v, 'b, 'm) llvm \<Rightarrow> 64 word \<Rightarrow> 'v" where
  "i32_const L w \<equiv> const_int L (int_type L 32) w"

abbreviation i64_const :: "('t, 'v, 'b, 'm) llvm \<Rightarrow> 64 word \<Rightarrow> 'v" where
  "i64_const L w \<equiv> const_int L (int_type L 64) w"

definition is_float :: "type_kind \<Rightarrow> bool" where
  "is_float k \<longleftrightarrow> k = FloatTypeKind \<or> k = DoubleTypeKind"

text \<open>The type of a node, or \<open>default_ty\<close> where there is none.\<close>

definition ll_or :: "('t, 'v, 'b, 'm) llvm \<Rightarrow> nat \<Rightarrow> 't \<Rightarrow> node option \<Rightarrow> ('t, 'v, 'b, 'm, 't) gen" where
  "ll_or L d default_ty t = (case t of None \<Rightarrow> gret default_ty | Some nd \<Rightarrow> llg_node_to_ll L d nd)"

definition name_or_i32 :: "node option \<Rightarrow> string" where
  "name_or_i32 t = (case Option.bind t type_node_name of None \<Rightarrow> ''i32'' | Some s \<Rightarrow> s)"

definition lg_coerce_arg :: "('t, 'v, 'b, 'm) llvm \<Rightarrow> 'v \<Rightarrow> 't \<Rightarrow> ('t, 'v, 'b, 'm, 'v) gen" where
  "lg_coerce_arg L v expected =
     (let actual = type_of L v in
      if actual = expected then gret v
      else if kind_of L actual = StructTypeKind \<and> kind_of L expected = PointerTypeKind then
        build L (BuildExtractValue v 0 ''str_ptr'')
      else if kind_of L actual = IntegerTypeKind \<and> kind_of L expected = IntegerTypeKind then
        (if int_width L expected > int_width L actual then build L (BuildCast CastZExt v expected ''zext'')
         else if int_width L expected < int_width L actual then build L (BuildCast CastTrunc v expected ''trunc'')
         else gret v)
      else gret v)"

subsection \<open>Deferred expressions\<close>

definition lg_emit_defers_range ::
  "(node \<Rightarrow> ('t, 'v, 'b, 'm, ('t, 'v) emitted) gen) \<Rightarrow> nat \<Rightarrow> ('t, 'v, 'b, 'm, unit) gen" where
  "lg_emit_defers_range rec n =
     gget defer_stack (\<lambda>ds. giter (\<lambda>e. gbind (rec e) (\<lambda>_. gret ())) (rev (drop n ds)))"

definition defer_mark :: "('t, 'v, 'b, 'm) lg \<Rightarrow> nat" where
  "defer_mark g = (case defer_marks g of [] \<Rightarrow> 0 | n # _ \<Rightarrow> n)"

definition drop_scope_defers :: "('t, 'v, 'b, 'm, unit) gen" where
  "drop_scope_defers = gset (\<lambda>g. g\<lparr>defer_stack := take (defer_mark g) (defer_stack g)\<rparr>)"

definition lg_emit_scope_defers ::
  "(node \<Rightarrow> ('t, 'v, 'b, 'm, ('t, 'v) emitted) gen) \<Rightarrow> ('t, 'v, 'b, 'm, unit) gen" where
  "lg_emit_scope_defers rec =
     gget defer_mark (\<lambda>n. gbind (lg_emit_defers_range rec n) (\<lambda>_.
     gset (\<lambda>g. g\<lparr>defer_stack := take n (defer_stack g)\<rparr>)))"

subsection \<open>Literals and names\<close>

definition emit_string :: "('t, 'v, 'b, 'm) llvm \<Rightarrow> nat \<Rightarrow> string \<Rightarrow> ('t, 'v, 'b, 'm, 'v) gen" where
  "emit_string L d s =
     gbind (build L (BuildGlobalString s ''.str'')) (\<lambda>gstr.
     gbind (llg_ns_to_ll L d ''str'') (\<lambda>ty.
     gbind (build L (BuildInsertValue (undef_value L ty) gstr 0 ''str.ptr'')) (\<lambda>agg.
     build L (BuildInsertValue agg (i64_const L (of_nat (length s))) 1 ''str.len''))))"

text \<open>The type of the function being translated, if it is \<open>Option[...]\<close> or \<open>Result[...]\<close>.\<close>

definition ret_form :: "string \<Rightarrow> ('t, 'v, 'b, 'm) lg \<Rightarrow> string option" where
  "ret_form pfx g =
     (case Option.bind (cur_ret_ty g) type_node_name of
        Some s \<Rightarrow> if lg_type_form s pfx then Some s else None
      | None \<Rightarrow> None)"

definition emit_none :: "('t, 'v, 'b, 'm) llvm \<Rightarrow> nat \<Rightarrow> string \<Rightarrow> ('t, 'v, 'b, 'm, 'v) gen" where
  "emit_none L d s =
     gbind (llg_ns_to_ll L d s) (\<lambda>ty.
     build L (BuildInsertValue (undef_value L ty) (i1_const L 0) 0 ''none.flag''))"

definition emit_ident :: "('t, 'v, 'b, 'm) llvm \<Rightarrow> nat \<Rightarrow> string \<Rightarrow> ('t, 'v, 'b, 'm, ('t, 'v) emitted) gen" where
  "emit_ident L d s =
     gget (\<lambda>g. (lg_lookup g s, ret_form ''Option'' g, lg_find_global g s)) (\<lambda>(var, opt, gl).
       case var of
         Some v \<Rightarrow> lvalue L (v_type v) (v_slot v) s
       | None \<Rightarrow>
           (case (if s = ''None'' then opt else None) of
              Some ret \<Rightarrow> rvalue (emit_none L d ret)
            | None \<Rightarrow> rvalue (gret (case gl of Some x \<Rightarrow> gl_value x | None \<Rightarrow> i32_const L 0))))"

subsection \<open>Casts\<close>

definition emit_cast ::
  "('t, 'v, 'b, 'm) llvm \<Rightarrow> node option \<Rightarrow> node \<Rightarrow> 'v \<Rightarrow> 't \<Rightarrow> ('t, 'v, 'b, 'm, 'v) gen" where
  "emit_cast L from_ns to_ns v dst =
     (let from = type_of L v; sk = kind_of L from; dk = kind_of L dst in
      if from = dst then gret v
      else if sk = IntegerTypeKind \<and> dk = IntegerTypeKind then
        (if int_width L from = int_width L dst then gret v
         else if int_width L dst > int_width L from then
           (if lg_is_signed (name_or_i32 from_ns) then build L (BuildCast CastSExt v dst ''sext'')
            else build L (BuildCast CastZExt v dst ''zext''))
         else build L (BuildCast CastTrunc v dst ''trunc''))
      else if is_float sk \<and> is_float dk then
        (if sk = FloatTypeKind \<and> dk = DoubleTypeKind then build L (BuildCast CastFPExt v dst ''fpext'')
         else build L (BuildCast CastFPTrunc v dst ''fptrunc''))
      else if sk = IntegerTypeKind \<and> is_float dk then
        (if lg_is_signed (name_or_i32 from_ns) then build L (BuildCast CastSIToFP v dst ''sitofp'')
         else build L (BuildCast CastUIToFP v dst ''uitofp''))
      else if is_float sk \<and> dk = IntegerTypeKind then
        (if lg_is_signed (name_or_i32 (Some to_ns)) then build L (BuildCast CastFPToSI v dst ''fptosi'')
         else build L (BuildCast CastFPToUI v dst ''fptoui''))
      else if sk = PointerTypeKind \<and> dk = PointerTypeKind then build L (BuildCast CastPointer v dst ''ptrcast'')
      else if sk = IntegerTypeKind \<and> dk = PointerTypeKind then build L (BuildCast CastIntToPtr v dst ''inttoptr'')
      else if sk = PointerTypeKind \<and> dk = IntegerTypeKind then build L (BuildCast CastPtrToInt v dst ''ptrtoint'')
      else build L (BuildCast CastBit v dst ''cast''))"

subsection \<open>Operators\<close>

text \<open>The instruction of an arithmetic operator, by whether it is on floats and whether it is signed.\<close>

definition arith_op :: "bool \<Rightarrow> bool \<Rightarrow> string \<Rightarrow> (binary_op \<times> string) option" where
  "arith_op fp is_sg op =
     (if op = ''+'' then Some (if fp then (OpFAdd, ''fadd'') else (OpAdd, ''add''))
      else if op = ''-'' then Some (if fp then (OpFSub, ''fsub'') else (OpSub, ''sub''))
      else if op = ''*'' then Some (if fp then (OpFMul, ''fmul'') else (OpMul, ''mul''))
      else if op = ''/'' then
        Some (if fp then (OpFDiv, ''fdiv'') else if is_sg then (OpSDiv, ''sdiv'') else (OpUDiv, ''udiv''))
      else if op = ''%'' then
        Some (if fp then (OpFRem, ''frem'') else if is_sg then (OpSRem, ''srem'') else (OpURem, ''urem''))
      else None)"

definition bit_op :: "bool \<Rightarrow> string \<Rightarrow> (binary_op \<times> string) option" where
  "bit_op is_sg op =
     (if op = ''&'' then Some (OpAnd, ''band'')
      else if op = ''|'' then Some (OpOr, ''bor'')
      else if op = ''^'' then Some (OpXor, ''xor'')
      else if op = ''<<'' then Some (OpShl, ''shl'')
      else if op = ''>>'' then Some (if is_sg then (OpAShr, ''ashr'') else (OpLShr, ''lshr''))
      else None)"

definition real_predicate :: "string \<Rightarrow> predicate" where
  "real_predicate op =
     (if op = ''=='' then RealOEQ else if op = ''!='' then RealONE else if op = ''<'' then RealOLT
      else if op = ''<='' then RealOLE else if op = ''>'' then RealOGT else if op = ''>='' then RealOGE
      else RealOEQ)"

definition int_predicate :: "bool \<Rightarrow> string \<Rightarrow> predicate" where
  "int_predicate is_sg op =
     (if op = ''=='' then IntEQ else if op = ''!='' then IntNE
      else if op = ''<'' then (if is_sg then IntSLT else IntULT)
      else if op = ''<='' then (if is_sg then IntSLE else IntULE)
      else if op = ''>'' then (if is_sg then IntSGT else IntUGT)
      else if op = ''>='' then (if is_sg then IntSGE else IntUGE)
      else IntEQ)"

text \<open>The narrower of two integers is widened, by the sign of the left operand.\<close>

definition widen :: "('t, 'v, 'b, 'm) llvm \<Rightarrow> string \<Rightarrow> 'v \<Rightarrow> 'v \<Rightarrow> ('t, 'v, 'b, 'm, 'v \<times> 'v) gen" where
  "widen L lname lv rv =
     (let lty = type_of L lv; rty = type_of L rv;
          ext = (if lg_is_signed lname then CastSExt else CastZExt) in
      if kind_of L lty = IntegerTypeKind \<and> kind_of L rty = IntegerTypeKind \<and> lty \<noteq> rty then
        (if int_width L lty > int_width L rty then
           gbind (build L (BuildCast ext rv lty ''coerce.rhs'')) (\<lambda>rv'. gret (lv, rv'))
         else gbind (build L (BuildCast ext lv rty ''coerce.lhs'')) (\<lambda>lv'. gret (lv', rv)))
      else gret (lv, rv))"

definition emit_operator ::
  "('t, 'v, 'b, 'm) llvm \<Rightarrow> string \<Rightarrow> string \<Rightarrow> 'v \<Rightarrow> 'v \<Rightarrow> ('t, 'v, 'b, 'm, 'v) gen" where
  "emit_operator L op lname lv rv =
     gbind (widen L lname lv rv) (\<lambda>(lv, rv).
     let fp = is_float (kind_of L (type_of L lv)); is_sg = lg_is_signed lname in
     case or_else (arith_op fp is_sg op) (bit_op is_sg op) of
       Some (i, s) \<Rightarrow> build L (BuildBinary i lv rv s)
     | None \<Rightarrow>
         if fp then build L (BuildCmp (real_predicate op) lv rv ''fcmp'')
         else build L (BuildCmp (int_predicate is_sg op) lv rv ''icmp''))"

text \<open>
  \<^verbatim>\<open>&&\<close> and \<^verbatim>\<open>||\<close>: the right operand gets a block of its own; \<open>on_true\<close> says whether a true left operand
  leads there. Without it the result is the constant \<open>short\<close>.
\<close>

definition emit_logical ::
  "('t, 'v, 'b, 'm) llvm \<Rightarrow> (node \<Rightarrow> ('t, 'v, 'b, 'm, ('t, 'v) emitted) gen) \<Rightarrow>
   string \<Rightarrow> bool \<Rightarrow> node \<Rightarrow> node \<Rightarrow> ('t, 'v, 'b, 'm, 'v) gen" where
  "emit_logical L rec s on_true x y =
     gbind (value_of (rec x)) (\<lambda>lv.
     gbind (fresh_block L (s @ ''_rhs'')) (\<lambda>rhs_bb.
     gbind (fresh_block L (s @ ''_done'')) (\<lambda>done_bb.
     gget cur_bb (\<lambda>lhs_end.
     gbind (perform L (if on_true then BuildCondBr lv rhs_bb done_bb else BuildCondBr lv done_bb rhs_bb)) (\<lambda>_.
     gbind (goto_block L rhs_bb) (\<lambda>_.
     gbind (value_of (rec y)) (\<lambda>rv.
     gget cur_bb (\<lambda>rhs_end.
     gbind (perform L (BuildBr done_bb)) (\<lambda>_.
     gbind (goto_block L done_bb) (\<lambda>_.
     build L (BuildPhi (int_type L 1)
       [(i1_const L (if on_true then 0 else 1), lhs_end), (rv, rhs_end)] s)))))))))))"

definition emit_binary ::
  "('t, 'v, 'b, 'm) llvm \<Rightarrow> (node \<Rightarrow> ('t, 'v, 'b, 'm, ('t, 'v) emitted) gen) \<Rightarrow>
   string \<Rightarrow> node \<Rightarrow> node \<Rightarrow> ('t, 'v, 'b, 'm, 'v) gen" where
  "emit_binary L rec op x y =
     (if op = ''&&'' then emit_logical L rec ''and'' True x y
      else if op = ''||'' then emit_logical L rec ''or'' False x y
      else
        gbind (value_of (rec x)) (\<lambda>lv.
        gbind (value_of (rec y)) (\<lambda>rv.
        gget (\<lambda>g. name_or_i32 (llg_infer_type g x)) (\<lambda>lname.
        emit_operator L op lname lv rv))))"

end
