(* ===== verification/Gen_Access.thy ===== *)
theory Gen_Access
  imports Gen_Build
begin

text \<open>
  The translation of the expressions that reach into objects, in \<^verbatim>\<open>llg_emit_expr\<close>: \<^verbatim>\<open>&\<close>, \<^verbatim>\<open>*\<close> and \<^verbatim>\<open>?\<close>, fields,
  elements, slices, assignments and struct literals. \<open>rec\<close> translates the subexpressions.
\<close>

type_synonym ('t, 'v, 'b, 'm) emitter = "node \<Rightarrow> ('t, 'v, 'b, 'm, ('t, 'v) emitted) gen"

subsection \<open>Prefix operators\<close>

text \<open>An operand without an address is translated once more, into a temporary.\<close>

definition emit_address ::
  "('t, 'v, 'b, 'm) llvm \<Rightarrow> ('t, 'v, 'b, 'm) emitter \<Rightarrow> node \<Rightarrow> ('t, 'v, 'b, 'm, 'v) gen" where
  "emit_address L rec x =
     gbind (rec x) (\<lambda>(_, lv). case lv of
       Some (ptr, _) \<Rightarrow> gret ptr
     | None \<Rightarrow>
         gbind (value_of (rec x)) (\<lambda>v.
         gbind (build L (BuildAlloca (type_of L v) ''addr_tmp'')) (\<lambda>tmp.
         gbind (perform L (BuildStore v tmp)) (\<lambda>_. gret tmp))))"

definition emit_deref ::
  "('t, 'v, 'b, 'm) llvm \<Rightarrow> ('t, 'v, 'b, 'm) emitter \<Rightarrow> nat \<Rightarrow> node \<Rightarrow> node \<Rightarrow>
   ('t, 'v, 'b, 'm, ('t, 'v) emitted) gen" where
  "emit_deref L rec d n x =
     gbind (value_of (rec x)) (\<lambda>ptr.
     gget (\<lambda>g. llg_infer_type g n) (\<lambda>ns.
     gbind (ll_or L d (int_type L 8) ns) (\<lambda>ty.
     lvalue L ty ptr ''deref'')))"

text \<open>The early return of \<^verbatim>\<open>?\<close>, in the block for the failure.\<close>

definition emit_try_return :: "('t, 'v, 'b, 'm) llvm \<Rightarrow> nat \<Rightarrow> 'v \<Rightarrow> ('t, 'v, 'b, 'm, unit) gen" where
  "emit_try_return L d v =
     gget (\<lambda>g. Option.bind (cur_ret_ty g) type_node_name) (\<lambda>ret. case ret of
       None \<Rightarrow> perform L BuildRetVoid
     | Some s \<Rightarrow>
         gbind (llg_ns_to_ll L d s) (\<lambda>ty.
         if lg_type_form s ''Option'' then
           gbind (build L (BuildInsertValue (undef_value L ty) (i1_const L 0) 0 ''none_flag'')) (\<lambda>r.
           perform L (BuildRet r))
         else if lg_type_form s ''Result'' then
           gbind (build L (BuildExtractValue v 2 ''err_inner'')) (\<lambda>err.
           gbind (build L (BuildInsertValue (undef_value L ty) (i1_const L 0) 0 ''res_flag'')) (\<lambda>r.
           gbind (build L (BuildInsertValue r err 2 ''res_err'')) (\<lambda>r.
           perform L (BuildRet r))))
         else perform L BuildRetVoid))"

definition emit_try ::
  "('t, 'v, 'b, 'm) llvm \<Rightarrow> ('t, 'v, 'b, 'm) emitter \<Rightarrow> nat \<Rightarrow> node \<Rightarrow> ('t, 'v, 'b, 'm, 'v) gen" where
  "emit_try L rec d x =
     gbind (value_of (rec x)) (\<lambda>v.
     gbind (build L (BuildExtractValue v 0 ''try_flag'')) (\<lambda>flag.
     gbind (fresh_block L ''try_ok'') (\<lambda>ok_bb.
     gbind (fresh_block L ''try_err'') (\<lambda>err_bb.
     gbind (perform L (BuildCondBr flag ok_bb err_bb)) (\<lambda>_.
     gbind (goto_block L err_bb) (\<lambda>_.
     gbind (lg_emit_defers_range rec 0) (\<lambda>_.
     gbind (emit_try_return L d v) (\<lambda>_.
     gbind (goto_block L ok_bb) (\<lambda>_.
     build L (BuildExtractValue v 1 ''try_val''))))))))))"

definition emit_negation ::
  "('t, 'v, 'b, 'm) llvm \<Rightarrow> ('t, 'v, 'b, 'm) emitter \<Rightarrow> node \<Rightarrow> ('t, 'v, 'b, 'm, 'v) gen" where
  "emit_negation L rec x =
     gbind (value_of (rec x)) (\<lambda>v.
     if is_float (kind_of L (type_of L v)) then build L (BuildFNeg v ''fneg'')
     else build L (BuildNeg v ''neg''))"

definition emit_unary ::
  "('t, 'v, 'b, 'm) llvm \<Rightarrow> ('t, 'v, 'b, 'm) emitter \<Rightarrow> nat \<Rightarrow> node \<Rightarrow> string \<Rightarrow> node \<Rightarrow>
   ('t, 'v, 'b, 'm, ('t, 'v) emitted) gen" where
  "emit_unary L rec d n op x =
     (if op = ''&'' then rvalue (emit_address L rec x)
      else if op = ''*'' then emit_deref L rec d n x
      else if op = ''?'' then rvalue (emit_try L rec d x)
      else if op = ''-'' then rvalue (emit_negation L rec x)
      else if op = ''!'' then rvalue (gbind (value_of (rec x)) (\<lambda>v. build L (BuildNot v ''not'')))
      else if op = ''~'' then rvalue (gbind (value_of (rec x)) (\<lambda>v. build L (BuildNot v ''bitnot'')))
      else rvalue (value_of (rec x)))"

subsection \<open>Fields\<close>

text \<open>Member \<open>i\<close> of a built-in aggregate, through its address where it has one.\<close>

definition emit_part ::
  "('t, 'v, 'b, 'm) llvm \<Rightarrow> 't \<Rightarrow> 't \<Rightarrow> nat \<Rightarrow> string \<Rightarrow> 'v option \<Rightarrow> 'v \<Rightarrow> ('t, 'v, 'b, 'm, 'v) gen" where
  "emit_part L agg_ty part_ty i s ptr v =
     (case ptr of
        Some p \<Rightarrow>
          gbind (build L (BuildStructGEP agg_ty p i (s @ ''.ptr''))) (\<lambda>gep.
          build L (BuildLoad part_ty gep s))
      | None \<Rightarrow> build L (BuildExtractValue v i s))"

fun index_of :: "'a \<Rightarrow> 'a list \<Rightarrow> nat option" where
  "index_of x [] = None"
| "index_of x (y # ys) = (if y = x then Some 0 else map_option Suc (index_of x ys))"

text \<open>The tag of a variant is an \<^verbatim>\<open>i32\<close>, unless a function has the name of the enum.\<close>

definition emit_variant :: "('t, 'v, 'b, 'm) llvm \<Rightarrow> ('t, 'v, 'b, 'm) lg \<Rightarrow> string \<Rightarrow> string \<Rightarrow> 'v option" where
  "emit_variant L g en fld =
     Option.bind (lg_find_decl (lg_decls g) LG_ENUM en) (\<lambda>ed.
     map_option
       (\<lambda>i. const_int L
          (case lg_find_global g en of Some gl \<Rightarrow> field_type L (gl_type gl) 0 | None \<Rightarrow> int_type L 32) (of_nat i))
       (index_of fld (enum_variants ed)))"

text \<open>
  The name of a type parameter. The parser makes it a named type; the code reads its name as that of an
  identifier, which lies at the same place of the union.
\<close>

definition type_param_name :: "node \<Rightarrow> string" where
  "type_param_name p = (case nas p of NODE_TYPE_NAMED s \<Rightarrow> s | NODE_IDENT s \<Rightarrow> s | _ \<Rightarrow> [])"

text \<open>
  The struct a type name denotes. For an instance \<^verbatim>\<open>Pair[i32]\<close> it is the template, found in a buffer of
  128 bytes, with the type parameter and its argument.
\<close>

definition struct_of :: "node list \<Rightarrow> string \<Rightarrow> node option \<times> (string \<times> string) option" where
  "struct_of ds owner =
     (case lg_find_decl ds LG_STRUCT owner of
        Some sd \<Rightarrow> (Some sd, None)
      | None \<Rightarrow>
          (case strchr owner (CHR ''['') of
             None \<Rightarrow> (None, None)
           | Some i \<Rightarrow>
               (case lg_find_decl ds LG_STRUCT (if i < 128 then take i owner else []) of
                  None \<Rightarrow> (None, None)
                | Some sd \<Rightarrow>
                    (Some sd,
                     case struct_type_params sd of
                       [] \<Rightarrow> None
                     | p # _ \<Rightarrow> map_option (Pair (type_param_name p)) (lg_extract_inner owner)))))"

definition emit_field_of ::
  "('t, 'v, 'b, 'm) llvm \<Rightarrow> nat \<Rightarrow> string \<Rightarrow> node list \<Rightarrow> string \<Rightarrow> 'v option \<Rightarrow> 'v \<Rightarrow>
   ('t, 'v, 'b, 'm, ('t, 'v) emitted) gen" where
  "emit_field_of L d owner fs fld ptr v =
     (case index_of fld (map let_name fs) of
        None \<Rightarrow> gret (i32_const L 0, None)
      | Some i \<Rightarrow>
          gbind (ll_or L d (int_type L 32) (let_type (fs ! i))) (\<lambda>fty.
          gbind (llg_ns_to_ll L d owner) (\<lambda>sty.
          case ptr of
            Some p \<Rightarrow> gbind (build L (BuildStructGEP sty p i fld)) (\<lambda>gep. lvalue L fty gep fld)
          | None \<Rightarrow> rvalue (build L (BuildExtractValue v i fld)))))"

text \<open>
  The substitution of a generic struct is put in the first slot; afterwards only the count is restored, and
  the argument is freed.
\<close>

definition with_subst ::
  "(string \<times> string) option \<Rightarrow> ('t, 'v, 'b, 'm, 'a) gen \<Rightarrow> ('t, 'v, 'b, 'm, 'a) gen" where
  "with_subst sub m =
     (case sub of
        None \<Rightarrow> m
      | Some (param, t) \<Rightarrow>
          gget sub_count (\<lambda>saved.
          gbind (set_subst param t) (\<lambda>_.
          gbind m (\<lambda>r.
          gbind (gset (\<lambda>g. g\<lparr>sub_slot := Some (param, None), sub_count := saved\<rparr>)) (\<lambda>_.
          gret r)))))"

definition emit_member ::
  "('t, 'v, 'b, 'm) llvm \<Rightarrow> nat \<Rightarrow> string \<Rightarrow> string \<Rightarrow> 'v option \<Rightarrow> 'v \<Rightarrow>
   ('t, 'v, 'b, 'm, ('t, 'v) emitted) gen" where
  "emit_member L d owner fld ptr v =
     gget (\<lambda>g. (struct_of (lg_decls g) owner, lg_find_decl (lg_decls g) LG_UNION owner)) (\<lambda>((sd, sub), ud).
     with_subst sub
       (case or_else sd ud of
          None \<Rightarrow> gret (i32_const L 0, None)
        | Some decl \<Rightarrow> emit_field_of L d owner (composite_fields decl) fld ptr v))"

definition emit_str_field ::
  "('t, 'v, 'b, 'm) llvm \<Rightarrow> nat \<Rightarrow> string \<Rightarrow> 'v option \<Rightarrow> 'v \<Rightarrow> ('t, 'v, 'b, 'm, ('t, 'v) emitted) gen" where
  "emit_str_field L d fld ptr v =
     gbind (llg_ns_to_ll L d ''str'') (\<lambda>ty.
     if fld = ''len'' then rvalue (emit_part L ty (int_type L 64) 1 ''str.len'' ptr v)
     else if fld = ''ptr'' then rvalue (emit_part L ty (pointer_type L) 0 ''str.ptr'' ptr v)
     else emit_member L d ''str'' fld ptr v)"

text \<open>Every field of a \<^verbatim>\<open>String\<close> other than \<^verbatim>\<open>ptr\<close> and \<^verbatim>\<open>len\<close> is taken for \<^verbatim>\<open>cap\<close>.\<close>

definition emit_string_field ::
  "('t, 'v, 'b, 'm) llvm \<Rightarrow> nat \<Rightarrow> node \<Rightarrow> string \<Rightarrow> 'v option \<Rightarrow> 'v \<Rightarrow> ('t, 'v, 'b, 'm, ('t, 'v) emitted) gen" where
  "emit_string_field L d n fld ptr v =
     gbind (llg_ns_to_ll L d ''String'') (\<lambda>ty.
     let i = (if fld = ''ptr'' then 0 else if fld = ''len'' then 1 else 2) in
     case ptr of
       Some p \<Rightarrow>
         gbind (build L (BuildStructGEP ty p i ''sfield.ptr'')) (\<lambda>gep.
         gget (\<lambda>g. llg_infer_type g n) (\<lambda>ft.
         gbind (ll_or L d (int_type L 64) ft) (\<lambda>fty.
         lvalue L fty gep fld)))
     | None \<Rightarrow> rvalue (build L (BuildExtractValue v i fld)))"

definition emit_slice_field ::
  "('t, 'v, 'b, 'm) llvm \<Rightarrow> nat \<Rightarrow> node \<Rightarrow> string \<Rightarrow> 'v option \<Rightarrow> 'v \<Rightarrow> ('t, 'v, 'b, 'm, ('t, 'v) emitted) gen" where
  "emit_slice_field L d ns fld ptr v =
     (if fld = ''len'' \<or> fld = ''ptr'' then
        gbind (if ptr = None then gret (void_type L) else llg_node_to_ll L d ns) (\<lambda>ty.
        if fld = ''len'' then rvalue (emit_part L ty (int_type L 64) 1 ''sl.len'' ptr v)
        else rvalue (emit_part L ty (pointer_type L) 0 ''sl.ptr'' ptr v))
      else gret (i32_const L 0, None))"

text \<open>The field of an object of type \<open>ns\<close> with value \<open>v\<close>, at \<open>ptr\<close> where it has an address.\<close>

definition emit_field_by_type ::
  "('t, 'v, 'b, 'm) llvm \<Rightarrow> nat \<Rightarrow> node \<Rightarrow> string \<Rightarrow> node option \<Rightarrow> 'v option \<Rightarrow> 'v \<Rightarrow>
   ('t, 'v, 'b, 'm, ('t, 'v) emitted) gen" where
  "emit_field_by_type L d n fld ns ptr v =
     (case ns of
        None \<Rightarrow> gret (i32_const L 0, None)
      | Some t \<Rightarrow>
          (case nas t of
             NODE_TYPE_NAMED s \<Rightarrow>
               (if s = ''str'' then emit_str_field L d fld ptr v
                else if s = ''String'' then emit_string_field L d n fld ptr v
                else emit_member L d s fld ptr v)
           | NODE_TYPE_ARRAY _ len \<Rightarrow>
               (if len < 0 then emit_slice_field L d t fld ptr v else gret (i32_const L 0, None))
           | _ \<Rightarrow> gret (i32_const L 0, None)))"

definition emit_field ::
  "('t, 'v, 'b, 'm) llvm \<Rightarrow> ('t, 'v, 'b, 'm) emitter \<Rightarrow> nat \<Rightarrow> node \<Rightarrow> node \<Rightarrow> string \<Rightarrow>
   ('t, 'v, 'b, 'm, ('t, 'v) emitted) gen" where
  "emit_field L rec d n obj fld =
     gget (\<lambda>g. Option.bind (ident_name obj) (\<lambda>en. emit_variant L g en fld)) (\<lambda>variant. case variant of
       Some v \<Rightarrow> gret (v, None)
     | None \<Rightarrow>
         gbind (rec obj) (\<lambda>(v, lv).
         gget (\<lambda>g. llg_infer_type g obj) (\<lambda>ns.
         case map_option nas ns of
           Some (NODE_TYPE_POINTER inner _ _) \<Rightarrow>
             gbind (llg_node_to_ll L d inner) (\<lambda>_. emit_field_by_type L d n fld (Some inner) (Some v) v)
         | _ \<Rightarrow> emit_field_by_type L d n fld ns (map_option fst lv) v)))"

end
