(* ===== verification/Gen_Index.thy ===== *)
theory Gen_Index
  imports Gen_Access
begin

text \<open>
  The translation of elements, slices, assignments and struct literals in \<^verbatim>\<open>llg_emit_expr\<close>.
\<close>

subsection \<open>Elements\<close>

definition is_slice_type :: "node option \<Rightarrow> bool" where
  "is_slice_type t = (case map_option nas t of Some (NODE_TYPE_ARRAY _ len) \<Rightarrow> len < 0 | _ \<Rightarrow> False)"

definition is_array_type :: "node option \<Rightarrow> bool" where
  "is_array_type t = (case map_option nas t of Some (NODE_TYPE_ARRAY _ len) \<Rightarrow> len \<ge> 0 | _ \<Rightarrow> False)"

definition text_type :: "node option \<Rightarrow> string option" where
  "text_type t =
     (case Option.bind t type_node_name of
        Some s \<Rightarrow> if s \<in> {''str'', ''String''} then Some s else None
      | None \<Rightarrow> None)"

text \<open>The pointer kept in an aggregate of type \<open>agg\<close> at \<open>p\<close>.\<close>

definition load_data ::
  "('t, 'v, 'b, 'm) llvm \<Rightarrow> 't \<Rightarrow> 'v \<Rightarrow> string \<Rightarrow> string \<Rightarrow> ('t, 'v, 'b, 'm, 'v) gen" where
  "load_data L agg p s t =
     gbind (build L (BuildStructGEP agg p 0 s)) (\<lambda>gep. build L (BuildLoad (pointer_type L) gep t))"

text \<open>The pointer to the elements of an object of type \<open>ns\<close> at \<open>p\<close>.\<close>

definition data_at ::
  "('t, 'v, 'b, 'm) llvm \<Rightarrow> nat \<Rightarrow> node option \<Rightarrow> 'v \<Rightarrow> ('t, 'v, 'b, 'm, 'v) gen" where
  "data_at L d ns p =
     (if is_slice_type ns then gbind (llg_opt_to_ll L d ns) (\<lambda>ty. load_data L ty p ''sl.ptr'' ''sl.data'')
      else (case text_type ns of
        Some s \<Rightarrow> gbind (llg_ns_to_ll L d s) (\<lambda>ty. load_data L ty p ''str.ptr'' ''str.data'')
      | None \<Rightarrow> build L (BuildLoad (pointer_type L) p ''ptr.val'')))"

definition emit_element ::
  "('t, 'v, 'b, 'm) llvm \<Rightarrow> nat \<Rightarrow> node option \<Rightarrow> 't \<Rightarrow> ('t, 'v) emitted \<Rightarrow> 'v \<Rightarrow>
   ('t, 'v, 'b, 'm, ('t, 'v) emitted) gen" where
  "emit_element L d ns elem obj idx =
     (case obj of
        (_, Some (p, pointee)) \<Rightarrow>
          if is_array_type ns then
            gbind (build L (BuildGEP pointee p [i64_const L 0, idx] ''arr.elem.ptr'')) (\<lambda>gep.
            lvalue L elem gep ''arr.elem'')
          else
            gbind (data_at L d ns p) (\<lambda>data.
            gbind (build L (BuildGEP elem data [idx] ''idx.ptr'')) (\<lambda>gep.
            lvalue L elem gep ''idx.val''))
      | (v, None) \<Rightarrow>
          if is_slice_type ns then
            gbind (build L (BuildExtractValue v 0 ''sl.ptr'')) (\<lambda>data.
            gbind (build L (BuildGEP elem data [idx] ''idx.ptr'')) (\<lambda>gep.
            lvalue L elem gep ''idx.val''))
          else
            gbind (build L (BuildGEP elem v [idx] ''ptr.idx'')) (\<lambda>gep.
            lvalue L elem gep ''ptr.val''))"

definition emit_index ::
  "('t, 'v, 'b, 'm) llvm \<Rightarrow> ('t, 'v, 'b, 'm) emitter \<Rightarrow> nat \<Rightarrow> node \<Rightarrow> node \<Rightarrow> node \<Rightarrow>
   ('t, 'v, 'b, 'm, ('t, 'v) emitted) gen" where
  "emit_index L rec d n obj idx =
     gbind (rec obj) (\<lambda>o_val.
     gbind (value_of (rec idx)) (\<lambda>i_val.
     gget (\<lambda>g. (llg_infer_type g obj, llg_infer_type g n)) (\<lambda>(ns, elem_ns).
     gbind (ll_or L d (int_type L 32) elem_ns) (\<lambda>elem.
     emit_element L d ns elem o_val i_val))))"

subsection \<open>Slices\<close>

text \<open>The data pointer and, for slices and texts, the length of what is sliced.\<close>

definition slice_parts ::
  "('t, 'v, 'b, 'm) llvm \<Rightarrow> 't \<Rightarrow> string \<Rightarrow> ('t, 'v) emitted \<Rightarrow> ('t, 'v, 'b, 'm, 'v \<times> 'v option) gen" where
  "slice_parts L ty s obj =
     (case obj of
        (_, Some (p, _)) \<Rightarrow>
          gbind (build L (BuildStructGEP ty p 0 (s @ ''.ptr.f''))) (\<lambda>ptr_fld.
          gbind (build L (BuildStructGEP ty p 1 (s @ ''.len.f''))) (\<lambda>len_fld.
          gbind (build L (BuildLoad (pointer_type L) ptr_fld (s @ ''.data''))) (\<lambda>data.
          gbind (build L (BuildLoad (int_type L 64) len_fld (s @ ''.len''))) (\<lambda>len.
          gret (data, Some len)))))
      | (v, None) \<Rightarrow>
          gbind (build L (BuildExtractValue v 0 (s @ ''.data''))) (\<lambda>data.
          gbind (build L (BuildExtractValue v 1 (s @ ''.len''))) (\<lambda>len.
          gret (data, Some len))))"

definition slice_base ::
  "('t, 'v, 'b, 'm) llvm \<Rightarrow> nat \<Rightarrow> node option \<Rightarrow> ('t, 'v) emitted \<Rightarrow>
   ('t, 'v, 'b, 'm, ('v \<times> 'v option) \<times> node option) gen" where
  "slice_base L d ns obj =
     (if is_slice_type ns then
        gbind (llg_opt_to_ll L d ns) (\<lambda>ty.
        gbind (slice_parts L ty ''sl'' obj) (\<lambda>r. gret (r, Option.bind ns element_type)))
      else (case text_type ns of
        Some s \<Rightarrow>
          gbind (llg_ns_to_ll L d s) (\<lambda>ty. gbind (slice_parts L ty ''s'' obj) (\<lambda>r. gret (r, None)))
      | None \<Rightarrow>
          (case obj of
             (_, Some (p, _)) \<Rightarrow>
               gret ((p, None), case map_option nas ns of Some (NODE_TYPE_POINTER inner _ _) \<Rightarrow> Some inner | _ \<Rightarrow> None)
           | (v, None) \<Rightarrow> gret ((v, None), None))))"

text \<open>A bound that is not an \<^verbatim>\<open>i64\<close> is zero-extended, whatever its sign.\<close>

definition as_i64 :: "('t, 'v, 'b, 'm) llvm \<Rightarrow> string \<Rightarrow> 'v \<Rightarrow> ('t, 'v, 'b, 'm, 'v) gen" where
  "as_i64 L s v = (if type_of L v = int_type L 64 then gret v else build L (BuildCast CastZExt v (int_type L 64) s))"

definition emit_slice_length ::
  "('t, 'v, 'b, 'm) llvm \<Rightarrow> ('t, 'v, 'b, 'm) emitter \<Rightarrow> node option \<Rightarrow> 'v option \<Rightarrow> 'v \<Rightarrow>
   ('t, 'v, 'b, 'm, 'v) gen" where
  "emit_slice_length L rec hi orig lo_v =
     (case hi of
        Some e \<Rightarrow>
          gbind (value_of (rec e)) (\<lambda>end_v.
          gbind (as_i64 L ''end.i64'' end_v) (\<lambda>end_v.
          build L (BuildBinary OpSub end_v lo_v ''slice.len'')))
      | None \<Rightarrow>
          build L (BuildBinary OpSub (case orig of Some len \<Rightarrow> len | None \<Rightarrow> i64_const L 0) lo_v ''slice.len''))"

definition emit_slice ::
  "('t, 'v, 'b, 'm) llvm \<Rightarrow> ('t, 'v, 'b, 'm) emitter \<Rightarrow> nat \<Rightarrow> node \<Rightarrow> node option \<Rightarrow> node option \<Rightarrow>
   ('t, 'v, 'b, 'm, 'v) gen" where
  "emit_slice L rec d obj lo hi =
     gget (\<lambda>g. llg_infer_type g obj) (\<lambda>ns.
     gbind (rec obj) (\<lambda>o_val.
     gbind (case lo of Some e \<Rightarrow> value_of (rec e) | None \<Rightarrow> gret (i64_const L 0)) (\<lambda>lo_v.
     gbind (slice_base L d ns o_val) (\<lambda>((data, orig), elem_ns).
     gbind (ll_or L d (int_type L 8) elem_ns) (\<lambda>elem.
     gbind (as_i64 L ''start.i64'' lo_v) (\<lambda>lo_v.
     gbind (build L (BuildGEP elem data [lo_v] ''slice.ptr'')) (\<lambda>ptr.
     gbind (emit_slice_length L rec hi orig lo_v) (\<lambda>len.
     gbind (build L (BuildInsertValue (undef_value L (struct_type L [pointer_type L, int_type L 64])) ptr 0 ''sl.new.ptr'')) (\<lambda>sl.
     build L (BuildInsertValue sl len 1 ''sl.new.len'')))))))))) "

subsection \<open>Assignments and struct literals\<close>

definition emit_assign ::
  "('t, 'v, 'b, 'm) llvm \<Rightarrow> ('t, 'v, 'b, 'm) emitter \<Rightarrow> node \<Rightarrow> node \<Rightarrow> string option \<Rightarrow> ('t, 'v, 'b, 'm, 'v) gen" where
  "emit_assign L rec target x op =
     gbind (rec target) (\<lambda>(cur_val, lv).
     gbind (value_of (rec x)) (\<lambda>rhs.
     gget (\<lambda>g. name_or_i32 (llg_infer_type g target)) (\<lambda>tname.
     gbind
       (case (op, lv) of
          (Some s, Some (_, ty)) \<Rightarrow>
            (case arith_op (is_float (kind_of L ty)) (lg_is_signed tname) s of
               Some (i, _) \<Rightarrow> build L (BuildBinary i cur_val rhs [])
             | None \<Rightarrow> gret rhs)
        | _ \<Rightarrow> gret rhs) (\<lambda>v.
     gbind (case lv of Some (ptr, _) \<Rightarrow> perform L (BuildStore v ptr) | None \<Rightarrow> gret ()) (\<lambda>_.
     gret v)))))"

text \<open>The values go to the members with their names, where the struct is declared.\<close>

primrec emit_members ::
  "('t, 'v, 'b, 'm) llvm \<Rightarrow> ('t, 'v, 'b, 'm) emitter \<Rightarrow> string list \<Rightarrow> (string \<times> node) list \<Rightarrow> nat \<Rightarrow> 'v \<Rightarrow>
   ('t, 'v, 'b, 'm, 'v) gen" where
  "emit_members L rec fs [] i agg = gret agg"
| "emit_members L rec fs (init # inits) i agg =
     gbind (value_of (rec (snd init))) (\<lambda>v.
     gbind (build L (BuildInsertValue agg v (case index_of (fst init) fs of Some j \<Rightarrow> j | None \<Rightarrow> i) ''sf'')) (\<lambda>agg.
     emit_members L rec fs inits (Suc i) agg))"

definition emit_struct_lit ::
  "('t, 'v, 'b, 'm) llvm \<Rightarrow> ('t, 'v, 'b, 'm) emitter \<Rightarrow> nat \<Rightarrow> string \<Rightarrow> (string \<times> node) list \<Rightarrow>
   ('t, 'v, 'b, 'm, 'v) gen" where
  "emit_struct_lit L rec d tname inits =
     gbind (registered tname (llg_ns_to_ll L d tname)) (\<lambda>ty.
     gget (\<lambda>g. case lg_find_decl (lg_decls g) LG_STRUCT tname of
                 Some sd \<Rightarrow> map let_name (composite_fields sd) | None \<Rightarrow> []) (\<lambda>fs.
     emit_members L rec fs inits 0 (undef_value L ty)))"

end
