(* ===== verification/Gen_Match.thy ===== *)
theory Gen_Match
  imports Gen_Index
begin

text \<open>
  The translation of \<^verbatim>\<open>match\<close> in \<^verbatim>\<open>llg_emit_expr\<close> and \<^verbatim>\<open>lg_match_cond\<close>: the condition of a pattern, the
  variables it binds, and the chain of blocks for the arms.
\<close>

subsection \<open>Numbers in patterns\<close>

text \<open>
  \<^verbatim>\<open>strtoll(s, NULL, 0)\<close>: blanks, a sign, a prefix that chooses the base, digits; out of range it returns the
  nearest bound.
\<close>

definition digit_of :: "nat \<Rightarrow> char \<Rightarrow> nat option" where
  "digit_of base c =
     (let n = of_char c :: nat;
          v = (if isdigit c then n - 48 else if in_range 97 122 c then n - 87
               else if in_range 65 90 c then n - 55 else 36)
      in if v < base then Some v else None)"

fun digits_value :: "nat \<Rightarrow> nat \<Rightarrow> string \<Rightarrow> nat" where
  "digits_value base acc [] = acc"
| "digits_value base acc (c # cs) =
     (case digit_of base c of None \<Rightarrow> acc | Some v \<Rightarrow> digits_value base (acc * base + v) cs)"

definition unsigned_value :: "string \<Rightarrow> nat" where
  "unsigned_value s =
     (if c_at s 0 = CHR ''0'' \<and> c_at s 1 \<in> {CHR ''x'', CHR ''X''} \<and> digit_of 16 (c_at s 2) \<noteq> None then
        digits_value 16 0 (drop 2 s)
      else if c_at s 0 = CHR ''0'' then digits_value 8 0 s
      else digits_value 10 0 s)"

definition strtoll :: "string \<Rightarrow> int" where
  "strtoll str =
     (let s = dropWhile isspace str in
      if c_at s 0 = CHR ''-'' then max (- (2 ^ 63)) (- int (unsigned_value (drop 1 s)))
      else min (2 ^ 63 - 1) (int (unsigned_value (if c_at s 0 = CHR ''+'' then drop 1 s else s))))"

subsection \<open>Conditions\<close>

text \<open>The enum and the variant of a pattern \<^verbatim>\<open>Enum.Variant\<close>; the name of the enum is cut to fit its buffer.\<close>

definition enum_pattern :: "string \<Rightarrow> (string \<times> string) option" where
  "enum_pattern pat = map_option (\<lambda>i. (take (min i 127) pat, drop (Suc i) pat)) (strchr pat (CHR ''.''))"

definition variant_index :: "node list \<Rightarrow> string \<Rightarrow> string \<Rightarrow> nat option" where
  "variant_index ds en var = Option.bind (lg_find_decl ds LG_ENUM en) (\<lambda>ed. index_of var (enum_variants ed))"

definition variant_fields :: "node list \<Rightarrow> string \<Rightarrow> nat \<Rightarrow> node list" where
  "variant_fields ds en i =
     (case map_option nas (lg_find_decl ds LG_ENUM en) of
        Some (NODE_ENUM_DECL _ _ vs _) \<Rightarrow> if i < length vs then snd (vs ! i) else []
      | _ \<Rightarrow> [])"

text \<open>The flag of the subject, an \<open>Option\<close> or a \<open>Result\<close>.\<close>

definition load_flag :: "('t, 'v, 'b, 'm) llvm \<Rightarrow> 'v \<Rightarrow> 't \<Rightarrow> string \<Rightarrow> ('t, 'v, 'b, 'm, 'v) gen" where
  "load_flag L slot ty s =
     gbind (build L (BuildLoad ty slot [])) (\<lambda>v. build L (BuildExtractValue v 0 s))"

definition never :: "('t, 'v, 'b, 'm) llvm \<Rightarrow> ('t, 'v, 'b, 'm, 'v) gen" where
  "never L = gret (i1_const L 0)"

definition variant_cond ::
  "('t, 'v, 'b, 'm) llvm \<Rightarrow> 'v \<Rightarrow> 't \<Rightarrow> string \<Rightarrow> string \<Rightarrow> ('t, 'v, 'b, 'm, 'v) gen" where
  "variant_cond L slot ty en var =
     gget (\<lambda>g. variant_index (lg_decls g) en var) (\<lambda>idx. case idx of
       None \<Rightarrow> never L
     | Some i \<Rightarrow>
         gbind (build L (BuildLoad ty slot [])) (\<lambda>v.
         gbind (if kind_of L ty = IntegerTypeKind then gret v else build L (BuildExtractValue v 0 ''tag'')) (\<lambda>tag.
         build L (BuildCmp IntEQ tag (const_int L (type_of L tag) (of_nat i)) ''variant_cmp''))))"

definition lg_match_cond ::
  "('t, 'v, 'b, 'm) llvm \<Rightarrow> 'v \<Rightarrow> 't \<Rightarrow> node option \<Rightarrow> string \<Rightarrow> ('t, 'v, 'b, 'm, 'v) gen" where
  "lg_match_cond L slot ty ns pat =
     (case Option.bind ns type_node_name of
        None \<Rightarrow> never L
      | Some s \<Rightarrow>
          if lg_type_form s ''Option'' then
            (if pat = ''None'' then gbind (load_flag L slot ty ''is_some'') (\<lambda>f. build L (BuildNot f ''is_none''))
             else if pat = ''Some'' then load_flag L slot ty ''is_some''
             else never L)
          else if lg_type_form s ''Result'' then
            gbind (load_flag L slot ty ''is_ok'') (\<lambda>f.
            if pat = ''Ok'' then gret f
            else if pat = ''Err'' then build L (BuildNot f ''is_err'')
            else never L)
          else
            (case enum_pattern pat of
               Some (en, var) \<Rightarrow> variant_cond L slot ty en var
             | None \<Rightarrow>
                 gbind (build L (BuildLoad ty slot [])) (\<lambda>v.
                 build L (BuildCmp IntEQ v (const_int L (type_of L v) (word_of_int (strtoll pat))) ''match_cmp''))))"

subsection \<open>Variables bound by a pattern\<close>

text \<open>The bytes that fields take in the payload of a variant, in 32 bits.\<close>

primrec payload_size :: "('t, 'v, 'b, 'm) llvm \<Rightarrow> nat \<Rightarrow> node list \<Rightarrow> 32 word \<Rightarrow> ('t, 'v, 'b, 'm, 32 word) gen" where
  "payload_size L d [] off = gret off"
| "payload_size L d (f # fs) off =
     gbind (llg_opt_to_ll L d (let_type f)) (\<lambda>ty. payload_size L d fs (off + of_nat (store_size L ty)))"

text \<open>The address of the bytes from \<open>off\<close> in the payload of a variant at \<open>p\<close>.\<close>

definition payload_at ::
  "('t, 'v, 'b, 'm) llvm \<Rightarrow> 't \<Rightarrow> 'v \<Rightarrow> 32 word \<Rightarrow> string \<Rightarrow> ('t, 'v, 'b, 'm, 'v) gen" where
  "payload_at L enum_ty payload off s =
     build L (BuildGEP (field_type L enum_ty 1) payload [i32_const L 0, i32_const L (ucast off)] s)"

text \<open>Binding \<open>j\<close> of a variant with the fields \<open>fs\<close>.\<close>

definition variant_binding ::
  "('t, 'v, 'b, 'm) llvm \<Rightarrow> nat \<Rightarrow> 'v \<Rightarrow> string \<Rightarrow> node list \<Rightarrow> nat \<Rightarrow> string \<Rightarrow> ('t, 'v, 'b, 'm, 't \<times> 'v) gen" where
  "variant_binding L d slot en fs j bname =
     gbind (payload_size L d (take j fs) 0) (\<lambda>off.
     if j < length fs then
       gbind (llg_opt_to_ll L d (let_type (fs ! j))) (\<lambda>ty.
       gbind (llg_ns_to_ll L d en) (\<lambda>enum_ty.
       gbind (build L (BuildStructGEP enum_ty slot 1 ''pl.ptr'')) (\<lambda>payload.
       gbind (payload_at L enum_ty payload off ''fld.ptr'') (\<lambda>p.
       gbind (build L (BuildLoad ty p bname)) (\<lambda>v. gret (ty, v))))))
     else gret (int_type L 32, i32_const L 0))"

definition binding_value ::
  "('t, 'v, 'b, 'm) llvm \<Rightarrow> nat \<Rightarrow> 'v \<Rightarrow> 'v \<Rightarrow> string \<Rightarrow> string \<Rightarrow> nat \<Rightarrow> string \<Rightarrow> ('t, 'v, 'b, 'm, 't \<times> 'v) gen" where
  "binding_value L d slot v s pat j bname =
     (if lg_type_form s ''Option'' then
        gbind (case lg_extract_inner s of Some inner \<Rightarrow> llg_ns_to_ll L d inner | None \<Rightarrow> gret (int_type L 32)) (\<lambda>ty.
        gbind (build L (BuildExtractValue v 1 bname)) (\<lambda>x. gret (ty, x)))
      else if lg_type_form s ''Result'' then
        (case Option.bind (lg_extract_inner s) lg_split_comma of
           Some (ok, err) \<Rightarrow>
             gbind (llg_ns_to_ll L d (if pat = ''Ok'' then ok else err)) (\<lambda>ty.
             gbind (build L (BuildExtractValue v (if pat = ''Ok'' then 1 else 2) bname)) (\<lambda>x. gret (ty, x)))
         | None \<Rightarrow> gret (int_type L 32, i32_const L 0))
      else
        gget lg_decls (\<lambda>ds.
        case enum_pattern pat of
          None \<Rightarrow> gret (int_type L 32, i32_const L 0)
        | Some (en, var) \<Rightarrow>
            (case variant_index ds en var of
               None \<Rightarrow> gret (int_type L 32, i32_const L 0)
             | Some i \<Rightarrow> variant_binding L d slot en (variant_fields ds en i) j bname)))"

definition emit_bind_one ::
  "('t, 'v, 'b, 'm) llvm \<Rightarrow> nat \<Rightarrow> 'v \<Rightarrow> 't \<Rightarrow> node option \<Rightarrow> string \<Rightarrow> nat \<times> string \<Rightarrow> ('t, 'v, 'b, 'm, unit) gen" where
  "emit_bind_one L d slot subj_ty ns pat jb =
     gbind (build L (BuildLoad subj_ty slot ''subj'')) (\<lambda>v.
     gbind (case Option.bind ns type_node_name of
              Some s \<Rightarrow> binding_value L d slot v s pat (fst jb) (snd jb)
            | None \<Rightarrow> gret (int_type L 32, i32_const L 0)) (\<lambda>(ty, x).
     gbind (build L (BuildAlloca ty (snd jb))) (\<lambda>a.
     gbind (perform L (BuildStore x a)) (\<lambda>_.
     lg_define (snd jb) a ty None))))"

definition emit_bindings ::
  "('t, 'v, 'b, 'm) llvm \<Rightarrow> nat \<Rightarrow> 'v \<Rightarrow> 't \<Rightarrow> node option \<Rightarrow> string \<Rightarrow> string list \<Rightarrow> ('t, 'v, 'b, 'm, unit) gen" where
  "emit_bindings L d slot subj_ty ns pat bs =
     gwhen (bs \<noteq> []) (gbind lg_push_scope (\<lambda>_. giter (emit_bind_one L d slot subj_ty ns pat) (enumerate 0 bs)))"

subsection \<open>The arms\<close>

definition emit_arm_test ::
  "('t, 'v, 'b, 'm) llvm \<Rightarrow> 'v \<Rightarrow> 't \<Rightarrow> node option \<Rightarrow> string \<Rightarrow> 'b \<Rightarrow> 'b \<Rightarrow> ('t, 'v, 'b, 'm, unit) gen" where
  "emit_arm_test L slot subj_ty ns pat arm_bb next_bb =
     (if pat \<noteq> ''_'' then
        gbind (lg_match_cond L slot subj_ty ns pat) (\<lambda>c. perform L (BuildCondBr c arm_bb next_bb))
      else perform L (BuildBr arm_bb))"

primrec emit_arms ::
  "('t, 'v, 'b, 'm) llvm \<Rightarrow> ('t, 'v, 'b, 'm) emitter \<Rightarrow> nat \<Rightarrow> 'v \<Rightarrow> 't \<Rightarrow> node option \<Rightarrow> 'v \<Rightarrow> 'b \<Rightarrow>
   (string \<times> string list \<times> node) list \<Rightarrow> ('t, 'v, 'b, 'm, unit) gen" where
  "emit_arms L rec d slot subj_ty ns res done_bb [] = gret ()"
| "emit_arms L rec d slot subj_ty ns res done_bb (arm # arms) =
     (case arm of (pat, bs, x) \<Rightarrow>
      gbind (fresh_block L ''match_arm'') (\<lambda>arm_bb.
      gbind (if arms = [] then gret done_bb else fresh_block L ''match_next'') (\<lambda>next_bb.
      gbind (emit_arm_test L slot subj_ty ns pat arm_bb next_bb) (\<lambda>_.
      gbind (goto_block L arm_bb) (\<lambda>_.
      gbind (emit_bindings L d slot subj_ty ns pat bs) (\<lambda>_.
      gbind (value_of (rec x)) (\<lambda>v.
      gbind (perform L (BuildStore v res)) (\<lambda>_.
      gbind (gwhen (bs \<noteq> []) lg_pop_scope) (\<lambda>_.
      gbind (branch_unless_ended L done_bb) (\<lambda>_.
      gbind (gwhen (next_bb \<noteq> done_bb) (goto_block L next_bb)) (\<lambda>_.
      emit_arms L rec d slot subj_ty ns res done_bb arms)))))))))))"

definition fresh_tmp :: "('t, 'v, 'b, 'm, string) gen" where
  "fresh_tmp = gget tmp_counter (\<lambda>n. gbind (gset (\<lambda>g. g\<lparr>tmp_counter := Suc n\<rparr>)) (\<lambda>_. gret (lg_tmp_name n)))"

definition emit_match ::
  "('t, 'v, 'b, 'm) llvm \<Rightarrow> ('t, 'v, 'b, 'm) emitter \<Rightarrow> nat \<Rightarrow> node \<Rightarrow> (string \<times> string list \<times> node) list \<Rightarrow>
   ('t, 'v, 'b, 'm, 'v) gen" where
  "emit_match L rec d subject arms =
     (case arms of
        [] \<Rightarrow> gret (i32_const L 0)
      | (_, _, first) # _ \<Rightarrow>
          gget (\<lambda>g. llg_infer_type g subject) (\<lambda>ns.
          gbind (ll_or L d (int_type L 32) ns) (\<lambda>subj_ty.
          gget (\<lambda>g. llg_infer_type g first) (\<lambda>res_ns.
          gbind (ll_or L d (int_type L 32) res_ns) (\<lambda>res_ty.
          gbind fresh_tmp (\<lambda>subj_name.
          gbind fresh_tmp (\<lambda>res_name.
          gbind (build L (BuildAlloca subj_ty subj_name)) (\<lambda>slot.
          gbind (build L (BuildAlloca res_ty res_name)) (\<lambda>res.
          gbind (value_of (rec subject)) (\<lambda>v.
          gbind (perform L (BuildStore v slot)) (\<lambda>_.
          gbind (fresh_block L ''match_done'') (\<lambda>done_bb.
          gbind (emit_arms L rec d slot subj_ty ns res done_bb arms) (\<lambda>_.
          gbind (goto_block L done_bb) (\<lambda>_.
          build L (BuildLoad res_ty res ''match_result'')))))))))))))))"

end
