(* ===== verification/Gen_Call.thy ===== *)
theory Gen_Call
  imports Gen_Match
begin

text \<open>
  The translation of calls in \<^verbatim>\<open>llg_emit_expr\<close>: what is called, in the order in which the code looks for it,
  and the arguments; then \<^verbatim>\<open>llg_emit_expr\<close> itself.
\<close>

subsection \<open>What is called\<close>

text \<open>A function with its type and its declared result.\<close>

type_synonym ('t, 'v) callee = "'v \<times> 't \<times> node option"

definition global_callee :: "('t, 'v, 'b, 'm) lg \<Rightarrow> string \<Rightarrow> ('t, 'v) callee option" where
  "global_callee g s = map_option (\<lambda>gl. (gl_value gl, gl_type gl, gl_ret gl)) (lg_find_global g s)"

definition BUILTIN_ALIASES :: "(string \<times> string) list" where
  "BUILTIN_ALIASES =
    [(''println'', ''NS_println''), (''print'', ''NS_print''), (''print_int'', ''ns_io_print_i32''),
     (''print_i32'', ''ns_io_print_i32''), (''print_i64'', ''ns_io_print_i64''),
     (''print_u32'', ''ns_io_print_u32''), (''print_u64'', ''ns_io_print_u64''),
     (''print_f64'', ''ns_io_print_f64''), (''print_bool'', ''ns_io_print_bool''),
     (''read_int'', ''ns_io_read_i32''), (''readln'', ''ns_io_readln'')]"

text \<open>A function of this name, or the runtime function that a built-in name stands for.\<close>

definition named_callee :: "('t, 'v, 'b, 'm) lg \<Rightarrow> string \<Rightarrow> ('t, 'v) callee option" where
  "named_callee g s =
     or_else (global_callee g s) (Option.bind (map_of BUILTIN_ALIASES s) (global_callee g))"

text \<open>The type argument of \<^verbatim>\<open>f[T](...)\<close>.\<close>

definition call_type_arg :: "node \<Rightarrow> string option" where
  "call_type_arg ta = or_else (ident_name ta) (type_node_name ta)"

definition instance_callee :: "('t, 'v, 'b, 'm) lg \<Rightarrow> string \<Rightarrow> node \<Rightarrow> ('t, 'v) callee option" where
  "instance_callee g s ta =
     Option.bind (call_type_arg ta) (\<lambda>t. global_callee g (lg_mangle 256 s (Some t)))"

text \<open>\<^verbatim>\<open>snprintf\<close> into a buffer of 512 bytes.\<close>

definition method_symbol :: "string \<Rightarrow> string \<Rightarrow> string" where
  "method_symbol owner method = take 511 (owner @ underscore # method)"

definition METHOD_HELPERS :: "(string \<times> string) list" where
  "METHOD_HELPERS =
    [(''as_str'', ''NS_string_as_str''), (''free'', ''NS_string_free''), (''push_str'', ''NS_string_push_str'')]"

definition obj_names_type :: "node list \<Rightarrow> node \<Rightarrow> bool" where
  "obj_names_type ds obj = (case ident_name obj of Some s \<Rightarrow> lg_is_known_type ds s | None \<Rightarrow> False)"

definition declared_method :: "node list \<Rightarrow> node \<Rightarrow> string \<Rightarrow> string \<Rightarrow> node option" where
  "declared_method ds obj owner method =
     or_else (lg_find_method ds owner method)
       (if obj_names_type ds obj then Option.bind (ident_name obj) (\<lambda>s. lg_find_method ds s method) else None)"

text \<open>The function of a declared method of the type of \<open>obj\<close>.\<close>

definition user_method :: "('t, 'v, 'b, 'm) lg \<Rightarrow> node \<Rightarrow> string \<Rightarrow> ('t, 'v) callee option" where
  "user_method g obj method =
     Option.bind (Option.bind (llg_infer_type g obj) owner_of) (\<lambda>owner.
     Option.bind (declared_method (lg_decls g) obj owner method) (\<lambda>_.
     global_callee g (method_symbol owner method)))"

definition helper_method :: "('t, 'v, 'b, 'm) lg \<Rightarrow> string \<Rightarrow> ('t, 'v) callee option" where
  "helper_method g method = Option.bind (map_of METHOD_HELPERS method) (global_callee g)"

subsection \<open>The call\<close>

primrec coerce_args :: "('t, 'v, 'b, 'm) llvm \<Rightarrow> 'v list \<Rightarrow> 't list \<Rightarrow> ('t, 'v, 'b, 'm, 'v list) gen" where
  "coerce_args L [] ptys = gret []"
| "coerce_args L (v # vs) ptys =
     (case ptys of
        [] \<Rightarrow> gret (v # vs)
      | ty # tys \<Rightarrow>
          gbind (lg_coerce_arg L v ty) (\<lambda>v. gbind (coerce_args L vs tys) (\<lambda>vs. gret (v # vs))))"

definition call_with ::
  "('t, 'v, 'b, 'm) llvm \<Rightarrow> nat \<Rightarrow> ('t, 'v) callee \<Rightarrow> 'v list \<Rightarrow> ('t, 'v, 'b, 'm, 'v) gen" where
  "call_with L d f args =
     (case f of (fn_val, fn_ty, ret_ns) \<Rightarrow>
      gbind (coerce_args L args (param_types L fn_ty)) (\<lambda>args.
      gbind (llg_opt_to_ll L d ret_ns) (\<lambda>ret.
      build L (BuildCall fn_ty fn_val args (if kind_of L ret = VoidTypeKind then [] else ''call'')))))"

definition emit_values :: "('t, 'v, 'b, 'm) emitter \<Rightarrow> node list \<Rightarrow> ('t, 'v, 'b, 'm, 'v list) gen" where
  "emit_values rec es = gmap (\<lambda>e. value_of (rec e)) es"

definition call_plain ::
  "('t, 'v, 'b, 'm) llvm \<Rightarrow> ('t, 'v, 'b, 'm) emitter \<Rightarrow> nat \<Rightarrow> ('t, 'v) callee \<Rightarrow> node list \<Rightarrow>
   ('t, 'v, 'b, 'm, 'v) gen" where
  "call_plain L rec d f args = gbind (emit_values rec args) (call_with L d f)"

text \<open>The object is passed as the first argument, by address if the function takes a pointer there.\<close>

definition emit_self ::
  "('t, 'v, 'b, 'm) llvm \<Rightarrow> ('t, 'v, 'b, 'm) emitter \<Rightarrow> 't list \<Rightarrow> node \<Rightarrow> ('t, 'v, 'b, 'm, 'v list) gen" where
  "emit_self L rec ptys obj =
     gget (\<lambda>g. obj_names_type (lg_decls g) obj) (\<lambda>is_type.
     if is_type then gret []
     else
       gbind (rec obj) (\<lambda>(v, lv).
       gret [case (ptys, lv) of
               (ty # _, Some (ptr, _)) \<Rightarrow> if kind_of L ty = PointerTypeKind then ptr else v
             | _ \<Rightarrow> v]))"

definition call_method ::
  "('t, 'v, 'b, 'm) llvm \<Rightarrow> ('t, 'v, 'b, 'm) emitter \<Rightarrow> nat \<Rightarrow> ('t, 'v) callee \<Rightarrow> node \<Rightarrow> node list \<Rightarrow>
   ('t, 'v, 'b, 'm, 'v) gen" where
  "call_method L rec d f obj args =
     gbind (emit_self L rec (param_types L (fst (snd f))) obj) (\<lambda>self.
     gbind (emit_values rec args) (\<lambda>vs.
     call_with L d f (self @ vs)))"

subsection \<open>Constructors\<close>

text \<open>The payload of a variant is written field by field, at the sum of the sizes before it.\<close>

primrec emit_payload ::
  "('t, 'v, 'b, 'm) llvm \<Rightarrow> ('t, 'v, 'b, 'm) emitter \<Rightarrow> nat \<Rightarrow> 't \<Rightarrow> 'v \<Rightarrow> (node \<times> node) list \<Rightarrow> 32 word \<Rightarrow>
   ('t, 'v, 'b, 'm, unit) gen" where
  "emit_payload L rec d enum_ty payload [] off = gret ()"
| "emit_payload L rec d enum_ty payload (af # afs) off =
     gbind (llg_opt_to_ll L d (let_type (snd af))) (\<lambda>ty.
     gbind (value_of (rec (fst af))) (\<lambda>v.
     gbind (lg_coerce_arg L v ty) (\<lambda>v.
     gbind (payload_at L enum_ty payload off ''ev.fld.ptr'') (\<lambda>p.
     gbind (perform L (BuildStore v p)) (\<lambda>_.
     emit_payload L rec d enum_ty payload afs (off + of_nat (store_size L ty)))))))"

definition emit_variant_value ::
  "('t, 'v, 'b, 'm) llvm \<Rightarrow> ('t, 'v, 'b, 'm) emitter \<Rightarrow> nat \<Rightarrow> string \<Rightarrow> nat \<Rightarrow> node list \<Rightarrow> node list \<Rightarrow>
   ('t, 'v, 'b, 'm, 'v) gen" where
  "emit_variant_value L rec d en i fs args =
     gbind (llg_ns_to_ll L d en) (\<lambda>enum_ty.
     gbind (build L (BuildAlloca enum_ty ''ev.tmp'')) (\<lambda>ev.
     gbind (build L (BuildStructGEP enum_ty ev 0 ''ev.tag.ptr'')) (\<lambda>tag_ptr.
     gbind (perform L (BuildStore (i32_const L (of_nat i)) tag_ptr)) (\<lambda>_.
     gbind (build L (BuildStructGEP enum_ty ev 1 ''ev.pl.ptr'')) (\<lambda>payload.
     gbind (emit_payload L rec d enum_ty payload (zip args fs) 0) (\<lambda>_.
     build L (BuildLoad enum_ty ev ''ev.val'')))))))"

text \<open>The variant with fields that \<^verbatim>\<open>Enum.Variant(...)\<close> constructs.\<close>

definition constructed_variant :: "node list \<Rightarrow> node \<Rightarrow> string \<Rightarrow> node list \<Rightarrow> (string \<times> nat \<times> node list) option" where
  "constructed_variant ds obj var args =
     (if args = [] then None
      else Option.bind (ident_name obj) (\<lambda>en.
        Option.bind (variant_index ds en var) (\<lambda>i.
        if variant_fields ds en i = [] then None else Some (en, i, variant_fields ds en i))))"

text \<open>\<^verbatim>\<open>String.from\<close> writes its result through a pointer; its first argument is read without a check.\<close>

definition emit_string_from ::
  "('t, 'v, 'b, 'm) llvm \<Rightarrow> ('t, 'v, 'b, 'm) emitter \<Rightarrow> nat \<Rightarrow> ('t, 'v) callee \<Rightarrow> node list \<Rightarrow>
   ('t, 'v, 'b, 'm, 'v) gen" where
  "emit_string_from L rec d f args =
     (case f of (fn_val, fn_ty, _) \<Rightarrow>
      gbind (llg_ns_to_ll L d ''String'') (\<lambda>ty.
      gbind (build L (BuildAlloca ty ''sng.tmp'')) (\<lambda>out_ptr.
      case args of
        [] \<Rightarrow> gfail NoArgument
      | x # _ \<Rightarrow>
          gbind (value_of (rec x)) (\<lambda>s_arg.
          gbind (case param_types L fn_ty of _ # ty # _ \<Rightarrow> lg_coerce_arg L s_arg ty | _ \<Rightarrow> gret s_arg) (\<lambda>s_arg.
          gbind (perform L (BuildCall fn_ty fn_val [out_ptr, s_arg] [])) (\<lambda>_.
          build L (BuildLoad ty out_ptr ''sng.val'')))))))"

text \<open>\<^verbatim>\<open>Some\<close>, \<^verbatim>\<open>Ok\<close> and \<^verbatim>\<open>Err\<close>: a flag and a value in member \<open>i\<close>.\<close>

definition emit_wrapped ::
  "('t, 'v, 'b, 'm) llvm \<Rightarrow> 't \<Rightarrow> 64 word \<Rightarrow> nat \<Rightarrow> string \<Rightarrow> 'v \<Rightarrow> ('t, 'v, 'b, 'm, 'v) gen" where
  "emit_wrapped L ty flag i s v =
     gbind (build L (BuildInsertValue (undef_value L ty) (i1_const L flag) 0 (s @ ''.flag''))) (\<lambda>agg.
     build L (BuildInsertValue agg v i (s @ ''.val'')))"

definition emit_some ::
  "('t, 'v, 'b, 'm) llvm \<Rightarrow> ('t, 'v, 'b, 'm) emitter \<Rightarrow> nat \<Rightarrow> node \<Rightarrow> ('t, 'v, 'b, 'm, 'v) gen" where
  "emit_some L rec d x =
     gbind (value_of (rec x)) (\<lambda>v.
     gget (ret_form ''Option'') (\<lambda>opt.
     gbind (case opt of Some s \<Rightarrow> llg_ns_to_ll L d s | None \<Rightarrow> gret (struct_type L [int_type L 1, type_of L v])) (\<lambda>ty.
     emit_wrapped L ty 1 1 ''some'' v)))"

definition emit_result ::
  "('t, 'v, 'b, 'm) llvm \<Rightarrow> ('t, 'v, 'b, 'm) emitter \<Rightarrow> nat \<Rightarrow> string \<Rightarrow> string \<Rightarrow> node \<Rightarrow> ('t, 'v, 'b, 'm, 'v) gen" where
  "emit_result L rec d ret s x =
     gbind (value_of (rec x)) (\<lambda>v.
     gbind (llg_ns_to_ll L d ret) (\<lambda>ty.
     if s = ''Ok'' then emit_wrapped L ty 1 1 ''ok'' v else emit_wrapped L ty 0 2 ''err'' v))"

text \<open>A call of an unknown name: a constructor, or else the constant 0.\<close>

definition emit_unknown ::
  "('t, 'v, 'b, 'm) llvm \<Rightarrow> ('t, 'v, 'b, 'm) emitter \<Rightarrow> nat \<Rightarrow> string \<Rightarrow> node list \<Rightarrow> ('t, 'v, 'b, 'm, 'v) gen" where
  "emit_unknown L rec d s args =
     gget (\<lambda>g. (ret_form ''Option'' g, ret_form ''Result'' g)) (\<lambda>(opt, res).
     case args of
       [] \<Rightarrow>
         (case (if s = ''None'' then opt else None) of
            Some ret \<Rightarrow> emit_none L d ret
          | None \<Rightarrow> gret (i32_const L 0))
     | [x] \<Rightarrow>
         (if s = ''Some'' then emit_some L rec d x
          else (case (if s \<in> {''Ok'', ''Err''} then res else None) of
            Some ret \<Rightarrow> emit_result L rec d ret s x
          | None \<Rightarrow> gret (i32_const L 0)))
     | _ \<Rightarrow> gret (i32_const L 0))"

definition emit_named_call ::
  "('t, 'v, 'b, 'm) llvm \<Rightarrow> ('t, 'v, 'b, 'm) emitter \<Rightarrow> nat \<Rightarrow> string \<Rightarrow> node list \<Rightarrow> ('t, 'v, 'b, 'm, 'v) gen" where
  "emit_named_call L rec d s args =
     gget (\<lambda>g. named_callee g s) (\<lambda>f. case f of
       Some f \<Rightarrow> call_plain L rec d f args
     | None \<Rightarrow> emit_unknown L rec d s args)"

definition emit_method_call ::
  "('t, 'v, 'b, 'm) llvm \<Rightarrow> ('t, 'v, 'b, 'm) emitter \<Rightarrow> nat \<Rightarrow> node \<Rightarrow> string \<Rightarrow> node list \<Rightarrow>
   ('t, 'v, 'b, 'm, 'v) gen" where
  "emit_method_call L rec d obj method args =
     gget (\<lambda>g. (user_method g obj method, helper_method g method, global_callee g ''fflush'')) (\<lambda>(user, helper, flush).
     case or_else user helper of
       Some f \<Rightarrow> call_method L rec d f obj args
     | None \<Rightarrow>
         (case (if method = ''flush'' then flush else None) of
            Some (fn_val, fn_ty, _) \<Rightarrow>
              gbind (perform L (BuildCall fn_ty fn_val [const_null L (pointer_type L)] [])) (\<lambda>_.
              gret (i32_const L 0))
          | None \<Rightarrow> gret (i32_const L 0)))"

definition emit_field_call ::
  "('t, 'v, 'b, 'm) llvm \<Rightarrow> ('t, 'v, 'b, 'm) emitter \<Rightarrow> nat \<Rightarrow> node \<Rightarrow> string \<Rightarrow> node list \<Rightarrow>
   ('t, 'v, 'b, 'm, 'v) gen" where
  "emit_field_call L rec d obj method args =
     gget (\<lambda>g. (constructed_variant (lg_decls g) obj method args, global_callee g ''NS_string_from'')) (\<lambda>(variant, sf).
     case variant of
       Some (en, i, fs) \<Rightarrow> emit_variant_value L rec d en i fs args
     | None \<Rightarrow>
         (case (if ident_name obj = Some ''String'' \<and> method = ''from'' then sf else None) of
            Some f \<Rightarrow> emit_string_from L rec d f args
          | None \<Rightarrow> emit_method_call L rec d obj method args))"

definition emit_call ::
  "('t, 'v, 'b, 'm) llvm \<Rightarrow> ('t, 'v, 'b, 'm) emitter \<Rightarrow> nat \<Rightarrow> node \<Rightarrow> node list \<Rightarrow> ('t, 'v, 'b, 'm, 'v) gen" where
  "emit_call L rec d callee args =
     (case nas callee of
        NODE_IDENT s \<Rightarrow> emit_named_call L rec d s args
      | NODE_INDEX obj ta \<Rightarrow>
          (case ident_name obj of
             Some s \<Rightarrow>
               gget (\<lambda>g. instance_callee g s ta) (\<lambda>f. case f of
                 Some f \<Rightarrow> call_plain L rec d f args
               | None \<Rightarrow> emit_named_call L rec d s args)
           | None \<Rightarrow> gret (i32_const L 0))
      | NODE_FIELD obj method \<Rightarrow> emit_field_call L rec d obj method args
      | _ \<Rightarrow> gret (i32_const L 0))"

subsection \<open>Expressions\<close>

definition emit_step ::
  "('t, 'v, 'b, 'm) llvm \<Rightarrow> ('t, 'v, 'b, 'm) emitter \<Rightarrow> nat \<Rightarrow> ('t, 'v, 'b, 'm) emitter" where
  "emit_step L rec d n =
     (case nas n of
        NODE_LIT_INT w \<Rightarrow> rvalue (gret (i32_const L w))
      | NODE_LIT_CHAR w \<Rightarrow> rvalue (gret (const_int L (int_type L 8) w))
      | NODE_LIT_BOOL b \<Rightarrow> rvalue (gret (i1_const L (if b then 1 else 0)))
      | NODE_LIT_NULL \<Rightarrow> rvalue (gret (const_null L (pointer_type L)))
      | NODE_LIT_FLOAT s \<Rightarrow> rvalue (gret (const_real L (double_type L) s))
      | NODE_LIT_STRING s \<Rightarrow> rvalue (emit_string L d s)
      | NODE_IDENT s \<Rightarrow> emit_ident L d s
      | NODE_GROUP x \<Rightarrow> rec x
      | NODE_CAST x t \<Rightarrow>
          rvalue (gbind (value_of (rec x)) (\<lambda>v.
                  gbind (llg_node_to_ll L d t) (\<lambda>dst.
                  gget (\<lambda>g. llg_infer_type g x) (\<lambda>ns. emit_cast L ns t v dst))))
      | NODE_UNARY op x \<Rightarrow> emit_unary L rec d n op x
      | NODE_BINARY op x y \<Rightarrow> rvalue (emit_binary L rec op x y)
      | NODE_FIELD obj fld \<Rightarrow> emit_field L rec d n obj fld
      | NODE_INDEX obj i \<Rightarrow> emit_index L rec d n obj i
      | NODE_ASSIGN target x op \<Rightarrow> rvalue (emit_assign L rec target x op)
      | NODE_STRUCT_LIT s inits \<Rightarrow> rvalue (emit_struct_lit L rec d s inits)
      | NODE_MATCH subject arms \<Rightarrow> rvalue (emit_match L rec d subject arms)
      | NODE_CALL f args \<Rightarrow> rvalue (emit_call L rec d f args)
      | NODE_SLICE obj lo hi \<Rightarrow> rvalue (emit_slice L rec d obj lo hi)
      | _ \<Rightarrow> gret (i32_const L 0, None))"

text \<open>
  \<open>n\<close> bounds the nesting of calls, which the code leaves to the stack: the deferred expressions that \<^verbatim>\<open>?\<close>
  translates again can nest without end.
\<close>

primrec llg_emit_expr :: "('t, 'v, 'b, 'm) llvm \<Rightarrow> nat \<Rightarrow> ('t, 'v, 'b, 'm) emitter" where
  "llg_emit_expr L 0 e = gfail TooDeep"
| "llg_emit_expr L (Suc n) e = emit_step L (llg_emit_expr L n) n e"

end
