(* ===== verification/Gen_Stmt.thy ===== *)
theory Gen_Stmt
  imports Gen_Call
begin

text \<open>
  The translation of statements and functions: \<^verbatim>\<open>llg_emit_stmt\<close>, \<^verbatim>\<open>llg_emit_block\<close> and \<^verbatim>\<open>llg_emit_fn\<close>. \<open>rec\<close>
  translates expressions, \<open>stmt\<close> the statements inside a statement.
\<close>

type_synonym ('t, 'v, 'b, 'm) stmt_emitter = "node \<Rightarrow> ('t, 'v, 'b, 'm, unit) gen"

subsection \<open>Blocks\<close>

definition block_stmts :: "node \<Rightarrow> node list" where
  "block_stmts n = (case nas n of NODE_BLOCK ss \<Rightarrow> ss | _ \<Rightarrow> [])"

text \<open>What follows a return, a break or a continue in its block is not translated.\<close>

primrec emit_stmts ::
  "('t, 'v, 'b, 'm) llvm \<Rightarrow> ('t, 'v, 'b, 'm) stmt_emitter \<Rightarrow> node list \<Rightarrow> ('t, 'v, 'b, 'm, unit) gen" where
  "emit_stmts L stmt [] = gret ()"
| "emit_stmts L stmt (s # ss) =
     gget (block_ended L) (\<lambda>e. if e then gret () else gbind (stmt s) (\<lambda>_. emit_stmts L stmt ss))"

definition llg_emit_block ::
  "('t, 'v, 'b, 'm) llvm \<Rightarrow> ('t, 'v, 'b, 'm) emitter \<Rightarrow> ('t, 'v, 'b, 'm) stmt_emitter \<Rightarrow> ('t, 'v, 'b, 'm) stmt_emitter" where
  "llg_emit_block L rec stmt blk =
     gbind lg_push_scope (\<lambda>_.
     gbind (emit_stmts L stmt (block_stmts blk)) (\<lambda>_.
     gget (block_ended L) (\<lambda>e.
     gbind (if e then drop_scope_defers else lg_emit_scope_defers rec) (\<lambda>_.
     lg_pop_scope))))"

subsection \<open>Statements\<close>

definition emit_let ::
  "('t, 'v, 'b, 'm) llvm \<Rightarrow> ('t, 'v, 'b, 'm) emitter \<Rightarrow> nat \<Rightarrow> string \<Rightarrow> node option \<Rightarrow> node option \<Rightarrow>
   ('t, 'v, 'b, 'm, unit) gen" where
  "emit_let L rec d s ty x =
     gget (\<lambda>g. case ty of Some t \<Rightarrow> Some t | None \<Rightarrow> Option.bind x (llg_infer_type g)) (\<lambda>ns.
     gbind (ll_or L d (int_type L 32) ns) (\<lambda>ll_ty.
     gbind (build L (BuildAlloca ll_ty s)) (\<lambda>slot.
     gbind (case x of Some e \<Rightarrow> value_of (rec e) | None \<Rightarrow> gret (const_null L ll_ty)) (\<lambda>v.
     gbind (perform L (BuildStore v slot)) (\<lambda>_.
     lg_define s slot ll_ty ns)))))"

text \<open>A local constant; the parser never leaves its value out.\<close>

definition emit_const ::
  "('t, 'v, 'b, 'm) llvm \<Rightarrow> ('t, 'v, 'b, 'm) emitter \<Rightarrow> nat \<Rightarrow> string \<Rightarrow> node option \<Rightarrow> node \<Rightarrow>
   ('t, 'v, 'b, 'm, unit) gen" where
  "emit_const L rec d s ty x = emit_let L rec d s ty (Some x)"

text \<open>The deferred expressions come before the value that is returned.\<close>

definition emit_return ::
  "('t, 'v, 'b, 'm) llvm \<Rightarrow> ('t, 'v, 'b, 'm) emitter \<Rightarrow> node option \<Rightarrow> ('t, 'v, 'b, 'm, unit) gen" where
  "emit_return L rec x =
     gbind (lg_emit_defers_range rec 0) (\<lambda>_.
     case x of
       Some e \<Rightarrow> gbind (value_of (rec e)) (\<lambda>v. perform L (BuildRet v))
     | None \<Rightarrow> perform L BuildRetVoid)"

definition emit_if ::
  "('t, 'v, 'b, 'm) llvm \<Rightarrow> ('t, 'v, 'b, 'm) emitter \<Rightarrow> ('t, 'v, 'b, 'm) stmt_emitter \<Rightarrow> node \<Rightarrow> node \<Rightarrow>
   node option \<Rightarrow> ('t, 'v, 'b, 'm, unit) gen" where
  "emit_if L rec stmt c then_block else_node =
     gbind (value_of (rec c)) (\<lambda>cv.
     gbind (fresh_block L ''if_then'') (\<lambda>then_bb.
     gbind (fresh_block L ''if_else'') (\<lambda>else_bb.
     gbind (fresh_block L ''if_done'') (\<lambda>done_bb.
     gbind (perform L (BuildCondBr cv then_bb else_bb)) (\<lambda>_.
     gbind (goto_block L then_bb) (\<lambda>_.
     gbind (llg_emit_block L rec stmt then_block) (\<lambda>_.
     gbind (branch_unless_ended L done_bb) (\<lambda>_.
     gbind (goto_block L else_bb) (\<lambda>_.
     gbind (case else_node of
              None \<Rightarrow> gret ()
            | Some en \<Rightarrow>
                (case nas en of NODE_IF _ _ _ \<Rightarrow> stmt en | _ \<Rightarrow> llg_emit_block L rec stmt en)) (\<lambda>_.
     gbind (branch_unless_ended L done_bb) (\<lambda>_.
     goto_block L done_bb)))))))))))"

text \<open>The body of a loop, where \<^verbatim>\<open>break\<close> leads to \<open>brk\<close> and \<^verbatim>\<open>continue\<close> to \<open>cont\<close>: at most 64 deep.\<close>

definition emit_loop_body ::
  "('t, 'v, 'b, 'm) llvm \<Rightarrow> ('t, 'v, 'b, 'm) emitter \<Rightarrow> ('t, 'v, 'b, 'm) stmt_emitter \<Rightarrow> 'b \<Rightarrow> 'b \<Rightarrow> node \<Rightarrow>
   ('t, 'v, 'b, 'm, unit) gen" where
  "emit_loop_body L rec stmt brk cont body =
     gbind (gset (\<lambda>g. if length (loop_stack g) < 64 then g\<lparr>loop_stack := (brk, cont) # loop_stack g\<rparr> else g)) (\<lambda>_.
     gbind (llg_emit_block L rec stmt body) (\<lambda>_.
     gset (\<lambda>g. g\<lparr>loop_stack := tl (loop_stack g)\<rparr>)))"

definition emit_while ::
  "('t, 'v, 'b, 'm) llvm \<Rightarrow> ('t, 'v, 'b, 'm) emitter \<Rightarrow> ('t, 'v, 'b, 'm) stmt_emitter \<Rightarrow> node \<Rightarrow> node \<Rightarrow>
   ('t, 'v, 'b, 'm, unit) gen" where
  "emit_while L rec stmt c body =
     gbind (fresh_block L ''wh_cond'') (\<lambda>cond_bb.
     gbind (fresh_block L ''wh_body'') (\<lambda>body_bb.
     gbind (fresh_block L ''wh_done'') (\<lambda>done_bb.
     gbind (perform L (BuildBr cond_bb)) (\<lambda>_.
     gbind (goto_block L cond_bb) (\<lambda>_.
     gbind (value_of (rec c)) (\<lambda>cv.
     gbind (perform L (BuildCondBr cv body_bb done_bb)) (\<lambda>_.
     gbind (goto_block L body_bb) (\<lambda>_.
     gbind (emit_loop_body L rec stmt done_bb cond_bb body) (\<lambda>_.
     gbind (branch_unless_ended L cond_bb) (\<lambda>_.
     goto_block L done_bb))))))))))"

text \<open>\<^verbatim>\<open>loop\<close> and \<^verbatim>\<open>unsafe\<close> are translated alike: the end of the body leads out.\<close>

definition emit_loop ::
  "('t, 'v, 'b, 'm) llvm \<Rightarrow> ('t, 'v, 'b, 'm) emitter \<Rightarrow> ('t, 'v, 'b, 'm) stmt_emitter \<Rightarrow> node \<Rightarrow>
   ('t, 'v, 'b, 'm, unit) gen" where
  "emit_loop L rec stmt body =
     gbind (fresh_block L ''lp_body'') (\<lambda>body_bb.
     gbind (fresh_block L ''lp_done'') (\<lambda>done_bb.
     gbind (perform L (BuildBr body_bb)) (\<lambda>_.
     gbind (goto_block L body_bb) (\<lambda>_.
     gbind (emit_loop_body L rec stmt done_bb body_bb body) (\<lambda>_.
     gbind (branch_unless_ended L done_bb) (\<lambda>_.
     goto_block L done_bb))))))"

definition emit_for ::
  "('t, 'v, 'b, 'm) llvm \<Rightarrow> ('t, 'v, 'b, 'm) emitter \<Rightarrow> ('t, 'v, 'b, 'm) stmt_emitter \<Rightarrow>
   node option \<Rightarrow> node option \<Rightarrow> node option \<Rightarrow> node \<Rightarrow> ('t, 'v, 'b, 'm, unit) gen" where
  "emit_for L rec stmt init c post body =
     gbind (fresh_block L ''for_cond'') (\<lambda>cond_bb.
     gbind (fresh_block L ''for_body'') (\<lambda>body_bb.
     gbind (fresh_block L ''for_post'') (\<lambda>post_bb.
     gbind (fresh_block L ''for_done'') (\<lambda>done_bb.
     gbind lg_push_scope (\<lambda>_.
     gbind (case init of Some s \<Rightarrow> stmt s | None \<Rightarrow> gret ()) (\<lambda>_.
     gbind (perform L (BuildBr cond_bb)) (\<lambda>_.
     gbind (goto_block L cond_bb) (\<lambda>_.
     gbind (case c of
              Some e \<Rightarrow> gbind (value_of (rec e)) (\<lambda>cv. perform L (BuildCondBr cv body_bb done_bb))
            | None \<Rightarrow> perform L (BuildBr body_bb)) (\<lambda>_.
     gbind (goto_block L body_bb) (\<lambda>_.
     gbind (emit_loop_body L rec stmt done_bb post_bb body) (\<lambda>_.
     gbind (branch_unless_ended L post_bb) (\<lambda>_.
     gbind (goto_block L post_bb) (\<lambda>_.
     gbind (case post of Some e \<Rightarrow> gbind (rec e) (\<lambda>_. gret ()) | None \<Rightarrow> gret ()) (\<lambda>_.
     gbind (perform L (BuildBr cond_bb)) (\<lambda>_.
     gbind lg_pop_scope (\<lambda>_.
     goto_block L done_bb))))))))))))))))"

text \<open>\<open>sel\<close> picks the target of the innermost loop.\<close>

definition emit_jump ::
  "('t, 'v, 'b, 'm) llvm \<Rightarrow> ('t, 'v, 'b, 'm) emitter \<Rightarrow> ('b \<times> 'b \<Rightarrow> 'b) \<Rightarrow> ('t, 'v, 'b, 'm, unit) gen" where
  "emit_jump L rec sel =
     gbind (lg_emit_scope_defers rec) (\<lambda>_.
     gget loop_stack (\<lambda>ls. case ls of [] \<Rightarrow> gret () | l # _ \<Rightarrow> perform L (BuildBr (sel l))))"

definition emit_defer :: "node \<Rightarrow> ('t, 'v, 'b, 'm, unit) gen" where
  "emit_defer x =
     gset (\<lambda>g. if length (defer_stack g) < 256 then g\<lparr>defer_stack := defer_stack g @ [x]\<rparr> else g)"

definition stmt_step ::
  "('t, 'v, 'b, 'm) llvm \<Rightarrow> ('t, 'v, 'b, 'm) emitter \<Rightarrow> ('t, 'v, 'b, 'm) stmt_emitter \<Rightarrow> nat \<Rightarrow>
   ('t, 'v, 'b, 'm) stmt_emitter" where
  "stmt_step L rec stmt d n =
     (case nas n of
        NODE_EXPR_STMT x \<Rightarrow> gbind (rec x) (\<lambda>_. gret ())
      | NODE_LET s ty x \<Rightarrow> emit_let L rec d s ty x
      | NODE_CONST s ty x \<Rightarrow> emit_const L rec d s ty x
      | NODE_RETURN x \<Rightarrow> emit_return L rec x
      | NODE_IF c t e \<Rightarrow> emit_if L rec stmt c t e
      | NODE_WHILE c body \<Rightarrow> emit_while L rec stmt c body
      | NODE_LOOP body \<Rightarrow> emit_loop L rec stmt body
      | NODE_UNSAFE body \<Rightarrow> emit_loop L rec stmt body
      | NODE_FOR init c post body \<Rightarrow> emit_for L rec stmt init c post body
      | NODE_BREAK \<Rightarrow> emit_jump L rec fst
      | NODE_CONTINUE \<Rightarrow> emit_jump L rec snd
      | NODE_DEFER x \<Rightarrow> emit_defer x
      | NODE_BLOCK _ \<Rightarrow> llg_emit_block L rec stmt n
      | _ \<Rightarrow> gret ())"

primrec llg_emit_stmt :: "('t, 'v, 'b, 'm) llvm \<Rightarrow> nat \<Rightarrow> ('t, 'v, 'b, 'm) stmt_emitter" where
  "llg_emit_stmt L 0 s = gfail TooDeep"
| "llg_emit_stmt L (Suc n) s = stmt_step L (llg_emit_expr L n) (llg_emit_stmt L n) n s"

definition emit_body :: "('t, 'v, 'b, 'm) llvm \<Rightarrow> nat \<Rightarrow> node \<Rightarrow> ('t, 'v, 'b, 'm, unit) gen" where
  "emit_body L n blk = llg_emit_block L (llg_emit_expr L n) (llg_emit_stmt L n) blk"

subsection \<open>Functions\<close>

text \<open>The first block, where the builder and \<^verbatim>\<open>cur_bb\<close> are put.\<close>

definition enter_function :: "('t, 'v, 'b, 'm) llvm \<Rightarrow> 'v \<Rightarrow> ('t, 'v, 'b, 'm, unit) gen" where
  "enter_function L f =
     gbind (gset (\<lambda>g. g\<lparr>cur_fn := Some f\<rparr>)) (\<lambda>_.
     gbind (fresh_block L ''entry'') (goto_block L))"

text \<open>A parameter gets a name and a slot of its own.\<close>

definition bind_param ::
  "('t, 'v, 'b, 'm) llvm \<Rightarrow> 'v \<Rightarrow> nat \<times> string \<times> 't \<times> node option \<Rightarrow> ('t, 'v, 'b, 'm, unit) gen" where
  "bind_param L f p =
     (case p of (i, s, ty, ns) \<Rightarrow>
      gbind (perform L (SetValueName (get_param L f i) s)) (\<lambda>_.
      gbind (build L (BuildAlloca ty s)) (\<lambda>slot.
      gbind (perform L (BuildStore (get_param L f i) slot)) (\<lambda>_.
      lg_define s slot ty ns))))"

text \<open>A function that runs off its end returns zero.\<close>

definition close_function :: "('t, 'v, 'b, 'm) llvm \<Rightarrow> 't \<Rightarrow> ('t, 'v, 'b, 'm, unit) gen" where
  "close_function L fn_ty =
     gget (block_ended L) (\<lambda>e.
     gwhen (\<not> e)
       (if kind_of L (return_type L fn_ty) = VoidTypeKind then perform L BuildRetVoid
        else perform L (BuildRet (const_null L (return_type L fn_ty)))))"

text \<open>
  The symbol of a function, in a buffer of 512 bytes: \<^verbatim>\<open>snprintf\<close> ends what it cuts off, \<^verbatim>\<open>strncpy\<close> does not.
\<close>

definition fn_symbol :: "string option \<Rightarrow> string \<Rightarrow> ('t, 'v, 'b, 'm, string) gen" where
  "fn_symbol owner s =
     (case owner of
        Some o' \<Rightarrow> gret (method_symbol o' s)
      | None \<Rightarrow> if length s < 511 then gret s else gfail LongSymbol)"

text \<open>Parameter \<open>i\<close> of the LLVM function; one that the declaration does not have is called \<^verbatim>\<open>p\<close>.\<close>

definition param_slots :: "node list \<Rightarrow> 't list \<Rightarrow> (nat \<times> string \<times> 't \<times> node option) list" where
  "param_slots ps tys =
     map (\<lambda>(i, ty). if i < length ps then (i, let_name (ps ! i), ty, let_type (ps ! i)) else (i, ''p'', ty, None))
       (enumerate 0 tys)"

definition emit_fn_as ::
  "('t, 'v, 'b, 'm) llvm \<Rightarrow> nat \<Rightarrow> node list \<Rightarrow> node option \<Rightarrow> node \<Rightarrow> ('t, 'v) lg_global \<Rightarrow> ('t, 'v, 'b, 'm, unit) gen" where
  "emit_fn_as L n ps ret body gl =
     gbind (gset (\<lambda>g. g\<lparr>cur_ret_ty := ret, defer_stack := [], defer_marks := []\<rparr>)) (\<lambda>_.
     gbind (enter_function L (gl_value gl)) (\<lambda>_.
     gbind lg_push_scope (\<lambda>_.
     gbind (giter (bind_param L (gl_value gl)) (param_slots ps (param_types L (gl_type gl)))) (\<lambda>_.
     gbind (emit_body L n body) (\<lambda>_.
     gbind lg_pop_scope (\<lambda>_.
     gbind (close_function L (gl_type gl)) (\<lambda>_.
     gset (\<lambda>g. g\<lparr>cur_fn := None\<rparr>))))))))"

definition llg_emit_fn :: "('t, 'v, 'b, 'm) llvm \<Rightarrow> nat \<Rightarrow> node \<Rightarrow> ('t, 'v, 'b, 'm, unit) gen" where
  "llg_emit_fn L n decl =
     (case nas decl of
        NODE_FN_DECL s owner _ _ ps ret (Some body) _ \<Rightarrow>
          gbind (fn_symbol owner s) (\<lambda>sym.
          gget (\<lambda>g. lg_find_global g sym) (\<lambda>gl.
          (case gl of None \<Rightarrow> gret () | Some x \<Rightarrow> emit_fn_as L n ps ret body x)))
      | _ \<Rightarrow> gret ())"

end
