(* ===== verification/Gen_Setup.thy ===== *)
theory Gen_Setup
  imports Gen_Stmt
begin

text \<open>
  What the generator declares before it translates bodies: named types, functions, the runtime, constants
  of \<^verbatim>\<open>comptime\<close> blocks, the instances of generic functions and structs, and interfaces.
\<close>

subsection \<open>Structs, unions and enums\<close>

definition field_types :: "('t, 'v, 'b, 'm) llvm \<Rightarrow> nat \<Rightarrow> node list \<Rightarrow> ('t, 'v, 'b, 'm, 't list) gen" where
  "field_types L d fs = gmap (\<lambda>f. llg_opt_to_ll L d (let_type f)) fs"

definition unless_named :: "string \<Rightarrow> ('t, 'v, 'b, 'm, unit) gen \<Rightarrow> ('t, 'v, 'b, 'm, unit) gen" where
  "unless_named s m = gget (\<lambda>g. lg_find_named_type g s) (\<lambda>ty. gwhen (ty = None) m)"

definition llg_setup_struct ::
  "('t, 'v, 'b, 'm) llvm \<Rightarrow> nat \<Rightarrow> string \<Rightarrow> node list \<Rightarrow> bool \<Rightarrow> ('t, 'v, 'b, 'm, unit) gen" where
  "llg_setup_struct L d s fs packed =
     unless_named s (gbind (field_types L d fs) (\<lambda>tys.
       gbind (new_struct L s tys packed s) (\<lambda>_. gret ())))"

text \<open>The size of the largest field in bits, in 32 bits; at least 8.\<close>

definition union_bits :: "('t, 'v, 'b, 'm) llvm \<Rightarrow> 't list \<Rightarrow> 32 word" where
  "union_bits L tys = fold (\<lambda>ty bits. max bits (of_nat (store_size L ty) * 8)) tys 8"

definition llg_setup_union ::
  "('t, 'v, 'b, 'm) llvm \<Rightarrow> nat \<Rightarrow> string \<Rightarrow> node list \<Rightarrow> ('t, 'v, 'b, 'm, unit) gen" where
  "llg_setup_union L d s fs =
     unless_named s (gbind (field_types L d fs) (\<lambda>tys.
       gbind (new_struct L s [array_type L (int_type L 8) (unat (union_bits L tys div 8))] False s) (\<lambda>_. gret ())))"

text \<open>The size of the largest variant in bytes; at least 1.\<close>

definition largest_payload :: "32 word list \<Rightarrow> 32 word" where
  "largest_payload sizes = (let n = fold (\<lambda>sz n. max n sz) sizes 0 in if n = 0 then 1 else n)"

definition llg_setup_enum ::
  "('t, 'v, 'b, 'm) llvm \<Rightarrow> nat \<Rightarrow> string \<Rightarrow> (string \<times> node list) list \<Rightarrow> ('t, 'v, 'b, 'm, unit) gen" where
  "llg_setup_enum L d s vs =
     unless_named s
       (if \<forall>v \<in> set vs. snd v = [] then lg_register_type s (int_type L 32)
        else
          gbind (gmap (\<lambda>v. payload_size L d (snd v) 0) vs) (\<lambda>sizes.
          gbind (new_struct L s
            [int_type L 32, array_type L (int_type L 8) (unat (largest_payload sizes))] False s) (\<lambda>_. gret ())))"

definition setup_decl :: "('t, 'v, 'b, 'm) llvm \<Rightarrow> nat \<Rightarrow> node \<Rightarrow> ('t, 'v, 'b, 'm, unit) gen" where
  "setup_decl L d decl =
     (case nas decl of
        NODE_STRUCT_DECL s _ tps fs _ packed \<Rightarrow> gwhen (tps = []) (llg_setup_struct L d s fs packed)
      | NODE_UNION_DECL s _ fs _ \<Rightarrow> llg_setup_union L d s fs
      | NODE_ENUM_DECL s _ vs _ \<Rightarrow> llg_setup_enum L d s vs
      | _ \<Rightarrow> gret ())"

subsection \<open>Functions\<close>

text \<open>\<open>external\<close> adds the linkage.\<close>

definition add_function ::
  "('t, 'v, 'b, 'm) llvm \<Rightarrow> string \<Rightarrow> 't \<Rightarrow> node option \<Rightarrow> bool \<Rightarrow> ('t, 'v, 'b, 'm, 'v) gen" where
  "add_function L symbol fn_ty ret ext =
     gbind (build L (AddFunction symbol fn_ty)) (\<lambda>f.
     gbind (gwhen ext (perform L (SetExternal f))) (\<lambda>_.
     gbind (lg_add_global symbol f fn_ty ret) (\<lambda>_. gret f)))"

definition unless_global :: "string \<Rightarrow> ('t, 'v, 'b, 'm, unit) gen \<Rightarrow> ('t, 'v, 'b, 'm, unit) gen" where
  "unless_global s m = gget (\<lambda>g. lg_find_global g s) (\<lambda>gl. gwhen (gl = None) m)"

definition ll_param_type ::
  "('t, 'v, 'b, 'm) llvm \<Rightarrow> nat \<Rightarrow> bool \<Rightarrow> node \<Rightarrow> ('t, 'v, 'b, 'm, 't) gen" where
  "ll_param_type L d has_self p =
     (if has_self \<and> let_name p \<in> {''self'', ''Self''} then gret (pointer_type L)
      else llg_opt_to_ll L d (let_type p))"

definition llg_build_fn_type ::
  "('t, 'v, 'b, 'm) llvm \<Rightarrow> nat \<Rightarrow> bool \<Rightarrow> node list \<Rightarrow> node option \<Rightarrow> ('t, 'v, 'b, 'm, 't) gen" where
  "llg_build_fn_type L d has_self ps ret =
     gbind (gmap (ll_param_type L d has_self) ps) (\<lambda>tys.
     gbind (llg_opt_to_ll L d ret) (\<lambda>ret_ty.
     gret (function_type L ret_ty tys)))"

text \<open>\<^verbatim>\<open>main\<close> without a result returns an \<^verbatim>\<open>i32\<close>.\<close>

definition main_type :: "('t, 'v, 'b, 'm) llvm \<Rightarrow> string option \<Rightarrow> string \<Rightarrow> 't \<Rightarrow> 't" where
  "main_type L owner symbol fn_ty =
     (if owner = None \<and> symbol = ''main'' \<and> kind_of L (return_type L fn_ty) = VoidTypeKind then
        function_type L (int_type L 32) (param_types L fn_ty)
      else fn_ty)"

definition declare_as ::
  "('t, 'v, 'b, 'm) llvm \<Rightarrow> nat \<Rightarrow> string option \<Rightarrow> string \<Rightarrow> node list \<Rightarrow> node option \<Rightarrow> bool \<Rightarrow>
   ('t, 'v, 'b, 'm, unit) gen" where
  "declare_as L d owner s ps ret ext =
     gbind (fn_symbol owner s) (\<lambda>symbol.
     unless_global symbol
       (gbind (llg_build_fn_type L d
          (\<not> ext \<and> owner \<noteq> None \<and> (case ps of [] \<Rightarrow> False | p # _ \<Rightarrow> let_name p \<in> {''self'', ''Self''})) ps ret) (\<lambda>ty.
        gbind (add_function L symbol (main_type L owner symbol ty) ret ext) (\<lambda>_. gret ()))))"

definition llg_declare_fn :: "('t, 'v, 'b, 'm) llvm \<Rightarrow> nat \<Rightarrow> node \<Rightarrow> ('t, 'v, 'b, 'm, unit) gen" where
  "llg_declare_fn L d decl =
     (case nas decl of
        NODE_FN_DECL s owner _ tps ps ret _ _ \<Rightarrow> gwhen (tps = []) (declare_as L d owner s ps ret False)
      | NODE_EXTERN_FN s _ _ ps ret _ \<Rightarrow> declare_as L d None s ps ret True
      | _ \<Rightarrow> gret ())"

definition declare_decl :: "('t, 'v, 'b, 'm) llvm \<Rightarrow> nat \<Rightarrow> node \<Rightarrow> ('t, 'v, 'b, 'm, unit) gen" where
  "declare_decl L d decl =
     gbind (llg_declare_fn L d decl) (\<lambda>_.
     case nas decl of
       NODE_IMPL_DECL _ _ _ ms \<Rightarrow> giter (llg_declare_fn L d) ms
     | _ \<Rightarrow> gret ())"

subsection \<open>The runtime\<close>

definition declare_routine ::
  "('t, 'v, 'b, 'm) llvm \<Rightarrow> string \<times> 't list \<times> 't \<Rightarrow> ('t, 'v, 'b, 'm, unit) gen" where
  "declare_routine L r =
     (case r of (s, tys, ret) \<Rightarrow>
      unless_global s (gbind (add_function L s (function_type L ret tys) None True) (\<lambda>_. gret ())))"

definition runtime_routines :: "('t, 'v, 'b, 'm) llvm \<Rightarrow> 't \<Rightarrow> (string \<times> 't list \<times> 't) list" where
  "runtime_routines L str_ty =
     (let ptr = pointer_type L; i32 = int_type L 32; i64 = int_type L 64; f64 = double_type L; nothing = void_type L in
      [(''NS_println'', [str_ty], nothing), (''NS_print'', [str_ty], nothing),
       (''NS_println_int'', [i64], nothing), (''NS_println_f64'', [f64], nothing),
       (''NS_println_bool'', [i32], nothing), (''NS_println_char'', [i32], nothing),
       (''NS_string_from'', [ptr, str_ty], nothing), (''NS_string_as_str'', [ptr], str_ty),
       (''NS_string_free'', [ptr], nothing), (''NS_string_push_str'', [ptr, str_ty], nothing),
       (''NS_string_len'', [ptr], i64),
       (''NS_alloc'', [i64], ptr), (''NS_free'', [ptr], nothing), (''NS_exit'', [i32], nothing),
       (''printf'', [ptr], i32), (''puts'', [ptr], i32), (''fputs'', [ptr, ptr], i32), (''fflush'', [ptr], i32),
       (''malloc'', [i64], ptr), (''free'', [ptr], nothing),
       (''ns_io_print_i32'', [i32], nothing), (''ns_io_print_i64'', [i64], nothing),
       (''ns_io_print_u32'', [i32], nothing), (''ns_io_print_u64'', [i64], nothing),
       (''ns_io_print_f64'', [f64], nothing), (''ns_io_print_bool'', [i32], nothing),
       (''ns_io_read_i32'', [], i32), (''ns_io_readln'', [], ptr)])"

definition llg_declare_runtime :: "('t, 'v, 'b, 'm) llvm \<Rightarrow> nat \<Rightarrow> ('t, 'v, 'b, 'm, unit) gen" where
  "llg_declare_runtime L d =
     gbind (llg_ns_to_ll L d ''str'') (\<lambda>str_ty.
     gbind (llg_ns_to_ll L d ''String'') (\<lambda>_.
     giter (declare_routine L) (runtime_routines L str_ty)))"

subsection \<open>Constants of comptime blocks\<close>

definition constant_value :: "('t, 'v, 'b, 'm) llvm \<Rightarrow> 't \<Rightarrow> node \<Rightarrow> 'v" where
  "constant_value L ty x =
     (case nas x of
        NODE_LIT_INT w \<Rightarrow> const_int L ty w
      | NODE_LIT_FLOAT s \<Rightarrow> const_real L ty s
      | NODE_LIT_BOOL b \<Rightarrow> const_int L ty (if b then 1 else 0)
      | _ \<Rightarrow> const_null L ty)"

definition emit_constant :: "('t, 'v, 'b, 'm) llvm \<Rightarrow> nat \<Rightarrow> node \<Rightarrow> ('t, 'v, 'b, 'm, unit) gen" where
  "emit_constant L d c =
     (case nas c of
        NODE_CONST s ty x \<Rightarrow>
          gget (\<lambda>g. case ty of Some t \<Rightarrow> Some t | None \<Rightarrow> llg_infer_type g x) (\<lambda>ns.
          gbind (ll_or L d (int_type L 32) ns) (\<lambda>ll_ty.
          gbind (build L (AddGlobal ll_ty s)) (\<lambda>gv.
          gbind (perform L (SetInitializer gv (constant_value L ll_ty x))) (\<lambda>_.
          gbind (perform L (SetGlobalConstant gv)) (\<lambda>_.
          gbind (perform L (SetInternal gv)) (\<lambda>_.
          lg_define s gv ll_ty ns))))))
      | _ \<Rightarrow> gret ())"

definition llg_emit_comptime :: "('t, 'v, 'b, 'm) llvm \<Rightarrow> nat \<Rightarrow> node list \<Rightarrow> ('t, 'v, 'b, 'm, unit) gen" where
  "llg_emit_comptime L d ds =
     giter (\<lambda>decl. case nas decl of NODE_COMPTIME cs \<Rightarrow> giter (emit_constant L d) cs | _ \<Rightarrow> gret ()) ds"

subsection \<open>Interfaces\<close>

definition vtable_methods :: "node \<Rightarrow> node list" where
  "vtable_methods decl = (case nas decl of NODE_INTERFACE_DECL _ _ ms _ \<Rightarrow> ms | _ \<Rightarrow> [])"

definition vtable_name :: "string \<Rightarrow> string" where
  "vtable_name s = take 255 (s @ ''_vtable'')"

definition setup_interface :: "('t, 'v, 'b, 'm) llvm \<Rightarrow> node \<Rightarrow> ('t, 'v, 'b, 'm, unit) gen" where
  "setup_interface L decl =
     (case nas decl of
        NODE_INTERFACE_DECL s _ ms _ \<Rightarrow>
          gbind (unless_named (vtable_name s)
            (gbind (new_struct L (vtable_name s) (map (\<lambda>_. pointer_type L) ms) False (vtable_name s)) (\<lambda>_. gret ()))) (\<lambda>_.
          unless_named s
            (gbind (new_struct L s [pointer_type L, pointer_type L] False s) (\<lambda>_. gret ())))
      | _ \<Rightarrow> gret ())"

text \<open>The table of the methods of \<open>target\<close> in the order of the interface; a missing one is null.\<close>

definition vtable_entries :: "('t, 'v, 'b, 'm) llvm \<Rightarrow> ('t, 'v, 'b, 'm) lg \<Rightarrow> string \<Rightarrow> node list \<Rightarrow> 'v list" where
  "vtable_entries L g target ms =
     map (\<lambda>m. case lg_find_global g (method_symbol target (fn_name m)) of
                Some gl \<Rightarrow> gl_value gl | None \<Rightarrow> const_null L (pointer_type L)) ms"

definition emit_vtable ::
  "('t, 'v, 'b, 'm) llvm \<Rightarrow> string \<Rightarrow> string \<Rightarrow> node list \<Rightarrow> 't \<Rightarrow> ('t, 'v, 'b, 'm, 'v) gen" where
  "emit_vtable L target iname ms vt_ty =
     gget (\<lambda>g. vtable_entries L g target ms) (\<lambda>entries.
     gbind (build L (AddGlobal vt_ty (take 511 (target @ underscore # iname @ ''_vtable'')))) (\<lambda>gvt.
     gbind (perform L (SetInitializer gvt (const_struct L vt_ty entries))) (\<lambda>_.
     gbind (perform L (SetGlobalConstant gvt)) (\<lambda>_.
     gbind (perform L (SetInternal gvt)) (\<lambda>_. gret gvt)))))"

text \<open>
  The function that makes an interface value of a pointer. Its builder is its own: \<^verbatim>\<open>cur_bb\<close> and \<^verbatim>\<open>cur_fn\<close>
  stay as they are.
\<close>

definition emit_coercion ::
  "('t, 'v, 'b, 'm) llvm \<Rightarrow> string \<Rightarrow> 't \<Rightarrow> 'v \<Rightarrow> ('t, 'v, 'b, 'm, unit) gen" where
  "emit_coercion L symbol iface_ty gvt =
     gbind (add_function L symbol (function_type L iface_ty [pointer_type L]) None False) (\<lambda>f.
     gbind (\<lambda>g. let (b, m) = append_block L (Some f) ''entry'' (llvm_state g) in Inr (b, g\<lparr>llvm_state := m\<rparr>)) (\<lambda>entry.
     gbind (perform L (PositionAtEnd entry)) (\<lambda>_.
     gbind (build L (BuildInsertValue (undef_value L iface_ty) (get_param L f 0) 0 ''fat.data'')) (\<lambda>fat.
     gbind (build L (BuildInsertValue fat gvt 1 ''fat.vtable'')) (\<lambda>fat.
     perform L (BuildRet fat))))))"

definition setup_impl :: "('t, 'v, 'b, 'm) llvm \<Rightarrow> node \<Rightarrow> ('t, 'v, 'b, 'm, unit) gen" where
  "setup_impl L decl =
     (case nas decl of
        NODE_IMPL_DECL target _ (Some iname) _ \<Rightarrow>
          gget (\<lambda>g. (lg_find_decl (lg_decls g) LG_INTERFACE iname, lg_find_named_type g (vtable_name iname),
                     lg_find_named_type g iname)) (\<lambda>r.
          (case r of
             (Some iface, Some vt_ty, Some iface_ty) \<Rightarrow>
               gbind (emit_vtable L target iname (vtable_methods iface) vt_ty) (\<lambda>gvt.
               let symbol = take 511 (target @ ''_as_'' @ iname) in
               unless_global symbol (emit_coercion L symbol iface_ty gvt))
           | _ \<Rightarrow> gret ()))
      | _ \<Rightarrow> gret ())"

definition llg_setup_interfaces :: "('t, 'v, 'b, 'm) llvm \<Rightarrow> node list \<Rightarrow> ('t, 'v, 'b, 'm, unit) gen" where
  "llg_setup_interfaces L ds =
     gbind (giter (setup_interface L) ds) (\<lambda>_. giter (setup_impl L) ds)"

end
