(* ===== verification/Gen_Generics.thy ===== *)
theory Gen_Generics
  imports Gen_Setup
begin

text \<open>
  Generic functions and structs: the pass that collects the templates, the scan of the bodies for instances
  (\<^verbatim>\<open>llg_prescan_type\<close>, \<^verbatim>\<open>llg_prescan_expr\<close>, \<^verbatim>\<open>llg_prescan_stmt\<close>) and \<^verbatim>\<open>llg_instantiate_generics\<close>.
\<close>

subsection \<open>Templates\<close>

text \<open>At most 64 of each kind are kept.\<close>

definition collect_template :: "node \<Rightarrow> ('t, 'v, 'b, 'm, unit) gen" where
  "collect_template decl =
     (case nas decl of
        NODE_FN_DECL s _ _ tps _ _ _ _ \<Rightarrow>
          gset (\<lambda>g. if tps \<noteq> [] \<and> length (gfn_decls g) < 64 then g\<lparr>gfn_decls := gfn_decls g @ [(s, decl)]\<rparr> else g)
      | NODE_STRUCT_DECL s _ tps _ _ _ \<Rightarrow>
          gset (\<lambda>g. if tps \<noteq> [] \<and> length (gst_decls g) < 64 then g\<lparr>gst_decls := gst_decls g @ [(s, decl)]\<rparr> else g)
      | _ \<Rightarrow> gret ())"

subsection \<open>The scan\<close>

definition scan_type_name :: "string \<Rightarrow> ('t, 'v, 'b, 'm, unit) gen" where
  "scan_type_name s =
     gget (\<lambda>g. List.find (\<lambda>(t, _). lg_type_form s t) (gst_decls g)) (\<lambda>r.
     (case r of
        None \<Rightarrow> gret ()
      | Some (_, decl) \<Rightarrow>
          (case lg_extract_inner s of None \<Rightarrow> gret () | Some inner \<Rightarrow> lg_gst_find_or_add decl s inner)))"

fun llg_prescan_type :: "node \<Rightarrow> ('t, 'v, 'b, 'm, unit) gen" where
  "llg_prescan_type (Node l c (NODE_TYPE_NAMED s)) = scan_type_name s"
| "llg_prescan_type (Node l c (NODE_TYPE_POINTER inner _ _)) = llg_prescan_type inner"
| "llg_prescan_type (Node l c (NODE_TYPE_ARRAY e _)) = llg_prescan_type e"
| "llg_prescan_type n = gret ()"

definition scan_call :: "node \<Rightarrow> ('t, 'v, 'b, 'm, unit) gen" where
  "scan_call callee =
     (case nas callee of
        NODE_INDEX obj ta \<Rightarrow>
          (case ident_name obj of
             None \<Rightarrow> gret ()
           | Some s \<Rightarrow>
               gget (\<lambda>g. map_of (gfn_decls g) s) (\<lambda>r.
               (case (r, call_type_arg ta) of
                  (Some decl, Some t) \<Rightarrow> lg_gfn_find_or_add decl s t
                | _ \<Rightarrow> gret ())))
      | _ \<Rightarrow> gret ())"

lemma giter_cong [fundef_cong]:
  "xs = ys \<Longrightarrow> (\<And>x. x \<in> set ys \<Longrightarrow> f x = h x) \<Longrightarrow> giter f xs = giter h ys"
proof (induction xs arbitrary: ys)
  case (Cons a xs)
  then show ?case by (cases ys) auto
qed simp

fun llg_prescan_expr :: "node \<Rightarrow> ('t, 'v, 'b, 'm, unit) gen" where
  "llg_prescan_expr (Node l c a) =
     (case a of
        NODE_CALL f args \<Rightarrow>
          gbind (scan_call f) (\<lambda>_. gbind (llg_prescan_expr f) (\<lambda>_. giter llg_prescan_expr args))
      | NODE_BINARY _ x y \<Rightarrow> gbind (llg_prescan_expr x) (\<lambda>_. llg_prescan_expr y)
      | NODE_UNARY _ x \<Rightarrow> llg_prescan_expr x
      | NODE_ASSIGN x y _ \<Rightarrow> gbind (llg_prescan_expr x) (\<lambda>_. llg_prescan_expr y)
      | NODE_FIELD x _ \<Rightarrow> llg_prescan_expr x
      | NODE_INDEX x i \<Rightarrow> gbind (llg_prescan_expr x) (\<lambda>_. llg_prescan_expr i)
      | NODE_CAST x _ \<Rightarrow> llg_prescan_expr x
      | _ \<Rightarrow> gret ())"

definition each_opt :: "('a \<Rightarrow> ('t, 'v, 'b, 'm, unit) gen) \<Rightarrow> 'a option \<Rightarrow> ('t, 'v, 'b, 'm, unit) gen" where
  "each_opt f x = (case x of None \<Rightarrow> gret () | Some y \<Rightarrow> f y)"

lemma each_opt_cong [fundef_cong]:
  "x = y \<Longrightarrow> (\<And>z. y = Some z \<Longrightarrow> f z = h z) \<Longrightarrow> each_opt f x = each_opt h y"
  by (cases y) (simp_all add: each_opt_def)

fun llg_prescan_stmt :: "node \<Rightarrow> ('t, 'v, 'b, 'm, unit) gen" where
  "llg_prescan_stmt (Node l c a) =
     (case a of
        NODE_BLOCK ss \<Rightarrow> giter llg_prescan_stmt ss
      | NODE_RETURN x \<Rightarrow> each_opt llg_prescan_expr x
      | NODE_LET _ ty x \<Rightarrow> gbind (each_opt llg_prescan_type ty) (\<lambda>_. each_opt llg_prescan_expr x)
      | NODE_EXPR_STMT x \<Rightarrow> llg_prescan_expr x
      | NODE_DEFER x \<Rightarrow> llg_prescan_expr x
      | NODE_IF cnd t e \<Rightarrow>
          gbind (llg_prescan_expr cnd) (\<lambda>_. gbind (llg_prescan_stmt t) (\<lambda>_. each_opt llg_prescan_stmt e))
      | NODE_WHILE cnd body \<Rightarrow> gbind (llg_prescan_expr cnd) (\<lambda>_. llg_prescan_stmt body)
      | NODE_FOR init cnd post body \<Rightarrow>
          gbind (each_opt llg_prescan_stmt init) (\<lambda>_. gbind (each_opt llg_prescan_expr cnd) (\<lambda>_.
          gbind (each_opt llg_prescan_expr post) (\<lambda>_. llg_prescan_stmt body)))
      | NODE_LOOP body \<Rightarrow> llg_prescan_stmt body
      | NODE_UNSAFE body \<Rightarrow> llg_prescan_stmt body
      | _ \<Rightarrow> gret ())"

text \<open>Functions are scanned, the methods of impl blocks are not.\<close>

definition scan_decl :: "node \<Rightarrow> ('t, 'v, 'b, 'm, unit) gen" where
  "scan_decl decl =
     (case nas decl of
        NODE_FN_DECL _ _ _ tps ps ret body _ \<Rightarrow>
          gwhen (tps = [])
            (gbind (giter (\<lambda>p. each_opt llg_prescan_type (let_type p)) ps) (\<lambda>_.
             gbind (each_opt llg_prescan_type ret) (\<lambda>_.
             each_opt llg_prescan_stmt body)))
      | _ \<Rightarrow> gret ())"

subsection \<open>Instances\<close>

definition template_params :: "node \<Rightarrow> node list" where
  "template_params decl = (case nas decl of NODE_FN_DECL _ _ _ tps _ _ _ _ \<Rightarrow> tps | _ \<Rightarrow> [])"

text \<open>The first type parameter stands for the argument; any other is left alone.\<close>

definition subst_first :: "node list \<Rightarrow> string \<Rightarrow> ('t, 'v, 'b, 'm, unit) gen" where
  "subst_first tps t =
     (case tps of
        [] \<Rightarrow> gret ()
      | p # _ \<Rightarrow> set_subst (type_param_name p) t)"

definition end_subst :: "('t, 'v, 'b, 'm, unit) gen" where
  "end_subst = gset (\<lambda>g. g\<lparr>sub_count := 0\<rparr>)"

definition opt_body :: "('t, 'v, 'b, 'm) llvm \<Rightarrow> nat \<Rightarrow> node option \<Rightarrow> ('t, 'v, 'b, 'm, unit) gen" where
  "opt_body L n body = each_opt (emit_body L n) body"

text \<open>The slots of the parameters have the types of the parameters of the new function.\<close>

definition emit_instance ::
  "('t, 'v, 'b, 'm) llvm \<Rightarrow> nat \<Rightarrow> fn_inst \<Rightarrow> ('t, 'v, 'b, 'm, unit) gen" where
  "emit_instance L n inst =
     (let decl = fi_decl inst; ps = fn_params decl; ret = fn_ret_type decl in
      gbind (subst_first (template_params decl) (fi_type inst)) (\<lambda>_.
      gbind (llg_build_fn_type L n False ps ret) (\<lambda>fn_ty.
      gbind (add_function L (fi_mangled inst) fn_ty ret False) (\<lambda>f.
      gbind (gset (\<lambda>g. g\<lparr>cur_ret_ty := ret, defer_stack := []\<rparr>)) (\<lambda>_.
      gbind (enter_function L f) (\<lambda>_.
      gbind lg_push_scope (\<lambda>_.
      gbind (giter (bind_param L f)
        (map (\<lambda>(i, p). (i, let_name p, type_of L (get_param L f i), let_type p)) (enumerate 0 ps))) (\<lambda>_.
      gbind (opt_body L n (fn_body decl)) (\<lambda>_.
      gbind lg_pop_scope (\<lambda>_.
      gbind (close_function L fn_ty) (\<lambda>_.
      gbind (gset (\<lambda>g. g\<lparr>cur_fn := None\<rparr>)) (\<lambda>_.
      end_subst))))))))))))"

definition instance_fn :: "('t, 'v, 'b, 'm) llvm \<Rightarrow> nat \<Rightarrow> fn_inst \<Rightarrow> ('t, 'v, 'b, 'm, unit) gen" where
  "instance_fn L n inst = unless_global (fi_mangled inst) (emit_instance L n inst)"

definition instance_struct :: "('t, 'v, 'b, 'm) llvm \<Rightarrow> nat \<Rightarrow> struct_inst \<Rightarrow> ('t, 'v, 'b, 'm, unit) gen" where
  "instance_struct L d inst =
     unless_named (si_name inst)
       (gbind (subst_first (struct_type_params (si_decl inst)) (si_type inst)) (\<lambda>_.
        gbind (field_types L d (composite_fields (si_decl inst))) (\<lambda>tys.
        gbind (new_struct L (si_mangled inst) tys False (si_mangled inst)) (\<lambda>ty.
        gbind (lg_register_type (si_name inst) ty) (\<lambda>_.
        end_subst)))))"

definition llg_instantiate_generics :: "('t, 'v, 'b, 'm) llvm \<Rightarrow> nat \<Rightarrow> ('t, 'v, 'b, 'm, unit) gen" where
  "llg_instantiate_generics L n =
     gget gfn_insts (\<lambda>fs. gbind (giter (instance_fn L n) fs) (\<lambda>_.
     gget gst_insts (\<lambda>ss. giter (instance_struct L n) ss)))"

end
