(* ===== verification/Gen_Ui.thy ===== *)
theory Gen_Ui
  imports Gen_Generics
begin

text \<open>
  Programs with a user interface: the elements of an app, the functions of their handlers, and the SDL2
  program in C that the generator writes beside the object file (\<^verbatim>\<open>llg_ui_collect\<close> to
  \<^verbatim>\<open>llg_write_ui_runtime\<close>).
\<close>

subsection \<open>Elements\<close>

record ui_elem =
  ue_kind :: ui_elem_kind
  ue_text :: string
  ue_click :: "node option"
  ue_key :: "node option"
  ue_change :: "node option"

definition add_handler :: "ui_elem \<Rightarrow> node \<Rightarrow> ui_elem" where
  "add_handler e h =
     (case nas h of
        NODE_UI_HANDLER k body \<Rightarrow>
          (case k of
             UI_HANDLER_CLICK \<Rightarrow> e\<lparr>ue_click := Some body\<rparr>
           | UI_HANDLER_KEY \<Rightarrow> e\<lparr>ue_key := Some body\<rparr>
           | UI_HANDLER_CHANGE \<Rightarrow> e\<lparr>ue_change := Some body\<rparr>)
      | _ \<Rightarrow> e)"

definition new_elem :: "ui_elem_kind \<Rightarrow> string option \<Rightarrow> node list \<Rightarrow> ui_elem" where
  "new_elem k text hs =
     foldl add_handler
       \<lparr>ue_kind = k, ue_text = (case text of Some s \<Rightarrow> take 255 s | None \<Rightarrow> []),
        ue_click = None, ue_key = None, ue_change = None\<rparr> hs"

definition is_container :: "ui_elem_kind \<Rightarrow> bool" where
  "is_container k \<longleftrightarrow> k \<in> {UI_ELEM_WINDOW, UI_ELEM_ROW, UI_ELEM_COLUMN, UI_ELEM_PANEL}"

text \<open>At most 128 elements are kept.\<close>

fun llg_ui_collect :: "ui_elem list \<Rightarrow> node \<Rightarrow> ui_elem list" where
  "llg_ui_collect es (Node l c a) =
     (case a of
        NODE_UI_ELEMENT k text _ children hs \<Rightarrow>
          (if is_container k then foldl llg_ui_collect es children
           else if length es \<ge> 128 then es
           else foldl llg_ui_collect (es @ [new_elem k text hs]) children)
      | _ \<Rightarrow> es)"

definition app_children :: "node \<Rightarrow> node list" where
  "app_children decl = (case nas decl of NODE_UI_APP _ _ cs _ \<Rightarrow> cs | _ \<Rightarrow> [])"

definition all_elems :: "node list \<Rightarrow> ui_elem list" where
  "all_elems ds = foldl llg_ui_collect [] (concat (map app_children ds))"

definition llg_prog_has_ui :: "node list \<Rightarrow> bool" where
  "llg_prog_has_ui ds \<longleftrightarrow> (\<exists>decl \<in> set ds. case nas decl of NODE_UI_APP _ _ _ _ \<Rightarrow> True | _ \<Rightarrow> False)"

subsection \<open>Handlers\<close>

definition ui_routines :: "('t, 'v, 'b, 'm) llvm \<Rightarrow> (string \<times> 't list \<times> 't) list" where
  "ui_routines L =
     (let ptr = pointer_type L; i32 = int_type L 32; nothing = void_type L in
      [(''SDL_Init'', [i32], i32), (''SDL_Quit'', [], nothing),
       (''SDL_CreateWindow'', [ptr, i32, i32, i32, i32, i32], ptr), (''SDL_DestroyWindow'', [ptr], nothing),
       (''SDL_CreateRenderer'', [ptr, i32, i32], ptr), (''SDL_DestroyRenderer'', [ptr], nothing),
       (''SDL_RenderPresent'', [ptr], nothing), (''SDL_RenderClear'', [ptr], i32),
       (''SDL_SetRenderDrawColor'', [ptr, i32, i32, i32, i32], i32), (''SDL_RenderFillRect'', [ptr, ptr], i32),
       (''SDL_RenderDrawRect'', [ptr, ptr], i32), (''SDL_RenderDrawPoint'', [ptr, i32, i32], i32),
       (''SDL_PollEvent'', [ptr], i32), (''SDL_Delay'', [i32], nothing), (''SDL_GetTicks'', [], i32),
       (''SDL_Log'', [ptr], nothing),
       (''ns_ui_set_label_text'', [i32, ptr], nothing), (''ns_ui_set_button_text'', [i32, ptr], nothing),
       (''ns_ui_get_input_text'', [i32], ptr), (''ns_ui_close'', [], nothing)])"

definition llg_declare_ui_runtime :: "('t, 'v, 'b, 'm) llvm \<Rightarrow> ('t, 'v, 'b, 'm, unit) gen" where
  "llg_declare_ui_runtime L = giter (declare_routine L) (ui_routines L)"

definition handler_params :: "('t, 'v, 'b, 'm) llvm \<Rightarrow> string \<Rightarrow> (string \<times> 't) list" where
  "handler_params L hkind =
     (if hkind = ''onclick'' then [(''mouse_x'', int_type L 32), (''mouse_y'', int_type L 32)]
      else if hkind = ''onkey'' then
        [(''keycode'', int_type L 32), (''scancode'', int_type L 32), (''mod'', int_type L 32)]
      else if hkind = ''onchange'' then [(''text'', pointer_type L)]
      else [])"

definition handler_symbol :: "nat \<Rightarrow> string \<Rightarrow> string" where
  "handler_symbol i hkind = ''ns_handler_'' @ show_nat i @ underscore # hkind"

text \<open>
  A handler is not registered as a global, and the stack of deferred expressions is left as it is.
\<close>

definition llg_ui_emit_handler ::
  "('t, 'v, 'b, 'm) llvm \<Rightarrow> nat \<Rightarrow> nat \<Rightarrow> string \<Rightarrow> node \<Rightarrow> ('t, 'v, 'b, 'm, unit) gen" where
  "llg_ui_emit_handler L n i hkind body =
     (let ps = handler_params L hkind in
      gbind (build L (AddFunction (handler_symbol i hkind) (function_type L (void_type L) (map snd ps)))) (\<lambda>f.
      gget (\<lambda>g. (cur_fn g, cur_ret_ty g)) (\<lambda>(prev_fn, prev_ret).
      gbind (enter_function L f) (\<lambda>_.
      gbind (gset (\<lambda>g. g\<lparr>cur_ret_ty := None\<rparr>)) (\<lambda>_.
      gbind lg_push_scope (\<lambda>_.
      gbind (giter (bind_param L f) (map (\<lambda>(j, s, ty). (j, s, ty, None)) (enumerate 0 ps))) (\<lambda>_.
      gbind (emit_body L n body) (\<lambda>_.
      gbind lg_pop_scope (\<lambda>_.
      gbind (gget (block_ended L) (\<lambda>e. gwhen (\<not> e) (perform L BuildRetVoid))) (\<lambda>_.
      gset (\<lambda>g. g\<lparr>cur_fn := prev_fn, cur_ret_ty := prev_ret\<rparr>)))))))))))"

definition emit_handlers_of ::
  "('t, 'v, 'b, 'm) llvm \<Rightarrow> nat \<Rightarrow> nat \<times> ui_elem \<Rightarrow> ('t, 'v, 'b, 'm, unit) gen" where
  "emit_handlers_of L n ie =
     (case ie of (i, e) \<Rightarrow>
      gbind (each_opt (llg_ui_emit_handler L n i ''onclick'') (ue_click e)) (\<lambda>_.
      gbind (each_opt (llg_ui_emit_handler L n i ''onkey'') (ue_key e)) (\<lambda>_.
      each_opt (llg_ui_emit_handler L n i ''onchange'') (ue_change e))))"

definition llg_emit_ui_handlers :: "('t, 'v, 'b, 'm) llvm \<Rightarrow> nat \<Rightarrow> node list \<Rightarrow> ('t, 'v, 'b, 'm, unit) gen" where
  "llg_emit_ui_handlers L n ds =
     gbind (llg_declare_ui_runtime L) (\<lambda>_. giter (emit_handlers_of L n) (enumerate 0 (all_elems ds)))"

end
