(* ===== verification/Gen_Runtime.thy ===== *)
theory Gen_Runtime
  imports Gen_Ui Driver_Text
begin

text \<open>
  The C texts that the generator writes next to the object file: the runtime of every program
  (\<^verbatim>\<open>k_runtime_c\<close>) and the SDL2 program of a program with a user interface (\<^verbatim>\<open>k_ui_font\<close>,
  \<^verbatim>\<open>k_ui_sdl2_c\<close>, \<^verbatim>\<open>llg_write_ui_runtime\<close>). In the literals below a backquote stands for the backslash.
\<close>

definition c_text :: "string list \<Rightarrow> string" where
  "c_text ls = lines_text (map (map (\<lambda>c. if c = CHR 0x60 then CHR 0x5C else c)) ls)"

subsection \<open>The runtime\<close>

definition k_runtime_c :: "string list" where
  "k_runtime_c =
    [''#include <stdio.h>'',
     ''#include <stdlib.h>'',
     ''#include <string.h>'',
     ''#include <stdint.h>'',
     ''typedef struct { const char *ptr; size_t len; } NStr;'',
     ''typedef struct { char *ptr; size_t len; size_t cap; } NString;'',
     ''void NS_println(NStr s) { fwrite(s.ptr,1,s.len,stdout); putchar('`n'); }'',
     ''void NS_print(NStr s)   { fwrite(s.ptr,1,s.len,stdout); }'',
     ''void NS_println_int(int64_t v)  { printf(\"%lld`n\",(long long)v); }'',
     ''void NS_println_f64(double v)   { printf(\"%g`n\",v); }'',
     ''void NS_println_bool(int v)     { puts(v?\"true\":\"false\"); }'',
     ''void NS_println_char(int v)     { printf(\"%c`n\",v); }'',
     ''void NS_string_from(NString *out, NStr s) {'',
     ''    out->len=s.len; out->cap=s.len+1;'',
     ''    out->ptr=malloc(out->cap); if(out->ptr){memcpy(out->ptr,s.ptr,s.len);out->ptr[s.len]=0;}'',
     ''}'',
     ''NStr NS_string_as_str(NString *s) { NStr r={s->ptr,s->len}; return r; }'',
     ''void NS_string_free(NString *s)   { free(s->ptr); s->ptr=NULL; s->len=s->cap=0; }'',
     ''void NS_string_push_str(NString *s, NStr extra) {'',
     ''    size_t need=s->len+extra.len+1;'',
     ''    if(need>s->cap){s->cap=need*2;s->ptr=realloc(s->ptr,s->cap);}'',
     ''    if(s->ptr){memcpy(s->ptr+s->len,extra.ptr,extra.len);s->len+=extra.len;s->ptr[s->len]=0;}'',
     ''}'',
     ''int64_t NS_string_len(NString *s) { return (int64_t)s->len; }'',
     ''void *NS_alloc(int64_t sz) { return malloc((size_t)sz); }'',
     ''void  NS_free(void *p)     { free(p); }'',
     ''void  NS_exit(int code)    { exit(code); }'',
     ''void ns_io_print_i32(int32_t v)  { printf(\"%d\",v); }'',
     ''void ns_io_print_i64(int64_t v)  { printf(\"%lld\",(long long)v); }'',
     ''void ns_io_print_u32(uint32_t v) { printf(\"%u\",v); }'',
     ''void ns_io_print_u64(uint64_t v) { printf(\"%llu\",(unsigned long long)v); }'',
     ''void ns_io_print_f64(double v)   { printf(\"%g\",v); }'',
     ''void ns_io_print_bool(int v)     { fputs(v?\"true\":\"false\",stdout); }'',
     ''int32_t ns_io_read_i32(void)     { int32_t v=0; scanf(\"%d\",&v); return v; }'',
     ''const char *ns_io_readln(void) {'',
     ''    static char buf[4096]; if(!fgets(buf,sizeof(buf),stdin)) buf[0]=0;'',
     ''    size_t l=strlen(buf); if(l>0&&buf[l-1]=='`n') buf[l-1]=0; return buf;'',
     ''}'']"

subsection \<open>The font and the widgets\<close>

definition k_ui_font :: "nat list list" where
  "k_ui_font =
    [[0, 0, 0, 0, 0, 0, 0, 0], [24, 60, 60, 24, 24, 0, 24, 0], [54, 54, 0, 0, 0, 0, 0, 0],
     [54, 54, 127, 54, 127, 54, 54, 0], [12, 62, 3, 30, 48, 31, 12, 0], [0, 99, 51, 24, 12, 102, 99, 0],
     [28, 54, 28, 110, 59, 51, 110, 0], [6, 6, 3, 0, 0, 0, 0, 0], [24, 12, 6, 6, 6, 12, 24, 0],
     [6, 12, 24, 24, 24, 12, 6, 0], [0, 102, 60, 255, 60, 102, 0, 0], [0, 12, 12, 63, 12, 12, 0, 0],
     [0, 0, 0, 0, 0, 12, 12, 6], [0, 0, 0, 63, 0, 0, 0, 0], [0, 0, 0, 0, 0, 12, 12, 0],
     [96, 48, 24, 12, 6, 3, 1, 0], [62, 99, 115, 123, 111, 103, 62, 0], [12, 14, 12, 12, 12, 12, 63, 0],
     [30, 51, 48, 28, 6, 51, 63, 0], [30, 51, 48, 28, 48, 51, 30, 0], [56, 60, 54, 51, 127, 48, 120, 0],
     [63, 3, 31, 48, 48, 51, 30, 0], [28, 6, 3, 31, 51, 51, 30, 0], [63, 51, 48, 24, 12, 12, 12, 0],
     [30, 51, 51, 30, 51, 51, 30, 0], [30, 51, 51, 62, 48, 24, 14, 0], [0, 12, 12, 0, 0, 12, 12, 0],
     [0, 12, 12, 0, 0, 12, 12, 6], [24, 12, 6, 3, 6, 12, 24, 0], [0, 0, 63, 0, 0, 63, 0, 0],
     [6, 12, 24, 48, 24, 12, 6, 0], [30, 51, 48, 24, 12, 0, 12, 0], [62, 99, 123, 123, 123, 3, 30, 0],
     [12, 30, 51, 51, 63, 51, 51, 0], [63, 102, 102, 62, 102, 102, 63, 0], [60, 102, 3, 3, 3, 102, 60, 0],
     [31, 54, 102, 102, 102, 54, 31, 0], [127, 70, 22, 30, 22, 70, 127, 0], [127, 70, 22, 30, 22, 6, 15, 0],
     [60, 102, 3, 3, 115, 102, 124, 0], [51, 51, 51, 63, 51, 51, 51, 0], [30, 12, 12, 12, 12, 12, 30, 0],
     [120, 48, 48, 48, 51, 51, 30, 0], [103, 102, 54, 30, 54, 102, 103, 0], [15, 6, 6, 6, 70, 102, 127, 0],
     [99, 119, 127, 127, 107, 99, 99, 0], [99, 103, 111, 123, 115, 99, 99, 0], [28, 54, 99, 99, 99, 54, 28, 0],
     [63, 102, 102, 62, 6, 6, 15, 0], [30, 51, 51, 51, 59, 30, 56, 0], [63, 102, 102, 62, 54, 102, 103, 0],
     [30, 51, 7, 14, 56, 51, 30, 0], [63, 45, 12, 12, 12, 12, 30, 0], [51, 51, 51, 51, 51, 51, 63, 0],
     [51, 51, 51, 51, 51, 30, 12, 0], [99, 99, 99, 107, 127, 119, 99, 0], [99, 99, 54, 28, 28, 54, 99, 0],
     [51, 51, 51, 30, 12, 12, 30, 0], [127, 99, 49, 24, 76, 102, 127, 0], [30, 6, 6, 6, 6, 6, 30, 0],
     [3, 6, 12, 24, 48, 96, 64, 0], [30, 24, 24, 24, 24, 24, 30, 0], [8, 28, 54, 99, 0, 0, 0, 0],
     [0, 0, 0, 0, 0, 0, 0, 255], [12, 12, 24, 0, 0, 0, 0, 0], [0, 0, 30, 48, 62, 51, 110, 0],
     [7, 6, 6, 62, 102, 102, 59, 0], [0, 0, 30, 51, 3, 51, 30, 0], [56, 48, 48, 62, 51, 51, 110, 0],
     [0, 0, 30, 51, 63, 3, 30, 0], [28, 54, 6, 15, 6, 6, 15, 0], [0, 0, 110, 51, 51, 62, 48, 31],
     [7, 6, 54, 110, 102, 102, 103, 0], [12, 0, 14, 12, 12, 12, 30, 0], [48, 0, 48, 48, 48, 51, 51, 30],
     [7, 6, 102, 54, 30, 54, 103, 0], [14, 12, 12, 12, 12, 12, 30, 0], [0, 0, 51, 127, 127, 107, 99, 0],
     [0, 0, 31, 51, 51, 51, 51, 0], [0, 0, 30, 51, 51, 51, 30, 0], [0, 0, 59, 102, 102, 62, 6, 15],
     [0, 0, 110, 51, 51, 62, 48, 120], [0, 0, 59, 110, 102, 6, 15, 0], [0, 0, 62, 3, 30, 48, 31, 0],
     [8, 12, 62, 12, 12, 44, 24, 0], [0, 0, 51, 51, 51, 51, 110, 0], [0, 0, 51, 51, 51, 30, 12, 0],
     [0, 0, 99, 107, 127, 127, 54, 0], [0, 0, 99, 54, 28, 54, 99, 0], [0, 0, 51, 51, 51, 62, 48, 31],
     [0, 0, 63, 25, 12, 38, 63, 0], [56, 12, 12, 7, 12, 12, 56, 0], [24, 24, 24, 0, 24, 24, 24, 0],
     [7, 12, 12, 56, 12, 12, 7, 0], [110, 59, 0, 0, 0, 0, 0, 0], [0, 0, 0, 0, 0, 0, 0, 0]]"

definition hex_char :: "nat \<Rightarrow> char" where
  "hex_char d = (if d < 10 then char_of (48 + d) else char_of (55 + d))"

definition show_byte :: "nat \<Rightarrow> string" where
  "show_byte n = ''0x'' @ [hex_char (n div 16), hex_char (n mod 16)]"

definition comma_join :: "string list \<Rightarrow> string" where
  "comma_join xs = (case xs of [] \<Rightarrow> [] | y # ys \<Rightarrow> y @ concat (map (\<lambda>z. CHR '','' # z) ys))"

definition font_lines :: "string list" where
  "font_lines = map (\<lambda>row. ''  {'' @ comma_join (map show_byte row) @ ''},'') k_ui_font"

definition k_ui_sdl2_c :: "string list" where
  "k_ui_sdl2_c =
    [''static void ns_draw_char(SDL_Renderer*r,int x,int y,char c,Uint8 R,Uint8 G,Uint8 B){'',
     ''    if(c<32||c>127)return;'',
     ''    const unsigned char*g=ns_font8x8[(unsigned char)c-32];'',
     ''    SDL_SetRenderDrawColor(r,R,G,B,255);'',
     ''    for(int row=0;row<8;row++){'',
     ''        unsigned char bits=g[row];'',
     ''        for(int col=0;col<8;col++)'',
     ''            if(bits&(0x80>>col)) SDL_RenderDrawPoint(r,x+col,y+row);'',
     ''    }'',
     ''}'',
     ''static void ns_draw_text(SDL_Renderer*r,int x,int y,const char*s,Uint8 R,Uint8 G,Uint8 B){'',
     ''    for(;s&&*s;s++,x+=8) ns_draw_char(r,x,y,*s,R,G,B);'',
     ''}'',
     ''static void ns_render_button(SDL_Renderer*r,int x,int y,int w,int h,const char*t){'',
     ''    SDL_SetRenderDrawColor(r,80,80,180,255);'',
     ''    SDL_Rect rc={x,y,w,h}; SDL_RenderFillRect(r,&rc);'',
     ''    SDL_SetRenderDrawColor(r,180,180,255,255); SDL_RenderDrawRect(r,&rc);'',
     ''    if(t) ns_draw_text(r,x+4,y+(h-8)/2,t,255,255,255);'',
     ''}'',
     ''static void ns_render_label(SDL_Renderer*r,int x,int y,int w,int h,const char*t){'',
     ''    (void)w;(void)h; if(t) ns_draw_text(r,x,y,t,220,220,220);'',
     ''}'',
     ''static void ns_render_input(SDL_Renderer*r,int x,int y,int w,int h,const char*t){'',
     ''    SDL_SetRenderDrawColor(r,40,40,40,255);'',
     ''    SDL_Rect rc={x,y,w,h}; SDL_RenderFillRect(r,&rc);'',
     ''    SDL_SetRenderDrawColor(r,160,160,160,255); SDL_RenderDrawRect(r,&rc);'',
     ''    if(t) ns_draw_text(r,x+4,y+(h-8)/2,t,200,200,200);'',
     ''}'',
     ''static void ns_render_all(SDL_Renderer*r,NSUIElem*elems,int n){'',
     ''    for(int i=0;i<n;i++){'',
     ''        NSUIElem*e=&elems[i];'',
     ''        if(e->kind==1) ns_render_button(r,e->x,e->y,e->w,e->h,e->text);'',
     ''        else if(e->kind==2) ns_render_label(r,e->x,e->y,e->w,e->h,e->text);'',
     ''        else if(e->kind==3) {'',
     ''            /* show input_buf if non-empty, else placeholder */'',
     ''            const char *disp=e->input_buf[0]?e->input_buf:e->text;'',
     ''            ns_render_input(r,e->x,e->y,e->w,e->h,disp);'',
     ''        }'',
     ''    }'',
     ''}'']"

subsection \<open>The table of elements\<close>

definition kind_number :: "ui_elem_kind \<Rightarrow> nat" where
  "kind_number k =
     (case k of
        UI_ELEM_WINDOW \<Rightarrow> 0 | UI_ELEM_BUTTON \<Rightarrow> 1 | UI_ELEM_LABEL \<Rightarrow> 2 | UI_ELEM_INPUT \<Rightarrow> 3 | UI_ELEM_ROW \<Rightarrow> 4
      | UI_ELEM_COLUMN \<Rightarrow> 5 | UI_ELEM_CANVAS \<Rightarrow> 6 | UI_ELEM_PANEL \<Rightarrow> 7 | UI_ELEM_MENU \<Rightarrow> 8)"

text \<open>The text as a C literal, in a buffer of 512 bytes; \<open>n\<close> bytes are used.\<close>

fun safe_text :: "nat \<Rightarrow> string \<Rightarrow> string" where
  "safe_text n [] = []"
| "safe_text n (c # cs) =
     (if n \<ge> 510 then []
      else if c = CHR 0x22 \<or> c = CHR 0x5C then CHR 0x5C # c # safe_text (n + 2) cs
      else c # safe_text (n + 1) cs)"

definition elem_height :: "ui_elem_kind \<Rightarrow> int" where
  "elem_height k = (if k = UI_ELEM_BUTTON then 36 else if k = UI_ELEM_INPUT then 36 else 28)"

definition handler_ref :: "nat \<Rightarrow> string \<Rightarrow> node option \<Rightarrow> string" where
  "handler_ref i hkind h = (case h of Some _ \<Rightarrow> handler_symbol i hkind | None \<Rightarrow> ''0'')"

definition in_double_quotes :: "string \<Rightarrow> string" where
  "in_double_quotes s = CHR 0x22 # s @ [CHR 0x22]"

definition elem_line :: "int \<Rightarrow> int \<Rightarrow> nat \<Rightarrow> ui_elem \<Rightarrow> string" where
  "elem_line win_w y i e =
     ''  {'' @ comma_join [show_nat (kind_number (ue_kind e)), in_double_quotes (safe_text 0 (ue_text e)),
       in_double_quotes []] @
     '', '' @ comma_join (map show_int [20, y, win_w - 40, elem_height (ue_kind e)]) @
     '', 0, '' @ comma_join
       [handler_ref i ''onclick'' (ue_click e), handler_ref i ''onkey'' (ue_key e),
        handler_ref i ''onchange'' (ue_change e)] @ ''},''"

text \<open>The elements are stacked from 20 downwards, 14 apart.\<close>

fun elem_lines :: "int \<Rightarrow> int \<Rightarrow> nat \<Rightarrow> ui_elem list \<Rightarrow> string list" where
  "elem_lines win_w y i [] = []"
| "elem_lines win_w y i (e # es) =
     elem_line win_w y i e # elem_lines win_w (y + elem_height (ue_kind e) + 14) (Suc i) es"

subsection \<open>The program\<close>

definition handler_externs :: "nat \<times> ui_elem \<Rightarrow> string list" where
  "handler_externs ie =
     (case ie of (i, e) \<Rightarrow>
      (if ue_click e = None then [] else [''extern void '' @ handler_symbol i ''onclick'' @ ''(int mx, int my);'']) @
      (if ue_key e = None then []
       else [''extern void '' @ handler_symbol i ''onkey'' @ ''(int keycode, int scancode, int mod);'']) @
      (if ue_change e = None then []
       else [''extern void '' @ handler_symbol i ''onchange'' @ ''(const char *text);'']))"

definition ui_includes :: "string list" where
  "ui_includes =
    [''#include <SDL2/SDL.h>'',
     ''#include <string.h>'',
     ''#include <stdlib.h>'',
     ''#include <stdio.h>'',
     []]"

definition ui_struct :: "string list" where
  "ui_struct =
    [''typedef struct {'',
     ''    int kind;           /* 1=button 2=label 3=input */'',
     ''    char text[512];     /* display text */'',
     ''    char input_buf[512];/* for input elements */'',
     ''    int x,y,w,h;        /* bounding box */'',
     ''    int focused;        /* keyboard focus */'',
     ''    void('' @ ''*onclick)(int,int);'',
     ''    void('' @ ''*onkey)(int,int,int);'',
     ''    void('' @ ''*onchange)(const char*);'',
     ''} NSUIElem;'',
     []]"

definition ui_helpers :: "string list" where
  "ui_helpers =
    [''/* Runtime helpers callable from NightScript handlers */'',
     ''void ns_ui_set_label_text(int idx, const char *text) {'',
     ''    if(idx>=0&&idx<NS_UI_ELEM_COUNT) {'',
     ''        strncpy(ns_ui_elems[idx].text, text, sizeof(ns_ui_elems[0].text)-1);'',
     ''    }'',
     ''}'',
     ''void ns_ui_set_button_text(int idx, const char *text) {'',
     ''    if(idx>=0&&idx<NS_UI_ELEM_COUNT) {'',
     ''        strncpy(ns_ui_elems[idx].text, text, sizeof(ns_ui_elems[0].text)-1);'',
     ''    }'',
     ''}'',
     ''const char *ns_ui_get_input_text(int idx) {'',
     ''    if(idx>=0&&idx<NS_UI_ELEM_COUNT) return ns_ui_elems[idx].input_buf;'',
     ''    return \"\";'',
     ''}'',
     ''static int ns_ui_running = 1;'',
     ''void ns_ui_close(void) { ns_ui_running = 0; }'',
     []]"

definition ui_main_open :: "string list" where
  "ui_main_open =
    [''int main(void) {'',
     ''    if(SDL_Init(SDL_INIT_VIDEO)<0){fprintf(stderr,\"SDL_Init: %s`n\",SDL_GetError());return 1;}'']"

definition ui_main_loop :: "string list" where
  "ui_main_loop =
    [''        SDL_WINDOW_SHOWN|SDL_WINDOW_RESIZABLE);'',
     ''    if(!win){SDL_Quit();return 1;}'',
     ''    SDL_Renderer *rend=SDL_CreateRenderer(win,-1,'',
     ''        SDL_RENDERER_ACCELERATED|SDL_RENDERER_PRESENTVSYNC);'',
     ''    if(!rend){SDL_DestroyWindow(win);SDL_Quit();return 1;}'',
     ''    SDL_StartTextInput();'',
     ''    int focused_elem=-1;'',
     ''    while(ns_ui_running){'',
     ''        SDL_Event ev;'',
     ''        while(SDL_PollEvent(&ev)){'',
     ''            if(ev.type==SDL_QUIT) ns_ui_running=0;'',
     ''            if(ev.type==SDL_MOUSEBUTTONDOWN&&ev.button.button==SDL_BUTTON_LEFT){'',
     ''                int mx=ev.button.x,my=ev.button.y;'',
     ''                focused_elem=-1;'',
     ''                for(int i=0;i<NS_UI_ELEM_COUNT;i++){'',
     ''                    NSUIElem*e=&ns_ui_elems[i];'',
     ''                    if(mx>=e->x&&mx<e->x+e->w&&my>=e->y&&my<e->y+e->h){'',
     ''                        if(e->kind==3) focused_elem=i;'',
     ''                        if(e->onclick) e->onclick(mx,my);'',
     ''                        break;'',
     ''                    }'',
     ''                }'',
     ''            }'',
     ''            if(ev.type==SDL_KEYDOWN){'',
     ''                int kc=(int)ev.key.keysym.sym;'',
     ''                int sc=(int)ev.key.keysym.scancode;'',
     ''                int md=(int)ev.key.keysym.mod;'',
     ''                if(focused_elem>=0&&focused_elem<NS_UI_ELEM_COUNT){'',
     ''                    NSUIElem*fe=&ns_ui_elems[focused_elem];'',
     ''                    if(kc==SDLK_BACKSPACE){'',
     ''                        size_t l=strlen(fe->input_buf);'',
     ''                        if(l>0){ fe->input_buf[l-1]=0;'',
     ''                            if(fe->onchange) fe->onchange(fe->input_buf); }'',
     ''                    }'',
     ''                    if(fe->onkey) fe->onkey(kc,sc,md);'',
     ''                } else {'',
     ''                    for(int i=0;i<NS_UI_ELEM_COUNT;i++)'',
     ''                        if(ns_ui_elems[i].onkey) ns_ui_elems[i].onkey(kc,sc,md);'',
     ''                }'',
     ''            }'',
     ''            if(ev.type==SDL_TEXTINPUT&&focused_elem>=0){'',
     ''                NSUIElem*fe=&ns_ui_elems[focused_elem];'',
     ''                if(fe->kind==3){'',
     ''                    strncat(fe->input_buf,ev.text.text,sizeof(fe->input_buf)-strlen(fe->input_buf)-1);'',
     ''                    if(fe->onchange) fe->onchange(fe->input_buf);'',
     ''                }'',
     ''            }'',
     ''        }'',
     ''        SDL_SetRenderDrawColor(rend,20,20,28,255);'',
     ''        SDL_RenderClear(rend);'',
     ''        ns_render_all(rend,ns_ui_elems,NS_UI_ELEM_COUNT);'',
     ''        if(focused_elem>=0&&focused_elem<NS_UI_ELEM_COUNT){'',
     ''            NSUIElem*fe=&ns_ui_elems[focused_elem];'',
     ''            SDL_SetRenderDrawColor(rend,80,160,255,255);'',
     ''            SDL_Rect fr={fe->x-2,fe->y-2,fe->w+4,fe->h+4};'',
     ''            SDL_RenderDrawRect(rend,&fr);'',
     ''        }'',
     ''        SDL_RenderPresent(rend);'',
     ''    }'',
     ''    SDL_StopTextInput();'',
     ''    SDL_DestroyRenderer(rend);'',
     ''    SDL_DestroyWindow(win);'',
     ''    SDL_Quit();'',
     ''    return 0;'',
     ''}'']"

text \<open>The title is put between the quotes as it is.\<close>

definition ui_window :: "string \<Rightarrow> int \<Rightarrow> int \<Rightarrow> string list" where
  "ui_window title win_w win_h =
    [''    SDL_Window *win=SDL_CreateWindow(\"'' @ title @ ''\",'',
     ''        SDL_WINDOWPOS_CENTERED,SDL_WINDOWPOS_CENTERED,'' @ show_int win_w @ '','' @ show_int win_h @ '','']"

text \<open>The text that \<^verbatim>\<open>fprintf\<close> and \<^verbatim>\<open>fputs\<close> write; \<open>c_text\<close> leaves the parts from the program alone.\<close>

definition llg_write_ui_runtime :: "ui_elem list \<Rightarrow> string \<Rightarrow> int \<Rightarrow> int \<Rightarrow> string" where
  "llg_write_ui_runtime es title win_w win_h =
     c_text ui_includes @
     lines_text (concat (map handler_externs (enumerate 0 es)) @ [[]]) @
     c_text ui_struct @
     lines_text ([''static const unsigned char ns_font8x8[96][8] = {''] @ font_lines @ [''};'', []]) @
     c_text k_ui_sdl2_c @
     lines_text
       ([''static NSUIElem ns_ui_elems['' @ show_nat (if es = [] then 1 else length es) @ ''] = {''] @
        elem_lines win_w 20 0 es @
        [''};'', ''#define NS_UI_ELEM_COUNT '' @ show_nat (length es), []]) @
     c_text ui_helpers @
     c_text ui_main_open @ lines_text (ui_window title win_w win_h) @ c_text ui_main_loop"

end
