(* ===== verification/Gen_Module.thy ===== *)
theory Gen_Module
  imports Gen_Runtime
begin

text \<open>
  The entry points \<^verbatim>\<open>llvmgen_generate\<close> and \<^verbatim>\<open>llvmgen_emit_ir\<close>: the passes over the program, and what is done
  with the module. The target machine, the files, the compiler and \<^verbatim>\<open>system\<close> are parameters; what
  \<^verbatim>\<open>llvmgen_generate\<close> does with them is a list of actions.
\<close>

subsection \<open>The passes\<close>

definition lg_init :: "node list \<Rightarrow> 'm \<Rightarrow> ('t, 'v, 'b, 'm) lg" where
  "lg_init ds m =
     \<lparr>lg_decls = ds, named_types = [], lg_globals = [], cur_fn = None, cur_bb = None, scope_chain = [],
      cur_ret_ty = None, loop_stack = [], defer_stack = [], defer_marks = [], tmp_counter = 0,
      gfn_decls = [], gst_decls = [], sub_slot = None, sub_count = 0, gfn_insts = [], gst_insts = [],
      llvm_state = m\<rparr>"

text \<open>Passes 1 to 4: templates, named types, the scan for instances, functions.\<close>

definition declare_all :: "('t, 'v, 'b, 'm) llvm \<Rightarrow> nat \<Rightarrow> node list \<Rightarrow> ('t, 'v, 'b, 'm, unit) gen" where
  "declare_all L n ds =
     gbind (giter collect_template ds) (\<lambda>_.
     gbind (llg_ns_to_ll L n ''str'') (\<lambda>_.
     gbind (llg_ns_to_ll L n ''String'') (\<lambda>_.
     gbind (giter (setup_decl L n) ds) (\<lambda>_.
     gbind (giter scan_decl ds) (\<lambda>_.
     gbind (llg_declare_runtime L n) (\<lambda>_.
     giter (declare_decl L n) ds))))))"

definition emit_decl :: "('t, 'v, 'b, 'm) llvm \<Rightarrow> nat \<Rightarrow> node \<Rightarrow> ('t, 'v, 'b, 'm, unit) gen" where
  "emit_decl L n decl =
     (case nas decl of
        NODE_FN_DECL _ _ _ tps _ _ _ _ \<Rightarrow> gwhen (tps = []) (llg_emit_fn L n decl)
      | NODE_IMPL_DECL _ _ _ ms \<Rightarrow> giter (llg_emit_fn L n) ms
      | _ \<Rightarrow> gret ())"

text \<open>Passes 4b to 7: interfaces, constants, instances, bodies and handlers.\<close>

definition emit_all :: "('t, 'v, 'b, 'm) llvm \<Rightarrow> nat \<Rightarrow> node list \<Rightarrow> ('t, 'v, 'b, 'm, unit) gen" where
  "emit_all L n ds =
     gbind (llg_setup_interfaces L ds) (\<lambda>_.
     gbind (llg_emit_comptime L n ds) (\<lambda>_.
     gbind (llg_instantiate_generics L n) (\<lambda>_.
     gbind (giter (emit_decl L n) ds) (\<lambda>_.
     gwhen (llg_prog_has_ui ds) (llg_emit_ui_handlers L n ds)))))"

definition generate_module :: "('t, 'v, 'b, 'm) llvm \<Rightarrow> nat \<Rightarrow> node list \<Rightarrow> ('t, 'v, 'b, 'm, unit) gen" where
  "generate_module L n ds =
     gbind lg_push_scope (\<lambda>_.
     gbind (declare_all L n ds) (\<lambda>_.
     gbind (emit_all L n ds) (\<lambda>_.
     lg_pop_scope)))"

text \<open>The module of a program, from an empty one.\<close>

definition module_of ::
  "('t, 'v, 'b, 'm) llvm \<Rightarrow> nat \<Rightarrow> 'm \<Rightarrow> node list \<Rightarrow> (gen_fault, ('t, 'v, 'b, 'm) lg) sum" where
  "module_of L n m ds =
     (case generate_module L n ds (lg_init ds m) of Inl e \<Rightarrow> Inl e | Inr (_, g) \<Rightarrow> Inr g)"

subsection \<open>Options and tools\<close>

record gen_options =
  target_triple :: "string option"
  gen_opt_level :: int
  emit_text :: bool

record 'm target =
  known_target :: "string option \<Rightarrow> bool"
  empty_module :: "string option \<Rightarrow> 'm"
  optimize :: "string \<Rightarrow> 'm \<Rightarrow> 'm"
  module_text :: "'m \<Rightarrow> string"
  object_written :: "'m \<Rightarrow> string \<Rightarrow> bool"
  file_opens :: "string \<Rightarrow> bool"
  command_ok :: "string \<Rightarrow> bool"
  env_cc :: "string option"
  sdl2_libs :: "string option"

datatype 'm tool_action = WriteObject 'm string | WriteText string string | RunCommand string | RemoveFile string

definition llg_optimize :: "'m target \<Rightarrow> int \<Rightarrow> 'm \<Rightarrow> 'm" where
  "llg_optimize T level m =
     (if level = 0 then m
      else optimize T (if level \<ge> 3 then ''default<O3>'' else if level = 2 then ''default<O2>'' else ''default<O1>'') m)"

definition c_compiler :: "'m target \<Rightarrow> string" where
  "c_compiler T = (case env_cc T of Some (c # cs) \<Rightarrow> c # cs | _ \<Rightarrow> ''gcc'')"

text \<open>The command line, in a buffer of \<open>room\<close> bytes; the paths stand between double quotes.\<close>

definition link_command :: "nat \<Rightarrow> 'm target \<Rightarrow> string \<Rightarrow> string \<Rightarrow> string \<Rightarrow> string \<Rightarrow> string" where
  "link_command room T out obj rt flags =
     take (room - 1)
       (c_compiler T @ '' -no-pie -o '' @ in_double_quotes out @ '' '' @ in_double_quotes obj @ '' '' @
        in_double_quotes rt @ flags)"

definition llg_link :: "'m target \<Rightarrow> string \<Rightarrow> string \<Rightarrow> string \<Rightarrow> bool \<times> 'm tool_action list" where
  "llg_link T obj rt out =
     (let cmd = link_command 4096 T out obj rt [] in (command_ok T cmd, [RunCommand cmd]))"

definition path_buffer :: "string \<Rightarrow> string \<Rightarrow> string" where
  "path_buffer out ext = take 4095 (out @ ext)"

definition build_program :: "'m target \<Rightarrow> string \<Rightarrow> 'm \<Rightarrow> bool \<times> 'm tool_action list" where
  "build_program T out m =
     (let obj = path_buffer out ''.llvm.o''; rt = path_buffer out ''.rt.c'' in
      if \<not> object_written T m obj then (False, [])
      else if \<not> file_opens T rt then (False, [WriteObject m obj])
      else
        (case llg_link T obj rt out of (ok, acts) \<Rightarrow>
           (ok, [WriteObject m obj, WriteText rt (c_text k_runtime_c)] @ acts @ [RemoveFile obj, RemoveFile rt])))"

subsection \<open>Programs with a user interface\<close>

definition int_of_literal :: "node \<Rightarrow> int option" where
  "int_of_literal x = (case nas x of NODE_LIT_INT w \<Rightarrow> Some (sint (ucast w :: 32 word)) | _ \<Rightarrow> None)"

text \<open>Title, width and height.\<close>

type_synonym window = "string \<times> int \<times> int"

definition window_property :: "window \<Rightarrow> node \<Rightarrow> window" where
  "window_property w p =
     (case (w, nas p) of
        ((title, wd, ht), NODE_UI_PROPERTY s x) \<Rightarrow>
          (title,
           (case (if s = ''width'' then int_of_literal x else None) of Some v \<Rightarrow> v | None \<Rightarrow> wd),
           (case (if s = ''height'' then int_of_literal x else None) of Some v \<Rightarrow> v | None \<Rightarrow> ht))
      | _ \<Rightarrow> w)"

definition window_elem :: "window \<Rightarrow> node \<Rightarrow> window" where
  "window_elem w ch =
     (case nas ch of
        NODE_UI_ELEMENT k text props _ _ \<Rightarrow>
          if k \<noteq> UI_ELEM_WINDOW then w
          else foldl window_property ((case text of Some (c # cs) \<Rightarrow> c # cs | _ \<Rightarrow> fst w), snd w) props
      | _ \<Rightarrow> w)"

definition window_app :: "window \<Rightarrow> node \<Rightarrow> window" where
  "window_app w decl =
     (case nas decl of
        NODE_UI_APP s _ children _ \<Rightarrow> foldl window_elem (s, snd w) children
      | _ \<Rightarrow> w)"

definition main_window :: "node list \<Rightarrow> window" where
  "main_window ds = foldl window_app (''NightScript App'', 800, 600) ds"

definition llg_write_and_link_ui :: "'m target \<Rightarrow> string \<Rightarrow> node list \<Rightarrow> 'm \<Rightarrow> bool \<times> 'm tool_action list" where
  "llg_write_and_link_ui T out ds m =
     (let obj = path_buffer out ''.llvm.o''; rt = path_buffer out ''.ui_rt.c'' in
      if \<not> object_written T m obj then (False, [])
      else if \<not> file_opens T rt then (False, [WriteObject m obj, RemoveFile obj])
      else
        (case main_window ds of (title, w, h) \<Rightarrow>
         let cmd = link_command 16384 T out obj rt (CHR 0x20 # (case sdl2_libs T of Some s \<Rightarrow> s | None \<Rightarrow> ''-lSDL2''))
         in (command_ok T cmd,
             [WriteObject m obj, WriteText rt (llg_write_ui_runtime (all_elems ds) title w h), RunCommand cmd,
              RemoveFile obj, RemoveFile rt])))"

subsection \<open>The entry points\<close>

definition top_decls :: "node \<Rightarrow> node list option" where
  "top_decls prog = (case nas prog of NODE_PROGRAM _ _ ds \<Rightarrow> Some ds | _ \<Rightarrow> None)"

definition finish_module ::
  "'m target \<Rightarrow> gen_options \<Rightarrow> string option \<Rightarrow> node list \<Rightarrow> 'm \<Rightarrow> bool \<times> 'm tool_action list" where
  "finish_module T opts out ds m =
     (if emit_text opts then
        (case out of
           Some path \<Rightarrow> if file_opens T path then (True, [WriteText path (module_text T m)]) else (False, [])
         | None \<Rightarrow> (True, []))
      else
        (let path = (case out of Some p \<Rightarrow> p | None \<Rightarrow> ''(null)'') in
         if llg_prog_has_ui ds then llg_write_and_link_ui T path ds m else build_program T path m))"

definition llvmgen_generate ::
  "('t, 'v, 'b, 'm) llvm \<Rightarrow> 'm target \<Rightarrow> nat \<Rightarrow> node \<Rightarrow> string option \<Rightarrow> gen_options \<Rightarrow>
   (gen_fault, bool \<times> 'm tool_action list) sum" where
  "llvmgen_generate L T n prog out opts =
     (case top_decls prog of
        None \<Rightarrow> Inr (False, [])
      | Some ds \<Rightarrow>
          if \<not> known_target T (target_triple opts) then Inr (False, [])
          else
            (case module_of L n (empty_module T (target_triple opts)) ds of
               Inl e \<Rightarrow> Inl e
             | Inr g \<Rightarrow> Inr (finish_module T opts out ds (llg_optimize T (gen_opt_level opts) (llvm_state g)))))"

text \<open>The text of the module, which is not optimised here.\<close>

definition llvmgen_emit_ir ::
  "('t, 'v, 'b, 'm) llvm \<Rightarrow> 'm target \<Rightarrow> nat \<Rightarrow> node \<Rightarrow> gen_options \<Rightarrow> (gen_fault, string option) sum" where
  "llvmgen_emit_ir L T n prog opts =
     (case top_decls prog of
        None \<Rightarrow> Inr None
      | Some ds \<Rightarrow>
          if \<not> known_target T (target_triple opts) then Inr None
          else
            (case module_of L n (empty_module T (target_triple opts)) ds of
               Inl e \<Rightarrow> Inl e
             | Inr g \<Rightarrow> Inr (Some (module_text T (llvm_state g)))))"

end
