(* ===== verification/Gen_Logic.thy ===== *)
theory Gen_Logic
  imports Gen_Module
begin

text \<open>
  A program logic for the generator. A step whose nesting of calls is bounded is a family, indexed by the
  bound. \<open>wp tot m Q g\<close>: from \<open>g\<close>, wherever the steps of the family \<open>m\<close> return, \<open>Q\<close> holds; and if \<open>tot\<close>,
  all large bounds give the same answer, which is not that the bound was reached. The rules are the same for
  both readings, so that each operation is treated once.
\<close>

named_theorems wp_rules \<open>introduction rules for \<open>wp\<close>, one per construct of the monad\<close>

type_synonym ('t, 'v, 'b, 'm, 'a) gens = "nat \<Rightarrow> ('t, 'v, 'b, 'm, 'a) gen"

definition ends_in :: "(gen_fault, 'a \<times> ('t, 'v, 'b, 'm) lg) sum \<Rightarrow> ('a \<Rightarrow> ('t, 'v, 'b, 'm) lg \<Rightarrow> bool) \<Rightarrow> bool" where
  "ends_in r Q = (case r of Inl e \<Rightarrow> True | Inr (x, g) \<Rightarrow> Q x g)"

definition wp ::
  "bool \<Rightarrow> ('t, 'v, 'b, 'm, 'a) gens \<Rightarrow> ('a \<Rightarrow> ('t, 'v, 'b, 'm) lg \<Rightarrow> bool) \<Rightarrow> ('t, 'v, 'b, 'm) lg \<Rightarrow> bool" where
  "wp tot m Q g \<longleftrightarrow>
     (if tot then \<exists>k r. (\<forall>n \<ge> k. m n g = r) \<and> r \<noteq> Inl TooDeep \<and> ends_in r Q else \<forall>n. ends_in (m n g) Q)"

lemma ends_in_Inr [simp]: "ends_in (Inr (x, g)) Q \<longleftrightarrow> Q x g"
  by (simp add: ends_in_def)

lemma ends_in_Inl [simp]: "ends_in (Inl e) Q"
  by (simp add: ends_in_def)

lemma wp_totalI: "(\<And>n. n \<ge> k \<Longrightarrow> m n g = r) \<Longrightarrow> r \<noteq> Inl TooDeep \<Longrightarrow> ends_in r Q \<Longrightarrow> wp True m Q g"
  unfolding wp_def by auto

lemma wp_const: "r \<noteq> Inl TooDeep \<Longrightarrow> (\<And>n. m n g = r) \<Longrightarrow> ends_in r Q \<Longrightarrow> wp tot m Q g"
  unfolding wp_def by auto

lemma wp_ret [wp_rules]: "Q x g \<Longrightarrow> wp tot (\<lambda>n. gret x) Q g"
  by (rule wp_const [of "Inr (x, g)"]) (simp_all add: gret_def)

lemma wp_set [wp_rules]: "Q () (f g) \<Longrightarrow> wp tot (\<lambda>n. gset f) Q g"
  by (rule wp_const [of "Inr ((), f g)"]) (simp_all add: gset_def)

lemma wp_fail [wp_rules]: "e \<noteq> TooDeep \<Longrightarrow> wp tot (\<lambda>n. gfail e) Q g"
  by (rule wp_const [of "Inl e"]) (simp_all add: gfail_def)

lemma wp_get [wp_rules]: "wp tot (\<lambda>n. f n (sel g)) Q g \<Longrightarrow> wp tot (\<lambda>n. gget sel (f n)) Q g"
  by (simp add: wp_def gget_def)

lemma wp_bind [wp_rules]:
  assumes "wp tot m (\<lambda>x. wp tot (\<lambda>n. f n x) Q) g"
  shows "wp tot (\<lambda>n. gbind (m n) (f n)) Q g"
proof (cases tot)
  case True
  with assms obtain k r where m: "\<forall>n \<ge> k. m n g = r" and r: "r \<noteq> Inl TooDeep"
    and h: "ends_in r (\<lambda>x. wp tot (\<lambda>n. f n x) Q)"
    by (auto simp: wp_def)
  show ?thesis
  proof (cases r)
    case (Inl e)
    have "gbind (m n) (f n) g = Inl e" if "n \<ge> k" for n
      using m Inl that by (simp add: gbind_def)
    with Inl r True show ?thesis by (simp add: wp_totalI [of k])
  next
    case (Inr p)
    then obtain x g' where p: "r = Inr (x, g')" by (cases p) auto
    with h True obtain k' r' where f: "\<forall>n \<ge> k'. f n x g' = r'" "r' \<noteq> Inl TooDeep" "ends_in r' Q"
      by (auto simp: wp_def)
    have "gbind (m n) (f n) g = r'" if "n \<ge> max k k'" for n
      using m f(1) p that by (simp add: gbind_def)
    then have "wp True (\<lambda>n. gbind (m n) (f n)) Q g" using f(2,3) by (rule wp_totalI)
    with True show ?thesis by simp
  qed
next
  case False
  with assms show ?thesis
    by (auto simp: wp_def gbind_def ends_in_def split: sum.splits prod.splits)
qed

lemma wp_mono:
  assumes "wp tot m Q g" "\<And>x g'. Q x g' \<Longrightarrow> Q' x g'"
  shows "wp tot m Q' g"
proof -
  have "ends_in r Q \<Longrightarrow> ends_in r Q'" for r
    using assms(2) by (auto simp: ends_in_def split: sum.splits)
  with assms(1) show ?thesis unfolding wp_def by (auto split: if_splits)
qed

text \<open>A family that counts its bound down.\<close>

lemma wp_Suc:
  assumes "\<And>g'. m 0 g' = Inl TooDeep" "wp tot (\<lambda>n. m (Suc n)) Q g"
  shows "wp tot m Q g"
proof (cases tot)
  case True
  with assms(2) obtain k r where r: "\<forall>n \<ge> k. m (Suc n) g = r" "r \<noteq> Inl TooDeep" "ends_in r Q"
    by (auto simp: wp_def)
  have "m n g = r" if "n \<ge> Suc k" for n
    using r(1) that by (metis Suc_le_D Suc_le_mono)
  with r True show ?thesis by (simp add: wp_totalI [of "Suc k"])
next
  case False
  with assms(2) have "ends_in (m (Suc n) g) Q" for n by (auto simp: wp_def)
  moreover have "ends_in (m 0 g) Q" using assms(1) [of g] by simp
  ultimately have "ends_in (m n g) Q" for n by (cases n) auto
  with False show ?thesis by (simp add: wp_def)
qed

lemma wp_cong: "(\<And>n. m n g = m' n g') \<Longrightarrow> wp tot m' Q g' \<Longrightarrow> wp tot m Q g"
  by (simp add: wp_def)

lemma wp_partialI: "(\<And>n. wp False (\<lambda>_. m n) Q g) \<Longrightarrow> wp False m Q g"
  by (simp add: wp_def)

lemma wp_partialD: "wp False m Q g \<Longrightarrow> wp False (\<lambda>_. m n) Q g"
  by (simp add: wp_def)

lemma wp_if [wp_rules]:
  "(b \<Longrightarrow> wp tot m Q g) \<Longrightarrow> (\<not> b \<Longrightarrow> wp tot m' Q g) \<Longrightarrow> wp tot (\<lambda>n. if b then m n else m' n) Q g"
  by (cases b) simp_all

lemma wp_when [wp_rules]:
  "(b \<Longrightarrow> wp tot m Q g) \<Longrightarrow> (\<not> b \<Longrightarrow> Q () g) \<Longrightarrow> wp tot (\<lambda>n. gwhen b (m n)) Q g"
  by (cases b) (simp_all add: gwhen_def wp_ret)

lemma wp_option [wp_rules]:
  "(x = None \<Longrightarrow> wp tot m Q g) \<Longrightarrow> (\<And>y. x = Some y \<Longrightarrow> wp tot (\<lambda>n. f n y) Q g) \<Longrightarrow>
   wp tot (\<lambda>n. case x of None \<Rightarrow> m n | Some y \<Rightarrow> f n y) Q g"
  by (cases x) auto

lemma wp_prod [wp_rules]:
  "(\<And>a b. x = (a, b) \<Longrightarrow> wp tot (\<lambda>n. f n a b) Q g) \<Longrightarrow> wp tot (\<lambda>n. case x of (a, b) \<Rightarrow> f n a b) Q g"
  by (cases x) auto

text \<open>
  What the generator relies on of LLVM, as far as basic blocks are concerned, and the state between two
  instructions: where the builder stands, which blocks are still open, which scopes and loops are entered.
\<close>

subsection \<open>The laws\<close>

text \<open>
  What is observed of a module: its blocks, the block the builder is at, and whether it is \<open>intact\<close>: no
  instruction follows the terminator of its block, and every branch leads to a block of the module. The
  verifier of LLVM checks the latter two.
\<close>

record ('b, 'm) view =
  blocks_in :: "'m \<Rightarrow> 'b set"
  builder_at :: "'m \<Rightarrow> 'b option"
  intact :: "'m \<Rightarrow> bool"

definition is_terminator :: "('t, 'v, 'b) llvm_call \<Rightarrow> bool" where
  "is_terminator c \<longleftrightarrow>
     (case c of BuildBr _ \<Rightarrow> True | BuildCondBr _ _ _ \<Rightarrow> True | BuildRet _ \<Rightarrow> True | BuildRetVoid \<Rightarrow> True | _ \<Rightarrow> False)"

definition targets :: "('t, 'v, 'b) llvm_call \<Rightarrow> 'b list" where
  "targets c = (case c of BuildBr b \<Rightarrow> [b] | BuildCondBr _ x y \<Rightarrow> [x, y] | _ \<Rightarrow> [])"

text \<open>The calls that are no instruction of the block the builder is at.\<close>

definition is_outside :: "('t, 'v, 'b) llvm_call \<Rightarrow> bool" where
  "is_outside c \<longleftrightarrow>
     (case c of PositionAtEnd _ \<Rightarrow> True | AddFunction _ _ \<Rightarrow> True | AddGlobal _ _ \<Rightarrow> True | SetInitializer _ _ \<Rightarrow> True
      | SetGlobalConstant _ \<Rightarrow> True | SetExternal _ \<Rightarrow> True | SetInternal _ \<Rightarrow> True | SetValueName _ _ \<Rightarrow> True | _ \<Rightarrow> False)"

definition open_blocks :: "('t, 'v, 'b, 'm) llvm \<Rightarrow> ('b, 'm) view \<Rightarrow> 'm \<Rightarrow> 'b set" where
  "open_blocks L V m = {b \<in> blocks_in V m. \<not> terminated L b m}"

definition well_placed :: "('t, 'v, 'b, 'm) llvm \<Rightarrow> ('b, 'm) view \<Rightarrow> ('t, 'v, 'b) llvm_call \<Rightarrow> 'm \<Rightarrow> bool" where
  "well_placed L V c m \<longleftrightarrow>
     is_outside c \<or> set (targets c) \<subseteq> blocks_in V m \<and> (\<exists>b. builder_at V m = Some b \<and> b \<in> open_blocks L V m)"

definition llvm_laws :: "('t, 'v, 'b, 'm) llvm \<Rightarrow> ('b, 'm) view \<Rightarrow> bool" where
  "llvm_laws L V \<longleftrightarrow>
     (\<forall>f s m. case append_block L (Some f) s m of (b, m') \<Rightarrow>
        b \<notin> blocks_in V m \<and> blocks_in V m' = insert b (blocks_in V m) \<and>
        open_blocks L V m' = insert b (open_blocks L V m) \<and>
        builder_at V m' = builder_at V m \<and> (intact V m \<longrightarrow> intact V m')) \<and>
     (\<forall>c m. well_placed L V c m \<longrightarrow> (case llvm_do L c m of (v, m') \<Rightarrow>
        blocks_in V m' = blocks_in V m \<and>
        open_blocks L V m' =
          (if is_terminator c then {b \<in> open_blocks L V m. builder_at V m \<noteq> Some b} else open_blocks L V m) \<and>
        builder_at V m' = (case c of PositionAtEnd b \<Rightarrow> Some b | _ \<Rightarrow> builder_at V m) \<and>
        (intact V m \<longrightarrow> intact V m'))) \<and>
     (\<forall>s tys packed m. case named_struct L s tys packed m of (ty, m') \<Rightarrow>
        blocks_in V m' = blocks_in V m \<and> open_blocks L V m' = open_blocks L V m \<and>
        builder_at V m' = builder_at V m \<and> (intact V m \<longrightarrow> intact V m'))"

lemma law_append:
  assumes "llvm_laws L V" "append_block L (Some f) s m = (b, m')"
  shows "b \<notin> blocks_in V m" "blocks_in V m' = insert b (blocks_in V m)"
    "open_blocks L V m' = insert b (open_blocks L V m)" "builder_at V m' = builder_at V m"
    "intact V m \<Longrightarrow> intact V m'"
  using assms unfolding llvm_laws_def by (force split: prod.splits)+

lemma law_do:
  assumes "llvm_laws L V" "llvm_do L c m = (v, m')" "well_placed L V c m"
  shows "blocks_in V m' = blocks_in V m"
    "open_blocks L V m' =
       (if is_terminator c then {b \<in> open_blocks L V m. builder_at V m \<noteq> Some b} else open_blocks L V m)"
    "builder_at V m' = (case c of PositionAtEnd b \<Rightarrow> Some b | _ \<Rightarrow> builder_at V m)"
    "intact V m \<Longrightarrow> intact V m'"
  using assms unfolding llvm_laws_def by (force split: prod.splits)+

lemma law_struct:
  assumes "llvm_laws L V" "named_struct L s tys packed m = (ty, m')"
  shows "blocks_in V m' = blocks_in V m" "open_blocks L V m' = open_blocks L V m"
    "builder_at V m' = builder_at V m" "intact V m \<Longrightarrow> intact V m'"
  using assms unfolding llvm_laws_def by (force split: prod.splits)+

subsection \<open>Expressions without an early return\<close>

text \<open>The expressions that the translation of an expression descends into.\<close>

definition called_object :: "node \<Rightarrow> node list" where
  "called_object f = (case nas f of NODE_FIELD x _ \<Rightarrow> [x] | _ \<Rightarrow> [])"

definition list_of :: "'a option \<Rightarrow> 'a list" where
  "list_of x = (case x of None \<Rightarrow> [] | Some y \<Rightarrow> [y])"

definition subexprs :: "node \<Rightarrow> node list" where
  "subexprs e =
     (case nas e of
        NODE_GROUP x \<Rightarrow> [x]
      | NODE_CAST x _ \<Rightarrow> [x]
      | NODE_UNARY _ x \<Rightarrow> [x]
      | NODE_BINARY _ x y \<Rightarrow> [x, y]
      | NODE_FIELD x _ \<Rightarrow> [x]
      | NODE_INDEX x i \<Rightarrow> [x, i]
      | NODE_ASSIGN x y _ \<Rightarrow> [x, y]
      | NODE_STRUCT_LIT _ inits \<Rightarrow> map snd inits
      | NODE_MATCH x arms \<Rightarrow> x # map (\<lambda>(_, _, v). v) arms
      | NODE_CALL f args \<Rightarrow> called_object f @ args
      | NODE_SLICE x lo hi \<Rightarrow> x # list_of lo @ list_of hi
      | _ \<Rightarrow> [])"

lemma size_called_object: "x \<in> set (called_object f) \<Longrightarrow> size x < size f"
  by (cases f) (auto simp: called_object_def split: node_as.splits)

lemma size_init: "(s, x) \<in> set inits \<Longrightarrow> size x \<le> size_list (size_prod (\<lambda>s. 0) size) inits"
  by (induction inits) auto

lemma size_arm: "(s, bs, x) \<in> set arms \<Longrightarrow> size x \<le> size_list (size_prod (\<lambda>s. 0) (size_prod (\<lambda>s. 0) size)) arms"
  by (induction arms) auto

lemma size_subexprs: "x \<in> set (subexprs e) \<Longrightarrow> size x < size e"
proof (cases e)
  case (Node l c a)
  assume "x \<in> set (subexprs e)"
  with Node show ?thesis
    by (cases a)
      (auto simp: subexprs_def list_of_def less_Suc_eq_le intro: le_SucI trans_le_add1 trans_le_add2 size_list_estimation'
        dest!: size_called_object size_init size_arm split: option.splits)
qed

definition is_try :: "node \<Rightarrow> bool" where
  "is_try e \<longleftrightarrow> (case nas e of NODE_UNARY op _ \<Rightarrow> op = ''?'' | _ \<Rightarrow> False)"

function try_free :: "node \<Rightarrow> bool" where
  "try_free e \<longleftrightarrow> \<not> is_try e \<and> list_all try_free (subexprs e)"
  by auto
termination
  by (relation "measure size") (auto dest: size_subexprs)

declare try_free.simps [simp del]

lemma try_free_sub: "try_free e \<Longrightarrow> x \<in> set (subexprs e) \<Longrightarrow> try_free x"
  by (subst (asm) try_free.simps) (auto simp: list_all_iff)

lemma try_free_not: "try_free e \<Longrightarrow> \<not> is_try e"
  by (subst (asm) try_free.simps) simp

end
