(* ===== verification/Gen_Calm.thy ===== *)
theory Gen_Calm
  imports Gen_Logic
begin

text \<open>
  The steps of the generator that stay in their block (\<open>calm\<close>): type translation, building of instructions
  that end no block, lookups.
\<close>

subsection \<open>The state between instructions\<close>

text \<open>Nothing is generic: no type parameter is ever replaced.\<close>

definition no_generics :: "node list \<Rightarrow> bool" where
  "no_generics ds \<longleftrightarrow> (\<forall>d \<in> set ds. struct_type_params d = [] \<and> template_params d = [])"

text \<open>What is asked for total correctness.\<close>

definition tame :: "('t, 'v, 'b, 'm) lg \<Rightarrow> bool" where
  "tame g \<longleftrightarrow> sub_count g = 0 \<and> no_generics (lg_decls g) \<and> (\<forall>e \<in> set (defer_stack g). try_free e)"

text \<open>
  The builder is at \<open>c\<close>, the blocks \<open>X\<close> are open, those in \<open>K\<close> exist, the scopes and loops are \<open>sc\<close> and \<open>ls\<close>.
\<close>

definition stands ::
  "bool \<Rightarrow> ('t, 'v, 'b, 'm) llvm \<Rightarrow> ('b, 'm) view \<Rightarrow> 'b set \<Rightarrow> 'b set \<Rightarrow> 'b \<Rightarrow> ('t, 'v) lg_var list list \<Rightarrow> ('b \<times> 'b) list \<Rightarrow>
   ('t, 'v, 'b, 'm) lg \<Rightarrow> bool" where
  "stands tot L V K X c sc ls g \<longleftrightarrow>
     llvm_laws L V \<and> intact V (llvm_state g) \<and> open_blocks L V (llvm_state g) = X \<and>
     builder_at V (llvm_state g) = Some c \<and> cur_bb g = Some c \<and> c \<in> blocks_in V (llvm_state g) \<and>
     K \<subseteq> blocks_in V (llvm_state g) \<and> scope_chain g = sc \<and> loop_stack g = ls \<and>
     (\<forall>(x, y) \<in> set ls. x \<in> blocks_in V (llvm_state g) \<and> y \<in> blocks_in V (llvm_state g)) \<and>
     cur_fn g \<noteq> None \<and> (tot \<longrightarrow> tame g)"

text \<open>An update that touches none of this.\<close>

definition unnoticed :: "(('t, 'v, 'b, 'm) lg \<Rightarrow> ('t, 'v, 'b, 'm) lg) \<Rightarrow> bool" where
  "unnoticed f \<longleftrightarrow>
     (\<forall>g. llvm_state (f g) = llvm_state g \<and> cur_bb (f g) = cur_bb g \<and> scope_chain (f g) = scope_chain g \<and>
        loop_stack (f g) = loop_stack g \<and> sub_count (f g) = sub_count g \<and> lg_decls (f g) = lg_decls g \<and>
        defer_stack (f g) = defer_stack g \<and> cur_fn (f g) = cur_fn g)"

lemma stands_unnoticed: "stands tot L V K X c sc ls g \<Longrightarrow> unnoticed f \<Longrightarrow> stands tot L V K X c sc ls (f g)"
  by (simp add: stands_def unnoticed_def tame_def)

subsection \<open>Calm steps\<close>

definition calm ::
  "bool \<Rightarrow> ('t, 'v, 'b, 'm) llvm \<Rightarrow> ('b, 'm) view \<Rightarrow> ('t, 'v, 'b, 'm, 'a) gens \<Rightarrow> bool" where
  "calm tot L V m \<longleftrightarrow>
     (\<forall>K X c sc ls g. c \<in> X \<longrightarrow> stands tot L V K X c sc ls g \<longrightarrow> wp tot m (\<lambda>_. stands tot L V K X c sc ls) g)"

named_theorems calm_rules \<open>what is calm\<close>

lemma calmI: "(\<And>K X c sc ls g. c \<in> X \<Longrightarrow> stands tot L V K X c sc ls g \<Longrightarrow> wp tot m (\<lambda>_. stands tot L V K X c sc ls) g) \<Longrightarrow> calm tot L V m"
  by (simp add: calm_def)

lemma calmD: "calm tot L V m \<Longrightarrow> stands tot L V K X c sc ls g \<Longrightarrow> c \<in> X \<Longrightarrow> wp tot m (\<lambda>_. stands tot L V K X c sc ls) g"
  by (simp add: calm_def)

lemma calm_ret [calm_rules]: "calm tot L V (\<lambda>n. gret x)"
  by (rule calmI) (rule wp_ret)

lemma calm_fail [calm_rules]: "e \<noteq> TooDeep \<Longrightarrow> calm tot L V (\<lambda>n. gfail e)"
  by (rule calmI) (rule wp_fail)

lemma calm_bind [calm_rules]:
  "calm tot L V m \<Longrightarrow> (\<And>x. calm tot L V (\<lambda>n. f n x)) \<Longrightarrow> calm tot L V (\<lambda>n. gbind (m n) (f n))"
  by (rule calmI, rule wp_bind, rule wp_mono, rule calmD) (auto dest: calmD)

lemma calm_get [calm_rules]: "(\<And>x. calm tot L V (\<lambda>n. f n x)) \<Longrightarrow> calm tot L V (\<lambda>n. gget sel (f n))"
  by (rule calmI, rule wp_get) (simp add: calm_def)

lemma calm_set [calm_rules]: "unnoticed f \<Longrightarrow> calm tot L V (\<lambda>n. gset f)"
  by (rule calmI, rule wp_set) (simp add: stands_unnoticed)

lemma calm_if [calm_rules]:
  "(b \<Longrightarrow> calm tot L V m) \<Longrightarrow> (\<not> b \<Longrightarrow> calm tot L V m') \<Longrightarrow> calm tot L V (\<lambda>n. if b then m n else m' n)"
  by (cases b) simp_all

lemma calm_when [calm_rules]: "calm tot L V m \<Longrightarrow> calm tot L V (\<lambda>n. gwhen b (m n))"
  by (cases b) (simp_all add: gwhen_def calm_ret)

lemma calm_option [calm_rules]:
  "(x = None \<Longrightarrow> calm tot L V m) \<Longrightarrow> (\<And>y. x = Some y \<Longrightarrow> calm tot L V (\<lambda>n. f n y)) \<Longrightarrow>
   calm tot L V (\<lambda>n. case x of None \<Rightarrow> m n | Some y \<Rightarrow> f n y)"
  by (cases x) auto

lemma calm_prod [calm_rules]:
  "(\<And>a b. x = (a, b) \<Longrightarrow> calm tot L V (\<lambda>n. f n a b)) \<Longrightarrow> calm tot L V (\<lambda>n. case x of (a, b) \<Rightarrow> f n a b)"
  by (cases x) auto

lemma calm_list [calm_rules]:
  "(xs = [] \<Longrightarrow> calm tot L V m) \<Longrightarrow> (\<And>y ys. xs = y # ys \<Longrightarrow> calm tot L V (\<lambda>n. f n y ys)) \<Longrightarrow>
   calm tot L V (\<lambda>n. case xs of [] \<Rightarrow> m n | y # ys \<Rightarrow> f n y ys)"
  by (cases xs) auto

lemma calm_let [calm_rules]: "(\<And>x. calm tot L V (\<lambda>n. f n x)) \<Longrightarrow> calm tot L V (\<lambda>n. Let a (f n))"
  by (simp add: Let_def)

lemma calm_map [calm_rules]:
  "(\<And>x. x \<in> set xs \<Longrightarrow> calm tot L V (\<lambda>n. f n x)) \<Longrightarrow> calm tot L V (\<lambda>n. gmap (f n) xs)"
  by (induction xs) (auto intro!: calm_ret calm_bind)

lemma calm_iter [calm_rules]:
  "(\<And>x. x \<in> set xs \<Longrightarrow> calm tot L V (\<lambda>n. f n x)) \<Longrightarrow> calm tot L V (\<lambda>n. giter (f n) xs)"
  by (induction xs) (auto intro!: calm_ret calm_bind)

text \<open>Both readings of a family whose bound is counted down.\<close>

lemma calm_Suc:
  assumes "\<And>g. m 0 g = Inl TooDeep" "calm tot L V (\<lambda>n. m (Suc n))"
  shows "calm tot L V m"
  using assms by (auto simp: calm_def intro: wp_Suc)

lemma calm_partialI: "(\<And>n. calm False L V (\<lambda>_. m n)) \<Longrightarrow> calm False L V m"
  unfolding calm_def by (blast intro: wp_partialI)

lemma calm_too_deep: "calm False L V (\<lambda>_. gfail TooDeep)"
  by (simp add: calm_def wp_def gfail_def)

subsection \<open>Instructions\<close>

lemma build_stands:
  assumes "stands tot L V K X c sc ls g" "c \<in> X" "\<not> is_terminator i" "\<And>b. i \<noteq> PositionAtEnd b"
  shows "wp tot (\<lambda>n. build L i) (\<lambda>_. stands tot L V K X c sc ls) g"
proof -
  obtain v m' where d: "llvm_do L i (llvm_state g) = (v, m')" by (cases "llvm_do L i (llvm_state g)") auto
  have l: "llvm_laws L V" using assms(1) by (simp add: stands_def)
  have w: "well_placed L V i (llvm_state g)"
    using assms(1-3) by (cases i) (auto simp: well_placed_def stands_def targets_def is_terminator_def)
  have "builder_at V m' = builder_at V (llvm_state g)"
    using law_do(3) [OF l d w] assms(4) by (cases i) auto
  with w have "stands tot L V K X c sc ls (g\<lparr>llvm_state := m'\<rparr>)"
    using law_do [OF l d w] assms by (simp add: stands_def tame_def)
  with d show ?thesis by (intro wp_const [of "Inr (v, g\<lparr>llvm_state := m'\<rparr>)"]) (simp_all add: build_def)
qed

lemma calm_build [calm_rules]:
  "\<not> is_terminator i \<Longrightarrow> (\<And>b. i \<noteq> PositionAtEnd b) \<Longrightarrow> calm tot L V (\<lambda>n. build L i)"
  by (simp add: calm_def build_stands)

lemma calm_perform [calm_rules]:
  "\<not> is_terminator i \<Longrightarrow> (\<And>b. i \<noteq> PositionAtEnd b) \<Longrightarrow> calm tot L V (\<lambda>n. perform L i)"
  unfolding perform_def by (intro calm_rules)

lemma calm_rvalue [calm_rules]: "calm tot L V m \<Longrightarrow> calm tot L V (\<lambda>n. rvalue (m n))"
  unfolding rvalue_def by (intro calm_rules)

lemma calm_lvalue [calm_rules]: "calm tot L V (\<lambda>n. lvalue L ty p s)"
  unfolding lvalue_def by (intro calm_rules) (simp_all add: is_terminator_def)

subsection \<open>Types\<close>

text \<open>
  The translation of types works where there is no builder, too: it changes nothing that is observed but the
  registry of types.
\<close>

definition untouched :: "('t, 'v, 'b, 'm) llvm \<Rightarrow> ('b, 'm) view \<Rightarrow> ('t, 'v, 'b, 'm) lg \<Rightarrow> ('t, 'v, 'b, 'm) lg \<Rightarrow> bool" where
  "untouched L V g g' \<longleftrightarrow>
     blocks_in V (llvm_state g') = blocks_in V (llvm_state g) \<and>
     open_blocks L V (llvm_state g') = open_blocks L V (llvm_state g) \<and>
     builder_at V (llvm_state g') = builder_at V (llvm_state g) \<and>
     (intact V (llvm_state g) \<longrightarrow> intact V (llvm_state g')) \<and>
     cur_bb g' = cur_bb g \<and> cur_fn g' = cur_fn g \<and> scope_chain g' = scope_chain g \<and> loop_stack g' = loop_stack g \<and>
     defer_stack g' = defer_stack g \<and> sub_count g' = sub_count g \<and> lg_decls g' = lg_decls g \<and>
     gfn_decls g' = gfn_decls g \<and> gst_decls g' = gst_decls g \<and> gfn_insts g' = gfn_insts g \<and> gst_insts g' = gst_insts g"

definition unmoved ::
  "bool \<Rightarrow> ('t, 'v, 'b, 'm) llvm \<Rightarrow> ('b, 'm) view \<Rightarrow> ('t, 'v, 'b, 'm, 'a) gens \<Rightarrow> bool" where
  "unmoved tot L V m \<longleftrightarrow> (\<forall>g. llvm_laws L V \<longrightarrow> (tot \<longrightarrow> tame g) \<longrightarrow> wp tot m (\<lambda>_. untouched L V g) g)"

named_theorems unmoved_rules \<open>what leaves blocks, scopes and registries of instances alone\<close>

lemma unmovedI: "(\<And>g. llvm_laws L V \<Longrightarrow> (tot \<Longrightarrow> tame g) \<Longrightarrow> wp tot m (\<lambda>_. untouched L V g) g) \<Longrightarrow> unmoved tot L V m"
  by (simp add: unmoved_def)

lemma wp_unmoved:
  assumes "unmoved tot L V m" "llvm_laws L V" "tot \<Longrightarrow> tame g" "\<And>x g'. untouched L V g g' \<Longrightarrow> Q x g'"
  shows "wp tot m Q g"
proof (rule wp_mono)
  show "wp tot m (\<lambda>_. untouched L V g) g" using assms(1-3) by (simp add: unmoved_def)
qed (rule assms(4))

lemma untouched_refl [simp]: "untouched L V g g"
  by (simp add: untouched_def)

lemma untouched_trans: "untouched L V g g' \<Longrightarrow> untouched L V g' g'' \<Longrightarrow> untouched L V g g''"
  by (simp add: untouched_def)

lemma untouched_tame: "untouched L V g g' \<Longrightarrow> tame g \<Longrightarrow> tame g'"
  by (simp add: untouched_def tame_def)

lemma calm_unmoved: "unmoved tot L V m \<Longrightarrow> calm tot L V m"
  by (rule calmI, erule wp_unmoved) (auto simp: stands_def untouched_def tame_def)

lemma unmoved_ret [unmoved_rules]: "unmoved tot L V (\<lambda>n. gret x)"
  by (rule unmovedI) (rule wp_ret, simp)

lemma unmoved_bind [unmoved_rules]:
  assumes "unmoved tot L V m" "\<And>x. unmoved tot L V (\<lambda>n. f n x)"
  shows "unmoved tot L V (\<lambda>n. gbind (m n) (f n))"
proof (rule unmovedI, rule wp_bind, rule wp_unmoved [OF assms(1)])
  fix g x and g' :: "('a, 'b, 'c, 'd) lg"
  assume "llvm_laws L V" "tot \<Longrightarrow> tame g" "untouched L V g g'"
  then show "wp tot (\<lambda>n. f n x) (\<lambda>_. untouched L V g) g'"
    by (intro wp_unmoved [OF assms(2)]) (auto intro: untouched_tame untouched_trans)
qed

lemma unmoved_get [unmoved_rules]: "(\<And>x. unmoved tot L V (\<lambda>n. f n x)) \<Longrightarrow> unmoved tot L V (\<lambda>n. gget sel (f n))"
  by (rule unmovedI, rule wp_get) (simp add: unmoved_def)

lemma unmoved_if [unmoved_rules]:
  "(b \<Longrightarrow> unmoved tot L V m) \<Longrightarrow> (\<not> b \<Longrightarrow> unmoved tot L V m') \<Longrightarrow> unmoved tot L V (\<lambda>n. if b then m n else m' n)"
  by (cases b) simp_all

lemma unmoved_option [unmoved_rules]:
  "(x = None \<Longrightarrow> unmoved tot L V m) \<Longrightarrow> (\<And>y. x = Some y \<Longrightarrow> unmoved tot L V (\<lambda>n. f n y)) \<Longrightarrow>
   unmoved tot L V (\<lambda>n. case x of None \<Rightarrow> m n | Some y \<Rightarrow> f n y)"
  by (cases x) auto

lemma unmoved_prod [unmoved_rules]:
  "(\<And>a b. x = (a, b) \<Longrightarrow> unmoved tot L V (\<lambda>n. f n a b)) \<Longrightarrow> unmoved tot L V (\<lambda>n. case x of (a, b) \<Rightarrow> f n a b)"
  by (cases x) auto

lemma unmoved_map [unmoved_rules]:
  "(\<And>x. x \<in> set xs \<Longrightarrow> unmoved tot L V (\<lambda>n. f n x)) \<Longrightarrow> unmoved tot L V (\<lambda>n. gmap (f n) xs)"
  by (induction xs) (auto intro!: unmoved_ret unmoved_bind)

lemma unmoved_Suc:
  assumes "\<And>g. m 0 g = Inl TooDeep" "unmoved tot L V (\<lambda>n. m (Suc n))"
  shows "unmoved tot L V m"
  using assms by (auto simp: unmoved_def intro: wp_Suc)

lemma unmoved_register [unmoved_rules]: "unmoved tot L V (\<lambda>n. lg_register_type s ty)"
  unfolding lg_register_type_def by (rule unmovedI, rule wp_set) (simp add: untouched_def)

lemma unmoved_new_struct [unmoved_rules]: "unmoved tot L V (\<lambda>n. new_struct L tname tys packed s)"
proof (rule unmovedI)
  fix g :: "('a, 'b, 'c, 'd) lg"
  assume l: "llvm_laws L V" and g: "tot \<Longrightarrow> tame g"
  obtain ty m where n: "named_struct L tname tys packed (llvm_state g) = (ty, m)"
    by (cases "named_struct L tname tys packed (llvm_state g)") auto
  from law_struct [OF l n] have u: "untouched L V g (g\<lparr>llvm_state := m\<rparr>)"
    by (simp add: untouched_def)
  have "wp tot (\<lambda>n. gbind (lg_register_type s ty) (\<lambda>_. gret ty)) (\<lambda>_. untouched L V g) (g\<lparr>llvm_state := m\<rparr>)"
  proof (rule wp_unmoved)
    show "unmoved tot L V (\<lambda>n. gbind (lg_register_type s ty) (\<lambda>_. gret ty))" by (intro unmoved_rules)
  qed (use l g u in \<open>auto intro: untouched_trans untouched_tame\<close>)
  then show "wp tot (\<lambda>n. new_struct L tname tys packed s) (\<lambda>_. untouched L V g) g"
    by (rule wp_cong [rotated]) (simp add: n new_struct_def)
qed

lemma unmoved_registered [unmoved_rules]: "unmoved tot L V m \<Longrightarrow> unmoved tot L V (\<lambda>n. registered s (m n))"
  unfolding registered_def by (intro unmoved_rules)

text \<open>A type parameter is never replaced in a tame state.\<close>

lemma unmoved_subst:
  assumes "\<not> tot \<Longrightarrow> \<forall>t. unmoved tot L V (\<lambda>n. f n (Some t))" "unmoved tot L V (\<lambda>n. f n None)"
  shows "unmoved tot L V (\<lambda>n. gbind (lg_subst s) (f n))"
proof (rule unmovedI, rule wp_bind)
  fix g :: "('a, 'b, 'c, 'd) lg"
  assume l: "llvm_laws L V" and g: "tot \<Longrightarrow> tame g"
  show "wp tot (\<lambda>n. lg_subst s) (\<lambda>x. wp tot (\<lambda>n. f n x) (\<lambda>_. untouched L V g)) g"
  proof (rule wp_const [of "lg_subst s g"])
    show "lg_subst s g \<noteq> Inl TooDeep"
      by (auto simp: lg_subst_def split: option.splits)
    show "ends_in (lg_subst s g) (\<lambda>x. wp tot (\<lambda>n. f n x) (\<lambda>_. untouched L V g))"
    proof (cases "lg_subst s g")
      case (Inr r)
      then obtain x where r: "r = (x, g)"
        by (auto simp: lg_subst_def split: option.splits if_splits)
      show ?thesis
      proof (cases x)
        case None
        with r Inr assms(2) l g show ?thesis by (simp add: unmoved_def)
      next
        case (Some t)
        have "\<not> tot"
          using Inr r Some g by (auto simp: lg_subst_def tame_def split: option.splits if_splits)
        with assms(1) r Inr Some l g show ?thesis by (simp add: unmoved_def)
      qed
    qed simp
  qed simp
qed

lemma length_inner: "lg_extract_inner s = Some t \<Longrightarrow> length t < length s"
  by (auto simp: lg_extract_inner_def substr_def dest!: strrchr_SomeD split: option.splits if_splits)

lemma length_comma: "lg_split_comma s = Some (x, y) \<Longrightarrow> length x \<le> length s \<and> length y \<le> length s"
proof -
  have "split_comma_from seen d s = Some (x, y) \<Longrightarrow> length x + length y \<le> length seen + length s" for seen d
    by (induction s arbitrary: seen d) (fastforce split: if_splits)+
  from this [of "[]" 0] show "lg_split_comma s = Some (x, y) \<Longrightarrow> length x \<le> length s \<and> length y \<le> length s"
    by (simp add: lg_split_comma_def)
qed

text \<open>One level: only shorter names are asked for, and what a parameter stands for.\<close>

lemma unmoved_ns_step:
  assumes short: "\<And>t. length t < length s \<Longrightarrow> unmoved tot L V (\<lambda>n. llg_ns_to_ll L (d n) t)"
    and sub: "\<not> tot \<Longrightarrow> \<forall>t. unmoved tot L V (\<lambda>n. llg_ns_to_ll L (d n) t)"
  shows "unmoved tot L V (\<lambda>n. llg_ns_to_ll L (Suc (d n)) s)"
proof -
  have o: "unmoved tot L V (\<lambda>n. option_struct L (llg_ns_to_ll L (d n)) s)"
    unfolding option_struct_def by (intro unmoved_rules short) (rule length_inner)
  have r: "unmoved tot L V (\<lambda>n. result_struct L (llg_ns_to_ll L (d n)) s)"
    unfolding result_struct_def
    by (intro unmoved_rules short) (auto simp: bind_eq_Some_conv dest!: length_inner length_comma)
  have p: "unmoved tot L V (\<lambda>n. gbind (lg_subst s) (\<lambda>sub. case sub of
      Some s' \<Rightarrow> llg_ns_to_ll L (d n) s'
    | None \<Rightarrow> registered (lg_sanitize 256 s) (gret (pointer_type L))))"
  proof (rule unmoved_subst)
    show "\<forall>t. unmoved tot L V (\<lambda>n. case Some t of
        Some s' \<Rightarrow> llg_ns_to_ll L (d n) s'
      | None \<Rightarrow> registered (lg_sanitize 256 s) (gret (pointer_type L)))" if "\<not> tot"
      using sub [OF that] by simp
  qed (simp add: unmoved_registered unmoved_ret)
  show ?thesis
    unfolding llg_ns_to_ll.simps
    by (rule p o r unmoved_option unmoved_registered unmoved_if unmoved_ret unmoved_new_struct)+
qed

lemma unmoved_ns [unmoved_rules]: "unmoved tot L V (\<lambda>n. llg_ns_to_ll L n s)"
proof (cases tot)
  case True
  have "unmoved True L V (\<lambda>n. llg_ns_to_ll L n s)"
  proof (induction s rule: length_induct)
    case (1 s)
    show ?case by (rule unmoved_Suc) (use 1 unmoved_ns_step [of s True L V "\<lambda>n. n"] in \<open>auto simp: gfail_def\<close>)
  qed
  with True show ?thesis by simp
next
  case False
  have "unmoved False L V (\<lambda>_. llg_ns_to_ll L n s)" for n
  proof (induction n arbitrary: s)
    case 0
    show ?case by (simp add: unmoved_def wp_def gfail_def)
  next
    case (Suc n)
    show ?case by (rule unmoved_ns_step [of s False L V "\<lambda>_. n"]) (simp_all add: Suc)
  qed
  then have "unmoved False L V (\<lambda>n. llg_ns_to_ll L n s)" by (auto simp: unmoved_def intro: wp_partialI)
  with False show ?thesis by simp
qed

lemma unmoved_node [unmoved_rules]: "unmoved tot L V (\<lambda>n. llg_node_to_ll L n t)"
proof (induction t rule: measure_induct_rule [of size])
  case (less t)
  obtain l c a where t: "t = Node l c a" by (cases t)
  show ?case
  proof (cases a)
    case (NODE_TYPE_NAMED s)
    with t show ?thesis by (simp add: unmoved_subst unmoved_ns)
  next
    case (NODE_TYPE_ARRAY e len)
    with t less [of e] show ?thesis by (auto intro!: unmoved_bind unmoved_ret)
  qed (use t in \<open>simp_all add: unmoved_ret\<close>)
qed

lemma unmoved_opt [unmoved_rules]: "unmoved tot L V (\<lambda>n. llg_opt_to_ll L n t)"
  unfolding llg_opt_to_ll_def by (intro unmoved_rules)

lemma unmoved_ll_or [unmoved_rules]: "unmoved tot L V (\<lambda>n. ll_or L n ty t)"
  unfolding ll_or_def by (intro unmoved_rules)

lemmas calm_ns [calm_rules] = calm_unmoved [OF unmoved_ns]
  and calm_node [calm_rules] = calm_unmoved [OF unmoved_node]
  and calm_opt [calm_rules] = calm_unmoved [OF unmoved_opt]
  and calm_ll_or [calm_rules] = calm_unmoved [OF unmoved_ll_or]

lemma calm_registered [calm_rules]: "calm tot L V m \<Longrightarrow> calm tot L V (\<lambda>n. registered s (m n))"
  unfolding registered_def by (intro calm_rules)

subsection \<open>Operations without subexpressions\<close>

lemmas calm_intros = calm_rules

lemma calm_get_tame:
  "(\<And>g. (tot \<Longrightarrow> tame g) \<Longrightarrow> calm tot L V (\<lambda>n. f n (sel g))) \<Longrightarrow> calm tot L V (\<lambda>n. gget sel (f n))"
  by (rule calmI, rule wp_get) (auto simp: calm_def stands_def)

lemma no_terminator [simp]:
  "\<not> is_terminator (BuildAlloca ty s)" "\<not> is_terminator (BuildLoad ty v s)" "\<not> is_terminator (BuildStore v w)"
  "\<not> is_terminator (BuildGlobalString s s')" "\<not> is_terminator (BuildExtractValue v i s)"
  "\<not> is_terminator (BuildInsertValue v w i s)" "\<not> is_terminator (BuildBinary op v w s)"
  "\<not> is_terminator (BuildNeg v s)" "\<not> is_terminator (BuildFNeg v s)" "\<not> is_terminator (BuildNot v s)"
  "\<not> is_terminator (BuildCast cop v ty s)" "\<not> is_terminator (BuildCmp p v w s)"
  "\<not> is_terminator (BuildGEP ty v vs s)" "\<not> is_terminator (BuildStructGEP ty v i s)"
  "\<not> is_terminator (BuildCall ty v vs s)" "\<not> is_terminator (BuildPhi ty ins s)"
  "\<not> is_terminator (AddFunction s ty)" "\<not> is_terminator (AddGlobal ty s)" "\<not> is_terminator (SetInitializer v w)"
  "\<not> is_terminator (SetGlobalConstant v)" "\<not> is_terminator (SetExternal v)" "\<not> is_terminator (SetInternal v)"
  "\<not> is_terminator (SetValueName v s)" "\<not> is_terminator (PositionAtEnd b)"
  by (simp_all add: is_terminator_def)

lemma is_terminator_simps [simp]:
  "is_terminator (BuildBr b)" "is_terminator (BuildCondBr v b b')" "is_terminator (BuildRet v)" "is_terminator BuildRetVoid"
  by (simp_all add: is_terminator_def)

subsection \<open>Literals, names, casts, operators\<close>

lemma calm_coerce [calm_rules]: "calm tot L V (\<lambda>n. lg_coerce_arg L v ty)"
  unfolding lg_coerce_arg_def Let_def by (intro calm_rules) simp_all

lemma calm_string [calm_rules]: "calm tot L V (\<lambda>n. emit_string L n s)"
  unfolding emit_string_def by (intro calm_rules) simp_all

lemma calm_none [calm_rules]: "calm tot L V (\<lambda>n. emit_none L n s)"
  unfolding emit_none_def by (intro calm_rules) simp_all

lemma calm_ident [calm_rules]: "calm tot L V (\<lambda>n. emit_ident L n s)"
  unfolding emit_ident_def by (intro calm_rules)

lemma calm_cast [calm_rules]: "calm tot L V (\<lambda>n. emit_cast L ns t v ty)"
  unfolding emit_cast_def Let_def by (intro calm_rules) simp_all

lemma calm_widen [calm_rules]: "calm tot L V (\<lambda>n. widen L s v w)"
  unfolding widen_def Let_def by (intro calm_rules) simp_all

lemma calm_operator [calm_rules]: "calm tot L V (\<lambda>n. emit_operator L op s v w)"
  unfolding emit_operator_def Let_def by (intro calm_rules) simp_all

subsection \<open>Fields and elements\<close>

lemma calm_part [calm_rules]: "calm tot L V (\<lambda>n. emit_part L ty ty' i s p v)"
  unfolding emit_part_def by (intro calm_rules) simp_all

lemma calm_field_of [calm_rules]: "calm tot L V (\<lambda>n. emit_field_of L n s fs fld p v)"
  unfolding emit_field_of_def by (intro calm_rules) simp_all

text \<open>Only a generic struct has a substitution.\<close>

lemma struct_of_plain: "no_generics ds \<Longrightarrow> snd (struct_of ds s) = None"
  by (auto simp: struct_of_def no_generics_def lg_find_decl_def find_Some_iff split: option.splits list.splits)

lemma stands_partial: "stands False L V K X c sc ls g \<Longrightarrow> stands False L V K X c sc ls (g\<lparr>sub_slot := s, sub_count := k\<rparr>)"
  by (simp add: stands_def)

lemma calm_with_subst:
  assumes "tot \<Longrightarrow> sub = None" "calm tot L V m"
  shows "calm tot L V (\<lambda>n. with_subst sub (m n))"
proof (cases sub)
  case None
  with assms show ?thesis by (simp add: with_subst_def)
next
  case (Some p)
  then have tot: "\<not> tot" using assms(1) by auto
  have set_slot: "calm False L V (\<lambda>n. gset (\<lambda>g. g\<lparr>sub_slot := s, sub_count := k\<rparr>))" for s k
    by (rule calmI, rule wp_set) (rule stands_partial)
  have "calm False L V m" using assms(2) tot by simp
  then have "calm False L V (\<lambda>n. with_subst sub (m n))"
    unfolding with_subst_def set_subst_def Some by (cases p) (auto intro!: calm_get calm_bind calm_ret set_slot)
  with tot show ?thesis by simp
qed

lemma calm_member [calm_rules]: "calm tot L V (\<lambda>n. emit_member L n s fld p v)"
  unfolding emit_member_def
proof (rule calm_get_tame, goal_cases)
  case (1 g)
  obtain sd sub where s: "struct_of (lg_decls g) s = (sd, sub)" by (cases "struct_of (lg_decls g) s") auto
  have "sub = None" if tot
    using struct_of_plain [of "lg_decls g" s] 1 [OF that] s by (simp add: tame_def)
  then show ?case
    by (auto simp: s intro!: calm_with_subst calm_option calm_ret calm_field_of)
qed

lemma calm_str_field [calm_rules]: "calm tot L V (\<lambda>n. emit_str_field L n fld p v)"
  unfolding emit_str_field_def by (intro calm_rules)

lemma calm_string_field [calm_rules]: "calm tot L V (\<lambda>n. emit_string_field L n e fld p v)"
  unfolding emit_string_field_def Let_def by (intro calm_rules) simp_all

lemma calm_slice_field [calm_rules]: "calm tot L V (\<lambda>n. emit_slice_field L n ns fld p v)"
  unfolding emit_slice_field_def by (intro calm_rules)

lemma calm_field_by_type [calm_rules]: "calm tot L V (\<lambda>n. emit_field_by_type L n e fld ns p v)"
proof (cases ns)
  case (Some t)
  then show ?thesis by (cases "nas t") (auto simp: emit_field_by_type_def intro!: calm_rules)
qed (simp add: emit_field_by_type_def calm_ret)

lemma calm_data_at [calm_rules]: "calm tot L V (\<lambda>n. data_at L n ns p)"
  unfolding data_at_def load_data_def by (intro calm_rules) simp_all

lemma calm_element [calm_rules]: "calm tot L V (\<lambda>n. emit_element L n ns ty obj idx)"
  unfolding emit_element_def by (intro calm_rules) simp_all

lemma calm_slice_parts [calm_rules]: "calm tot L V (\<lambda>n. slice_parts L ty s obj)"
  unfolding slice_parts_def by (intro calm_rules) simp_all

lemma calm_slice_base [calm_rules]: "calm tot L V (\<lambda>n. slice_base L n ns obj)"
  unfolding slice_base_def by (intro calm_rules)

lemma calm_as_i64 [calm_rules]: "calm tot L V (\<lambda>n. as_i64 L s v)"
  unfolding as_i64_def by (intro calm_rules) simp_all

subsection \<open>Patterns\<close>

lemma calm_load_flag [calm_rules]: "calm tot L V (\<lambda>n. load_flag L p ty s)"
  unfolding load_flag_def by (intro calm_rules) simp_all

lemma calm_never [calm_rules]: "calm tot L V (\<lambda>n. never L)"
  unfolding never_def by (intro calm_rules)

lemma calm_variant_cond [calm_rules]: "calm tot L V (\<lambda>n. variant_cond L p ty s s')"
  unfolding variant_cond_def by (intro calm_rules) simp_all

lemma calm_match_cond [calm_rules]: "calm tot L V (\<lambda>n. lg_match_cond L p ty ns pat)"
  unfolding lg_match_cond_def by (intro calm_rules) simp_all

lemma calm_payload_size [calm_rules]: "calm tot L V (\<lambda>n. payload_size L n fs off)"
  by (induction fs arbitrary: off) (auto intro!: calm_rules)

lemma calm_payload_at [calm_rules]: "calm tot L V (\<lambda>n. payload_at L ty p off s)"
  unfolding payload_at_def by (intro calm_rules) simp_all

lemma calm_variant_binding [calm_rules]: "calm tot L V (\<lambda>n. variant_binding L n p s fs j bn)"
  unfolding variant_binding_def by (intro calm_rules) simp_all

lemma calm_binding_value [calm_rules]: "calm tot L V (\<lambda>n. binding_value L n p v s pat j bn)"
  unfolding binding_value_def by (intro calm_rules) simp_all

lemma calm_fresh_tmp [calm_rules]: "calm tot L V (\<lambda>n. fresh_tmp)"
  unfolding fresh_tmp_def by (intro calm_rules) (simp add: unnoticed_def)

subsection \<open>Calls\<close>

lemma calm_coerce_args [calm_rules]: "calm tot L V (\<lambda>n. coerce_args L vs tys)"
  by (induction vs arbitrary: tys) (auto intro!: calm_rules)

lemma calm_call_with [calm_rules]: "calm tot L V (\<lambda>n. call_with L n f vs)"
  unfolding call_with_def by (intro calm_rules) simp_all

lemma calm_wrapped [calm_rules]: "calm tot L V (\<lambda>n. emit_wrapped L ty w i s v)"
  unfolding emit_wrapped_def by (intro calm_rules) simp_all

end
