(* ===== verification/Gen_Moves.thy ===== *)
theory Gen_Moves
  imports Gen_Calm
begin

text \<open>
  The translation of an expression \<open>advances\<close>: it may end in another block than it began in, but then it has
  ended the first, and every block it opened in between.
\<close>

subsection \<open>Moving steps\<close>

definition advances ::
  "bool \<Rightarrow> ('t, 'v, 'b, 'm) llvm \<Rightarrow> ('b, 'm) view \<Rightarrow> ('t, 'v, 'b, 'm, 'a) gens \<Rightarrow> bool" where
  "advances tot L V m \<longleftrightarrow>
     (\<forall>K A c sc ls g. c \<notin> A \<longrightarrow> stands tot L V K (insert c A) c sc ls g \<longrightarrow>
        wp tot m (\<lambda>_ g'. \<exists>c'. c' \<notin> A \<and> stands tot L V K (insert c' A) c' sc ls g') g)"

named_theorems advances_rules \<open>what advances\<close>

lemma advancesI:
  "(\<And>K A c sc ls g. c \<notin> A \<Longrightarrow> stands tot L V K (insert c A) c sc ls g \<Longrightarrow>
      wp tot m (\<lambda>_ g'. \<exists>c'. c' \<notin> A \<and> stands tot L V K (insert c' A) c' sc ls g') g) \<Longrightarrow> advances tot L V m"
  by (simp add: advances_def)

lemma wp_advances:
  assumes "advances tot L V m" "stands tot L V K (insert c A) c sc ls g" "c \<notin> A"
    and "\<And>x c' g'. c' \<notin> A \<Longrightarrow> stands tot L V K (insert c' A) c' sc ls g' \<Longrightarrow> Q x g'"
  shows "wp tot m Q g"
proof (rule wp_mono)
  show "wp tot m (\<lambda>_ g'. \<exists>c'. c' \<notin> A \<and> stands tot L V K (insert c' A) c' sc ls g') g"
    using assms(1-3) by (simp add: advances_def)
qed (use assms(4) in blast)

lemma wp_calm:
  assumes "calm tot L V m" "stands tot L V K X c sc ls g" "c \<in> X"
    and "\<And>x g'. stands tot L V K X c sc ls g' \<Longrightarrow> Q x g'"
  shows "wp tot m Q g"
  using calmD [OF assms(1-3)] assms(4) by (rule wp_mono)

lemma advances_calm: "calm tot L V m \<Longrightarrow> advances tot L V m"
  by (rule advancesI, erule wp_calm) auto

lemma advances_bind [advances_rules]:
  assumes "advances tot L V m" "\<And>x. advances tot L V (\<lambda>n. f n x)"
  shows "advances tot L V (\<lambda>n. gbind (m n) (f n))"
proof (rule advancesI, rule wp_bind)
  fix K A c sc ls and g :: "('a, 'b, 'c, 'd) lg"
  assume g: "c \<notin> A" "stands tot L V K (insert c A) c sc ls g"
  show "wp tot m (\<lambda>x. wp tot (\<lambda>n. f n x) (\<lambda>_ g'. \<exists>c'. c' \<notin> A \<and> stands tot L V K (insert c' A) c' sc ls g')) g"
    by (rule wp_advances [OF assms(1) g(2,1)]) (use assms(2) in \<open>simp add: advances_def\<close>)
qed

lemma advances_get [advances_rules]: "(\<And>x. advances tot L V (\<lambda>n. f n x)) \<Longrightarrow> advances tot L V (\<lambda>n. gget sel (f n))"
  by (rule advancesI, rule wp_get) (simp add: advances_def)

lemma advances_if [advances_rules]:
  "(b \<Longrightarrow> advances tot L V m) \<Longrightarrow> (\<not> b \<Longrightarrow> advances tot L V m') \<Longrightarrow> advances tot L V (\<lambda>n. if b then m n else m' n)"
  by (cases b) simp_all

lemma advances_option [advances_rules]:
  "(x = None \<Longrightarrow> advances tot L V m) \<Longrightarrow> (\<And>y. x = Some y \<Longrightarrow> advances tot L V (\<lambda>n. f n y)) \<Longrightarrow>
   advances tot L V (\<lambda>n. case x of None \<Rightarrow> m n | Some y \<Rightarrow> f n y)"
  by (cases x) auto

lemma advances_prod [advances_rules]:
  "(\<And>a b. x = (a, b) \<Longrightarrow> advances tot L V (\<lambda>n. f n a b)) \<Longrightarrow> advances tot L V (\<lambda>n. case x of (a, b) \<Rightarrow> f n a b)"
  by (cases x) auto

lemma advances_list [advances_rules]:
  "(xs = [] \<Longrightarrow> advances tot L V m) \<Longrightarrow> (\<And>y ys. xs = y # ys \<Longrightarrow> advances tot L V (\<lambda>n. f n y ys)) \<Longrightarrow>
   advances tot L V (\<lambda>n. case xs of [] \<Rightarrow> m n | y # ys \<Rightarrow> f n y ys)"
  by (cases xs) auto

lemma advances_map [advances_rules]:
  "(\<And>x. x \<in> set xs \<Longrightarrow> advances tot L V (\<lambda>n. f n x)) \<Longrightarrow> advances tot L V (\<lambda>n. gmap (f n) xs)"
  by (induction xs) (auto intro!: advances_bind advances_calm [OF calm_ret])

lemma advances_iter [advances_rules]:
  "(\<And>x. x \<in> set xs \<Longrightarrow> advances tot L V (\<lambda>n. f n x)) \<Longrightarrow> advances tot L V (\<lambda>n. giter (f n) xs)"
  by (induction xs) (auto intro!: advances_bind advances_calm [OF calm_ret])

lemma advances_rvalue [advances_rules]: "advances tot L V m \<Longrightarrow> advances tot L V (\<lambda>n. rvalue (m n))"
  unfolding rvalue_def by (intro advances_rules advances_calm [OF calm_ret])

lemma advances_value [advances_rules]: "advances tot L V m \<Longrightarrow> advances tot L V (\<lambda>n. value_of (m n))"
  unfolding value_of_def by (intro advances_rules advances_calm [OF calm_ret])

lemma advances_Suc:
  "(\<And>g. m 0 g = Inl TooDeep) \<Longrightarrow> advances tot L V (\<lambda>n. m (Suc n)) \<Longrightarrow> advances tot L V m"
  by (auto simp: advances_def intro: wp_Suc)

lemma advances_partialI: "(\<And>n. advances False L V (\<lambda>_. m n)) \<Longrightarrow> advances False L V m"
  unfolding advances_def by (blast intro: wp_partialI)

lemma advances_partialD: "advances False L V m \<Longrightarrow> advances False L V (\<lambda>_. m n)"
  unfolding advances_def by (blast intro: wp_partialD)

subsection \<open>Blocks and branches\<close>

lemma wp_block:
  assumes "stands tot L V K X c sc ls g"
    and "\<And>b g'. b \<notin> X \<Longrightarrow> b \<notin> K \<Longrightarrow> b \<noteq> c \<Longrightarrow> stands tot L V (insert b K) (insert b X) c sc ls g' \<Longrightarrow> Q b g'"
  shows "wp tot (\<lambda>n. fresh_block L s) Q g"
proof -
  obtain f where f: "cur_fn g = Some f" using assms(1) by (auto simp: stands_def)
  obtain b m' where a: "append_block L (Some f) s (llvm_state g) = (b, m')"
    by (cases "append_block L (Some f) s (llvm_state g)") auto
  have l: "llvm_laws L V" using assms(1) by (simp add: stands_def)
  have "stands tot L V (insert b K) (insert b X) c sc ls (g\<lparr>llvm_state := m'\<rparr>)"
    using law_append [OF l a] assms(1) by (auto simp: stands_def tame_def)
  moreover have "b \<notin> X" "b \<notin> K" "b \<noteq> c"
    using law_append(1) [OF l a] assms(1) by (auto simp: stands_def open_blocks_def)
  ultimately have "Q b (g\<lparr>llvm_state := m'\<rparr>)"
    by (intro assms(2))
  with a f show ?thesis
    by (intro wp_const [of "Inr (b, g\<lparr>llvm_state := m'\<rparr>)"]) (simp_all add: fresh_block_def)
qed

text \<open>What is known of the blocks may be forgotten.\<close>

lemma stands_less: "stands tot L V K X c sc ls g \<Longrightarrow> K' \<subseteq> K \<Longrightarrow> stands tot L V K' X c sc ls g"
  by (auto simp: stands_def)

text \<open>A terminator ends the block; its targets must exist.\<close>

lemma wp_terminator:
  assumes "stands tot L V K X c sc ls g" "c \<in> X" "is_terminator i" "set (targets i) \<subseteq> K \<union> fst ` set ls \<union> snd ` set ls"
    and "\<And>g'. stands tot L V K (X - {c}) c sc ls g' \<Longrightarrow> Q () g'"
  shows "wp tot (\<lambda>n. perform L i) Q g"
proof -
  obtain v m' where d: "llvm_do L i (llvm_state g) = (v, m')" by (cases "llvm_do L i (llvm_state g)") auto
  have l: "llvm_laws L V" using assms(1) by (simp add: stands_def)
  have "set (targets i) \<subseteq> blocks_in V (llvm_state g)"
    using assms(1,4) by (fastforce simp: stands_def)
  then have w: "well_placed L V i (llvm_state g)"
    using assms(1,2) by (auto simp: well_placed_def stands_def)
  have "builder_at V m' = builder_at V (llvm_state g)"
    using law_do(3) [OF l d w] assms(3) by (cases i) auto
  moreover have "{b \<in> X. c \<noteq> b} = X - {c}" by auto
  ultimately have "stands tot L V K (X - {c}) c sc ls (g\<lparr>llvm_state := m'\<rparr>)"
    using law_do [OF l d w] assms(1,3) by (auto simp: stands_def tame_def)
  then have "Q () (g\<lparr>llvm_state := m'\<rparr>)" by (rule assms(5))
  with d show ?thesis
    by (intro wp_const [of "Inr ((), g\<lparr>llvm_state := m'\<rparr>)"])
      (simp_all add: perform_def gbind_def build_def gret_def)
qed

lemma wp_goto:
  assumes "stands tot L V K X c sc ls g" "b \<in> K"
    and "\<And>g'. stands tot L V K X b sc ls g' \<Longrightarrow> Q () g'"
  shows "wp tot (\<lambda>n. goto_block L b) Q g"
proof -
  obtain v m' where d: "llvm_do L (PositionAtEnd b) (llvm_state g) = (v, m')"
    by (cases "llvm_do L (PositionAtEnd b) (llvm_state g)") auto
  have l: "llvm_laws L V" using assms(1) by (simp add: stands_def)
  have "stands tot L V K X b sc ls (g\<lparr>llvm_state := m', cur_bb := Some b\<rparr>)"
    using law_do [OF l d] assms(1,2) by (auto simp: stands_def tame_def well_placed_def is_outside_def open_blocks_def is_terminator_def)
  then have "Q () (g\<lparr>llvm_state := m', cur_bb := Some b\<rparr>)" by (rule assms(3))
  with d show ?thesis
    by (intro wp_const [of "Inr ((), g\<lparr>llvm_state := m', cur_bb := Some b\<rparr>)"])
      (simp_all add: goto_block_def perform_def gbind_def build_def gret_def gset_def)
qed

subsection \<open>Operations with subexpressions\<close>

text \<open>
  Every expression advances, if its subexpressions do; the deferred expressions that \<^verbatim>\<open>?\<close> translates count
  among them.
\<close>

lemmas calm_advances = advances_calm [OF calm_bind] advances_calm

text \<open>The form of \<open>wp_advances\<close> for a set of open blocks that contains the current one.\<close>

lemma wp_advances_in:
  assumes "stands tot L V K X c sc ls g" "c \<in> X" "advances tot L V m"
    and "\<And>x c' g'. c' \<notin> X - {c} \<Longrightarrow> stands tot L V K (insert c' (X - {c})) c' sc ls g' \<Longrightarrow> Q x g'"
  shows "wp tot m Q g"
  using assms(1,2) by (intro wp_advances [OF assms(3), where A = "X - {c}"]) (auto simp: insert_absorb intro: assms(4))

lemma wp_calm_in:
  assumes "stands tot L V K X c sc ls g" "c \<in> X" "calm tot L V m"
    and "\<And>x g'. stands tot L V K X c sc ls g' \<Longrightarrow> Q x g'"
  shows "wp tot m Q g"
  using assms(3,1,2,4) by (rule wp_calm)

lemma stands_as: "stands tot L V K X c sc ls g \<Longrightarrow> K' \<subseteq> K \<Longrightarrow> X' = X \<Longrightarrow> stands tot L V K' X' c sc ls g"
  by (simp add: stands_less)

subsection \<open>Deferred expressions\<close>

definition defers_advance ::
  "bool \<Rightarrow> ('t, 'v, 'b, 'm) llvm \<Rightarrow> ('b, 'm) view \<Rightarrow> (nat \<Rightarrow> ('t, 'v, 'b, 'm) emitter) \<Rightarrow> bool" where
  "defers_advance tot L V rec \<longleftrightarrow> (\<forall>e. (tot \<longrightarrow> try_free e) \<longrightarrow> advances tot L V (\<lambda>n. rec n e))"

lemma advances_defers [advances_rules]:
  assumes "defers_advance tot L V rec"
  shows "advances tot L V (\<lambda>n. lg_emit_defers_range (rec n) k)"
  unfolding lg_emit_defers_range_def
proof (rule advancesI, rule wp_get)
  fix K A c sc ls and g :: "('a, 'b, 'c, 'd) lg"
  assume c: "c \<notin> A" and g: "stands tot L V K (insert c A) c sc ls g"
  have "advances tot L V (\<lambda>n. giter (\<lambda>e. gbind (rec n e) (\<lambda>_. gret ())) (rev (drop k (defer_stack g))))"
  proof (intro advances_rules advances_calm [OF calm_ret])
    fix e
    assume "e \<in> set (rev (drop k (defer_stack g)))"
    then have "e \<in> set (defer_stack g)" by (auto dest: in_set_dropD)
    with g assms show "advances tot L V (\<lambda>n. rec n e)"
      by (auto simp: defers_advance_def stands_def tame_def)
  qed
  with c g show "wp tot (\<lambda>n. giter (\<lambda>e. gbind (rec n e) (\<lambda>_. gret ())) (rev (drop k (defer_stack g))))
      (\<lambda>_ g'. \<exists>c'. c' \<notin> A \<and> stands tot L V K (insert c' A) c' sc ls g') g"
    by (simp add: advances_def)
qed

subsection \<open>Operators\<close>

lemma advances_logical [advances_rules]:
  assumes "advances tot L V (\<lambda>n. rec n x)" "advances tot L V (\<lambda>n. rec n y)"
  shows "advances tot L V (\<lambda>n. emit_logical L (rec n) s t x y)"
proof (rule advancesI)
  fix K A c sc ls and g :: "('a, 'b, 'c, 'd) lg"
  assume c: "c \<notin> A" and g: "stands tot L V K (insert c A) c sc ls g"
  show "wp tot (\<lambda>n. emit_logical L (rec n) s t x y) (\<lambda>_ g'. \<exists>c'. c' \<notin> A \<and> stands tot L V K (insert c' A) c' sc ls g') g"
    unfolding emit_logical_def
    apply (rule wp_bind, rule wp_advances [OF advances_value [OF assms(1)] g c])
    apply (rule wp_bind, erule wp_block)
    apply (rule wp_bind, erule wp_block)
    apply (rule wp_get, rule wp_bind, erule wp_terminator)
       apply (auto simp: targets_def) [3]
    apply (rule wp_bind, erule wp_goto)
     apply simp
    apply (rule wp_bind, erule wp_advances_in)
      apply simp
     apply (rule advances_value [OF assms(2)])
    apply (rule wp_get, rule wp_bind, erule wp_terminator)
       apply (auto simp: targets_def) [3]
    apply (rule wp_bind, erule wp_goto)
     apply simp
    apply (erule wp_calm_in)
      apply simp
     apply (intro calm_rules; simp)
    apply (intro exI conjI)
     prefer 2
     apply (erule stands_as)
      apply auto
    done
qed

lemma advances_binary [advances_rules]:
  assumes "advances tot L V (\<lambda>n. rec n x)" "advances tot L V (\<lambda>n. rec n y)"
  shows "advances tot L V (\<lambda>n. emit_binary L (rec n) op x y)"
  unfolding emit_binary_def by (intro advances_rules assms advances_calm calm_rules)

subsection \<open>The early return\<close>

lemma wp_try_return:
  assumes g: "stands tot L V K X c sc ls g" and c: "c \<in> X"
    and Q: "\<And>g'. stands tot L V K (X - {c}) c sc ls g' \<Longrightarrow> Q () g'"
  shows "wp tot (\<lambda>n. emit_try_return L n v) Q g"
proof -
  have fin: "wp tot (\<lambda>n. perform L i) Q g'" if "stands tot L V K X c sc ls g'" "i = BuildRetVoid \<or> (\<exists>v. i = BuildRet v)" for g' i
    using that c by (intro wp_terminator [OF that(1) c]) (auto simp: targets_def intro: Q)
  have calm: "wp tot (\<lambda>n. gbind (m n) (f n)) Q g'" if "stands tot L V K X c sc ls g'" "calm tot L V m"
    "\<And>x g'. stands tot L V K X c sc ls g' \<Longrightarrow> wp tot (\<lambda>n. f n x) Q g'" for g' m and f :: "nat \<Rightarrow> 'x \<Rightarrow> _"
    using that by (intro wp_bind wp_calm_in [OF that(1) c that(2)])
  show ?thesis
    unfolding emit_try_return_def
    apply (rule wp_get, rule wp_option)
     apply (rule fin [OF g], simp)
    apply (rule calm [OF g])
     apply (rule calm_rules)
    apply (intro wp_if)
      apply (erule calm, intro calm_rules; simp)
      apply (erule fin, simp)
     apply (erule calm, intro calm_rules; simp)
     apply (erule calm, intro calm_rules; simp)
     apply (erule calm, intro calm_rules; simp)
     apply (erule fin, simp)
    apply (erule fin, simp)
    done
qed

lemma advances_try [advances_rules]:
  assumes "advances tot L V (\<lambda>n. rec n x)" "defers_advance tot L V rec"
  shows "advances tot L V (\<lambda>n. emit_try L (rec n) n x)"
proof (rule advancesI)
  fix K A c sc ls and g :: "('a, 'b, 'c, 'd) lg"
  assume c: "c \<notin> A" and g: "stands tot L V K (insert c A) c sc ls g"
  show "wp tot (\<lambda>n. emit_try L (rec n) n x) (\<lambda>_ g'. \<exists>c'. c' \<notin> A \<and> stands tot L V K (insert c' A) c' sc ls g') g"
    unfolding emit_try_def
    apply (rule wp_bind, rule wp_advances [OF advances_value [OF assms(1)] g c])
    apply (rule wp_bind, erule wp_calm_in)
      apply simp
     apply (intro calm_rules; simp)
    apply (rule wp_bind, erule wp_block)
    apply (rule wp_bind, erule wp_block)
    apply (rule wp_bind, erule wp_terminator)
       apply (auto simp: targets_def) [3]
    apply (rule wp_bind, erule wp_goto)
     apply simp
    apply (rule wp_bind, erule wp_advances_in)
      apply simp
     apply (rule advances_defers [OF assms(2)])
    apply (rule wp_bind, erule wp_try_return)
     apply simp
    apply (rule wp_bind, erule wp_goto)
     apply simp
    apply (erule wp_calm_in)
      apply blast
     apply (intro calm_rules; simp)
    apply (intro exI conjI)
     prefer 2
     apply (erule stands_as)
      apply auto
    done
qed

lemma advances_unary [advances_rules]:
  assumes "advances tot L V (\<lambda>n. rec n x)" "op = ''?'' \<Longrightarrow> defers_advance tot L V rec"
  shows "advances tot L V (\<lambda>n. emit_unary L (rec n) n e op x)"
proof -
  have "advances tot L V (\<lambda>n. emit_address L (rec n) x)"
    unfolding emit_address_def
    by (intro advances_rules assms advances_calm [OF calm_ret] advances_calm [OF calm_build] advances_calm [OF calm_perform]) simp_all
  moreover have "advances tot L V (\<lambda>n. emit_deref L (rec n) n e x)"
    unfolding emit_deref_def by (intro advances_rules assms advances_calm calm_rules)
  moreover have "advances tot L V (\<lambda>n. emit_negation L (rec n) x)"
    unfolding emit_negation_def by (intro advances_rules assms advances_calm calm_rules) simp_all
  moreover have "advances tot L V (\<lambda>n. gbind (value_of (rec n x)) (\<lambda>v. build L (BuildNot v s)))" for s
    by (intro advances_rules assms advances_calm calm_rules) simp_all
  ultimately show ?thesis
    unfolding emit_unary_def by (intro advances_if advances_rvalue advances_value advances_try assms)
qed

subsection \<open>Fields, elements, slices, assignments\<close>

lemma advances_field [advances_rules]:
  assumes "advances tot L V (\<lambda>n. rec n x)"
  shows "advances tot L V (\<lambda>n. emit_field L (rec n) n e x fld)"
proof -
  have key: "calm tot L V (\<lambda>n. case map_option nas ns of
      Some (NODE_TYPE_POINTER inner _ _) \<Rightarrow>
        gbind (llg_node_to_ll L n inner) (\<lambda>_. emit_field_by_type L n e fld (Some inner) (Some v) v)
    | _ \<Rightarrow> emit_field_by_type L n e fld ns p v)" for ns v p
  proof (cases ns)
    case (Some t)
    then show ?thesis by (cases "nas t") (auto intro!: calm_rules)
  qed (auto intro!: calm_rules)
  show ?thesis
    unfolding emit_field_def
    apply (rule advances_get, rule advances_option)
     apply (rule advances_bind [OF assms], rule advances_prod, rule advances_get, rule advances_calm [OF key])
    apply (intro advances_calm calm_rules)
    done
qed

lemma advances_index [advances_rules]:
  assumes "advances tot L V (\<lambda>n. rec n x)" "advances tot L V (\<lambda>n. rec n y)"
  shows "advances tot L V (\<lambda>n. emit_index L (rec n) n e x y)"
  unfolding emit_index_def by (intro advances_rules assms advances_calm calm_rules)

lemma advances_prod2:
  "(\<And>a b c. x = ((a, b), c) \<Longrightarrow> advances tot L V (\<lambda>n. f n a b c)) \<Longrightarrow>
   advances tot L V (\<lambda>n. case x of (p, c) \<Rightarrow> (case p of (a, b) \<Rightarrow> f n a b) c)"
  by (cases x) auto

lemma advances_slice [advances_rules]:
  assumes "advances tot L V (\<lambda>n. rec n x)" "\<And>y. lo = Some y \<Longrightarrow> advances tot L V (\<lambda>n. rec n y)"
    and "\<And>y. hi = Some y \<Longrightarrow> advances tot L V (\<lambda>n. rec n y)"
  shows "advances tot L V (\<lambda>n. emit_slice L (rec n) n x lo hi)"
proof -
  have "advances tot L V (\<lambda>n. emit_slice_length L (rec n) hi orig v)" for orig v
    unfolding emit_slice_length_def by (intro advances_rules assms advances_calm calm_rules) simp_all
  then show ?thesis
    unfolding emit_slice_def
    by (intro advances_prod2 advances_rules assms advances_calm [OF calm_ret] advances_calm [OF calm_build] advances_calm [OF calm_slice_base]
        advances_calm [OF calm_ll_or] advances_calm [OF calm_as_i64]) simp_all
qed

lemma advances_assign [advances_rules]:
  assumes "advances tot L V (\<lambda>n. rec n x)" "advances tot L V (\<lambda>n. rec n y)"
  shows "advances tot L V (\<lambda>n. emit_assign L (rec n) x y op)"
  unfolding emit_assign_def
  by (intro advances_rules assms advances_calm calm_rules) simp_all

lemma advances_members:
  "(\<And>y. y \<in> snd ` set inits \<Longrightarrow> advances tot L V (\<lambda>n. rec n y)) \<Longrightarrow>
   advances tot L V (\<lambda>n. emit_members L (rec n) fs inits i agg)"
proof (induction inits arbitrary: i agg)
  case (Cons a inits)
  then show ?case
    by (auto intro!: advances_bind advances_value advances_calm [OF calm_build])
qed (simp add: advances_calm calm_ret)

lemma advances_struct_lit [advances_rules]:
  "(\<And>y. y \<in> snd ` set inits \<Longrightarrow> advances tot L V (\<lambda>n. rec n y)) \<Longrightarrow>
   advances tot L V (\<lambda>n. emit_struct_lit L (rec n) n s inits)"
  unfolding emit_struct_lit_def
  by (intro advances_bind advances_get advances_members advances_calm [OF calm_registered [OF calm_ns]]) simp

end
