(* ===== verification/Gen_Matches.thy ===== *)
theory Gen_Matches
  imports Gen_Moves
begin

text \<open>Scopes, matches and calls; then expressions as a whole.\<close>

subsection \<open>Scopes\<close>

lemma wp_push [wp_rules]:
  assumes "stands tot L V K X c sc ls g" "\<And>g'. stands tot L V K X c ([] # sc) ls g' \<Longrightarrow> Q () g'"
  shows "wp tot (\<lambda>n. lg_push_scope) Q g"
  unfolding lg_push_scope_def using assms by (intro wp_set) (auto simp: stands_def tame_def)

lemma wp_pop:
  assumes "stands tot L V K X c (vs # sc) ls g" "\<And>g'. stands tot L V K X c sc ls g' \<Longrightarrow> Q () g'"
  shows "wp tot (\<lambda>n. lg_pop_scope) Q g"
  unfolding lg_pop_scope_def using assms by (intro wp_set) (auto simp: stands_def tame_def)

lemma wp_define:
  assumes "stands tot L V K X c (vs # sc) ls g" "\<And>v g'. stands tot L V K X c ((v # vs) # sc) ls g' \<Longrightarrow> Q () g'"
  shows "wp tot (\<lambda>n. lg_define s slot ty ns) Q g"
  unfolding lg_define_def using assms by (intro wp_set) (auto simp: stands_def tame_def)

text \<open>Steps that stay in their block and may add variables to the innermost scope.\<close>

definition binds ::
  "bool \<Rightarrow> ('t, 'v, 'b, 'm) llvm \<Rightarrow> ('b, 'm) view \<Rightarrow> ('t, 'v, 'b, 'm, 'a) gens \<Rightarrow> bool" where
  "binds tot L V m \<longleftrightarrow>
     (\<forall>K X c vs sc ls g. c \<in> X \<longrightarrow> stands tot L V K X c (vs # sc) ls g \<longrightarrow>
        wp tot m (\<lambda>_ g'. \<exists>vs'. stands tot L V K X c (vs' # sc) ls g') g)"

lemma bindsI:
  "(\<And>K X c vs sc ls g. c \<in> X \<Longrightarrow> stands tot L V K X c (vs # sc) ls g \<Longrightarrow>
      wp tot m (\<lambda>_ g'. \<exists>vs'. stands tot L V K X c (vs' # sc) ls g') g) \<Longrightarrow> binds tot L V m"
  by (simp add: binds_def)

lemma wp_binds:
  assumes "stands tot L V K X c (vs # sc) ls g" "c \<in> X" "binds tot L V m"
    and "\<And>x vs' g'. stands tot L V K X c (vs' # sc) ls g' \<Longrightarrow> Q x g'"
  shows "wp tot m Q g"
proof (rule wp_mono)
  show "wp tot m (\<lambda>_ g'. \<exists>vs'. stands tot L V K X c (vs' # sc) ls g') g"
    using assms(1-3) by (simp add: binds_def)
qed (use assms(4) in blast)

lemma binds_calm: "calm tot L V m \<Longrightarrow> binds tot L V m"
  by (rule bindsI, erule wp_calm) auto

lemma binds_bind:
  assumes "binds tot L V m" "\<And>x. binds tot L V (\<lambda>n. f n x)"
  shows "binds tot L V (\<lambda>n. gbind (m n) (f n))"
proof (rule bindsI, rule wp_bind)
  fix K X c vs sc ls and g :: "('a, 'b, 'c, 'd) lg"
  assume g: "c \<in> X" "stands tot L V K X c (vs # sc) ls g"
  show "wp tot m (\<lambda>x. wp tot (\<lambda>n. f n x) (\<lambda>_ g'. \<exists>vs'. stands tot L V K X c (vs' # sc) ls g')) g"
    by (rule wp_binds [OF g(2,1) assms(1)]) (use assms(2) g(1) in \<open>simp add: binds_def\<close>)
qed

lemma binds_define: "binds tot L V (\<lambda>n. lg_define s slot ty ns)"
  by (rule bindsI, erule wp_define) blast

lemma binds_prod: "(\<And>a b. x = (a, b) \<Longrightarrow> binds tot L V (\<lambda>n. f n a b)) \<Longrightarrow> binds tot L V (\<lambda>n. case x of (a, b) \<Rightarrow> f n a b)"
  by (cases x) auto

lemma binds_iter: "(\<And>x. x \<in> set xs \<Longrightarrow> binds tot L V (\<lambda>n. f n x)) \<Longrightarrow> binds tot L V (\<lambda>n. giter (f n) xs)"
  by (induction xs) (auto intro!: binds_bind binds_calm [OF calm_ret])

subsection \<open>Matches\<close>

lemma binds_bind_one: "binds tot L V (\<lambda>n. emit_bind_one L n slot ty ns pat jb)"
  unfolding emit_bind_one_def
  by (intro binds_bind binds_define binds_prod) (intro binds_calm calm_rules; simp)+

lemma wp_bindings:
  assumes "stands tot L V K X c sc ls g" "c \<in> X"
    and "\<And>sc' g'. stands tot L V K X c sc' ls g' \<Longrightarrow> (bs = [] \<and> sc' = sc \<or> bs \<noteq> [] \<and> (\<exists>vs. sc' = vs # sc)) \<Longrightarrow> Q () g'"
  shows "wp tot (\<lambda>n. emit_bindings L n slot ty ns pat bs) Q g"
proof (cases "bs = []")
  case True
  with assms show ?thesis by (auto simp: emit_bindings_def gwhen_def intro: wp_ret)
next
  case False
  have "binds tot L V (\<lambda>n. giter (emit_bind_one L n slot ty ns pat) (enumerate 0 bs))"
    by (intro binds_iter binds_bind_one)
  moreover have "Q y g'" if "stands tot L V K X c (vs # sc) ls g'" for vs g' and y :: unit
    using assms(3) [OF that] False by simp
  ultimately show ?thesis
    unfolding emit_bindings_def
    by (intro wp_when wp_bind wp_push [OF assms(1)] wp_binds [OF _ assms(2)]) (use False in simp_all)
qed

lemma wp_branch:
  assumes "stands tot L V K X c sc ls g" "b \<in> K \<union> fst ` set ls \<union> snd ` set ls"
    and "\<And>g'. stands tot L V K (X - {c}) c sc ls g' \<Longrightarrow> Q () g'"
  shows "wp tot (\<lambda>n. branch_unless_ended L b) Q g"
  unfolding branch_unless_ended_def
proof (intro wp_get wp_when)
  assume "\<not> block_ended L g"
  with assms(1) have "c \<in> X" by (auto simp: block_ended_def stands_def open_blocks_def)
  with assms show "wp tot (\<lambda>n. perform L (BuildBr b)) Q g"
    by (intro wp_terminator [OF assms(1)]) (auto simp: targets_def)
next
  assume "\<not> \<not> block_ended L g"
  with assms(1) have "c \<notin> X" by (auto simp: block_ended_def stands_def open_blocks_def)
  with assms(1,3) show "Q () g" by simp
qed

lemma wp_arm_test:
  assumes "stands tot L V K X c sc ls g" "c \<in> X" "b \<in> K" "b' \<in> K"
    and "\<And>g'. stands tot L V K (X - {c}) c sc ls g' \<Longrightarrow> Q () g'"
  shows "wp tot (\<lambda>n. emit_arm_test L slot ty ns pat b b') Q g"
  unfolding emit_arm_test_def
  apply (rule wp_if)
   apply (rule wp_bind, rule wp_calm_in [OF assms(1,2)])
    apply (rule calm_rules)
   apply (erule wp_terminator)
      apply (auto simp: targets_def assms intro: assms(5)) [4]
  apply (rule wp_terminator [OF assms(1,2)])
    apply (auto simp: targets_def assms intro: assms(5))
  done

lemma wp_next_block:
  assumes "stands tot L V K X c sc ls g" "b0 \<in> K" "b0 \<in> X" "b0 \<noteq> c"
    and "\<And>b g'. stands tot L V (insert b K) (insert b X) c sc ls g' \<Longrightarrow>
        (fin \<and> b = b0 \<or> \<not> fin \<and> b \<notin> X \<and> b \<notin> K \<and> b \<noteq> c) \<Longrightarrow> Q b g'"
  shows "wp tot (\<lambda>n. if fin then gret b0 else fresh_block L s) Q g"
  apply (rule wp_if)
   apply (rule wp_ret, rule assms(5))
    apply (use assms in \<open>simp add: insert_absorb\<close>)
   apply simp
  apply (rule wp_block [OF assms(1)])
  apply (rule assms(5))
   apply auto
  done

lemma wp_pop_if:
  assumes "stands tot L V K X c sc' ls g" "bs = [] \<and> sc' = sc \<or> bs \<noteq> [] \<and> (\<exists>vs. sc' = vs # sc)"
    and "\<And>g'. stands tot L V K X c sc ls g' \<Longrightarrow> Q () g'"
  shows "wp tot (\<lambda>n. gwhen (bs \<noteq> []) lg_pop_scope) Q g"
  using assms by (intro wp_when) (auto intro: wp_pop)

text \<open>After the last arm every block that the arms added is ended.\<close>

lemma wp_arms:
  assumes "\<And>arm. arm \<in> set arms \<Longrightarrow> advances tot L V (\<lambda>n. rec n (snd (snd arm)))"
    and "stands tot L V K X c sc ls g" "c \<in> X" "b0 \<in> K" "b0 \<in> X" "b0 \<noteq> c" "arms \<noteq> []"
    and "\<And>c' g'. stands tot L V K (X - {c}) c' sc ls g' \<Longrightarrow> Q () g'"
  shows "wp tot (\<lambda>n. emit_arms L (rec n) n slot ty ns res b0 arms) Q g"
  using assms
proof (induction arms arbitrary: K X c g)
  case (Cons arm arms)
  obtain pat bs x where arm: "arm = (pat, bs, x)" by (cases arm) auto
  have x: "advances tot L V (\<lambda>n. value_of (rec n x))"
    using Cons.prems(1) [of arm] arm by (simp add: advances_value)
  have rest: "wp tot (\<lambda>n. emit_arms L (rec n) n slot ty ns res b0 arms) Q g'"
    if "stands tot L V K' X' b1 sc ls g'" "b1 \<in> X'" "b0 \<in> X'" "b0 \<noteq> b1" "X' - {b1} = X - {c}" "K \<subseteq> K'" "arms \<noteq> []"
    for K' X' b1 g'
  proof (rule Cons.IH [OF Cons.prems(1) that(1,2) _ that(3,4,7)])
    show "Q () g2" if "stands tot L V K' (X' - {b1}) c2 sc ls g2" for c2 g2
      by (rule Cons.prems(8), rule stands_as, rule that) (use \<open>K \<subseteq> K'\<close> \<open>X' - {b1} = X - {c}\<close> in simp_all)
  qed (use that Cons.prems(4) in auto)
  show ?case
    unfolding emit_arms.simps arm prod.case
    apply (rule wp_bind, rule wp_block [OF Cons.prems(2)])
    apply (rule wp_bind, erule wp_next_block [where fin = "arms = []"])
       apply (use Cons.prems in auto) [3]
    apply (rule wp_bind, erule wp_arm_test)
       apply (use Cons.prems in auto) [3]
    apply (rule wp_bind, erule wp_goto)
     apply simp
    apply (rule wp_bind, erule wp_bindings)
     apply (use Cons.prems in blast)
    apply (rule wp_bind, erule wp_advances_in)
      apply (use Cons.prems in blast)
     apply (rule x)
    apply (rule wp_bind, erule wp_calm_in)
      apply simp
     apply (intro calm_rules; simp)
    apply (rule wp_bind, erule wp_pop_if, assumption)
    apply (rule wp_bind, erule wp_branch)
     apply (use Cons.prems in simp)
    apply (rule wp_bind)
    apply (cases "arms = []")
     apply (rule wp_when)
      apply blast
     apply (simp only: emit_arms.simps)
     apply (rule wp_ret, rule Cons.prems(8), erule stands_as)
      apply blast
     apply (use Cons.prems in auto) [1]
    apply (rule wp_when)
     apply (erule wp_goto)
      apply simp
     apply (erule rest)
          apply (use Cons.prems in auto) [6]
    apply (use Cons.prems in auto) [1]
    done
qed simp

lemma advances_match [advances_rules]:
  assumes "advances tot L V (\<lambda>n. rec n x)" "\<And>arm. arm \<in> set arms \<Longrightarrow> advances tot L V (\<lambda>n. rec n (snd (snd arm)))"
  shows "advances tot L V (\<lambda>n. emit_match L (rec n) n x arms)"
proof (cases arms)
  case Nil
  then show ?thesis by (simp add: emit_match_def advances_calm calm_ret)
next
  case (Cons arm rest)
  obtain pat bs v where arm: "arm = (pat, bs, v)" by (cases arm) auto
  show ?thesis
  proof (rule advancesI)
    fix K A c sc ls and g :: "('a, 'b, 'c, 'd) lg"
    assume c: "c \<notin> A" and g: "stands tot L V K (insert c A) c sc ls g"
    show "wp tot (\<lambda>n. emit_match L (rec n) n x arms) (\<lambda>_ g'. \<exists>c'. c' \<notin> A \<and> stands tot L V K (insert c' A) c' sc ls g') g"
      unfolding emit_match_def Cons arm list.case prod.case
      apply (rule wp_get, rule wp_bind, rule wp_calm_in [OF g insertI1], rule calm_rules)
      apply (rule wp_get, rule wp_bind, erule wp_calm_in, simp, rule calm_rules)
      apply (rule wp_bind, erule wp_calm_in, simp, rule calm_rules)
      apply (rule wp_bind, erule wp_calm_in, simp, rule calm_rules)
      apply (rule wp_bind, erule wp_calm_in, simp, (intro calm_rules; simp))
      apply (rule wp_bind, erule wp_calm_in, simp, (intro calm_rules; simp))
      apply (rule wp_bind, erule wp_advances_in, simp, rule advances_value [OF assms(1)])
      apply (rule wp_bind, erule wp_calm_in, simp, (intro calm_rules; simp))
      apply (rule wp_bind, erule wp_block)
      apply (rule wp_bind, rule wp_arms)
             apply (rule assms(2), simp add: Cons arm)
            apply assumption
           apply simp
          apply simp
         apply simp
        apply simp
       apply simp
      apply (rule wp_bind, erule wp_goto)
       apply simp
      apply (erule wp_calm_in, use c in simp, (intro calm_rules; simp))
      apply (intro exI conjI)
       prefer 2
       apply (erule stands_as)
        apply (use c in auto)
      done
  qed
qed

subsection \<open>Calls\<close>

lemma advances_values [advances_rules]:
  "(\<And>x. x \<in> set es \<Longrightarrow> advances tot L V (\<lambda>n. rec n x)) \<Longrightarrow> advances tot L V (\<lambda>n. emit_values (rec n) es)"
  unfolding emit_values_def by (intro advances_rules)

lemma advances_plain [advances_rules]:
  "(\<And>x. x \<in> set es \<Longrightarrow> advances tot L V (\<lambda>n. rec n x)) \<Longrightarrow> advances tot L V (\<lambda>n. call_plain L (rec n) n f es)"
  unfolding call_plain_def by (intro advances_bind advances_values advances_calm [OF calm_call_with])

lemma advances_method:
  assumes "advances tot L V (\<lambda>n. rec n x)" "\<And>x. x \<in> set es \<Longrightarrow> advances tot L V (\<lambda>n. rec n x)"
  shows "advances tot L V (\<lambda>n. call_method L (rec n) n f x es)"
proof -
  have "advances tot L V (\<lambda>n. emit_self L (rec n) ptys x)" for ptys
    unfolding emit_self_def by (intro advances_rules assms advances_calm [OF calm_ret])
  then show ?thesis
    unfolding call_method_def by (intro advances_bind advances_values assms advances_calm [OF calm_call_with])
qed

lemma advances_payload:
  "(\<And>x. x \<in> fst ` set afs \<Longrightarrow> advances tot L V (\<lambda>n. rec n x)) \<Longrightarrow>
   advances tot L V (\<lambda>n. emit_payload L (rec n) n ty p afs off)"
proof (induction afs arbitrary: off)
  case (Cons a afs)
  then show ?case
    by (auto intro!: advances_bind advances_value advances_calm [OF calm_perform] advances_calm [OF calm_opt]
        advances_calm [OF calm_coerce] advances_calm [OF calm_payload_at])
qed (simp add: advances_calm calm_ret)

lemma advances_variant_value [advances_rules]:
  assumes "\<And>x. x \<in> set es \<Longrightarrow> advances tot L V (\<lambda>n. rec n x)"
  shows "advances tot L V (\<lambda>n. emit_variant_value L (rec n) n s i fs es)"
proof -
  have "advances tot L V (\<lambda>n. emit_payload L (rec n) n ty p (zip es fs) off)" for ty p off
    by (rule advances_payload) (use assms in \<open>auto dest: set_zip_leftD\<close>)
  then show ?thesis
    unfolding emit_variant_value_def
    by (intro advances_bind advances_calm [OF calm_ns] advances_calm [OF calm_build] advances_calm [OF calm_perform]) simp_all
qed

lemma advances_string_from [advances_rules]:
  "(\<And>x. x \<in> set es \<Longrightarrow> advances tot L V (\<lambda>n. rec n x)) \<Longrightarrow> advances tot L V (\<lambda>n. emit_string_from L (rec n) n f es)"
  unfolding emit_string_from_def
  by (intro advances_prod advances_bind advances_list advances_value advances_calm [OF calm_ns] advances_calm [OF calm_ret]
      advances_calm [OF calm_build] advances_calm [OF calm_perform] advances_calm [OF calm_fail] advances_calm [OF calm_coerce]) auto

lemma advances_some [advances_rules]:
  "advances tot L V (\<lambda>n. rec n x) \<Longrightarrow> advances tot L V (\<lambda>n. emit_some L (rec n) n x)"
  unfolding emit_some_def
  by (rule advances_bind, erule advances_value) (intro advances_calm calm_rules)

lemma advances_result [advances_rules]:
  "advances tot L V (\<lambda>n. rec n x) \<Longrightarrow> advances tot L V (\<lambda>n. emit_result L (rec n) n ret s x)"
  unfolding emit_result_def
  by (rule advances_bind, erule advances_value) (intro advances_calm calm_rules)

lemma advances_named_call [advances_rules]:
  "(\<And>x. x \<in> set es \<Longrightarrow> advances tot L V (\<lambda>n. rec n x)) \<Longrightarrow> advances tot L V (\<lambda>n. emit_named_call L (rec n) n s es)"
  unfolding emit_named_call_def emit_unknown_def
  by (intro advances_rules advances_calm [OF calm_ret] advances_calm [OF calm_none]) auto

lemma advances_method_call [advances_rules]:
  assumes "advances tot L V (\<lambda>n. rec n x)" "\<And>x. x \<in> set es \<Longrightarrow> advances tot L V (\<lambda>n. rec n x)"
  shows "advances tot L V (\<lambda>n. emit_method_call L (rec n) n x s es)"
  unfolding emit_method_call_def
  by (intro advances_rules advances_method assms advances_calm [OF calm_ret] advances_calm [OF calm_perform]) simp_all

lemma advances_call [advances_rules]:
  assumes "\<And>x. x \<in> set (called_object f @ es) \<Longrightarrow> advances tot L V (\<lambda>n. rec n x)"
  shows "advances tot L V (\<lambda>n. emit_call L (rec n) n f es)"
proof -
  have es: "\<And>x. x \<in> set es \<Longrightarrow> advances tot L V (\<lambda>n. rec n x)" using assms by simp
  have "advances tot L V (\<lambda>n. emit_field_call L (rec n) n x s es)" if "nas f = NODE_FIELD x s" for x s
    unfolding emit_field_call_def
    by (intro advances_rules es assms) (use that in \<open>simp_all add: called_object_def\<close>)
  moreover have "advances tot L V (\<lambda>n. case ident_name x of
      Some s \<Rightarrow> gget (\<lambda>g. instance_callee g s ta) (\<lambda>r. case r of
        Some r \<Rightarrow> call_plain L (rec n) n r es | None \<Rightarrow> emit_named_call L (rec n) n s es)
    | None \<Rightarrow> gret (i32_const L 0))" for x ta
    by (intro advances_rules advances_calm [OF calm_ret] es)
  ultimately show ?thesis
    by (cases "nas f") (simp_all add: emit_call_def advances_calm calm_ret advances_named_call es)
qed

subsection \<open>Expressions\<close>

lemma advances_step:
  assumes sub: "\<And>x. x \<in> set (subexprs e) \<Longrightarrow> advances tot L V (\<lambda>n. rec n x)"
    and defers: "is_try e \<Longrightarrow> defers_advance tot L V rec"
  shows "advances tot L V (\<lambda>n. emit_step L (rec n) n e)"
proof (cases "nas e")
  case (NODE_CAST x t)
  then show ?thesis
    unfolding emit_step_def using sub
    by (auto simp: subexprs_def intro!: advances_rvalue advances_bind advances_value advances_get advances_calm [OF calm_node]
        advances_calm [OF calm_cast])
next
  case (NODE_UNARY op x)
  then show ?thesis
    using sub defers by (simp add: emit_step_def advances_unary subexprs_def is_try_def)
next
  case (NODE_MATCH x arms)
  then have "set (subexprs e) = insert x ((\<lambda>arm. snd (snd arm)) ` set arms)"
    by (force simp: subexprs_def split_beta)
  with NODE_MATCH sub show ?thesis
    by (auto simp: emit_step_def intro!: advances_rvalue advances_match)
next
  case (NODE_STRUCT_LIT s inits)
  then show ?thesis
    using sub by (auto simp: emit_step_def subexprs_def intro!: advances_rvalue advances_struct_lit)
next
  case (NODE_SLICE x lo hi)
  then show ?thesis
    using sub by (auto simp: emit_step_def subexprs_def list_of_def intro!: advances_rvalue advances_slice)
next
  case (NODE_CALL f args)
  then show ?thesis
    using sub by (auto simp: emit_step_def subexprs_def intro!: advances_rvalue advances_call)
qed (use sub in \<open>auto simp: emit_step_def subexprs_def intro!: advances_rules advances_calm [OF calm_ret]
        advances_calm [OF calm_string] advances_calm [OF calm_ident]\<close>)

lemma advances_expr_partial: "advances False L V (\<lambda>_. llg_emit_expr L n e)"
proof (induction n arbitrary: e)
  case 0
  show ?case using advances_calm [OF calm_too_deep] by simp
next
  case (Suc n)
  have "advances False L V (\<lambda>k. emit_step L (llg_emit_expr L n) k e)"
    by (rule advances_step [where rec = "\<lambda>_. llg_emit_expr L n"]) (simp_all add: defers_advance_def Suc)
  from advances_partialD [OF this, of n] show ?case by simp
qed

lemma advances_try_free:
  assumes "try_free e"
  shows "advances True L V (\<lambda>n. llg_emit_expr L n e)"
  using assms
proof (induction e rule: measure_induct_rule [of size])
  case (less e)
  show ?case
  proof (rule advances_Suc)
    show "advances True L V (\<lambda>n. llg_emit_expr L (Suc n) e)"
      unfolding llg_emit_expr.simps
      by (rule advances_step) (use less size_subexprs try_free_sub try_free_not in blast)+
  qed (simp add: gfail_def)
qed

lemma advances_expr_total: "advances True L V (\<lambda>n. llg_emit_expr L n e)"
proof (induction e rule: measure_induct_rule [of size])
  case (less e)
  show ?case
  proof (rule advances_Suc)
    show "advances True L V (\<lambda>n. llg_emit_expr L (Suc n) e)"
      unfolding llg_emit_expr.simps
      by (rule advances_step) (use less size_subexprs in \<open>auto simp: defers_advance_def advances_try_free\<close>)
  qed (simp add: gfail_def)
qed

text \<open>
  An expression leaves the builder at an open block, with the other open blocks, the scopes and the loops as
  they were; and if no deferred expression has a \<^verbatim>\<open>?\<close> and nothing is generic, it is translated.
\<close>

lemma advances_expr [advances_rules]: "advances tot L V (\<lambda>n. llg_emit_expr L n e)"
  by (cases tot) (simp_all add: advances_expr_total advances_partialI advances_expr_partial)

lemma defers_advance_expr [simp]: "defers_advance tot L V (llg_emit_expr L)"
  by (simp add: defers_advance_def advances_expr)

end
