(* ===== verification/Gen_Flow.thy ===== *)
theory Gen_Flow
  imports Gen_Matches
begin

text \<open>
  Statements. They may end the block of the builder, and declare variables in the innermost scope. The stack of
  loops may lose entries, as a loop below the 64th is left without having been entered.
\<close>

subsection \<open>Statements that never end their block\<close>

definition proceeds ::
  "bool \<Rightarrow> ('t, 'v, 'b, 'm) llvm \<Rightarrow> ('b, 'm) view \<Rightarrow> ('t, 'v, 'b, 'm, 'a) gens \<Rightarrow> bool" where
  "proceeds tot L V m \<longleftrightarrow>
     (\<forall>K A c vs sc ls g. c \<notin> A \<longrightarrow> stands tot L V K (insert c A) c (vs # sc) ls g \<longrightarrow>
        wp tot m (\<lambda>_ g'. \<exists>c' vs'. c' \<notin> A \<and> stands tot L V K (insert c' A) c' (vs' # sc) ls g') g)"

named_theorems proceeds_rules \<open>what proceeds on in an open block\<close>

lemma proceedsI:
  "(\<And>K A c vs sc ls g. c \<notin> A \<Longrightarrow> stands tot L V K (insert c A) c (vs # sc) ls g \<Longrightarrow>
      wp tot m (\<lambda>_ g'. \<exists>c' vs'. c' \<notin> A \<and> stands tot L V K (insert c' A) c' (vs' # sc) ls g') g) \<Longrightarrow> proceeds tot L V m"
  by (simp add: proceeds_def)

lemma wp_proceeds:
  assumes "proceeds tot L V m" "stands tot L V K (insert c A) c (vs # sc) ls g" "c \<notin> A"
    and "\<And>x c' vs' g'. c' \<notin> A \<Longrightarrow> stands tot L V K (insert c' A) c' (vs' # sc) ls g' \<Longrightarrow> Q x g'"
  shows "wp tot m Q g"
proof (rule wp_mono)
  show "wp tot m (\<lambda>_ g'. \<exists>c' vs'. c' \<notin> A \<and> stands tot L V K (insert c' A) c' (vs' # sc) ls g') g"
    using assms(1-3) by (simp add: proceeds_def)
qed (use assms(4) in blast)

lemma wp_proceeds_in:
  assumes "stands tot L V K X c (vs # sc) ls g" "c \<in> X" "proceeds tot L V m"
    and "\<And>x c' vs' g'. c' \<notin> X - {c} \<Longrightarrow> stands tot L V K (insert c' (X - {c})) c' (vs' # sc) ls g' \<Longrightarrow> Q x g'"
  shows "wp tot m Q g"
  using assms(1,2) by (intro wp_proceeds [OF assms(3), where A = "X - {c}"]) (auto simp: insert_absorb intro: assms(4))

lemma proceeds_advances: "advances tot L V m \<Longrightarrow> proceeds tot L V m"
  by (rule proceedsI, rule wp_advances) auto

lemma proceeds_calm [proceeds_rules]: "calm tot L V m \<Longrightarrow> proceeds tot L V m"
  by (simp add: proceeds_advances advances_calm)

lemma proceeds_binds: "binds tot L V m \<Longrightarrow> proceeds tot L V m"
  by (rule proceedsI, rule wp_binds) auto

lemma proceeds_bind [proceeds_rules]:
  assumes "proceeds tot L V m" "\<And>x. proceeds tot L V (\<lambda>n. f n x)"
  shows "proceeds tot L V (\<lambda>n. gbind (m n) (f n))"
proof (rule proceedsI, rule wp_bind)
  fix K A c vs sc ls and g :: "('a, 'b, 'c, 'd) lg"
  assume g: "c \<notin> A" "stands tot L V K (insert c A) c (vs # sc) ls g"
  show "wp tot m (\<lambda>x. wp tot (\<lambda>n. f n x)
      (\<lambda>_ g'. \<exists>c' vs'. c' \<notin> A \<and> stands tot L V K (insert c' A) c' (vs' # sc) ls g')) g"
    by (rule wp_proceeds [OF assms(1) g(2,1)]) (use assms(2) in \<open>simp add: proceeds_def\<close>)
qed

lemma proceeds_get [proceeds_rules]: "(\<And>x. proceeds tot L V (\<lambda>n. f n x)) \<Longrightarrow> proceeds tot L V (\<lambda>n. gget sel (f n))"
  by (rule proceedsI, rule wp_get) (simp add: proceeds_def)

lemma proceeds_let:
  assumes "\<And>e. advances tot L V (\<lambda>n. rec n e)"
  shows "proceeds tot L V (\<lambda>n. emit_let L (rec n) n s ty x)"
proof -
  have "advances tot L V (\<lambda>n. case x of Some e \<Rightarrow> value_of (rec n e) | None \<Rightarrow> gret v)" for v
    by (intro advances_rules assms advances_calm [OF calm_ret])
  then show ?thesis
    unfolding emit_let_def
    by (intro proceeds_get proceeds_bind proceeds_binds [OF binds_define] proceeds_calm [OF calm_ll_or] proceeds_calm [OF calm_build]
        proceeds_calm [OF calm_perform]) (auto intro: proceeds_advances)
qed

lemma proceeds_const:
  "(\<And>e. advances tot L V (\<lambda>n. rec n e)) \<Longrightarrow> proceeds tot L V (\<lambda>n. emit_const L (rec n) n s ty x)"
  unfolding emit_const_def by (rule proceeds_let)

lemma proceeds_effect: "advances tot L V m \<Longrightarrow> proceeds tot L V (\<lambda>n. gbind (m n) (\<lambda>_. gret ()))"
  by (intro proceeds_bind proceeds_advances proceeds_calm [OF calm_ret])

lemma calm_defer: "(tot \<Longrightarrow> try_free x) \<Longrightarrow> calm tot L V (\<lambda>n. emit_defer x)"
  unfolding emit_defer_def by (rule calmI, rule wp_set) (auto simp: stands_def tame_def)

lemma calm_drop_defers: "calm tot L V (\<lambda>n. gset (\<lambda>g. g\<lparr>defer_stack := take (k g) (defer_stack g)\<rparr>))"
  by (rule calmI, rule wp_set) (auto simp: stands_def tame_def dest: in_set_takeD)

lemma advances_scope_defers:
  "defers_advance tot L V rec \<Longrightarrow> advances tot L V (\<lambda>n. lg_emit_scope_defers (rec n))"
  unfolding lg_emit_scope_defers_def
  by (rule advances_get, rule advances_bind, erule advances_defers, rule advances_calm [OF calm_drop_defers])

subsection \<open>Statements that may end their block\<close>

text \<open>The blocks \<open>A\<close> are open and perhaps one more, which the builder is at.\<close>

definition leaves ::
  "bool \<Rightarrow> ('t, 'v, 'b, 'm) llvm \<Rightarrow> ('b, 'm) view \<Rightarrow> 'b set \<Rightarrow> 'b set \<Rightarrow> ('t, 'v) lg_var list list \<Rightarrow> ('b \<times> 'b) list \<Rightarrow>
   ('t, 'v, 'b, 'm) lg \<Rightarrow> bool" where
  "leaves tot L V K A sc ls g \<longleftrightarrow> (\<exists>X c k. X - {c} = A \<and> stands tot L V K X c sc (drop k ls) g)"

definition flows ::
  "bool \<Rightarrow> ('t, 'v, 'b, 'm) llvm \<Rightarrow> ('b, 'm) view \<Rightarrow> ('t, 'v, 'b, 'm, 'a) gens \<Rightarrow> bool" where
  "flows tot L V m \<longleftrightarrow>
     (\<forall>K A c vs sc ls g. c \<notin> A \<longrightarrow> stands tot L V K (insert c A) c (vs # sc) ls g \<longrightarrow>
        wp tot m (\<lambda>_ g'. \<exists>vs'. leaves tot L V K A (vs' # sc) ls g') g)"

lemma flowsI:
  "(\<And>K A c vs sc ls g. c \<notin> A \<Longrightarrow> stands tot L V K (insert c A) c (vs # sc) ls g \<Longrightarrow>
      wp tot m (\<lambda>_ g'. \<exists>vs'. leaves tot L V K A (vs' # sc) ls g') g) \<Longrightarrow> flows tot L V m"
  by (simp add: flows_def)

lemma leaves_drop: "leaves tot L V K A sc (drop k ls) g \<Longrightarrow> leaves tot L V K A sc ls g"
  by (auto simp: leaves_def)

lemma leavesI: "stands tot L V K' X c sc (drop k ls) g \<Longrightarrow> K \<subseteq> K' \<Longrightarrow> X - {c} = A \<Longrightarrow> leaves tot L V K A sc ls g"
  unfolding leaves_def by (blast intro: stands_less)

lemma leaves_openI: "stands tot L V K (insert c A) c sc ls g \<Longrightarrow> c \<notin> A \<Longrightarrow> leaves tot L V K A sc ls g"
  by (rule leavesI [where k = 0]) auto

lemma leaves_closed: "stands tot L V K A c sc ls g \<Longrightarrow> c \<notin> A \<Longrightarrow> leaves tot L V K A sc ls g"
  by (rule leavesI [where k = 0]) auto

lemma leavesI2:
  "stands tot L V K' X c sc (drop k (drop k' ls)) g \<Longrightarrow> K \<subseteq> K' \<Longrightarrow> X - {c} = A \<Longrightarrow> leaves tot L V K A sc ls g"
  by (rule leavesI [where k = "k + k'"]) auto

lemma stands_pop_loop: "stands tot L V K X c sc ls g \<Longrightarrow> stands tot L V K X c sc (tl ls) (g\<lparr>loop_stack := tl (loop_stack g)\<rparr>)"
  by (cases ls) (auto simp: stands_def tame_def)

lemma flows_proceeds: "proceeds tot L V m \<Longrightarrow> flows tot L V m"
  by (rule flowsI, rule wp_proceeds) (auto intro: leaves_openI)

lemma wp_flows:
  assumes "stands tot L V K X c (vs # sc) ls g" "c \<in> X" "flows tot L V m"
    and "\<And>x vs' X' c' k g'. stands tot L V K X' c' (vs' # sc) (drop k ls) g' \<Longrightarrow> X' - {c'} = X - {c} \<Longrightarrow> Q x g'"
  shows "wp tot m Q g"
proof (rule wp_mono)
  show "wp tot m (\<lambda>_ g'. \<exists>vs'. leaves tot L V K (X - {c}) (vs' # sc) ls g') g"
    using assms(3) [unfolded flows_def, rule_format, of c "X - {c}" K vs sc ls g] assms(1,2) by (simp add: insert_absorb)
qed (use assms(4) in \<open>auto simp: leaves_def\<close>)

lemma wp_leaves_cases:
  assumes "leaves tot L V K A sc ls g"
    and "\<And>c k. block_ended L g \<Longrightarrow> c \<notin> A \<Longrightarrow> stands tot L V K A c sc (drop k ls) g \<Longrightarrow> P"
    and "\<And>c k. \<not> block_ended L g \<Longrightarrow> c \<notin> A \<Longrightarrow> stands tot L V K (insert c A) c sc (drop k ls) g \<Longrightarrow> P"
  shows P
proof -
  from assms(1) obtain X c k where X: "X - {c} = A" and g: "stands tot L V K X c sc (drop k ls) g"
    by (auto simp: leaves_def)
  from g have "block_ended L g \<longleftrightarrow> c \<notin> X"
    by (auto simp: block_ended_def stands_def open_blocks_def)
  with X g assms(2) assms(3) [of c k] show P by (cases "c \<in> X") (auto simp: insert_absorb)
qed

lemma wp_stmts:
  assumes "\<And>s. s \<in> set ss \<Longrightarrow> flows tot L V (\<lambda>n. stmt n s)" "leaves tot L V K A (vs # sc) ls g"
  shows "wp tot (\<lambda>n. emit_stmts L (stmt n) ss) (\<lambda>_ g'. \<exists>vs'. leaves tot L V K A (vs' # sc) ls g') g"
  using assms
proof (induction ss arbitrary: vs g)
  case Nil
  then show ?case by (auto intro: wp_ret)
next
  case (Cons s ss)
  show ?case
    unfolding emit_stmts.simps
  proof (intro wp_get wp_if)
    show "wp tot (\<lambda>n. gret ()) (\<lambda>_ g'. \<exists>vs'. leaves tot L V K A (vs' # sc) ls g') g"
      using Cons.prems(2) by (auto intro: wp_ret)
  next
    assume "\<not> block_ended L g"
    with Cons.prems(2) obtain c k where c: "c \<notin> A" and g: "stands tot L V K (insert c A) c (vs # sc) (drop k ls) g"
      by (auto elim!: wp_leaves_cases)
    show "wp tot (\<lambda>n. gbind (stmt n s) (\<lambda>_. emit_stmts L (stmt n) ss)) (\<lambda>_ g'. \<exists>vs'. leaves tot L V K A (vs' # sc) ls g') g"
      by (rule wp_bind, rule wp_flows [OF g insertI1 Cons.prems(1)], simp, rule Cons.IH)
        (use Cons.prems(1) c in \<open>auto intro: leavesI\<close>)
  qed
qed

lemma wp_body:
  assumes stmts: "\<And>s. s \<in> set (block_stmts blk) \<Longrightarrow> flows tot L V (\<lambda>n. stmt n s)" and rec: "defers_advance tot L V rec"
    and g: "stands tot L V K X c sc ls g" "c \<in> X"
    and Q: "\<And>X' c' k g'. stands tot L V K X' c' sc (drop k ls) g' \<Longrightarrow> X' - {c'} = X - {c} \<Longrightarrow> Q () g'"
  shows "wp tot (\<lambda>n. llg_emit_block L (rec n) (stmt n) blk) Q g"
proof -
  have fin: "wp tot (\<lambda>n. gbind (if block_ended L g' then drop_scope_defers else lg_emit_scope_defers (rec n)) (\<lambda>_. lg_pop_scope)) Q g'"
    if "leaves tot L V K (X - {c}) (vs # sc) ls g'" for vs g'
    using that
  proof (rule wp_leaves_cases)
    fix c' k
    assume "block_ended L g'" and c': "c' \<notin> X - {c}" and g': "stands tot L V K (X - {c}) c' (vs # sc) (drop k ls) g'"
    then have "stands tot L V K (X - {c}) c' (vs # sc) (drop k ls) (g'\<lparr>defer_stack := take i (defer_stack g')\<rparr>)" for i
      by (auto simp: stands_def tame_def dest: in_set_takeD)
    then have "wp tot (\<lambda>n. gbind drop_scope_defers (\<lambda>_. lg_pop_scope)) Q g'"
      unfolding drop_scope_defers_def by - (rule wp_bind, rule wp_set, rule wp_pop, assumption, use c' Q in auto)
    with \<open>block_ended L g'\<close> show ?thesis by simp
  next
    fix c' k
    assume "\<not> block_ended L g'" and c': "c' \<notin> X - {c}"
      and g': "stands tot L V K (insert c' (X - {c})) c' (vs # sc) (drop k ls) g'"
    have "wp tot (\<lambda>n. gbind (lg_emit_scope_defers (rec n)) (\<lambda>_. lg_pop_scope)) Q g'"
      by (rule wp_bind, rule wp_advances [OF advances_scope_defers [OF rec] g' c'], erule wp_pop) (use Q in auto)
    with \<open>\<not> block_ended L g'\<close> show ?thesis by simp
  qed
  have "wp tot (\<lambda>n. emit_stmts L (stmt n) (block_stmts blk)) (\<lambda>_ g'. \<exists>vs. leaves tot L V K (X - {c}) (vs # sc) ls g') g'"
    if "stands tot L V K X c ([] # sc) ls g'" for g'
    using that g(2) by (intro wp_stmts stmts) (auto intro: leavesI [where k = 0])
  then show ?thesis
    unfolding llg_emit_block_def
    by (intro wp_bind wp_push [OF g(1)]) (rule wp_mono, assumption, elim exE, rule wp_get, rule fin)
qed

subsection \<open>Returns and branches\<close>

lemma flows_return:
  assumes "\<And>e. advances tot L V (\<lambda>n. rec n e)"
  shows "flows tot L V (\<lambda>n. emit_return L (rec n) x)"
proof (rule flowsI)
  fix K A c vs sc ls and g :: "('a, 'b, 'c, 'd) lg"
  assume c: "c \<notin> A" and g: "stands tot L V K (insert c A) c (vs # sc) ls g"
  have fin: "wp tot (\<lambda>n. perform L i) (\<lambda>_ g'. \<exists>vs'. leaves tot L V K A (vs' # sc) ls g') g'"
    if "stands tot L V K (insert c' A) c' (vs # sc) ls g'" "c' \<notin> A" "i = BuildRetVoid \<or> (\<exists>v. i = BuildRet v)" for i c' g'
    by (rule wp_terminator [OF that(1)]) (use that in \<open>auto simp: targets_def intro!: exI leaves_closed\<close>)
  show "wp tot (\<lambda>n. emit_return L (rec n) x) (\<lambda>_ g'. \<exists>vs'. leaves tot L V K A (vs' # sc) ls g') g"
    unfolding emit_return_def
    apply (rule wp_bind, rule wp_advances [OF advances_defers g c])
     apply (simp add: defers_advance_def assms)
    apply (rule wp_option)
     apply (rule fin, assumption+, simp)
    apply (rule wp_bind, erule wp_advances [OF advances_value [OF assms]], assumption)
    apply (rule fin, assumption+, simp)
    done
qed

lemma flows_jump:
  assumes "\<And>e. advances tot L V (\<lambda>n. rec n e)" "sel = fst \<or> sel = snd"
  shows "flows tot L V (\<lambda>n. emit_jump L (rec n) sel)"
proof (rule flowsI)
  fix K A c vs sc ls and g :: "('a, 'b, 'c, 'd) lg"
  assume c: "c \<notin> A" and g: "stands tot L V K (insert c A) c (vs # sc) ls g"
  show "wp tot (\<lambda>n. emit_jump L (rec n) sel) (\<lambda>_ g'. \<exists>vs'. leaves tot L V K A (vs' # sc) ls g') g"
    unfolding emit_jump_def
  proof (rule wp_bind, rule wp_advances [OF advances_scope_defers g c], simp add: defers_advance_def assms, rule wp_get)
    fix c' g'
    assume c': "c' \<notin> A" and g': "stands tot L V K (insert c' A) c' (vs # sc) ls g'"
    then have ls: "loop_stack g' = ls" by (simp add: stands_def)
    show "wp tot (\<lambda>n. case loop_stack g' of [] \<Rightarrow> gret () | l # x \<Rightarrow> perform L (BuildBr (sel l)))
        (\<lambda>_ g'. \<exists>vs'. leaves tot L V K A (vs' # sc) ls g') g'"
    proof (cases ls)
      case Nil
      with ls c' g' show ?thesis by (auto intro!: wp_ret leaves_openI)
    next
      case (Cons l ls')
      have "wp tot (\<lambda>n. perform L (BuildBr (sel l))) (\<lambda>_ g'. \<exists>vs'. leaves tot L V K A (vs' # sc) ls g') g'"
        by (rule wp_terminator [OF g']) (use c' Cons assms(2) in \<open>auto simp: targets_def intro!: exI leaves_closed\<close>)
      with ls Cons show ?thesis by simp
    qed
  qed
qed

lemma wp_loop_body:
  assumes stmts: "\<And>s. s \<in> set (block_stmts blk) \<Longrightarrow> flows tot L V (\<lambda>n. stmt n s)" and rec: "\<And>e. advances tot L V (\<lambda>n. rec n e)"
    and g: "stands tot L V K X c sc ls g" "c \<in> X" and K: "brk \<in> K" "cont \<in> K"
    and Q: "\<And>X' c' k g'. stands tot L V K X' c' sc (drop k ls) g' \<Longrightarrow> X' - {c'} = X - {c} \<Longrightarrow> Q () g'"
  shows "wp tot (\<lambda>n. emit_loop_body L (rec n) (stmt n) brk cont blk) Q g"
proof -
  have fin: "wp tot (\<lambda>n. gbind (llg_emit_block L (rec n) (stmt n) blk) (\<lambda>_. gset (\<lambda>g. g\<lparr>loop_stack := tl (loop_stack g)\<rparr>))) Q g'"
    if g': "stands tot L V K X c sc ls' g'" and ls: "\<And>k. \<exists>k'. tl (drop k ls') = drop k' ls" for ls' g'
  proof (rule wp_bind, rule wp_body [OF stmts _ g' g(2)])
    show "defers_advance tot L V rec" by (simp add: defers_advance_def rec)
  next
    fix X' c' k g2
    assume g2: "stands tot L V K X' c' sc (drop k ls') g2" "X' - {c'} = X - {c}"
    from ls obtain k' where "tl (drop k ls') = drop k' ls" by blast
    with stands_pop_loop [OF g2(1)] g2(2) have "Q () (g2\<lparr>loop_stack := tl (loop_stack g2)\<rparr>)"
      by (intro Q [of X' c' k']) simp_all
    then show "wp tot (\<lambda>n. gset (\<lambda>g. g\<lparr>loop_stack := tl (loop_stack g)\<rparr>)) Q g2"
      by (rule wp_set)
  qed
  show ?thesis
    unfolding emit_loop_body_def
  proof (rule wp_bind, rule wp_set)
    show "wp tot (\<lambda>n. gbind (llg_emit_block L (rec n) (stmt n) blk) (\<lambda>_. gset (\<lambda>g. g\<lparr>loop_stack := tl (loop_stack g)\<rparr>))) Q
        (if length (loop_stack g) < 64 then g\<lparr>loop_stack := (brk, cont) # loop_stack g\<rparr> else g)"
    proof (cases "length (loop_stack g) < 64")
      case True
      have "stands tot L V K X c sc ((brk, cont) # ls) (g\<lparr>loop_stack := (brk, cont) # loop_stack g\<rparr>)"
        using g K by (auto simp: stands_def tame_def)
      moreover have "\<exists>k'. tl (drop k ((brk, cont) # ls)) = drop k' ls" for k
        by (auto simp: tl_drop)
      ultimately show ?thesis using True by (simp add: fin)
    next
      case False
      have "\<exists>k'. tl (drop k ls) = drop k' ls" for k
        by (metis drop_Suc tl_drop)
      with g(1) False show ?thesis by (simp add: fin)
    qed
  qed
qed

lemma flows_if:
  assumes rec: "\<And>e. advances tot L V (\<lambda>n. rec n e)"
    and t: "\<And>s. s \<in> set (block_stmts t) \<Longrightarrow> flows tot L V (\<lambda>n. stmt n s)"
    and e: "\<And>en s. e = Some en \<Longrightarrow> s \<in> set (case nas en of NODE_IF _ _ _ \<Rightarrow> [en] | _ \<Rightarrow> block_stmts en) \<Longrightarrow> flows tot L V (\<lambda>n. stmt n s)"
  shows "flows tot L V (\<lambda>n. emit_if L (rec n) (stmt n) x t e)"
proof (rule flowsI)
  fix K A c vs sc ls and g :: "('a, 'b, 'c, 'd) lg"
  assume c: "c \<notin> A" and g: "stands tot L V K (insert c A) c (vs # sc) ls g"
  have d: "defers_advance tot L V rec" by (simp add: defers_advance_def rec)
  have else_part: "wp tot (\<lambda>n. case e of None \<Rightarrow> gret () | Some en \<Rightarrow>
        (case nas en of NODE_IF _ _ _ \<Rightarrow> stmt n en | _ \<Rightarrow> llg_emit_block L (rec n) (stmt n) en)) Q g'"
    if "stands tot L V K' X c' (vs # sc) ls' g'" "c' \<in> X"
      and "\<And>X' c2 k vs' g'. stands tot L V K' X' c2 (vs' # sc) (drop k ls') g' \<Longrightarrow> X' - {c2} = X - {c'} \<Longrightarrow> Q () g'"
    for K' X c' ls' g' Q
  proof (cases e)
    case None
    then show ?thesis using that(1) by (auto intro!: wp_ret that(3) [where k = 0])
  next
    case (Some en)
    show ?thesis
    proof (cases "\<exists>y t' e'. nas en = NODE_IF y t' e'")
      case True
      with Some show ?thesis
        using wp_flows [OF that(1,2) e, of en en Q] that(3) by auto
    next
      case False
      then have *: "(case nas en of NODE_IF _ _ _ \<Rightarrow> stmt n en | _ \<Rightarrow> llg_emit_block L (rec n) (stmt n) en) =
          llg_emit_block L (rec n) (stmt n) en" for n
        by (auto split: node_as.splits)
      from False have "(case nas en of NODE_IF _ _ _ \<Rightarrow> [en] | _ \<Rightarrow> block_stmts en) = block_stmts en"
        by (auto split: node_as.splits)
      with Some e have "s \<in> set (block_stmts en) \<Longrightarrow> flows tot L V (\<lambda>n. stmt n s)" for s by auto
      then show ?thesis unfolding Some option.case *
        by (rule wp_body [OF _ d that(1,2)]) (auto intro: that(3))
    qed
  qed
  show "wp tot (\<lambda>n. emit_if L (rec n) (stmt n) x t e) (\<lambda>_ g'. \<exists>vs'. leaves tot L V K A (vs' # sc) ls g') g"
    unfolding emit_if_def
    apply (rule wp_bind, rule wp_advances [OF advances_value [OF rec] g c])
    apply (rule wp_bind, erule wp_block)
    apply (rule wp_bind, erule wp_block)
    apply (rule wp_bind, erule wp_block)
    apply (rule wp_bind, erule wp_terminator)
       apply (auto simp: targets_def) [3]
    apply (rule wp_bind, erule wp_goto, simp)
    apply (rule wp_bind, rule wp_body [OF t d], assumption+)
     apply blast
    apply (rule wp_bind, erule wp_branch, simp)
    apply (rule wp_bind, erule wp_goto, simp)
    apply (rule wp_bind, erule else_part)
     apply blast
    apply (rule wp_bind, erule wp_branch, simp)
    apply (erule wp_goto, simp)
    apply (rule exI, erule leavesI2)
     apply blast
    apply auto
    done
qed

subsection \<open>Loops\<close>

lemma flows_while:
  assumes rec: "\<And>e. advances tot L V (\<lambda>n. rec n e)"
    and body: "\<And>s. s \<in> set (block_stmts body) \<Longrightarrow> flows tot L V (\<lambda>n. stmt n s)"
  shows "flows tot L V (\<lambda>n. emit_while L (rec n) (stmt n) x body)"
proof (rule flowsI)
  fix K A c vs sc ls and g :: "('a, 'b, 'c, 'd) lg"
  assume c: "c \<notin> A" and g: "stands tot L V K (insert c A) c (vs # sc) ls g"
  show "wp tot (\<lambda>n. emit_while L (rec n) (stmt n) x body) (\<lambda>_ g'. \<exists>vs'. leaves tot L V K A (vs' # sc) ls g') g"
    unfolding emit_while_def
    apply (rule wp_bind, rule wp_block [OF g])
    apply (rule wp_bind, erule wp_block)
    apply (rule wp_bind, erule wp_block)
    apply (rule wp_bind, erule wp_terminator)
       apply (auto simp: targets_def) [3]
    apply (rule wp_bind, erule wp_goto, simp)
    apply (rule wp_bind, erule wp_advances_in)
      apply blast
     apply (rule advances_value [OF rec])
    apply (rule wp_bind, erule wp_terminator)
       apply (auto simp: targets_def) [3]
    apply (rule wp_bind, erule wp_goto, simp)
    apply (rule wp_bind, rule wp_loop_body [OF body rec], assumption+)
       apply blast
      apply simp
     apply simp
    apply (rule wp_bind, erule wp_branch, simp)
    apply (erule wp_goto, simp)
    apply (rule exI, erule leavesI)
     apply blast
    apply (use c in auto)
    done
qed

lemma flows_loop:
  assumes rec: "\<And>e. advances tot L V (\<lambda>n. rec n e)"
    and body: "\<And>s. s \<in> set (block_stmts body) \<Longrightarrow> flows tot L V (\<lambda>n. stmt n s)"
  shows "flows tot L V (\<lambda>n. emit_loop L (rec n) (stmt n) body)"
proof (rule flowsI)
  fix K A c vs sc ls and g :: "('a, 'b, 'c, 'd) lg"
  assume c: "c \<notin> A" and g: "stands tot L V K (insert c A) c (vs # sc) ls g"
  show "wp tot (\<lambda>n. emit_loop L (rec n) (stmt n) body) (\<lambda>_ g'. \<exists>vs'. leaves tot L V K A (vs' # sc) ls g') g"
    unfolding emit_loop_def
    apply (rule wp_bind, rule wp_block [OF g])
    apply (rule wp_bind, erule wp_block)
    apply (rule wp_bind, erule wp_terminator)
       apply (auto simp: targets_def) [3]
    apply (rule wp_bind, erule wp_goto, simp)
    apply (rule wp_bind, rule wp_loop_body [OF body rec], assumption+)
       apply blast
      apply simp
     apply simp
    apply (rule wp_bind, erule wp_branch, simp)
    apply (erule wp_goto, simp)
    apply (rule exI, erule leavesI)
     apply blast
    apply (use c in auto)
    done
qed

lemma flows_for:
  assumes rec: "\<And>e. advances tot L V (\<lambda>n. rec n e)"
    and init: "\<And>s. init = Some s \<Longrightarrow> proceeds tot L V (\<lambda>n. stmt n s)"
    and body: "\<And>s. s \<in> set (block_stmts body) \<Longrightarrow> flows tot L V (\<lambda>n. stmt n s)"
  shows "flows tot L V (\<lambda>n. emit_for L (rec n) (stmt n) init x post body)"
proof (rule flowsI)
  fix K A c vs sc ls and g :: "('a, 'b, 'c, 'd) lg"
  assume c: "c \<notin> A" and g: "stands tot L V K (insert c A) c (vs # sc) ls g"
  have start: "proceeds tot L V (\<lambda>n. case init of Some s \<Rightarrow> stmt n s | None \<Rightarrow> gret ())"
    using init by (cases init) (auto intro: proceeds_calm calm_ret)
  have test: "wp tot (\<lambda>n. case x of
        Some e \<Rightarrow> gbind (value_of (rec n e)) (\<lambda>cv. perform L (BuildCondBr cv b b'))
      | None \<Rightarrow> perform L (BuildBr b)) Q g'"
    if "stands tot L V K' X c' sc' ls g'" "c' \<in> X" "b \<in> K'" "b' \<in> K'"
      and "\<And>c2 g'. stands tot L V K' (X - {c'}) c2 sc' ls g' \<Longrightarrow> Q () g'"
    for K' X c' sc' g' b b' Q
    apply (rule wp_option)
     apply (rule wp_terminator [OF that(1,2)])
       apply (use that in \<open>auto simp: targets_def\<close>) [3]
    apply (rule wp_bind, rule wp_advances_in [OF that(1,2) advances_value [OF rec]])
    apply (erule wp_terminator)
       apply (use that in \<open>auto simp: targets_def\<close>) [3]
    apply (rule that(5), erule stands_as)
     apply auto
    done
  have step: "advances tot L V (\<lambda>n. case post of Some e \<Rightarrow> gbind (rec n e) (\<lambda>_. gret ()) | None \<Rightarrow> gret ())"
    by (intro advances_rules rec advances_calm [OF calm_ret])
  show "wp tot (\<lambda>n. emit_for L (rec n) (stmt n) init x post body) (\<lambda>_ g'. \<exists>vs'. leaves tot L V K A (vs' # sc) ls g') g"
    unfolding emit_for_def
    apply (rule wp_bind, rule wp_block [OF g])
    apply (rule wp_bind, erule wp_block)
    apply (rule wp_bind, erule wp_block)
    apply (rule wp_bind, erule wp_block)
    apply (rule wp_bind, erule wp_push)
    apply (rule wp_bind, erule wp_proceeds_in)
      apply blast
     apply (rule start)
    apply (rule wp_bind, erule wp_terminator)
       apply (auto simp: targets_def) [3]
    apply (rule wp_bind, erule wp_goto, simp)
    apply (rule wp_bind, erule test)
       apply blast
      apply simp
     apply simp
    apply (rule wp_bind, erule wp_goto, simp)
    apply (rule wp_bind, rule wp_loop_body [OF body rec], assumption+)
       apply blast
      apply simp
     apply simp
    apply (rule wp_bind, erule wp_branch, simp)
    apply (rule wp_bind, erule wp_goto, simp)
    apply (rule wp_bind, erule wp_advances_in)
      apply blast
     apply (rule step)
    apply (rule wp_bind, erule wp_terminator)
       apply (auto simp: targets_def) [3]
    apply (rule wp_bind, erule wp_pop)
    apply (erule wp_goto, simp)
    apply (rule exI, erule leavesI)
     apply blast
    apply (use c in auto)
    done
qed

end
