(* ===== verification/Gen_Bodies.thy ===== *)
theory Gen_Bodies
  imports Gen_Flow
begin

text \<open>Statements as a whole, and the bodies of functions.\<close>

subsection \<open>What is asked of statements\<close>

text \<open>
  The first clause of a \<^verbatim>\<open>for\<close> is a declaration or an expression, as the parser makes it; and, for
  termination, no deferred expression contains a \<^verbatim>\<open>?\<close>.
\<close>

definition simple_init :: "node \<Rightarrow> bool" where
  "simple_init s \<longleftrightarrow> (case nas s of NODE_LET _ _ _ \<Rightarrow> True | NODE_EXPR_STMT _ \<Rightarrow> True | _ \<Rightarrow> False)"

definition fit_node :: "bool \<Rightarrow> node \<Rightarrow> bool" where
  "fit_node tot s \<longleftrightarrow>
     (case nas s of
        NODE_DEFER x \<Rightarrow> tot \<longrightarrow> try_free x
      | NODE_FOR (Some init) _ _ _ \<Rightarrow> simple_init init
      | _ \<Rightarrow> True)"

definition else_stmts :: "node option \<Rightarrow> node list" where
  "else_stmts e =
     (case e of None \<Rightarrow> [] | Some en \<Rightarrow> (case nas en of NODE_IF _ _ _ \<Rightarrow> [en] | _ \<Rightarrow> block_stmts en))"

definition substmts :: "node \<Rightarrow> node list" where
  "substmts s =
     (case nas s of
        NODE_BLOCK ss \<Rightarrow> ss
      | NODE_IF _ t e \<Rightarrow> block_stmts t @ else_stmts e
      | NODE_WHILE _ b \<Rightarrow> block_stmts b
      | NODE_LOOP b \<Rightarrow> block_stmts b
      | NODE_UNSAFE b \<Rightarrow> block_stmts b
      | NODE_FOR _ _ _ b \<Rightarrow> block_stmts b
      | _ \<Rightarrow> [])"

lemma size_member: "x \<in> set xs \<Longrightarrow> size x \<le> size_list size xs"
  by (simp add: size_list_estimation')

lemma size_block_stmts: "s \<in> set (block_stmts b) \<Longrightarrow> size s < size b"
  by (cases b) (auto simp: block_stmts_def dest!: size_member split: node_as.splits)

lemma else_stmts_cases: "s \<in> set (else_stmts e) \<Longrightarrow> (\<And>en. e = Some en \<Longrightarrow> s = en \<or> s \<in> set (block_stmts en) \<Longrightarrow> P) \<Longrightarrow> P"
proof (cases e)
  case (Some en)
  moreover assume "s \<in> set (else_stmts e)" "\<And>en. e = Some en \<Longrightarrow> s = en \<or> s \<in> set (block_stmts en) \<Longrightarrow> P"
  ultimately show ?thesis by (cases "nas en") (auto simp: else_stmts_def)
qed (simp add: else_stmts_def)

lemma size_else_stmts: "s \<in> set (else_stmts e) \<Longrightarrow> size s < size_option size e"
  by (erule else_stmts_cases) (auto dest: size_block_stmts)

lemma size_substmts: "s \<in> set (substmts e) \<Longrightarrow> size s < size e"
proof (cases e)
  case (Node l c a)
  assume "s \<in> set (substmts e)"
  with Node show ?thesis
    by (cases a) (auto simp: substmts_def dest!: size_member size_block_stmts size_else_stmts)
qed

function fit_stmt :: "bool \<Rightarrow> node \<Rightarrow> bool" where
  "fit_stmt tot s \<longleftrightarrow> fit_node tot s \<and> list_all (fit_stmt tot) (substmts s)"
  by auto
termination
  by (relation "measure (size \<circ> snd)") (auto dest: size_substmts)

declare fit_stmt.simps [simp del]

lemma fit_stmt_sub: "fit_stmt tot s \<Longrightarrow> x \<in> set (substmts s) \<Longrightarrow> fit_stmt tot x"
  by (subst (asm) fit_stmt.simps) (auto simp: list_all_iff)

lemma fit_stmt_node: "fit_stmt tot s \<Longrightarrow> fit_node tot s"
  by (subst (asm) fit_stmt.simps) simp

subsection \<open>Statements\<close>

lemma proceeds_simple:
  assumes "simple_init s"
  shows "proceeds tot L V (\<lambda>n. llg_emit_stmt L n s)"
proof -
  have "proceeds tot L V (\<lambda>n. llg_emit_stmt L (Suc n) s)"
    using assms unfolding llg_emit_stmt.simps stmt_step_def simple_init_def
    by (cases "nas s") (auto intro!: proceeds_let proceeds_effect advances_expr)
  then show ?thesis
    unfolding proceeds_def by (auto intro: wp_Suc simp: gfail_def)
qed

lemma flows_step:
  assumes rec: "\<And>e. advances tot L V (\<lambda>n. rec n e)"
    and sub: "\<And>x. x \<in> set (substmts s) \<Longrightarrow> flows tot L V (\<lambda>n. stmt n x)"
    and init: "\<And>x. simple_init x \<Longrightarrow> proceeds tot L V (\<lambda>n. stmt n x)"
    and fit: "fit_node tot s"
  shows "flows tot L V (\<lambda>n. stmt_step L (rec n) (stmt n) n s)"
proof (cases "nas s")
  case (NODE_IF x t e)
  with sub show ?thesis
    by (auto simp: stmt_step_def substmts_def else_stmts_def intro!: flows_if rec)
next
  case (NODE_FOR i x post b)
  with sub init fit show ?thesis
    by (auto simp: stmt_step_def substmts_def fit_node_def intro!: flows_for rec)
next
  case (NODE_BLOCK ss)
  then have b: "block_stmts s = ss" by (simp add: block_stmts_def)
  have "flows tot L V (\<lambda>n. llg_emit_block L (rec n) (stmt n) s)"
    by (rule flowsI, rule wp_body [OF sub]) (use b NODE_BLOCK in \<open>auto simp: substmts_def defers_advance_def rec intro: leavesI\<close>)
  with NODE_BLOCK show ?thesis by (simp add: stmt_step_def)
qed (use sub fit in \<open>auto simp: stmt_step_def substmts_def fit_node_def intro!: flows_while flows_loop flows_return flows_jump
      flows_proceeds [OF proceeds_let] flows_proceeds [OF proceeds_const] flows_proceeds [OF proceeds_effect] flows_proceeds [OF proceeds_calm [OF calm_defer]]
      flows_proceeds [OF proceeds_calm [OF calm_ret]] rec\<close>)

lemma flows_partialI: "(\<And>n. flows False L V (\<lambda>_. m n)) \<Longrightarrow> flows False L V m"
  unfolding flows_def by (blast intro: wp_partialI)

lemma flows_partialD: "flows False L V m \<Longrightarrow> flows False L V (\<lambda>_. m n)"
  unfolding flows_def by (blast intro: wp_partialD)

lemma proceeds_partialD: "proceeds False L V m \<Longrightarrow> proceeds False L V (\<lambda>_. m n)"
  unfolding proceeds_def by (blast intro: wp_partialD)

lemma flows_stmt_partial: "fit_stmt False s \<Longrightarrow> flows False L V (\<lambda>_. llg_emit_stmt L n s)"
proof (induction n arbitrary: s)
  case 0
  show ?case using flows_proceeds [OF proceeds_calm [OF calm_too_deep]] by simp
next
  case (Suc n)
  have "flows False L V (\<lambda>k. stmt_step L (llg_emit_expr L n) (llg_emit_stmt L n) k s)"
    by (rule flows_step [where rec = "\<lambda>_. llg_emit_expr L n" and stmt = "\<lambda>_. llg_emit_stmt L n"])
      (use Suc in \<open>auto intro: advances_expr_partial proceeds_partialD [OF proceeds_simple] fit_stmt_sub fit_stmt_node\<close>)
  from flows_partialD [OF this, of n] show ?case by simp
qed

lemma flows_stmt_total: "fit_stmt True s \<Longrightarrow> flows True L V (\<lambda>n. llg_emit_stmt L n s)"
proof (induction s rule: measure_induct_rule [of size])
  case (less s)
  have "flows True L V (\<lambda>n. llg_emit_stmt L (Suc n) s)"
    unfolding llg_emit_stmt.simps
    by (rule flows_step)
      (use less size_substmts in \<open>auto intro: advances_expr proceeds_simple fit_stmt_sub fit_stmt_node\<close>)
  then show ?case
    unfolding flows_def by (auto intro: wp_Suc simp: gfail_def)
qed

lemma flows_stmt: "fit_stmt tot s \<Longrightarrow> flows tot L V (\<lambda>n. llg_emit_stmt L n s)"
  by (cases tot) (auto intro: flows_stmt_total flows_partialI flows_stmt_partial)

text \<open>A body, from an open block: the other open blocks stay open, and none is added except the current one.\<close>

definition fit_body :: "bool \<Rightarrow> node \<Rightarrow> bool" where
  "fit_body tot b \<longleftrightarrow> list_all (fit_stmt tot) (block_stmts b)"

lemma wp_emit_body:
  assumes "fit_body tot b" "stands tot L V K X c sc ls g" "c \<in> X"
    and "\<And>X' c' k g'. stands tot L V K X' c' sc (drop k ls) g' \<Longrightarrow> X' - {c'} = X - {c} \<Longrightarrow> Q () g'"
  shows "wp tot (\<lambda>n. emit_body L n b) Q g"
  unfolding emit_body_def
  by (rule wp_body [OF _ _ assms(2,3)]) (use assms in \<open>auto simp: fit_body_def list_all_iff flows_stmt\<close>)

end
