(* ===== verification/Gen_Restful.thy ===== *)
theory Gen_Restful
  imports Gen_Bodies
begin

text \<open>Between functions: the declarations and interfaces leave no block open.\<close>

subsection \<open>The state between functions\<close>

text \<open>The registries of templates and instances; \<open>p\<close> is what is known of them.\<close>

definition insts ::
  "('t, 'v, 'b, 'm) lg \<Rightarrow> node list \<times> (string \<times> node) list \<times> (string \<times> node) list \<times> fn_inst list \<times> struct_inst list" where
  "insts g = (lg_decls g, gfn_decls g, gst_decls g, gfn_insts g, gst_insts g)"

definition rests where
  "rests tot L V p X g \<longleftrightarrow>
     llvm_laws L V \<and> intact V (llvm_state g) \<and> open_blocks L V (llvm_state g) = X \<and> loop_stack g = [] \<and>
     (tot \<longrightarrow> tame g) \<and> p (insts g)"

definition restful where
  "restful tot L V p m \<longleftrightarrow> (\<forall>X g. rests tot L V p X g \<longrightarrow> wp tot m (\<lambda>_. rests tot L V p X) g)"

named_theorems restful_rules \<open>what leaves no block open\<close>

lemma restfulI: "(\<And>X g. rests tot L V p X g \<Longrightarrow> wp tot m (\<lambda>_. rests tot L V p X) g) \<Longrightarrow> restful tot L V p m"
  by (simp add: restful_def)

lemma wp_restful:
  assumes "rests tot L V p X g" "restful tot L V p m" "\<And>x g'. rests tot L V p X g' \<Longrightarrow> Q x g'"
  shows "wp tot m Q g"
proof (rule wp_mono)
  show "wp tot m (\<lambda>_. rests tot L V p X) g" using assms(1,2) by (simp add: restful_def)
qed (rule assms(3))

lemma restful_unmoved: "unmoved tot L V m \<Longrightarrow> restful tot L V p m"
  by (rule restfulI, erule wp_unmoved) (auto simp: rests_def untouched_def tame_def insts_def)

lemma restful_ret [restful_rules]: "restful tot L V p (\<lambda>n. gret x)"
  by (rule restfulI) (rule wp_ret)

lemma restful_fail [restful_rules]: "e \<noteq> TooDeep \<Longrightarrow> restful tot L V p (\<lambda>n. gfail e)"
  by (rule restfulI) (rule wp_fail)

lemma restful_bind [restful_rules]:
  "restful tot L V p m \<Longrightarrow> (\<And>x. restful tot L V p (\<lambda>n. f n x)) \<Longrightarrow> restful tot L V p (\<lambda>n. gbind (m n) (f n))"
  by (rule restfulI, rule wp_bind, erule wp_restful) (auto simp: restful_def)

lemma restful_get_known:
  "(\<And>g. p (insts g) \<Longrightarrow> restful tot L V p (\<lambda>n. f n (sel g))) \<Longrightarrow> restful tot L V p (\<lambda>n. gget sel (f n))"
  by (rule restfulI, rule wp_get) (simp add: restful_def rests_def)

lemma restful_get [restful_rules]: "(\<And>x. restful tot L V p (\<lambda>n. f n x)) \<Longrightarrow> restful tot L V p (\<lambda>n. gget sel (f n))"
  by (rule restful_get_known)

lemma restful_if [restful_rules]:
  "(b \<Longrightarrow> restful tot L V p m) \<Longrightarrow> (\<not> b \<Longrightarrow> restful tot L V p m') \<Longrightarrow> restful tot L V p (\<lambda>n. if b then m n else m' n)"
  by (cases b) simp_all

lemma restful_when [restful_rules]: "(b \<Longrightarrow> restful tot L V p m) \<Longrightarrow> restful tot L V p (\<lambda>n. gwhen b (m n))"
  by (cases b) (simp_all add: gwhen_def restful_ret)

lemma restful_option [restful_rules]:
  "(x = None \<Longrightarrow> restful tot L V p m) \<Longrightarrow> (\<And>y. x = Some y \<Longrightarrow> restful tot L V p (\<lambda>n. f n y)) \<Longrightarrow>
   restful tot L V p (\<lambda>n. case x of None \<Rightarrow> m n | Some y \<Rightarrow> f n y)"
  by (cases x) auto

lemma restful_prod [restful_rules]:
  "(\<And>a b. x = (a, b) \<Longrightarrow> restful tot L V p (\<lambda>n. f n a b)) \<Longrightarrow> restful tot L V p (\<lambda>n. case x of (a, b) \<Rightarrow> f n a b)"
  by (cases x) auto

lemma restful_list [restful_rules]:
  "(xs = [] \<Longrightarrow> restful tot L V p m) \<Longrightarrow> (\<And>y ys. xs = y # ys \<Longrightarrow> restful tot L V p (\<lambda>n. f n y ys)) \<Longrightarrow>
   restful tot L V p (\<lambda>n. case xs of [] \<Rightarrow> m n | y # ys \<Rightarrow> f n y ys)"
  by (cases xs) auto

lemma restful_iter [restful_rules]:
  "(\<And>x. x \<in> set xs \<Longrightarrow> restful tot L V p (\<lambda>n. f n x)) \<Longrightarrow> restful tot L V p (\<lambda>n. giter (f n) xs)"
  by (induction xs) (auto intro!: restful_ret restful_bind)

lemma restful_map [restful_rules]:
  "(\<And>x. x \<in> set xs \<Longrightarrow> restful tot L V p (\<lambda>n. f n x)) \<Longrightarrow> restful tot L V p (\<lambda>n. gmap (f n) xs)"
  by (induction xs) (auto intro!: restful_ret restful_bind)

lemma restful_each [restful_rules]:
  "(\<And>y. x = Some y \<Longrightarrow> restful tot L V p (\<lambda>n. f n y)) \<Longrightarrow> restful tot L V p (\<lambda>n. each_opt (f n) x)"
  unfolding each_opt_def by (intro restful_rules)

text \<open>An update of scopes, or of functions and types.\<close>

definition apart :: "(('t, 'v, 'b, 'm) lg \<Rightarrow> ('t, 'v, 'b, 'm) lg) \<Rightarrow> bool" where
  "apart f \<longleftrightarrow>
     (\<forall>g. llvm_state (f g) = llvm_state g \<and> loop_stack (f g) = loop_stack g \<and> insts (f g) = insts g \<and>
        (tame g \<longrightarrow> tame (f g)))"

lemma restful_set: "apart f \<Longrightarrow> restful tot L V p (\<lambda>n. gset f)"
  by (rule restfulI, rule wp_set) (simp add: rests_def apart_def)

lemma rests_do:
  assumes "rests tot L V p X g" "llvm_do L i (llvm_state g) = (v, m)" "well_placed L V i (llvm_state g)" "\<not> is_terminator i"
  shows "rests tot L V p X (g\<lparr>llvm_state := m\<rparr>)"
  using law_do(2,4) [OF _ assms(2,3)] assms(1,4) by (simp add: rests_def tame_def insts_def)

lemma restful_build [restful_rules]:
  assumes "is_outside i"
  shows "restful tot L V p (\<lambda>n. build L i)"
proof (rule restfulI)
  fix X and g :: "('a, 'b, 'c, 'd) lg"
  assume g: "rests tot L V p X g"
  obtain v m where d: "llvm_do L i (llvm_state g) = (v, m)" by (cases "llvm_do L i (llvm_state g)") auto
  have "\<not> is_terminator i" using assms by (cases i) (simp_all add: is_outside_def is_terminator_def)
  with rests_do [OF g d] assms have "rests tot L V p X (g\<lparr>llvm_state := m\<rparr>)" by (simp add: well_placed_def)
  then show "wp tot (\<lambda>n. build L i) (\<lambda>_. rests tot L V p X) g"
    by (intro wp_const [of "Inr (v, g\<lparr>llvm_state := m\<rparr>)"]) (simp_all add: build_def d)
qed

lemma restful_perform [restful_rules]: "is_outside i \<Longrightarrow> restful tot L V p (\<lambda>n. perform L i)"
  unfolding perform_def by (intro restful_rules)

subsection \<open>Declarations\<close>

lemma unmoved_payload_size [unmoved_rules]: "unmoved tot L V (\<lambda>n. payload_size L n fs off)"
  by (induction fs arbitrary: off) (auto intro!: unmoved_rules)

lemma unmoved_build_fn_type [unmoved_rules]: "unmoved tot L V (\<lambda>n. llg_build_fn_type L n self ps ret)"
  unfolding llg_build_fn_type_def ll_param_type_def by (intro unmoved_rules)

lemma unmoved_field_types [unmoved_rules]: "unmoved tot L V (\<lambda>n. field_types L n fs)"
  unfolding field_types_def by (intro unmoved_rules)

lemma restful_new_struct [restful_rules]: "restful tot L V p (\<lambda>n. gbind (new_struct L tname tys packed s) (\<lambda>_. gret ()))"
  by (intro restful_unmoved unmoved_rules)

lemma restful_unless_named [restful_rules]: "restful tot L V p m \<Longrightarrow> restful tot L V p (\<lambda>n. unless_named s (m n))"
  unfolding unless_named_def by (intro restful_rules)

lemma restful_unless_global [restful_rules]: "restful tot L V p m \<Longrightarrow> restful tot L V p (\<lambda>n. unless_global s (m n))"
  unfolding unless_global_def by (intro restful_rules)

lemma restful_setup [restful_rules]: "restful tot L V p (\<lambda>n. setup_decl L n d)"
proof -
  have "restful tot L V p (\<lambda>n. llg_setup_struct L n s fs packed)" for s fs packed
    unfolding llg_setup_struct_def by (intro restful_unless_named restful_unmoved unmoved_rules)
  moreover have "restful tot L V p (\<lambda>n. llg_setup_union L n s fs)" for s fs
    unfolding llg_setup_union_def by (intro restful_unless_named restful_unmoved unmoved_rules)
  moreover have "restful tot L V p (\<lambda>n. llg_setup_enum L n s vs)" for s vs
    unfolding llg_setup_enum_def by (intro restful_unless_named restful_unmoved unmoved_rules)
  ultimately show ?thesis
    by (cases "nas d") (auto simp: setup_decl_def intro!: restful_when restful_ret)
qed

lemma restful_add_global [restful_rules]: "restful tot L V p (\<lambda>n. lg_add_global s v ty ret)"
  unfolding lg_add_global_def by (intro restful_set) (auto simp: apart_def insts_def tame_def)

lemma restful_add_function [restful_rules]: "restful tot L V p (\<lambda>n. add_function L s ty ret ext)"
  unfolding add_function_def by (intro restful_rules) (simp_all add: is_outside_def)

lemma restful_symbol [restful_rules]: "restful tot L V p (\<lambda>n. fn_symbol owner s)"
  unfolding fn_symbol_def by (intro restful_rules) simp

lemma restful_declare_fn [restful_rules]: "restful tot L V p (\<lambda>n. llg_declare_fn L n d)"
proof -
  have "restful tot L V p (\<lambda>n. declare_as L n owner s ps ret ext)" for owner s ps ret ext
    unfolding declare_as_def by (intro restful_rules restful_unmoved [OF unmoved_build_fn_type])
  then show ?thesis
    by (cases "nas d") (simp_all add: llg_declare_fn_def restful_when restful_ret)
qed

lemma restful_declare [restful_rules]: "restful tot L V p (\<lambda>n. declare_decl L n d)"
  unfolding declare_decl_def by (intro restful_rules) (cases "nas d"; simp add: restful_ret restful_iter restful_declare_fn)

lemma restful_routine [restful_rules]: "restful tot L V p (\<lambda>n. declare_routine L r)"
  unfolding declare_routine_def by (intro restful_rules)

lemma restful_runtime [restful_rules]: "restful tot L V p (\<lambda>n. llg_declare_runtime L n)"
  unfolding llg_declare_runtime_def by (intro restful_rules restful_unmoved [OF unmoved_ns])

lemma restful_define [restful_rules]: "restful tot L V p (\<lambda>n. lg_define s v ty ns)"
  unfolding lg_define_def by (rule restful_set) (auto simp: apart_def insts_def tame_def split: list.splits)

lemma restful_comptime [restful_rules]: "restful tot L V p (\<lambda>n. llg_emit_comptime L n ds)"
proof -
  have "restful tot L V p (\<lambda>n. emit_constant L n c)" for c
  proof (cases "nas c")
    case (NODE_CONST s ty x)
    have "restful tot L V p (\<lambda>n. gbind (ll_or L n (int_type L 32) ns) (\<lambda>ll_ty.
          gbind (build L (AddGlobal ll_ty s)) (\<lambda>gv.
          gbind (perform L (SetInitializer gv (constant_value L ll_ty x))) (\<lambda>_.
          gbind (perform L (SetGlobalConstant gv)) (\<lambda>_.
          gbind (perform L (SetInternal gv)) (\<lambda>_.
          lg_define s gv ll_ty ns))))))" for ns
      by (intro restful_rules restful_unmoved [OF unmoved_ll_or]) (simp_all add: is_outside_def)
    with NODE_CONST show ?thesis by (auto simp: emit_constant_def intro: restful_get)
  qed (simp_all add: emit_constant_def restful_ret)
  then show ?thesis
    unfolding llg_emit_comptime_def by (intro restful_iter) (case_tac "nas x"; simp add: restful_ret restful_iter)
qed

subsection \<open>Interfaces\<close>

lemma restful_coercion [restful_rules]: "restful tot L V p (\<lambda>n. emit_coercion L s ty gvt)"
proof -
  define at where "at b X g \<longleftrightarrow> rests tot L V p X g \<and> builder_at V (llvm_state g) = Some b \<and> b \<in> X"
    for b X and g :: "('a, 'b, 'c, 'd) lg"
  have ins: "wp tot (\<lambda>n. build L i) Q g"
    if "at b X g" "\<not> is_terminator i" "targets i = []" "\<And>b. i \<noteq> PositionAtEnd b" "\<And>v g'. at b X g' \<Longrightarrow> Q v g'" for b X g i Q
  proof -
    obtain v m where d: "llvm_do L i (llvm_state g) = (v, m)" by (cases "llvm_do L i (llvm_state g)") auto
    have l: "llvm_laws L V" using that(1) by (simp add: at_def rests_def)
    have w: "well_placed L V i (llvm_state g)" using that by (auto simp: well_placed_def at_def rests_def)
    with rests_do [OF _ d] that have "rests tot L V p X (g\<lparr>llvm_state := m\<rparr>)" by (simp add: at_def)
    moreover have "builder_at V m = builder_at V (llvm_state g)" using law_do(3) [OF l d w] that(4) by (cases i) auto
    ultimately have "at b X (g\<lparr>llvm_state := m\<rparr>)" using that(1) by (simp add: at_def)
    then show ?thesis by (intro wp_const [of "Inr (v, g\<lparr>llvm_state := m\<rparr>)"]) (simp_all add: build_def d that(5))
  qed
  have ret: "wp tot (\<lambda>n. perform L (BuildRet v)) (\<lambda>_. rests tot L V p (X - {b})) g" if "at b X g" for b X g v
  proof -
    obtain w m where d: "llvm_do L (BuildRet v) (llvm_state g) = (w, m)" by (cases "llvm_do L (BuildRet v) (llvm_state g)") auto
    have l: "llvm_laws L V" using that by (simp add: at_def rests_def)
    have w: "well_placed L V (BuildRet v) (llvm_state g)" using that by (auto simp: well_placed_def at_def rests_def targets_def)
    have "{x \<in> X. b \<noteq> x} = X - {b}" by auto
    then have "rests tot L V p (X - {b}) (g\<lparr>llvm_state := m\<rparr>)"
      using law_do(2,4) [OF l d w] that by (simp add: at_def rests_def tame_def insts_def)
    with d show ?thesis
      by (intro wp_const [of "Inr ((), g\<lparr>llvm_state := m\<rparr>)"]) (simp_all add: perform_def gbind_def build_def gret_def)
  qed
  have enter: "wp tot (\<lambda>n g. let (b, m) = append_block L (Some f) ''entry'' (llvm_state g) in Inr (b, g\<lparr>llvm_state := m\<rparr>))
      (\<lambda>b. wp tot (\<lambda>n. perform L (PositionAtEnd b)) (\<lambda>_ g'. b \<notin> X \<and> at b (insert b X) g')) g"
    if g: "rests tot L V p X g" for X g f
  proof -
    obtain b m where a: "append_block L (Some f) ''entry'' (llvm_state g) = (b, m)"
      by (cases "append_block L (Some f) ''entry'' (llvm_state g)") auto
    obtain v m' where d: "llvm_do L (PositionAtEnd b) m = (v, m')" by (cases "llvm_do L (PositionAtEnd b) m") auto
    have l: "llvm_laws L V" using g by (simp add: rests_def)
    have "rests tot L V p (insert b X) (g\<lparr>llvm_state := m\<rparr>)"
      using law_append [OF l a] g by (simp add: rests_def tame_def insts_def)
    from rests_do [OF this, of "PositionAtEnd b" v m'] d
    have "rests tot L V p (insert b X) (g\<lparr>llvm_state := m'\<rparr>)"
      by (simp add: well_placed_def is_outside_def)
    moreover have "b \<notin> X" using law_append(1) [OF l a] g by (auto simp: rests_def open_blocks_def)
    moreover have "builder_at V m' = Some b" using law_do(3) [OF l d] by (simp add: well_placed_def is_outside_def)
    ultimately have "b \<notin> X \<and> at b (insert b X) (g\<lparr>llvm_state := m'\<rparr>)" by (simp add: at_def)
    then have "wp tot (\<lambda>n. perform L (PositionAtEnd b)) (\<lambda>_ g'. b \<notin> X \<and> at b (insert b X) g') (g\<lparr>llvm_state := m\<rparr>)"
      by (intro wp_const [of "Inr ((), g\<lparr>llvm_state := m'\<rparr>)"]) (simp_all add: perform_def gbind_def build_def gret_def d)
    with a show ?thesis by (intro wp_const [of "Inr (b, g\<lparr>llvm_state := m\<rparr>)"]) simp_all
  qed
  show ?thesis
    unfolding emit_coercion_def
  proof (rule restfulI, rule wp_bind, rule wp_restful, assumption, rule restful_rules, rule wp_bind)
    fix X f and g :: "('a, 'b, 'c, 'd) lg"
    assume "rests tot L V p X g"
    from enter [OF this]
    show "wp tot (\<lambda>n g. let (b, m) = append_block L (Some f) ''entry'' (llvm_state g) in Inr (b, g\<lparr>llvm_state := m\<rparr>))
        (\<lambda>entry. wp tot (\<lambda>n. gbind (perform L (PositionAtEnd entry)) (\<lambda>_.
           gbind (build L (BuildInsertValue (undef_value L ty) (get_param L f 0) 0 ''fat.data'')) (\<lambda>fat.
           gbind (build L (BuildInsertValue fat gvt 1 ''fat.vtable'')) (\<lambda>fat.
           perform L (BuildRet fat))))) (\<lambda>_. rests tot L V p X)) g"
    proof (rule wp_mono)
      fix b g'
      assume p: "wp tot (\<lambda>n. perform L (PositionAtEnd b)) (\<lambda>_ g'. b \<notin> X \<and> at b (insert b X) g') g'"
      have fin: "wp tot (\<lambda>n. perform L (BuildRet v)) (\<lambda>_. rests tot L V p X) g2" if "b \<notin> X" "at b (insert b X) g2" for v g2
        using ret [OF that(2), of v] that(1) by simp
      show "wp tot (\<lambda>n. gbind (perform L (PositionAtEnd b)) (\<lambda>_.
           gbind (build L (BuildInsertValue (undef_value L ty) (get_param L f 0) 0 ''fat.data'')) (\<lambda>fat.
           gbind (build L (BuildInsertValue fat gvt 1 ''fat.vtable'')) (\<lambda>fat.
           perform L (BuildRet fat))))) (\<lambda>_. rests tot L V p X) g'"
        apply (rule wp_bind, rule wp_mono [OF p], elim conjE)
        apply (rule wp_bind, erule ins, simp, simp add: targets_def, simp)
        apply (rule wp_bind, erule ins, simp, simp add: targets_def, simp)
        apply (erule (1) fin)
        done
    qed
  qed
qed

lemma restful_interfaces [restful_rules]: "restful tot L V p (\<lambda>n. llg_setup_interfaces L ds)"
proof -
  have "restful tot L V p (\<lambda>n. setup_interface L d)" for d
    by (cases "nas d") (auto simp: setup_interface_def intro!: restful_rules)
  moreover have "restful tot L V p (\<lambda>n. setup_impl L d)" for d
  proof -
    have "restful tot L V p (\<lambda>n. emit_vtable L target iname ms ty)" for target iname ms ty
      unfolding emit_vtable_def by (intro restful_rules) (simp_all add: is_outside_def)
    then show ?thesis
      by (cases "nas d") (auto simp: setup_impl_def Let_def intro!: restful_rules split: option.split)
  qed
  ultimately show ?thesis
    unfolding llg_setup_interfaces_def by (intro restful_bind restful_iter)
qed

end
