(* ===== verification/Gen_Functions.thy ===== *)
theory Gen_Functions
  imports Gen_Restful
begin

text \<open>Templates and the scan for instances: what is registered comes from the program.\<close>

definition known ::
  "bool \<Rightarrow> node list \<Rightarrow>
   node list \<times> (string \<times> node) list \<times> (string \<times> node) list \<times> fn_inst list \<times> struct_inst list \<Rightarrow> bool" where
  "known tot ds r \<longleftrightarrow>
     (case r of (ds', gf, gs, fi, si) \<Rightarrow>
        ds' = ds \<and> snd ` set gf \<subseteq> set ds \<and> fi_decl ` set fi \<subseteq> set ds \<and>
        (tot \<longrightarrow> gf = [] \<and> gs = [] \<and> fi = [] \<and> si = []))"

lemma restful_set_known:
  assumes "\<And>g. p (insts g) \<Longrightarrow> llvm_state (f g) = llvm_state g \<and> loop_stack (f g) = loop_stack g \<and> p (insts (f g)) \<and>
      (tot \<longrightarrow> tame g \<longrightarrow> tame (f g))"
  shows "restful tot L V p (\<lambda>n. gset f)"
  by (rule restfulI, rule wp_set) (use assms in \<open>auto simp: rests_def\<close>)

lemma restful_template [restful_rules]:
  assumes "d \<in> set ds" "tot \<Longrightarrow> no_generics ds"
  shows "restful tot L V (known tot ds) (\<lambda>n. collect_template d)"
proof (cases "nas d")
  case (NODE_FN_DECL s ow a tps ps ret body pub)
  have "tps = []" if tot
    using assms that NODE_FN_DECL by (auto simp: no_generics_def template_params_def)
  with NODE_FN_DECL assms(1) show ?thesis
    by (auto simp: collect_template_def known_def insts_def tame_def intro!: restful_set_known)
next
  case (NODE_STRUCT_DECL s a tps fs b packed)
  have "tps = []" if tot
    using assms that NODE_STRUCT_DECL by (auto simp: no_generics_def struct_type_params_def)
  with NODE_STRUCT_DECL show ?thesis
    by (auto simp: collect_template_def known_def insts_def tame_def intro!: restful_set_known)
qed (simp_all add: collect_template_def restful_ret)

lemma restful_type_name [restful_rules]: "restful tot L V (known tot ds) (\<lambda>n. scan_type_name s :: ('f, 'g, 'h, 'd, unit) gen)"
  unfolding scan_type_name_def
proof (rule restful_get_known)
  fix g :: "('f, 'g, 'h, 'd) lg"
  assume k: "known tot ds (insts g)"
  show "restful tot L V (known tot ds) (\<lambda>n. case List.find (\<lambda>(t, _). lg_type_form s t) (gst_decls g) of
      None \<Rightarrow> gret ()
    | Some (_, decl) \<Rightarrow> (case lg_extract_inner s of None \<Rightarrow> gret () | Some inner \<Rightarrow> lg_gst_find_or_add decl s inner))"
  proof (intro restful_option restful_prod restful_ret)
    fix r t decl inner
    assume "List.find (\<lambda>(t, _). lg_type_form s t) (gst_decls g) = Some r"
    then have "gst_decls g \<noteq> []" by auto
    with k have "\<not> tot" by (auto simp: known_def insts_def)
    then show "restful tot L V (known tot ds) (\<lambda>n. lg_gst_find_or_add decl s inner)"
      unfolding lg_gst_find_or_add_def
      by (intro restful_set_known) (auto simp: known_def insts_def tame_def)
  qed
qed

lemma restful_scan_type [restful_rules]: "restful tot L V (known tot ds) (\<lambda>n. llg_prescan_type t)"
  by (induction t rule: llg_prescan_type.induct) (simp_all add: restful_type_name restful_ret)

lemma restful_scan_call [restful_rules]: "restful tot L V (known tot ds) (\<lambda>n. scan_call f :: ('f, 'g, 'h, 'd, unit) gen)"
proof (cases "nas f")
  case (NODE_INDEX x ta)
  have "restful tot L V (known tot ds) (\<lambda>n. gget (\<lambda>g :: ('f, 'g, 'h, 'd) lg. map_of (gfn_decls g) s) (\<lambda>r. case (r, call_type_arg ta) of
      (Some decl, Some t) \<Rightarrow> lg_gfn_find_or_add decl s t
    | _ \<Rightarrow> gret ()))" for s
  proof (rule restful_get_known)
    fix g :: "('f, 'g, 'h, 'd) lg"
    assume k: "known tot ds (insts g)"
    show "restful tot L V (known tot ds) (\<lambda>n. case (map_of (gfn_decls g) s, call_type_arg ta) of
        (Some decl, Some t) \<Rightarrow> lg_gfn_find_or_add decl s t
      | _ \<Rightarrow> gret ())"
    proof (cases "map_of (gfn_decls g) s")
      case (Some decl)
      then have m: "(s, decl) \<in> set (gfn_decls g)" by (rule map_of_SomeD)
      with k have "decl \<in> set ds" by (force simp: known_def insts_def)
      moreover have "\<not> tot" using k m by (auto simp: known_def insts_def)
      ultimately have "restful tot L V (known tot ds) (\<lambda>n. lg_gfn_find_or_add decl s t)" for t
        unfolding lg_gfn_find_or_add_def Let_def
        by (intro restful_set_known) (auto simp: known_def insts_def tame_def)
      with Some show ?thesis by (cases "call_type_arg ta") (auto simp: restful_ret)
    qed (simp add: restful_ret)
  qed
  with NODE_INDEX show ?thesis
    by (auto simp: scan_call_def intro!: restful_ret split: option.split)
qed (simp_all add: scan_call_def restful_ret)

lemma restful_scan_expr [restful_rules]: "restful tot L V (known tot ds) (\<lambda>n. llg_prescan_expr e)"
proof (induction e rule: measure_induct_rule [of size])
  case (less e)
  obtain l c a where e: "e = Node l c a" by (cases e)
  from less show ?case unfolding e
    by (cases a) (auto simp del: giter.simps intro!: restful_bind restful_iter restful_scan_call restful_ret dest!: size_member)
qed

lemma restful_scan_stmt [restful_rules]: "restful tot L V (known tot ds) (\<lambda>n. llg_prescan_stmt s)"
proof (induction s rule: measure_induct_rule [of size])
  case (less s)
  obtain l c a where s: "s = Node l c a" by (cases s)
  from less show ?case unfolding s
    by (cases a) (auto intro!: restful_bind restful_iter restful_each restful_scan_expr restful_scan_type restful_ret dest!: size_member)
qed

lemma restful_scan_decl [restful_rules]: "restful tot L V (known tot ds) (\<lambda>n. scan_decl d)"
  by (cases "nas d") (auto simp: scan_decl_def intro!: restful_rules)

lemma restful_declare_all [restful_rules]:
  "(tot \<Longrightarrow> no_generics ds) \<Longrightarrow> restful tot L V (known tot ds) (\<lambda>n. declare_all L n ds)"
  unfolding declare_all_def
  by (intro restful_bind restful_iter restful_template restful_setup restful_scan_decl restful_runtime restful_declare
      restful_unmoved [OF unmoved_ns]) simp_all

lemma restful_push [restful_rules]: "restful tot L V p (\<lambda>n. lg_push_scope)"
  unfolding lg_push_scope_def by (rule restful_set) (simp add: apart_def insts_def tame_def)

lemma restful_pop [restful_rules]: "restful tot L V p (\<lambda>n. lg_pop_scope)"
  unfolding lg_pop_scope_def by (rule restful_set) (simp add: apart_def insts_def tame_def)

text \<open>Functions, instances and handlers as a whole; then the module.\<close>

subsection \<open>Into a function and out of it\<close>

abbreviation anything :: "'a \<Rightarrow> bool" where
  "anything \<equiv> \<lambda>_. True"

lemma wp_enter:
  assumes "rests tot L V p X g" "\<And>b g'. b \<notin> X \<Longrightarrow> stands tot L V {} (insert b X) b (scope_chain g) [] g' \<Longrightarrow> Q () g'"
  shows "wp tot (\<lambda>n. enter_function L f) Q g"
proof -
  obtain b m where a: "append_block L (Some f) ''entry'' (llvm_state g) = (b, m)"
    by (cases "append_block L (Some f) ''entry'' (llvm_state g)") auto
  obtain v m' where d: "llvm_do L (PositionAtEnd b) m = (v, m')" by (cases "llvm_do L (PositionAtEnd b) m") auto
  have l: "llvm_laws L V" using assms(1) by (simp add: rests_def)
  let ?g = "g\<lparr>cur_fn := Some f, cur_bb := Some b, llvm_state := m'\<rparr>"
  have "stands tot L V {} (insert b X) b (scope_chain g) [] ?g"
    using law_append [OF l a] law_do [OF l d] assms(1)
    by (auto simp: stands_def rests_def tame_def is_terminator_def well_placed_def is_outside_def)
  moreover have "b \<notin> X" using law_append(1) [OF l a] assms(1) by (auto simp: rests_def open_blocks_def)
  ultimately have "Q () ?g" by (intro assms(2))
  with a d show ?thesis
    by (intro wp_const [of "Inr ((), ?g)"])
      (simp_all add: enter_function_def fresh_block_def goto_block_def perform_def gbind_def build_def gret_def gset_def)
qed

lemma rests_stands: "stands tot L V K X c sc [] g \<Longrightarrow> rests tot L V anything X g"
  by (simp add: stands_def rests_def)

lemma rests_any: "rests tot L V p X g \<Longrightarrow> rests tot L V anything X g"
  by (simp add: rests_def)

text \<open>The last block is ended if the body did not.\<close>

lemma wp_end:
  assumes "stands tot L V K X' c sc [] g" "X' - {c} = X"
    and "is_terminator i" "targets i = []" "\<And>g'. rests tot L V anything X g' \<Longrightarrow> Q () g'"
  shows "wp tot (\<lambda>n. gget (block_ended L) (\<lambda>e. gwhen (\<not> e) (perform L i))) Q g"
proof (intro wp_get wp_when)
  assume "\<not> block_ended L g"
  with assms(1) have "c \<in> X'" by (auto simp: block_ended_def stands_def open_blocks_def)
  with assms show "wp tot (\<lambda>n. perform L i) Q g"
    by (intro wp_terminator [OF assms(1)]) (auto dest: rests_stands)
next
  assume "\<not> \<not> block_ended L g"
  with assms(1) have "c \<notin> X'" by (auto simp: block_ended_def stands_def open_blocks_def)
  with assms show "Q () g" by (auto dest: rests_stands)
qed

lemma wp_close:
  assumes "stands tot L V K X' c sc [] g" "X' - {c} = X" "\<And>g'. rests tot L V anything X g' \<Longrightarrow> Q () g'"
  shows "wp tot (\<lambda>n. close_function L ty) Q g"
proof (cases "kind_of L (return_type L ty) = VoidTypeKind")
  case True
  with wp_end [OF assms(1,2), of BuildRetVoid] assms(3) show ?thesis
    by (simp add: close_function_def is_terminator_def targets_def)
next
  case False
  with wp_end [OF assms(1,2), of "BuildRet (const_null L (return_type L ty))"] assms(3) show ?thesis
    by (simp add: close_function_def is_terminator_def targets_def)
qed

lemma binds_param: "binds tot L V (\<lambda>n. bind_param L f p)"
  unfolding bind_param_def
  by (intro binds_prod binds_bind binds_define) (intro binds_calm calm_rules; simp add: is_terminator_def)+

text \<open>From the entry of a function to its end: parameters and body, in a scope of their own.\<close>

lemma wp_frame:
  assumes "stands tot L V {} (insert b X) b sc [] g" "b \<notin> X" "\<forall>x. body = Some x \<longrightarrow> fit_body tot x"
    and "\<And>X' c g'. stands tot L V {} X' c sc [] g' \<Longrightarrow> X' - {c} = X \<Longrightarrow> wp tot fin Q g'"
  shows "wp tot (\<lambda>n. gbind lg_push_scope (\<lambda>_. gbind (giter (bind_param L f) ps) (\<lambda>_.
      gbind (each_opt (emit_body L n) body) (\<lambda>_. gbind lg_pop_scope (\<lambda>_. fin n))))) Q g"
proof (rule wp_bind, rule wp_push [OF assms(1)], rule wp_bind)
  fix g1
  assume g1: "stands tot L V {} (insert b X) b ([] # sc) [] g1"
  show "wp tot (\<lambda>n. giter (bind_param L f) ps) (\<lambda>_. wp tot (\<lambda>n. gbind (each_opt (emit_body L n) body)
      (\<lambda>_. gbind lg_pop_scope (\<lambda>_. fin n))) Q) g1"
  proof (rule wp_binds [OF g1 _ binds_iter [OF binds_param]])
    fix vs g2
    assume g2: "stands tot L V {} (insert b X) b (vs # sc) [] g2"
    have pop: "wp tot (\<lambda>n. gbind lg_pop_scope (\<lambda>_. fin n)) Q g3"
      if "stands tot L V {} X' c (vs # sc) [] g3" "X' - {c} = X" for X' c g3
      by (rule wp_bind, rule wp_pop [OF that(1)]) (use assms(4) that(2) in blast)
    show "wp tot (\<lambda>n. gbind (each_opt (emit_body L n) body) (\<lambda>_. gbind lg_pop_scope (\<lambda>_. fin n))) Q g2"
    proof (rule wp_bind, cases body)
      case None
      with pop [OF g2] assms(2) show "wp tot (\<lambda>n. each_opt (emit_body L n) body) (\<lambda>_. wp tot (\<lambda>n. gbind lg_pop_scope (\<lambda>_. fin n)) Q) g2"
        by (auto simp: each_opt_def intro: wp_ret)
    next
      case (Some x)
      have "wp tot (\<lambda>n. emit_body L n x) (\<lambda>_. wp tot (\<lambda>n. gbind lg_pop_scope (\<lambda>_. fin n)) Q) g2"
        by (rule wp_emit_body [OF _ g2]) (use assms(2,3) Some pop in auto)
      with Some show "wp tot (\<lambda>n. each_opt (emit_body L n) body) (\<lambda>_. wp tot (\<lambda>n. gbind lg_pop_scope (\<lambda>_. fin n)) Q) g2"
        by (simp add: each_opt_def)
    qed
  qed simp
qed

lemma restful_cur_fn: "apart (\<lambda>g. g\<lparr>cur_fn := f\<rparr>)"
  by (simp add: apart_def insts_def tame_def)

lemma restful_fn_as [restful_rules]:
  assumes "fit_body tot body"
  shows "restful tot L V anything (\<lambda>n. emit_fn_as L n ps ret body gl)"
  unfolding emit_fn_as_def
proof (rule restful_bind, rule restful_set, simp add: apart_def insts_def tame_def, rule restfulI)
  fix X and g :: "('a, 'b, 'c, 'd) lg"
  assume g: "rests tot L V anything X g"
  have fin: "wp tot (\<lambda>n. gbind (close_function L (gl_type gl)) (\<lambda>_. gset (\<lambda>g. g\<lparr>cur_fn := None\<rparr>)))
      (\<lambda>_. rests tot L V anything X) g'"
    if "stands tot L V {} X' c sc [] g'" "X' - {c} = X" for X' c sc and g' :: "('a, 'b, 'c, 'd) lg"
    by (rule wp_bind, rule wp_close [OF that], erule wp_restful [OF _ restful_set [OF restful_cur_fn]])
  show "wp tot (\<lambda>n. gbind (enter_function L (gl_value gl)) (\<lambda>_. gbind lg_push_scope (\<lambda>_.
      gbind (giter (bind_param L (gl_value gl)) (param_slots ps (param_types L (gl_type gl)))) (\<lambda>_.
      gbind (emit_body L n body) (\<lambda>_. gbind lg_pop_scope (\<lambda>_. gbind (close_function L (gl_type gl)) (\<lambda>_.
      gset (\<lambda>g. g\<lparr>cur_fn := None\<rparr>)))))))) (\<lambda>_. rests tot L V anything X) g"
    by (rule wp_bind, rule wp_enter [OF g], rule wp_frame [where body = "Some body", unfolded each_opt_def option.case])
      (use assms fin in auto)
qed

lemma restful_emit_fn [restful_rules]:
  assumes "\<forall>b. fn_body d = Some b \<longrightarrow> fit_body tot b"
  shows "restful tot L V anything (\<lambda>n. llg_emit_fn L n d)"
proof (cases "nas d")
  case (NODE_FN_DECL s ow a tps ps ret body pub)
  with assms show ?thesis
    by (cases body) (auto simp: llg_emit_fn_def fn_body_def intro!: restful_rules)
qed (simp_all add: llg_emit_fn_def restful_ret)

subsection \<open>Instances\<close>

lemma restful_subst_first: "restful False L V anything (\<lambda>n. subst_first tps t)"
  unfolding subst_first_def set_subst_def
  by (intro restful_list restful_ret restful_set_known) simp

lemma restful_end_subst: "restful False L V anything (\<lambda>n. end_subst)"
  unfolding end_subst_def by (rule restful_set_known) simp

lemma restful_instance:
  assumes "\<forall>b. fn_body (fi_decl i) = Some b \<longrightarrow> fit_body False b"
  shows "restful False L V anything (\<lambda>n. emit_instance L n i)"
  unfolding emit_instance_def Let_def
proof (rule restful_bind, rule restful_subst_first, rule restful_bind, rule restful_unmoved [OF unmoved_build_fn_type],
    rule restful_bind, rule restful_add_function, rule restful_bind, rule restful_set, simp add: apart_def insts_def tame_def, rule restfulI)
  fix ty f X and g :: "('a, 'b, 'c, 'd) lg"
  assume g: "rests False L V anything X g"
  have fin: "wp False (\<lambda>n. gbind (close_function L ty) (\<lambda>_. gbind (gset (\<lambda>g. g\<lparr>cur_fn := None\<rparr>)) (\<lambda>_. end_subst)))
      (\<lambda>_. rests False L V anything X) g'"
    if "stands False L V {} X' c sc [] g'" "X' - {c} = X" for X' c sc and g' :: "('a, 'b, 'c, 'd) lg"
    by (rule wp_bind, rule wp_close [OF that], rule wp_bind, erule wp_restful [OF _ restful_set [OF restful_cur_fn]],
        erule wp_restful [OF _ restful_end_subst])
  show "wp False (\<lambda>n. gbind (enter_function L f) (\<lambda>_. gbind lg_push_scope (\<lambda>_. gbind (giter (bind_param L f)
      (map (\<lambda>(j, p). (j, let_name p, type_of L (get_param L f j), let_type p)) (enumerate 0 (fn_params (fi_decl i))))) (\<lambda>_.
      gbind (opt_body L n (fn_body (fi_decl i))) (\<lambda>_. gbind lg_pop_scope (\<lambda>_. gbind (close_function L ty) (\<lambda>_.
      gbind (gset (\<lambda>g. g\<lparr>cur_fn := None\<rparr>)) (\<lambda>_. end_subst)))))))) (\<lambda>_. rests False L V anything X) g"
    unfolding opt_body_def
    by (rule wp_bind, rule wp_enter [OF g], rule wp_frame) (use assms fin in auto)
qed

lemma restful_instance_struct: "restful False L V anything (\<lambda>n. instance_struct L n i)"
  unfolding instance_struct_def
  by (intro restful_unless_named restful_bind restful_subst_first restful_end_subst restful_unmoved [OF unmoved_field_types]
      restful_unmoved [OF unmoved_new_struct] restful_unmoved [OF unmoved_register])

text \<open>In a program without generics there are no instances.\<close>

lemma wp_instantiate:
  assumes "rests tot L V (known tot ds) X g" "\<And>d b. d \<in> set ds \<Longrightarrow> fn_body d = Some b \<Longrightarrow> fit_body tot b"
    and "\<And>x g'. rests tot L V anything X g' \<Longrightarrow> Q x g'"
  shows "wp tot (\<lambda>n. llg_instantiate_generics L n) Q g"
proof (cases tot)
  case True
  with assms(1) have "gfn_insts g = []" "gst_insts g = []" by (simp_all add: rests_def known_def insts_def)
  then show ?thesis
    by (intro wp_const [of "Inr ((), g)"])
      (simp_all add: llg_instantiate_generics_def gget_def gbind_def gret_def assms(3) [OF rests_any [OF assms(1)]])
next
  case False
  have i: "fi_decl i \<in> set ds" if "i \<in> set (gfn_insts g)" for i
    using assms(1) that by (auto simp: rests_def known_def insts_def)
  have "restful False L V anything (\<lambda>n. gbind (giter (instance_fn L n) (gfn_insts g))
      (\<lambda>_. gget gst_insts (\<lambda>ss. giter (instance_struct L n) ss)))"
    unfolding instance_fn_def
    by (intro restful_bind restful_iter restful_get restful_unless_global restful_instance restful_instance_struct)
      (use assms(2) i False in auto)
  with False have "restful tot L V anything (\<lambda>n. gbind (giter (instance_fn L n) (gfn_insts g))
      (\<lambda>_. gget gst_insts (\<lambda>ss. giter (instance_struct L n) ss)))" by simp
  then have "wp tot (\<lambda>n. gbind (giter (instance_fn L n) (gfn_insts g))
      (\<lambda>_. gget gst_insts (\<lambda>ss. giter (instance_struct L n) ss))) Q g"
    by (rule wp_restful [OF rests_any [OF assms(1)] _ assms(3)])
  then show ?thesis
    unfolding llg_instantiate_generics_def by (rule wp_get)
qed

subsection \<open>Handlers\<close>

lemma restful_handler [restful_rules]:
  assumes "fit_body tot body"
  shows "restful tot L V anything (\<lambda>n. llg_ui_emit_handler L n i k body)"
  unfolding llg_ui_emit_handler_def Let_def
proof (rule restful_bind, rule restful_build, simp add: is_outside_def, rule restful_get, rule restful_prod, rule restfulI)
  fix f X ret and fn :: "'b option" and g :: "('a, 'b, 'c, 'd) lg"
  assume g: "rests tot L V anything X g"
  have calm: "calm tot L V (\<lambda>n. gset (\<lambda>g. g\<lparr>cur_ret_ty := None\<rparr>))"
    by (rule calm_set) (simp add: unnoticed_def)
  have last: "restful tot L V anything (\<lambda>n. gset (\<lambda>g. g\<lparr>cur_fn := fn, cur_ret_ty := ret\<rparr>))"
    by (rule restful_set) (simp add: apart_def insts_def tame_def)
  have fin: "wp tot (\<lambda>n. gbind (gget (block_ended L) (\<lambda>e. gwhen (\<not> e) (perform L BuildRetVoid)))
      (\<lambda>_. gset (\<lambda>g. g\<lparr>cur_fn := fn, cur_ret_ty := ret\<rparr>))) (\<lambda>_. rests tot L V anything X) g'"
    if "stands tot L V {} X' c sc [] g'" "X' - {c} = X" for X' c sc and g' :: "('a, 'b, 'c, 'd) lg"
    by (rule wp_bind, rule wp_end [OF that]) (auto simp: is_terminator_def targets_def elim: wp_restful [OF _ last])
  show "wp tot (\<lambda>n. gbind (enter_function L f) (\<lambda>_. gbind (gset (\<lambda>g. g\<lparr>cur_ret_ty := None\<rparr>)) (\<lambda>_.
      gbind lg_push_scope (\<lambda>_. gbind (giter (bind_param L f) (map (\<lambda>(j, s, ty). (j, s, ty, None))
        (enumerate 0 (handler_params L k)))) (\<lambda>_.
      gbind (emit_body L n body) (\<lambda>_. gbind lg_pop_scope (\<lambda>_.
      gbind (gget (block_ended L) (\<lambda>e. gwhen (\<not> e) (perform L BuildRetVoid))) (\<lambda>_.
      gset (\<lambda>g. g\<lparr>cur_fn := fn, cur_ret_ty := ret\<rparr>))))))))) (\<lambda>_. rests tot L V anything X) g"
    by (rule wp_bind, rule wp_enter [OF g], rule wp_bind, erule wp_calm [OF calm], simp,
        rule wp_frame [where body = "Some body", unfolded each_opt_def option.case]) (use assms fin in auto)
qed

definition elem_bodies :: "ui_elem \<Rightarrow> node list" where
  "elem_bodies e = list_of (ue_click e) @ list_of (ue_key e) @ list_of (ue_change e)"

lemma set_list_of [simp]: "set (list_of x) = set_option x"
  by (cases x) (simp_all add: list_of_def)

lemma restful_handlers [restful_rules]:
  assumes "\<And>e b. e \<in> set (all_elems ds) \<Longrightarrow> b \<in> set (elem_bodies e) \<Longrightarrow> fit_body tot b"
  shows "restful tot L V anything (\<lambda>n. llg_emit_ui_handlers L n ds)"
proof -
  have "restful tot L V anything (\<lambda>n. emit_handlers_of L n ie)" if "snd ie \<in> set (all_elems ds)" for ie
    unfolding emit_handlers_of_def
    by (intro restful_prod restful_bind restful_each restful_handler; rule assms [OF that]) (simp_all add: elem_bodies_def)
  moreover have "snd ie \<in> set (all_elems ds)" if "ie \<in> set (enumerate 0 (all_elems ds))" for ie
    by (cases ie) (use that in \<open>auto simp: enumerate_eq_zip dest: set_zip_rightD\<close>)
  ultimately show ?thesis
    unfolding llg_emit_ui_handlers_def llg_declare_ui_runtime_def
    by (intro restful_bind restful_iter restful_routine) simp
qed

subsection \<open>The module\<close>

definition decl_bodies :: "node \<Rightarrow> node list" where
  "decl_bodies d =
     list_of (fn_body d) @ (case nas d of NODE_IMPL_DECL _ _ _ ms \<Rightarrow> concat (map (\<lambda>m. list_of (fn_body m)) ms) | _ \<Rightarrow> [])"

text \<open>Every body of the program: of functions, methods and handlers.\<close>

definition bodies :: "node list \<Rightarrow> node list" where
  "bodies ds = concat (map decl_bodies ds) @ concat (map elem_bodies (all_elems ds))"

definition fit_program :: "bool \<Rightarrow> node list \<Rightarrow> bool" where
  "fit_program tot ds \<longleftrightarrow> list_all (fit_body tot) (bodies ds)"

lemma restful_emit_decl [restful_rules]:
  assumes "\<And>b. b \<in> set (decl_bodies d) \<Longrightarrow> fit_body tot b"
  shows "restful tot L V anything (\<lambda>n. emit_decl L n d)"
proof (cases "nas d")
  case (NODE_FN_DECL s ow a tps ps ret body pub)
  with assms show ?thesis
    by (auto simp: emit_decl_def decl_bodies_def intro!: restful_rules)
next
  case (NODE_IMPL_DECL target a iname ms)
  with assms show ?thesis
    by (auto simp: emit_decl_def decl_bodies_def intro!: restful_rules)
qed (simp_all add: emit_decl_def restful_ret)

lemma wp_module:
  assumes "fit_program tot ds" "tot \<Longrightarrow> no_generics ds" "rests tot L V (known tot ds) X g"
  shows "wp tot (\<lambda>n. generate_module L n ds) (\<lambda>_. rests tot L V anything X) g"
proof -
  have fit: "fit_body tot b" if "b \<in> set (bodies ds)" for b
    using assms(1) that by (auto simp: fit_program_def list_all_iff)
  have fn: "fit_body tot b" if "d \<in> set ds" "fn_body d = Some b" for d b
    using that by (intro fit) (auto simp: bodies_def decl_bodies_def)
  have rest: "restful tot L V anything (\<lambda>n. gbind (giter (emit_decl L n) ds)
      (\<lambda>_. gwhen (llg_prog_has_ui ds) (llg_emit_ui_handlers L n ds)))"
    by (intro restful_rules; rule fit) (auto simp: bodies_def)
  show ?thesis
    unfolding generate_module_def emit_all_def
    apply (rule wp_bind, rule wp_restful [OF assms(3) restful_push])
    apply (rule wp_bind, erule wp_restful, rule restful_declare_all, erule assms(2))
    apply (rule wp_bind, rule wp_bind, erule wp_restful, rule restful_interfaces)
    apply (rule wp_bind, erule wp_restful, rule restful_comptime)
    apply (rule wp_bind, erule wp_instantiate, erule (1) fn)
    apply (erule wp_restful [OF _ rest], erule wp_restful, rule restful_pop)
    apply assumption
    done
qed

lemma rests_init:
  assumes "llvm_laws L V" "intact V m" "open_blocks L V m = {}" "tot \<Longrightarrow> no_generics ds"
  shows "rests tot L V (known tot ds) {} (lg_init ds m)"
  using assms by (simp add: rests_def lg_init_def insts_def known_def tame_def)

end
