(* ===== verification/Gen_Sample.thy ===== *)
theory Gen_Sample
  imports Gen_Functions
begin

text \<open>
  A library that keeps the laws: a module is the list of its blocks, each the list of its calls, last first.
  It is what the theorems are applied to at concrete programs.
\<close>

datatype sample_type =
    VoidTy | IntTy nat | FloatTy | DoubleTy | PtrTy | ArrayTy sample_type nat | StructTy string "sample_type list"
  | FnTy sample_type "sample_type list"

datatype sample_value =
    Register sample_type nat
  | Param sample_type nat
  | FnValue string sample_type
  | IntConst sample_type "64 word"
  | OtherConst sample_type

type_synonym sample_call = "(sample_type, sample_value, nat) llvm_call"

record sample_module =
  block_calls :: "sample_call list list"
  insert_at :: "nat option"
  registers :: nat
  well_formed :: bool

definition sample_terminated :: "nat \<Rightarrow> sample_module \<Rightarrow> bool" where
  "sample_terminated b m \<longleftrightarrow>
     b < length (block_calls m) \<and> (case block_calls m ! b of [] \<Rightarrow> False | c # _ \<Rightarrow> is_terminator c)"

definition sample_result :: "sample_call \<Rightarrow> sample_type" where
  "sample_result c =
     (case c of
        BuildAlloca _ _ \<Rightarrow> PtrTy
      | BuildLoad ty _ _ \<Rightarrow> ty
      | BuildGlobalString _ _ \<Rightarrow> PtrTy
      | BuildCast _ _ ty _ \<Rightarrow> ty
      | BuildCmp _ _ _ _ \<Rightarrow> IntTy 1
      | BuildGEP _ _ _ _ \<Rightarrow> PtrTy
      | BuildStructGEP _ _ _ _ \<Rightarrow> PtrTy
      | BuildPhi ty _ _ \<Rightarrow> ty
      | AddFunction _ _ \<Rightarrow> PtrTy
      | AddGlobal _ _ \<Rightarrow> PtrTy
      | _ \<Rightarrow> IntTy 32)"

definition sample_type_of :: "sample_value \<Rightarrow> sample_type" where
  "sample_type_of v =
     (case v of Register ty _ \<Rightarrow> ty | Param ty _ \<Rightarrow> ty | FnValue _ _ \<Rightarrow> PtrTy | IntConst ty _ \<Rightarrow> ty | OtherConst ty \<Rightarrow> ty)"

definition sample_value_of :: "sample_call \<Rightarrow> sample_module \<Rightarrow> sample_value" where
  "sample_value_of c m = (case c of AddFunction s ty \<Rightarrow> FnValue s ty | _ \<Rightarrow> Register (sample_result c) (registers m))"

definition in_place :: "sample_call \<Rightarrow> sample_module \<Rightarrow> bool" where
  "in_place c m \<longleftrightarrow>
     is_outside c \<or>
     list_all (\<lambda>b. b < length (block_calls m)) (targets c) \<and>
     (case insert_at m of None \<Rightarrow> False | Some b \<Rightarrow> b < length (block_calls m) \<and> \<not> sample_terminated b m)"

definition sample_do :: "sample_call \<Rightarrow> sample_module \<Rightarrow> sample_value \<times> sample_module" where
  "sample_do c m =
     (sample_value_of c m,
      case (c, insert_at m) of
        (PositionAtEnd b, _) \<Rightarrow> m\<lparr>insert_at := Some b\<rparr>
      | (_, Some b) \<Rightarrow>
          if is_outside c then m\<lparr>registers := Suc (registers m)\<rparr>
          else m\<lparr>registers := Suc (registers m), well_formed := well_formed m \<and> in_place c m,
                 block_calls := (block_calls m)[b := c # block_calls m ! b]\<rparr>
      | (_, None) \<Rightarrow> m\<lparr>registers := Suc (registers m), well_formed := well_formed m \<and> in_place c m\<rparr>)"

definition sample_llvm :: "(sample_type, sample_value, nat, sample_module) llvm" where
  "sample_llvm =
     \<lparr>void_type = VoidTy, int_type = IntTy, float_type = FloatTy, double_type = DoubleTy, pointer_type = PtrTy,
      array_type = ArrayTy, struct_type = StructTy [], function_type = FnTy,
      named_struct = (\<lambda>s tys packed m. (StructTy s tys, m)),
      kind_of = (\<lambda>ty. case ty of
          VoidTy \<Rightarrow> VoidTypeKind | IntTy _ \<Rightarrow> IntegerTypeKind | FloatTy \<Rightarrow> FloatTypeKind | DoubleTy \<Rightarrow> DoubleTypeKind
        | PtrTy \<Rightarrow> PointerTypeKind | StructTy _ _ \<Rightarrow> StructTypeKind | _ \<Rightarrow> OtherTypeKind),
      int_width = (\<lambda>ty. case ty of IntTy w \<Rightarrow> w | _ \<Rightarrow> 0),
      store_size = (\<lambda>ty. case ty of IntTy w \<Rightarrow> (w + 7) div 8 | _ \<Rightarrow> 8),
      return_type = (\<lambda>ty. case ty of FnTy r _ \<Rightarrow> r | _ \<Rightarrow> VoidTy),
      param_types = (\<lambda>ty. case ty of FnTy _ ps \<Rightarrow> ps | _ \<Rightarrow> []),
      field_type = (\<lambda>ty i. case ty of StructTy _ tys \<Rightarrow> if i < length tys then tys ! i else VoidTy | _ \<Rightarrow> VoidTy),
      type_of = sample_type_of,
      const_int = IntConst, const_real = (\<lambda>ty s. OtherConst ty), const_null = OtherConst,
      const_struct = (\<lambda>ty vs. OtherConst ty), undef_value = OtherConst,
      get_param = (\<lambda>f i. case f of FnValue _ (FnTy _ ps) \<Rightarrow> Param (if i < length ps then ps ! i else VoidTy) i | _ \<Rightarrow> Param VoidTy i),
      append_block = (\<lambda>f s m. (length (block_calls m), m\<lparr>block_calls := block_calls m @ [[]]\<rparr>)),
      terminated = sample_terminated, llvm_do = sample_do\<rparr>"

definition sample_view :: "(nat, sample_module) view" where
  "sample_view = \<lparr>blocks_in = (\<lambda>m. {..<length (block_calls m)}), builder_at = insert_at, intact = well_formed\<rparr>"

definition sample_start :: sample_module where
  "sample_start = \<lparr>block_calls = [], insert_at = None, registers = 0, well_formed = True\<rparr>"

lemma sample_open: "open_blocks sample_llvm sample_view m = {b. b < length (block_calls m) \<and> \<not> sample_terminated b m}"
  by (auto simp: open_blocks_def sample_llvm_def sample_view_def)

lemma sample_place: "well_placed sample_llvm sample_view c m \<longleftrightarrow> in_place c m"
  by (auto simp: well_placed_def in_place_def sample_open list_all_iff) (auto simp: sample_view_def sample_llvm_def split: option.splits)

lemma sample_laws: "llvm_laws sample_llvm sample_view"
  unfolding llvm_laws_def sample_place sample_open
proof (intro conjI allI impI)
  fix f s m
  show "case append_block sample_llvm (Some f) s m of (b, m') \<Rightarrow>
      b \<notin> blocks_in sample_view m \<and> blocks_in sample_view m' = insert b (blocks_in sample_view m) \<and>
      {b. b < length (block_calls m') \<and> \<not> sample_terminated b m'} =
        insert b {b. b < length (block_calls m) \<and> \<not> sample_terminated b m} \<and>
      builder_at sample_view m' = builder_at sample_view m \<and> (intact sample_view m \<longrightarrow> intact sample_view m')"
    by (auto simp: sample_llvm_def sample_view_def sample_terminated_def nth_append less_Suc_eq)
next
  fix s tys packed m
  show "case named_struct sample_llvm s tys packed m of (ty, m') \<Rightarrow>
      blocks_in sample_view m' = blocks_in sample_view m \<and>
      {b. b < length (block_calls m') \<and> \<not> sample_terminated b m'} =
        {b. b < length (block_calls m) \<and> \<not> sample_terminated b m} \<and>
      builder_at sample_view m' = builder_at sample_view m \<and> (intact sample_view m \<longrightarrow> intact sample_view m')"
    by (simp add: sample_llvm_def)
next
  fix c m
  assume p: "in_place c m"
  show "case llvm_do sample_llvm c m of (v, m') \<Rightarrow>
      blocks_in sample_view m' = blocks_in sample_view m \<and>
      {b. b < length (block_calls m') \<and> \<not> sample_terminated b m'} =
        (if is_terminator c
         then {b \<in> {b. b < length (block_calls m) \<and> \<not> sample_terminated b m}. builder_at sample_view m \<noteq> Some b}
         else {b. b < length (block_calls m) \<and> \<not> sample_terminated b m}) \<and>
      builder_at sample_view m' = (case c of PositionAtEnd b \<Rightarrow> Some b | _ \<Rightarrow> builder_at sample_view m) \<and>
      (intact sample_view m \<longrightarrow> intact sample_view m')"
  proof (cases "is_outside c")
    case True
    then show ?thesis
      by (cases c; cases "insert_at m")
        (auto simp: sample_llvm_def sample_view_def sample_do_def is_outside_def is_terminator_def sample_terminated_def in_place_def)
  next
    case False
    with p obtain b where b: "insert_at m = Some b" "b < length (block_calls m)" "\<not> sample_terminated b m"
      by (auto simp: in_place_def split: option.splits)
    have m': "snd (sample_do c m) = m\<lparr>registers := Suc (registers m), well_formed := well_formed m,
        block_calls := (block_calls m)[b := c # block_calls m ! b]\<rparr>"
      using False p b(1) by (cases c) (simp_all add: sample_do_def is_outside_def)
    have t: "sample_terminated x (snd (sample_do c m)) \<longleftrightarrow> (if x = b then is_terminator c else sample_terminated x m)"
      for x using b(2) by (auto simp: m' sample_terminated_def)
    have l: "length (block_calls (snd (sample_do c m))) = length (block_calls m)" by (simp add: m')
    have v: "blocks_in sample_view (snd (sample_do c m)) = blocks_in sample_view m"
      "builder_at sample_view (snd (sample_do c m)) = builder_at sample_view m"
      "intact sample_view m \<longrightarrow> intact sample_view (snd (sample_do c m))"
      by (simp_all add: m' sample_view_def)
    have n: "builder_at sample_view m = (case c of PositionAtEnd b \<Rightarrow> Some b | _ \<Rightarrow> builder_at sample_view m)"
      using False by (cases c) (simp_all add: is_outside_def)
    have o: "{x. x < length (block_calls (snd (sample_do c m))) \<and> \<not> sample_terminated x (snd (sample_do c m))} =
        (if is_terminator c
         then {x \<in> {x. x < length (block_calls m) \<and> \<not> sample_terminated x m}. builder_at sample_view m \<noteq> Some x}
         else {x. x < length (block_calls m) \<and> \<not> sample_terminated x m})"
      using b by (auto simp: t l sample_view_def)
    have d: "llvm_do sample_llvm c m = (fst (sample_do c m), snd (sample_do c m))" by (simp add: sample_llvm_def)
    show ?thesis unfolding d prod.case using v n o by simp
  qed
qed

end
