(* ===== verification/Gen_Front.thy ===== *)
theory Gen_Front
  imports Gen_Functions Parser_Decl
begin

text \<open>
  What the parser returns is fit to be translated: the first clause of every \<^verbatim>\<open>for\<close> is a declaration or an
  expression.
\<close>

subsection \<open>What a parser makes\<close>

definition makes :: "'a parse \<Rightarrow> ('a \<Rightarrow> bool) \<Rightarrow> bool" where
  "makes m P \<longleftrightarrow> (\<forall>p x q. m p = Done x q \<longrightarrow> P x)"

named_theorems makes_rules \<open>what a parser makes\<close>

lemma makesD: "makes m P \<Longrightarrow> m p = Done x q \<Longrightarrow> P x"
  unfolding makes_def by blast

lemma makes_any: "makes m (\<lambda>_. True)"
  by (simp add: makes_def)

lemma makes_ret [makes_rules]: "P x \<Longrightarrow> makes (ret x) P"
  by (simp add: makes_def ret_def)

lemma makes_fail [makes_rules]: "makes (fail e) P"
  by (simp add: makes_def fail_def)

lemma makes_bind: "makes m R \<Longrightarrow> (\<And>x. R x \<Longrightarrow> makes (f x) P) \<Longrightarrow> makes (bind m f) P"
  by (fastforce simp: makes_def bind_def split: outcome.splits)

lemma makes_then: "(\<And>x. makes (f x) P) \<Longrightarrow> makes (bind m f) P"
  by (rule makes_bind [OF makes_any])

lemma makes_mono: "makes m P \<Longrightarrow> (\<And>x. P x \<Longrightarrow> Q x) \<Longrightarrow> makes m Q"
  by (auto simp: makes_def)

lemma makes_if [makes_rules]: "(c \<Longrightarrow> makes m P) \<Longrightarrow> (\<not> c \<Longrightarrow> makes m' P) \<Longrightarrow> makes (if c then m else m') P"
  by simp

lemma makes_option [makes_rules]:
  "(x = None \<Longrightarrow> makes m P) \<Longrightarrow> (\<And>y. x = Some y \<Longrightarrow> makes (f y) P) \<Longrightarrow> makes (case x of None \<Rightarrow> m | Some y \<Rightarrow> f y) P"
  by (cases x) simp_all

lemma makes_prod [makes_rules]: "(\<And>a b. x = (a, b) \<Longrightarrow> makes (f a b) P) \<Longrightarrow> makes (case x of (a, b) \<Rightarrow> f a b) P"
  by (cases x) simp

lemma makes_if_match [makes_rules]: "makes a P \<Longrightarrow> makes b P \<Longrightarrow> makes (if_match k a b) P"
  unfolding if_match_def [abs_def] by (rule makes_then) simp

lemma makes_dispatch [makes_rules]:
  "(\<And>k m. (k, m) \<in> set es \<Longrightarrow> makes m P) \<Longrightarrow> makes d P \<Longrightarrow> makes (dispatch es d) P"
proof (induction es)
  case (Cons e es)
  have "dispatch (e # es) d = if_match (fst e) (snd e) (dispatch es d)" by (rule ext) simp
  moreover have "makes (snd e) P" using Cons.prems(1) [of "fst e" "snd e"] by simp
  ultimately show ?case using Cons by (auto intro!: makes_if_match)
qed (simp add: makes_def)

lemma makes_opt_match: "makes a P \<Longrightarrow> makes (opt_match k a) (\<lambda>x. \<forall>y. x = Some y \<longrightarrow> P y)"
  unfolding opt_match_def [abs_def] by (intro makes_if_match makes_ret) (auto elim: makes_bind intro: makes_ret)

lemma makes_unless_check: "makes a P \<Longrightarrow> makes (unless_check k a) (\<lambda>x. \<forall>y. x = Some y \<longrightarrow> P y)"
  unfolding unless_check_def [abs_def] by (rule makes_then) (auto elim: makes_bind intro: makes_ret)

lemma makes_loop:
  assumes "\<And>acc. I acc \<Longrightarrow> makes (body acc) (\<lambda>r. case r of Inl a \<Rightarrow> I a | Inr x \<Rightarrow> P x)" "I acc"
  shows "makes (ploop n body acc) P"
  using assms(2)
proof (induction n arbitrary: acc)
  case (Suc n)
  have "ploop (Suc n) body acc = bind (body acc) (\<lambda>r. case r of Inl acc' \<Rightarrow> ploop n body acc' | Inr x \<Rightarrow> ret x)"
    by (rule ext) simp
  moreover have "makes (bind (body acc) (\<lambda>r. case r of Inl acc' \<Rightarrow> ploop n body acc' | Inr x \<Rightarrow> ret x)) P"
    by (rule makes_bind, rule assms(1), rule Suc.prems) (use Suc.IH in \<open>auto split: sum.splits intro: makes_ret\<close>)
  ultimately show ?case by simp
qed (simp add: makes_def fail_def)

lemma makes_until:
  assumes "\<And>acc. I acc \<Longrightarrow> makes (body acc) I" "I acc"
  shows "makes (until_close n k body acc) I"
  unfolding until_close_def [abs_def]
proof (rule makes_loop [where I = I])
  fix acc
  assume "I acc"
  then have "makes (bind (body acc) (\<lambda>b. ret (Inl b))) (\<lambda>r. case r of Inl a \<Rightarrow> I a | Inr x \<Rightarrow> I x)"
    by (intro makes_bind [OF assms(1)] makes_ret) simp_all
  with \<open>I acc\<close> show "makes (bind (check k) (\<lambda>c. if c then ret (Inr acc) else bind (check TOK_EOF)
      (\<lambda>e. if e then ret (Inr acc) else bind (body acc) (\<lambda>b. ret (Inl b)))))
      (\<lambda>r. case r of Inl a \<Rightarrow> I a | Inr x \<Rightarrow> I x)"
    by - (rule makes_then, rule makes_if, simp add: makes_ret, rule makes_then, rule makes_if,
        simp_all add: makes_ret)
qed (rule assms(2))

lemma makes_list: "makes item P \<Longrightarrow> makes (list_until n k item) (\<lambda>xs. \<forall>x \<in> set xs. P x)"
  unfolding list_until_def [abs_def]
  by (rule makes_until) (auto elim!: makes_bind intro!: makes_ret)

subsection \<open>Statements\<close>

lemma nas_new [simp]: "nas (node_new t a) = a"
  by (simp add: node_new_def)

lemma fit_new: "fit_stmt tot (node_new t a) \<longleftrightarrow> fit_node tot (Node 0 0 a) \<and> list_all (fit_stmt tot) (substmts (Node 0 0 a))"
  by (subst fit_stmt.simps) (simp add: fit_node_def substmts_def)

lemmas fit_simps = fit_new fit_node_def substmts_def list_all_iff

lemma fit_block_stmts: "fit_stmt tot b \<Longrightarrow> s \<in> set (block_stmts b) \<Longrightarrow> fit_stmt tot s"
  by (rule fit_stmt_sub) (auto simp: block_stmts_def substmts_def split: node_as.splits)

lemma fit_else: "\<forall>en. e = Some en \<longrightarrow> fit_stmt tot en \<Longrightarrow> s \<in> set (else_stmts e) \<Longrightarrow> fit_stmt tot s"
  by (erule else_stmts_cases) (auto intro: fit_block_stmts)

lemma makes_block_of: "makes ps (fit_stmt False) \<Longrightarrow> makes (parse_block_of ps n) (fit_stmt False)"
  unfolding parse_block_of_def [abs_def]
  by (rule makes_then, rule makes_bind [OF makes_list]) (auto intro!: makes_then makes_ret simp: fit_simps)

lemma makes_const_rest: "makes (parse_const_rest pe n at m1 m2 m3) (fit_stmt False)"
  unfolding parse_const_rest_def [abs_def] by (intro makes_then makes_ret) (simp add: fit_simps)

lemma makes_let_head: "makes (parse_let_head pe n t) (\<lambda>s. fit_stmt False s \<and> simple_init s)"
  unfolding parse_let_head_def [abs_def] by (intro makes_then makes_ret) (simp add: fit_simps simple_init_def)

lemma makes_let: "makes (parse_let pe n t) (fit_stmt False)"
  unfolding parse_let_def [abs_def]
  by (rule makes_bind [OF makes_let_head]) (auto intro: makes_then makes_ret)

lemma makes_for_init: "makes (parse_for_init pe n t) simple_init"
  unfolding parse_for_init_def [abs_def]
  by (intro makes_if_match makes_mono [OF makes_let_head] makes_then makes_ret) (auto simp: simple_init_def)

lemma makes_for: "makes pb (fit_stmt False) \<Longrightarrow> makes (parse_for pe pb n t) (fit_stmt False)"
  unfolding parse_for_def [abs_def]
  apply (rule makes_bind [OF makes_unless_check [OF makes_for_init]])
  apply (rule makes_then, rule makes_then, rule makes_then, rule makes_then)
  apply (erule makes_bind)
  apply (rule makes_ret)
  apply (auto simp: fit_simps intro: fit_block_stmts split: option.split)
  done

lemma makes_if_stmt:
  "makes pb (fit_stmt False) \<Longrightarrow> makes ps (fit_stmt False) \<Longrightarrow> makes (parse_if pe pb ps t) (fit_stmt False)"
  unfolding parse_if_def [abs_def]
  apply (rule makes_then)
  apply (rule makes_bind, assumption)
  apply (rule makes_bind [OF makes_opt_match [where P = "fit_stmt False"]])
   apply (rule makes_then, rule makes_if, assumption, assumption)
  apply (rule makes_ret)
  apply (auto simp: fit_simps intro: fit_block_stmts fit_else)
  done

lemma makes_stmt_of:
  assumes "makes pb (fit_stmt False)" "makes ps (fit_stmt False)"
  shows "makes (parse_stmt_of pe pb ps n) (fit_stmt False)"
proof -
  have "makes (parse_return pe t) (fit_stmt False)" "makes (parse_jump w NODE_BREAK t) (fit_stmt False)"
      "makes (parse_jump w NODE_CONTINUE t) (fit_stmt False)" "makes (parse_defer pe t) (fit_stmt False)"
      "makes (parse_expr_stmt pe t) (fit_stmt False)" for t w
    unfolding parse_return_def [abs_def] parse_jump_def [abs_def] parse_defer_def [abs_def] parse_expr_stmt_def [abs_def]
    by (intro makes_then makes_ret; simp add: fit_simps)+
  moreover have "makes (parse_while pe pb t) (fit_stmt False)" for t
    unfolding parse_while_def [abs_def]
    by (rule makes_then, rule makes_bind [OF assms(1)], rule makes_ret) (auto simp: fit_simps intro: fit_block_stmts)
  moreover have "makes (bind pb (\<lambda>b. ret (node_new t (NODE_LOOP b)))) (fit_stmt False)"
      "makes (bind pb (\<lambda>b. ret (node_new t (NODE_UNSAFE b)))) (fit_stmt False)" for t
    by (rule makes_bind [OF assms(1)], rule makes_ret, auto simp: fit_simps intro: fit_block_stmts)+
  ultimately show ?thesis
    unfolding parse_stmt_of_def [abs_def] parse_const_def [abs_def]
    by (intro makes_then makes_dispatch)
      (auto intro: makes_let makes_const_rest makes_if_stmt makes_for assms)
qed

lemma makes_stmt: "makes (parse_stmt n) (fit_stmt False)"
proof (induction n)
  case 0
  show ?case by (simp add: makes_def fail_def)
next
  case (Suc n)
  have "parse_stmt (Suc n) =
      parse_stmt_of (parse_expr (Suc n)) (parse_block_of (parse_stmt n) (Suc n)) (parse_stmt n) (Suc n)"
    by (rule ext) simp
  with Suc show ?case by (simp add: makes_stmt_of makes_block_of)
qed

lemma makes_block: "makes (parse_block n) (fit_body False)"
proof -
  have "makes (parse_block n) (fit_stmt False)"
    unfolding parse_block_def [abs_def] by (rule makes_block_of [OF makes_stmt])
  then show ?thesis
    by (rule makes_mono) (auto simp: fit_body_def list_all_iff intro: fit_block_stmts)
qed

subsection \<open>Elements of a user interface\<close>

definition handler_body :: "node \<Rightarrow> node list" where
  "handler_body h = (case nas h of NODE_UI_HANDLER _ b \<Rightarrow> [b] | _ \<Rightarrow> [])"

fun fit_elem :: "node \<Rightarrow> bool" where
  "fit_elem (Node l c (NODE_UI_ELEMENT k s ps cs hs)) \<longleftrightarrow>
     (\<forall>h \<in> set hs. list_all (fit_body False) (handler_body h)) \<and> (\<forall>x \<in> set cs. fit_elem x)"
| "fit_elem e \<longleftrightarrow> True"

definition fit_item :: "ui_elem \<Rightarrow> bool" where
  "fit_item e \<longleftrightarrow> list_all (fit_body False) (elem_bodies e)"

lemma fit_add_handler: "fit_item e \<Longrightarrow> list_all (fit_body False) (handler_body h) \<Longrightarrow> fit_item (add_handler e h)"
  by (auto simp: fit_item_def elem_bodies_def add_handler_def handler_body_def list_of_def
      split: node_as.splits ui_handler_kind.splits option.splits)

lemma fit_new_elem:
  assumes "\<forall>h \<in> set hs. list_all (fit_body False) (handler_body h)"
  shows "fit_item (new_elem k t hs)"
proof -
  have "fit_item e \<Longrightarrow> fit_item (foldl add_handler e hs)" for e
    using assms by (induction hs arbitrary: e) (auto intro: fit_add_handler)
  then show ?thesis by (simp add: new_elem_def fit_item_def elem_bodies_def list_of_def)
qed

lemma fit_collect: "list_all fit_item es \<Longrightarrow> fit_elem x \<Longrightarrow> list_all fit_item (llg_ui_collect es x)"
proof (induction x arbitrary: es rule: fit_elem.induct)
  case (1 l c k s ps cs hs)
  have "list_all fit_item (foldl llg_ui_collect es' cs')" if "list_all fit_item es'" "set cs' \<subseteq> set cs" for es' cs'
    using that 1 by (induction cs' arbitrary: es') auto
  moreover have "fit_item (new_elem k s hs)" using 1 by (auto intro: fit_new_elem)
  ultimately show ?case using 1(2) by simp
qed simp_all

lemma fit_all_elems:
  assumes "\<And>d. d \<in> set ds \<Longrightarrow> list_all fit_elem (app_children d)"
  shows "list_all fit_item (all_elems ds)"
proof -
  have "list_all fit_item (foldl llg_ui_collect es xs)" if "list_all fit_item es" "list_all fit_elem xs" for es xs
    using that by (induction xs arbitrary: es) (auto intro: fit_collect)
  moreover have "list_all fit_elem (concat (map app_children ds))" using assms by (auto simp: list_all_iff)
  ultimately show ?thesis by (simp add: all_elems_def)
qed

lemma makes_handler: "makes (parse_ui_handler (parse_block n)) (\<lambda>h. list_all (fit_body False) (handler_body h))"
  unfolding parse_ui_handler_def [abs_def]
  by (rule makes_then, rule makes_then, rule makes_then, rule makes_bind [OF makes_block], rule makes_ret)
    (simp add: handler_body_def)

lemma fit_elem_new: "fit_elem (node_new t (NODE_UI_ELEMENT k s ps cs hs)) \<longleftrightarrow>
    (\<forall>h \<in> set hs. list_all (fit_body False) (handler_body h)) \<and> (\<forall>x \<in> set cs. fit_elem x)"
  "fit_elem (node_new t NODE_LIT_NULL)"
  by (simp_all add: node_new_def)

definition fit_members :: "node list \<times> node list \<times> node list \<Rightarrow> bool" where
  "fit_members r \<longleftrightarrow> (case r of (ps, cs, hs) \<Rightarrow>
     (\<forall>h \<in> set hs. list_all (fit_body False) (handler_body h)) \<and> (\<forall>x \<in> set cs. fit_elem x))"

lemma makes_member:
  assumes "makes pu fit_elem" "fit_members acc"
  shows "makes (parse_ui_member pe (parse_block n) pu acc) fit_members"
  unfolding parse_ui_member_def [abs_def] using assms(2)
  by (auto simp: fit_members_def
      intro!: makes_prod makes_then makes_option makes_bind [OF makes_handler] makes_bind [OF assms(1)] makes_ret)

lemma makes_elem: "makes (parse_ui_element n) fit_elem"
proof (induction n)
  case 0
  show ?case by (simp add: makes_def fail_def)
next
  case (Suc n)
  have "parse_ui_element (Suc n) =
      parse_ui_element_of (parse_expr (Suc n)) (parse_block (Suc n)) (parse_ui_element n) (Suc n)"
    by (rule ext) simp
  moreover have "makes (parse_ui_element_of (parse_expr (Suc n)) (parse_block (Suc n)) (parse_ui_element n) (Suc n)) fit_elem"
    unfolding parse_ui_element_of_def [abs_def]
    apply (rule makes_then, rule makes_then, rule makes_option)
     apply (rule makes_then, rule makes_then, rule makes_ret, rule fit_elem_new)
    apply (rule makes_then, rule makes_then, rule makes_then)
    apply (rule makes_bind [OF makes_until [where I = fit_members]])
      apply (erule makes_member [OF Suc.IH])
     apply (simp add: fit_members_def)
    apply (rule makes_prod, rule makes_prod, rule makes_then, rule makes_ret)
    apply (simp add: fit_elem_new fit_members_def)
    done
  ultimately show ?case by simp
qed

subsection \<open>Declarations\<close>

definition fit_decl :: "node \<Rightarrow> bool" where
  "fit_decl d \<longleftrightarrow> list_all (fit_body False) (decl_bodies d) \<and> list_all fit_elem (app_children d)"

lemma fit_decl_new:
  "fit_decl (node_new t a) \<longleftrightarrow> list_all (fit_body False) (decl_bodies (Node 0 0 a)) \<and> list_all fit_elem (app_children (Node 0 0 a))"
  by (simp add: fit_decl_def decl_bodies_def app_children_def fn_body_def)

lemmas fit_decl_simps = fit_decl_new decl_bodies_def app_children_def fn_body_def list_of_def

lemma makes_fn: "makes (parse_fn_decl n pub owner) (\<lambda>d. fit_decl d \<and> list_all (fit_body False) (list_of (fn_body d)))"
  unfolding parse_fn_decl_def [abs_def]
  by (rule makes_then, rule makes_then, rule makes_then, rule makes_then, rule makes_then, rule makes_then,
      rule makes_bind [OF makes_block], rule makes_then, rule makes_ret) (simp add: fit_decl_simps)

lemma makes_impl: "makes (parse_impl n t) fit_decl"
proof -
  have m: "makes (parse_impl_method n target) (\<lambda>d. list_all (fit_body False) (list_of (fn_body d)))" for target
    unfolding parse_impl_method_def [abs_def] by (intro makes_then makes_mono [OF makes_fn]) simp
  show ?thesis
    unfolding parse_impl_def [abs_def]
    apply (rule makes_then, rule makes_then, rule makes_then)
    apply (rule makes_bind [OF makes_list [OF m]])
    apply (rule makes_then, rule makes_then, rule makes_ret)
    apply (auto simp: fit_decl_new decl_bodies_def app_children_def fn_body_def list_of_def list_all_iff split: option.splits)
    done
qed

lemma makes_app: "makes (parse_ui_app n pub t) fit_decl"
  unfolding parse_ui_app_def [abs_def]
  by (rule makes_then, rule makes_then, rule makes_then, rule makes_bind [OF makes_list [OF makes_elem]],
      rule makes_then, rule makes_then, rule makes_ret) (simp add: fit_decl_simps list_all_iff)

lemma makes_decl: "makes (parse_decl n) fit_decl"
proof -
  have "makes (parse_const_decl n t) fit_decl" "makes (parse_interface n pub t) fit_decl"
      "makes (parse_comptime n t) fit_decl" "makes (parse_packed n pub t) fit_decl" "makes (parse_struct n pub t) fit_decl"
      "makes (parse_enum n pub t) fit_decl" "makes (parse_union n pub t) fit_decl" "makes (parse_extern n pub t) fit_decl"
      "makes (parse_kernel_app n pub t) fit_decl" "makes (unexpected_token t w) fit_decl" for t pub w
    unfolding parse_const_decl_def [abs_def] parse_const_rest_def [abs_def] parse_interface_def [abs_def]
      parse_comptime_def [abs_def] parse_packed_def [abs_def] parse_struct_def [abs_def] parse_enum_def [abs_def]
      parse_union_def [abs_def] parse_extern_def [abs_def] parse_kernel_app_def [abs_def] unexpected_token_def [abs_def]
    by (intro makes_then makes_ret; simp add: fit_decl_simps)+
  then show ?thesis
    unfolding parse_decl_def [abs_def]
    by (intro makes_then makes_dispatch) (auto intro: makes_impl makes_app makes_mono [OF makes_fn])
qed

lemma makes_program:
  "makes (parse_program n) (\<lambda>prog. \<exists>ds. top_decls prog = Some ds \<and> list_all fit_decl ds)"
proof -
  have "makes (parse_decls n) (list_all fit_decl)"
    unfolding parse_decls_def [abs_def]
  proof (rule makes_loop [where I = "list_all fit_decl"])
    fix ds
    assume "list_all fit_decl ds"
    then show "makes (bind (check TOK_EOF) (\<lambda>e. if e then ret (Inr ds) else bind (parse_decl n) (\<lambda>d. ret (Inl (ds @ [d])))))
        (\<lambda>r. case r of Inl a \<Rightarrow> list_all fit_decl a | Inr x \<Rightarrow> list_all fit_decl x)"
      by - (rule makes_then, rule makes_if, simp add: makes_ret, rule makes_bind [OF makes_decl], simp add: makes_ret)
  qed simp
  then show ?thesis
    unfolding parse_program_def [abs_def]
    by - (rule makes_then, rule makes_then, erule makes_bind, simp add: makes_ret top_decls_def)
qed

lemma fit_decls: "list_all fit_decl ds \<Longrightarrow> fit_program False ds"
  using fit_all_elems [of ds]
  by (auto simp: fit_program_def bodies_def fit_decl_def fit_item_def list_all_iff)

text \<open>Every declaration of a parsed file is fit.\<close>

lemma parsed_decls_fit:
  assumes "parser_parse ts = Done (Some prog) q"
  shows "\<exists>ds. top_decls prog = Some ds \<and> list_all fit_decl ds"
proof -
  from assms have "\<exists>p. parse_program (Suc (length ts)) (parser_init ts) = Done prog p"
    by (auto simp: parser_parse_def bind_def state_def ret_def split: outcome.splits if_splits)
  then show ?thesis using makesD [OF makes_program] by blast
qed

end
