(* ===== verification/Gen_Props.thy ===== *)
theory Gen_Props
  imports Gen_Sample Gen_Front
begin

text \<open>
  Properties of the code generator: what it makes is well formed, it returns, and two translations that go
  wrong.
\<close>

subsection \<open>Programs to try the properties on\<close>

definition bare :: "node_as \<Rightarrow> node" where
  "bare a = Node 1 1 a"

text \<open>\<^verbatim>\<open>fn main() -> i32 { while true { if false { break; } } return 1; }\<close>\<close>

definition sample_program :: "node list" where
  "sample_program =
     [bare (NODE_FN_DECL ''main'' None None [] [] (Some (bare (NODE_TYPE_NAMED ''i32'')))
       (Some (bare (NODE_BLOCK
         [bare (NODE_WHILE (bare (NODE_LIT_BOOL True)) (bare (NODE_BLOCK
            [bare (NODE_IF (bare (NODE_LIT_BOOL False)) (bare (NODE_BLOCK [bare NODE_BREAK])) None)]))),
          bare (NODE_RETURN (Some (bare (NODE_LIT_INT 1))))]))) False)]"

definition made_blocks :: "nat \<Rightarrow> node list \<Rightarrow> sample_call list list option" where
  "made_blocks n ds =
     (case module_of sample_llvm n sample_start ds of
        Inl e \<Rightarrow> None | Inr g \<Rightarrow> Some (map rev (block_calls (llvm_state g))))"

lemma sample_fit: "fit_program tot sample_program"
  by (simp add: fit_program_def bodies_def sample_program_def bare_def decl_bodies_def all_elems_def app_children_def fn_body_def
      list_of_def fit_body_def fit_stmt.simps fit_node_def substmts_def block_stmts_def else_stmts_def)

lemma sample_plain: "no_generics sample_program"
  by (simp add: sample_program_def no_generics_def bare_def struct_type_params_def template_params_def)

lemma sample_begins: "intact sample_view sample_start" "open_blocks sample_llvm sample_view sample_start = {}"
  by (simp_all add: sample_open) (simp_all add: sample_view_def sample_start_def)

lemma sample_translates: "\<exists>g. module_of sample_llvm (Suc (Suc (Suc (Suc (Suc 0))))) sample_start sample_program = Inr g"
proof -
  have "made_blocks (Suc (Suc (Suc (Suc (Suc 0))))) sample_program \<noteq> None" by code_simp
  then show ?thesis by (auto simp: made_blocks_def split: sum.splits)
qed

text \<open>\<^verbatim>\<open>fn id[T](x: T) -> T { return x; } fn main() -> i32 { return id[i32](1); }\<close>\<close>

definition type_node :: "string \<Rightarrow> node" where
  "type_node s = bare (NODE_TYPE_NAMED s)"

definition generic_sample :: "node list" where
  "generic_sample =
     [bare (NODE_FN_DECL ''id'' None None [type_node ''T''] [bare (NODE_LET ''x'' (Some (type_node ''T'')) None)]
       (Some (type_node ''T'')) (Some (bare (NODE_BLOCK [bare (NODE_RETURN (Some (bare (NODE_IDENT ''x''))))]))) False),
      bare (NODE_FN_DECL ''main'' None None [] [] (Some (type_node ''i32''))
       (Some (bare (NODE_BLOCK [bare (NODE_RETURN (Some (bare (NODE_CALL
         (bare (NODE_INDEX (bare (NODE_IDENT ''id'')) (bare (NODE_IDENT ''i32'')))) [bare (NODE_LIT_INT 1)]))))]))) False)]"

lemma generic_fit: "fit_program False generic_sample"
  by (simp add: fit_program_def bodies_def generic_sample_def type_node_def bare_def decl_bodies_def all_elems_def
      app_children_def fn_body_def list_of_def fit_body_def fit_stmt.simps fit_node_def substmts_def block_stmts_def)

definition instance_type :: "node list \<Rightarrow> string \<Rightarrow> sample_type option" where
  "instance_type ds s =
     (case module_of sample_llvm 6 sample_start ds of
        Inl e \<Rightarrow> None | Inr g \<Rightarrow> map_option gl_type (lg_find_global g s))"

text \<open>The instance has the types of its argument.\<close>

lemma generic_module_instance: "instance_type generic_sample ''id_i32'' = Some (FnTy (IntTy 32) [IntTy 32])"
  by code_simp

subsection \<open>Deferred expressions with \<^verbatim>\<open>?\<close>\<close>

definition try_name :: "string \<Rightarrow> node" where
  "try_name s = bare (NODE_UNARY ''?'' (bare (NODE_IDENT s)))"

lemma emit_name:
  assumes "s \<noteq> ''None''"
  shows "llg_emit_expr L n (bare (NODE_IDENT s)) g = Inl TooDeep \<or>
    (\<exists>v m. llg_emit_expr L n (bare (NODE_IDENT s)) g = Inr (v, g\<lparr>llvm_state := m\<rparr>))"
proof (cases n)
  case (Suc d)
  then show ?thesis
    using assms
    by (cases "lg_lookup g s")
      (auto simp: emit_step_def bare_def emit_ident_def gget_def lvalue_def rvalue_def gbind_def build_def gret_def split_beta
        intro: exI [of _ "llvm_state g"])
qed (simp add: gfail_def)

lemma endless_try:
  assumes "defer_stack g = ds @ [try_name y]" "y \<noteq> ''None''" "x \<noteq> ''None''"
  shows "llg_emit_expr L n (try_name x) g = Inl TooDeep"
  using assms(1,3)
proof (induction n arbitrary: g x)
  case (Suc n)
  have "value_of (llg_emit_expr L n (bare (NODE_IDENT x))) g = Inl TooDeep \<or>
      (\<exists>v m. value_of (llg_emit_expr L n (bare (NODE_IDENT x))) g = Inr (v, g\<lparr>llvm_state := m\<rparr>))"
    using emit_name [OF Suc.prems(2), of L n g] by (auto simp: value_of_def gbind_def gret_def)
  moreover have "lg_emit_defers_range (llg_emit_expr L n) 0 g' = Inl TooDeep" if "defer_stack g' = defer_stack g" for g'
    using Suc.IH [of g' y] that Suc.prems(1) assms(2) by (simp add: lg_emit_defers_range_def gget_def gbind_def)
  ultimately show ?case
    by (auto simp: try_name_def bare_def emit_step_def emit_unary_def emit_try_def rvalue_def gbind_def build_def
        fresh_block_def perform_def goto_block_def gret_def gset_def split_beta)
qed (simp add: gfail_def)

subsection \<open>Names\<close>

lemma form_text:
  assumes "type_name_has_form s pfx"
  shows "s = pfx @ ''['' @ slice_range s (length pfx + 1) @ '']''"
proof -
  from assms obtain t where "s = pfx @ t" by (metis append_take_drop_id type_name_has_form_def)
  with assms obtain c u where t: "s = pfx @ c # u" "u \<noteq> []" by (cases t) (auto simp: type_name_has_form_def)
  then obtain v e where "u = v @ [e]" by (cases u rule: rev_cases) auto
  with t assms show ?thesis
    by (auto simp: type_name_has_form_def c_at_def slice_range_def substr_def nth_append)
qed

subsection \<open>Modules\<close>

lemma module_well_formed:
  assumes "llvm_laws L V" "intact V m" "open_blocks L V m = {}" "fit_program False ds"
    and "module_of L n m ds = Inr g"
  shows "intact V (llvm_state g) \<and> open_blocks L V (llvm_state g) = {}"
proof -
  have "wp False (\<lambda>n. generate_module L n ds) (\<lambda>_. rests False L V anything {}) (lg_init ds m)"
    by (rule wp_module [OF assms(4)]) (simp_all add: rests_init assms(1-3))
  then have "ends_in (generate_module L n ds (lg_init ds m)) (\<lambda>_. rests False L V anything {})"
    by (simp add: wp_def)
  with assms(5) show ?thesis
    by (auto simp: module_of_def ends_in_def rests_def split: sum.splits)
qed

subsection \<open>Properties\<close>

text \<open>C2: The module of a program has every block ended by exactly one terminator, its last instruction, and
  every branch leads to a block of the module: from a module of which this holds, the generator only makes
  such modules, whatever its bound. It holds of programs as the parser makes them, with generic declarations or
  without.\<close>

theorem generated_modules_well_formed:
  assumes "llvm_laws L V" "intact V m" "open_blocks L V m = {}" "fit_program False ds"
    and "module_of L n m ds = Inr g"
  shows "intact V (llvm_state g) \<and> open_blocks L V (llvm_state g) = {}"
  using assms by (rule module_well_formed)

theorem generated_modules_well_formed_witness:
  "(\<exists>g. module_of sample_llvm (Suc (Suc (Suc (Suc (Suc 0))))) sample_start sample_program = Inr g \<and>
      well_formed (llvm_state g) \<and> (\<forall>b < length (block_calls (llvm_state g)). sample_terminated b (llvm_state g))) \<and>
   (\<exists>g. module_of sample_llvm 6 sample_start generic_sample = Inr g \<and>
      map_option gl_type (lg_find_global g ''id_i32'') = Some (FnTy (IntTy 32) [IntTy 32]) \<and>
      well_formed (llvm_state g) \<and> (\<forall>b < length (block_calls (llvm_state g)). sample_terminated b (llvm_state g)))"
proof
  obtain g where g: "module_of sample_llvm (Suc (Suc (Suc (Suc (Suc 0))))) sample_start sample_program = Inr g"
    using sample_translates by blast
  from generated_modules_well_formed [OF sample_laws sample_begins sample_fit g] g
  show "\<exists>g. module_of sample_llvm (Suc (Suc (Suc (Suc (Suc 0))))) sample_start sample_program = Inr g \<and>
      well_formed (llvm_state g) \<and> (\<forall>b < length (block_calls (llvm_state g)). sample_terminated b (llvm_state g))"
    by (auto simp: sample_open) (auto simp: sample_view_def)
  obtain g where g: "module_of sample_llvm 6 sample_start generic_sample = Inr g"
    and ty: "map_option gl_type (lg_find_global g ''id_i32'') = Some (FnTy (IntTy 32) [IntTy 32])"
    using generic_module_instance by (auto simp: instance_type_def split: sum.splits)
  from generated_modules_well_formed [OF sample_laws sample_begins generic_fit g] g ty
  show "\<exists>g. module_of sample_llvm 6 sample_start generic_sample = Inr g \<and>
      map_option gl_type (lg_find_global g ''id_i32'') = Some (FnTy (IntTy 32) [IntTy 32]) \<and>
      well_formed (llvm_state g) \<and> (\<forall>b < length (block_calls (llvm_state g)). sample_terminated b (llvm_state g))"
    by (auto simp: sample_open) (auto simp: sample_view_def)
qed

text \<open>C10: The translation returns: without generic declarations, and without \<^verbatim>\<open>?\<close> in deferred expressions, all
  large bounds give the same module or fault, so the nesting of the calls is bounded by the program.\<close>

theorem translation_returns:
  assumes "llvm_laws L V" "intact V m" "open_blocks L V m = {}" "fit_program True ds" "no_generics ds"
  shows "\<exists>k r. r \<noteq> Inl TooDeep \<and> (\<forall>n \<ge> k. module_of L n m ds = r)"
proof -
  have "wp True (\<lambda>n. generate_module L n ds) (\<lambda>_. rests True L V anything {}) (lg_init ds m)"
    by (rule wp_module [OF assms(4,5)]) (simp add: rests_init assms)
  then obtain k r where r: "\<forall>n \<ge> k. generate_module L n ds (lg_init ds m) = r" "r \<noteq> Inl TooDeep"
    by (auto simp: wp_def)
  then show ?thesis
    by (intro exI [of _ k] exI [of _ "case r of Inl e \<Rightarrow> Inl e | Inr (_, g) \<Rightarrow> Inr g"])
      (auto simp: module_of_def split: sum.splits prod.splits)
qed

theorem translation_returns_witness:
  "\<exists>k r. r \<noteq> Inl TooDeep \<and> (\<forall>n \<ge> k. module_of sample_llvm n sample_start sample_program = r)"
  by (rule translation_returns [OF sample_laws sample_begins sample_fit sample_plain])

text \<open>C26: While an expression \<^verbatim>\<open>y?\<close> is deferred, no bound is enough to translate an expression \<^verbatim>\<open>x?\<close>: the early
  return of \<^verbatim>\<open>x?\<close> translates the deferred \<^verbatim>\<open>y?\<close>, whose early return translates it again.\<close>

theorem deferred_try_never_returns:
  assumes "defer_stack g = ds @ [try_name y]" "y \<noteq> ''None''" "x \<noteq> ''None''"
  shows "llg_emit_expr L n (try_name x) g = Inl TooDeep"
  using assms by (rule endless_try)

theorem deferred_try_never_returns_witness:
  "\<forall>n. llg_emit_expr sample_llvm n (try_name ''x'') ((lg_init [] sample_start)\<lparr>defer_stack := [try_name ''y'']\<rparr>) = Inl TooDeep"
  using deferred_try_never_returns
    [of "(lg_init [] sample_start)\<lparr>defer_stack := [try_name ''y'']\<rparr>" "[]" "''y''" "''x''" sample_llvm] by simp

text \<open>C23: The generator and the semantic analysis read component types alike: they take the same names for
  \<^verbatim>\<open>Option[...]\<close> and the like, find the same type between the brackets, and split the two types of a
  \<^verbatim>\<open>Result[...]\<close> at the same comma.\<close>

theorem generator_reads_component_types:
  "(lg_type_form s pfx \<longleftrightarrow> type_name_has_form s pfx) \<and> lg_split_comma t = split_top_level_comma t \<and>
   (type_name_has_form s pfx \<and> CHR ''['' \<notin> set pfx \<and> slice_range s (length pfx + 1) \<noteq> [] \<longrightarrow>
    lg_extract_inner s = Some (slice_range s (length pfx + 1)))"
proof -
  have "lg_extract_inner s = Some (slice_range s (length pfx + 1))"
    if f: "type_name_has_form s pfx" and p: "CHR ''['' \<notin> set pfx" and n: "slice_range s (length pfx + 1) \<noteq> []"
  proof -
    have "s = pfx @ ''['' @ slice_range s (length pfx + 1) @ '']''" using f by (rule form_text)
    with lg_extract_inner_form [OF p n] show ?thesis by simp
  qed
  then show ?thesis by (auto simp: lg_type_form_eq lg_split_comma_eq)
qed

theorem generator_reads_component_types_witness:
  "lg_extract_inner ''Option[i32]'' = Some ''i32'' \<and> lg_split_comma ''i32,str'' = Some (''i32'', ''str'')"
  using generator_reads_component_types [of "''Option[i32]''" "''Option''" "''i32,str''"]
  by (simp add: type_name_has_form_def slice_range_def c_at_def split_top_level_comma_def substr_def)

text \<open>The body of a \<^verbatim>\<open>loop\<close> runs once: \<^verbatim>\<open>fn main() -> i32 { loop { } return 1; }\<close> becomes three blocks, each of
  which branches to the next, and the last returns.\<close>

lemma loop_runs_once:
  "made_blocks (Suc (Suc (Suc (Suc 0))))
     [bare (NODE_FN_DECL ''main'' None None [] [] (Some (bare (NODE_TYPE_NAMED ''i32'')))
       (Some (bare (NODE_BLOCK [bare (NODE_LOOP (bare (NODE_BLOCK []))), bare (NODE_RETURN (Some (bare (NODE_LIT_INT 1))))]))) False)] =
   Some [[BuildBr 1], [BuildBr 2], [BuildRet (IntConst (IntTy 32) 1)]]"
  by code_simp

end
