(* ===== verification/Spec2Isabelle.thy ===== *)
theory Spec2Isabelle
  imports Arena Parser_Grammar Ast_Dump Sema_Scoping Typeck_Props Driver_Files Driver_Props Gen_Props
begin

text \<open>
  A verification library for the NightScript compiler, the C program under \<^verbatim>\<open>compiler/src\<close>.

  \<^bold>\<open>The program.\<close> \<^verbatim>\<open>main.c\<close> reads a source file, the other files of its package and what they import,
  and for each runs the scanner (\<^verbatim>\<open>lexer/lexer.c\<close>) and the recursive-descent parser
  (\<^verbatim>\<open>parser/parser.c\<close>), which builds trees (\<^verbatim>\<open>parser/ast.h\<close>) in an arena (\<^verbatim>\<open>common/arena.c\<close>). The trees are
  merged into one program, which the semantic analyser (\<^verbatim>\<open>sema/sema.c\<close>) checks for names, scopes and
  type names, handing a semantic model to the type checker (\<^verbatim>\<open>typeck/typeck.c\<close>). An accepted program is
  printed (\<^verbatim>\<open>parser/ast_dump.c\<close>) or translated (\<^verbatim>\<open>llvmgen/llvmgen.c\<close>).

  \<^bold>\<open>Theories and what they model.\<close> Definitions keep the names of the C functions.
  \<^item> \<open>Prelude\<close>: C strings, decimal printing, shared list lemmas.
  \<^item> \<open>Arena\<close> (\<^verbatim>\<open>arena.c\<close>): blocks with 64-bit sizes; the locale \<open>allocator\<close> states what a client relies
    on, and \<open>bump\<close> interprets it on the model of the C code.
  \<^item> \<open>Token\<close>, \<open>Lexer\<close> (\<^verbatim>\<open>token.h\<close>, \<^verbatim>\<open>token.c\<close>, \<^verbatim>\<open>lexer.c\<close>): the record \<open>lexer\<close> is the C struct, a token
    holds the slice of the source it points to. \<open>Lexer_Props\<close>: tokens are slices of the source with their
    true positions; scanning inverts printing.
  \<^item> \<open>Ast\<close> (\<^verbatim>\<open>ast.h\<close>): one constructor per node kind. \<open>Parser_Base\<close>, \<open>Parser\<close>, \<open>Parser_Decl\<close>
    (\<^verbatim>\<open>parser.c\<close>): a call returns \<open>Done\<close> with the state, or \<open>Fault\<close> where the C code leaves its buffers.
    \<open>Parser_Logic\<close> is a Hoare logic for them, \<open>Parser_Spec\<close> and \<open>Parser_Spec_Decl\<close> the contract of every
    function, \<open>Parser_Props\<close> the theorems: termination, bounds, acceptance. \<open>Parser_Grammar\<close>: expressions
    and types are parsed as an unambiguous grammar with precedences says.
  \<^item> \<open>Ast_Dump\<close> (\<^verbatim>\<open>ast_dump.c\<close>): the printer as a list of indented lines, and the table of the children of
    each kind of node that it follows.
  \<^item> \<open>Sema_Base\<close>, \<open>Sema_Register\<close>, \<open>Sema\<close> (\<^verbatim>\<open>sema.c\<close>): tables, scopes, registration, bodies and the passes
    of \<^verbatim>\<open>sema_analyze\<close>. \<open>Sema_Tables\<close> has the interfaces \<open>symbol_table\<close> and \<open>name_scope\<close>, the second also
    interpreted on the scopes of the type checker. \<open>Sema_Types\<close>: the language of type names as a
    grammar. \<open>Sema_Rules\<close>: the static semantics as inductive judgements, which \<open>Sema_Program\<close>, \<open>Sema_Stmts\<close>,
    \<open>Sema_Passes\<close> (locale \<open>adding_pass\<close>, one interpretation per pass) and \<open>Sema_Props\<close> show the analyser to
    decide. \<open>Sema_Scoping\<close>: what acceptance means for free names and jumps.
  \<^item> \<open>Typeck_Types\<close>, \<open>Typeck_Base\<close>, \<open>Typeck\<close>, \<open>Typeck_Expr\<close>, \<open>Typeck_Stmt\<close> (\<^verbatim>\<open>typeck.c\<close>): the checker as a
    state-and-fault monad. \<open>Typeck_Logic\<close> and \<open>Typeck_Runs\<close> have the locales \<open>tc_simulation\<close> and
    \<open>tc_driver\<close>, one structural argument over all checks with an instance per purpose (answers do not
    depend on the bound; the checker returns; the name buffer is not overrun). \<open>Typeck_Rules\<close> and
    \<open>Typeck_Statements\<close> are the typing rules, \<open>Typeck_Silent\<close>, \<open>Typeck_Typing\<close>, \<open>Typeck_Sound\<close>,
    \<open>Typeck_Complete\<close> and \<open>Typeck_Program\<close> the agreement of checker and rules in both directions, and
    \<open>Typeck_Total\<close> its termination. \<open>Typeck_Props\<close> collects the theorems.
  \<^item> \<open>Driver_Paths\<close>, \<open>Driver_Load\<close>, \<open>Driver\<close> (\<^verbatim>\<open>main.c\<close>): strings and the manifest \<^verbatim>\<open>night.toml\<close>; the array
    of source units, the traversal of packages and imports, and \<^verbatim>\<open>compile_source\<close>; the commands. The file
    system is the record \<open>host\<close>, a map from paths to files and directory listings. \<open>Driver_Text\<close> and
    \<open>Driver_Files\<close>: quoting, the formatter, and the commands that do not compile. \<open>Driver_Runs\<close> is a Hoare
    logic for the traversal, \<open>Driver_Imports\<close> its invariant (locale \<open>import_walk\<close>, interpreted in
    \<open>Driver_Program\<close> with the faults that are tolerated), \<open>Driver_Examples\<close> two projects that break it,
    \<open>Driver_Props\<close> the theorems.
  \<^item> \<open>Gen_Names\<close> to \<open>Gen_Module\<close> (\<^verbatim>\<open>llvmgen.c\<close>): the translation to LLVM as a state-and-fault monad over the
    struct \<^verbatim>\<open>LG\<close>. \<open>Gen_Names\<close>: mangling. \<open>Gen_Base\<close>: the interface to LLVM, scopes, registries. \<open>Gen_Types\<close>:
    types and inference. \<open>Gen_Build\<close>, \<open>Gen_Access\<close>, \<open>Gen_Index\<close>, \<open>Gen_Match\<close>, \<open>Gen_Call\<close>: expressions, one
    definition for each kind of node. \<open>Gen_Stmt\<close>: statements and functions. \<open>Gen_Setup\<close>: declarations.
    \<open>Gen_Generics\<close>: the scan for instances. \<open>Gen_Ui\<close>, \<open>Gen_Runtime\<close>: user interfaces and the C programs that
    are linked with the module. \<open>Gen_Module\<close>: the passes and both entry points, whose effects outside are
    the list of their actions.
  \<^item> \<open>Gen_Logic\<close> is a program logic for the generator, with one set of rules for partial and total
    correctness, and states what is relied on of LLVM (\<open>llvm_laws\<close>). \<open>Gen_Calm\<close>, \<open>Gen_Moves\<close>, \<open>Gen_Matches\<close> show
    what expressions do to the blocks of a module, \<open>Gen_Flow\<close>, \<open>Gen_Bodies\<close> statements, \<open>Gen_Restful\<close>,
    \<open>Gen_Functions\<close> declarations, functions and modules. \<open>Gen_Front\<close>: the parser makes what the generator
    asks for. \<open>Gen_Sample\<close>: a library that keeps the laws, to try the theorems on. \<open>Gen_Props\<close> collects the
    theorems.
  \<^item> This theory: the composition of driver, analyser and checker, and of the front end with the generator.

  \<^bold>\<open>Faults and bounds.\<close> Undefined behaviour of the C code is a value of a fault type: reads past the
  token array or a name buffer in the parser, writes past \<open>enum_name\<close> and dangling names in the checker,
  the use of a source unit after \<^verbatim>\<open>realloc\<close> in the driver. Calls that C does without a limit are bounded by
  a number. In the parser it is one more than the number of tokens, which always suffices
  (\<open>parser_terminates\<close>). In the checker it bounds the nesting of calls: \<open>typeck_returns\<close> gives a bound that is
  enough for programs without circular constants, and \<open>circular_constants_never_return\<close> shows that none is
  for the others. In the driver it bounds the nesting of imports: 128 and one more than the number of files
  are enough if every file has a package (\<open>loading_returns\<close>); \<open>circular_imports_never_return\<close> is the other case.
  In the generator it bounds the nesting of calls: \<open>translation_returns\<close> has a bound that is enough for programs
  without generics and without \<^verbatim>\<open>?\<close> in deferred expressions, \<open>deferred_try_never_returns\<close> is the other case; its
  faults are names that fill a buffer without an end, a missing argument and a type argument that was freed.

  \<^bold>\<open>Parameters.\<close> The existence of files for the analyser, the \<open>host\<close> with \<^verbatim>\<open>NIGHT_STDLIB\<close>, what may be written,
  the text of floating-point numbers, \<^verbatim>\<open>system()\<close> and the back end that the driver calls are arguments. The
  code generator takes LLVM as the record \<open>llvm\<close>: its types, values, blocks and state are type variables, the
  functions that change the module are one function \<open>llvm_do\<close> on calls with their arguments. A world is that of one
  run of the program: directory listings are those from before the run, which no command reads after writing.
  Nodes are values: where the checker compares the addresses of function declarations the model compares
  the declarations with their positions, and names of functions are unique once the analyser has accepted.

  \<^bold>\<open>Not modelled.\<close> The failure of \<^verbatim>\<open>malloc\<close>, which the code reports or ignores case by case; the text that
  \<^verbatim>\<open>strerror\<close> adds to diagnostics; \<^verbatim>\<open>print_usage\<close>; functions that only free memory. Of the code generator: its
  messages, and the result of \<^verbatim>\<open>LLVMVerifyModule\<close>, which it only prints. The Python prototype, tests, examples
  and documentation of the repository are not part of the compiler.
\<close>

subsection \<open>The phases together\<close>

lemma merged_program:
  "\<exists>l c pkg. merge_package_program us = Node l c (NODE_PROGRAM pkg
    (program_imports (merge_package_program us)) (program_decls (merge_package_program us)))"
  by (simp add: merge_package_program_def Let_def program_imports_def program_decls_def)

lemma accepted_phases:
  assumes "compile_source n h path = Inr (Some prog, ms)"
  obtains s where "prog = merge_package_program (cs_units s)" "front_end.all_loaded h path s"
    "ms = []" "well_formed_program (is_regular h) path (program_imports prog) (program_decls prog)"
    "program_typed (checker_init prog (expected_model (program_decls prog)) path)"
proof -
  from assms obtain s s' where "load_program n h path (compile_state_init (path_dirname path)) = Inr (Some prog, s)"
    and an: "analyse_program n h path prog s = Inr (Some prog, s')" and ms: "ms = cs_out s'"
    by (auto simp: compile_source_def dbind_def analyse_program_def print_diags_def say_def dset_def dret_def
        give_up_def crash_def split: sum.splits prod.splits option.splits if_splits)
  with load_program_outcome [of n h path]
  have prog: "prog = merge_package_program (cs_units s)" "front_end.all_loaded h path s" and out: "cs_out s = []"
    by (auto simp: runs_def grows_def compile_state_init_def)
  from merged_program prog(1) obtain l c pkg
    where node: "prog = Node l c (NODE_PROGRAM pkg (program_imports prog) (program_decls prog))" by metis
  from an obtain sm ds ds' where sema: "sema_analyze (is_regular h) prog path = (Some sm, ds)"
    and typed: "typeck_check n prog sm path = Inr (True, ds')"
    by (auto simp: analyse_program_def dbind_def print_diags_def say_def dset_def dret_def give_up_def crash_def
        split: sum.splits prod.splits option.splits if_splits)
  have wf: "well_formed_program (is_regular h) path (program_imports prog) (program_decls prog)"
    and sm: "sm = expected_model (program_decls prog)"
    using sema_analyze_result(1) [of "is_regular h" l c pkg "program_imports prog" "program_decls prog" path] sema
    unfolding node [symmetric] by (auto split: if_splits)
  have "ds = []"
    using accepted_silent [OF wf, of l c pkg] sema unfolding node [symmetric] by simp
  with accepted_typed [OF typed] sema typed an out have "cs_out s' = []"
    by (simp add: analyse_program_def dbind_def print_diags_def dret_def)
  with ms wf sm accepted_typed [OF typed] prog that show thesis by simp
qed

lemma file_imports_merged:
  assumes "merged p (cs_units s)" "front_end.all_loaded h path s" "file_ast h p ast"
    and "imp \<in> set (program_imports ast)"
  shows "imp \<in> set (program_imports (merge_package_program (cs_units s)))"
proof -
  from assms(1) obtain u where u: "u \<in> set (cs_units s)" "u_include u" "u_path u = p"
    by (auto simp: merged_def)
  with assms(2,3) have "u_ast u = Some ast"
    by (auto simp: front_end.all_loaded_def inv_def units_ok_def unit_ok_def dest: file_ast_unique)
  with u(1,2) assms(4) show ?thesis
    by (force simp: merge_package_program_def Let_def program_imports_def included_asts_def map_filter_def)
qed

subsection \<open>Properties\<close>

text \<open>C3: The front end accepts a program only if it is well formed (names, scopes, types, imports) and
  well typed, under the model the analyser returns, and then prints nothing.\<close>

theorem front_end_accepts:
  assumes "compile_source n h path = Inr (Some prog, ms)"
  shows "ms = [] \<and> well_formed_program (is_regular h) path (program_imports prog) (program_decls prog) \<and>
    program_typed (checker_init prog (expected_model (program_decls prog)) path)"
  using assms by (rule accepted_phases) simp

theorem front_end_accepts_witness:
  "well_formed_program (is_regular duo) ''m.afns'' [duo_import] [] \<and>
   program_typed (checker_init duo_program (expected_model []) ''m.afns'')"
  using front_end_accepts [OF duo_accepted]
  by (simp add: duo_program_def program_imports_def program_decls_def)

text \<open>C22: In an accepted program every import of every file that belongs to it is a file below the
  directory of the entry file, or has a \<^verbatim>\<open>main.afns\<close> there: what the driver finds through \<^verbatim>\<open>NIGHT_STDLIB\<close>
  or in other directories is never accepted without one.\<close>

theorem accepted_imports_exist:
  assumes "compile_source n h path = Inr (Some prog, ms)" "included h path p" "file_ast h p ast"
    and "imp \<in> set (program_imports ast)"
  shows "is_regular h (path_join (path_dirname path) (slash_path (import_path imp) @ ''.afns'')) \<or>
    is_regular h (path_join (path_dirname path) (slash_path (import_path imp) @ ''/main.afns''))"
  using assms(1)
proof (rule accepted_phases)
  fix s
  assume prog: "prog = merge_package_program (cs_units s)" and s: "front_end.all_loaded h path s"
    and wf: "well_formed_program (is_regular h) path (program_imports prog) (program_decls prog)"
  from front_end.merged_iff_included [OF s] assms(2) have "merged p (cs_units s)" by simp
  from file_imports_merged [OF this s assms(3,4)] wf prog show ?thesis
    by (simp add: well_formed_program_def list_all_iff import_ok_def import_path_exists_def Let_def)
qed

theorem accepted_imports_exist_witness:
  "is_regular duo ''./n.afns'' \<or> is_regular duo ''./n/main.afns''"
proof -
  have "path_dirname ''m.afns'' = ''.''" "import_path duo_import = ''n''" by code_simp+
  with accepted_imports_exist [OF duo_accepted included_entry duo_file, of duo_import] show ?thesis
    by (simp add: duo_program_def program_imports_def path_join_def slash_path_def)
qed

subsection \<open>From source files to modules\<close>

lemma accepted_fit:
  assumes "compile_source n h path = Inr (Some prog, ms)"
  shows "\<exists>ds. top_decls prog = Some ds \<and> fit_program False ds"
  using assms
proof (rule accepted_phases)
  fix s
  assume prog: "prog = merge_package_program (cs_units s)" and s: "front_end.all_loaded h path s"
  have "list_all fit_decl (program_decls ast)" if ast: "ast \<in> set (included_asts (cs_units s))" for ast
  proof -
    from ast obtain u where "u \<in> set (cs_units s)" "u_ast u = Some ast"
      by (auto simp: included_asts_def map_filter_def split: if_splits)
    with s have "file_ast h (u_path u) ast"
      by (auto simp: front_end.all_loaded_def inv_def units_ok_def unit_ok_def)
    then obtain ts q where "parser_parse ts = Done (Some ast) q" by (auto simp: file_ast_def)
    from parsed_decls_fit [OF this] show ?thesis
      by (cases "nas ast") (auto simp: top_decls_def program_decls_def)
  qed
  then have "list_all fit_decl (concat (map program_decls (included_asts (cs_units s))))" by (auto simp: list_all_iff)
  then show ?thesis
    by (auto simp: prog merge_package_program_def Let_def top_decls_def intro: fit_decls)
qed

text \<open>C5: What the front end accepts, the generator translates to well-formed modules: whatever bound the
  translation is given and wherever it returns, the module that is optimised, written or printed has every
  block ended and every branch inside it, provided the module it starts from is empty.\<close>

theorem accepted_programs_translate:
  assumes "compile_source k h path = Inr (Some prog, ms)" "llvm_laws L V"
    and "\<forall>t. intact V (empty_module T t) \<and> open_blocks L V (empty_module T t) = {}"
    and "llvmgen_generate L T n prog out opts = Inr r" "known_target T (target_triple opts)"
  shows "\<exists>ds m. top_decls prog = Some ds \<and> intact V m \<and> open_blocks L V m = {} \<and>
    r = finish_module T opts out ds (llg_optimize T (gen_opt_level opts) m)"
proof -
  obtain ds where ds: "top_decls prog = Some ds" "fit_program False ds" using accepted_fit [OF assms(1)] by blast
  with assms(4,5) obtain g where g: "module_of L n (empty_module T (target_triple opts)) ds = Inr g"
    and r: "r = finish_module T opts out ds (llg_optimize T (gen_opt_level opts) (llvm_state g))"
    by (auto simp: llvmgen_generate_def split: sum.splits)
  from assms(3) have "intact V (empty_module T (target_triple opts))" "open_blocks L V (empty_module T (target_triple opts)) = {}"
    by simp_all
  from module_well_formed [OF assms(2) this ds(2) g] ds(1) r show ?thesis by blast
qed

text \<open>A target for which everything works out.\<close>

definition easy_target :: "sample_module target" where
  "easy_target =
     \<lparr>known_target = (\<lambda>_. True), empty_module = (\<lambda>_. sample_start), optimize = (\<lambda>_ m. m), module_text = (\<lambda>_. []),
      object_written = (\<lambda>_ _. True), file_opens = (\<lambda>_. True), command_ok = (\<lambda>_. True), env_cc = None, sdl2_libs = None\<rparr>"

text \<open>A file with a function.\<close>

definition one_function :: host where
  "one_function = host_of [(''m'', File ''fn g()->i32{return 1;}''), (''.'', Directory [])]"

definition one_function_tree :: node where
  "one_function_tree =
     Node 1 1 (NODE_PROGRAM None []
      [Node 1 1 (NODE_FN_DECL ''g'' None None [] [] (Some (Node 1 9 (NODE_TYPE_NAMED ''i32'')))
         (Some (Node 1 12 (NODE_BLOCK [Node 1 13 (NODE_RETURN (Some (Node 1 20 (NODE_LIT_INT 1))))]))) False)])"

lemma one_function_accepted: "compile_source 12 one_function ''m'' = Inr (Some one_function_tree, [])"
  by code_simp

definition plain_options :: gen_options where
  "plain_options = \<lparr>target_triple = None, gen_opt_level = 0, emit_text = False\<rparr>"

theorem accepted_programs_translate_witness:
  "\<exists>r ds m. top_decls one_function_tree = Some ds \<and>
    llvmgen_generate sample_llvm easy_target 6 one_function_tree (Some ''m'') plain_options = Inr r \<and>
    intact sample_view m \<and> open_blocks sample_llvm sample_view m = {} \<and>
    r = finish_module easy_target plain_options (Some ''m'') ds m"
proof -
  obtain ds where d: "top_decls one_function_tree = Some ds" by (simp add: one_function_tree_def top_decls_def)
  have "Option.bind (top_decls one_function_tree) (made_blocks 6) = Some [[BuildRet (IntConst (IntTy 32) 1)]]" by code_simp
  with d obtain g where g: "module_of sample_llvm 6 sample_start ds = Inr g"
    by (auto simp: made_blocks_def split: sum.splits)
  have k: "known_target easy_target t" "empty_module easy_target t = sample_start" for t
    by (simp_all add: easy_target_def)
  obtain r where r: "llvmgen_generate sample_llvm easy_target 6 one_function_tree (Some ''m'') plain_options = Inr r"
    using g by (simp add: llvmgen_generate_def d k)
  from accepted_programs_translate [OF one_function_accepted sample_laws _ r k(1)] obtain ds' m
    where "top_decls one_function_tree = Some ds'" "intact sample_view m" "open_blocks sample_llvm sample_view m = {}"
      "r = finish_module easy_target plain_options (Some ''m'') ds' (llg_optimize easy_target (gen_opt_level plain_options) m)"
    using k(2) sample_begins by auto
  with r show ?thesis by (auto simp: llg_optimize_def plain_options_def)
qed

end
